(* ===== verification/Prelude.thy ===== *)
theory Prelude
  imports Main "HOL-Library.AList"
begin

text \<open>
  The shared base of the development.

  It holds the error values of the Go code (\<open>gerror\<close>), the result type every fallible
  function returns (an error on the left, a value on the right), the association lists that
  stand for Go maps whose size is read with \<^verbatim>\<open>len\<close>, and the generic lemmas on lists,
  association lists and stable sorting that the components share. The collections
  \<open>go_defs\<close> (definitions to unfold in a component proof) and \<open>go_inv\<close> (preservation facts)
  are filled by the components.
\<close>

named_theorems go_defs \<open>definitions a component proof unfolds\<close>
named_theorems go_inv \<open>facts that an operation keeps an invariant\<close>

section \<open>Errors and results\<close>

text \<open>
  Go's error values. The code tells three of them apart (\<^verbatim>\<open>errors.Is\<close> or \<open>==\<close>):
  \<^verbatim>\<open>context.Canceled\<close>, \<^verbatim>\<open>sql.ErrNoRows\<close> and the downloader's
  \<^verbatim>\<open>errRangeIgnored\<close>; every other one is only ever shown, so it is its message.
\<close>

datatype gerror = ErrCanceled | ErrNoRows | ErrRangeIgnored | ErrEOF | ErrMsg string

fun err_string :: "gerror \<Rightarrow> string" where
  "err_string ErrCanceled = ''context canceled''"
| "err_string ErrNoRows = ''sql: no rows in result set''"
| "err_string ErrRangeIgnored = ''server ignored the Range header''"
| "err_string ErrEOF = ''EOF''"
| "err_string (ErrMsg s) = s"

type_synonym 'a result = "gerror + 'a"

definition is_ok :: "'a result \<Rightarrow> bool" where
  "is_ok r = (case r of Inl _ \<Rightarrow> False | Inr _ \<Rightarrow> True)"

lemma is_ok_simps [simp]: "is_ok (Inl e) = False" "is_ok (Inr v) = True"
  by (simp_all add: is_ok_def)

lemma is_ok_Inr: "is_ok r \<longleftrightarrow> (\<exists>v. r = Inr v)"
  by (cases r) auto

section \<open>64-bit integers\<close>

text \<open>
  Go's \<^verbatim>\<open>int\<close> and \<^verbatim>\<open>int64\<close> are modelled as \<^typ>\<open>int\<close>; where a value could leave the
  range, \<open>wrap64\<close> writes the wrap-around out, and \<open>in_int64\<close> is the range itself.
\<close>

definition int64_min :: int where "int64_min = - 9223372036854775808"
definition int64_max :: int where "int64_max = 9223372036854775807"

definition in_int64 :: "int \<Rightarrow> bool" where
  "in_int64 i \<longleftrightarrow> int64_min \<le> i \<and> i \<le> int64_max"

definition wrap64 :: "int \<Rightarrow> int" where
  "wrap64 i = (i + 9223372036854775808) mod 18446744073709551616 - 9223372036854775808"

lemma wrap64_range: "in_int64 (wrap64 i)"
proof -
  have "0 \<le> (i + 9223372036854775808) mod 18446744073709551616"
    and "(i + 9223372036854775808) mod 18446744073709551616 < 18446744073709551616"
    by simp_all
  then show ?thesis
    unfolding in_int64_def int64_min_def int64_max_def wrap64_def by linarith
qed

lemma wrap64_id [simp]: "in_int64 i \<Longrightarrow> wrap64 i = i"
  by (simp add: in_int64_def int64_min_def int64_max_def wrap64_def)

text \<open>Go's integer division truncates towards zero.\<close>

definition go_div :: "int \<Rightarrow> int \<Rightarrow> int" where
  "go_div a b = sgn a * sgn b * (\<bar>a\<bar> div \<bar>b\<bar>)"

lemma go_div_nonneg: "0 \<le> a \<Longrightarrow> 0 < b \<Longrightarrow> go_div a b = a div b"
  by (cases "a = 0") (simp_all add: go_div_def)

section \<open>Association lists as Go maps\<close>

text \<open>
  A Go map whose \<^verbatim>\<open>len\<close> the code reads is an association list with distinct keys. The
  library's \<open>AList.update\<close> and \<open>AList.delete\<close> are the map's assignment and \<open>delete\<close>.
\<close>

definition keys_of :: "('k \<times> 'v) list \<Rightarrow> 'k set" where
  "keys_of m = fst ` set m"

definition wf_map :: "('k \<times> 'v) list \<Rightarrow> bool" where
  "wf_map m \<longleftrightarrow> distinct (map fst m)"

lemma wf_map_Nil [simp]: "wf_map []"
  by (simp add: wf_map_def)

lemma wf_map_update [simp, go_inv]: "wf_map m \<Longrightarrow> wf_map (AList.update k v m)"
  by (simp add: wf_map_def distinct_update)

lemma wf_map_delete [simp, go_inv]: "wf_map m \<Longrightarrow> wf_map (AList.delete k m)"
  by (simp add: wf_map_def distinct_delete)

lemma keys_of_update [simp]: "keys_of (AList.update k v m) = insert k (keys_of m)"
  unfolding keys_of_def dom_map_of_conv_image_fst [symmetric]
  by (auto simp: update_conv')

lemma keys_of_delete [simp]: "keys_of (AList.delete k m) = keys_of m - {k}"
  unfolding keys_of_def dom_map_of_conv_image_fst [symmetric]
  by (auto simp: delete_conv' split: if_splits)

lemma keys_of_map_of: "k \<in> keys_of m \<longleftrightarrow> map_of m k \<noteq> None"
  unfolding keys_of_def dom_map_of_conv_image_fst [symmetric] by (simp add: domIff)

lemma map_of_update [simp]: "map_of (AList.update k v m) k' = (if k' = k then Some v else map_of m k')"
  by (simp add: update_conv')

lemma map_of_delete [simp]: "map_of (AList.delete k m) k' = (if k' = k then None else map_of m k')"
  by (simp add: delete_conv')

lemma length_update:
  "length (AList.update k v m) = (if k \<in> keys_of m then length m else Suc (length m))"
  by (induction m) (auto simp: keys_of_def)

lemma length_delete_le: "length (AList.delete k m) \<le> length m"
  by (simp add: AList.delete_eq)

lemma length_delete:
  "wf_map m \<Longrightarrow> length (AList.delete k m) = (if k \<in> keys_of m then length m - 1 else length m)"
proof (induction m)
  case Nil
  then show ?case by (simp add: keys_of_def)
next
  case (Cons p m)
  have id: "AList.delete k m = m" if "k \<notin> keys_of m"
    using that by (simp add: keys_of_def delete_id)
  from Cons have IH: "length (AList.delete k m) = (if k \<in> keys_of m then length m - 1 else length m)"
    by (simp add: wf_map_def)
  show ?case
  proof (cases "fst p = k")
    case True
    with Cons.prems have "k \<notin> keys_of m"
      by (auto simp: wf_map_def keys_of_def)
    with True id show ?thesis
      by (cases p) (simp add: AList.delete_eq keys_of_def)
  next
    case False
    then have eq: "AList.delete k (p # m) = p # AList.delete k m"
      by (cases p) (simp add: AList.delete_eq)
    have mem: "k \<in> keys_of (p # m) \<longleftrightarrow> k \<in> keys_of m"
      using False by (auto simp: keys_of_def)
    have "k \<in> keys_of m \<Longrightarrow> 0 < length m"
      by (cases m) (auto simp: keys_of_def)
    then show ?thesis
      unfolding eq mem using IH by auto
  qed
qed

lemma card_keys: "wf_map m \<Longrightarrow> card (keys_of m) = length m"
  unfolding wf_map_def keys_of_def by (metis distinct_card length_map list.set_map)

section \<open>Searching lists\<close>

lemma find_Some_mem: "List.find P xs = Some x \<Longrightarrow> x \<in> set xs \<and> P x"
  by (auto simp: find_Some_iff)

lemma find_None_all: "List.find P xs = None \<longleftrightarrow> (\<forall>x\<in>set xs. \<not> P x)"
  by (auto simp: find_None_iff)

end
