(* ===== verification/GoStrings.thy ===== *)
theory GoStrings
  imports Prelude "HOL-Library.Char_ord"
begin

text \<open>
  The parts of Go's \<^verbatim>\<open>strings\<close>, \<^verbatim>\<open>strconv\<close> and \<^verbatim>\<open>path\<close> packages the modelled code
  calls, on byte strings. A Go string is a byte sequence and so is an Isabelle
  \<^typ>\<open>string\<close> (\<^typ>\<open>char\<close> has 256 values). Case mapping is the ASCII one: a byte of 128 or
  more is left as it is. The lemmas are the laws the components use: what \<open>cut\<close>,
  \<open>split\<close> and \<open>join\<close> do to each other, and that \<open>atoi\<close> reads back what \<open>itoa\<close> wrote.
\<close>

section \<open>Prefixes, suffixes, cutting\<close>

fun has_prefix :: "string \<Rightarrow> string \<Rightarrow> bool" where
  "has_prefix s [] = True"
| "has_prefix [] (p # ps) = False"
| "has_prefix (c # s) (p # ps) = (c = p \<and> has_prefix s ps)"

definition has_suffix :: "string \<Rightarrow> string \<Rightarrow> bool" where
  "has_suffix s p = has_prefix (rev s) (rev p)"

definition trim_prefix :: "string \<Rightarrow> string \<Rightarrow> string" where
  "trim_prefix s p = (if has_prefix s p then drop (length p) s else s)"

definition trim_suffix :: "string \<Rightarrow> string \<Rightarrow> string" where
  "trim_suffix s p = (if has_suffix s p then take (length s - length p) s else s)"

lemma has_prefix_iff: "has_prefix s p \<longleftrightarrow> (\<exists>r. s = p @ r)"
  by (induction s p rule: has_prefix.induct) auto

lemma has_prefix_append [simp]: "has_prefix (p @ r) p"
  by (auto simp: has_prefix_iff)

lemma has_suffix_iff: "has_suffix s p \<longleftrightarrow> (\<exists>r. s = r @ p)"
  unfolding has_suffix_def has_prefix_iff
  by (metis rev_append rev_rev_ident)

lemma has_suffix_append [simp]: "has_suffix (r @ p) p"
  by (auto simp: has_suffix_iff)

lemma has_prefix_split: "has_prefix s p \<Longrightarrow> s = p @ drop (length p) s"
  by (auto simp: has_prefix_iff)

text \<open>\<^verbatim>\<open>strings.Cut\<close> at a one-byte separator: before, after, found.\<close>

fun cut :: "char \<Rightarrow> string \<Rightarrow> string \<times> string \<times> bool" where
  "cut c [] = ([], [], False)"
| "cut c (x # xs) =
     (if x = c then ([], xs, True)
      else (let (b, a, f) = cut c xs in (x # b, a, f)))"

lemma cut_not_found: "c \<notin> set s \<Longrightarrow> cut c s = (s, [], False)"
  by (induction s) auto

lemma cut_found: "c \<notin> set b \<Longrightarrow> cut c (b @ c # a) = (b, a, True)"
  by (induction b) auto

lemma cut_before_free: "cut c s = (b, a, f) \<Longrightarrow> c \<notin> set b"
  by (induction s arbitrary: b a f) (auto split: if_splits prod.splits)

lemma cut_parts: "cut c s = (b, a, True) \<Longrightarrow> s = b @ c # a"
  by (induction s arbitrary: b a) (auto split: if_splits prod.splits)

lemma cut_False: "cut c s = (b, a, False) \<Longrightarrow> s = b \<and> a = [] \<and> c \<notin> set s"
  by (induction s arbitrary: b a) (auto split: if_splits prod.splits)

text \<open>\<^verbatim>\<open>strings.Split\<close> at a one-byte separator and \<^verbatim>\<open>strings.Join\<close>.\<close>

fun split_on :: "char \<Rightarrow> string \<Rightarrow> string list" where
  "split_on c [] = [[]]"
| "split_on c (x # xs) =
     (if x = c then [] # split_on c xs
      else (case split_on c xs of [] \<Rightarrow> [[x]] | p # ps \<Rightarrow> (x # p) # ps))"

fun join_with :: "string \<Rightarrow> string list \<Rightarrow> string" where
  "join_with sep [] = []"
| "join_with sep [p] = p"
| "join_with sep (p # q # ps) = p @ sep @ join_with sep (q # ps)"

lemma split_on_nonempty [simp]: "split_on c s \<noteq> []"
  by (induction s) (auto split: list.splits)

lemma split_on_free: "c \<notin> set s \<Longrightarrow> split_on c s = [s]"
  by (induction s) auto

lemma split_on_append: "c \<notin> set p \<Longrightarrow> split_on c (p @ c # s) = p # split_on c s"
  by (induction p) auto

lemma join_split: "join_with [c] (split_on c s) = s"
proof (induction s)
  case Nil
  then show ?case by simp
next
  case (Cons x xs)
  obtain p ps where "split_on c xs = p # ps"
    by (meson list.exhaust split_on_nonempty)
  with Cons show ?case by (cases ps) auto
qed

lemma split_join:
  "ps \<noteq> [] \<Longrightarrow> \<forall>p\<in>set ps. c \<notin> set p \<Longrightarrow> split_on c (join_with [c] ps) = ps"
proof (induction ps)
  case Nil
  then show ?case by simp
next
  case (Cons p ps)
  then show ?case by (cases ps) (auto simp: split_on_free split_on_append)
qed

lemma split_parts_free: "p \<in> set (split_on c s) \<Longrightarrow> c \<notin> set p"
  by (induction s arbitrary: p) (auto split: if_splits list.splits)

text \<open>The last index of a byte, as \<^verbatim>\<open>strings.LastIndex\<close> with a one-byte pattern.\<close>

fun last_index :: "char \<Rightarrow> string \<Rightarrow> nat option" where
  "last_index c [] = None"
| "last_index c (x # xs) =
     (case last_index c xs of Some i \<Rightarrow> Some (Suc i) | None \<Rightarrow> if x = c then Some 0 else None)"

lemma last_index_None: "last_index c s = None \<longleftrightarrow> c \<notin> set s"
  by (induction s) (auto split: option.splits)

lemma last_index_Some:
  "last_index c s = Some i \<Longrightarrow> i < length s \<and> s ! i = c \<and> c \<notin> set (drop (Suc i) s)"
  by (induction s arbitrary: i) (auto split: option.splits if_splits simp: last_index_None)

text \<open>\<^verbatim>\<open>strings.Contains\<close>, and \<^verbatim>\<open>strings.Replace\<close> of the first occurrence.\<close>

definition contains_str :: "string \<Rightarrow> string \<Rightarrow> bool" where
  "contains_str s p \<longleftrightarrow> list_ex (\<lambda>i. has_prefix (drop i s) p) [0..<Suc (length s)]"

fun replace_first :: "string \<Rightarrow> string \<Rightarrow> string \<Rightarrow> string" where
  "replace_first old new [] = (if old = [] then new else [])"
| "replace_first old new (c # cs) =
     (if has_prefix (c # cs) old then new @ drop (length old) (c # cs) else c # replace_first old new cs)"

section \<open>White space and case\<close>

text \<open>
  The UTF-8 encodings of the characters \<^verbatim>\<open>unicode.IsSpace\<close> accepts; \<^verbatim>\<open>strings.TrimSpace\<close>
  strips them from both ends.
\<close>

definition space_runes :: "string list" where
  "space_runes =
     [[CHR 0x09], [CHR 0x0A], [CHR 0x0B], [CHR 0x0C], [CHR 0x0D], [CHR 0x20],
      [CHR 0xC2, CHR 0x85], [CHR 0xC2, CHR 0xA0], [CHR 0xE1, CHR 0x9A, CHR 0x80],
      [CHR 0xE2, CHR 0x80, CHR 0x80], [CHR 0xE2, CHR 0x80, CHR 0x81],
      [CHR 0xE2, CHR 0x80, CHR 0x82], [CHR 0xE2, CHR 0x80, CHR 0x83],
      [CHR 0xE2, CHR 0x80, CHR 0x84], [CHR 0xE2, CHR 0x80, CHR 0x85],
      [CHR 0xE2, CHR 0x80, CHR 0x86], [CHR 0xE2, CHR 0x80, CHR 0x87],
      [CHR 0xE2, CHR 0x80, CHR 0x88], [CHR 0xE2, CHR 0x80, CHR 0x89],
      [CHR 0xE2, CHR 0x80, CHR 0x8A], [CHR 0xE2, CHR 0x80, CHR 0xA8],
      [CHR 0xE2, CHR 0x80, CHR 0xA9], [CHR 0xE2, CHR 0x80, CHR 0xAF],
      [CHR 0xE2, CHR 0x81, CHR 0x9F], [CHR 0xE3, CHR 0x80, CHR 0x80]]"

lemma space_runes_nonempty: "w \<in> set space_runes \<Longrightarrow> w \<noteq> []"
  by (auto simp: space_runes_def)

function trim_left_runes :: "string list \<Rightarrow> string \<Rightarrow> string" where
  "trim_left_runes ws s =
     (case List.find (\<lambda>w. w \<noteq> [] \<and> has_prefix s w) ws of
        Some w \<Rightarrow> trim_left_runes ws (drop (length w) s)
      | None \<Rightarrow> s)"
  by pat_completeness auto
termination
proof (relation "measure (\<lambda>(ws, s). length s)", goal_cases)
  case 1
  show ?case by simp
next
  case (2 ws s w)
  from find_Some_mem [OF 2] have "w \<noteq> []" and "has_prefix s w" by auto
  then show ?case by (auto simp: has_prefix_iff)
qed

declare trim_left_runes.simps [simp del]

definition trim_space :: "string \<Rightarrow> string" where
  "trim_space s =
     rev (trim_left_runes (map rev space_runes) (rev (trim_left_runes space_runes s)))"

lemma trim_left_stop:
  "(\<forall>w\<in>set ws. w = [] \<or> \<not> has_prefix s w) \<Longrightarrow> trim_left_runes ws s = s"
  by (subst trim_left_runes.simps) (auto split: option.splits dest: find_Some_mem)

lemma trim_left_suffix: "\<exists>p. s = p @ trim_left_runes ws s"
proof (induction ws s rule: trim_left_runes.induct)
  case (1 ws s)
  show ?case
  proof (cases "List.find (\<lambda>w. w \<noteq> [] \<and> has_prefix s w) ws")
    case None
    then show ?thesis by (subst trim_left_runes.simps) simp
  next
    case (Some w)
    from 1 [OF Some] obtain p
      where p: "drop (length w) s = p @ trim_left_runes ws (drop (length w) s)" by blast
    have "s = w @ drop (length w) s"
      using find_Some_mem [OF Some] by (blast intro: has_prefix_split)
    then have "s = (w @ p) @ trim_left_runes ws (drop (length w) s)"
      using p by (metis append_assoc)
    moreover have "trim_left_runes ws s = trim_left_runes ws (drop (length w) s)"
      using Some by (subst trim_left_runes.simps) simp
    ultimately show ?thesis by metis
  qed
qed

lemma trim_left_done:
  "w \<in> set ws \<Longrightarrow> w \<noteq> [] \<Longrightarrow> \<not> has_prefix (trim_left_runes ws s) w"
proof (induction ws s rule: trim_left_runes.induct)
  case (1 ws s)
  show ?case
  proof (cases "List.find (\<lambda>w. w \<noteq> [] \<and> has_prefix s w) ws")
    case None
    then have "trim_left_runes ws s = s" by (subst trim_left_runes.simps) simp
    with None 1 show ?thesis by (auto simp: find_None_all)
  next
    case (Some v)
    with 1 show ?thesis by (subst trim_left_runes.simps) simp
  qed
qed

lemma set_trim_space: "set (trim_space s) \<subseteq> set s"
proof -
  have sub: "set (trim_left_runes ws t) \<subseteq> set t" for ws t
    using trim_left_suffix [of t ws] by (metis set_append sup_ge2)
  show ?thesis
    unfolding trim_space_def using sub by (metis set_rev subset_trans)
qed

text \<open>A string of plain bytes (no space, nothing above ASCII) is its own trimming.\<close>

definition plain_byte :: "char \<Rightarrow> bool" where
  "plain_byte c \<longleftrightarrow> 32 < (of_char c :: nat) \<and> (of_char c :: nat) < 128"

lemma space_rune_not_plain:
  assumes "w \<in> set space_runes"
  shows "\<not> plain_byte (hd w) \<and> \<not> plain_byte (last w)"
proof -
  have "list_all (\<lambda>w. \<not> plain_byte (hd w) \<and> \<not> plain_byte (last w)) space_runes"
    by (simp add: space_runes_def plain_byte_def)
  then show ?thesis using assms by (simp add: list_all_iff)
qed

lemma trim_left_plain:
  assumes "s = [] \<or> plain_byte (hd s)"
    and "\<And>w. w \<in> set ws \<Longrightarrow> w \<noteq> [] \<Longrightarrow> \<not> plain_byte (hd w)"
  shows "trim_left_runes ws s = s"
proof (rule trim_left_stop, intro ballI)
  fix w assume w: "w \<in> set ws"
  show "w = [] \<or> \<not> has_prefix s w"
  proof (cases "w = []")
    case False
    with assms(2) w have "\<not> plain_byte (hd w)" by blast
    with assms(1) False show ?thesis by (auto simp: has_prefix_iff)
  qed simp
qed

lemma trim_space_plain:
  assumes "s = [] \<or> plain_byte (hd s) \<and> plain_byte (last s)"
  shows "trim_space s = s"
proof -
  have l: "trim_left_runes space_runes s = s"
    by (rule trim_left_plain) (use assms space_rune_not_plain in auto)
  have r: "trim_left_runes (map rev space_runes) (rev s) = rev s"
    by (rule trim_left_plain)
      (use assms space_rune_not_plain space_runes_nonempty in \<open>auto simp: hd_rev\<close>)
  show ?thesis by (simp add: trim_space_def l r)
qed

definition lower_byte :: "char \<Rightarrow> char" where
  "lower_byte c =
     (let n = (of_char c :: nat) in if 65 \<le> n \<and> n \<le> 90 then char_of (n + 32) else c)"

definition to_lower :: "string \<Rightarrow> string" where
  "to_lower s = map lower_byte s"

definition equal_fold :: "string \<Rightarrow> string \<Rightarrow> bool" where
  "equal_fold a b \<longleftrightarrow> to_lower a = to_lower b"

lemma lower_byte_idem [simp]: "lower_byte (lower_byte c) = lower_byte c"
  by (simp add: lower_byte_def Let_def)

lemma to_lower_idem [simp]: "to_lower (to_lower s) = to_lower s"
  by (simp add: to_lower_def)

lemma to_lower_append [simp]: "to_lower (a @ b) = to_lower a @ to_lower b"
  by (simp add: to_lower_def)


section \<open>Decimal numbers\<close>

definition digit_char :: "nat \<Rightarrow> char" where
  "digit_char d = char_of (48 + d)"

definition digit_val :: "char \<Rightarrow> nat option" where
  "digit_val c = (let n = (of_char c :: nat) in if 48 \<le> n \<and> n \<le> 57 then Some (n - 48) else None)"

lemma digit_val_char [simp]: "d < 10 \<Longrightarrow> digit_val (digit_char d) = Some d"
  by (simp add: digit_val_def digit_char_def of_char_of)

fun nat_digits :: "nat \<Rightarrow> string" where
  "nat_digits n =
     (if n < 10 then [digit_char n] else nat_digits (n div 10) @ [digit_char (n mod 10)])"

declare nat_digits.simps [simp del]

fun parse_digits :: "nat \<Rightarrow> string \<Rightarrow> nat option" where
  "parse_digits acc [] = Some acc"
| "parse_digits acc (c # cs) =
     (case digit_val c of None \<Rightarrow> None | Some d \<Rightarrow> parse_digits (10 * acc + d) cs)"

text \<open>\<^verbatim>\<open>strconv.Itoa\<close> and \<^verbatim>\<open>strconv.Atoi\<close> (out of the 64-bit range is an error).\<close>

definition itoa :: "int \<Rightarrow> string" where
  "itoa i = (if i < 0 then CHR ''-'' # nat_digits (nat (- i)) else nat_digits (nat i))"

definition atoi :: "string \<Rightarrow> int option" where
  "atoi s =
     (let neg = (s \<noteq> [] \<and> hd s = CHR ''-'');
          ds = (if s \<noteq> [] \<and> (hd s = CHR ''-'' \<or> hd s = CHR ''+'') then tl s else s)
      in if ds = [] then None
         else case parse_digits 0 ds of
                None \<Rightarrow> None
              | Some n \<Rightarrow> (let i = (if neg then - int n else int n)
                          in if in_int64 i then Some i else None))"

lemma nat_digits_nonempty [simp]: "nat_digits n \<noteq> []"
  by (subst nat_digits.simps) simp

lemma parse_digits_append:
  "parse_digits acc (a @ b) = (case parse_digits acc a of None \<Rightarrow> None | Some n \<Rightarrow> parse_digits n b)"
  by (induction a arbitrary: acc) (auto split: option.splits)

lemma parse_nat_digits [simp]: "parse_digits 0 (nat_digits n) = Some n"
proof (induction n rule: nat_digits.induct)
  case (1 n)
  show ?case
  proof (cases "n < 10")
    case True
    then show ?thesis by (subst nat_digits.simps) simp
  next
    case False
    with 1 have "parse_digits 0 (nat_digits (n div 10)) = Some (n div 10)" by simp
    with False show ?thesis by (subst nat_digits.simps) (simp add: parse_digits_append)
  qed
qed

lemma digit_char_props: "d < 10 \<Longrightarrow> (of_char (digit_char d) :: nat) = 48 + d"
  by (simp add: digit_char_def of_char_of)

lemma nat_digits_range: "c \<in> set (nat_digits n) \<Longrightarrow> 48 \<le> (of_char c :: nat) \<and> (of_char c :: nat) \<le> 57"
proof (induction n rule: nat_digits.induct)
  case (1 n)
  show ?case
  proof (cases "n < 10")
    case True
    with 1 show ?thesis by (subst (asm) (2) nat_digits.simps) (auto simp: digit_char_props)
  next
    case False
    with "1.prems" have "c \<in> set (nat_digits (n div 10)) \<or> c = digit_char (n mod 10)"
      by (subst (asm) nat_digits.simps) auto
    with False "1.IH" show ?thesis by (auto simp: digit_char_props)
  qed
qed

lemma nat_digits_free: "\<not> (48 \<le> (of_char c :: nat) \<and> (of_char c :: nat) \<le> 57) \<Longrightarrow> c \<notin> set (nat_digits n)"
  using nat_digits_range by blast

lemma nat_digits_plain: "c \<in> set (nat_digits n) \<Longrightarrow> plain_byte c"
  using nat_digits_range [of c n] by (auto simp: plain_byte_def)

lemma nat_digits_ends [simp]: "plain_byte (hd (nat_digits n))" "plain_byte (last (nat_digits n))"
  using nat_digits_plain [of "hd (nat_digits n)" n] nat_digits_plain [of "last (nat_digits n)" n]
  by simp_all

lemma nat_digits_sign:
  "CHR ''-'' \<notin> set (nat_digits n)" "CHR ''+'' \<notin> set (nat_digits n)" "CHR '','' \<notin> set (nat_digits n)"
  by (auto dest: nat_digits_range)

lemma hd_nat_digits: "hd (nat_digits n) \<noteq> CHR ''-''" "hd (nat_digits n) \<noteq> CHR ''+''"
  using nat_digits_sign [of n] by (metis hd_in_set nat_digits_nonempty)+

lemma atoi_itoa [simp]: "in_int64 i \<Longrightarrow> atoi (itoa i) = Some i"
  by (auto simp: atoi_def itoa_def Let_def hd_nat_digits)

lemma atoi_range: "atoi s = Some i \<Longrightarrow> in_int64 i"
  by (auto simp: atoi_def Let_def split: if_splits option.splits)

lemma itoa_nonempty [simp]: "itoa i \<noteq> []"
  by (simp add: itoa_def)

lemma itoa_inj: "in_int64 i \<Longrightarrow> in_int64 j \<Longrightarrow> itoa i = itoa j \<Longrightarrow> i = j"
  by (metis atoi_itoa option.inject)

section \<open>Paths with forward slashes\<close>

text \<open>
  \<^verbatim>\<open>path.Base\<close> (and \<^verbatim>\<open>filepath.Base\<close> on Unix): the last element, with trailing slashes
  dropped; \<^verbatim>\<open>"."\<close> for the empty path and \<^verbatim>\<open>"/"\<close> for one of slashes only.
\<close>

definition path_base :: "string \<Rightarrow> string" where
  "path_base p =
     (if p = [] then ''.''
      else (let t = rev (dropWhile (\<lambda>c. c = CHR ''/'') (rev p));
                b = rev (takeWhile (\<lambda>c. c \<noteq> CHR ''/'') (rev t))
            in if b = [] then ''/'' else b))"

lemma path_base_no_slash: "path_base p = ''/'' \<or> CHR ''/'' \<notin> set (path_base p)"
  by (auto simp: path_base_def Let_def dest: set_takeWhileD)

lemma path_base_nonempty [simp]: "path_base p \<noteq> []"
  by (simp add: path_base_def Let_def)

end
