(* ===== verification/GoFloat.thy ===== *)
theory GoFloat
  imports GoStrings Complex_Main
begin

text \<open>
  Go's \<^verbatim>\<open>float64\<close> as far as the modelled code uses it: a finite value is the rational it
  denotes, \<open>f64_round\<close> rounds a rational to the nearest double (ties to even, 53 bits, with
  overflow to infinity), and the operations round the exact result. Negative zero is not told
  apart from zero. \<open>f64_to_int64\<close> is the conversion \<^verbatim>\<open>int64(f)\<close>; Go leaves its value open
  out of range, and the model takes the one amd64 computes. \<open>parse_float\<close> is
  \<^verbatim>\<open>strconv.ParseFloat(s, 64)\<close>: decimal and hexadecimal syntax, underscores between digits,
  \<^verbatim>\<open>inf\<close> and \<^verbatim>\<open>nan\<close>.
\<close>

section \<open>Values and rounding\<close>

datatype float64 = FNaN | FInf bool | FFin rat

fun nat_log2 :: "nat \<Rightarrow> nat" where
  "nat_log2 n = (if n < 2 then 0 else Suc (nat_log2 (n div 2)))"

declare nat_log2.simps [simp del]

definition pow2 :: "int \<Rightarrow> rat" where
  "pow2 e = (if 0 \<le> e then 2 ^ nat e else 1 / 2 ^ nat (- e))"

text \<open>The exponent of the leading bit of a positive rational.\<close>

definition rat_log2 :: "rat \<Rightarrow> int" where
  "rat_log2 x =
     (let (a, b) = quotient_of x;
          e = int (nat_log2 (nat a)) - int (nat_log2 (nat b))
      in if x < pow2 e then e - 1 else e)"

definition round_half_even :: "rat \<Rightarrow> int" where
  "round_half_even x =
     (let f = \<lfloor>x\<rfloor>; d = x - of_int f
      in if d < 1 / 2 then f else if 1 / 2 < d then f + 1
         else if even f then f else f + 1)"

definition f64_round :: "rat \<Rightarrow> float64" where
  "f64_round x =
     (if x = 0 then FFin 0
      else let e = max (rat_log2 \<bar>x\<bar>) (- 1022);
               ulp = pow2 (e - 52);
               r = of_int (round_half_even (x / ulp)) * ulp
           in if pow2 1024 \<le> \<bar>r\<bar> then FInf (x < 0) else FFin r)"

definition f64_of_int :: "int \<Rightarrow> float64" where
  "f64_of_int i = f64_round (of_int i)"

fun f64_mul :: "float64 \<Rightarrow> float64 \<Rightarrow> float64" where
  "f64_mul (FFin a) (FFin b) = f64_round (a * b)"
| "f64_mul FNaN _ = FNaN"
| "f64_mul _ FNaN = FNaN"
| "f64_mul (FInf s) (FInf t) = FInf (s \<noteq> t)"
| "f64_mul (FInf s) (FFin b) = (if b = 0 then FNaN else FInf (s \<noteq> (b < 0)))"
| "f64_mul (FFin a) (FInf t) = (if a = 0 then FNaN else FInf ((a < 0) \<noteq> t))"

fun f64_div :: "float64 \<Rightarrow> float64 \<Rightarrow> float64" where
  "f64_div (FFin a) (FFin b) =
     (if b = 0 then (if a = 0 then FNaN else FInf (a < 0)) else f64_round (a / b))"
| "f64_div FNaN _ = FNaN"
| "f64_div _ FNaN = FNaN"
| "f64_div (FInf s) (FInf t) = FNaN"
| "f64_div (FInf s) (FFin b) = FInf (s \<noteq> (b < 0))"
| "f64_div (FFin a) (FInf t) = FFin 0"

text \<open>Comparisons: every one with NaN is false.\<close>

fun f64_le :: "float64 \<Rightarrow> float64 \<Rightarrow> bool" where
  "f64_le FNaN _ = False"
| "f64_le _ FNaN = False"
| "f64_le (FFin a) (FFin b) = (a \<le> b)"
| "f64_le (FInf s) (FInf t) = (s \<or> \<not> t)"
| "f64_le (FInf s) (FFin b) = s"
| "f64_le (FFin a) (FInf t) = (\<not> t)"

fun f64_less :: "float64 \<Rightarrow> float64 \<Rightarrow> bool" where
  "f64_less FNaN _ = False"
| "f64_less _ FNaN = False"
| "f64_less (FFin a) (FFin b) = (a < b)"
| "f64_less (FInf s) (FInf t) = (s \<and> \<not> t)"
| "f64_less (FInf s) (FFin b) = s"
| "f64_less (FFin a) (FInf t) = (\<not> t)"

text \<open>\<^verbatim>\<open>int64(f)\<close>: truncation towards zero; out of range, infinite or NaN gives the
  smallest integer, as amd64's conversion does.\<close>

fun f64_to_int64 :: "float64 \<Rightarrow> int" where
  "f64_to_int64 (FFin a) =
     (let t = (if 0 \<le> a then \<lfloor>a\<rfloor> else \<lceil>a\<rceil>) in if in_int64 t then t else int64_min)"
| "f64_to_int64 _ = int64_min"

lemma f64_to_int64_range: "in_int64 (f64_to_int64 f)"
  by (cases f) (simp_all add: Let_def in_int64_def int64_min_def int64_max_def)

section \<open>Integers below two to the 53 are exact\<close>

lemma nat_log2_bounds: "0 < n \<Longrightarrow> 2 ^ nat_log2 n \<le> n \<and> n < 2 ^ Suc (nat_log2 n)"
proof (induction n rule: nat_log2.induct)
  case (1 n)
  show ?case
  proof (cases "n < 2")
    case True
    with "1.prems" have "n = 1" by simp
    then show ?thesis by (simp add: nat_log2.simps [of "Suc 0"])
  next
    case False
    with "1.IH" have "2 ^ nat_log2 (n div 2) \<le> n div 2 \<and> n div 2 < 2 ^ Suc (nat_log2 (n div 2))"
      by simp
    with False show ?thesis by (simp add: nat_log2.simps [of n]) linarith
  qed
qed

lemma nat_log2_less: "0 < n \<Longrightarrow> n < 2 ^ k \<Longrightarrow> nat_log2 n < k"
  using nat_log2_bounds [of n] by (meson leD le_less_trans not_le power_increasing one_le_numeral)

lemma rat_log2_nat:
  assumes "0 < n"
  shows "rat_log2 (of_nat n) = int (nat_log2 n)"
proof -
  have "(2::rat) ^ nat_log2 n \<le> of_nat n"
    using nat_log2_bounds [OF assms] by (metis of_nat_le_iff of_nat_numeral of_nat_power)
  moreover have "nat_log2 (nat 1) = 0" by (simp add: nat_log2.simps)
  ultimately show ?thesis
    by (simp add: rat_log2_def pow2_def Let_def)
qed

lemma round_half_even_int [simp]: "round_half_even (of_int i) = i"
  by (simp add: round_half_even_def)

lemma f64_round_nat:
  assumes "n < 2 ^ 53"
  shows "f64_round (of_nat n) = FFin (of_nat n)"
proof (cases "n = 0")
  case True
  then show ?thesis by (simp add: f64_round_def)
next
  case False
  then have pos: "0 < n" by simp
  define k where "k = nat_log2 n"
  have k: "k \<le> 52" using nat_log2_less [OF pos assms] by (simp add: k_def)
  have e: "max (rat_log2 (of_nat n)) (- 1022) = int k"
    using rat_log2_nat [OF pos] by (simp add: k_def)
  have ulp: "pow2 (int k - 52) = 1 / 2 ^ (52 - k)"
    using k by (auto simp: pow2_def nat_diff_distrib)
  have "of_nat n / pow2 (int k - 52) = (of_int (int n * 2 ^ (52 - k)) :: rat)"
    by (simp add: ulp)
  then have r: "of_int (round_half_even (of_nat n / pow2 (int k - 52))) * pow2 (int k - 52) = (of_nat n :: rat)"
    by (simp only: round_half_even_int) (simp add: ulp)
  have small: "\<not> pow2 1024 \<le> (of_nat n :: rat)"
  proof -
    have "(of_nat n :: rat) < of_nat (2 ^ 53)" using assms by (simp only: of_nat_less_iff)
    also have "\<dots> \<le> pow2 1024" by (simp add: pow2_def)
    finally show ?thesis by simp
  qed
  show ?thesis
    using False small by (simp add: f64_round_def e Let_def r)
qed

lemma f64_of_int_exact: "0 \<le> i \<Longrightarrow> i < 2 ^ 53 \<Longrightarrow> f64_of_int i = FFin (of_int i)"
  using f64_round_nat [of "nat i"] by (simp add: f64_of_int_def nat_less_iff)

lemma f64_to_int64_of_int: "in_int64 i \<Longrightarrow> f64_to_int64 (FFin (of_int i)) = i"
  by (simp add: Let_def)

lemma f64_to_int64_of_nat: "in_int64 (int n) \<Longrightarrow> f64_to_int64 (FFin (of_nat n)) = int n"
  using f64_to_int64_of_int [of "int n"] by simp


section \<open>Parsing\<close>

definition hex_val :: "char \<Rightarrow> nat option" where
  "hex_val c =
     (let n = (of_char (lower_byte c) :: nat)
      in if 48 \<le> n \<and> n \<le> 57 then Some (n - 48)
         else if 97 \<le> n \<and> n \<le> 102 then Some (n - 87) else None)"

text \<open>The mantissa scan of \<^verbatim>\<open>readFloat\<close>: the digits read as one number, how many of
  them follow the point, whether there was any, and the unread rest.\<close>

fun scan_mant :: "bool \<Rightarrow> string \<Rightarrow> nat \<Rightarrow> nat \<Rightarrow> bool \<Rightarrow> bool \<Rightarrow> nat \<times> nat \<times> bool \<times> string" where
  "scan_mant hex [] m f dot any = (m, f, any, [])"
| "scan_mant hex (c # cs) m f dot any =
     (if c = CHR ''_'' then scan_mant hex cs m f dot any
      else if c = CHR ''.'' then
        (if dot then (m, f, any, c # cs) else scan_mant hex cs m f True any)
      else case (if hex then hex_val c else digit_val c) of
             Some d \<Rightarrow> scan_mant hex cs ((if hex then 16 else 10) * m + d) (if dot then Suc f else f) dot True
           | None \<Rightarrow> (m, f, any, c # cs))"

fun scan_exp :: "string \<Rightarrow> nat \<Rightarrow> nat option" where
  "scan_exp [] e = Some e"
| "scan_exp (c # cs) e =
     (if c = CHR ''_'' then scan_exp cs e
      else case digit_val c of Some d \<Rightarrow> scan_exp cs (10 * e + d) | None \<Rightarrow> None)"

text \<open>The exponent part, sign included; its first byte after the sign must be a digit.\<close>

definition read_exp :: "string \<Rightarrow> int option" where
  "read_exp s =
     (let neg = (s \<noteq> [] \<and> hd s = CHR ''-'');
          ds = (if s \<noteq> [] \<and> (hd s = CHR ''-'' \<or> hd s = CHR ''+'') then tl s else s)
      in if ds = [] \<or> digit_val (hd ds) = None then None
         else map_option (\<lambda>n. if neg then - int n else int n) (scan_exp ds 0))"

text \<open>Underscores stand only between digits (or after the base prefix).\<close>

fun underscore_ok :: "bool \<Rightarrow> char \<Rightarrow> string \<Rightarrow> bool" where
  "underscore_ok hex prev [] = (prev \<noteq> CHR ''_'')"
| "underscore_ok hex prev (c # cs) =
     (if digit_val c \<noteq> None \<or> hex \<and> hex_val c \<noteq> None then underscore_ok hex (CHR ''0'') cs
      else if c = CHR ''_'' then (prev = CHR ''0'' \<and> underscore_ok hex (CHR ''_'') cs)
      else prev \<noteq> CHR ''_'' \<and> underscore_ok hex (CHR ''!'') cs)"

definition pow10 :: "int \<Rightarrow> rat" where
  "pow10 e = (if 0 \<le> e then 10 ^ nat e else 1 / 10 ^ nat (- e))"

definition read_float :: "string \<Rightarrow> rat option" where
  "read_float s =
     (let hex = (2 < length s \<and> s ! 0 = CHR ''0'' \<and> lower_byte (s ! 1) = CHR ''x'');
          body = (if hex then drop 2 s else s);
          (m, f, any, rest) = scan_mant hex body 0 0 False False
      in if \<not> any then None
         else if \<not> underscore_ok hex (if hex then CHR ''0'' else CHR ''^'') body then None
         else if rest = [] then (if hex then None else Some (of_nat m * pow10 (- int f)))
         else if lower_byte (hd rest) = (if hex then CHR ''p'' else CHR ''e'') then
           (case read_exp (tl rest) of
              None \<Rightarrow> None
            | Some e \<Rightarrow> Some (if hex then of_nat m * pow2 (e - 4 * int f)
                             else of_nat m * pow10 (e - int f)))
         else None)"

definition parse_float :: "string \<Rightarrow> float64 option" where
  "parse_float s =
     (let signed = (s \<noteq> [] \<and> (hd s = CHR ''-'' \<or> hd s = CHR ''+''));
          neg = (s \<noteq> [] \<and> hd s = CHR ''-'');
          body = (if signed then tl s else s)
      in if \<not> signed \<and> to_lower s = ''nan'' then Some FNaN
         else if to_lower body = ''inf'' \<or> to_lower body = ''infinity'' then Some (FInf neg)
         else case read_float body of
                None \<Rightarrow> None
              | Some x \<Rightarrow> (case f64_round (if neg then - x else x) of
                            FFin y \<Rightarrow> Some (FFin y) | _ \<Rightarrow> None))"

lemma digit_not_special:
  assumes "48 \<le> (of_char c :: nat)" "(of_char c :: nat) \<le> 57"
  shows "c \<noteq> CHR ''_''" "c \<noteq> CHR ''.''" "c \<noteq> CHR ''-''" "c \<noteq> CHR ''+''"
    "lower_byte c \<noteq> CHR ''x''" "lower_byte c = c" "digit_val c \<noteq> None"
  using assms by (auto simp: lower_byte_def digit_val_def Let_def)

lemma scan_mant_digits:
  "\<forall>c\<in>set s. 48 \<le> (of_char c :: nat) \<and> (of_char c :: nat) \<le> 57 \<Longrightarrow>
   scan_mant False s m f False any = (the (parse_digits m s), f, any \<or> s \<noteq> [], [])"
proof (induction s arbitrary: m any)
  case Nil
  then show ?case by simp
next
  case (Cons c s)
  then have c: "48 \<le> (of_char c :: nat)" "(of_char c :: nat) \<le> 57" by auto
  note sp = digit_not_special [OF c]
  from sp(7) obtain d where "digit_val c = Some d" by auto
  with sp Cons show ?case by auto
qed

lemma underscore_ok_digits:
  "\<forall>c\<in>set s. 48 \<le> (of_char c :: nat) \<and> (of_char c :: nat) \<le> 57 \<Longrightarrow>
   p \<noteq> CHR ''_'' \<Longrightarrow> underscore_ok False p s"
  by (induction s arbitrary: p) (auto simp: digit_not_special)

lemma nat_digits_second_not_x: "lower_byte (nat_digits n ! 1) = CHR ''x'' \<Longrightarrow> \<not> 2 < length (nat_digits n)"
proof
  assume "lower_byte (nat_digits n ! 1) = CHR ''x''" and "2 < length (nat_digits n)"
  moreover from this have "nat_digits n ! 1 \<in> set (nat_digits n)" by simp
  ultimately show False
    using nat_digits_range [of "nat_digits n ! 1" n] digit_not_special(5) by blast
qed

lemma read_float_digits: "read_float (nat_digits n) = Some (of_nat n)"
proof -
  have all: "\<forall>c\<in>set (nat_digits n). 48 \<le> (of_char c :: nat) \<and> (of_char c :: nat) \<le> 57"
    using nat_digits_range by blast
  have nohex: "\<not> (2 < length (nat_digits n) \<and> nat_digits n ! 0 = CHR ''0'' \<and>
      lower_byte (nat_digits n ! 1) = CHR ''x'')"
    using nat_digits_second_not_x by blast
  show ?thesis
    by (simp add: read_float_def Let_def nohex scan_mant_digits [OF all] pow10_def
      underscore_ok_digits [OF all] del: One_nat_def)
qed

lemma nat_digits_not_word:
  "to_lower (nat_digits n) \<noteq> ''nan'' \<and> to_lower (nat_digits n) \<noteq> ''inf'' \<and> to_lower (nat_digits n) \<noteq> ''infinity''"
proof -
  have "to_lower (nat_digits n) = nat_digits n"
    unfolding to_lower_def by (rule map_idI) (use nat_digits_range digit_not_special(6) in blast)
  moreover have "CHR ''n'' \<notin> set (nat_digits n)" by (rule nat_digits_free) simp
  ultimately show ?thesis by force
qed

lemma parse_float_digits:
  assumes "n < 2 ^ 53"
  shows "parse_float (nat_digits n) = Some (FFin (of_nat n))"
  using assms by (simp add: parse_float_def hd_nat_digits nat_digits_not_word Let_def
    read_float_digits f64_round_nat)

section \<open>One half\<close>

lemma rat_log2_half: "rat_log2 (1/2) = -1"
proof -
  have "quotient_of (1/2) = (1, 2)" by code_simp
  then show ?thesis by (simp add: rat_log2_def Let_def nat_log2.simps pow2_def)
qed
lemma f64_round_half: "f64_round (1/2) = FFin (1/2)"
proof -
  have "f64_round (1/2) = (let ulp = pow2 (- 53);
               r = of_int (round_half_even ((1/2) / ulp)) * ulp
           in if pow2 1024 \<le> \<bar>r\<bar> then FInf (1/2 < (0::rat)) else FFin r)"
    by (simp add: f64_round_def rat_log2_half)
  moreover have "(1/2) / pow2 (- 53) = of_int 4503599627370496" by (simp add: pow2_def)
  moreover have "round_half_even (of_int 4503599627370496) = 4503599627370496" by (rule round_half_even_int)
  ultimately show ?thesis by (simp only: Let_def) (simp add: pow2_def)
qed
lemma parse_float_half: "parse_float ''0.5'' = Some (FFin (1 / 2))"
proof -
  have "read_float ''0.5'' = Some (1 / 2)"
    by (simp add: read_float_def digit_val_def lower_byte_def hex_val_def pow10_def)
  moreover have "to_lower ''0.5'' = ''0.5''" by (simp add: to_lower_def lower_byte_def)
  ultimately show ?thesis by (simp add: parse_float_def f64_round_half)
qed

lemma parse_float_nan: "parse_float ''nan'' = Some FNaN"
  by (simp add: parse_float_def to_lower_def lower_byte_def)

end
