(* ===== verification/RateLimit.thy ===== *)
theory RateLimit
  imports GoFloat
begin

text \<open>
  \<^verbatim>\<open>internal/ratelimit/ratelimit.go\<close>: the \<^verbatim>\<open>--limit-rate\<close> syntax and the limiters built from
  it. A limiter of golang.org/x/time/rate is the pair of numbers the code sets, its rate
  (\<open>None\<close> for \<^verbatim>\<open>rate.Inf\<close>) and its burst; \<^verbatim>\<open>WaitN\<close>, which is that package's code, is a
  parameter of \<open>wait_all\<close>.
\<close>

section \<open>Parsing a rate\<close>

definition kib :: int where "kib = 1024"
definition mib :: int where "mib = 1048576"
definition gib :: int where "gib = 1073741824"

text \<open>The unit letter at the end, if there is one: the multiplier and what is left.\<close>

definition rate_unit :: "string \<Rightarrow> int \<times> string" where
  "rate_unit s =
     (let l = last s
      in if l = CHR ''k'' \<or> l = CHR ''K'' then (kib, butlast s)
         else if l = CHR ''m'' \<or> l = CHR ''M'' then (mib, butlast s)
         else if l = CHR ''g'' \<or> l = CHR ''G'' then (gib, butlast s)
         else (1, s))"

definition parse_rate :: "string \<Rightarrow> int result" where
  "parse_rate s0 =
     (let s = trim_space s0
      in if s = [] then Inl (ErrMsg ''empty rate'')
         else let (mult, num) = rate_unit s
              in case parse_float num of
                   None \<Rightarrow> Inl (ErrMsg ''invalid rate: use a number optionally followed by K/M/G, e.g. 500K or 2M'')
                 | Some n \<Rightarrow>
                     if f64_le n (FFin 0) then Inl (ErrMsg ''rate must be positive'')
                     else Inr (f64_to_int64 (f64_mul n (f64_of_int mult))))"

lemma parse_rate_range: "parse_rate s = Inr v \<Longrightarrow> in_int64 v"
  by (auto simp: parse_rate_def Let_def f64_to_int64_range split: if_splits prod.splits option.splits)

text \<open>A number with a unit letter is the number times the unit, exactly.\<close>

definition unit_mult :: "char option \<Rightarrow> int" where
  "unit_mult u =
     (case u of None \<Rightarrow> 1
      | Some c \<Rightarrow> if c = CHR ''k'' \<or> c = CHR ''K'' then kib
                  else if c = CHR ''m'' \<or> c = CHR ''M'' then mib else gib)"

definition unit_letters :: "char set" where
  "unit_letters = {CHR ''k'', CHR ''K'', CHR ''m'', CHR ''M'', CHR ''g'', CHR ''G''}"

lemma rate_unit_letter:
  "c \<in> unit_letters \<Longrightarrow> rate_unit (ds @ [c]) = (unit_mult (Some c), ds)"
  by (auto simp: rate_unit_def unit_mult_def unit_letters_def Let_def)

lemma rate_unit_none: "rate_unit (nat_digits n) = (1, nat_digits n)"
proof -
  have "last (nat_digits n) \<noteq> c" if "\<not> (48 \<le> (of_char c :: nat) \<and> (of_char c :: nat) \<le> 57)" for c
    using that nat_digits_free [OF that] by (metis last_in_set nat_digits_nonempty)
  then show ?thesis by (simp add: rate_unit_def Let_def)
qed

lemma trim_rate:
  "trim_space (nat_digits n) = nat_digits n"
  "c \<in> unit_letters \<Longrightarrow> trim_space (nat_digits n @ [c]) = nat_digits n @ [c]"
proof -
  show "trim_space (nat_digits n) = nat_digits n" by (rule trim_space_plain) simp
  assume "c \<in> unit_letters"
  then have "plain_byte c" by (auto simp: unit_letters_def plain_byte_def)
  then show "trim_space (nat_digits n @ [c]) = nat_digits n @ [c]"
    by (intro trim_space_plain) simp
qed

lemma rate_product:
  assumes "0 < n" and "int n * m < 2 ^ 53" and "m \<in> {1, kib, mib, gib}"
  shows "f64_to_int64 (f64_mul (FFin (of_nat n)) (f64_of_int m)) = int n * m"
proof -
  from assms(3) have m: "0 < m" "m < 2 ^ 53" by (auto simp: kib_def mib_def gib_def)
  define k where "k = n * nat m"
  have ik: "int k = int n * m" using m by (simp add: k_def)
  have "int k < int (2 ^ 53)" using assms(2) ik by simp
  then have k: "k < 2 ^ 53" by (simp only: of_nat_less_iff)
  have "of_nat n * of_int m = (of_nat k :: rat)"
    using m by (simp add: k_def)
  then have "f64_mul (FFin (of_nat n)) (f64_of_int m) = FFin (of_nat k)"
    using m k by (simp add: f64_of_int_exact f64_round_nat)
  moreover have "in_int64 (int k)"
    using k by (simp add: in_int64_def int64_min_def int64_max_def)
  ultimately show ?thesis
    using f64_to_int64_of_nat ik by metis
qed

lemma unit_mult_cases: "unit_mult u \<in> {1, kib, mib, gib}"
  by (auto simp: unit_mult_def split: option.splits)

lemma parse_rate_number:
  assumes "0 < n" and "int n * m < 2 ^ 53" and m: "m \<in> {1, kib, mib, gib}"
    and "trim_space s = s" "s \<noteq> []" "rate_unit s = (m, nat_digits n)"
  shows "parse_rate s = Inr (int n * m)"
proof -
  have "int n * 1 \<le> int n * m"
    using m by (intro mult_left_mono) (auto simp: kib_def mib_def gib_def)
  then have "int n < int (2 ^ 53)" using assms(2) by simp
  then have "n < 2 ^ 53" by (simp only: of_nat_less_iff)
  then have "parse_float (nat_digits n) = Some (FFin (of_nat n))" by (rule parse_float_digits)
  then show ?thesis
    using assms rate_product [OF assms(1-3)] by (simp add: parse_rate_def)
qed

section \<open>Limiters\<close>

definition minBurst :: int where "minBurst = 1048576"

record limiter =
  lim_rate :: "int option"
  lim_burst :: int

text \<open>\<^verbatim>\<open>NewLimiter\<close>: no limiter at all for "no cap".\<close>

definition new_limiter :: "int \<Rightarrow> limiter option" where
  "new_limiter bps =
     (if bps \<le> 0 then None
      else Some \<lparr>lim_rate = Some bps, lim_burst = (if bps < minBurst then minBurst else bps)\<rparr>)"

text \<open>\<^verbatim>\<open>SetRate\<close> on a limiter that may be nil: the cap is changed in place.\<close>

definition set_rate :: "limiter option \<Rightarrow> int \<Rightarrow> limiter option" where
  "set_rate l bps =
     (case l of None \<Rightarrow> None
      | Some l \<Rightarrow>
          if bps \<le> 0 then Some (l\<lparr>lim_rate := None\<rparr>)
          else Some (l\<lparr>lim_burst := (if bps < minBurst then minBurst else bps), lim_rate := Some bps\<rparr>))"

definition new_shared :: "int \<Rightarrow> limiter option" where
  "new_shared bps = set_rate (Some \<lparr>lim_rate = None, lim_burst = minBurst\<rparr>) bps"

text \<open>\<^verbatim>\<open>WaitAll\<close>: wait on every limiter there is, stop at the first error. \<open>wait\<close> is
  \<^verbatim>\<open>(*rate.Limiter).WaitN\<close>.\<close>

fun wait_all :: "(limiter \<Rightarrow> int \<Rightarrow> gerror option) \<Rightarrow> int \<Rightarrow> limiter option list \<Rightarrow> gerror option" where
  "wait_all wait n [] = None"
| "wait_all wait n (l # ls) =
     (if n \<le> 0 then None
      else case l of
             None \<Rightarrow> wait_all wait n ls
           | Some l \<Rightarrow> (case wait l n of Some e \<Rightarrow> Some e | None \<Rightarrow> wait_all wait n ls))"

definition burst_ok :: "limiter option \<Rightarrow> bool" where
  "burst_ok l \<longleftrightarrow> (case l of None \<Rightarrow> True | Some l \<Rightarrow> minBurst \<le> lim_burst l)"

lemma burst_ok_new [go_inv, simp]: "burst_ok (new_limiter bps)"
  by (simp add: burst_ok_def new_limiter_def)

lemma burst_ok_set [go_inv]: "burst_ok l \<Longrightarrow> burst_ok (set_rate l bps)"
  by (cases l) (simp_all add: burst_ok_def set_rate_def)

lemma burst_ok_shared [go_inv, simp]: "burst_ok (new_shared bps)"
  unfolding new_shared_def by (rule burst_ok_set) (simp add: burst_ok_def)

lemma set_rate_None_iff [simp]: "set_rate l bps = None \<longleftrightarrow> l = None"
  by (simp add: set_rate_def split: option.splits)

lemma new_shared_not_nil [simp]: "new_shared bps \<noteq> None"
  by (simp add: new_shared_def)

text \<open>The cap a limiter enforces, \<open>None\<close> for none: what a fresh limiter and one re-rated to
  the same number have in common.\<close>

definition cap_of :: "limiter option \<Rightarrow> int option" where
  "cap_of l = (case l of None \<Rightarrow> None | Some l \<Rightarrow> lim_rate l)"

lemma cap_of_new: "cap_of (new_limiter bps) = (if bps \<le> 0 then None else Some bps)"
  by (simp add: cap_of_def new_limiter_def)

lemma cap_of_set: "l \<noteq> None \<Longrightarrow> cap_of (set_rate l bps) = (if bps \<le> 0 then None else Some bps)"
  by (auto simp: cap_of_def set_rate_def)

lemma cap_of_shared: "cap_of (new_shared bps) = (if bps \<le> 0 then None else Some bps)"
  unfolding new_shared_def by (simp add: cap_of_set)

lemma wait_all_first_error:
  "0 < n \<Longrightarrow> wait_all wait n ls =
     (case List.find (\<lambda>l. l \<noteq> None \<and> wait (the l) n \<noteq> None) ls of
        None \<Rightarrow> None | Some l \<Rightarrow> wait (the l) n)"
  by (induction ls) (auto split: option.splits)

section \<open>Properties\<close>

text \<open>a whole number of bytes, KiB, MiB or GiB per second is read exactly, with either case
  of the unit letter, as long as the product is below two to the 53.\<close>

theorem parse_rate_units:
  assumes "0 < n" and "case u of None \<Rightarrow> True | Some c \<Rightarrow> c \<in> unit_letters"
    and "int n * unit_mult u < 2 ^ 53"
  shows "parse_rate (nat_digits n @ (case u of None \<Rightarrow> [] | Some c \<Rightarrow> [c])) = Inr (int n * unit_mult u)"
proof (cases u)
  case None
  with assms show ?thesis
    using parse_rate_number [of n 1 "nat_digits n"] rate_unit_none trim_rate(1)
    by (simp add: unit_mult_def)
next
  case (Some c)
  with assms show ?thesis
    using parse_rate_number [OF assms(1,3) unit_mult_cases, of "nat_digits n @ [c]"]
      rate_unit_letter trim_rate(2) by simp
qed

theorem parse_rate_units_witness: "parse_rate (nat_digits 2 @ ''M'') = Inr 2097152"
proof -
  have "int 2 * unit_mult (Some (CHR ''M'')) = 2097152" by (simp add: unit_mult_def mib_def)
  then show ?thesis
    using parse_rate_units [of 2 "Some (CHR ''M'')"] by (simp add: unit_letters_def)
qed

text \<open>the check "rate must be positive" is made before the unit is applied and the fraction
  cut off, so a rate below one byte per second is accepted as 0, which every consumer reads as
  "no cap": no limiter is built for it. A NaN passes the same check.\<close>

theorem parse_rate_fraction_unlimited:
  "parse_rate ''0.5'' = Inr 0 \<and> new_limiter 0 = None \<and> parse_rate ''nan'' = Inr int64_min"
proof -
  have trim: "trim_space ''0.5'' = ''0.5''" "trim_space ''nan'' = ''nan''"
    by (rule trim_space_plain, simp add: plain_byte_def)+
  have u: "rate_unit ''0.5'' = (1, ''0.5'')" "rate_unit ''nan'' = (1, ''nan'')"
    by (simp_all add: rate_unit_def Let_def)
  have one: "f64_of_int 1 = FFin 1"
    using f64_of_int_exact [of 1] by simp
  have half: "f64_mul (FFin (1 / 2)) (FFin 1) = FFin (1 / 2)" by (simp add: f64_round_half)
  have fl: "\<lfloor>1 / 2 :: rat\<rfloor> = 0" by (rule floor_unique) simp_all
  show ?thesis
    by (simp add: fl parse_rate_def trim u parse_float_half parse_float_nan one half new_limiter_def in_int64_def int64_min_def
      int64_max_def del: f64_mul.simps(1))
qed

text \<open>whatever limiters the code builds, and however often a shared one is re-rated, a wait
  for one read buffer never fails for want of burst. The hypothesis on \<open>wait\<close> is what the rate
  package documents of \<^verbatim>\<open>WaitN\<close>: with the context alive it fails only when asked for more
  than the burst.\<close>

theorem wait_all_within_burst:
  assumes wait: "\<And>l n. wait l n \<noteq> None \<Longrightarrow> lim_burst l < n"
    and built: "\<forall>l\<in>set ls. \<exists>bps rates. l = new_limiter bps \<or> l = fold (\<lambda>r l. set_rate l r) rates (new_shared bps)"
    and "n \<le> minBurst"
  shows "wait_all wait n ls = None"
proof -
  have "burst_ok (fold (\<lambda>r l. set_rate l r) rates l)" if "burst_ok l" for rates l
    using that by (induction rates arbitrary: l) (auto intro: burst_ok_set)
  with built have "\<forall>l\<in>set ls. burst_ok l" by fastforce
  then show ?thesis
  proof (induction ls)
    case Nil
    then show ?case by simp
  next
    case (Cons l ls)
    have "wait l' n = None" if "l = Some l'" for l'
      using wait [of l' n] Cons.prems assms(3) that by (fastforce simp: burst_ok_def)
    with Cons show ?case by (auto split: option.splits)
  qed
qed

theorem wait_all_within_burst_witness:
  "wait_all (\<lambda>l n. if lim_burst l < n then Some (ErrMsg ''exceeds burst'') else None) 262144
     [new_limiter 10, set_rate (set_rate (new_shared 0) 5) 0] = None"
proof (rule wait_all_within_burst)
  have "set_rate (set_rate (new_shared 0) 5) 0 = fold (\<lambda>r l. set_rate l r) [5, 0] (new_shared 0)" by simp
  then show "\<forall>l\<in>set [new_limiter 10, set_rate (set_rate (new_shared 0) 5) 0].
      \<exists>bps rates. l = new_limiter bps \<or> l = fold (\<lambda>r l. set_rate l r) rates (new_shared bps)"
    by (metis in_set_conv_decomp_first set_ConsD empty_iff empty_set)
qed (auto simp: minBurst_def split: if_splits)

end
