(* ===== verification/Store.thy ===== *)
theory Store
  imports GoFloat "HOL-Library.Word"
begin

text \<open>
  \<^verbatim>\<open>internal/store/store.go\<close>: the job table. The database is the list of its rows in rowid
  order (the order they were inserted), so \<^verbatim>\<open>ORDER BY created_at\<close> is a stable sort; each SQL
  statement is one function. Which statements fail is the environment's choice: \<open>st_faults\<close>
  holds one flag for every statement still to come (an empty list: none fails), and every
  statement takes one off. \<open>st_rand\<close> holds the 32-bit values \<^verbatim>\<open>rand.Read\<close> will deliver and
  \<open>st_now\<close> the clock in Unix seconds. The JSON columns hold the values they encode: what
  \<^verbatim>\<open>json.Marshal\<close> accepts, \<^verbatim>\<open>json.Unmarshal\<close> reads back (strings are valid UTF-8); it
  refuses a seed ratio that is not a finite number.
\<close>

section \<open>Data\<close>

datatype job_type = JobURL | JobSocial | JobTorrent | JobWebDAV

datatype job_status =
  StatusQueued | StatusActive | StatusPaused | StatusCompleted | StatusSeeding | StatusFailed
  | StatusCanceled

fun status_string :: "job_status \<Rightarrow> string" where
  "status_string StatusQueued = ''queued''"
| "status_string StatusActive = ''active''"
| "status_string StatusPaused = ''paused''"
| "status_string StatusCompleted = ''completed''"
| "status_string StatusSeeding = ''seeding''"
| "status_string StatusFailed = ''failed''"
| "status_string StatusCanceled = ''canceled''"

record job_options =
  o_headers :: "string list"
  o_cookies_file :: string
  o_cookies_from_browser :: string
  o_torrent_files :: string
  o_seed_ratio :: float64
  o_seed_time_sec :: int
  o_via :: string
  o_torbox_id :: int

definition empty_options :: job_options where
  "empty_options =
     \<lparr>o_headers = [], o_cookies_file = [], o_cookies_from_browser = [], o_torrent_files = [],
      o_seed_ratio = FFin 0, o_seed_time_sec = 0, o_via = [], o_torbox_id = 0\<rparr>"

definition ViaTorBox :: string where "ViaTorBox = ''torbox''"
definition ViaP2P :: string where "ViaP2P = ''p2p''"

definition opt_torbox :: "job_options \<Rightarrow> bool" where
  "opt_torbox opts \<longleftrightarrow> o_via opts = ViaTorBox"

definition opt_seeds :: "job_options \<Rightarrow> bool" where
  "opt_seeds opts \<longleftrightarrow>
     \<not> opt_torbox opts \<and> (f64_less (FFin 0) (o_seed_ratio opts) \<or> 0 < o_seed_time_sec opts)"

record job =
  j_id :: string
  j_type :: job_type
  j_source :: string
  j_output :: string
  j_format :: string
  j_concurrency :: int
  j_limit_rate :: int
  j_sha256 :: string
  j_status :: job_status
  j_bytes_done :: int
  j_bytes_total :: int
  j_resume_offset :: int
  j_info_hash :: string
  j_resolved :: "string list"
  j_error :: string
  j_retry_count :: int
  j_options :: job_options
  j_created :: int
  j_updated :: int

record store =
  st_rows :: "job list"
  st_settings :: "(string \<times> string) list"
  st_now :: int
  st_faults :: "bool list"
  st_rand :: "32 word list"

section \<open>Statements\<close>

definition sql_error :: gerror where "sql_error = ErrMsg ''sql: statement failed''"

text \<open>Does the next statement fail? Takes the flag off.\<close>

definition next_fault :: "store \<Rightarrow> bool \<times> store" where
  "next_fault s =
     (case st_faults s of [] \<Rightarrow> (False, s) | b # bs \<Rightarrow> (b, s\<lparr>st_faults := bs\<rparr>))"

text \<open>A statement: it fails as a whole or takes effect as a whole.\<close>

definition exec :: "(store \<Rightarrow> 'a result \<times> store) \<Rightarrow> store \<Rightarrow> 'a result \<times> store" where
  "exec stmt s = (case next_fault s of (b, s') \<Rightarrow> if b then (Inl sql_error, s') else stmt s')"

definition row_of :: "job list \<Rightarrow> string \<Rightarrow> job option" where
  "row_of rows i = List.find (\<lambda>j. j_id j = i) rows"

definition modify_rows :: "string \<Rightarrow> (job \<Rightarrow> job) \<Rightarrow> job list \<Rightarrow> job list" where
  "modify_rows i f rows = map (\<lambda>j. if j_id j = i then f j else j) rows"

definition marshal_ok :: "job_options \<Rightarrow> bool" where
  "marshal_ok opts \<longleftrightarrow> (case o_seed_ratio opts of FFin _ \<Rightarrow> True | _ \<Rightarrow> False)"

definition json_error :: gerror where "json_error = ErrMsg ''json: unsupported value''"

text \<open>\<^verbatim>\<open>GetJob\<close>.\<close>

definition get_job :: "string \<Rightarrow> store \<Rightarrow> job result \<times> store" where
  "get_job i = exec (\<lambda>s. (case row_of (st_rows s) i of None \<Rightarrow> Inl ErrNoRows | Some j \<Rightarrow> Inr j, s))"

text \<open>\<^verbatim>\<open>CreateJob\<close>: both times are set, and the primary key refuses a second row of one id.\<close>

definition create_job_row :: "job \<Rightarrow> store \<Rightarrow> job result \<times> store" where
  "create_job_row j s =
     (let j = j\<lparr>j_created := st_now s, j_updated := st_now s\<rparr>
      in if \<not> marshal_ok (j_options j) then (Inl json_error, s)
         else exec (\<lambda>s. if row_of (st_rows s) (j_id j) \<noteq> None then (Inl (ErrMsg ''UNIQUE constraint failed''), s)
                        else (Inr j, s\<lparr>st_rows := st_rows s @ [j]\<rparr>)) s)"

text \<open>\<^verbatim>\<open>UpdateJob\<close> rewrites every column but \<^verbatim>\<open>id\<close> and \<^verbatim>\<open>created_at\<close>; no row is no error.\<close>

definition update_job :: "job \<Rightarrow> store \<Rightarrow> unit result \<times> store" where
  "update_job j s =
     (let j = j\<lparr>j_updated := st_now s\<rparr>
      in if \<not> marshal_ok (j_options j) then (Inl json_error, s)
         else exec (\<lambda>s. (Inr (), s\<lparr>st_rows := modify_rows (j_id j) (\<lambda>old. j\<lparr>j_created := j_created old\<rparr>) (st_rows s)\<rparr>)) s)"

definition update_progress :: "string \<Rightarrow> int \<Rightarrow> int \<Rightarrow> int option \<Rightarrow> store \<Rightarrow> unit result \<times> store" where
  "update_progress i done tot off =
     exec (\<lambda>s. (Inr (), s\<lparr>st_rows := modify_rows i
        (\<lambda>j. case off of
               Some r \<Rightarrow> j\<lparr>j_bytes_done := done, j_bytes_total := tot, j_resume_offset := r, j_updated := st_now s\<rparr>
             | None \<Rightarrow> j\<lparr>j_bytes_done := done, j_bytes_total := tot, j_updated := st_now s\<rparr>)
        (st_rows s)\<rparr>))"

definition update_status :: "string \<Rightarrow> job_status \<Rightarrow> string \<Rightarrow> store \<Rightarrow> unit result \<times> store" where
  "update_status i st msg =
     exec (\<lambda>s. (Inr (), s\<lparr>st_rows := modify_rows i
        (\<lambda>j. j\<lparr>j_status := st, j_error := msg, j_updated := st_now s\<rparr>) (st_rows s)\<rparr>))"

text \<open>\<^verbatim>\<open>AppendResolvedPath\<close>: a read and, unless the path is there already, a write.\<close>

definition append_resolved_path :: "string \<Rightarrow> string \<Rightarrow> store \<Rightarrow> unit result \<times> store" where
  "append_resolved_path i p s =
     (case get_job i s of
        (Inl e, s) \<Rightarrow> (Inl e, s)
      | (Inr j, s) \<Rightarrow>
          if p \<in> set (j_resolved j) then (Inr (), s)
          else exec (\<lambda>s. (Inr (), s\<lparr>st_rows := modify_rows i
                 (\<lambda>row. row\<lparr>j_resolved := j_resolved j @ [p], j_updated := st_now s\<rparr>) (st_rows s)\<rparr>)) s)"

definition delete_job :: "string \<Rightarrow> store \<Rightarrow> unit result \<times> store" where
  "delete_job i = exec (\<lambda>s. (Inr (), s\<lparr>st_rows := filter (\<lambda>j. j_id j \<noteq> i) (st_rows s)\<rparr>))"

definition list_jobs :: "store \<Rightarrow> job list result \<times> store" where
  "list_jobs = exec (\<lambda>s. (Inr (sort_key j_created (st_rows s)), s))"

definition list_queued_jobs :: "store \<Rightarrow> job list result \<times> store" where
  "list_queued_jobs =
     exec (\<lambda>s. (Inr (sort_key j_created (filter (\<lambda>j. j_status j = StatusQueued) (st_rows s))), s))"

text \<open>\<^verbatim>\<open>NewID\<close>: eight hexadecimal digits of four random bytes, up to ten tries.\<close>

definition hex_digit :: "nat \<Rightarrow> char" where
  "hex_digit n = (if n < 10 then char_of (48 + n) else char_of (87 + n))"

fun hex_digits :: "nat \<Rightarrow> nat \<Rightarrow> string" where
  "hex_digits 0 n = []"
| "hex_digits (Suc k) n = hex_digits k (n div 16) @ [hex_digit (n mod 16)]"

definition hex_id :: "32 word \<Rightarrow> string" where
  "hex_id w = hex_digits 8 (unat w)"

fun new_id_tries :: "nat \<Rightarrow> store \<Rightarrow> string result \<times> store" where
  "new_id_tries 0 s = (Inl (ErrMsg ''could not allocate a unique job id''), s)"
| "new_id_tries (Suc k) s =
     (case st_rand s of
        [] \<Rightarrow> (Inl (ErrMsg ''rand: read failed''), s)
      | w # ws \<Rightarrow>
          (case get_job (hex_id w) (s\<lparr>st_rand := ws\<rparr>) of
             (r, s) \<Rightarrow> if r = Inl ErrNoRows then (Inr (hex_id w), s) else new_id_tries k s))"

definition new_id :: "store \<Rightarrow> string result \<times> store" where
  "new_id = new_id_tries 10"


section \<open>The table as an interface\<close>

text \<open>
  What the daemon relies on when it reads and writes rows: a lookup finds the row of the key,
  an update of one key changes that row only, and an insertion or a removal is seen at its own
  key only. The operations are those of a keyed table with state \<open>'s\<close>.
\<close>

locale keyed_table =
  fixes key :: "'v \<Rightarrow> 'k"
    and look :: "'s \<Rightarrow> 'k \<Rightarrow> 'v option"
    and modify :: "'k \<Rightarrow> ('v \<Rightarrow> 'v) \<Rightarrow> 's \<Rightarrow> 's"
    and ins :: "'v \<Rightarrow> 's \<Rightarrow> 's"
    and del :: "'k \<Rightarrow> 's \<Rightarrow> 's"
    and invar :: "'s \<Rightarrow> bool"
  assumes look_key: "look s k = Some v \<Longrightarrow> key v = k"
    and look_modify: "(\<And>v. key (f v) = key v) \<Longrightarrow>
          look (modify k f s) k' = (if k' = k then map_option f (look s k) else look s k')"
    and look_ins: "look s (key v) = None \<Longrightarrow> look (ins v s) k' = (if k' = key v then Some v else look s k')"
    and look_del: "look (del k s) k' = (if k' = k then None else look s k')"
    and invar_modify: "invar s \<Longrightarrow> (\<And>v. key (f v) = key v) \<Longrightarrow> invar (modify k f s)"
    and invar_ins: "invar s \<Longrightarrow> look s (key v) = None \<Longrightarrow> invar (ins v s)"
    and invar_del: "invar s \<Longrightarrow> invar (del k s)"
begin

lemmas table_laws = look_modify look_ins look_del

lemma modify_frame:
  "(\<And>v. key (f v) = key v) \<Longrightarrow> k' \<noteq> k \<Longrightarrow> look (modify k f s) k' = look s k'"
  by (simp add: look_modify)

lemma modify_same:
  "(\<And>v. key (f v) = key v) \<Longrightarrow> look s k = Some v \<Longrightarrow> look (modify k f s) k = Some (f v)"
  by (simp add: look_modify)

lemma modify_twice:
  "(\<And>v. key (f v) = key v) \<Longrightarrow> (\<And>v. key (g v) = key v) \<Longrightarrow>
   look (modify k g (modify k f s)) k' = look (modify k (g \<circ> f) s) k'"
  by (simp add: look_modify option.map_comp)

lemma modify_dom:
  "(\<And>v. key (f v) = key v) \<Longrightarrow> (look (modify k f s) k' = None) = (look s k' = None)"
  by (simp add: look_modify)

lemma ins_del: "look s (key v) = None \<Longrightarrow> look (del (key v) (ins v s)) k' = look s k'"
  by (simp add: look_del look_ins)

end

definition unique_ids :: "job list \<Rightarrow> bool" where
  "unique_ids rows \<longleftrightarrow> distinct (map j_id rows)"

lemma row_of_Nil [simp]: "row_of [] i = None"
  by (simp add: row_of_def)

lemma row_of_Cons [simp]: "row_of (j # js) i = (if j_id j = i then Some j else row_of js i)"
  by (simp add: row_of_def)

lemma row_of_mem: "row_of rows i = Some j \<Longrightarrow> j \<in> set rows \<and> j_id j = i"
  by (induction rows) (auto split: if_splits)

lemma row_of_None: "row_of rows i = None \<longleftrightarrow> i \<notin> j_id ` set rows"
  by (induction rows) auto

lemma row_of_modify:
  "(\<And>j. j_id (f j) = j_id j) \<Longrightarrow>
   row_of (modify_rows k f rows) i = (if i = k then map_option f (row_of rows k) else row_of rows i)"
  by (induction rows) (auto simp: modify_rows_def)

lemma row_of_append: "row_of (rows @ [j]) i =
    (case row_of rows i of Some r \<Rightarrow> Some r | None \<Rightarrow> if j_id j = i then Some j else None)"
  by (induction rows) auto

lemma row_of_filter: "row_of (filter (\<lambda>j. j_id j \<noteq> k) rows) i = (if i = k then None else row_of rows i)"
  by (induction rows) auto

lemma row_of_unique: "unique_ids rows \<Longrightarrow> j \<in> set rows \<Longrightarrow> row_of rows (j_id j) = Some j"
  by (induction rows) (auto simp: unique_ids_def)

lemma map_id_modify: "(\<And>j. j_id (f j) = j_id j) \<Longrightarrow> map j_id (modify_rows k f rows) = map j_id rows"
  by (induction rows) (auto simp: modify_rows_def)

lemma unique_ids_snoc: "unique_ids rows \<Longrightarrow> row_of rows (j_id j) = None \<Longrightarrow> unique_ids (rows @ [j])"
  by (auto simp: unique_ids_def row_of_None)

lemma unique_ids_filter: "unique_ids rows \<Longrightarrow> unique_ids (filter P rows)"
  by (simp add: unique_ids_def distinct_map_filter)

lemma unique_ids_modify: "unique_ids rows \<Longrightarrow> (\<And>j. j_id (f j) = j_id j) \<Longrightarrow> unique_ids (modify_rows k f rows)"
  by (simp add: unique_ids_def map_id_modify)

interpretation rows: keyed_table j_id row_of modify_rows "\<lambda>j rows. rows @ [j]"
    "\<lambda>i rows. filter (\<lambda>j. j_id j \<noteq> i) rows" unique_ids
  by unfold_locales
    (auto simp: row_of_modify row_of_append row_of_filter split: option.splits
      dest: row_of_mem intro: unique_ids_modify unique_ids_snoc unique_ids_filter)

section \<open>What one statement does\<close>

text \<open>Everything but the rows and the pending faults is left alone.\<close>

definition same_env :: "store \<Rightarrow> store \<Rightarrow> bool" where
  "same_env s t \<longleftrightarrow> st_settings t = st_settings s \<and> st_now t = st_now s"

lemma same_env_refl [simp]: "same_env s s"
  by (simp add: same_env_def)

lemma same_env_trans: "same_env s t \<Longrightarrow> same_env t u \<Longrightarrow> same_env s u"
  by (simp add: same_env_def)

lemma next_fault_frame:
  "next_fault s = (b, t) \<Longrightarrow> st_rows t = st_rows s \<and> same_env s t \<and> st_rand t = st_rand s"
  by (auto simp: next_fault_def same_env_def split: list.splits)

lemma exec_cases:
  assumes "exec stmt s = (r, t)"
  obtains (fault) "r = Inl sql_error" "st_rows t = st_rows s" "same_env s t" "st_rand t = st_rand s"
  | (run) u where "stmt u = (r, t)" "st_rows u = st_rows s" "same_env s u" "st_rand u = st_rand s"
  using assms next_fault_frame [of s]
  by (auto simp: exec_def split: prod.splits if_splits)

lemma exec_no_faults: "st_faults s = [] \<Longrightarrow> exec stmt s = stmt s"
  by (simp add: exec_def next_fault_def)

lemma get_job_rows: "get_job i s = (r, t) \<Longrightarrow> st_rows t = st_rows s \<and> same_env s t \<and> st_rand t = st_rand s"
  unfolding get_job_def by (erule exec_cases) auto

lemma get_job_ok: "get_job i s = (Inr j, t) \<Longrightarrow> row_of (st_rows s) i = Some j"
  unfolding get_job_def by (erule exec_cases) (auto split: option.splits)

lemma get_job_id: "get_job i s = (Inr j, t) \<Longrightarrow> j_id j = i"
  using get_job_ok row_of_mem by blast

lemma get_job_norows: "get_job i s = (Inl ErrNoRows, t) \<Longrightarrow> row_of (st_rows s) i = None"
  unfolding get_job_def by (erule exec_cases) (auto simp: sql_error_def split: option.splits)

lemma get_job_total: "st_faults s = [] \<Longrightarrow>
   get_job i s = (case row_of (st_rows s) i of None \<Rightarrow> Inl ErrNoRows | Some j \<Rightarrow> Inr j, s)"
  by (simp add: get_job_def exec_no_faults)

definition row_written :: "store \<Rightarrow> job \<Rightarrow> job \<Rightarrow> job" where
  "row_written s j old = j\<lparr>j_updated := st_now s, j_created := j_created old\<rparr>"

lemma row_written_fun: "row_written s j = (\<lambda>old. j\<lparr>j_updated := st_now s, j_created := j_created old\<rparr>)"
  by (rule ext) (simp add: row_written_def)

lemma row_written_id: "j_id (row_written s j old) = j_id j"
  by (simp add: row_written_def)

lemma update_job_cases:
  assumes "update_job j s = (r, t)"
  obtains (failed) e where "r = Inl e" "st_rows t = st_rows s" "same_env s t"
  | (wrote) "r = Inr ()" "marshal_ok (j_options j)"
      "st_rows t = modify_rows (j_id j) (row_written s j) (st_rows s)" "same_env s t"
proof (cases "marshal_ok (j_options j)")
  case False
  with assms show ?thesis by (intro failed) (auto simp: update_job_def Let_def)
next
  case True
  with assms show ?thesis
    unfolding update_job_def Let_def
    by (auto elim!: exec_cases intro: failed wrote simp: same_env_def row_written_fun)
qed

lemma modify_rows_cong:
  "(\<And>j. j \<in> set rows \<Longrightarrow> j_id j = i \<Longrightarrow> f j = g j) \<Longrightarrow> modify_rows i f rows = modify_rows i g rows"
  by (auto simp: modify_rows_def)

lemma update_job_ids:
  assumes "update_job j s = (r, t)"
  shows "map j_id (st_rows t) = map j_id (st_rows s)"
  using assms
  by (cases rule: update_job_cases) (auto simp: modify_rows_def row_written_id)

lemma update_job_row:
  assumes "update_job j s = (r, t)"
  shows "row_of (st_rows t) i =
    (if r = Inr () \<and> i = j_id j then map_option (row_written s j) (row_of (st_rows s) i)
     else row_of (st_rows s) i)"
proof -
  have eq: "row_of (modify_rows (j_id j) (row_written s j) rows) i =
      (if i = j_id j then map_option (row_written s j) (row_of rows i) else row_of rows i)" for rows
    by (induction rows) (auto simp: modify_rows_def row_written_id)
  show ?thesis using assms by (cases rule: update_job_cases) (auto simp: eq)
qed

lemma update_status_row:
  assumes "update_status i st msg s = (r, t)"
  shows "row_of (st_rows t) k =
     (if r = Inr () \<and> k = i
      then map_option (\<lambda>j. j\<lparr>j_status := st, j_error := msg, j_updated := st_now s\<rparr>) (row_of (st_rows s) k)
      else row_of (st_rows s) k) \<and> map j_id (st_rows t) = map j_id (st_rows s) \<and> same_env s t \<and>
      (r = Inr () \<or> (\<exists>e. r = Inl e) \<and> st_rows t = st_rows s)"
  using assms unfolding update_status_def
  by (elim exec_cases) (auto simp: row_of_modify map_id_modify same_env_def sql_error_def)

lemma list_queued_rows: "list_queued_jobs s = (r, t) \<Longrightarrow> st_rows t = st_rows s \<and> same_env s t"
  unfolding list_queued_jobs_def by (erule exec_cases) auto

lemma list_queued_mem:
  "list_queued_jobs s = (Inr js, t) \<Longrightarrow> j \<in> set js \<longleftrightarrow> j \<in> set (st_rows s) \<and> j_status j = StatusQueued"
  unfolding list_queued_jobs_def by (erule exec_cases) auto


lemma create_job_row_cases:
  assumes "create_job_row j s = (r, t)"
  obtains (failed) e where "r = Inl e" "st_rows t = st_rows s" "same_env s t" "st_rand t = st_rand s"
  | (created) j' where "j' = j\<lparr>j_created := st_now s, j_updated := st_now s\<rparr>" "r = Inr j'"
      "row_of (st_rows s) (j_id j) = None" "st_rows t = st_rows s @ [j']" "same_env s t"
proof (cases "marshal_ok (j_options j)")
  case False
  with assms show ?thesis by (intro failed) (auto simp: create_job_row_def Let_def)
next
  case True
  let ?j = "j\<lparr>j_created := st_now s, j_updated := st_now s\<rparr>"
  from True assms have "exec (\<lambda>s. if row_of (st_rows s) (j_id j) \<noteq> None
        then (Inl (ErrMsg ''UNIQUE constraint failed''), s)
        else (Inr ?j, s\<lparr>st_rows := st_rows s @ [?j]\<rparr>)) s = (r, t)"
    by (simp add: create_job_row_def Let_def)
  then show ?thesis
  proof (cases rule: exec_cases)
    case fault
    then show ?thesis by (rule failed)
  next
    case (run u)
    show ?thesis
    proof (cases "row_of (st_rows s) (j_id j) = None")
      case True
      with run show ?thesis by (intro created [OF refl]) (auto simp: same_env_def)
    next
      case False
      with run show ?thesis by (intro failed) (auto simp: same_env_def)
    qed
  qed
qed

lemma append_resolved_cases:
  assumes "append_resolved_path i p s = (r, t)"
  obtains (failed) e where "r = Inl e" "st_rows t = st_rows s"
  | (there) j where "r = Inr ()" "row_of (st_rows s) i = Some j" "p \<in> set (j_resolved j)" "st_rows t = st_rows s"
  | (added) j where "r = Inr ()" "row_of (st_rows s) i = Some j" "p \<notin> set (j_resolved j)"
      "st_rows t = modify_rows i (\<lambda>row. row\<lparr>j_resolved := j_resolved j @ [p], j_updated := st_now s\<rparr>) (st_rows s)"
proof -
  obtain g u where g: "get_job i s = (g, u)" by (cases "get_job i s")
  note rows = get_job_rows [OF g]
  show ?thesis
  proof (cases g)
    case (Inl e)
    with assms g rows show ?thesis by (intro failed) (auto simp: append_resolved_path_def)
  next
    case (Inr j)
    with g have j: "row_of (st_rows s) i = Some j" by (blast intro: get_job_ok)
    show ?thesis
    proof (cases "p \<in> set (j_resolved j)")
      case True
      with assms g Inr j rows show ?thesis by (intro there) (auto simp: append_resolved_path_def)
    next
      case False
      with assms g Inr have "exec (\<lambda>s. (Inr (), s\<lparr>st_rows := modify_rows i
            (\<lambda>row. row\<lparr>j_resolved := j_resolved j @ [p], j_updated := st_now s\<rparr>) (st_rows s)\<rparr>)) u = (r, t)"
        by (simp add: append_resolved_path_def)
      then show ?thesis
      proof (cases rule: exec_cases)
        case fault
        with rows show ?thesis by (intro failed) auto
      next
        case run
        with rows show ?thesis by (intro added [OF _ j False]) (auto simp: same_env_def)
      qed
    qed
  qed
qed

lemma append_resolved_ids:
  "append_resolved_path i p s = (r, t) \<Longrightarrow> map j_id (st_rows t) = map j_id (st_rows s)"
  by (erule append_resolved_cases) (auto simp: map_id_modify)

lemma update_progress_ids:
  "update_progress i d n off s = (r, t) \<Longrightarrow> map j_id (st_rows t) = map j_id (st_rows s)"
  unfolding update_progress_def
  by (erule exec_cases) (auto simp: map_id_modify split: option.splits)

lemma delete_job_rows:
  assumes "delete_job i s = (r, t)"
  shows "st_rows t = (if r = Inr () then filter (\<lambda>j. j_id j \<noteq> i) (st_rows s) else st_rows s)"
  using assms unfolding delete_job_def by (elim exec_cases) auto

lemma new_id_tries_fresh:
  "new_id_tries k s = (Inr i, t) \<Longrightarrow>
   row_of (st_rows s) i = None \<and> st_rows t = st_rows s \<and> same_env s t \<and> (\<exists>w\<in>set (st_rand s). i = hex_id w)"
proof (induction k arbitrary: s)
  case 0
  then show ?case by simp
next
  case (Suc k)
  from Suc.prems obtain w ws where w: "st_rand s = w # ws" by (auto split: list.splits)
  obtain r u where g: "get_job (hex_id w) (s\<lparr>st_rand := ws\<rparr>) = (r, u)" by (cases "get_job (hex_id w) (s\<lparr>st_rand := ws\<rparr>)")
  note rows = get_job_rows [OF g]
  show ?case
  proof (cases "r = Inl ErrNoRows")
    case True
    with g have "row_of (st_rows (s\<lparr>st_rand := ws\<rparr>)) (hex_id w) = None"
      by (blast dest: get_job_norows)
    with True Suc.prems w g rows show ?thesis by (auto simp: same_env_def)
  next
    case False
    with Suc.prems w g have "new_id_tries k u = (Inr i, t)" by simp
    from Suc.IH [OF this] rows w show ?thesis by (auto simp: same_env_def)
  qed
qed

lemma new_id_tries_rows: "new_id_tries k s = (r, t) \<Longrightarrow> st_rows t = st_rows s \<and> same_env s t"
proof (induction k arbitrary: s)
  case 0
  then show ?case by simp
next
  case (Suc k)
  then show ?case
    by (auto split: list.splits prod.splits if_splits dest!: get_job_rows simp: same_env_def)
qed

lemma update_status_ids: "update_status i st msg s = (r, t) \<Longrightarrow> map j_id (st_rows t) = map j_id (st_rows s)"
  by (drule update_status_row) blast

lemma snd_unique:
  "(\<And>r t. f = (r, t) \<Longrightarrow> map j_id (st_rows t) = map j_id rows) \<Longrightarrow> unique_ids rows \<Longrightarrow>
   unique_ids (st_rows (snd f))"
  by (cases f) (simp add: unique_ids_def)

lemma length_hex_digits [simp]: "length (hex_digits k n) = k"
  by (induction k arbitrary: n) auto

lemma hex_digit_inj: "a < 16 \<Longrightarrow> b < 16 \<Longrightarrow> hex_digit a = hex_digit b \<Longrightarrow> a = b"
proof -
  assume ab: "a < 16" "b < 16" and eq: "hex_digit a = hex_digit b"
  have v: "(of_char (hex_digit n) :: nat) = (if n < 10 then 48 + n else 87 + n)" if "n < 16" for n
    using that by (simp add: hex_digit_def of_char_of)
  have "(if a < 10 then 48 + a else 87 + a) = (if b < 10 then 48 + b else 87 + b)"
    using arg_cong [OF eq, of "of_char :: char \<Rightarrow> nat"] by (simp only: v [OF ab(1)] v [OF ab(2)])
  with ab show "a = b" by (simp split: if_splits)
qed

lemma hex_digits_inj:
  "a < 16 ^ k \<Longrightarrow> b < 16 ^ k \<Longrightarrow> hex_digits k a = hex_digits k b \<Longrightarrow> a = b"
proof (induction k arbitrary: a b)
  case 0
  then show ?case by simp
next
  case (Suc k)
  then have "hex_digits k (a div 16) = hex_digits k (b div 16)"
    and m: "hex_digit (a mod 16) = hex_digit (b mod 16)" by auto
  moreover from Suc.prems have "a div 16 < 16 ^ k" "b div 16 < 16 ^ k" by auto
  ultimately have "a div 16 = b div 16" using Suc.IH by blast
  moreover have "a mod 16 = b mod 16" using hex_digit_inj [OF _ _ m] by simp
  ultimately show ?case by (metis div_mult_mod_eq)
qed

lemma hex_id_inj: "hex_id v = hex_id w \<Longrightarrow> v = w"
proof -
  assume eq: "hex_id v = hex_id w"
  have "unat u < 16 ^ 8" for u :: "32 word"
    using unsigned_less [of u] by simp
  then have "unat v = unat w" using hex_digits_inj eq unfolding hex_id_def by blast
  then show "v = w" by (rule unsigned_word_eqI)
qed

section \<open>Properties\<close>

text \<open>no statement, whether it fails or takes effect, makes two rows share an id.\<close>

theorem statements_keep_ids_unique:
  assumes "unique_ids (st_rows s)"
  shows "unique_ids (st_rows (snd (create_job_row j s))) \<and> unique_ids (st_rows (snd (update_job j s))) \<and>
    unique_ids (st_rows (snd (update_status i st msg s))) \<and>
    unique_ids (st_rows (snd (update_progress i d n off s))) \<and>
    unique_ids (st_rows (snd (append_resolved_path i p s))) \<and> unique_ids (st_rows (snd (delete_job i s)))"
proof (intro conjI)
  show "unique_ids (st_rows (snd (create_job_row j s)))"
  proof -
    obtain r t where c: "create_job_row j s = (r, t)" by (cases "create_job_row j s")
    then have "unique_ids (st_rows t)"
      by (rule create_job_row_cases) (use assms in \<open>simp_all add: unique_ids_snoc\<close>)
    with c show ?thesis by simp
  qed
  show "unique_ids (st_rows (snd (update_job j s)))"
    by (rule snd_unique [OF update_job_ids assms])
  show "unique_ids (st_rows (snd (update_status i st msg s)))"
    by (rule snd_unique [OF update_status_ids assms])
  show "unique_ids (st_rows (snd (update_progress i d n off s)))"
    by (rule snd_unique [OF update_progress_ids assms])
  show "unique_ids (st_rows (snd (append_resolved_path i p s)))"
    by (rule snd_unique [OF append_resolved_ids assms])
  show "unique_ids (st_rows (snd (delete_job i s)))"
  proof -
    obtain r t where c: "delete_job i s = (r, t)" by (cases "delete_job i s")
    show ?thesis using delete_job_rows [OF c] assms by (simp add: c unique_ids_filter)
  qed
qed

text \<open>recording a path on a job keeps the recorded paths in order and without duplicates,
  adds the path at the end exactly when it is missing, and touches no other row.\<close>

theorem append_resolved_path_spec:
  assumes "append_resolved_path i p s = (Inr (), t)"
  shows "\<exists>j j'. row_of (st_rows s) i = Some j \<and> row_of (st_rows t) i = Some j' \<and>
    j_resolved j' = (if p \<in> set (j_resolved j) then j_resolved j else j_resolved j @ [p]) \<and>
    (distinct (j_resolved j) \<longrightarrow> distinct (j_resolved j')) \<and>
    (\<forall>k. k \<noteq> i \<longrightarrow> row_of (st_rows t) k = row_of (st_rows s) k)"
  using assms by (cases rule: append_resolved_cases) (auto simp: rows.table_laws)

text \<open>the narrowed query the daemon runs on every job completion gives the same jobs in
  the same order as listing every job and keeping the queued ones.\<close>

theorem list_queued_is_filtered_list:
  assumes "st_faults s = []"
  shows "list_queued_jobs s =
    (map_sum id (filter (\<lambda>j. j_status j = StatusQueued)) (fst (list_jobs s)), s)"
  using assms by (simp add: list_queued_jobs_def list_jobs_def exec_no_faults filter_sort)

text \<open>a job id that \<^verbatim>\<open>NewID\<close> hands out is eight digits long and no row has it.\<close>

theorem new_id_fresh:
  assumes "new_id s = (Inr i, t)"
  shows "length i = 8 \<and> row_of (st_rows t) i = None \<and> st_rows t = st_rows s"
  using new_id_tries_fresh [OF assms [unfolded new_id_def]] by (auto simp: hex_id_def)

text \<open>an update that reports success is what the next read returns, with the row's own
  creation time; one that reports an error has changed nothing.\<close>

theorem update_then_get:
  assumes "update_job j s = (r, t)" and "row_of (st_rows s) (j_id j) = Some old" and "st_faults t = []"
  shows "fst (get_job (j_id j) t) =
      (if r = Inr () then Inr (j\<lparr>j_updated := st_now s, j_created := j_created old\<rparr>) else Inr old)"
  using assms update_job_row [OF assms(1), of "j_id j"]
  by (simp add: get_job_total row_written_def)

definition sample_job :: "string \<Rightarrow> job_status \<Rightarrow> job" where
  "sample_job i st =
     \<lparr>j_id = i, j_type = JobURL, j_source = ''http://h/f'', j_output = ''/d/f'', j_format = [],
      j_concurrency = 1, j_limit_rate = 0, j_sha256 = [], j_status = st, j_bytes_done = 0,
      j_bytes_total = 0, j_resume_offset = 0, j_info_hash = [], j_resolved = [], j_error = [],
      j_retry_count = 0, j_options = empty_options, j_created = 5, j_updated = 5\<rparr>"

definition sample_store :: "job list \<Rightarrow> store" where
  "sample_store rows = \<lparr>st_rows = rows, st_settings = [], st_now = 9, st_faults = [], st_rand = [1, 2]\<rparr>"

theorem statements_keep_ids_unique_witness:
  "unique_ids (st_rows (snd (delete_job ''a'' (sample_store [sample_job ''a'' StatusQueued]))))"
  using statements_keep_ids_unique [of "sample_store [sample_job ''a'' StatusQueued]"]
  by (simp add: unique_ids_def sample_store_def)

theorem append_resolved_path_spec_witness:
  "\<exists>j'. row_of (st_rows (snd (append_resolved_path ''a'' ''/d/x'' (sample_store [sample_job ''a'' StatusActive])))) ''a''
      = Some j' \<and> j_resolved j' = [''/d/x'']"
proof -
  have "append_resolved_path ''a'' ''/d/x'' (sample_store [sample_job ''a'' StatusActive]) =
      (Inr (), snd (append_resolved_path ''a'' ''/d/x'' (sample_store [sample_job ''a'' StatusActive])))"
    by (simp add: append_resolved_path_def get_job_total exec_no_faults sample_store_def sample_job_def)
  from append_resolved_path_spec [OF this] show ?thesis
    by (auto simp: sample_store_def sample_job_def)
qed

theorem list_queued_is_filtered_list_witness:
  "fst (list_queued_jobs (sample_store [sample_job ''a'' StatusQueued, sample_job ''b'' StatusPaused])) =
    Inr [sample_job ''a'' StatusQueued]"
  using list_queued_is_filtered_list
    [of "sample_store [sample_job ''a'' StatusQueued, sample_job ''b'' StatusPaused]"]
  by (simp add: sample_store_def list_jobs_def exec_no_faults sample_job_def)

theorem new_id_fresh_witness: "length (hex_id 1) = 8 \<and> row_of (st_rows (sample_store [])) (hex_id 1) = None"
proof -
  have "new_id (sample_store []) = (Inr (hex_id 1), sample_store []\<lparr>st_rand := [2]\<rparr>)"
    by (simp add: new_id_def sample_store_def get_job_total eval_nat_numeral)
  from new_id_fresh [OF this] show ?thesis by (simp add: sample_store_def)
qed

theorem update_then_get_witness:
  "fst (get_job ''a'' (snd (update_job (sample_job ''a'' StatusPaused)
     (sample_store [sample_job ''a'' StatusActive])))) =
   Inr ((sample_job ''a'' StatusPaused)\<lparr>j_updated := 9, j_created := 5\<rparr>)"
proof -
  let ?s = "sample_store [sample_job ''a'' StatusActive]"
  let ?j = "sample_job ''a'' StatusPaused"
  have u: "update_job ?j ?s = (Inr (), snd (update_job ?j ?s))" and f: "st_faults (snd (update_job ?j ?s)) = []"
    by (simp_all add: update_job_def exec_no_faults marshal_ok_def sample_store_def sample_job_def empty_options_def)
  from update_then_get [OF u _ f, of "sample_job ''a'' StatusActive"] show ?thesis
    by (simp add: sample_store_def sample_job_def)
qed

end
