(* ===== verification/Format.thy ===== *)
theory Format
  imports Store
begin

text \<open>
  \<^verbatim>\<open>internal/format/format.go\<close> and \<^verbatim>\<open>internal/progress/progress.go\<close>: byte counts, rates,
  remaining time, fractions, shortened paths, and the throttled progress lines. A progress
  reporter is a record of its state; each call takes the time it reads and returns the new
  state with the line it emits, if any. Times are nanoseconds.
\<close>

section \<open>Rendering numbers\<close>

text \<open>\<^verbatim>\<open>%.1f\<close> of a non-negative double: the exact value rounded to one decimal, ties to even.\<close>

definition fixed1 :: "rat \<Rightarrow> string" where
  "fixed1 x =
     (let t = nat (round_half_even (10 * x)) in nat_digits (t div 10) @ ''.'' @ nat_digits (t mod 10))"

fun show_fixed1 :: "float64 \<Rightarrow> string" where
  "show_fixed1 (FFin x) = (if x < 0 then ''-'' @ fixed1 (- x) else fixed1 x)"
| "show_fixed1 FNaN = ''NaN''"
| "show_fixed1 (FInf s) = (if s then ''-Inf'' else ''+Inf'')"

text \<open>The unit loop of \<^verbatim>\<open>Bytes\<close>: the divisor and the index of the unit letter.\<close>

function byte_unit :: "nat \<Rightarrow> nat \<Rightarrow> nat \<Rightarrow> nat \<times> nat" where
  "byte_unit n d e = (if 1024 \<le> n div d then byte_unit n (d * 1024) (Suc e) else (d, e))"
  by pat_completeness auto
termination
proof (relation "measure (\<lambda>(n, d, e). n div d)", goal_cases)
  case 1
  show ?case by simp
next
  case (2 n d e)
  then have "n div (d * 1024) < n div d"
    by (simp add: div_mult2_eq)
  then show ?case by simp
qed

declare byte_unit.simps [simp del]

definition format_bytes :: "int \<Rightarrow> string" where
  "format_bytes n =
     (if n < 0 then ''?''
      else if n < 1024 then itoa n @ '' B''
      else let (d, e) = byte_unit (nat n) 1024 0
           in show_fixed1 (f64_div (f64_of_int n) (f64_of_int (int d))) @ '' '' @ [''KMGTPE'' ! e] @ ''iB'')"

definition format_speed :: "float64 \<Rightarrow> string" where
  "format_speed bps =
     (if f64_le bps (FFin 0) then ''-'' else format_bytes (f64_to_int64 bps) @ ''/s'')"

text \<open>\<^verbatim>\<open>Percent\<close>: the fraction done, clamped.\<close>

definition percent :: "int \<Rightarrow> int \<Rightarrow> float64" where
  "percent done tot =
     (if tot \<le> 0 then FFin 0
      else let p = f64_div (f64_of_int done) (f64_of_int tot);
               p = (if f64_less (FFin 1) p then FFin 1 else p)
           in if f64_less p (FFin 0) then FFin 0 else p)"

text \<open>
  \<^verbatim>\<open>ETA\<close>. The product with \<^verbatim>\<open>time.Second\<close> is an int64 multiplication, so it wraps around;
  \<open>go_div\<close> and \<open>go_mod\<close> are Go's truncating division and remainder.
\<close>

definition go_mod :: "int \<Rightarrow> int \<Rightarrow> int" where
  "go_mod a b = a - b * go_div a b"

definition second_ns :: int where "second_ns = 1000000000"

definition two_digits :: "int \<Rightarrow> string" where
  "two_digits i = (if 0 \<le> i \<and> i < 10 then ''0'' @ itoa i else itoa i)"

definition format_eta :: "int \<Rightarrow> job_status \<Rightarrow> string" where
  "format_eta seconds st =
     (if st \<noteq> StatusActive \<or> seconds < 0 then ''-''
      else let d = wrap64 (seconds * second_ns)
           in if 99 * 3600 * second_ns < d then ''>99h''
              else let h = go_div d (3600 * second_ns);
                       m = go_mod (go_div d (60 * second_ns)) 60;
                       s = go_mod (go_div d second_ns) 60
                   in if 0 < h then itoa h @ ''h'' @ two_digits m @ ''m''
                      else if 0 < m then itoa m @ ''m'' @ two_digits s @ ''s''
                      else itoa s @ ''s'')"

text \<open>\<^verbatim>\<open>ShortenHome\<close>; the argument \<open>home\<close> is what \<^verbatim>\<open>os.UserHomeDir\<close> returned.\<close>

definition shorten_home :: "string result \<Rightarrow> string \<Rightarrow> string" where
  "shorten_home home p =
     (case home of
        Inl _ \<Rightarrow> p
      | Inr h \<Rightarrow>
          if h = [] then p
          else if p = h then ''~''
          else if has_prefix p (h @ ''/'') then ''~/'' @ drop (length (h @ ''/'')) p
          else p)"

section \<open>The progress bar\<close>

definition full_block :: string where "full_block = [CHR 0xE2, CHR 0x96, CHR 0x88]"
definition light_block :: string where "light_block = [CHR 0xE2, CHR 0x96, CHR 0x91]"

definition bar_filled :: "int \<Rightarrow> int \<Rightarrow> int \<Rightarrow> int" where
  "bar_filled done tot width =
     (let filled = (if 0 < tot
                    then f64_to_int64 (f64_div (f64_mul (f64_of_int width) (f64_of_int done)) (f64_of_int tot))
                    else 0)
      in min (max filled 0) width)"

definition bar :: "int \<Rightarrow> int \<Rightarrow> int \<Rightarrow> string" where
  "bar done tot width =
     (if width < 2 then []
      else let f = bar_filled done tot width
           in ''['' @ concat (replicate (nat f) full_block)
              @ concat (replicate (nat (width - f)) light_block) @ '']'')"

definition bar_width :: int where "bar_width = 24"
definition report_interval :: int where "report_interval = 400000000"

record reporter =
  rep_what :: string
  rep_emits :: bool
  rep_start :: int
  rep_last :: int
  rep_sent :: bool

definition new_reporter :: "string \<Rightarrow> bool \<Rightarrow> int \<Rightarrow> reporter" where
  "new_reporter what emits now =
     \<lparr>rep_what = what, rep_emits = emits, rep_start = now, rep_last = 0, rep_sent = False\<rparr>"

text \<open>\<^verbatim>\<open>%3.0f\<close> of the percentage: rounded to an integer, padded to three.\<close>

definition show_pct :: "float64 \<Rightarrow> string" where
  "show_pct f =
     (case f of
        FFin x \<Rightarrow> (let ds = nat_digits (nat (round_half_even x))
                  in replicate (3 - length ds) (CHR '' '') @ ds)
      | FNaN \<Rightarrow> ''NaN'' | FInf s \<Rightarrow> ''+Inf'')"

text \<open>\<^verbatim>\<open>line\<close>; \<open>elapsed\<close> is the time since the start in seconds, a double.\<close>

definition progress_line :: "string \<Rightarrow> int \<Rightarrow> int \<Rightarrow> float64 \<Rightarrow> string" where
  "progress_line what done tot elapsed =
     (let speed = (if f64_less (FFin 0) elapsed
                   then ''  '' @ format_speed (f64_div (f64_of_int done) elapsed) else [])
      in if tot \<le> 0 then what @ ''  '' @ format_bytes done @ speed
         else what @ ''  '' @ bar done tot bar_width @ '' ''
              @ show_pct (f64_mul (percent done tot) (FFin 100)) @ ''%  ''
              @ format_bytes done @ '' / '' @ format_bytes tot @ speed)"

text \<open>\<^verbatim>\<open>Duration.Seconds()\<close>: whole seconds plus the fraction, each a double.\<close>

definition duration_seconds :: "int \<Rightarrow> float64" where
  "duration_seconds d =
     f64_round (of_int (go_div d second_ns) + of_int (go_mod d second_ns) / of_int second_ns)"

definition report :: "reporter \<Rightarrow> int \<Rightarrow> int \<Rightarrow> int \<Rightarrow> reporter \<times> string option" where
  "report r now done tot =
     (if \<not> rep_emits r then (r, None)
      else let finished = (0 < tot \<and> tot \<le> done)
           in if \<not> finished \<and> rep_sent r \<and> now - rep_last r < report_interval then (r, None)
              else (r\<lparr>rep_last := now, rep_sent := True\<rparr>,
                    Some (progress_line (rep_what r) done tot (duration_seconds (now - rep_start r)))))"


section \<open>Lemmas\<close>

lemma byte_unit_bounds:
  "0 < d \<Longrightarrow> d \<le> n \<Longrightarrow> byte_unit n d e = (d', e') \<Longrightarrow>
   d \<le> d' \<and> d' \<le> n \<and> n < 1024 * d' \<and> e \<le> e' \<and> d' = d * 1024 ^ (e' - e)"
proof (induction n d e rule: byte_unit.induct)
  case (1 n d e)
  show ?case
  proof (cases "1024 \<le> n div d")
    case True
    then have le: "d * 1024 \<le> n"
      using "1.prems"(1) by (metis dual_order.trans mult.commute mult_le_mono1 times_div_less_eq_dividend)
    with True "1.prems" "1.IH" [OF True] have
      IH: "d * 1024 \<le> d' \<and> d' \<le> n \<and> n < 1024 * d' \<and> Suc e \<le> e' \<and>
           d' = (d * 1024) * 1024 ^ (e' - Suc e)"
      by (simp add: byte_unit.simps [of n d e])
    then have "e' - e = Suc (e' - Suc e)" by (metis Suc_diff_Suc Suc_le_lessD)
    then have "d' = d * 1024 ^ (e' - e)" using IH by simp
    then show ?thesis using IH by simp
  next
    case False
    with "1.prems" have eq: "d' = d" "e' = e" by (simp_all add: byte_unit.simps [of n d e])
    have "n < 1024 * d"
      using False "1.prems"(1) by (metis div_less_iff_less_mult mult.commute not_less)
    with eq "1.prems" show ?thesis by simp
  qed
qed

lemma bar_filled_range: "0 \<le> w \<Longrightarrow> 0 \<le> bar_filled done tot w \<and> bar_filled done tot w \<le> w"
  by (simp add: bar_filled_def Let_def)

lemma length_blocks [simp]: "length full_block = 3" "length light_block = 3"
  by (simp_all add: full_block_def light_block_def)

lemma length_concat_replicate: "length (concat (replicate n x)) = n * length x"
  by (induction n) auto

section \<open>Properties\<close>

text \<open>for every count an int64 can hold, the unit loop stops with a divisor that leaves a
  quotient between 1 and 1023, and the unit letter it indexes exists.\<close>

theorem format_bytes_unit_in_range:
  assumes "1024 \<le> n" and "n < 2 ^ 63" and "byte_unit n 1024 0 = (d, e)"
  shows "e < length ''KMGTPE'' \<and> d = 1024 ^ Suc e \<and> d \<le> n \<and> n < 1024 * d"
proof -
  from byte_unit_bounds [OF _ _ assms(3)] assms(1)
  have b: "d \<le> n" "n < 1024 * d" "d = 1024 ^ Suc e" by auto
  have "e < 6"
  proof (rule ccontr)
    assume "\<not> e < 6"
    then have "(1024::nat) ^ 7 \<le> 1024 ^ Suc e" by (intro power_increasing) auto
    with b assms(2) show False by simp
  qed
  with b show ?thesis by simp
qed

theorem format_bytes_unit_in_range_witness:
  "(5::nat) < length ''KMGTPE'' \<and> (1024::nat) ^ 6 \<le> 2 ^ 63 - 1"
proof -
  have "byte_unit (2 ^ 63 - 1) 1024 0 = (1024 ^ 6, 5)"
    by (simp add: byte_unit.simps)
  from format_bytes_unit_in_range [OF _ _ this] show ?thesis by simp
qed

text \<open>the remaining time is rendered faithfully up to 99 hours, and as \<^verbatim>\<open>">99h"\<close> above
  that as long as the duration fits an int64 of nanoseconds. Beyond, the multiplication by
  \<^verbatim>\<open>time.Second\<close> wraps around: an estimate of 10000000000 seconds is shown as a negative
  number of seconds.\<close>

theorem format_eta_long:
  "(\<forall>s. 99 * 3600 < s \<longrightarrow> s \<le> 9223372036 \<longrightarrow> format_eta s StatusActive = ''>99h'') \<and>
   format_eta 10000000000 StatusActive = ''-53s''"
proof (intro conjI allI impI)
  fix s :: int
  assume s: "99 * 3600 < s" "s \<le> 9223372036"
  then have "in_int64 (s * second_ns)"
    by (simp add: in_int64_def int64_min_def int64_max_def second_ns_def)
  with s show "format_eta s StatusActive = ''>99h''"
    by (simp add: format_eta_def Let_def second_ns_def)
next
  show "format_eta 10000000000 StatusActive = ''-53s''" by code_simp
qed

theorem format_eta_long_witness: "format_eta 400000 StatusActive = ''>99h''"
  using format_eta_long by auto

text \<open>whatever counts a server reports, the bar has its brackets and exactly \<open>width\<close> cells.\<close>

theorem bar_cells:
  assumes "2 \<le> width"
  shows "length (bar done tot width) = 3 * nat width + 2"
  using assms bar_filled_range [of width "done" tot]
  by (simp add: bar_def Let_def length_concat_replicate) linarith

theorem bar_cells_witness: "length (bar 7000 10 24) = 74"
  using bar_cells [of 24 7000 10] by simp

text \<open>The lines of a run of reports: the time of each emitted line and whether it was final.\<close>

fun report_run :: "reporter \<Rightarrow> (int \<times> int \<times> int) list \<Rightarrow> (int \<times> bool) list" where
  "report_run r [] = []"
| "report_run r ((now, done, tot) # cs) =
     (case report r now done tot of
        (r', None) \<Rightarrow> report_run r' cs
      | (r', Some l) \<Rightarrow> (now, 0 < tot \<and> tot \<le> done) # report_run r' cs)"

lemma report_run_first:
  "rep_sent r \<Longrightarrow> report_run r cs = (t, fin) # ls \<Longrightarrow> fin \<or> report_interval \<le> t - rep_last r"
proof (induction cs arbitrary: r)
  case Nil
  then show ?case by simp
next
  case (Cons c cs)
  obtain now d tot where c: "c = (now, d, tot)" by (cases c) auto
  from Cons show ?case
    by (auto simp: c report_def Let_def split: if_splits)
qed

lemma report_run_spaced:
  "successively (\<lambda>(t1, _) (t2, fin). fin \<or> report_interval \<le> t2 - t1) (report_run r cs)"
proof (induction cs arbitrary: r)
  case Nil
  then show ?case by simp
next
  case (Cons c cs)
  obtain now d tot where c: "c = (now, d, tot)" by (cases c) auto
  obtain r' o' where rp: "report r now d tot = (r', o')" by (cases "report r now d tot") auto
  show ?case
  proof (cases o')
    case None
    with Cons show ?thesis by (simp add: c rp)
  next
    case (Some l)
    with rp have r': "rep_sent r'" "rep_last r' = now"
      by (auto simp: report_def Let_def split: if_splits)
    show ?thesis
    proof (cases "report_run r' cs")
      case Nil
      then show ?thesis by (simp add: c rp Some)
    next
      case (Cons x xs)
      obtain t fin where x: "x = (t, fin)" by (cases x) auto
      have "fin \<or> report_interval \<le> t - now"
        using report_run_first [OF r'(1), of cs t fin xs] Cons r'(2) x by simp
      then show ?thesis
        using Cons.IH [of r'] Cons x by (simp add: c rp Some)
    qed
  qed
qed

text \<open>lines come at most every interval (400ms), except that a transfer that has reached
  its total always emits its line.\<close>

theorem report_throttled:
  "successively (\<lambda>(t1, _) (t2, fin). fin \<or> report_interval \<le> t2 - t1) (report_run r cs) \<and>
   (\<forall>now done tot. rep_emits r \<and> 0 < tot \<and> tot \<le> done \<longrightarrow> snd (report r now done tot) \<noteq> None)"
  using report_run_spaced by (auto simp: report_def Let_def)

theorem report_throttled_witness:
  "map fst (report_run (new_reporter ''x'' True 0)
     [(100000000, 0, 0), (200000000, 5, 0), (700000000, 9, 0)]) = [100000000, 700000000] \<and>
   (0::int) < 700000000 - 100000000"
proof -
  have run: "map fst (report_run (new_reporter ''x'' True 0)
     [(100000000, 0, 0), (200000000, 5, 0), (700000000, 9, 0)]) = [100000000, 700000000]"
    by (simp add: report_def new_reporter_def report_interval_def)
  moreover have "successively (\<lambda>(t1, _) (t2, fin). fin \<or> report_interval \<le> t2 - t1)
      (report_run (new_reporter ''x'' True 0)
     [(100000000, 0, 0), (200000000, 5, 0), (700000000, 9, 0)])"
    using report_throttled by blast
  ultimately show ?thesis by simp
qed

end
