(* ===== verification/Glob.thy ===== *)
theory Glob
  imports GoStrings
begin

text \<open>
  \<^verbatim>\<open>path.Match\<close> of Go's standard library, which \<^verbatim>\<open>internal/torrentmgr/selection.go\<close> uses for
  its patterns: \<open>*\<close> (not across a slash), \<open>?\<close>, character classes and backslash escapes. A
  malformed pattern is \<open>None\<close>. Characters are UTF-8 runes, decoded as \<^verbatim>\<open>utf8.DecodeRune\<close>
  does (an invalid byte is one replacement rune).
\<close>

section \<open>Runes\<close>

definition cont :: "char \<Rightarrow> bool" where
  "cont c \<longleftrightarrow> 128 \<le> (of_char c :: nat) \<and> (of_char c :: nat) \<le> 191"

fun decode_rune :: "string \<Rightarrow> nat \<times> string" where
  "decode_rune [] = (65533, [])"
| "decode_rune (a # s) =
     (let x = (of_char a :: nat); bad = (65533, s);
          low = (\<lambda>c. (of_char c :: nat) - 128)
      in if x < 128 then (x, s)
         else if 194 \<le> x \<and> x \<le> 223 then
           (case s of b # r \<Rightarrow> if cont b then ((x - 192) * 64 + low b, r) else bad | [] \<Rightarrow> bad)
         else if 224 \<le> x \<and> x \<le> 239 then
           (case s of b # c # r \<Rightarrow>
              if cont b \<and> cont c \<and> (x = 224 \<longrightarrow> 160 \<le> (of_char b :: nat)) \<and> (x = 237 \<longrightarrow> (of_char b :: nat) \<le> 159)
              then ((x - 224) * 4096 + low b * 64 + low c, r) else bad
            | _ \<Rightarrow> bad)
         else if 240 \<le> x \<and> x \<le> 244 then
           (case s of b # c # d # r \<Rightarrow>
              if cont b \<and> cont c \<and> cont d \<and> (x = 240 \<longrightarrow> 144 \<le> (of_char b :: nat)) \<and> (x = 244 \<longrightarrow> (of_char b :: nat) \<le> 143)
              then ((x - 240) * 262144 + low b * 4096 + low c * 64 + low d, r) else bad
            | _ \<Rightarrow> bad)
         else bad)"

lemma decode_rune_shorter: "s \<noteq> [] \<Longrightarrow> length (snd (decode_rune s)) < length s"
  by (cases s) (auto simp: Let_def split: list.splits)

section \<open>Chunks\<close>

text \<open>\<^verbatim>\<open>getEsc\<close>: one possibly escaped rune of a class; there must be more pattern after it.\<close>

definition get_esc :: "string \<Rightarrow> (nat \<times> string) option" where
  "get_esc c =
     (if c = [] \<or> hd c = CHR ''-'' \<or> hd c = CHR '']'' then None
      else let c' = (if hd c = CHR 0x5C then tl c else c)
           in if c' = [] then None
              else let (r, rest) = decode_rune c'
                   in if r = 65533 \<and> length c' = Suc (length rest) \<or> rest = [] then None
                      else Some (r, rest))"

lemma get_esc_shorter: "get_esc c = Some (r, rest) \<Longrightarrow> length rest < length c"
proof -
  assume a: "get_esc c = Some (r, rest)"
  define c' where "c' = (if hd c = CHR 0x5C then tl c else c)"
  from a have "c \<noteq> []" "c' \<noteq> []" and r: "rest = snd (decode_rune c')"
    by (auto simp: get_esc_def c'_def Let_def split: if_splits prod.splits)
  then have "length rest < length c'" using decode_rune_shorter by simp
  moreover have "length c' \<le> length c" by (simp add: c'_def)
  ultimately show ?thesis by simp
qed

text \<open>The ranges of a character class up to its bracket: does one hold the rune, and what follows.\<close>

function class_ranges :: "string \<Rightarrow> nat \<Rightarrow> bool \<Rightarrow> bool \<Rightarrow> (bool \<times> string) option" where
  "class_ranges chunk r seen matched =
     (if chunk \<noteq> [] \<and> hd chunk = CHR '']'' \<and> seen then Some (matched, tl chunk)
      else case get_esc chunk of
             None \<Rightarrow> None
           | Some (lo, c) \<Rightarrow>
               if hd c = CHR ''-'' then
                 (case get_esc (tl c) of
                    None \<Rightarrow> None
                  | Some (hi, c') \<Rightarrow> class_ranges c' r True (matched \<or> lo \<le> r \<and> r \<le> hi))
               else class_ranges c r True (matched \<or> lo \<le> r \<and> r \<le> lo))"
  by pat_completeness auto
termination
proof (relation "measure (\<lambda>(c, _). length c)", goal_cases)
  case 1
  show ?case by simp
next
  case (2 chunk r seen matched p lo c q hi c')
  from get_esc_shorter [of chunk lo c] get_esc_shorter [of "tl c" hi c'] 2
  show ?case by simp
next
  case (3 chunk r seen matched p lo c)
  with get_esc_shorter [of chunk lo c] show ?case by simp
qed

declare class_ranges.simps [simp del]

lemma class_ranges_shorter: "class_ranges c r seen m = Some (b, rest) \<Longrightarrow> length rest < length c"
proof (induction c r seen m rule: class_ranges.induct)
  case (1 chunk r seen m)
  from "1.prems" show ?case
    by (subst (asm) class_ranges.simps)
      (use "1.IH" in \<open>fastforce split: if_splits option.splits dest: get_esc_shorter\<close>)
qed

text \<open>\<^verbatim>\<open>matchChunk\<close>: outer \<open>None\<close> for a malformed chunk, inner \<open>None\<close> for no match, otherwise
  the unread rest of the name. Once \<open>failed\<close>, the chunk is only checked.\<close>

function match_chunk :: "string \<Rightarrow> string \<Rightarrow> bool \<Rightarrow> string option option" where
  "match_chunk chunk s failed =
     (case chunk of
        [] \<Rightarrow> Some (if failed then None else Some s)
      | p # ps \<Rightarrow>
          let failed = (failed \<or> s = []) in
          if p = CHR ''['' then
            let (r, s') = (if failed then (0, s) else decode_rune s);
                neg = (ps \<noteq> [] \<and> hd ps = CHR ''^'');
                body = (if neg then tl ps else ps)
            in (case class_ranges body r False False of
                  None \<Rightarrow> None
                | Some (m, rest) \<Rightarrow> match_chunk rest s' (failed \<or> m = neg))
          else if p = CHR ''?'' then
            let failed' = (failed \<or> hd s = CHR ''/'')
            in match_chunk ps (if failed' then s else snd (decode_rune s)) failed'
          else if p = CHR 0x5C \<and> ps = [] then None
          else let (q, qs) = (if p = CHR 0x5C then (hd ps, tl ps) else (p, ps))
               in match_chunk qs (if failed then s else tl s) (failed \<or> hd s \<noteq> q))"
  by pat_completeness auto
termination
proof (relation "measure (\<lambda>(c, _). length c)", goal_cases)
  case 1
  show ?case by simp
next
  case (2 chunk s failed p ps fl x r s' neg body y m rest)
  then have "length rest < length body" using class_ranges_shorter by blast
  moreover have "length body \<le> length ps" using 2 by simp
  ultimately show ?case using 2 by simp
qed (auto split: if_splits)

declare match_chunk.simps [simp del]

text \<open>\<^verbatim>\<open>scanChunk\<close>: a leading run of stars, the chunk up to the next star outside a class, the rest.\<close>

fun scan_body :: "string \<Rightarrow> bool \<Rightarrow> string \<times> string" where
  "scan_body [] inr = ([], [])"
| "scan_body (p # ps) inr =
     (if p = CHR 0x5C then
        (case ps of
           [] \<Rightarrow> ([p], [])
         | q # qs \<Rightarrow> (let (c, r) = scan_body qs inr in (p # q # c, r)))
      else if p = CHR ''*'' \<and> \<not> inr then ([], p # ps)
      else let (c, r) = scan_body ps (if p = CHR ''['' then True else if p = CHR '']'' then False else inr)
           in (p # c, r))"

definition scan_chunk :: "string \<Rightarrow> bool \<times> string \<times> string" where
  "scan_chunk pat =
     (let star = (pat \<noteq> [] \<and> hd pat = CHR ''*'');
          (c, r) = scan_body (dropWhile (\<lambda>c. c = CHR ''*'') pat) False
      in (star, c, r))"

lemma scan_body_length: "scan_body p inr = (c, r) \<Longrightarrow> length c + length r = length p"
  by (induction p inr arbitrary: c r rule: scan_body.induct)
    (auto split: if_splits list.splits prod.splits simp: Let_def)

lemma scan_body_nonempty: "p \<noteq> [] \<Longrightarrow> hd p \<noteq> CHR ''*'' \<Longrightarrow> scan_body p False = (c, r) \<Longrightarrow> c \<noteq> []"
  by (cases p) (auto split: if_splits list.splits prod.splits simp: Let_def)

lemma scan_chunk_shorter:
  assumes "pat \<noteq> []" and "scan_chunk pat = (star, c, r)"
  shows "length r < length pat"
proof -
  define p where "p = dropWhile (\<lambda>c. c = CHR ''*'') pat"
  have b: "scan_body p False = (c, r)"
    using assms(2) by (auto simp: scan_chunk_def p_def Let_def split: prod.splits)
  note len = scan_body_length [OF b]
  have pl: "length p \<le> length pat" by (simp add: p_def length_dropWhile_le)
  show ?thesis
  proof (cases "hd pat = CHR ''*''")
    case True
    then have "p = dropWhile (\<lambda>c. c = CHR ''*'') (tl pat)"
      using assms(1) by (cases pat) (auto simp: p_def)
    then have "length p < length pat"
      using assms(1) length_dropWhile_le [of _ "tl pat"] by (cases pat) (auto simp: le_imp_less_Suc)
    then show ?thesis using len by linarith
  next
    case False
    then have "p = pat" using assms(1) by (cases pat) (auto simp: p_def)
    with False b assms(1) have "c \<noteq> []" using scan_body_nonempty by blast
    then have "0 < length c" by simp
    then show ?thesis using len pl by linarith
  qed
qed

text \<open>The loop behind a star: skip bytes up to a slash until the chunk matches (and, for the
  last chunk, leaves nothing).\<close>

fun skip_match :: "string \<Rightarrow> bool \<Rightarrow> string \<Rightarrow> string option option" where
  "skip_match chunk final [] = Some None"
| "skip_match chunk final (x # xs) =
     (if x = CHR ''/'' then Some None
      else case match_chunk chunk xs False of
             None \<Rightarrow> None
           | Some None \<Rightarrow> skip_match chunk final xs
           | Some (Some t) \<Rightarrow> if final \<and> t \<noteq> [] then skip_match chunk final xs else Some (Some t))"

text \<open>The rest of a pattern that has not matched is still checked.\<close>

function check_rest :: "string \<Rightarrow> bool option" where
  "check_rest pat =
     (if pat = [] then Some False
      else case scan_chunk pat of (_, chunk, rest) \<Rightarrow>
             (case match_chunk chunk [] False of None \<Rightarrow> None | Some _ \<Rightarrow> check_rest rest))"
  by pat_completeness auto
termination
  by (relation "measure length") (auto intro: scan_chunk_shorter simp: eq_commute [of "(_, _)"])

function glob_match :: "string \<Rightarrow> string \<Rightarrow> bool option" where
  "glob_match pat name =
     (if pat = [] then Some (name = [])
      else case scan_chunk pat of (star, chunk, rest) \<Rightarrow>
        if star \<and> chunk = [] then Some (CHR ''/'' \<notin> set name)
        else case match_chunk chunk name False of
               None \<Rightarrow> None
             | Some r \<Rightarrow>
                 if r \<noteq> None \<and> (the r = [] \<or> rest \<noteq> []) then glob_match rest (the r)
                 else if star then
                   (case skip_match chunk (rest = []) name of
                      None \<Rightarrow> None
                    | Some (Some t) \<Rightarrow> glob_match rest t
                    | Some None \<Rightarrow> check_rest rest)
                 else check_rest rest)"
  by pat_completeness auto
termination
  by (relation "measure (\<lambda>(p, _). length p)") (auto intro: scan_chunk_shorter simp: eq_commute [of "(_, _)"])

declare check_rest.simps [simp del] glob_match.simps [simp del]

section \<open>Literal patterns\<close>

definition literal_char :: "char \<Rightarrow> bool" where
  "literal_char c \<longleftrightarrow> c \<notin> {CHR ''*'', CHR ''?'', CHR ''['', CHR '']'', CHR 0x5C}"

lemma match_chunk_literal:
  "list_all literal_char c \<Longrightarrow>
   match_chunk c s False = Some (if has_prefix s c then Some (drop (length c) s) else None)"
proof -
  have fl: "list_all literal_char c \<Longrightarrow> match_chunk c s True = Some None" for c s
    by (induction c arbitrary: s) (subst match_chunk.simps, auto simp: literal_char_def Let_def)+
  show "list_all literal_char c \<Longrightarrow>
     match_chunk c s False = Some (if has_prefix s c then Some (drop (length c) s) else None)"
  proof (induction c arbitrary: s)
    case Nil
    then show ?case by (subst match_chunk.simps) simp
  next
    case (Cons p ps)
    from Cons.prems have lp: "literal_char p" and rest: "list_all literal_char ps" by simp_all
    from lp have lit: "p \<notin> {CHR ''*'', CHR ''?'', CHR ''['', CHR '']'', CHR 0x5C}"
      by (simp add: literal_char_def)
    show ?case
    proof (cases s)
      case Nil
      with lit fl [OF rest] show ?thesis by (subst match_chunk.simps) (auto simp: Let_def)
    next
      case (Cons x xs)
      with lit fl [OF rest] Cons.IH [OF rest] show ?thesis
        by (subst match_chunk.simps, cases "x = p") (auto simp: Let_def)
    qed
  qed
qed

lemma scan_body_literal: "list_all literal_char p \<Longrightarrow> scan_body p False = (p, [])"
  by (induction p) (auto simp: literal_char_def)

lemma glob_match_literal:
  assumes "list_all literal_char p"
  shows "glob_match p s = Some (s = p)"
proof (cases "p = []")
  case True
  then show ?thesis by (subst glob_match.simps) simp
next
  case False
  then have nostar: "hd p \<noteq> CHR ''*''" using assms by (cases p) (auto simp: literal_char_def)
  then have dw: "dropWhile (\<lambda>c. c = CHR ''*'') p = p" using False by (cases p) auto
  have sc: "scan_chunk p = (False, p, [])"
    using False nostar scan_body_literal [OF assms] by (simp add: scan_chunk_def dw)
  show ?thesis
    using False
    by (subst glob_match.simps)
      (auto simp: sc match_chunk_literal [OF assms] check_rest.simps glob_match.simps has_prefix_iff)
qed

end
