(* ===== verification/Selection.thy ===== *)
theory Selection
  imports Glob
begin

text \<open>
  \<^verbatim>\<open>internal/torrentmgr/selection.go\<close>: which files of a torrent to download. A selection is
  the list of its items, \<open>None\<close> standing for Go's nil selection of everything; files are
  numbered from 1. The lemmas show that \<open>selection_spec\<close>, which writes a choice as runs of
  numbers, is read back by \<open>parse_selection\<close> as the same choice.
\<close>

section \<open>Parsing\<close>

datatype sel_item = SelRange int int | SelGlob string

type_synonym selection = "sel_item list option"

text \<open>\<^verbatim>\<open>parseRange\<close>: \<open>None\<close> for "not shaped like a number or a range", an error for a
  well-shaped but invalid one.\<close>

definition bad_range :: "string \<Rightarrow> gerror" where
  "bad_range part = ErrMsg (''--files: invalid file number or range '' @ part @ '' (files are numbered from 1)'')"

definition parse_range :: "string \<Rightarrow> (int \<times> int) result option" where
  "parse_range part =
     (let (lo_str, hi_str, is_range) = cut (CHR ''-'') part
      in case atoi (trim_space lo_str) of
           None \<Rightarrow> None
         | Some lo \<Rightarrow>
             (case (if is_range then atoi (trim_space hi_str) else Some lo) of
                None \<Rightarrow> None
              | Some hi \<Rightarrow>
                  if lo < 1 \<or> hi < lo then Some (Inl (bad_range part)) else Some (Inr (lo, hi))))"

fun parse_items :: "string list \<Rightarrow> sel_item list result" where
  "parse_items [] = Inr []"
| "parse_items (raw # parts) =
     (let part = trim_space raw
      in if part = [] then parse_items parts
         else case parse_range part of
                Some (Inl e) \<Rightarrow> Inl e
              | Some (Inr (lo, hi)) \<Rightarrow> map_sum id ((#) (SelRange lo hi)) (parse_items parts)
              | None \<Rightarrow>
                  if glob_match part [] = None then Inl (ErrMsg (''--files: bad pattern '' @ part))
                  else map_sum id ((#) (SelGlob part)) (parse_items parts))"

definition parse_selection :: "string \<Rightarrow> selection result" where
  "parse_selection spec0 =
     (let spec = trim_space spec0
      in if spec = [] then Inr None
         else case parse_items (split_on (CHR '','') spec) of
                Inl e \<Rightarrow> Inl e
              | Inr items \<Rightarrow> Inr (if items = [] then None else Some items))"

definition uses_indices :: "selection \<Rightarrow> bool" where
  "uses_indices sel =
     (case sel of None \<Rightarrow> False
      | Some items \<Rightarrow> list_ex (\<lambda>it. case it of SelRange _ _ \<Rightarrow> True | SelGlob _ \<Rightarrow> False) items)"

fun item_match :: "int \<Rightarrow> string \<Rightarrow> sel_item \<Rightarrow> bool" where
  "item_match index path (SelRange lo hi) = (lo \<le> index \<and> index \<le> hi)"
| "item_match index path (SelGlob g) =
     (glob_match g path = Some True \<or> glob_match g (path_base path) = Some True)"

definition sel_match :: "selection \<Rightarrow> int \<Rightarrow> string \<Rightarrow> bool" where
  "sel_match sel index path =
     (case sel of None \<Rightarrow> True | Some items \<Rightarrow> list_ex (item_match index path) items)"

section \<open>Writing a choice\<close>

text \<open>The inner loop of \<^verbatim>\<open>SelectionSpec\<close>: the last file of the run that \<open>j\<close> is in.\<close>

function run_end :: "bool list \<Rightarrow> nat \<Rightarrow> nat" where
  "run_end sel j = (if j + 1 < length sel \<and> sel ! (j + 1) then run_end sel (j + 1) else j)"
  by pat_completeness auto
termination
  by (relation "measure (\<lambda>(sel, j). length sel - j)") auto

declare run_end.simps [simp del]

lemma run_end_ge: "j \<le> run_end sel j"
proof (induction sel j rule: run_end.induct)
  case (1 sel j)
  then show ?case by (subst run_end.simps) auto
qed

text \<open>The outer loop: the runs of selected files, 0-based.\<close>

function spec_runs :: "bool list \<Rightarrow> nat \<Rightarrow> (nat \<times> nat) list" where
  "spec_runs sel i =
     (if length sel \<le> i then []
      else if \<not> sel ! i then spec_runs sel (i + 1)
      else (i, run_end sel i) # spec_runs sel (run_end sel i + 1))"
  by pat_completeness auto
termination
proof (relation "measure (\<lambda>(sel, i). length sel - i)", goal_cases)
  case (3 sel i)
  then show ?case using run_end_ge [of i sel] by simp
qed auto

declare spec_runs.simps [simp del]

definition run_part :: "nat \<times> nat \<Rightarrow> string" where
  "run_part r =
     (if fst r = snd r then itoa (int (fst r) + 1)
      else itoa (int (fst r) + 1) @ ''-'' @ itoa (int (snd r) + 1))"

definition selection_spec :: "bool list \<Rightarrow> string" where
  "selection_spec sel =
     (if list_all (\<lambda>b. b) sel then [] else join_with '','' (map run_part (spec_runs sel 0)))"

section \<open>The runs are the selected files\<close>

lemma run_end_spec:
  "j < length sel \<Longrightarrow> sel ! j \<Longrightarrow>
   run_end sel j < length sel \<and> (\<forall>k. j \<le> k \<and> k \<le> run_end sel j \<longrightarrow> sel ! k)"
proof (induction sel j rule: run_end.induct)
  case (1 sel j)
  show ?case
  proof (cases "j + 1 < length sel \<and> sel ! (j + 1)")
    case True
    with "1.IH" have IH: "run_end sel (j + 1) < length sel"
      "\<forall>k. j + 1 \<le> k \<and> k \<le> run_end sel (j + 1) \<longrightarrow> sel ! k" by auto
    have "sel ! k" if "j \<le> k" "k \<le> run_end sel (j + 1)" for k
      using that IH(2) "1.prems"(2) by (cases "k = j") auto
    with True IH(1) show ?thesis by (simp add: run_end.simps [of sel j])
  next
    case False
    then have "run_end sel j = j" by (subst run_end.simps) auto
    moreover have "k = j" if "j \<le> k" "k \<le> j" for k using that by simp
    ultimately show ?thesis using "1.prems" by auto
  qed
qed

lemma spec_runs_sound:
  "(lo, hi) \<in> set (spec_runs sel i) \<Longrightarrow>
   i \<le> lo \<and> lo \<le> hi \<and> hi < length sel \<and> (\<forall>k. lo \<le> k \<and> k \<le> hi \<longrightarrow> sel ! k)"
proof (induction sel i rule: spec_runs.induct)
  case (1 sel i)
  consider "length sel \<le> i" | "i < length sel" "\<not> sel ! i" | "i < length sel" "sel ! i" by linarith
  then show ?case
  proof cases
    case 1
    with "1.prems" show ?thesis by (subst (asm) spec_runs.simps) simp
  next
    case 2
    with "1.prems" have "(lo, hi) \<in> set (spec_runs sel (i + 1))" by (subst (asm) spec_runs.simps) simp
    with "1.IH"(1) 2 show ?thesis by auto
  next
    case 3
    with "1.prems" have "(lo, hi) = (i, run_end sel i) \<or> (lo, hi) \<in> set (spec_runs sel (run_end sel i + 1))"
      by (subst (asm) spec_runs.simps) simp
    then show ?thesis
    proof
      assume "(lo, hi) = (i, run_end sel i)"
      then show ?thesis using run_end_spec [OF 3] run_end_ge by auto
    next
      assume "(lo, hi) \<in> set (spec_runs sel (run_end sel i + 1))"
      with "1.IH"(2) 3 run_end_ge [of i sel] show ?thesis by auto
    qed
  qed
qed

lemma spec_runs_complete:
  "i \<le> k \<Longrightarrow> k < length sel \<Longrightarrow> sel ! k \<Longrightarrow> \<exists>lo hi. (lo, hi) \<in> set (spec_runs sel i) \<and> lo \<le> k \<and> k \<le> hi"
proof (induction sel i rule: spec_runs.induct)
  case (1 sel i)
  then have i: "i < length sel" by simp
  show ?case
  proof (cases "sel ! i")
    case False
    with "1.prems" have "i + 1 \<le> k" by (cases "i = k") auto
    from "1.IH"(1) [OF _ False this] i "1.prems" False show ?thesis
      by (subst spec_runs.simps) auto
  next
    case True
    have u: "spec_runs sel i = (i, run_end sel i) # spec_runs sel (run_end sel i + 1)"
      using i True by (subst spec_runs.simps) simp
    show ?thesis
    proof (cases "k \<le> run_end sel i")
      case True
      with u "1.prems"(1) show ?thesis by auto
    next
      case False
      with "1.IH"(2) i True "1.prems" u show ?thesis by auto
    qed
  qed
qed

lemma spec_runs_nonempty: "i \<le> k \<Longrightarrow> k < length sel \<Longrightarrow> sel ! k \<Longrightarrow> spec_runs sel i \<noteq> []"
  using spec_runs_complete by fastforce

section \<open>The parts are read back\<close>

lemma itoa_pos: "0 \<le> i \<Longrightarrow> itoa i = nat_digits (nat i)"
  by (simp add: itoa_def)

lemma itoa_pos_free [simp]:
  "0 \<le> i \<Longrightarrow> CHR ''-'' \<notin> set (itoa i)" "0 \<le> i \<Longrightarrow> CHR '','' \<notin> set (itoa i)"
  by (simp_all add: itoa_pos nat_digits_sign)

lemma itoa_pos_plain [simp]: "0 \<le> i \<Longrightarrow> plain_byte (hd (itoa i))" "0 \<le> i \<Longrightarrow> plain_byte (last (itoa i))"
  by (simp_all add: itoa_pos)

lemma trim_itoa [simp]: "0 \<le> i \<Longrightarrow> trim_space (itoa i) = itoa i"
  by (rule trim_space_plain) simp

lemma run_part_plain: "plain_byte (hd (run_part r)) \<and> plain_byte (last (run_part r)) \<and> run_part r \<noteq> []"
  by (simp add: run_part_def)

lemma trim_run_part [simp]: "trim_space (run_part r) = run_part r"
  by (rule trim_space_plain) (simp add: run_part_plain)

lemma run_part_free: "CHR '','' \<notin> set (run_part r)"
  by (simp add: run_part_def)

lemma parse_run_part:
  assumes "fst r \<le> snd r" and "in_int64 (int (snd r) + 1)"
  shows "parse_range (run_part r) = Some (Inr (int (fst r) + 1, int (snd r) + 1))"
proof -
  have r1: "in_int64 (int (fst r) + 1)"
    using assms by (simp add: in_int64_def int64_min_def int64_max_def)
  show ?thesis
  proof (cases "fst r = snd r")
    case True
    then show ?thesis
      using r1 by (simp add: parse_range_def run_part_def cut_not_found)
  next
    case False
    have "cut (CHR ''-'') (run_part r) = (itoa (int (fst r) + 1), itoa (int (snd r) + 1), True)"
      using False cut_found [of "CHR ''-''" "itoa (int (fst r) + 1)" "itoa (int (snd r) + 1)"]
      by (simp add: run_part_def)
    with assms r1 show ?thesis by (simp add: parse_range_def)
  qed
qed

lemma parse_run_parts:
  "\<forall>r\<in>set rs. fst r \<le> snd r \<and> in_int64 (int (snd r) + 1) \<Longrightarrow>
   parse_items (map run_part rs) = Inr (map (\<lambda>r. SelRange (int (fst r) + 1) (int (snd r) + 1)) rs)"
  by (induction rs) (auto simp: parse_run_part run_part_plain)

lemma trim_join:
  assumes "rs \<noteq> []"
  shows "trim_space (join_with '','' (map run_part rs)) = join_with '','' (map run_part rs) \<and>
    join_with '','' (map run_part rs) \<noteq> []"
proof -
  have hd: "plain_byte (hd (join_with '','' (map run_part rs))) \<and> join_with '','' (map run_part rs) \<noteq> []"
    using assms by (cases rs; cases "tl rs") (auto simp: run_part_plain neq_Nil_conv)
  have last: "rs \<noteq> [] \<Longrightarrow> plain_byte (last (join_with '','' (map run_part rs))) \<and> join_with '','' (map run_part rs) \<noteq> []" for rs
  proof (induction rs)
    case (Cons r rs)
    then show ?case by (cases rs) (auto simp: run_part_plain)
  qed simp
  show ?thesis using hd last [OF assms] by (simp add: trim_space_plain)
qed

section \<open>Properties\<close>

text \<open>a choice of at least one file, written by \<^verbatim>\<open>SelectionSpec\<close> and parsed again,
  selects exactly the chosen files, whatever they are called.\<close>

theorem selection_spec_roundtrip:
  assumes "\<exists>k<length sel. sel ! k" and "in_int64 (int (length sel))"
  shows "\<exists>s. parse_selection (selection_spec sel) = Inr s \<and>
    (\<forall>k<length sel. \<forall>path. sel_match s (int k + 1) path = sel ! k)"
proof (cases "list_all (\<lambda>b. b) sel")
  case True
  then have "selection_spec sel = []" by (simp add: selection_spec_def)
  moreover have "trim_space [] = []" by (rule trim_space_plain) simp
  ultimately show ?thesis using True
    by (auto simp: parse_selection_def sel_match_def list_all_length)
next
  case False
  let ?rs = "spec_runs sel 0"
  let ?items = "map (\<lambda>r. SelRange (int (fst r) + 1) (int (snd r) + 1)) ?rs"
  from assms(1) have ne: "?rs \<noteq> []" using spec_runs_nonempty by blast
  have ok: "\<forall>r\<in>set ?rs. fst r \<le> snd r \<and> in_int64 (int (snd r) + 1)"
    using spec_runs_sound [of _ _ sel 0] assms(2)
    by (fastforce simp: in_int64_def int64_min_def int64_max_def)
  have "split_on (CHR '','') (join_with '','' (map run_part ?rs)) = map run_part ?rs"
    using ne by (intro split_join) (auto simp: run_part_free)
  then have parsed: "parse_selection (selection_spec sel) = Inr (Some ?items)"
    using False ne trim_join [OF ne] parse_run_parts [OF ok]
    by (simp add: selection_spec_def parse_selection_def)
  have "sel_match (Some ?items) (int k + 1) path = sel ! k" if k: "k < length sel" for k path
  proof
    assume "sel_match (Some ?items) (int k + 1) path"
    then obtain lo hi where "(lo, hi) \<in> set ?rs" "lo \<le> k" "k \<le> hi"
      by (auto simp: sel_match_def list_ex_iff)
    then show "sel ! k" using spec_runs_sound by blast
  next
    assume "sel ! k"
    from spec_runs_complete [OF le0 k this] obtain lo hi
      where "(lo, hi) \<in> set ?rs" "lo \<le> k" "k \<le> hi" by blast
    then show "sel_match (Some ?items) (int k + 1) path"
      by (force simp: sel_match_def list_ex_iff)
  qed
  with parsed show ?thesis by blast
qed

theorem selection_spec_roundtrip_witness:
  "\<exists>s. parse_selection (selection_spec [True, False, True]) = Inr s \<and> sel_match s 3 ''x'' \<and> \<not> sel_match s 2 ''x''"
proof -
  have "\<exists>k<length [True, False, True]. [True, False, True] ! k" by (rule exI [of _ 0]) simp
  from selection_spec_roundtrip [OF this] obtain s where
    s: "parse_selection (selection_spec [True, False, True]) = Inr s"
      "\<forall>k<3. \<forall>path. sel_match s (int k + 1) path = [True, False, True] ! k"
    by (auto simp: in_int64_def int64_min_def int64_max_def)
  have "sel_match s (int 2 + 1) ''x'' = [True, False, True] ! 2" by (rule s(2) [rule_format]) simp
  moreover have "sel_match s (int 1 + 1) ''x'' = [True, False, True] ! 1" by (rule s(2) [rule_format]) simp
  ultimately have "sel_match s 3 ''x'' \<and> \<not> sel_match s 2 ''x''" by simp
  with s(1) show ?thesis by blast
qed

text \<open>a choice of no file at all is written as the empty specification, which is read back
  as the selection of everything.\<close>

theorem selection_spec_none_selects_all:
  "selection_spec (replicate (Suc n) False) = [] \<and> parse_selection [] = Inr None \<and> sel_match None i path"
proof -
  have "spec_runs (replicate m False) i = []" for m i
    by (induction "replicate m False" i rule: spec_runs.induct) (subst spec_runs.simps, simp)
  then have "spec_runs (replicate (Suc n) False) 0 = []" .
  moreover have "trim_space [] = []" by (rule trim_space_plain) simp
  ultimately show ?thesis
    by (simp add: selection_spec_def parse_selection_def sel_match_def)
qed

end
