(* ===== verification/Settings.thy ===== *)
theory Settings
  imports Store "HOL-Library.Multiset"
begin

text \<open>
  \<^verbatim>\<open>internal/store/settings.go\<close> and the schema migration of \<^verbatim>\<open>store.go\<close>: the settings
  record, its key/value rows, and the table columns that \<^verbatim>\<open>migrate\<close> adds to a database of
  any earlier version. \<^verbatim>\<open>SaveSettings\<close> ranges over a Go map, whose order is not
  specified, so \<open>save_kvs\<close> takes the order as its list and the properties quantify over it.
\<close>

section \<open>Settings\<close>

record settings =
  s_max_concurrent :: int
  s_default_rate_limit :: string
  s_global_rate_limit :: string
  s_auto_retry :: bool
  s_auto_retry_max :: int
  s_notify :: bool
  s_webui :: bool
  s_webui_port :: int
  s_webui_network :: bool
  s_webui_username :: string
  s_webui_password :: string
  s_webui_https :: bool
  s_torbox_key :: string
  s_torbox_default :: bool
  s_torbox_keep :: bool
  s_show_tray :: bool

definition torbox_ready :: "settings \<Rightarrow> bool" where
  "torbox_ready cfg \<longleftrightarrow> s_torbox_key cfg \<noteq> []"

definition default_webui_port :: int where "default_webui_port = 8787"

definition default_settings :: settings where
  "default_settings =
     \<lparr>s_max_concurrent = 0, s_default_rate_limit = [], s_global_rate_limit = [],
      s_auto_retry = False, s_auto_retry_max = 3, s_notify = False, s_webui = False,
      s_webui_port = default_webui_port, s_webui_network = False, s_webui_username = [],
      s_webui_password = [], s_webui_https = False, s_torbox_key = [], s_torbox_default = False,
      s_torbox_keep = False, s_show_tray = True\<rparr>"

text \<open>\<^verbatim>\<open>strconv.FormatBool\<close> and the test \<^verbatim>\<open>v == "true"\<close>.\<close>

definition format_bool :: "bool \<Rightarrow> string" where
  "format_bool b = (if b then ''true'' else ''false'')"

definition read_bool :: "string \<Rightarrow> bool option" where
  "read_bool v = Some (v = ''true'')"

text \<open>One field of \<^verbatim>\<open>GetSettings\<close>: the default unless the key is there and its value reads.\<close>

definition read_field :: "(string \<Rightarrow> 'a option) \<Rightarrow> (string \<times> string) list \<Rightarrow> string \<Rightarrow> 'a \<Rightarrow> 'a" where
  "read_field dec kv k d =
     (case map_of kv k of None \<Rightarrow> d | Some v \<Rightarrow> (case dec v of None \<Rightarrow> d | Some x \<Rightarrow> x))"

definition settings_of_kv :: "(string \<times> string) list \<Rightarrow> settings" where
  "settings_of_kv kv =
     (let d = default_settings in
      \<lparr>s_max_concurrent = read_field atoi kv ''max_concurrent'' (s_max_concurrent d),
       s_default_rate_limit = read_field Some kv ''default_rate_limit'' (s_default_rate_limit d),
       s_global_rate_limit = read_field Some kv ''global_rate_limit'' (s_global_rate_limit d),
       s_auto_retry = read_field read_bool kv ''auto_retry'' (s_auto_retry d),
       s_auto_retry_max = read_field atoi kv ''auto_retry_max_attempts'' (s_auto_retry_max d),
       s_notify = read_field read_bool kv ''notify_on_complete'' (s_notify d),
       s_webui = read_field read_bool kv ''webui'' (s_webui d),
       s_webui_port = read_field atoi kv ''webui_port'' (s_webui_port d),
       s_webui_network = read_field read_bool kv ''webui_network'' (s_webui_network d),
       s_webui_username = read_field Some kv ''webui_username'' (s_webui_username d),
       s_webui_password = read_field Some kv ''webui_password'' (s_webui_password d),
       s_webui_https = read_field read_bool kv ''webui_https'' (s_webui_https d),
       s_torbox_key = read_field Some kv ''torbox_api_key'' (s_torbox_key d),
       s_torbox_default = read_field read_bool kv ''torbox_default'' (s_torbox_default d),
       s_torbox_keep = read_field read_bool kv ''torbox_keep'' (s_torbox_keep d),
       s_show_tray = read_field read_bool kv ''show_tray'' (s_show_tray d)\<rparr>)"

definition get_settings :: "store \<Rightarrow> settings result \<times> store" where
  "get_settings = exec (\<lambda>s. (Inr (settings_of_kv (st_settings s)), s))"

text \<open>The rows \<^verbatim>\<open>SaveSettings\<close> builds.\<close>

definition settings_kv :: "settings \<Rightarrow> (string \<times> string) list" where
  "settings_kv cfg =
     [(''max_concurrent'', itoa (s_max_concurrent cfg)),
      (''default_rate_limit'', s_default_rate_limit cfg),
      (''global_rate_limit'', s_global_rate_limit cfg),
      (''auto_retry'', format_bool (s_auto_retry cfg)),
      (''auto_retry_max_attempts'', itoa (s_auto_retry_max cfg)),
      (''notify_on_complete'', format_bool (s_notify cfg)),
      (''webui'', format_bool (s_webui cfg)),
      (''webui_port'', itoa (s_webui_port cfg)),
      (''webui_network'', format_bool (s_webui_network cfg)),
      (''webui_username'', s_webui_username cfg),
      (''webui_password'', s_webui_password cfg),
      (''webui_https'', format_bool (s_webui_https cfg)),
      (''torbox_api_key'', s_torbox_key cfg),
      (''torbox_default'', format_bool (s_torbox_default cfg)),
      (''torbox_keep'', format_bool (s_torbox_keep cfg)),
      (''show_tray'', format_bool (s_show_tray cfg))]"

text \<open>The upserts, one statement each, until one fails.\<close>

fun save_kvs :: "(string \<times> string) list \<Rightarrow> store \<Rightarrow> unit result \<times> store" where
  "save_kvs [] s = (Inr (), s)"
| "save_kvs ((k, v) # kvs) s =
     (case exec (\<lambda>s. (Inr (), s\<lparr>st_settings := AList.update k v (st_settings s)\<rparr>)) s of
        (Inl e, s) \<Rightarrow> (Inl e, s)
      | (Inr _, s) \<Rightarrow> save_kvs kvs s)"

text \<open>\<open>ord\<close> is the order the map is ranged over in.\<close>

definition save_settings ::
  "((string \<times> string) list \<Rightarrow> (string \<times> string) list) \<Rightarrow> settings \<Rightarrow> store \<Rightarrow> unit result \<times> store" where
  "save_settings ord cfg s = save_kvs (ord (settings_kv cfg)) s"

definition map_order :: "((string \<times> string) list \<Rightarrow> (string \<times> string) list) \<Rightarrow> bool" where
  "map_order ord \<longleftrightarrow> (\<forall>kvs. mset (ord kvs) = mset kvs)"

section \<open>Codecs\<close>

text \<open>A value written as a string and read back.\<close>

locale codec =
  fixes enc :: "'a \<Rightarrow> string"
    and dec :: "string \<Rightarrow> 'a option"
    and valid :: "'a \<Rightarrow> bool"
  assumes dec_enc: "valid x \<Longrightarrow> dec (enc x) = Some x"
begin

lemma enc_inj: "valid x \<Longrightarrow> valid y \<Longrightarrow> enc x = enc y \<Longrightarrow> x = y"
  by (metis dec_enc option.inject)

lemma read_enc: "map_of kv k = Some (enc x) \<Longrightarrow> valid x \<Longrightarrow> read_field dec kv k d = x"
  by (simp add: read_field_def dec_enc)

end

interpretation int_codec: codec itoa atoi in_int64
  by unfold_locales simp

interpretation bool_codec: codec format_bool read_bool "\<lambda>_. True"
  by unfold_locales (simp add: format_bool_def read_bool_def)

interpretation text_codec: codec "\<lambda>v. v" Some "\<lambda>_. True"
  by unfold_locales simp

lemmas field_reads = int_codec.read_enc bool_codec.read_enc text_codec.read_enc

lemma save_kvs_cases:
  assumes "save_kvs kvs s = (r, t)"
  shows "st_rows t = st_rows s \<and> st_now t = st_now s \<and>
    (\<exists>n. st_settings t = fold (\<lambda>(k, v). AList.update k v) (take n kvs) (st_settings s) \<and>
         (r = Inr () \<longrightarrow> n = length kvs))"
  using assms
proof (induction kvs arbitrary: s)
  case Nil
  then show ?case by auto
next
  case (Cons kv kvs)
  obtain k v where kv: "kv = (k, v)" by (cases kv)
  let ?stmt = "\<lambda>s. (Inr (), s\<lparr>st_settings := AList.update k v (st_settings s)\<rparr>) :: unit result \<times> store"
  obtain q u where e: "exec ?stmt s = (q, u)" by (cases "exec ?stmt s")
  from e show ?case
  proof (cases rule: exec_cases)
    case fault
    with Cons.prems kv e have "r = Inl sql_error \<and> t = u" by (auto simp: sql_error_def)
    with fault show ?thesis
      by (auto simp: same_env_def sql_error_def intro: exI [of _ 0])
  next
    case (run w)
    with Cons.prems kv e have "save_kvs kvs u = (r, t)" by auto
    from Cons.IH [OF this] obtain n where
      n: "st_settings t = fold (\<lambda>(k, v). AList.update k v) (take n kvs) (st_settings u)"
        "r = Inr () \<longrightarrow> n = length kvs" "st_rows t = st_rows u \<and> st_now t = st_now u" by blast
    have u: "st_settings u = AList.update k v (st_settings s)" "st_rows u = st_rows s" "st_now u = st_now s"
      using run by (auto simp: same_env_def)
    show ?thesis
      using n u kv by (intro conjI exI [of _ "Suc n"]) auto
  qed
qed

lemma map_of_fold_update:
  "distinct (map fst kvs) \<Longrightarrow>
   map_of (fold (\<lambda>(k, v). AList.update k v) kvs m) k =
     (case map_of kvs k of Some v \<Rightarrow> Some v | None \<Rightarrow> map_of m k)"
proof (induction kvs arbitrary: m)
  case Nil
  then show ?case by simp
next
  case (Cons kv kvs)
  obtain k' v' where kv: "kv = (k', v')" by (cases kv)
  have "map_of kvs k' = None" using Cons.prems kv by (simp add: map_of_eq_None_iff)
  with Cons kv show ?case by (auto split: option.splits)
qed

lemma settings_keys_distinct: "distinct (map fst (settings_kv cfg))"
  by (simp add: settings_kv_def)

lemma distinct_permuted: "mset xs = mset ys \<Longrightarrow> distinct (map fst ys) \<Longrightarrow> distinct (map fst xs)"
  by (metis mset_eq_imp_distinct_iff mset_map)

lemma map_of_permuted:
  assumes "mset xs = mset ys" and "distinct (map fst ys)"
  shows "map_of xs = map_of ys"
proof -
  have "distinct (map fst xs)" using distinct_permuted assms by blast
  moreover have "set xs = set ys" using assms(1) by (metis set_mset_mset)
  ultimately show ?thesis using assms(2) by (simp add: map_of_inject_set)
qed

definition settings_ints_ok :: "settings \<Rightarrow> bool" where
  "settings_ints_ok cfg \<longleftrightarrow>
     in_int64 (s_max_concurrent cfg) \<and> in_int64 (s_auto_retry_max cfg) \<and> in_int64 (s_webui_port cfg)"

lemma settings_of_kv_inverse:
  assumes "settings_ints_ok cfg" and "\<And>k v. map_of (settings_kv cfg) k = Some v \<Longrightarrow> map_of kv k = Some v"
  shows "settings_of_kv kv = cfg"
proof -
  note look = assms(2) [unfolded settings_kv_def]
  note ints = assms(1) [unfolded settings_ints_ok_def]
  show ?thesis
    using ints by (intro settings.equality)
      (simp_all add: settings_of_kv_def field_reads look)
qed


section \<open>Migration\<close>

text \<open>The schema: the columns of the jobs table if there is one, whether the settings table
  exists, and the indexes. \<open>sc_faults\<close> says which statements to come fail.\<close>

record schema =
  sc_jobs :: "string list option"
  sc_settings :: bool
  sc_indexes :: "string list"
  sc_faults :: "bool list"

definition base_columns :: "string list" where
  "base_columns =
     [''id'', ''type'', ''source'', ''output'', ''format'', ''concurrency'', ''status'',
      ''bytes_done'', ''bytes_total'', ''resume_offset'', ''info_hash'', ''error_msg'',
      ''created_at'', ''updated_at'']"

definition job_columns :: "string list" where
  "job_columns =
     [''id'', ''type'', ''source'', ''output'', ''format'', ''concurrency'', ''status'',
      ''bytes_done'', ''bytes_total'', ''resume_offset'', ''info_hash'', ''resolved_paths'',
      ''error_msg'', ''limit_rate'', ''sha256'', ''retry_count'', ''options'', ''created_at'',
      ''updated_at'']"

definition ddl :: "(schema \<Rightarrow> 'a \<times> schema) \<Rightarrow> schema \<Rightarrow> 'a result \<times> schema" where
  "ddl stmt d =
     (case sc_faults d of
        True # fs \<Rightarrow> (Inl sql_error, d\<lparr>sc_faults := fs\<rparr>)
      | False # fs \<Rightarrow> apfst Inr (stmt (d\<lparr>sc_faults := fs\<rparr>))
      | [] \<Rightarrow> apfst Inr (stmt d))"

definition columns_of :: "schema \<Rightarrow> string list" where
  "columns_of d = (case sc_jobs d of None \<Rightarrow> [] | Some cs \<Rightarrow> cs)"

definition has_column :: "string \<Rightarrow> schema \<Rightarrow> bool result \<times> schema" where
  "has_column col = ddl (\<lambda>d. (col \<in> set (columns_of d), d))"

definition add_column :: "string \<Rightarrow> schema \<Rightarrow> unit result \<times> schema" where
  "add_column col = ddl (\<lambda>d. ((), d\<lparr>sc_jobs := map_option (\<lambda>cs. cs @ [col]) (sc_jobs d)\<rparr>))"

fun ensure_columns :: "string list \<Rightarrow> schema \<Rightarrow> unit result \<times> schema" where
  "ensure_columns [] d = (Inr (), d)"
| "ensure_columns (col # cols) d =
     (case has_column col d of
        (Inl e, d) \<Rightarrow> (Inl e, d)
      | (Inr True, d) \<Rightarrow> ensure_columns cols d
      | (Inr False, d) \<Rightarrow>
          (case add_column col d of
             (Inl e, d) \<Rightarrow> (Inl e, d)
           | (Inr _, d) \<Rightarrow> ensure_columns cols d))"

definition later_columns :: "string list" where
  "later_columns = [''resolved_paths'', ''limit_rate'', ''sha256'', ''retry_count'', ''options'']"

definition index_names :: "string list" where
  "index_names = [''jobs_created_at'', ''jobs_status_created_at'']"

definition migrate :: "schema \<Rightarrow> unit result \<times> schema" where
  "migrate d =
     (case ddl (\<lambda>d. ((), d\<lparr>sc_jobs := Some (case sc_jobs d of None \<Rightarrow> base_columns | Some cs \<Rightarrow> cs)\<rparr>)) d of
        (Inl e, d) \<Rightarrow> (Inl e, d)
      | (Inr _, d) \<Rightarrow>
          (case ensure_columns later_columns d of
             (Inl e, d) \<Rightarrow> (Inl e, d)
           | (Inr _, d) \<Rightarrow>
               (case ddl (\<lambda>d. ((), d\<lparr>sc_settings := True\<rparr>)) d of
                  (Inl e, d) \<Rightarrow> (Inl e, d)
                | (Inr _, d) \<Rightarrow>
                    ddl (\<lambda>d. ((), d\<lparr>sc_indexes :=
                        sc_indexes d @ filter (\<lambda>i. i \<notin> set (sc_indexes d)) index_names\<rparr>)) d)))"

lemma ddl_cases:
  assumes "ddl stmt d = (r, t)"
  obtains (fault) "r = Inl sql_error" "sc_jobs t = sc_jobs d" "sc_settings t = sc_settings d" "sc_indexes t = sc_indexes d"
  | (run) fs v where "r = Inr v" "stmt (d\<lparr>sc_faults := fs\<rparr>) = (v, t)"
proof -
  consider fs where "sc_faults d = True # fs" | fs where "sc_faults d = False # fs" | "sc_faults d = []"
    by (metis list.exhaust)
  then show ?thesis
  proof cases
    case 1
    with assms show ?thesis by (intro fault) (auto simp: ddl_def)
  next
    case (2 fs)
    with assms show ?thesis
      by (cases "stmt (d\<lparr>sc_faults := fs\<rparr>)") (auto simp: ddl_def intro: run)
  next
    case 3
    then have d: "d\<lparr>sc_faults := []\<rparr> = d" by (metis schema.surjective schema.update_convs(4))
    obtain v t' where v: "stmt d = (v, t')" by (cases "stmt d")
    with 3 assms show ?thesis by (intro run [of v "[]"]) (simp_all add: ddl_def d del: schema.update_convs)
  qed
qed

lemma ensure_columns_spec:
  assumes "ensure_columns cols d = (r, t)" and "sc_jobs d = Some cs"
  shows "\<exists>cs'. sc_jobs t = Some cs' \<and> (\<exists>new. cs' = cs @ new \<and> set new \<subseteq> set cols) \<and>
    (distinct cs \<longrightarrow> distinct cs') \<and> (r = Inr () \<longrightarrow> set cols \<subseteq> set cs')"
  using assms
proof (induction cols arbitrary: d cs)
  case Nil
  then show ?case by auto
next
  case (Cons col cols)
  obtain q u where h: "has_column col d = (q, u)" by (cases "has_column col d")
  from h [unfolded has_column_def] have u: "sc_jobs u = Some cs \<and> (\<forall>b. q = Inr b \<longrightarrow> b = (col \<in> set cs))"
    by (rule ddl_cases) (auto simp: columns_of_def Cons.prems)
  show ?case
  proof (cases "q = Inr True")
    case True
    with Cons.prems h have "ensure_columns cols u = (r, t)" by simp
    from Cons.IH [OF this] u True show ?thesis by fastforce
  next
    case False
    show ?thesis
    proof (cases "q = Inr False")
      case True
      with u have notin: "col \<notin> set cs" by blast
      obtain q' w where a: "add_column col u = (q', w)" by (cases "add_column col u")
      from a [unfolded add_column_def] have
        w: "q' = Inl sql_error \<and> sc_jobs w = Some cs \<or> q' = Inr () \<and> sc_jobs w = Some (cs @ [col])"
        by (rule ddl_cases) (use u in \<open>auto\<close>)
      then show ?thesis
      proof
        assume "q' = Inl sql_error \<and> sc_jobs w = Some cs"
        with Cons.prems h a True show ?thesis by auto
      next
        assume w': "q' = Inr () \<and> sc_jobs w = Some (cs @ [col])"
        with Cons.prems h a True have "ensure_columns cols w = (r, t)" by simp
        from Cons.IH [OF this] w' notin show ?thesis by fastforce
      qed
    next
      case no: False
      with False obtain e where "q = Inl e" by (metis (full_types) obj_sumE)
      with Cons.prems h u show ?thesis by auto
    qed
  qed
qed


lemma migrate_cases:
  assumes "migrate d = (r, t)" and "sc_jobs d = None \<or> (\<exists>cs. sc_jobs d = Some cs \<and> set base_columns \<subseteq> set cs)"
  shows "(case sc_jobs d of None \<Rightarrow> True | Some cs \<Rightarrow> \<exists>new. sc_jobs t = Some (cs @ new)) \<and>
    (distinct (columns_of d) \<longrightarrow> distinct (columns_of t)) \<and>
    (r = Inr () \<longrightarrow> set job_columns \<subseteq> set (columns_of t) \<and> sc_settings t \<and> set index_names \<subseteq> set (sc_indexes t))"
proof -
  define cs where "cs = (case sc_jobs d of None \<Rightarrow> base_columns | Some cs \<Rightarrow> cs)"
  have base: "set base_columns \<subseteq> set cs" using assms(2) by (auto simp: cs_def)
  have dist: "distinct (columns_of d) \<Longrightarrow> distinct cs"
    by (auto simp: cs_def columns_of_def base_columns_def split: option.splits)
  have all: "set job_columns = set base_columns \<union> set later_columns"
    by (auto simp: job_columns_def base_columns_def later_columns_def)
  obtain q u where c: "ddl (\<lambda>d. ((), d\<lparr>sc_jobs := Some (case sc_jobs d of None \<Rightarrow> base_columns | Some cs \<Rightarrow> cs)\<rparr>)) d
      = (q, u)" by (cases "ddl (\<lambda>d. ((), d\<lparr>sc_jobs := Some (case sc_jobs d of None \<Rightarrow> base_columns | Some cs \<Rightarrow> cs)\<rparr>)) d")
  from c have c': "q = Inl sql_error \<and> sc_jobs u = sc_jobs d \<or> q = Inr () \<and> sc_jobs u = Some cs"
    by (rule ddl_cases) (auto simp: cs_def)
  then show ?thesis
  proof
    assume "q = Inl sql_error \<and> sc_jobs u = sc_jobs d"
    with assms(1) c show ?thesis by (auto simp: migrate_def columns_of_def split: option.splits)
  next
    assume ok: "q = Inr () \<and> sc_jobs u = Some cs"
    obtain q2 v where e: "ensure_columns later_columns u = (q2, v)" by (cases "ensure_columns later_columns u")
    from ensure_columns_spec [OF e] ok obtain new where
      v: "sc_jobs v = Some (cs @ new)" "distinct cs \<longrightarrow> distinct (cs @ new)"
        "q2 = Inr () \<longrightarrow> set later_columns \<subseteq> set (cs @ new)" by auto
    have mid: "(case sc_jobs d of None \<Rightarrow> True | Some cs \<Rightarrow> \<exists>new. sc_jobs x = Some (cs @ new)) \<and>
        (distinct (columns_of d) \<longrightarrow> distinct (columns_of x))" if "sc_jobs x = sc_jobs v" for x
      using v dist that by (auto simp: cs_def columns_of_def split: option.splits)
    show ?thesis
    proof (cases q2)
      case (Inl e')
      with assms(1) c e ok mid [OF refl] show ?thesis by (auto simp: migrate_def)
    next
      case (Inr x)
      then have q2: "q2 = Inr ()" by simp
      obtain q3 w where st: "ddl (\<lambda>d. ((), d\<lparr>sc_settings := True\<rparr>)) v = (q3, w)"
        by (cases "ddl (\<lambda>d. ((), d\<lparr>sc_settings := True\<rparr>)) v")
      from st have w: "sc_jobs w = sc_jobs v \<and> (q3 = Inl sql_error \<or> q3 = Inr () \<and> sc_settings w)"
        by (rule ddl_cases) auto
      then show ?thesis
      proof (elim conjE disjE)
        assume "sc_jobs w = sc_jobs v" "q3 = Inl sql_error"
        with assms(1) c e ok q2 st mid [of w] show ?thesis by (auto simp: migrate_def)
      next
        assume w': "sc_jobs w = sc_jobs v" "q3 = Inr ()" "sc_settings w"
        with assms(1) c e ok q2 st have "ddl (\<lambda>d. ((), d\<lparr>sc_indexes :=
            sc_indexes d @ filter (\<lambda>i. i \<notin> set (sc_indexes d)) index_names\<rparr>)) w = (r, t)"
          by (simp add: migrate_def)
        then have t: "sc_jobs t = sc_jobs v \<and> (r = Inr () \<longrightarrow> sc_settings t \<and> set index_names \<subseteq> set (sc_indexes t))"
          by (rule ddl_cases) (use w' in \<open>auto simp: sql_error_def\<close>)
        then have cols: "columns_of t = cs @ new" using v by (simp add: columns_of_def)
        with t mid [of t] v q2 base show ?thesis by (auto simp: all)
      qed
    qed
  qed
qed

section \<open>Properties\<close>

text \<open>settings saved without an error are the settings read back, whatever rows were
  stored before and in whatever order the map of rows is ranged over.\<close>

theorem settings_roundtrip:
  assumes "map_order ord" and "settings_ints_ok cfg" and "save_settings ord cfg s = (Inr (), t)"
  shows "settings_of_kv (st_settings t) = cfg \<and> st_rows t = st_rows s"
proof -
  let ?kvs = "ord (settings_kv cfg)"
  have perm: "mset ?kvs = mset (settings_kv cfg)" using assms(1) by (simp add: map_order_def)
  have dist: "distinct (map fst ?kvs)" using distinct_permuted [OF perm settings_keys_distinct] .
  from save_kvs_cases [OF assms(3) [unfolded save_settings_def]]
  have t: "st_rows t = st_rows s" "st_settings t = fold (\<lambda>(k, v). AList.update k v) ?kvs (st_settings s)"
    by auto
  have "map_of (st_settings t) k = Some v" if "map_of (settings_kv cfg) k = Some v" for k v
    using that map_of_permuted [OF perm settings_keys_distinct] map_of_fold_update [OF dist]
    by (simp add: t(2))
  with assms(2) t(1) show ?thesis by (simp add: settings_of_kv_inverse)
qed

text \<open>a save that fails half way is not undone: every stored key then has either its old
  value or the new one.\<close>

theorem save_settings_partial:
  assumes "map_order ord" and "save_settings ord cfg s = (r, t)"
  shows "map_of (st_settings t) k = map_of (st_settings s) k \<or>
    map_of (st_settings t) k = map_of (settings_kv cfg) k"
proof -
  let ?kvs = "ord (settings_kv cfg)"
  have perm: "mset ?kvs = mset (settings_kv cfg)" using assms(1) by (simp add: map_order_def)
  have dist: "distinct (map fst ?kvs)" using distinct_permuted [OF perm settings_keys_distinct] .
  obtain n where n: "st_settings t = fold (\<lambda>(k, v). AList.update k v) (take n ?kvs) (st_settings s)"
    using save_kvs_cases [OF assms(2) [unfolded save_settings_def]] by blast
  have dn: "distinct (map fst (take n ?kvs))" using dist by (simp flip: take_map)
  have "map_of (take n ?kvs) k = Some v \<Longrightarrow> map_of (settings_kv cfg) k = Some v" for v
    by (metis dist in_set_takeD map_of_SomeD map_of_is_SomeI map_of_permuted [OF perm settings_keys_distinct])
  then show ?thesis by (auto simp: n map_of_fold_update [OF dn] split: option.splits)
qed

text \<open>migration of a fresh database or of any earlier version ends with every column
  \<^verbatim>\<open>scanJob\<close> reads; existing columns stay where they are and none is added twice.\<close>

theorem migrate_adds_all_columns:
  assumes "migrate d = (Inr (), t)"
    and "sc_jobs d = None \<or> (\<exists>cs. sc_jobs d = Some cs \<and> set base_columns \<subseteq> set cs \<and> distinct cs)"
  shows "set job_columns \<subseteq> set (columns_of t) \<and> distinct (columns_of t) \<and>
    (\<forall>cs. sc_jobs d = Some cs \<longrightarrow> (\<exists>new. columns_of t = cs @ new)) \<and> sc_settings t"
proof -
  have "distinct (columns_of d)" using assms(2) by (auto simp: columns_of_def)
  with migrate_cases [OF assms(1)] assms(2) show ?thesis
    by (auto simp: columns_of_def split: option.splits)
qed

definition sample_settings :: settings where
  "sample_settings = default_settings\<lparr>s_max_concurrent := 4, s_webui := True\<rparr>"

lemma map_order_id: "map_order (\<lambda>kvs. kvs)"
  by (simp add: map_order_def)

lemma sample_save: "save_settings (\<lambda>kvs. kvs) sample_settings (sample_store []) =
    (Inr (), snd (save_settings (\<lambda>kvs. kvs) sample_settings (sample_store [])))"
  by (simp add: save_settings_def settings_kv_def exec_no_faults sample_store_def)

theorem settings_roundtrip_witness:
  "settings_of_kv (st_settings (snd (save_settings (\<lambda>kvs. kvs) sample_settings (sample_store [])))) = sample_settings"
  using settings_roundtrip [OF map_order_id _ sample_save]
  by (simp add: settings_ints_ok_def sample_settings_def default_settings_def default_webui_port_def
    in_int64_def int64_min_def int64_max_def)

theorem save_settings_partial_witness:
  "map_of (st_settings (snd (save_settings (\<lambda>kvs. kvs) sample_settings (sample_store [])))) ''webui'' = None \<or>
   map_of (st_settings (snd (save_settings (\<lambda>kvs. kvs) sample_settings (sample_store [])))) ''webui'' = Some ''true''"
  using save_settings_partial [OF map_order_id sample_save, of "''webui''"]
  by (simp add: sample_store_def settings_kv_def sample_settings_def format_bool_def)

theorem migrate_adds_all_columns_witness:
  "set job_columns \<subseteq> set (columns_of (snd (migrate \<lparr>sc_jobs = Some (base_columns @ [''sha256'']), sc_settings = False,
     sc_indexes = [], sc_faults = []\<rparr>)))"
proof -
  let ?d = "\<lparr>sc_jobs = Some (base_columns @ [''sha256'']), sc_settings = False, sc_indexes = [], sc_faults = []\<rparr>"
  have "migrate ?d = (Inr (), snd (migrate ?d))" by code_simp
  from migrate_adds_all_columns [OF this] show ?thesis by (simp add: base_columns_def)
qed

end
