(* ===== verification/TorrentMgr.thy ===== *)
theory TorrentMgr
  imports Selection RateLimit
begin

text \<open>
  \<^verbatim>\<open>internal/torrentmgr/torrentmgr.go\<close>: the jobs' live torrents, their chosen files, and
  progress. A \<open>torrent\<close> is what the torrent library reports of one torrent (metadata known or
  not, files with their lengths and completed bytes, the info hash); the two calls that create
  one, parsing a source and adding it to the client, are parameters of the operations that make
  them. The manager's two maps are association lists.
\<close>

section \<open>Data\<close>

record tfile =
  tf_path :: string
  tf_length :: int
  tf_done :: int
  tf_priority :: bool

record torrent =
  tor_info :: bool
  tor_name :: string
  tor_files :: "tfile list"
  tor_completed :: int
  tor_length :: int
  tor_hash :: string
  tor_uploaded :: int

record file_info =
  fi_index :: int
  fi_path :: string
  fi_length :: int
  fi_done :: int

record tmanager =
  tm_active :: "(string \<times> torrent) list"
  tm_wanted :: "(string \<times> nat list) list"
  tm_limit :: limiter

definition unlimited_burst :: int where "unlimited_burst = 67108864"

definition new_manager :: tmanager where
  "new_manager = \<lparr>tm_active = [], tm_wanted = [], tm_limit = \<lparr>lim_rate = None, lim_burst = unlimited_burst\<rparr>\<rparr>"

section \<open>Operations\<close>

definition tm_set_download_limit :: "int \<Rightarrow> tmanager \<Rightarrow> tmanager" where
  "tm_set_download_limit bps m =
     (if bps \<le> 0 then m\<lparr>tm_limit := \<lparr>lim_rate = None, lim_burst = unlimited_burst\<rparr>\<rparr>
      else m\<lparr>tm_limit := \<lparr>lim_rate = Some bps, lim_burst = (if bps < 1048576 then 1048576 else bps)\<rparr>\<rparr>)"

text \<open>\<^verbatim>\<open>specFromSource\<close>: the info hash of a magnet link or a .torrent file, an all-zero one
  refused. \<open>magnet\<close> and \<open>load\<close> are the library's two parsers.\<close>

definition zero_hash :: string where "zero_hash = replicate 40 (CHR ''0'')"

definition spec_from_source ::
  "(string \<Rightarrow> string result) \<Rightarrow> (string \<Rightarrow> string result) \<Rightarrow> string \<Rightarrow> string result" where
  "spec_from_source magnet load source =
     (case (if has_prefix source ''magnet:'' then magnet source
            else case load source of
                   Inl e \<Rightarrow> Inl (ErrMsg (''loading torrent file: '' @ err_string e)) | Inr h \<Rightarrow> Inr h) of
        Inl e \<Rightarrow> Inl e
      | Inr h \<Rightarrow> if h = zero_hash then Inl (ErrMsg ''invalid torrent source: empty/zero info hash'') else Inr h)"

text \<open>\<^verbatim>\<open>Add\<close>; \<open>spec\<close> is the parsed source and \<open>client\<close> the library's AddTorrentSpec.\<close>

definition tm_add :: "string result \<Rightarrow> (string \<Rightarrow> torrent result) \<Rightarrow> string \<Rightarrow> tmanager \<Rightarrow> torrent result \<times> tmanager" where
  "tm_add spec client i m =
     (case spec of
        Inl e \<Rightarrow> (Inl e, m)
      | Inr h \<Rightarrow>
          (case client h of
             Inl e \<Rightarrow> (Inl e, m)
           | Inr t \<Rightarrow> (Inr t, m\<lparr>tm_active := AList.update i t (tm_active m)\<rparr>)))"

definition selected_indices :: "selection \<Rightarrow> tfile list \<Rightarrow> nat list" where
  "selected_indices sel fs = filter (\<lambda>k. sel_match sel (int k + 1) (tf_path (fs ! k))) [0..<length fs]"

text \<open>\<^verbatim>\<open>Download\<close> and \<^verbatim>\<open>SetPriority(PiecePriorityNone)\<close> of the files a selection picks and of
  the rest.\<close>

definition prioritise :: "nat list \<Rightarrow> tfile list \<Rightarrow> tfile list" where
  "prioritise wanted fs = map (\<lambda>k. (fs ! k)\<lparr>tf_priority := k \<in> set wanted\<rparr>) [0..<length fs]"

definition tm_select :: "string \<Rightarrow> selection \<Rightarrow> tmanager \<Rightarrow> int result \<times> tmanager" where
  "tm_select i sel m =
     (case map_of (tm_active m) i of
        None \<Rightarrow> (Inl (ErrMsg (''torrent job '' @ i @ '' is not running'')), m)
      | Some t \<Rightarrow>
          let fs = tor_files t;
              wanted = (case sel of None \<Rightarrow> [0..<length fs] | Some _ \<Rightarrow> selected_indices sel fs)
          in (Inr (int (length wanted)),
              m\<lparr>tm_active := AList.update i (t\<lparr>tor_files := prioritise wanted fs\<rparr>) (tm_active m),
                tm_wanted := (if sel = None then AList.delete i (tm_wanted m)
                              else AList.update i wanted (tm_wanted m))\<rparr>))"

definition file_infos :: "tfile list \<Rightarrow> file_info list" where
  "file_infos fs =
     map (\<lambda>k. \<lparr>fi_index = int k, fi_path = tf_path (fs ! k), fi_length = tf_length (fs ! k), fi_done = tf_done (fs ! k)\<rparr>)
       [0..<length fs]"

text \<open>\<^verbatim>\<open>Files\<close>: \<open>None\<close> while the metadata has not arrived.\<close>

definition tm_files :: "string \<Rightarrow> tmanager \<Rightarrow> (file_info list \<times> bool list) option" where
  "tm_files i m =
     (case map_of (tm_active m) i of
        None \<Rightarrow> None
      | Some t \<Rightarrow>
          if \<not> tor_info t then None
          else Some (file_infos (tor_files t),
                 map (\<lambda>k. case map_of (tm_wanted m) i of None \<Rightarrow> True | Some w \<Rightarrow> k \<in> set w)
                   [0..<length (tor_files t)]))"

definition tm_file :: "string \<Rightarrow> int \<Rightarrow> tmanager \<Rightarrow> tfile option" where
  "tm_file i index m =
     (case map_of (tm_active m) i of
        None \<Rightarrow> None
      | Some t \<Rightarrow>
          if \<not> tor_info t then None
          else if index < 0 \<or> int (length (tor_files t)) \<le> index then None
          else Some (tor_files t ! nat index))"

text \<open>\<^verbatim>\<open>Progress\<close>: done, total, and whether the job is running at all.\<close>

definition tm_progress :: "string \<Rightarrow> tmanager \<Rightarrow> int \<times> int \<times> bool" where
  "tm_progress i m =
     (case map_of (tm_active m) i of
        None \<Rightarrow> (0, 0, False)
      | Some t \<Rightarrow>
          if \<not> tor_info t then (0, 0, True)
          else (case map_of (tm_wanted m) i of
                  None \<Rightarrow> (tor_completed t, tor_length t, True)
                | Some w \<Rightarrow> (\<Sum>k\<leftarrow>w. tf_done (tor_files t ! k), \<Sum>k\<leftarrow>w. tf_length (tor_files t ! k), True)))"

definition tm_done :: "string \<Rightarrow> tmanager \<Rightarrow> bool" where
  "tm_done i m = (case tm_progress i m of (d, n, ok) \<Rightarrow> ok \<and> 0 < n \<and> n \<le> d)"

definition tm_uploaded :: "string \<Rightarrow> tmanager \<Rightarrow> int" where
  "tm_uploaded i m = (case map_of (tm_active m) i of None \<Rightarrow> 0 | Some t \<Rightarrow> tor_uploaded t)"

definition tm_pause :: "string \<Rightarrow> tmanager \<Rightarrow> tmanager" where
  "tm_pause i m = m\<lparr>tm_active := AList.delete i (tm_active m), tm_wanted := AList.delete i (tm_wanted m)\<rparr>"

definition tm_cancel :: "string \<Rightarrow> tmanager \<Rightarrow> tmanager" where
  "tm_cancel i m = tm_pause i m"

definition tm_info_hash :: "string \<Rightarrow> tmanager \<Rightarrow> string option" where
  "tm_info_hash i m = map_option tor_hash (map_of (tm_active m) i)"

section \<open>Lemmas\<close>

definition tm_inv :: "tmanager \<Rightarrow> bool" where
  "tm_inv m \<longleftrightarrow> wf_map (tm_active m) \<and> wf_map (tm_wanted m) \<and>
     (\<forall>i w. map_of (tm_wanted m) i = Some w \<longrightarrow>
        (\<exists>t. map_of (tm_active m) i = Some t \<and> (\<forall>k\<in>set w. k < length (tor_files t))))"

lemma tm_inv_wanted:
  "tm_inv m \<Longrightarrow> map_of (tm_wanted m) i = Some w \<Longrightarrow> map_of (tm_active m) i = Some t \<Longrightarrow>
   k \<in> set w \<Longrightarrow> k < length (tor_files t)"
  by (fastforce simp: tm_inv_def)

lemma tm_invI:
  assumes "wf_map (tm_active m)" "wf_map (tm_wanted m)"
    and "\<And>i w. map_of (tm_wanted m) i = Some w \<Longrightarrow>
           \<exists>t. map_of (tm_active m) i = Some t \<and> (\<forall>k\<in>set w. k < length (tor_files t))"
  shows "tm_inv m"
  using assms by (simp add: tm_inv_def)

lemma selected_indices_set:
  "set (selected_indices sel fs) = {k. k < length fs \<and> sel_match sel (int k + 1) (tf_path (fs ! k))}"
  by (auto simp: selected_indices_def)

lemma length_prioritise [simp]: "length (prioritise w fs) = length fs"
  by (simp add: prioritise_def)

lemma nth_prioritise [simp]:
  "k < length fs \<Longrightarrow> prioritise w fs ! k = (fs ! k)\<lparr>tf_priority := k \<in> set w\<rparr>"
  by (simp add: prioritise_def)

lemma file_infos_prioritise [simp]: "file_infos (prioritise w fs) = file_infos fs"
  by (simp add: file_infos_def)

lemma tm_inv_new: "tm_inv new_manager"
  by (simp add: tm_inv_def new_manager_def keys_of_def)

lemma tm_inv_pause [go_inv]: "tm_inv m \<Longrightarrow> tm_inv (tm_pause i m)"
  by (auto simp: tm_inv_def tm_pause_def split: if_splits)

lemma tm_inv_select [go_inv]:
  assumes inv: "tm_inv m" and sel: "tm_select i sel m = (r, m')"
  shows "tm_inv m'"
proof (cases "map_of (tm_active m) i")
  case None
  with assms show ?thesis by (simp add: tm_select_def)
next
  case (Some t)
  show ?thesis
  proof (rule tm_invI)
    show "wf_map (tm_active m')" "wf_map (tm_wanted m')"
      using assms Some by (auto simp: tm_inv_def tm_select_def Let_def)
    fix j w
    assume w: "map_of (tm_wanted m') j = Some w"
    show "\<exists>t. map_of (tm_active m') j = Some t \<and> (\<forall>k\<in>set w. k < length (tor_files t))"
    proof (cases "j = i")
      case True
      with w sel Some inv show ?thesis
        by (cases sel) (auto simp: tm_select_def Let_def selected_indices_set tm_inv_def)
    next
      case False
      with w sel Some have "map_of (tm_wanted m) j = Some w" "map_of (tm_active m') j = map_of (tm_active m) j"
        by (auto simp: tm_select_def Let_def split: if_splits)
      with inv show ?thesis by (simp add: tm_inv_def)
    qed
  qed
qed

lemma tm_inv_limit [go_inv]: "tm_inv m \<Longrightarrow> tm_inv (tm_set_download_limit bps m)"
  by (simp add: tm_inv_def tm_set_download_limit_def)

text \<open>A freshly added torrent replaces whatever the id held; its choice, if one was left, must
  be of the new torrent's files.\<close>

lemma tm_inv_add:
  assumes inv: "tm_inv m" and fresh: "map_of (tm_wanted m) i = None" and add: "tm_add spec client i m = (r, m')"
  shows "tm_inv m'"
proof (rule tm_invI)
  show "wf_map (tm_active m')" "wf_map (tm_wanted m')"
    using inv add by (auto simp: tm_inv_def tm_add_def split: sum.splits)
  fix j w
  assume "map_of (tm_wanted m') j = Some w"
  moreover have "tm_wanted m' = tm_wanted m"
    using add by (auto simp: tm_add_def split: sum.splits)
  ultimately have w: "map_of (tm_wanted m) j = Some w" by simp
  with fresh have "j \<noteq> i" by auto
  with w inv add show "\<exists>t. map_of (tm_active m') j = Some t \<and> (\<forall>k\<in>set w. k < length (tor_files t))"
    by (auto simp: tm_inv_def tm_add_def split: sum.splits)
qed

lemma sum_list_le:
  "(\<And>k. k \<in> set w \<Longrightarrow> (f k :: int) \<le> g k) \<Longrightarrow> sum_list (map g w) \<le> sum_list (map f w) \<Longrightarrow>
   k \<in> set w \<Longrightarrow> f k = g k"
proof (induction w)
  case Nil
  then show ?case by simp
next
  case (Cons a w)
  have "sum_list (map f w) \<le> sum_list (map g w)"
    using Cons.prems(1) by (intro sum_list_mono) simp
  moreover have "f a \<le> g a" using Cons.prems(1) by simp
  ultimately have "f a = g a" "sum_list (map g w) \<le> sum_list (map f w)" using Cons.prems(2) by auto
  with Cons show ?case by auto
qed

section \<open>Properties\<close>

text \<open>a running torrent job reported as done has every byte of every selected file, when
  the library never reports more of a file than its length.\<close>

theorem tm_done_complete:
  assumes "tm_done i m" and "map_of (tm_active m) i = Some t" and "map_of (tm_wanted m) i = Some w"
    and "\<forall>f\<in>set (tor_files t). tf_done f \<le> tf_length f" and "tm_inv m"
  shows "tor_info t \<and> (\<forall>k\<in>set w. tf_done (tor_files t ! k) = tf_length (tor_files t ! k))"
proof -
  from assms(1-3) have info: "tor_info t"
    and le: "(\<Sum>k\<leftarrow>w. tf_length (tor_files t ! k)) \<le> (\<Sum>k\<leftarrow>w. tf_done (tor_files t ! k))"
    by (auto simp: tm_done_def tm_progress_def split: if_splits)
  have "tf_done (tor_files t ! k) \<le> tf_length (tor_files t ! k)" if "k \<in> set w" for k
    using assms(4) tm_inv_wanted [OF assms(5,3,2) that] by (auto dest: nth_mem)
  then have "\<forall>k\<in>set w. tf_done (tor_files t ! k) = tf_length (tor_files t ! k)"
    using sum_list_le [OF _ le] by simp
  with info show ?thesis by simp
qed

definition sample_torrent :: "int \<Rightarrow> int \<Rightarrow> torrent" where
  "sample_torrent len done =
     \<lparr>tor_info = True, tor_name = ''t'',
      tor_files = [\<lparr>tf_path = ''a.mkv'', tf_length = len, tf_done = done, tf_priority = False\<rparr>,
        \<lparr>tf_path = ''b.txt'', tf_length = 9, tf_done = 0, tf_priority = False\<rparr>],
      tor_completed = done, tor_length = len + 9, tor_hash = ''ab'', tor_uploaded = 0\<rparr>"

definition sample_manager :: "torrent \<Rightarrow> tmanager" where
  "sample_manager t = new_manager\<lparr>tm_active := [(''j'', t)], tm_wanted := [(''j'', [0])]\<rparr>"

lemma sample_manager_inv: "tm_inv (sample_manager (sample_torrent len d))"
  by (auto simp: tm_inv_def sample_manager_def new_manager_def wf_map_def keys_of_def sample_torrent_def
    split: if_splits)

theorem tm_done_complete_witness: "tf_done (tor_files (sample_torrent 5 5) ! 0) = 5"
proof -
  have fin: "tm_done ''j'' (sample_manager (sample_torrent 5 5))"
    by (simp add: tm_done_def tm_progress_def sample_manager_def sample_torrent_def)
  have active: "map_of (tm_active (sample_manager (sample_torrent 5 5))) ''j'' = Some (sample_torrent 5 5)"
    and wanted: "map_of (tm_wanted (sample_manager (sample_torrent 5 5))) ''j'' = Some [0]"
    by (simp_all add: sample_manager_def)
  have bounded: "\<forall>f\<in>set (tor_files (sample_torrent 5 5)). tf_done f \<le> tf_length f"
    by (simp add: sample_torrent_def)
  from tm_done_complete [OF fin active wanted bounded sample_manager_inv]
  have "tf_done (tor_files (sample_torrent 5 5) ! 0) = tf_length (tor_files (sample_torrent 5 5) ! 0)" by simp
  then show ?thesis by (simp add: sample_torrent_def)
qed

text \<open>a job whose selected files are all empty is never reported done, although every one
  of them is complete.\<close>

theorem tm_done_empty_files_never:
  "\<not> tm_done ''j'' (sample_manager (sample_torrent 0 0)) \<and>
   tf_done (tor_files (sample_torrent 0 0) ! 0) = tf_length (tor_files (sample_torrent 0 0) ! 0)"
  by (simp add: tm_done_def tm_progress_def sample_manager_def sample_torrent_def)

text \<open>after a selection, the listing of the running job marks exactly the files the
  selection matches, exactly those are asked of the client, and the count returned is theirs
  (a selection that matched nothing downloads nothing).\<close>

theorem tm_select_then_files:
  assumes "tm_select i (Some items) m = (Inr n, m')" and "map_of (tm_active m) i = Some t" and "tor_info t"
  shows "tm_files i m' = Some (file_infos (tor_files t),
      map (\<lambda>k. sel_match (Some items) (int k + 1) (tf_path (tor_files t ! k))) [0..<length (tor_files t)]) \<and>
    map tf_priority (tor_files (the (map_of (tm_active m') i))) = snd (the (tm_files i m')) \<and>
    n = int (length (filter (\<lambda>b. b) (snd (the (tm_files i m')))))"
proof -
  let ?fs = "tor_files t" and ?w = "selected_indices (Some items) (tor_files t)"
  from assms have n: "n = int (length ?w)"
    and act: "map_of (tm_active m') i = Some (t\<lparr>tor_files := prioritise ?w ?fs\<rparr>)"
    and want: "map_of (tm_wanted m') i = Some ?w"
    by (auto simp: tm_select_def Let_def)
  have files: "tm_files i m' = Some (file_infos ?fs,
      map (\<lambda>k. sel_match (Some items) (int k + 1) (tf_path (?fs ! k))) [0..<length ?fs])"
    using assms(3) by (simp add: tm_files_def act want selected_indices_set cong: map_cong)
  have "map tf_priority (prioritise ?w ?fs) =
      map (\<lambda>k. sel_match (Some items) (int k + 1) (tf_path (?fs ! k))) [0..<length ?fs]"
    by (simp add: prioritise_def comp_def selected_indices_set)
  with files show ?thesis
    by (simp add: n act selected_indices_def filter_map comp_def)
qed

theorem tm_select_then_files_witness:
  "snd (the (tm_files ''j'' (snd (tm_select ''j'' (Some [SelRange 2 2]) (sample_manager (sample_torrent 5 0)))))) = [False, True]"
proof -
  have s: "tm_select ''j'' (Some [SelRange 2 2]) (sample_manager (sample_torrent 5 0)) =
      (Inr 1, snd (tm_select ''j'' (Some [SelRange 2 2]) (sample_manager (sample_torrent 5 0))))"
    and t: "map_of (tm_active (sample_manager (sample_torrent 5 0))) ''j'' = Some (sample_torrent 5 0)"
    and i: "tor_info (sample_torrent 5 0)"
    by (simp_all add: tm_select_def sample_manager_def sample_torrent_def selected_indices_def sel_match_def Let_def upt_Suc_append)
  from tm_select_then_files [OF s t i] show ?thesis
    by (simp add: sample_torrent_def sel_match_def upt_Suc_append)
qed

end
