(* ===== verification/Daemon.thy ===== *)
theory Daemon
  imports Settings TorrentMgr Format
begin

text \<open>
  The state of \<^verbatim>\<open>internal/daemon\<close> (\<^verbatim>\<open>server.go\<close>, \<^verbatim>\<open>queue.go\<close>, \<^verbatim>\<open>seed.go\<close>) and the
  small operations on it: the settings cache, the global limiter, the runtimes, the views.
  Each operation of the daemon is a function from state to state and is atomic; what another
  goroutine decides (how a worker ends, when a timer fires) is an argument or an operation of
  its own. Times are nanoseconds of \<open>d_now\<close>, counted from the start of the process.
  \<open>d_panic\<close> records that the code would have panicked, \<open>d_log\<close> what \<^verbatim>\<open>log.Printf\<close> printed,
  \<open>d_notified\<close> what \<^verbatim>\<open>notify.Send\<close> was given, \<open>d_files\<close> the paths that exist on disk, and
  \<open>d_forgotten\<close> the TorBox torrents the daemon asked TorBox to delete.
\<close>

section \<open>State\<close>

text \<open>\<^verbatim>\<open>runtime\<close>. \<open>rt_cancel\<close> tells whether the cancel function is set: the placeholder of
  \<^verbatim>\<open>acquireSlot\<close> has none. A time that was never set is \<open>None\<close>.\<close>

record runtime =
  rt_cancel :: bool
  rt_bytes_done :: int
  rt_bytes_total :: int
  rt_speed :: float64
  rt_last_bytes :: int
  rt_last_time :: "int option"
  rt_last_persist :: "int option"
  rt_last_persist_bytes :: int
  rt_phase :: string

definition placeholder :: runtime where
  "placeholder =
     \<lparr>rt_cancel = False, rt_bytes_done = 0, rt_bytes_total = 0, rt_speed = FFin 0, rt_last_bytes = 0,
      rt_last_time = None, rt_last_persist = None, rt_last_persist_bytes = 0, rt_phase = []\<rparr>"

text \<open>\<^verbatim>\<open>seeder\<close>, with the variables of its loop.\<close>

record seeder =
  sd_opts :: job_options
  sd_size :: int
  sd_start :: int
  sd_last_up :: int
  sd_last_at :: int
  sd_upload :: float64
  sd_ratio :: float64

text \<open>\<^verbatim>\<open>webKey\<close> of \<^verbatim>\<open>webui.go\<close>: what the running web interface was started with.\<close>

record web_key =
  wk_port :: int
  wk_network :: bool
  wk_https :: bool
  wk_username :: string
  wk_password :: string

record daemon =
  d_store :: store
  d_tm :: tmanager
  d_runtimes :: "(string \<times> runtime) list"
  d_settings :: settings
  d_limiter :: "limiter option"
  d_bps :: int
  d_try_running :: bool
  d_try_again :: bool
  d_timers :: "(string \<times> nat) list option"
  d_armed :: "(nat \<times> string \<times> int) list"
  d_next_timer :: nat
  d_seeders :: "(string \<times> seeder) list option"
  d_web :: "web_key option"
  d_now :: int
  d_log :: "string list"
  d_notified :: "string list"
  d_files :: "string list"
  d_forgotten :: "int list"
  d_panic :: bool

text \<open>A call into the store.\<close>

definition on_store :: "(store \<Rightarrow> 'a \<times> store) \<Rightarrow> daemon \<Rightarrow> 'a \<times> daemon" where
  "on_store f d = (case f (d_store d) of (r, s) \<Rightarrow> (r, d\<lparr>d_store := s\<rparr>))"

definition do_store :: "(store \<Rightarrow> 'a \<times> store) \<Rightarrow> daemon \<Rightarrow> daemon" where
  "do_store f d = snd (on_store f d)"

definition log_print :: "string \<Rightarrow> daemon \<Rightarrow> daemon" where
  "log_print l d = d\<lparr>d_log := d_log d @ [l]\<rparr>"

definition go_panic :: "daemon \<Rightarrow> daemon" where
  "go_panic d = d\<lparr>d_panic := True\<rparr>"

definition get_runtime :: "string \<Rightarrow> daemon \<Rightarrow> runtime option" where
  "get_runtime i d = map_of (d_runtimes d) i"

definition set_runtime :: "string \<Rightarrow> runtime \<Rightarrow> daemon \<Rightarrow> daemon" where
  "set_runtime i rt d = d\<lparr>d_runtimes := AList.update i rt (d_runtimes d)\<rparr>"

definition drop_runtime :: "string \<Rightarrow> daemon \<Rightarrow> daemon" where
  "drop_runtime i d = d\<lparr>d_runtimes := AList.delete i (d_runtimes d)\<rparr>"

section \<open>Rates\<close>

text \<open>\<^verbatim>\<open>applyGlobalRateLimit\<close>: the shared limiter is re-rated in place, never replaced.\<close>

definition global_rate :: "settings \<Rightarrow> int" where
  "global_rate cfg =
     (if s_global_rate_limit cfg = [] then 0
      else case parse_rate (s_global_rate_limit cfg) of Inl _ \<Rightarrow> 0 | Inr r \<Rightarrow> r)"

definition apply_global_rate_limit :: "settings \<Rightarrow> daemon \<Rightarrow> daemon" where
  "apply_global_rate_limit cfg d =
     (let bps = global_rate cfg
      in d\<lparr>d_limiter := (if d_limiter d = None then new_shared bps else set_rate (d_limiter d) bps), d_bps := bps\<rparr>)"

definition min_positive_rate :: "int \<Rightarrow> int \<Rightarrow> int" where
  "min_positive_rate a b = (if a \<le> 0 then b else if b \<le> 0 then a else if a < b then a else b)"

section \<open>Building the daemon\<close>

text \<open>\<^verbatim>\<open>NewDaemon\<close>, given an opened store: only the settings are still to read.\<close>

definition new_daemon :: "store \<Rightarrow> int \<Rightarrow> string list \<Rightarrow> daemon result" where
  "new_daemon s now files =
     (case get_settings s of
        (Inl e, _) \<Rightarrow> Inl e
      | (Inr cfg, s) \<Rightarrow> Inr (apply_global_rate_limit cfg
          \<lparr>d_store = s, d_tm = new_manager, d_runtimes = [], d_settings = cfg, d_limiter = None, d_bps = 0,
           d_try_running = False, d_try_again = False, d_timers = Some [], d_armed = [], d_next_timer = 0,
           d_seeders = Some [], d_web = None, d_now = now, d_log = [], d_notified = [], d_files = files, d_forgotten = [],
           d_panic = False\<rparr>))"

section \<open>Views\<close>

record job_view =
  jv_job :: job
  jv_speed :: float64
  jv_eta :: int
  jv_upload :: float64
  jv_ratio :: float64
  jv_phase :: string

text \<open>\<^verbatim>\<open>viewOf\<close>: a running job's counters come from its runtime where they are ahead.\<close>

definition view_of :: "job \<Rightarrow> runtime option \<Rightarrow> job_view" where
  "view_of job ort =
     (case ort of
        None \<Rightarrow> \<lparr>jv_job = job, jv_speed = FFin 0, jv_eta = -1, jv_upload = FFin 0, jv_ratio = FFin 0, jv_phase = []\<rparr>
      | Some rt \<Rightarrow>
          let done = (if j_bytes_done job < rt_bytes_done rt then rt_bytes_done rt else j_bytes_done job);
              tot = (if 0 < rt_bytes_total rt then rt_bytes_total rt else j_bytes_total job)
          in \<lparr>jv_job = job\<lparr>j_bytes_done := done, j_bytes_total := tot\<rparr>, jv_speed = rt_speed rt,
              jv_eta = (if f64_less (FFin 0) (rt_speed rt) \<and> done < tot
                        then f64_to_int64 (f64_div (f64_of_int (wrap64 (tot - done))) (rt_speed rt)) else -1),
              jv_upload = FFin 0, jv_ratio = FFin 0, jv_phase = rt_phase rt\<rparr>)"

definition seeder_of :: "string \<Rightarrow> daemon \<Rightarrow> seeder option" where
  "seeder_of i d = (case d_seeders d of None \<Rightarrow> None | Some m \<Rightarrow> map_of m i)"

definition with_seed_stats :: "daemon \<Rightarrow> job_view \<Rightarrow> job_view" where
  "with_seed_stats d v =
     (if j_status (jv_job v) \<noteq> StatusSeeding then v
      else case seeder_of (j_id (jv_job v)) d of
             None \<Rightarrow> v | Some sd \<Rightarrow> v\<lparr>jv_upload := sd_upload sd, jv_ratio := sd_ratio sd\<rparr>)"

definition view :: "string \<Rightarrow> daemon \<Rightarrow> job_view option \<times> daemon" where
  "view i d =
     (case on_store (get_job i) d of
        (Inl _, d) \<Rightarrow> (None, d)
      | (Inr job, d) \<Rightarrow> (Some (with_seed_stats d (view_of job (get_runtime i d))), d))"

definition snapshot :: "daemon \<Rightarrow> job_view list \<times> daemon" where
  "snapshot d =
     (case on_store list_jobs d of
        (Inl _, d) \<Rightarrow> ([], d)
      | (Inr jobs, d) \<Rightarrow> (map (\<lambda>j. with_seed_stats d (view_of j (get_runtime (j_id j) d))) jobs, d))"

section \<open>Progress\<close>

definition persist_interval :: int where "persist_interval = 2000000000"
definition persist_bytes :: int where "persist_bytes = 8388608"

text \<open>\<^verbatim>\<open>reportProgress\<close>. Since a time never set is the year 1, a difference to it saturates at
  the largest duration.\<close>

definition since :: "int \<Rightarrow> int option \<Rightarrow> int" where
  "since now t = (case t of None \<Rightarrow> int64_max | Some u \<Rightarrow> now - u)"

definition rt_report :: "int \<Rightarrow> int \<Rightarrow> int \<Rightarrow> runtime \<Rightarrow> runtime" where
  "rt_report now done tot rt =
     (let elapsed = duration_seconds (since now (rt_last_time rt));
          rt = (if f64_less (FFin 0) elapsed
                then rt\<lparr>rt_speed := f64_div (f64_of_int (wrap64 (done - rt_last_bytes rt))) elapsed\<rparr> else rt)
      in rt\<lparr>rt_last_bytes := done, rt_last_time := Some now, rt_bytes_done := done, rt_bytes_total := tot\<rparr>)"

definition rt_persists :: "int \<Rightarrow> int \<Rightarrow> runtime \<Rightarrow> bool" where
  "rt_persists now done rt \<longleftrightarrow>
     rt_last_persist rt = None \<or> persist_interval \<le> since now (rt_last_persist rt) \<or>
     persist_bytes \<le> wrap64 (done - rt_last_persist_bytes rt)"

definition report_progress :: "string \<Rightarrow> int \<Rightarrow> int \<Rightarrow> int option \<Rightarrow> daemon \<Rightarrow> daemon" where
  "report_progress i done tot off d =
     (case get_runtime i d of
        None \<Rightarrow> do_store (update_progress i done tot off) d
      | Some rt \<Rightarrow>
          let rt = rt_report (d_now d) done tot rt
          in if rt_persists (d_now d) done rt
             then do_store (update_progress i done tot off)
               (set_runtime i (rt\<lparr>rt_last_persist := Some (d_now d), rt_last_persist_bytes := done\<rparr>) d)
             else set_runtime i rt d)"

end
