(* ===== verification/Slots.thy ===== *)
theory Slots
  imports Main
begin

text \<open>
  The interface of a pool of concurrency slots: the keys that hold a slot, the cap (0 or less:
  none), taking a slot and giving it back. The daemon's \<^verbatim>\<open>acquireSlot\<close> and the removal of a
  runtime are interpreted on it. The lemmas bound the number of slots held, also when the cap
  was lowered below it while slots were held.
\<close>

locale slot_pool =
  fixes ok :: "'s \<Rightarrow> bool"
    and held :: "'s \<Rightarrow> 'k set"
    and cap :: "'s \<Rightarrow> int"
    and acquire :: "'k \<Rightarrow> 's \<Rightarrow> bool \<times> 's"
    and release :: "'k \<Rightarrow> 's \<Rightarrow> 's"
  assumes finite_held: "ok s \<Longrightarrow> finite (held s)"
    and acquire_yes: "ok s \<Longrightarrow> acquire k s = (True, s') \<Longrightarrow>
      ok s' \<and> k \<notin> held s \<and> held s' = insert k (held s) \<and> cap s' = cap s \<and> (0 < cap s \<longrightarrow> int (card (held s)) < cap s)"
    and acquire_no: "ok s \<Longrightarrow> acquire k s = (False, s') \<Longrightarrow>
      s' = s \<and> (k \<in> held s \<or> 0 < cap s \<and> cap s \<le> int (card (held s)))"
    and release: "ok s \<Longrightarrow> ok (release k s) \<and> held (release k s) = held s - {k} \<and> cap (release k s) = cap s"
begin

definition bounded :: "int \<Rightarrow> 's \<Rightarrow> bool" where
  "bounded n s \<longleftrightarrow> ok s \<and> (0 < cap s \<longrightarrow> int (card (held s)) \<le> max n (cap s))"

lemma bounded_held: "ok s \<Longrightarrow> int (card (held s)) \<le> n \<Longrightarrow> bounded n s"
  by (auto simp: bounded_def)

lemma acquire_bounded:
  assumes "bounded n s" and "acquire k s = (b, s')"
  shows "bounded n s'"
proof (cases b)
  case True
  with assms acquire_yes [of s k s'] finite_held [of s] show ?thesis
    by (auto simp: bounded_def)
next
  case False
  with assms acquire_no [of s k s'] show ?thesis by (auto simp: bounded_def)
qed

lemma release_bounded:
  assumes "bounded n s"
  shows "bounded n (release k s)"
proof -
  from assms have ok: "ok s" by (simp add: bounded_def)
  have "card (held s - {k}) \<le> card (held s)"
    by (simp add: card_Diff1_le)
  then have "int (card (held (release k s))) \<le> int (card (held s))"
    using release [OF ok, of k] by simp
  moreover have "cap (release k s) = cap s" "ok (release k s)"
    using release [OF ok, of k] by simp_all
  ultimately show ?thesis
    using assms unfolding bounded_def by auto
qed

lemma acquire_free:
  assumes "ok s" and "k \<notin> held s" and "0 < cap s \<Longrightarrow> int (card (held s)) < cap s"
  shows "fst (acquire k s)"
proof (rule ccontr)
  assume "\<not> fst (acquire k s)"
  then obtain s' where "acquire k s = (False, s')" by (cases "acquire k s") auto
  from acquire_no [OF assms(1) this] assms(2,3) show False by auto
qed

lemma release_acquire:
  assumes "ok s" and "k \<in> held s" and "bounded (cap s) s"
  shows "fst (acquire k (release k s))"
proof (rule acquire_free)
  show "ok (release k s)" "k \<notin> held (release k s)" using release [OF assms(1)] by simp_all
  assume "0 < cap (release k s)"
  then have "0 < cap s" using release [OF assms(1)] by simp
  then have "int (card (held s)) \<le> cap s" using assms(3) by (simp add: bounded_def)
  moreover have "card (held s - {k}) < card (held s)"
    using finite_held [OF assms(1)] assms(2) by (intro psubset_card_mono) auto
  ultimately show "int (card (held (release k s))) < cap (release k s)"
    using release [OF assms(1), of k] by simp
qed

end

end
