(* ===== verification/Queue.thy ===== *)
theory Queue
  imports Daemon Slots
begin

text \<open>
  \<^verbatim>\<open>internal/daemon/queue.go\<close> and the end of a job (\<^verbatim>\<open>finishJob\<close> of \<^verbatim>\<open>lifecycle.go\<close>):
  the concurrency slots, starting a job, the loop that starts queued jobs, and the automatic
  retries. \<^verbatim>\<open>start\<close>, \<^verbatim>\<open>markActive\<close>, \<^verbatim>\<open>clearRuntime\<close> and \<^verbatim>\<open>tryStartQueued\<close> call each other in
  the code, and a flag cuts the recursion: \<open>start_with\<close> takes what \<^verbatim>\<open>clearRuntime\<close> does as an
  argument, the loop runs it with the nested behaviour (\<open>clear_nested\<close>: note that another round
  is needed), and \<open>start_nested\<close> shows that this is what the code's \<^verbatim>\<open>start\<close> does there.
\<close>

section \<open>Durations\<close>

definition minute_ns :: int where "minute_ns = 60 * second_ns"

text \<open>\<^verbatim>\<open>Duration.String\<close> of a whole number of seconds.\<close>

definition show_duration :: "int \<Rightarrow> string" where
  "show_duration t =
     (let s = t div second_ns; h = s div 3600; m = s div 60 mod 60
      in (if 0 < h then itoa h @ ''h'' else []) @ (if 0 < s div 60 then itoa m @ ''m'' else [])
         @ itoa (s mod 60) @ ''s'')"

section \<open>Automatic retries\<close>

text \<open>\<^verbatim>\<open>autoRetryBackoff\<close>: the loop, with the iterations left, and the function.\<close>

fun backoff_loop :: "nat \<Rightarrow> int \<Rightarrow> int" where
  "backoff_loop 0 delay = delay"
| "backoff_loop (Suc k) delay =
     (if 5 * minute_ns \<le> delay * 3 then 5 * minute_ns else backoff_loop k (delay * 3))"

definition auto_retry_backoff :: "int \<Rightarrow> int" where
  "auto_retry_backoff attempt = backoff_loop (nat (attempt - 1)) (5 * second_ns)"

text \<open>\<^verbatim>\<open>scheduleAutoRetry\<close>: a timer is armed, and its handle put into the map, over whatever the
  map held for the job. After \<^verbatim>\<open>Close\<close> the map is nil and the assignment panics.\<close>

definition schedule_auto_retry :: "string \<Rightarrow> int \<Rightarrow> daemon \<Rightarrow> daemon" where
  "schedule_auto_retry i delay d =
     (let n = d_next_timer d;
          d = d\<lparr>d_armed := d_armed d @ [(n, i, d_now d + delay)], d_next_timer := Suc n\<rparr>
      in case d_timers d of
           None \<Rightarrow> go_panic d
         | Some m \<Rightarrow> d\<lparr>d_timers := Some (AList.update i n m)\<rparr>)"

section \<open>The end of a job\<close>

text \<open>The switch of \<^verbatim>\<open>finishJob\<close>: the row to write and the delay of a retry, 0 for none.\<close>

definition finish_status :: "settings \<Rightarrow> bool \<Rightarrow> gerror option \<Rightarrow> job \<Rightarrow> job \<times> int" where
  "finish_status cfg completed err job =
     (if completed then (job\<lparr>j_status := StatusCompleted, j_error := [], j_retry_count := 0\<rparr>, 0)
      else case err of
          Some e \<Rightarrow>
            if e = ErrCanceled then (job\<lparr>j_status := StatusPaused\<rparr>, 0)
            else if s_auto_retry cfg \<and> j_retry_count job < s_auto_retry_max cfg
            then let n = j_retry_count job + 1; delay = auto_retry_backoff n
                 in (job\<lparr>j_status := StatusFailed, j_retry_count := n,
                       j_error := err_string e @ '' (auto-retry '' @ itoa n @ ''/'' @ itoa (s_auto_retry_max cfg)
                         @ '' in '' @ show_duration delay @ '')''\<rparr>, delay)
            else (job\<lparr>j_status := StatusFailed, j_error := err_string e\<rparr>, 0)
        | None \<Rightarrow> (job\<lparr>j_status := StatusFailed, j_error := ''job ended without completing''\<rparr>, 0))"

definition notify_body :: "job \<Rightarrow> string" where
  "notify_body job = (if j_output job \<noteq> [] then path_base (j_output job) else j_source job)"

definition finish_job :: "string \<Rightarrow> int \<Rightarrow> bool \<Rightarrow> gerror option \<Rightarrow> daemon \<Rightarrow> daemon" where
  "finish_job i bytes completed err d =
     (case on_store (get_job i) d of
        (Inl _, d) \<Rightarrow> d
      | (Inr job, d) \<Rightarrow>
          let job = job\<lparr>j_bytes_done := bytes\<rparr>;
              job = (if j_type job = JobURL then job\<lparr>j_resume_offset := bytes\<rparr> else job);
              (job, delay) = finish_status (d_settings d) completed err job;
              d = do_store (update_job job) d;
              d = (if completed \<and> s_notify (d_settings d)
                   then d\<lparr>d_notified := d_notified d @ [notify_body job]\<rparr> else d)
          in if 0 < delay then schedule_auto_retry i delay d else d)"

section \<open>Starting a job\<close>

definition slots_full :: "daemon \<Rightarrow> bool" where
  "slots_full d \<longleftrightarrow> 0 < s_max_concurrent (d_settings d) \<and>
     s_max_concurrent (d_settings d) \<le> int (length (d_runtimes d))"

definition acquire_slot :: "string \<Rightarrow> daemon \<Rightarrow> bool \<times> daemon" where
  "acquire_slot i d =
     (if get_runtime i d \<noteq> None then (False, d)
      else if slots_full d then (False, d)
      else (True, set_runtime i placeholder d))"

text \<open>\<^verbatim>\<open>clearRuntime\<close> inside a running \<^verbatim>\<open>tryStartQueued\<close>.\<close>

definition clear_nested :: "string \<Rightarrow> daemon \<Rightarrow> daemon" where
  "clear_nested i d = (drop_runtime i d)\<lparr>d_try_again := True\<rparr>"

definition active_failed_line :: "string \<Rightarrow> gerror \<Rightarrow> string" where
  "active_failed_line i e = ''job '' @ i @ '': recording it as active failed: '' @ err_string e"

definition active_failed_error :: "gerror \<Rightarrow> gerror" where
  "active_failed_error e = ErrMsg (''recording job as active: '' @ err_string e)"

definition mark_active :: "(string \<Rightarrow> daemon \<Rightarrow> daemon) \<Rightarrow> job \<Rightarrow> daemon \<Rightarrow> bool \<times> daemon" where
  "mark_active clear j d =
     (case on_store (update_status (j_id j) StatusActive []) d of
        (Inr _, d) \<Rightarrow> (True, d)
      | (Inl e, d) \<Rightarrow>
          let d = clear (j_id j) (log_print (active_failed_line (j_id j) e) d)
          in (False, finish_job (j_id j) (j_bytes_done j) False (Some (active_failed_error e)) d))"

text \<open>\<^verbatim>\<open>launch\<close>, up to the start of the worker's goroutine: from then on the runtime is the job's.\<close>

definition launch_runtime :: "int \<Rightarrow> job \<Rightarrow> runtime" where
  "launch_runtime now j = placeholder\<lparr>rt_cancel := True, rt_last_time := Some now,
     rt_bytes_done := j_bytes_done j, rt_bytes_total := j_bytes_total j\<rparr>"

definition launch :: "(string \<Rightarrow> daemon \<Rightarrow> daemon) \<Rightarrow> job \<Rightarrow> daemon \<Rightarrow> daemon" where
  "launch clear j d = snd (mark_active clear j (set_runtime (j_id j) (launch_runtime (d_now d) j) d))"

text \<open>\<^verbatim>\<open>start\<close>: every job type starts through \<^verbatim>\<open>launch\<close>; what they do differs only inside the
  worker.\<close>

definition start_with :: "(string \<Rightarrow> daemon \<Rightarrow> daemon) \<Rightarrow> job \<Rightarrow> daemon \<Rightarrow> bool \<times> daemon" where
  "start_with clear j d =
     (case acquire_slot (j_id j) d of
        (False, d) \<Rightarrow> (False, d)
      | (True, d) \<Rightarrow> (True, launch clear j d))"

definition next_queued_job :: "string list \<Rightarrow> daemon \<Rightarrow> job option result \<times> daemon" where
  "next_queued_job skip d =
     (case on_store list_queued_jobs d of
        (Inl e, d) \<Rightarrow> (Inl e, d)
      | (Inr jobs, d) \<Rightarrow>
          (Inr (List.find (\<lambda>j. j_id j \<notin> set skip \<and> get_runtime (j_id j) d = None) jobs), d))"


section \<open>What these operations leave alone\<close>

definition ids_of :: "daemon \<Rightarrow> string list" where
  "ids_of d = map j_id (st_rows (d_store d))"

text \<open>The statements that may still fail: every one that runs takes a flag off.\<close>

definition faults :: "daemon \<Rightarrow> nat" where
  "faults d = length (st_faults (d_store d))"

lemma on_store_eq: "on_store f d = (r, d') \<longleftrightarrow> (\<exists>s. f (d_store d) = (r, s) \<and> d' = d\<lparr>d_store := s\<rparr>)"
  by (auto simp: on_store_def split: prod.splits)

lemma do_store_eq: "do_store f d = d\<lparr>d_store := snd (f (d_store d))\<rparr>"
  by (simp add: do_store_def on_store_def split: prod.splits)

lemma exec_faults:
  assumes "exec stmt s = (r, t)" and "\<And>u. st_faults (snd (stmt u)) = st_faults u"
  shows "length (st_faults t) \<le> length (st_faults s)"
proof -
  have keep: "st_faults t' = st_faults u" if "stmt u = (r', t')" for u r' t'
    using assms(2) [of u] that by simp
  show ?thesis
    using assms(1) by (cases "st_faults s") (auto simp: exec_def next_fault_def dest: keep split: if_splits)
qed

lemma get_job_faults: "get_job i s = (r, t) \<Longrightarrow> length (st_faults t) \<le> length (st_faults s)"
  unfolding get_job_def by (erule exec_faults) simp

lemma list_queued_faults: "list_queued_jobs s = (r, t) \<Longrightarrow> length (st_faults t) \<le> length (st_faults s)"
  unfolding list_queued_jobs_def by (erule exec_faults) simp

lemma update_job_faults: "update_job j s = (r, t) \<Longrightarrow> length (st_faults t) \<le> length (st_faults s)"
  unfolding update_job_def Let_def by (auto split: if_splits elim!: exec_faults)

lemma update_status_faults:
  assumes "update_status i st msg s = (r, t)"
  shows "length (st_faults t) \<le> length (st_faults s)"
    and "r = Inl e \<Longrightarrow> length (st_faults t) < length (st_faults s)"
  using assms unfolding update_status_def
  by (cases "st_faults s"; auto simp: exec_def next_fault_def split: if_splits)+

lemmas statement_faults = get_job_faults list_queued_faults update_job_faults update_status_faults(1)

lemma do_update_job_ids [simp]: "ids_of (do_store (update_job j) d) = ids_of d"
  using update_job_ids [of j "d_store d"] by (simp add: ids_of_def do_store_eq split: prod.splits) (metis prod.collapse)

lemma do_update_job_faults: "faults (do_store (update_job j) d) \<le> faults d"
  using update_job_faults [of j "d_store d"] by (simp add: faults_def do_store_eq) (metis prod.collapse)

text \<open>The fields neither the end of a job nor an automatic retry touches.\<close>

definition same_pool :: "daemon \<Rightarrow> daemon \<Rightarrow> bool" where
  "same_pool d d' \<longleftrightarrow> d_runtimes d' = d_runtimes d \<and> d_settings d' = d_settings d \<and>
     d_try_running d' = d_try_running d \<and> d_try_again d' = d_try_again d \<and> d_now d' = d_now d \<and>
     d_tm d' = d_tm d \<and> d_seeders d' = d_seeders d \<and> d_limiter d' = d_limiter d \<and> d_bps d' = d_bps d \<and>
     d_files d' = d_files d \<and> d_web d' = d_web d"

lemma same_pool_refl [simp]: "same_pool d d"
  by (simp add: same_pool_def)

lemma same_pool_trans [trans]: "same_pool d e \<Longrightarrow> same_pool e f \<Longrightarrow> same_pool d f"
  by (simp add: same_pool_def)

lemma same_pool_store [simp]: "same_pool d (d\<lparr>d_store := s\<rparr>)" "same_pool d (do_store f d)"
  by (simp_all add: same_pool_def do_store_eq)

lemma schedule_frame:
  "same_pool d (schedule_auto_retry i t d) \<and> d_store (schedule_auto_retry i t d) = d_store d"
  by (auto simp: schedule_auto_retry_def same_pool_def go_panic_def Let_def split: option.splits)

lemma finish_job_frame:
  "same_pool d (finish_job i b c e d) \<and> ids_of (finish_job i b c e d) = ids_of d \<and>
   faults (finish_job i b c e d) \<le> faults d"
proof -
  obtain r d1 where g: "on_store (get_job i) d = (r, d1)" by (cases "on_store (get_job i) d")
  then obtain s where s: "get_job i (d_store d) = (r, s)" "d1 = d\<lparr>d_store := s\<rparr>"
    by (auto simp: on_store_eq)
  have d1: "same_pool d d1" "ids_of d1 = ids_of d" "faults d1 \<le> faults d"
    using s get_job_rows [OF s(1)] get_job_faults [OF s(1)] by (simp_all add: ids_of_def faults_def)
  show ?thesis
  proof (cases r)
    case (Inl x)
    with g d1 show ?thesis by (simp add: finish_job_def)
  next
    case (Inr job)
    define job1 where "job1 = (if j_type job = JobURL
      then job\<lparr>j_bytes_done := b, j_resume_offset := b\<rparr> else job\<lparr>j_bytes_done := b\<rparr>)"
    obtain job2 delay where fs: "finish_status (d_settings d) c e job1 = (job2, delay)"
      by (cases "finish_status (d_settings d) c e job1")
    let ?d2 = "do_store (update_job job2) d1"
    define d3 where "d3 = (if c \<and> s_notify (d_settings d)
        then ?d2\<lparr>d_notified := d_notified ?d2 @ [notify_body job2]\<rparr> else ?d2)"
    have fin: "finish_job i b c e d = (if 0 < delay then schedule_auto_retry i delay d3 else d3)"
      using g Inr fs s(2) by (simp add: finish_job_def Let_def job1_def d3_def do_store_eq split: if_splits)
    have d3: "same_pool d1 d3" "ids_of d3 = ids_of d1" "faults d3 \<le> faults d1"
      using do_update_job_ids [of job2 d1] do_update_job_faults [of job2 d1]
      by (auto simp: d3_def same_pool_def ids_of_def faults_def do_store_eq)
    show ?thesis
      unfolding fin using d1 d3 schedule_frame [of d3 i delay]
      by (auto simp: ids_of_def faults_def intro: same_pool_trans)
  qed
qed

lemmas finish_job_pool = finish_job_frame [THEN conjunct1]

lemma finish_job_simps [simp]:
  "d_runtimes (finish_job i b c e d) = d_runtimes d"
  "d_settings (finish_job i b c e d) = d_settings d"
  "d_try_running (finish_job i b c e d) = d_try_running d"
  "d_try_again (finish_job i b c e d) = d_try_again d"
  "d_now (finish_job i b c e d) = d_now d"
  "d_tm (finish_job i b c e d) = d_tm d"
  "d_seeders (finish_job i b c e d) = d_seeders d"
  "d_files (finish_job i b c e d) = d_files d"
  "d_web (finish_job i b c e d) = d_web d"
  "ids_of (finish_job i b c e d) = ids_of d"
  using finish_job_frame [of d i b c e] by (simp_all add: same_pool_def)


lemma finish_job_faults: "faults (finish_job i b c e d) \<le> faults d"
  using finish_job_frame by blast

text \<open>A nested start: the flag is raised only when the write of the status failed.\<close>

lemma log_print_simps [simp]:
  "d_runtimes (log_print l d) = d_runtimes d" "d_store (log_print l d) = d_store d"
  "d_settings (log_print l d) = d_settings d" "d_try_running (log_print l d) = d_try_running d"
  "d_try_again (log_print l d) = d_try_again d" "ids_of (log_print l d) = ids_of d"
  "d_seeders (log_print l d) = d_seeders d" "d_tm (log_print l d) = d_tm d"
  "d_files (log_print l d) = d_files d" "d_now (log_print l d) = d_now d" "d_web (log_print l d) = d_web d"
  by (simp_all add: log_print_def ids_of_def)

lemma runtime_simps [simp]:
  "d_store (set_runtime i rt d) = d_store d" "d_settings (set_runtime i rt d) = d_settings d"
  "d_try_running (set_runtime i rt d) = d_try_running d" "d_try_again (set_runtime i rt d) = d_try_again d"
  "d_store (drop_runtime i d) = d_store d" "d_settings (drop_runtime i d) = d_settings d"
  "d_try_running (drop_runtime i d) = d_try_running d" "d_try_again (drop_runtime i d) = d_try_again d"
  "ids_of (set_runtime i rt d) = ids_of d" "ids_of (drop_runtime i d) = ids_of d"
  "faults (set_runtime i rt d) = faults d" "faults (drop_runtime i d) = faults d"
  "d_tm (set_runtime i rt d) = d_tm d" "d_tm (drop_runtime i d) = d_tm d"
  "d_seeders (set_runtime i rt d) = d_seeders d" "d_seeders (drop_runtime i d) = d_seeders d"
  "d_files (set_runtime i rt d) = d_files d" "d_files (drop_runtime i d) = d_files d"
  "d_web (set_runtime i rt d) = d_web d" "d_web (drop_runtime i d) = d_web d"
  "d_now (set_runtime i rt d) = d_now d" "d_now (drop_runtime i d) = d_now d"
  by (simp_all add: set_runtime_def drop_runtime_def ids_of_def faults_def)

definition nested_frame :: "daemon \<Rightarrow> daemon \<Rightarrow> bool" where
  "nested_frame d d' \<longleftrightarrow> ids_of d' = ids_of d \<and> d_settings d' = d_settings d \<and>
     d_seeders d' = d_seeders d \<and> d_tm d' = d_tm d \<and> d_files d' = d_files d \<and> d_now d' = d_now d \<and> d_web d' = d_web d \<and>
     d_try_running d' = d_try_running d \<and> faults d' \<le> faults d \<and>
     (d_try_again d' \<longrightarrow> d_try_again d \<or> faults d' < faults d)"

lemma nested_frame_refl [simp]: "nested_frame d d"
  by (simp add: nested_frame_def)

lemma nested_frame_trans [trans]: "nested_frame d e \<Longrightarrow> nested_frame e f \<Longrightarrow> nested_frame d f"
  by (auto simp: nested_frame_def)

lemma mark_active_cases:
  assumes "mark_active clear j d = (ok, d')"
  obtains (marked) s where "ok" "update_status (j_id j) StatusActive [] (d_store d) = (Inr (), s)"
      "d' = d\<lparr>d_store := s\<rparr>"
  | (failed) e s where "\<not> ok" "update_status (j_id j) StatusActive [] (d_store d) = (Inl e, s)"
      "d' = finish_job (j_id j) (j_bytes_done j) False
         (Some (active_failed_error e)) (clear (j_id j) (log_print (active_failed_line (j_id j) e) (d\<lparr>d_store := s\<rparr>)))"
  using assms by (auto simp: mark_active_def on_store_def Let_def split: prod.splits sum.splits)

lemma nested_mark:
  assumes "mark_active clear_nested j d = (ok, d')"
  shows "nested_frame d d'"
  using assms
proof (cases rule: mark_active_cases)
  case (marked s)
  with update_status_row [OF marked(2)] update_status_faults(1) [OF marked(2)] show ?thesis
    by (simp add: nested_frame_def ids_of_def faults_def)
next
  case (failed e s)
  let ?d1 = "clear_nested (j_id j) (log_print (active_failed_line (j_id j) e) (d\<lparr>d_store := s\<rparr>))"
  have "ids_of ?d1 = ids_of d" "d_settings ?d1 = d_settings d" "d_try_running ?d1 = d_try_running d"
    "faults ?d1 < faults d" "d_seeders ?d1 = d_seeders d" "d_tm ?d1 = d_tm d" "d_files ?d1 = d_files d" "d_now ?d1 = d_now d" "d_web ?d1 = d_web d"
    using update_status_row [OF failed(2)] update_status_faults(2) [OF failed(2) refl]
    by (simp_all add: clear_nested_def drop_runtime_def log_print_def ids_of_def faults_def)
  then show ?thesis
    unfolding failed(3) nested_frame_def
    using finish_job_faults [of "j_id j" "j_bytes_done j" False "Some (active_failed_error e)" ?d1] by simp
qed

lemma acquire_cases:
  assumes "acquire_slot i d = (ok, d')"
  obtains (refused) "\<not> ok" "d' = d" "get_runtime i d \<noteq> None \<or> slots_full d"
  | (taken) "ok" "d' = set_runtime i placeholder d" "get_runtime i d = None" "\<not> slots_full d"
  using assms by (auto simp: acquire_slot_def split: if_splits)

lemma set_runtime_twice [simp]: "set_runtime i b (set_runtime i a d) = set_runtime i b d"
proof -
  have "AList.update i b (AList.update i a m) = AList.update i b m" for m :: "(string \<times> runtime) list"
    by (induction m) auto
  then show ?thesis by (simp add: set_runtime_def)
qed

lemma nested_frame_set [simp]: "nested_frame d (set_runtime i rt d)"
  by (simp add: nested_frame_def)

lemma nested_start:
  assumes "start_with clear_nested j d = (ok, d')"
  shows "nested_frame d d'"
proof (cases "acquire_slot (j_id j) d")
  case (Pair taken d1)
  then show ?thesis
  proof (cases rule: acquire_cases)
    case refused
    with assms Pair show ?thesis by (simp add: start_with_def)
  next
    case taken
    let ?d2 = "set_runtime (j_id j) (launch_runtime (d_now d1) j) d1"
    obtain b d3 where m: "mark_active clear_nested j ?d2 = (b, d3)" by (cases "mark_active clear_nested j ?d2")
    with assms Pair taken have "d' = d3" by (simp add: start_with_def launch_def)
    moreover have "nested_frame d ?d2" using taken(2) by (simp del: set_runtime_twice add: nested_frame_def)
    ultimately show ?thesis using nested_mark [OF m] nested_frame_trans by blast
  qed
qed

lemma next_queued_cases:
  assumes "next_queued_job skip d = (r, d')"
  obtains (failed) e s where "r = Inl e" "d' = d\<lparr>d_store := s\<rparr>" "st_rows s = st_rows (d_store d)"
      "length (st_faults s) \<le> faults d"
  | (found) jobs s where "r = Inr (List.find (\<lambda>j. j_id j \<notin> set skip \<and> get_runtime (j_id j) d = None) jobs)"
      "list_queued_jobs (d_store d) = (Inr jobs, s)" "d' = d\<lparr>d_store := s\<rparr>" "st_rows s = st_rows (d_store d)"
      "length (st_faults s) \<le> faults d"
proof (cases "list_queued_jobs (d_store d)")
  case (Pair q s)
  note frame = list_queued_rows [OF Pair] list_queued_faults [OF Pair, folded faults_def]
  from Pair assms frame show ?thesis
    by (cases q) (auto simp: next_queued_job_def on_store_def get_runtime_def intro: failed found)
qed

lemma nested_next: "next_queued_job skip d = (r, d') \<Longrightarrow> nested_frame d d'"
  by (erule next_queued_cases) (simp_all add: nested_frame_def ids_of_def faults_def)

lemma next_queued_id:
  assumes "next_queued_job skip d = (Inr (Some j), d')"
  shows "j_id j \<in> set (ids_of d) - set skip \<and> get_runtime (j_id j) d = None \<and>
    j \<in> set (st_rows (d_store d)) \<and> j_status j = StatusQueued"
  using assms
proof (cases rule: next_queued_cases)
  case (found jobs s)
  then have "j \<in> set jobs \<and> j_id j \<notin> set skip \<and> get_runtime (j_id j) d = None"
    using find_Some_mem [of _ jobs j] by auto
  with list_queued_mem [OF found(2)] show ?thesis by (auto simp: ids_of_def)
qed simp

section \<open>Starting what is queued\<close>

text \<open>The loop of one \<^verbatim>\<open>tryStartQueued\<close>. It ends because each round puts one more of the
  table's ids into \<open>attempted\<close>.\<close>

function try_pass :: "string list \<Rightarrow> daemon \<Rightarrow> daemon" where
  "try_pass attempted d =
     (if slots_full d then d
      else case next_queued_job attempted d of
             (Inl _, d) \<Rightarrow> d
           | (Inr None, d) \<Rightarrow> d
           | (Inr (Some j), d) \<Rightarrow>
               (case start_with clear_nested j d of
                  (False, d) \<Rightarrow> d
                | (True, d) \<Rightarrow> try_pass (j_id j # attempted) d))"
  by pat_completeness auto
termination
proof (relation "measure (\<lambda>(attempted, d). card (set (ids_of d) - set attempted))", goal_cases)
  case 1
  show ?case by simp
next
  case (2 attempted d r d1 oj j ok d2)
  then have n: "next_queued_job attempted d = (Inr (Some j), d1)" and s: "start_with clear_nested j d1 = (True, d2)"
    by auto
  have ids: "ids_of d2 = ids_of d"
    using nested_next [OF n] nested_start [OF s] by (simp add: nested_frame_def)
  have "card (set (ids_of d) - set (j_id j # attempted)) < card (set (ids_of d) - set attempted)"
    using next_queued_id [OF n] by (intro psubset_card_mono) auto
  with ids show ?case by simp
qed

declare try_pass.simps [simp del]

lemma nested_pass: "nested_frame d (try_pass attempted d)"
proof (induction attempted d rule: try_pass.induct)
  case (1 attempted d)
  show ?case
  proof (cases "slots_full d")
    case True
    then show ?thesis by (simp add: try_pass.simps [of attempted d])
  next
    case False
    obtain r d1 where n: "next_queued_job attempted d = (r, d1)" by (cases "next_queued_job attempted d")
    note f1 = nested_next [OF n]
    show ?thesis
    proof (cases "\<exists>j. r = Inr (Some j)")
      case True
      then obtain j where j: "r = Inr (Some j)" ..
      obtain ok d2 where s: "start_with clear_nested j d1 = (ok, d2)" by (cases "start_with clear_nested j d1")
      note f2 = nested_frame_trans [OF f1 nested_start [OF s]]
      show ?thesis
      proof (cases ok)
        case True
        have "nested_frame d2 (try_pass (j_id j # attempted) d2)"
          using "1.IH" [OF False n [symmetric] j refl s [symmetric]] True by simp
        with f2 True show ?thesis
          by (simp add: try_pass.simps [of attempted d] False n j s nested_frame_trans)
      next
        case False
        with f2 \<open>\<not> slots_full d\<close> show ?thesis by (simp add: try_pass.simps [of attempted d] n j s)
      qed
    next
      case no_job: False
      with f1 False n show ?thesis
        by (auto simp: try_pass.simps [of attempted d] split: sum.splits option.splits)
    qed
  qed
qed

text \<open>\<^verbatim>\<open>tryStartQueued\<close>: the loop, and another round whenever a nested call asked for one. A
  round is asked for only by a start whose status write failed, which took a fault off.\<close>

function try_start_queued :: "daemon \<Rightarrow> daemon" where
  "try_start_queued d =
     (if d_try_running d then d\<lparr>d_try_again := True\<rparr>
      else let d1 = try_pass [] (d\<lparr>d_try_running := True\<rparr>);
               d2 = d1\<lparr>d_try_running := False, d_try_again := False\<rparr>
           in if d_try_again d1 then try_start_queued d2 else d2)"
  by pat_completeness auto
termination
proof (relation "measure (\<lambda>d. 2 * faults d + (if d_try_again d then 1 else 0))", goal_cases)
  case 1
  show ?case by simp
next
  case (2 d d1 d2)
  have "nested_frame (d\<lparr>d_try_running := True\<rparr>) d1"
    using nested_pass 2(2) by simp
  with 2 show ?case by (auto simp: nested_frame_def faults_def)
qed

declare try_start_queued.simps [simp del]

lemma try_frame:
  "ids_of (try_start_queued d) = ids_of d \<and> d_settings (try_start_queued d) = d_settings d \<and>
   d_seeders (try_start_queued d) = d_seeders d \<and> d_tm (try_start_queued d) = d_tm d \<and>
   d_files (try_start_queued d) = d_files d \<and> d_now (try_start_queued d) = d_now d \<and>
   d_web (try_start_queued d) = d_web d \<and>
   faults (try_start_queued d) \<le> faults d"
proof (induction d rule: try_start_queued.induct)
  case (1 d)
  let ?d1 = "try_pass [] (d\<lparr>d_try_running := True\<rparr>)"
  have f: "nested_frame (d\<lparr>d_try_running := True\<rparr>) ?d1" by (rule nested_pass)
  show ?case
  proof (cases "d_try_running d")
    case True
    then show ?thesis by (simp add: try_start_queued.simps [of d] ids_of_def faults_def)
  next
    case False
    with "1.IH" [OF False refl refl] f show ?thesis
      by (auto simp: try_start_queued.simps [of d] Let_def nested_frame_def ids_of_def faults_def)
  qed
qed

definition clear_runtime :: "string \<Rightarrow> daemon \<Rightarrow> daemon" where
  "clear_runtime i d = try_start_queued (drop_runtime i d)"

definition start :: "job \<Rightarrow> daemon \<Rightarrow> bool \<times> daemon" where
  "start = start_with clear_runtime"


section \<open>The end of a worker\<close>

text \<open>How a worker's goroutine ends: having reported its outcome through \<^verbatim>\<open>finishJob\<close>, or
  returned without a report (a torrent whose context was canceled), or by a panic that the
  deferred function turns into a failure. Whatever it was, the slot is given back.\<close>

datatype worker_exit = Finished int bool "gerror option" | Returned | Panicked int string

definition worker_outcome :: "string \<Rightarrow> worker_exit \<Rightarrow> daemon \<Rightarrow> daemon" where
  "worker_outcome i ex d =
     (case ex of
        Finished bytes completed err \<Rightarrow> finish_job i bytes completed err d
      | Returned \<Rightarrow> d
      | Panicked bytes msg \<Rightarrow>
          finish_job i bytes False (Some (ErrMsg (''internal error: '' @ msg)))
            (log_print (''recovered from panic running job '' @ i @ '': '' @ msg) d))"

definition worker_end :: "string \<Rightarrow> worker_exit \<Rightarrow> daemon \<Rightarrow> daemon" where
  "worker_end i ex d = clear_runtime i (worker_outcome i ex d)"

section \<open>The slots as a pool\<close>

definition slot_cap :: "daemon \<Rightarrow> int" where
  "slot_cap d = s_max_concurrent (d_settings d)"

definition held_slots :: "daemon \<Rightarrow> string set" where
  "held_slots d = keys_of (d_runtimes d)"

definition runtimes_ok :: "daemon \<Rightarrow> bool" where
  "runtimes_ok d \<longleftrightarrow> wf_map (d_runtimes d)"

lemma get_runtime_held: "get_runtime i d \<noteq> None \<longleftrightarrow> i \<in> held_slots d"
  by (simp add: get_runtime_def held_slots_def keys_of_map_of)

lemma slots_full_card: "runtimes_ok d \<Longrightarrow>
    slots_full d \<longleftrightarrow> 0 < slot_cap d \<and> slot_cap d \<le> int (card (held_slots d))"
  by (simp add: slots_full_def slot_cap_def held_slots_def runtimes_ok_def card_keys)

interpretation pool: slot_pool runtimes_ok held_slots slot_cap acquire_slot drop_runtime
proof unfold_locales
  fix d :: daemon and i :: string and d'
  assume ok: "runtimes_ok d"
  show "finite (held_slots d)" by (simp add: held_slots_def keys_of_def)
  show "runtimes_ok d' \<and> i \<notin> held_slots d \<and> held_slots d' = insert i (held_slots d) \<and> slot_cap d' = slot_cap d \<and>
      (0 < slot_cap d \<longrightarrow> int (card (held_slots d)) < slot_cap d)" if "acquire_slot i d = (True, d')"
    using that
  proof (cases rule: acquire_cases)
    case taken
    then show ?thesis
      using ok slots_full_card [OF ok] get_runtime_held [of i d]
      by (auto simp: runtimes_ok_def held_slots_def slot_cap_def set_runtime_def)
  qed simp
  show "d' = d \<and> (i \<in> held_slots d \<or> 0 < slot_cap d \<and> slot_cap d \<le> int (card (held_slots d)))"
    if "acquire_slot i d = (False, d')"
    using that
  proof (cases rule: acquire_cases)
    case refused
    then show ?thesis using slots_full_card [OF ok] get_runtime_held [of i d] by auto
  qed simp
  show "runtimes_ok (drop_runtime i d) \<and> held_slots (drop_runtime i d) = held_slots d - {i} \<and>
      slot_cap (drop_runtime i d) = slot_cap d"
    using ok by (simp add: runtimes_ok_def held_slots_def slot_cap_def drop_runtime_def)
qed

end
