(* ===== verification/QueueProps.thy ===== *)
theory QueueProps
  imports Queue
begin

text \<open>
  What the queue guarantees. For any store: the number of slots held stays within the cap, or,
  where the cap was lowered below it, does not grow. For a store whose statements succeed: a
  job's row says active exactly while the job holds a slot (\<open>synced\<close>), and a job waits in the
  queue only while every slot is taken (\<open>settled\<close>).
\<close>

section \<open>The cap\<close>

text \<open>A web interface open to other devices has a username and a password.\<close>

definition web_key_safe :: "web_key \<Rightarrow> bool" where
  "web_key_safe k \<longleftrightarrow> 1 \<le> wk_port k \<and> wk_port k \<le> 65535 \<and> (wk_network k \<longrightarrow> wk_username k \<noteq> [] \<and> wk_password k \<noteq> [])"

definition web_safe :: "daemon \<Rightarrow> bool" where
  "web_safe d \<longleftrightarrow> (case d_web d of None \<Rightarrow> True | Some k \<Rightarrow> web_key_safe k)"

text \<open>What every operation keeps on any store: the bound on the slots, and a safe web interface.\<close>

definition guarded :: "int \<Rightarrow> daemon \<Rightarrow> bool" where
  "guarded n d \<longleftrightarrow> pool.bounded n d \<and> web_safe d"

lemma bounded_cong:
  "d_runtimes d' = d_runtimes d \<Longrightarrow> d_settings d' = d_settings d \<Longrightarrow> d_web d' = d_web d \<Longrightarrow> guarded n d' = guarded n d"
  by (simp add: guarded_def web_safe_def pool.bounded_def runtimes_ok_def held_slots_def slot_cap_def)

lemma bounded_store [simp]: "guarded n (d\<lparr>d_store := s\<rparr>) = guarded n d"
  by (rule bounded_cong) simp_all

lemma bounded_finish [simp]: "guarded n (finish_job i b c e d) = guarded n d"
  by (rule bounded_cong) simp_all

lemma bounded_log [simp]: "guarded n (log_print l d) = guarded n d"
  by (rule bounded_cong) simp_all

lemma bounded_flags [simp]:
  "guarded n (d\<lparr>d_try_running := b\<rparr>) = guarded n d"
  "guarded n (d\<lparr>d_try_again := b\<rparr>) = guarded n d"
  by (rule bounded_cong; simp)+

lemma bounded_drop [go_inv]: "guarded n d \<Longrightarrow> guarded n (drop_runtime i d)"
  by (simp add: guarded_def web_safe_def pool.release_bounded)

lemma bounded_replace:
  "guarded n (set_runtime i rt d) \<Longrightarrow> guarded n (set_runtime i rt' d)"
proof -
  have "wf_map (AList.update i rt (d_runtimes d)) = wf_map (AList.update i rt' (d_runtimes d))"
    by (simp add: wf_map_def update_keys)
  then show "guarded n (set_runtime i rt d) \<Longrightarrow> guarded n (set_runtime i rt' d)"
    by (simp add: guarded_def web_safe_def pool.bounded_def runtimes_ok_def held_slots_def slot_cap_def set_runtime_def)
qed

lemma bounded_mark:
  assumes "mark_active clear j d = (ok, d')" and "guarded n d"
    and "\<And>i d. guarded n d \<Longrightarrow> guarded n (clear i d)"
  shows "guarded n d'"
  using assms by (cases rule: mark_active_cases) simp_all

lemma bounded_start_with:
  assumes "start_with clear j d = (ok, d')" and "guarded n d"
    and "\<And>i d. guarded n d \<Longrightarrow> guarded n (clear i d)"
  shows "guarded n d'"
proof (cases "acquire_slot (j_id j) d")
  case (Pair taken d1)
  have b1: "guarded n d1"
  proof -
    have "pool.bounded n d1" using pool.acquire_bounded [OF _ Pair, of n] assms(2) by (simp add: guarded_def)
    moreover from Pair have "d_web d1 = d_web d" by (cases rule: acquire_cases) simp_all
    ultimately show ?thesis using assms(2) by (simp add: guarded_def web_safe_def)
  qed
  from Pair show ?thesis
  proof (cases rule: acquire_cases)
    case refused
    with assms Pair show ?thesis by (simp add: start_with_def)
  next
    case taken
    let ?d2 = "set_runtime (j_id j) (launch_runtime (d_now d1) j) d1"
    obtain b d3 where m: "mark_active clear j ?d2 = (b, d3)" by (cases "mark_active clear j ?d2")
    with assms(1) Pair taken have "d' = d3" by (simp add: start_with_def launch_def)
    moreover have "guarded n ?d2" using b1 taken(2) bounded_replace by auto
    ultimately show ?thesis using bounded_mark [OF m _ assms(3)] by simp
  qed
qed

lemma bounded_nested: "guarded n d \<Longrightarrow> guarded n (clear_nested i d)"
  by (simp add: clear_nested_def bounded_drop)

lemma bounded_pass [go_inv]: "guarded n d \<Longrightarrow> guarded n (try_pass attempted d)"
proof (induction attempted d rule: try_pass.induct)
  case (1 attempted d)
  obtain r d1 where n: "next_queued_job attempted d = (r, d1)" by (cases "next_queued_job attempted d")
  then have b1: "guarded n d1" using "1.prems" by (cases rule: next_queued_cases) simp_all
  show ?case
  proof (cases "slots_full d \<or> (\<nexists>j. r = Inr (Some j))")
    case True
    with n b1 "1.prems" show ?thesis
      by (auto simp: try_pass.simps [of attempted d] split: sum.splits option.splits)
  next
    case False
    then obtain j where j: "r = Inr (Some j)" and nf: "\<not> slots_full d" by blast
    obtain ok d2 where s: "start_with clear_nested j d1 = (ok, d2)" by (cases "start_with clear_nested j d1")
    note b2 = bounded_start_with [OF s b1 bounded_nested]
    show ?thesis
      using "1.IH" [OF nf n [symmetric] j refl s [symmetric]] b2 nf n j s
      by (cases ok) (simp_all add: try_pass.simps [of attempted d])
  qed
qed

lemma bounded_try [go_inv]: "guarded n d \<Longrightarrow> guarded n (try_start_queued d)"
proof (induction d rule: try_start_queued.induct)
  case (1 d)
  let ?d1 = "try_pass [] (d\<lparr>d_try_running := True\<rparr>)"
  have b1: "guarded n ?d1" using "1.prems" bounded_pass by simp
  show ?case
  proof (cases "d_try_running d")
    case True
    with "1.prems" show ?thesis by (simp add: try_start_queued.simps [of d])
  next
    case False
    then show ?thesis
      using "1.IH" [OF False refl refl] b1 by (simp add: try_start_queued.simps [of d] Let_def)
  qed
qed

lemma bounded_clear [go_inv]: "guarded n d \<Longrightarrow> guarded n (clear_runtime i d)"
  by (simp add: clear_runtime_def bounded_try bounded_drop)

lemma bounded_start [go_inv]: "guarded n d \<Longrightarrow> guarded n (snd (start j d))"
  by (cases "start j d") (auto simp: start_def intro: bounded_start_with bounded_clear)

lemma bounded_outcome [simp]: "guarded n (worker_outcome i ex d) = guarded n d"
  by (simp add: worker_outcome_def split: worker_exit.splits)

lemma bounded_worker_end [go_inv]: "guarded n d \<Longrightarrow> guarded n (worker_end i ex d)"
  by (simp add: worker_end_def bounded_clear)

section \<open>A table whose statements succeed\<close>

abbreviation jobs_of :: "daemon \<Rightarrow> job list" where
  "jobs_of d \<equiv> st_rows (d_store d)"

text \<open>Rows and slots agree, every slot held is a started job's, and a seeder belongs to a job whose row says seeding.
  The jobs of \<open>X\<close> are exempt: they hold no slot, and their rows are not queued, but may still
  say active (between the return of a canceled torrent's worker and the write of its status).\<close>

definition synced_but :: "string set \<Rightarrow> daemon \<Rightarrow> bool" where
  "synced_but X d \<longleftrightarrow> st_faults (d_store d) = [] \<and> unique_ids (jobs_of d) \<and> wf_map (d_runtimes d) \<and>
     (\<forall>j\<in>set (jobs_of d). marshal_ok (j_options j)) \<and>
     (\<forall>i. i \<notin> X \<longrightarrow> (get_runtime i d \<noteq> None \<longleftrightarrow> (\<exists>j. row_of (jobs_of d) i = Some j \<and> j_status j = StatusActive))) \<and>
     (\<forall>i\<in>X. get_runtime i d = None \<and> (\<forall>j. row_of (jobs_of d) i = Some j \<longrightarrow> j_status j \<noteq> StatusQueued)) \<and>
     (\<forall>i. seeder_of i d \<noteq> None \<longrightarrow> (\<exists>j. row_of (jobs_of d) i = Some j \<and> j_status j = StatusSeeding)) \<and>
     (\<forall>i rt. get_runtime i d = Some rt \<longrightarrow> rt_cancel rt)"

abbreviation synced :: "daemon \<Rightarrow> bool" where
  "synced \<equiv> synced_but {}"

definition waiting_only_when_full :: "daemon \<Rightarrow> bool" where
  "waiting_only_when_full d \<longleftrightarrow> ((\<exists>j\<in>set (jobs_of d). j_status j = StatusQueued) \<longrightarrow> slots_full d)"

definition settled_but :: "string set \<Rightarrow> daemon \<Rightarrow> bool" where
  "settled_but X d \<longleftrightarrow> synced_but X d \<and> \<not> d_try_running d \<and> \<not> d_try_again d \<and> waiting_only_when_full d"

abbreviation settled :: "daemon \<Rightarrow> bool" where
  "settled \<equiv> settled_but {}"

text \<open>The row a successful start leaves, and the state.\<close>

definition activated :: "int \<Rightarrow> job \<Rightarrow> job" where
  "activated now r = r\<lparr>j_status := StatusActive, j_error := [], j_updated := now\<rparr>"

definition started :: "job \<Rightarrow> daemon \<Rightarrow> daemon" where
  "started j d =
     (set_runtime (j_id j) (launch_runtime (d_now d) j) d)\<lparr>d_store := (d_store d)\<lparr>st_rows :=
        modify_rows (j_id j) (activated (st_now (d_store d))) (jobs_of d)\<rparr>\<rparr>"

lemma activated_simps [simp]: "j_id (activated now r) = j_id r" "j_status (activated now r) = StatusActive"
  "j_options (activated now r) = j_options r"
  by (simp_all add: activated_def)

lemma activated_fun: "activated now = (\<lambda>r. r\<lparr>j_status := StatusActive, j_error := [], j_updated := now\<rparr>)"
  by (rule ext) (simp add: activated_def)

lemma d_now_set [simp]: "d_now (set_runtime i rt d) = d_now d"
  by (simp add: set_runtime_def)

lemma start_free:
  assumes "st_faults (d_store d) = []" and "get_runtime (j_id j) d = None" and "\<not> slots_full d"
  shows "start_with clear j d = (True, started j d)"
proof -
  have "update_status (j_id j) StatusActive [] (d_store d) = (Inr (), (d_store d)\<lparr>st_rows :=
      modify_rows (j_id j) (activated (st_now (d_store d))) (jobs_of d)\<rparr>)"
    using assms(1) by (simp add: update_status_def exec_no_faults activated_fun)
  with assms(2,3) show ?thesis
    by (simp add: start_with_def acquire_slot_def launch_def mark_active_def on_store_def started_def)
qed

lemma start_refused:
  "get_runtime (j_id j) d \<noteq> None \<or> slots_full d \<Longrightarrow> start_with clear j d = (False, d)"
  by (auto simp: start_with_def acquire_slot_def)

lemma row_of_started: "row_of (jobs_of (started j d)) i =
    (if i = j_id j then map_option (activated (st_now (d_store d))) (row_of (jobs_of d) i) else row_of (jobs_of d) i)"
  by (simp add: started_def row_of_modify)

lemma get_runtime_started [simp]:
  "get_runtime i (started j d) = (if i = j_id j then Some (launch_runtime (d_now d) j) else get_runtime i d)"
  by (simp add: started_def get_runtime_def set_runtime_def)

lemma started_simps [simp]:
  "d_settings (started j d) = d_settings d" "d_try_running (started j d) = d_try_running d"
  "d_try_again (started j d) = d_try_again d" "st_faults (d_store (started j d)) = st_faults (d_store d)"
  "ids_of (started j d) = ids_of d"
  by (simp_all add: started_def ids_of_def map_id_modify)

lemma seeder_started [simp]: "seeder_of i (started j d) = seeder_of i d"
  by (simp add: started_def seeder_of_def set_runtime_def)

lemma synced_started:
  assumes "synced_but X d" and "row_of (jobs_of d) (j_id j) = Some r" and "j_id j \<notin> X" and "j_status r = StatusQueued"
  shows "synced_but X (started j d)"
  unfolding synced_but_def
proof (intro conjI)
  show "st_faults (d_store (started j d)) = []" using assms by (simp add: synced_but_def)
  show "unique_ids (jobs_of (started j d))" using assms by (simp add: started_def unique_ids_modify synced_but_def)
  show "wf_map (d_runtimes (started j d))" using assms by (simp add: started_def set_runtime_def synced_but_def)
  show "\<forall>j'\<in>set (jobs_of (started j d)). marshal_ok (j_options j')"
    using assms(1) by (auto simp: started_def modify_rows_def synced_but_def)
  show "\<forall>i. i \<notin> X \<longrightarrow> (get_runtime i (started j d) \<noteq> None) =
      (\<exists>j'. row_of (jobs_of (started j d)) i = Some j' \<and> j_status j' = StatusActive)"
    using assms by (auto simp: row_of_started synced_but_def)
  show "\<forall>i\<in>X. get_runtime i (started j d) = None \<and>
      (\<forall>j'. row_of (jobs_of (started j d)) i = Some j' \<longrightarrow> j_status j' \<noteq> StatusQueued)"
    using assms by (auto simp: row_of_started synced_but_def)
  show "\<forall>i. seeder_of i (started j d) \<noteq> None \<longrightarrow>
      (\<exists>j'. row_of (jobs_of (started j d)) i = Some j' \<and> j_status j' = StatusSeeding)"
    using assms unfolding synced_but_def seeder_started row_of_started by fastforce
  show "\<forall>i rt. get_runtime i (started j d) = Some rt \<longrightarrow> rt_cancel rt"
    using assms(1) by (auto simp: synced_but_def launch_runtime_def)
qed

lemma running_row:
  "synced_but X d \<Longrightarrow> get_runtime i d \<noteq> None \<Longrightarrow> i \<notin> X \<and> (\<exists>r. row_of (jobs_of d) i = Some r \<and> j_status r = StatusActive)"
  unfolding synced_but_def by metis

lemma active_running:
  "synced_but X d \<Longrightarrow> row_of (jobs_of d) i = Some r \<Longrightarrow> j_status r = StatusActive \<Longrightarrow> i \<notin> X \<Longrightarrow> get_runtime i d \<noteq> None"
  unfolding synced_but_def by blast

lemma queued_not_exempt:
  "synced_but X d \<Longrightarrow> row_of (jobs_of d) i = Some r \<Longrightarrow> j_status r = StatusQueued \<Longrightarrow> i \<notin> X"
  unfolding synced_but_def by blast

lemma synced_row: "synced_but X d \<Longrightarrow> j \<in> set (jobs_of d) \<Longrightarrow> row_of (jobs_of d) (j_id j) = Some j"
  by (simp add: synced_but_def row_of_unique)

lemma synced_nofaults: "synced_but X d \<Longrightarrow> st_faults (d_store d) = []"
  by (simp add: synced_but_def)

text \<open>A pass over the queue ends with every slot taken or nothing left to start.\<close>

lemma pass_settles:
  assumes "synced_but X d" and "\<forall>i\<in>set attempted. get_runtime i d \<noteq> None"
  shows "synced_but X (try_pass attempted d) \<and> waiting_only_when_full (try_pass attempted d) \<and>
    d_try_again (try_pass attempted d) = d_try_again d"
  using assms
proof (induction attempted d rule: try_pass.induct)
  case (1 attempted d)
  note nofault = synced_nofaults [OF "1.prems"(1)]
  define waiting where "waiting = (\<lambda>j :: job. j_id j \<notin> set attempted \<and> get_runtime (j_id j) d = None)"
  define queue where "queue = sort_key j_created (filter (\<lambda>j. j_status j = StatusQueued) (jobs_of d))"
  have n: "next_queued_job attempted d = (Inr (List.find waiting queue), d)"
    using nofault by (simp add: next_queued_job_def on_store_def list_queued_jobs_def exec_no_faults queue_def waiting_def)
  show ?case
  proof (cases "slots_full d")
    case True
    with "1.prems" show ?thesis
      by (simp add: try_pass.simps [of attempted d] waiting_only_when_full_def)
  next
    case nf: False
    show ?thesis
    proof (cases "List.find waiting queue")
      case None
      have "j_status j \<noteq> StatusQueued" if j: "j \<in> set (jobs_of d)" for j
      proof
        assume q: "j_status j = StatusQueued"
        with j have "j \<in> set queue" by (simp add: queue_def)
        with None have "\<not> waiting j" by (simp add: find_None_all)
        then have "get_runtime (j_id j) d \<noteq> None" using "1.prems"(2) by (auto simp: waiting_def)
        from running_row [OF "1.prems"(1) this] synced_row [OF "1.prems"(1) j] q show False by auto
      qed
      with None nf n "1.prems" show ?thesis
        by (simp add: try_pass.simps [of attempted d] waiting_only_when_full_def)
    next
      case (Some j)
      then have j: "j \<in> set (jobs_of d)" "get_runtime (j_id j) d = None" "j_status j = StatusQueued"
        using find_Some_mem [OF Some] by (auto simp: queue_def waiting_def)
      note row = synced_row [OF "1.prems"(1) j(1)]
      have s: "start_with clear_nested j d = (True, started j d)"
        using start_free [OF nofault j(2) nf] .
      have "synced_but X (started j d)"
        using synced_started [OF "1.prems"(1) row queued_not_exempt [OF "1.prems"(1) row j(3)] j(3)] .
      moreover have "\<forall>i\<in>set (j_id j # attempted). get_runtime i (started j d) \<noteq> None"
        using "1.prems"(2) by simp
      ultimately show ?thesis
        using "1.IH" [OF nf n [symmetric] _ _ s [symmetric]] Some nf n s
        by (simp add: try_pass.simps [of attempted d])
    qed
  qed
qed

lemma synced_flags [simp]:
  "synced_but X (d\<lparr>d_try_running := b\<rparr>) = synced_but X d" "synced_but X (d\<lparr>d_try_again := b\<rparr>) = synced_but X d"
  by (simp_all add: synced_but_def get_runtime_def seeder_of_def)

lemma waiting_flags [simp]:
  "waiting_only_when_full (d\<lparr>d_try_running := b\<rparr>) = waiting_only_when_full d"
  "waiting_only_when_full (d\<lparr>d_try_again := b\<rparr>) = waiting_only_when_full d"
  by (simp_all add: waiting_only_when_full_def slots_full_def)

lemma try_settles:
  assumes "synced_but X d" and "\<not> d_try_running d" and "\<not> d_try_again d"
  shows "settled_but X (try_start_queued d)"
proof -
  let ?d1 = "try_pass [] (d\<lparr>d_try_running := True\<rparr>)"
  from assms have p: "synced_but X ?d1" "waiting_only_when_full ?d1" "\<not> d_try_again ?d1"
    using pass_settles [of X "d\<lparr>d_try_running := True\<rparr>" "[]"] by simp_all
  with assms show ?thesis
    by (simp add: try_start_queued.simps [of d] settled_but_def)
qed

text \<open>What a worker reports takes its job out of \<^verbatim>\<open>active\<close>; with the slot given back the table
  and the slots agree again.\<close>

lemma finish_status_id [simp]:
  "finish_status cfg c e j = (j', t) \<Longrightarrow> j_id j' = j_id j \<and> j_options j' = j_options j \<and>
    j_status j' \<noteq> StatusActive \<and> j_status j' \<noteq> StatusQueued"
  by (auto simp: finish_status_def Let_def split: if_splits option.splits)

lemma finish_job_free:
  assumes "st_faults (d_store d) = []" and "row_of (jobs_of d) i = Some r" and "marshal_ok (j_options r)"
  obtains j' where "d_store (finish_job i b c e d) = (d_store d)\<lparr>st_rows := modify_rows i (row_written (d_store d) j') (jobs_of d)\<rparr>"
    "j_id j' = i" "j_options j' = j_options r" "j_status j' \<noteq> StatusActive" "j_status j' \<noteq> StatusQueued"
proof -
  define job1 where "job1 = (if j_type r = JobURL
      then r\<lparr>j_bytes_done := b, j_resume_offset := b\<rparr> else r\<lparr>j_bytes_done := b\<rparr>)"
  obtain j' delay where fs: "finish_status (d_settings d) c e job1 = (j', delay)"
    by (cases "finish_status (d_settings d) c e job1")
  have id: "j_id j' = i" "j_options j' = j_options r" "j_status j' \<noteq> StatusActive" "j_status j' \<noteq> StatusQueued"
    using finish_status_id [OF fs] row_of_mem [OF assms(2)] by (auto simp: job1_def)
  have g: "on_store (get_job i) d = (Inr r, d)"
    using assms(1,2) by (simp add: on_store_def get_job_total)
  have u: "update_job j' (d_store d) = (Inr (), (d_store d)\<lparr>st_rows := modify_rows i (row_written (d_store d) j') (jobs_of d)\<rparr>)"
    using assms(1,3) id by (simp add: update_job_def exec_no_faults row_written_fun)
  have "d_store (finish_job i b c e d) = snd (update_job j' (d_store d))"
    using g fs schedule_frame by (simp add: finish_job_def Let_def job1_def do_store_eq split: if_splits)
  with u id that show thesis by simp
qed


lemma settled_synced: "settled_but X d \<Longrightarrow> synced_but X d"
  by (simp add: settled_but_def)

text \<open>Rewriting the row of a job that holds no slot afterwards.\<close>

lemma synced_rewrite:
  assumes "synced_but X d" and "X \<subseteq> {i}" and "st_faults (d_store d') = []"
    and "wf_map (d_runtimes d')" and "get_runtime i d' = None"
    and same: "\<And>k. k \<noteq> i \<Longrightarrow> get_runtime k d' = get_runtime k d"
    and rows: "jobs_of d' = modify_rows i f (jobs_of d)" "\<And>r. j_id (f r) = j_id r"
    and row: "\<And>r. row_of (jobs_of d) i = Some r \<Longrightarrow> j_status (f r) \<noteq> StatusActive \<and> marshal_ok (j_options (f r))"
    and seed: "\<And>r. row_of (jobs_of d) i = Some r \<Longrightarrow> seeder_of i d' = None \<or> j_status (f r) = StatusSeeding"
    and norow: "row_of (jobs_of d) i = None \<Longrightarrow> seeder_of i d' = None"
    and seeds: "\<And>k. k \<noteq> i \<Longrightarrow> seeder_of k d' = seeder_of k d"
  shows "synced d'"
  unfolding synced_but_def
proof (intro conjI)
  show "st_faults (d_store d') = []" "wf_map (d_runtimes d')" by fact+
  show "unique_ids (jobs_of d')"
    using assms(1) rows by (simp add: synced_but_def unique_ids_modify)
  show "\<forall>j\<in>set (jobs_of d'). marshal_ok (j_options j)"
  proof
    fix j assume "j \<in> set (jobs_of d')"
    then obtain r where r: "r \<in> set (jobs_of d)" "j = (if j_id r = i then f r else r)"
      by (auto simp: rows modify_rows_def)
    with row synced_row [OF assms(1) r(1)] assms(1) show "marshal_ok (j_options j)" by (auto simp: synced_but_def)
  qed
  have at: "row_of (jobs_of d') k = (if k = i then map_option f (row_of (jobs_of d) i) else row_of (jobs_of d) k)" for k
    using rows by (simp add: row_of_modify)
  show "\<forall>k. k \<notin> {} \<longrightarrow> (get_runtime k d' \<noteq> None) = (\<exists>j. row_of (jobs_of d') k = Some j \<and> j_status j = StatusActive)"
  proof (intro allI impI)
    fix k
    show "(get_runtime k d' \<noteq> None) = (\<exists>j. row_of (jobs_of d') k = Some j \<and> j_status j = StatusActive)"
    proof (cases "k = i")
      case True
      with at row assms(5) show ?thesis by auto
    next
      case False
      with assms(2) have "k \<notin> X" by auto
      with False at same assms(1) show ?thesis by (simp add: synced_but_def)
    qed
  qed
  show "\<forall>k. seeder_of k d' \<noteq> None \<longrightarrow> (\<exists>j. row_of (jobs_of d') k = Some j \<and> j_status j = StatusSeeding)"
  proof (intro allI impI)
    fix k
    assume k: "seeder_of k d' \<noteq> None"
    show "\<exists>j. row_of (jobs_of d') k = Some j \<and> j_status j = StatusSeeding"
    proof (cases "k = i")
      case True
      with k norow obtain r where "row_of (jobs_of d) i = Some r" by (cases "row_of (jobs_of d) i") auto
      with True k at seed [of r] show ?thesis by auto
    next
      case False
      with k have "seeder_of k d \<noteq> None" by (simp add: seeds)
      with False at assms(1) show ?thesis unfolding synced_but_def by auto
    qed
  qed
  show "\<forall>k rt. get_runtime k d' = Some rt \<longrightarrow> rt_cancel rt"
  proof (intro allI impI)
    fix k rt
    assume k: "get_runtime k d' = Some rt"
    with assms(5) have "k \<noteq> i" by auto
    with k same have "get_runtime k d = Some rt" by simp
    then show "rt_cancel rt" using assms(1) unfolding synced_but_def by blast
  qed
qed simp

lemma synced_without:
  assumes "synced d" and "st_faults (d_store d') = []" and "d_runtimes d' = d_runtimes d"
    and "jobs_of d' = modify_rows i f (jobs_of d)"
    and "\<And>r. j_id (f r) = j_id r" and "\<And>r. row_of (jobs_of d) i = Some r \<Longrightarrow> j_status (f r) \<noteq> StatusActive"
    and "\<And>r. row_of (jobs_of d) i = Some r \<Longrightarrow> marshal_ok (j_options (f r))"
    and "get_runtime i d \<noteq> None" and "d_seeders d' = d_seeders d"
  shows "synced (drop_runtime i d')"
proof (rule synced_rewrite [OF assms(1) _ _ _ _ _ _ assms(5)])
  show "wf_map (d_runtimes (drop_runtime i d'))"
    using assms(1,3) by (simp add: drop_runtime_def synced_but_def)
  show "j_status (f r) \<noteq> StatusActive \<and> marshal_ok (j_options (f r))" if "row_of (jobs_of d) i = Some r" for r
    using assms(6,7) that by blast
  have "seeder_of i d = None"
    using running_row [OF assms(1,8)] assms(1) unfolding synced_but_def by fastforce
  then have none: "seeder_of i (drop_runtime i d') = None"
    using assms(9) by (simp add: seeder_of_def drop_runtime_def)
  show "seeder_of i (drop_runtime i d') = None \<or> j_status (f r) = StatusSeeding" for r using none by simp
  show "seeder_of i (drop_runtime i d') = None" by (fact none)
qed (use assms(2-4,9) in \<open>simp_all add: drop_runtime_def get_runtime_def seeder_of_def\<close>)

lemma row_marshal: "synced_but X d \<Longrightarrow> row_of (jobs_of d) i = Some r \<Longrightarrow> marshal_ok (j_options r)"
  using row_of_mem by (fastforce simp: synced_but_def)

lemma finish_synced:
  assumes "synced d" and "get_runtime i d \<noteq> None"
  shows "synced (drop_runtime i (finish_job i b c e d))"
proof -
  obtain r where r: "row_of (jobs_of d) i = Some r" using running_row [OF assms] by blast
  note nf = synced_nofaults [OF assms(1)]
  obtain j' where j': "d_store (finish_job i b c e d) =
      (d_store d)\<lparr>st_rows := modify_rows i (row_written (d_store d) j') (jobs_of d)\<rparr>"
    "j_id j' = i" "j_options j' = j_options r" "j_status j' \<noteq> StatusActive"
    using finish_job_free [OF nf r row_marshal [OF assms(1) r]] by metis
  have mod: "modify_rows i (row_written (d_store d) j') (jobs_of d) =
      modify_rows i (\<lambda>x. (row_written (d_store d) j' x)\<lparr>j_id := j_id x\<rparr>) (jobs_of d)"
    by (rule modify_rows_cong) (simp add: row_written_def j'(2))
  show ?thesis
    by (rule synced_without [OF assms(1), where f = "\<lambda>x. (row_written (d_store d) j' x)\<lparr>j_id := j_id x\<rparr>"])
      (use nf r j' row_marshal [OF assms(1) r] assms(2) in \<open>simp_all add: mod row_written_def\<close>)
qed

lemma worker_end_settles:
  assumes "settled d" and "get_runtime i d \<noteq> None" and "ex \<noteq> Returned"
  shows "settled (worker_end i ex d)"
proof -
  have "synced (drop_runtime i (worker_outcome i ex d))"
  proof (cases ex)
    case (Finished b c e)
    then show ?thesis using finish_synced [OF settled_synced [OF assms(1)] assms(2)] by (simp add: worker_outcome_def)
  next
    case (Panicked b m)
    let ?d = "log_print (''recovered from panic running job '' @ i @ '': '' @ m) d"
    have "synced ?d" "get_runtime i ?d \<noteq> None"
      using settled_synced [OF assms(1)] assms(2) by (simp_all add: synced_but_def get_runtime_def seeder_of_def log_print_def)
    with Panicked show ?thesis using finish_synced by (simp add: worker_outcome_def)
  qed (use assms(3) in simp)
  moreover have "\<not> d_try_running (drop_runtime i (worker_outcome i ex d))"
    "\<not> d_try_again (drop_runtime i (worker_outcome i ex d))"
    using assms(1) by (simp_all add: settled_but_def worker_outcome_def split: worker_exit.splits)
  ultimately show ?thesis
    unfolding worker_end_def clear_runtime_def by (rule try_settles)
qed

text \<open>However the worker ended, afterwards its job holds no slot and is not in the queue.\<close>

lemma synced_exempt:
  "synced d \<Longrightarrow> get_runtime i d = None \<Longrightarrow> (\<And>r. row_of (jobs_of d) i = Some r \<Longrightarrow> j_status r \<noteq> StatusQueued) \<Longrightarrow>
   synced_but {i} d"
  by (simp add: synced_but_def)

lemma synced_unexempt:
  assumes "synced_but {i} d" and "\<And>r. row_of (jobs_of d) i = Some r \<Longrightarrow> j_status r \<noteq> StatusActive"
  shows "synced d"
proof -
  have "(get_runtime k d \<noteq> None) = (\<exists>j. row_of (jobs_of d) k = Some j \<and> j_status j = StatusActive)" for k
    using assms by (cases "k = i") (auto simp: synced_but_def)
  with assms(1) show ?thesis by (simp add: synced_but_def)
qed

lemma exempt_free: "synced_but {i} d \<Longrightarrow> get_runtime i d = None"
  by (simp add: synced_but_def)

lemma finish_not_queued:
  assumes "synced d" and "get_runtime i d \<noteq> None" and "row_of (jobs_of (finish_job i b c e d)) i = Some r'"
  shows "j_status r' \<noteq> StatusQueued"
proof -
  obtain r where r: "row_of (jobs_of d) i = Some r" using running_row [OF assms(1,2)] by blast
  obtain j' where j': "d_store (finish_job i b c e d) =
      (d_store d)\<lparr>st_rows := modify_rows i (row_written (d_store d) j') (jobs_of d)\<rparr>" "j_id j' = i" "j_status j' \<noteq> StatusQueued"
    using finish_job_free [OF synced_nofaults [OF assms(1)] r row_marshal [OF assms(1) r]] by metis
  have mod: "modify_rows i (row_written (d_store d) j') (jobs_of d) =
      modify_rows i (\<lambda>x. (row_written (d_store d) j' x)\<lparr>j_id := j_id x\<rparr>) (jobs_of d)"
    by (rule modify_rows_cong) (simp add: row_written_def j'(2))
  from assms(3) r show ?thesis
    unfolding j'(1) by (simp add: mod row_of_modify) (auto simp: row_written_def j'(3))
qed

lemma worker_outcome_exempt:
  assumes "synced d" and "get_runtime i d \<noteq> None"
  shows "synced_but {i} (drop_runtime i (worker_outcome i ex d))"
proof -
  have gone: "get_runtime i (drop_runtime i x) = None" for x
    by (simp add: get_runtime_def drop_runtime_def)
  have fin: "synced_but {i} (drop_runtime i (finish_job i b c e d))"
    if "synced d" "get_runtime i d \<noteq> None" for b c e d
    by (rule synced_exempt [OF finish_synced [OF that] gone]) (use finish_not_queued [OF that] in auto)
  show ?thesis
  proof (cases ex)
    case (Finished b c e)
    then show ?thesis using fin [OF assms] by (simp add: worker_outcome_def)
  next
    case Returned
    from running_row [OF assms] assms(1) show ?thesis
      by (auto simp: Returned worker_outcome_def synced_but_def gone) (auto simp: get_runtime_def drop_runtime_def seeder_of_def split: if_splits)
  next
    case (Panicked b m)
    let ?d = "log_print (''recovered from panic running job '' @ i @ '': '' @ m) d"
    have "synced ?d" "get_runtime i ?d \<noteq> None"
      using assms by (simp_all add: synced_but_def get_runtime_def seeder_of_def log_print_def)
    from fin [OF this] Panicked show ?thesis by (simp add: worker_outcome_def)
  qed
qed

lemma outcome_flags [simp]:
  "d_try_running (worker_outcome i ex d) = d_try_running d" "d_try_again (worker_outcome i ex d) = d_try_again d"
  "d_settings (worker_outcome i ex d) = d_settings d" "d_runtimes (worker_outcome i ex d) = d_runtimes d"
  by (simp_all add: worker_outcome_def split: worker_exit.splits)

lemma worker_end_exempt:
  assumes "settled d" and "get_runtime i d \<noteq> None"
  shows "settled_but {i} (worker_end i ex d)"
  unfolding worker_end_def clear_runtime_def
  using worker_outcome_exempt [OF settled_synced [OF assms(1)] assms(2)] assms(1)
  by (intro try_settles) (simp_all add: settled_but_def)

text \<open>A job offered to \<^verbatim>\<open>start\<close> with its row queued either runs or waits for a full pool.\<close>

lemma start_settles:
  assumes "synced d" and "\<not> d_try_running d" and "\<not> d_try_again d"
    and row: "row_of (jobs_of d) (j_id j) = Some r" "j_status r = StatusQueued"
    and others: "\<And>k. k \<in> set (jobs_of d) \<Longrightarrow> j_id k \<noteq> j_id j \<Longrightarrow> j_status k = StatusQueued \<Longrightarrow> slots_full d"
  shows "settled (snd (start j d))"
proof -
  note nf = synced_nofaults [OF assms(1)]
  have none: "get_runtime (j_id j) d = None" using running_row [OF assms(1), of "j_id j"] row
    by (cases "get_runtime (j_id j) d") auto
  show ?thesis
  proof (cases "slots_full d")
    case True
    with assms(1-3) show ?thesis
      by (simp add: start_def start_refused settled_but_def waiting_only_when_full_def)
  next
    case False
    have "j_status k \<noteq> StatusQueued" if k: "k \<in> set (jobs_of (started j d))" for k
    proof -
      obtain k' where k': "k' \<in> set (jobs_of d)" "k = (if j_id k' = j_id j then activated (st_now (d_store d)) k' else k')"
        using k by (auto simp: started_def modify_rows_def)
      with others [of k'] False show ?thesis by (cases "j_id k' = j_id j") auto
    qed
    then show ?thesis
      using start_free [OF nf none False, of clear_runtime] synced_started [OF assms(1) row(1) _ row(2)] assms(2,3)
      by (simp add: start_def settled_but_def waiting_only_when_full_def)
  qed
qed

section \<open>The re-entrancy guard\<close>

lemma clear_runtime_nested: "d_try_running d \<Longrightarrow> clear_runtime i d = clear_nested i d"
  by (simp add: clear_runtime_def clear_nested_def try_start_queued.simps)


lemma mark_guard:
  "d_try_running d \<Longrightarrow> mark_active clear_runtime j d = mark_active clear_nested j d"
  by (simp add: mark_active_def on_store_def clear_runtime_nested split: prod.splits sum.splits)

text \<open>while the loop runs, the code's \<^verbatim>\<open>start\<close>, whose failure path calls \<^verbatim>\<open>clearRuntime\<close> and so
  \<^verbatim>\<open>tryStartQueued\<close> again, does what the loop's model runs: the nested call only raises the flag.\<close>

theorem start_nested:
  assumes "d_try_running d"
  shows "start j d = start_with clear_nested j d"
proof -
  have "acquire_slot (j_id j) d = (b, d') \<Longrightarrow> d_try_running d'" for b d'
    using assms by (elim acquire_cases) simp_all
  then show ?thesis
    by (auto simp: start_def start_with_def launch_def mark_guard split: prod.splits bool.splits)
qed

section \<open>A store that keeps failing\<close>

text \<open>One round against a store that reads but does not write: the queue is listed, the status
  write fails, \<^verbatim>\<open>finishJob\<close> reads the row and fails to write it, and the queue is listed again
  to find nothing left to attempt.\<close>

definition failing_round :: "bool list" where
  "failing_round = [False, True, False, True, False]"

lemma exec_flag:
  "st_faults s = False # fs \<Longrightarrow> exec stmt s = stmt (s\<lparr>st_faults := fs\<rparr>)"
  "st_faults s = True # fs \<Longrightarrow> exec stmt s = (Inl sql_error, s\<lparr>st_faults := fs\<rparr>)"
  by (simp_all add: exec_def next_fault_def)

lemma finish_unwritten:
  assumes "st_faults (d_store d) = False # True # fs" and "row_of (jobs_of d) i = Some r"
    and "\<not> s_auto_retry (d_settings d)" and "marshal_ok (j_options r)"
  shows "finish_job i b False (Some (ErrMsg m)) d = d\<lparr>d_store := (d_store d)\<lparr>st_faults := fs\<rparr>\<rparr>"
proof -
  have g: "on_store (get_job i) d = (Inr r, d\<lparr>d_store := (d_store d)\<lparr>st_faults := True # fs\<rparr>\<rparr>)"
    using assms(1,2) by (simp add: on_store_def get_job_def exec_flag)
  define job1 where "job1 = (if j_type r = JobURL
      then r\<lparr>j_bytes_done := b, j_resume_offset := b\<rparr> else r\<lparr>j_bytes_done := b\<rparr>)"
  define j' where "j' = job1\<lparr>j_status := StatusFailed, j_error := m\<rparr>"
  have fs: "finish_status (d_settings d) False (Some (ErrMsg m)) job1 = (j', 0)"
    using assms(3) by (simp add: finish_status_def j'_def)
  have "j_options j' = j_options r" by (simp add: j'_def job1_def)
  then have u: "update_job j' ((d_store d)\<lparr>st_faults := True # fs\<rparr>) = (Inl sql_error, (d_store d)\<lparr>st_faults := fs\<rparr>)"
    using assms(4) by (simp add: update_job_def exec_flag(2) [where fs = fs])
  have "finish_job i b False (Some (ErrMsg m)) d =
      do_store (update_job j') (d\<lparr>d_store := (d_store d)\<lparr>st_faults := True # fs\<rparr>\<rparr>)"
    using g fs by (simp add: finish_job_def Let_def job1_def split: if_splits)
  also have "\<dots> = d\<lparr>d_store := (d_store d)\<lparr>st_faults := fs\<rparr>\<rparr>"
    by (simp add: do_store_eq u)
  finally show ?thesis .
qed

lemma start_unmarked:
  assumes "jobs_of d = [j]" and "d_runtimes d = []" and "\<not> s_auto_retry (d_settings d)"
    and "st_faults (d_store d) = True # False # True # fs" and "marshal_ok (j_options j)"
  shows "start_with clear_nested j d = (True, d\<lparr>d_store := (d_store d)\<lparr>st_faults := fs\<rparr>, d_try_again := True,
     d_log := d_log d @ [active_failed_line (j_id j) sql_error]\<rparr>)"
proof -
  let ?d2 = "set_runtime (j_id j) (launch_runtime (d_now d) j) d"
  let ?s = "(d_store d)\<lparr>st_faults := False # True # fs\<rparr>"
  have a: "acquire_slot (j_id j) d = (True, set_runtime (j_id j) placeholder d)"
    using assms(2) by (simp add: acquire_slot_def get_runtime_def slots_full_def)
  have m: "on_store (update_status (j_id j) StatusActive []) ?d2 = (Inl sql_error, ?d2\<lparr>d_store := ?s\<rparr>)"
    using assms(4) by (simp add: on_store_def update_status_def exec_flag)
  let ?d3 = "clear_nested (j_id j) (log_print (active_failed_line (j_id j) sql_error) (?d2\<lparr>d_store := ?s\<rparr>))"
  have d3: "?d3 = d\<lparr>d_store := ?s, d_try_again := True, d_log := d_log d @ [active_failed_line (j_id j) sql_error]\<rparr>"
    using assms(2) by (simp add: clear_nested_def drop_runtime_def log_print_def set_runtime_def AList.delete_eq)
  have "finish_job (j_id j) (j_bytes_done j) False (Some (active_failed_error sql_error)) ?d3 =
      ?d3\<lparr>d_store := (d_store ?d3)\<lparr>st_faults := fs\<rparr>\<rparr>"
    unfolding active_failed_error_def
    by (rule finish_unwritten [where r = j]) (use assms in \<open>simp_all add: d3\<close>)
  then show ?thesis
    using a m d3 by (simp add: start_with_def launch_def mark_active_def)
qed

lemma failing_pass:
  assumes "jobs_of d = [j]" and "j_status j = StatusQueued" and "d_runtimes d = []" and "\<not> s_auto_retry (d_settings d)"
    and "st_faults (d_store d) = failing_round @ fs" and "marshal_ok (j_options j)"
  shows "try_pass [] d = d\<lparr>d_store := (d_store d)\<lparr>st_faults := fs\<rparr>, d_try_again := True,
     d_log := d_log d @ [active_failed_line (j_id j) sql_error]\<rparr>"
proof -
  let ?d1 = "d\<lparr>d_store := (d_store d)\<lparr>st_faults := True # False # True # False # fs\<rparr>\<rparr>"
  let ?d2 = "d\<lparr>d_store := (d_store d)\<lparr>st_faults := False # fs\<rparr>, d_try_again := True,
     d_log := d_log d @ [active_failed_line (j_id j) sql_error]\<rparr>"
  have cap: "\<not> slots_full d" "\<not> slots_full ?d2"
    using assms(3) by (simp_all add: slots_full_def)
  have n: "next_queued_job [] d = (Inr (Some j), ?d1)"
    using assms by (simp add: next_queued_job_def on_store_def list_queued_jobs_def exec_flag failing_round_def
      get_runtime_def)
  have s: "start_with clear_nested j ?d1 = (True, ?d2)"
    using start_unmarked [of ?d1 j "False # fs"] assms by simp
  have n2: "next_queued_job [j_id j] ?d2 = (Inr None, ?d2\<lparr>d_store := (d_store d)\<lparr>st_faults := fs\<rparr>\<rparr>)"
    using assms by (simp add: next_queued_job_def on_store_def list_queued_jobs_def exec_flag)
  have "try_pass [] d = try_pass [j_id j] ?d2"
    using cap(1) n s by (simp add: try_pass.simps [of "[]" d])
  also have "\<dots> = ?d2\<lparr>d_store := (d_store d)\<lparr>st_faults := fs\<rparr>\<rparr>"
    using cap(2) n2 by (simp add: try_pass.simps [of "[j_id j]" ?d2])
  finally show ?thesis by simp
qed

text \<open>however long the store keeps failing to write, one call goes on for as long, a round for
  each failure: \<open>n\<close> failing rounds make \<open>n\<close> attempts on the same job.\<close>

theorem failing_store_attempts:
  assumes "jobs_of d = [j]" and "j_status j = StatusQueued" and "d_runtimes d = []"
    and "\<not> s_auto_retry (d_settings d)" and "marshal_ok (j_options j)" and "\<not> d_try_running d"
    and "st_faults (d_store d) = concat (replicate n failing_round)"
  shows "d_log (try_start_queued d) = d_log d @ replicate n (active_failed_line (j_id j) sql_error)"
  using assms
proof (induction n arbitrary: d)
  case 0
  then have nf: "st_faults (d_store d) = []" by simp
  let ?d = "d\<lparr>d_try_running := True\<rparr>"
  have cap: "\<not> slots_full ?d" using 0 by (simp add: slots_full_def)
  have n: "next_queued_job [] ?d = (Inr (Some j), ?d)"
    using 0 by (simp add: next_queued_job_def on_store_def list_queued_jobs_def exec_no_faults get_runtime_def)
  have s: "start_with clear_nested j ?d = (True, started j ?d)"
    using 0 cap by (intro start_free) (simp_all add: get_runtime_def)
  have n2: "next_queued_job [j_id j] (started j ?d) = (Inr None, started j ?d)"
    using 0 by (simp add: next_queued_job_def on_store_def list_queued_jobs_def exec_no_faults started_def modify_rows_def)
  have p: "try_pass [] ?d = started j ?d"
    using cap n s n2 by (simp add: try_pass.simps [of "[]" ?d] try_pass.simps [of "[j_id j]"])
  have l: "d_log (started j ?d) = d_log d" by (simp add: started_def set_runtime_def)
  show ?case
  proof (cases "d_try_again d")
    case False
    with 0 p l show ?thesis by (simp add: try_start_queued.simps [of d] Let_def)
  next
    case True
    let ?d2 = "(started j ?d)\<lparr>d_try_running := False, d_try_again := False\<rparr>"
    let ?d3 = "?d2\<lparr>d_try_running := True\<rparr>"
    have n3: "next_queued_job [] ?d3 = (Inr None, ?d3)"
      using 0 by (simp add: next_queued_job_def on_store_def list_queued_jobs_def exec_no_faults started_def modify_rows_def)
    have "\<not> slots_full ?d3 \<or> slots_full ?d3" by simp
    then have "try_pass [] ?d3 = ?d3"
      using n3 by (subst try_pass.simps) simp
    then have "d_log (try_start_queued ?d2) = d_log d"
      using l by (simp add: try_start_queued.simps [of ?d2] Let_def)
    with True 0 p show ?thesis by (simp add: try_start_queued.simps [of d] Let_def)
  qed
next
  case (Suc n)
  let ?d = "d\<lparr>d_try_running := True\<rparr>"
  let ?fs = "concat (replicate n failing_round)"
  let ?d2 = "d\<lparr>d_store := (d_store d)\<lparr>st_faults := ?fs\<rparr>, d_log := d_log d @ [active_failed_line (j_id j) sql_error],
     d_try_running := False, d_try_again := False\<rparr>"
  have "try_pass [] ?d = ?d\<lparr>d_store := (d_store ?d)\<lparr>st_faults := ?fs\<rparr>, d_try_again := True,
     d_log := d_log ?d @ [active_failed_line (j_id j) sql_error]\<rparr>"
    using Suc.prems by (intro failing_pass) simp_all
  then have "try_start_queued d = try_start_queued ?d2"
    using Suc.prems(6) by (simp add: try_start_queued.simps [of d] Let_def)
  moreover have "d_log (try_start_queued ?d2) = d_log ?d2 @ replicate n (active_failed_line (j_id j) sql_error)"
    using Suc.prems by (intro Suc.IH) simp_all
  ultimately show ?case by simp
qed


section \<open>The delay of an automatic retry\<close>

lemma backoff_loop_min:
  "0 < t \<Longrightarrow> t < 5 * minute_ns \<Longrightarrow> backoff_loop k t = min (t * 3 ^ k) (5 * minute_ns)"
proof (induction k arbitrary: t)
  case 0
  then show ?case by simp
next
  case (Suc k)
  show ?case
  proof (cases "5 * minute_ns \<le> t * 3")
    case True
    have "t * 3 * 1 \<le> t * 3 * 3 ^ k"
      using Suc.prems(1) by (intro mult_left_mono) simp_all
    with True show ?thesis by (simp add: mult.assoc min_def)
  next
    case False
    then show ?thesis using Suc.IH [of "t * 3"] Suc.prems by (simp add: mult.assoc)
  qed
qed

text \<open>the automatic retries wait 5 seconds, then three times as long each time, up to five
  minutes; no count makes the product overflow, because the loop stops at the ceiling.\<close>

theorem auto_retry_backoff_capped:
  assumes "1 \<le> n"
  shows "auto_retry_backoff n = min (5 * 3 ^ nat (n - 1)) 300 * second_ns \<and> in_int64 (auto_retry_backoff n)"
proof -
  have eq: "auto_retry_backoff n = min (5 * second_ns * 3 ^ nat (n - 1)) (5 * minute_ns)"
    unfolding auto_retry_backoff_def by (rule backoff_loop_min) (simp_all add: second_ns_def minute_ns_def)
  also have "\<dots> = min (5 * 3 ^ nat (n - 1)) 300 * second_ns"
    by (simp add: min_def second_ns_def minute_ns_def)
  finally have val: "auto_retry_backoff n = min (5 * 3 ^ nat (n - 1)) 300 * second_ns" .
  have "0 \<le> auto_retry_backoff n \<and> auto_retry_backoff n \<le> 300 * second_ns"
    by (simp add: eq second_ns_def minute_ns_def)
  then have "in_int64 (auto_retry_backoff n)"
    unfolding in_int64_def int64_min_def int64_max_def second_ns_def by linarith
  with val show ?thesis by simp
qed

theorem auto_retry_backoff_capped_witness: "auto_retry_backoff 3 = 45 * second_ns \<and> auto_retry_backoff 5 = 300 * second_ns"
  using auto_retry_backoff_capped [of 3] auto_retry_backoff_capped [of 5] by simp

section \<open>A sample daemon\<close>

definition sample_daemon :: "int \<Rightarrow> job list \<Rightarrow> bool list \<Rightarrow> daemon" where
  "sample_daemon cap rows fs =
     \<lparr>d_store = (sample_store rows)\<lparr>st_faults := fs\<rparr>, d_tm = new_manager, d_runtimes = [],
      d_settings = default_settings\<lparr>s_max_concurrent := cap\<rparr>, d_limiter = new_shared 0, d_bps = 0,
      d_try_running = False, d_try_again = False, d_timers = Some [], d_armed = [], d_next_timer = 0,
      d_seeders = Some [], d_web = None, d_now = 0, d_log = [], d_notified = [], d_files = [], d_forgotten = [], d_panic = False\<rparr>"

lemma sample_daemon_simps [simp]:
  "jobs_of (sample_daemon cap rows fs) = rows" "st_faults (d_store (sample_daemon cap rows fs)) = fs"
  "d_runtimes (sample_daemon cap rows fs) = []" "d_log (sample_daemon cap rows fs) = []"
  "d_settings (sample_daemon cap rows fs) = default_settings\<lparr>s_max_concurrent := cap\<rparr>"
  "\<not> d_try_running (sample_daemon cap rows fs)" "\<not> d_try_again (sample_daemon cap rows fs)"
  "get_runtime i (sample_daemon cap rows fs) = None"
  by (simp_all add: sample_daemon_def sample_store_def get_runtime_def)

lemma sample_job_simps [simp]:
  "j_id (sample_job i st) = i" "j_status (sample_job i st) = st" "marshal_ok (j_options (sample_job i st))"
  "j_type (sample_job i st) = JobURL"
  by (simp_all add: sample_job_def marshal_ok_def empty_options_def)

theorem failing_store_attempts_witness:
  "d_log (try_start_queued (sample_daemon 0 [sample_job ''a'' StatusQueued] (concat (replicate 3 failing_round)))) =
    replicate 3 (active_failed_line ''a'' sql_error)"
  using failing_store_attempts [of "sample_daemon 0 [sample_job ''a'' StatusQueued] (concat (replicate 3 failing_round))"
    "sample_job ''a'' StatusQueued" 3]
  by (simp add: default_settings_def)

theorem start_nested_witness:
  "start (sample_job ''a'' StatusQueued) ((sample_daemon 0 [] [])\<lparr>d_try_running := True\<rparr>) =
   start_with clear_nested (sample_job ''a'' StatusQueued) ((sample_daemon 0 [] [])\<lparr>d_try_running := True\<rparr>)"
  by (rule start_nested) simp

end
