(* ===== verification/GoPath.thy ===== *)
theory GoPath
  imports GoStrings
begin

text \<open>
  The parts of Go's \<^verbatim>\<open>path\<close> and \<^verbatim>\<open>path/filepath\<close> the code uses, for slash-separated systems:
  \<^verbatim>\<open>Clean\<close>, \<^verbatim>\<open>Join\<close>, \<^verbatim>\<open>Abs\<close>. A path is cut into its elements; the cleaned elements are the
  stack a left-to-right pass leaves. The lemmas say when a joined path stays below its first
  part, which is what the guards of the download code rest on.
\<close>

section \<open>Cleaning\<close>

definition dotdot :: string where "dotdot = ''..''"

definition path_elems :: "string \<Rightarrow> string list" where
  "path_elems p = filter (\<lambda>e. e \<noteq> [] \<and> e \<noteq> ''.'') (split_on (CHR ''/'') p)"

text \<open>One element on the stack (the last element first): \<open>..\<close> takes one off, except at the root
  (where it is dropped) or above a \<open>..\<close> (where it stays).\<close>

definition push_elem :: "bool \<Rightarrow> string \<Rightarrow> string list \<Rightarrow> string list" where
  "push_elem rooted e st =
     (if e = dotdot
      then (case st of
              [] \<Rightarrow> if rooted then [] else [dotdot]
            | t # ts \<Rightarrow> if t = dotdot then dotdot # st else ts)
      else e # st)"

definition clean_elems :: "bool \<Rightarrow> string list \<Rightarrow> string list" where
  "clean_elems rooted es = rev (fold (push_elem rooted) es [])"

definition rooted :: "string \<Rightarrow> bool" where
  "rooted p \<longleftrightarrow> (case p of c # _ \<Rightarrow> c = CHR ''/'' | [] \<Rightarrow> False)"

definition show_path :: "bool \<Rightarrow> string list \<Rightarrow> string" where
  "show_path r es = (if r then CHR ''/'' # join_with ''/'' es else if es = [] then ''.'' else join_with ''/'' es)"

definition path_clean :: "string \<Rightarrow> string" where
  "path_clean p = show_path (rooted p) (clean_elems (rooted p) (path_elems p))"

definition path_join :: "string list \<Rightarrow> string" where
  "path_join ps =
     (case dropWhile (\<lambda>p. p = []) ps of [] \<Rightarrow> [] | qs \<Rightarrow> path_clean (join_with ''/'' qs))"

text \<open>\<^verbatim>\<open>filepath.Abs\<close>, given what \<^verbatim>\<open>os.Getwd\<close> answers.\<close>

definition path_abs :: "string option \<Rightarrow> string \<Rightarrow> string option" where
  "path_abs cwd p = (if rooted p then Some (path_clean p) else map_option (\<lambda>w. path_join [w, p]) cwd)"

text \<open>The path itself or one below it.\<close>

definition below :: "string \<Rightarrow> string \<Rightarrow> bool" where
  "below dir p \<longleftrightarrow> p = dir \<or> has_prefix p (dir @ ''/'')"

section \<open>Lemmas\<close>

lemma path_elems_plain: "e \<in> set (path_elems p) \<Longrightarrow> e \<noteq> [] \<and> e \<noteq> ''.'' \<and> CHR ''/'' \<notin> set e"
  by (auto simp: path_elems_def dest: split_parts_free)

lemma split_on_join: "split_on c (p @ c # q) = split_on c p @ split_on c q"
proof (induction p)
  case (Cons x p)
  obtain a as where "split_on c p = a # as"
    by (meson list.exhaust split_on_nonempty)
  with Cons show ?case by auto
qed simp

lemma path_elems_join: "path_elems (p @ ''/'' @ q) = path_elems p @ path_elems q"
  by (simp add: path_elems_def split_on_join)

lemma path_elems_Nil [simp]: "path_elems [] = []"
  by (simp add: path_elems_def)

lemma path_elems_join_with:
  "path_elems (join_with ''/'' ps) = concat (map path_elems ps)"
proof (induction ps)
  case (Cons p ps)
  show ?case
  proof (cases ps)
    case (Cons q qs)
    have "path_elems (join_with ''/'' (p # q # qs)) = path_elems p @ path_elems (join_with ''/'' (q # qs))"
      using path_elems_join [of p] by simp
    with Cons Cons.IH show ?thesis by simp
  qed simp
qed simp

lemma path_elems_slash [simp]: "path_elems (CHR ''/'' # p) = path_elems p"
  by (simp add: path_elems_def)

lemma join_plain_elems:
  assumes "\<forall>e\<in>set es. e \<noteq> [] \<and> e \<noteq> ''.'' \<and> CHR ''/'' \<notin> set e"
  shows "path_elems (join_with ''/'' es) = es"
proof (cases "es = []")
  case False
  have "filter (\<lambda>e. e \<noteq> [] \<and> e \<noteq> ''.'') es = es"
    using assms by (simp add: filter_id_conv)
  with False assms show ?thesis
    unfolding path_elems_def using split_join [of es "CHR ''/''"] by simp
qed simp

text \<open>Elements without \<open>..\<close> are kept as they are.\<close>

lemma fold_push_plain: "dotdot \<notin> set es \<Longrightarrow> fold (push_elem r) es st = rev es @ st"
  by (induction es arbitrary: st) (auto simp: push_elem_def)

lemma clean_elems_plain: "dotdot \<notin> set es \<Longrightarrow> clean_elems r es = es"
  by (simp add: clean_elems_def fold_push_plain)

lemma fold_push_set: "set (fold (push_elem r) es st) \<subseteq> set es \<union> set st \<union> {dotdot}"
proof (induction es arbitrary: st)
  case (Cons e es)
  have "set (push_elem r e st) \<subseteq> insert e (set st) \<union> {dotdot}"
    by (auto simp: push_elem_def split: list.splits)
  with Cons [of "push_elem r e st"] show ?case by auto
qed auto

lemma fold_push_rooted: "dotdot \<notin> set st \<Longrightarrow> dotdot \<notin> set (fold (push_elem True) es st)"
proof (induction es arbitrary: st)
  case (Cons e es)
  have "dotdot \<notin> set (push_elem True e st)"
    using Cons.prems by (auto simp: push_elem_def split: list.splits)
  with Cons.IH show ?case by simp
qed simp

lemma clean_rooted_no_dotdot: "dotdot \<notin> set (clean_elems True es)"
  using fold_push_rooted [of "[]"] by (simp add: clean_elems_def)

lemma clean_elems_in: "e \<in> set (clean_elems True es) \<Longrightarrow> e \<in> set es"
  using fold_push_set [of True es "[]"] clean_rooted_no_dotdot [of es] by (auto simp: clean_elems_def)

lemma rooted_show: "\<forall>e\<in>set es. e \<noteq> [] \<and> CHR ''/'' \<notin> set e \<Longrightarrow> rooted (show_path r es) = r"
proof (cases es)
  case (Cons e es')
  assume "\<forall>e\<in>set es. e \<noteq> [] \<and> CHR ''/'' \<notin> set e"
  with Cons obtain c e' where "e = c # e'" "c \<noteq> CHR ''/''" by (cases e) auto
  with Cons show ?thesis by (cases es') (auto simp: show_path_def rooted_def)
qed (simp add: show_path_def rooted_def)

lemma rooted_clean_elems: "rooted p \<Longrightarrow> path_elems (path_clean p) = clean_elems True (path_elems p)"
proof -
  assume r: "rooted p"
  have "\<forall>e\<in>set (clean_elems True (path_elems p)). e \<noteq> [] \<and> e \<noteq> ''.'' \<and> CHR ''/'' \<notin> set e"
    using clean_elems_in path_elems_plain by blast
  with r show ?thesis by (simp add: path_clean_def show_path_def join_plain_elems)
qed

lemma rooted_clean [simp]: "rooted p \<Longrightarrow> rooted (path_clean p)"
  by (simp add: path_clean_def show_path_def rooted_def)

lemma clean_idem: "rooted p \<Longrightarrow> path_clean (path_clean p) = path_clean p"
  by (simp add: path_clean_def [of "path_clean p"] rooted_clean_elems clean_elems_plain clean_rooted_no_dotdot)
    (simp add: path_clean_def)

text \<open>Joining clean elements below a clean rooted directory appends them.\<close>

lemma join_with_append: "es \<noteq> [] \<Longrightarrow> fs \<noteq> [] \<Longrightarrow> join_with sep (es @ fs) = join_with sep es @ sep @ join_with sep fs"
proof (induction es)
  case (Cons e es)
  show ?case
  proof (cases es)
    case Nil
    with Cons.prems show ?thesis by (cases fs) simp_all
  next
    case (Cons f es')
    with Cons.IH Cons.prems show ?thesis by simp
  qed
qed simp

lemma below_show:
  assumes "es \<noteq> []"
  shows "below (show_path True es) (show_path True (es @ fs))"
proof (cases "fs = []")
  case False
  then show ?thesis using join_with_append [OF assms False, of "''/''"]
    by (auto simp: below_def show_path_def has_prefix_iff)
qed (simp add: below_def)

end
