(* ===== verification/Lifecycle.thy ===== *)
theory Lifecycle
  imports QueueProps GoPath
begin

text \<open>
  \<^verbatim>\<open>internal/daemon/lifecycle.go\<close> and \<^verbatim>\<open>seed.go\<close>: creating, pausing, resuming, retrying,
  canceling and removing jobs, the retry timers, and seeding. Where the code stops a worker and
  waits for it, how the worker ends is an argument: \<open>None\<close> when it is still running after the
  five seconds of \<^verbatim>\<open>waitForStop\<close>.
\<close>

section \<open>Creating\<close>

definition max_job_concurrency :: int where "max_job_concurrency = 64"

definition default_rate :: "settings \<Rightarrow> int \<Rightarrow> int" where
  "default_rate cfg limit =
     (if limit = 0 \<and> s_default_rate_limit cfg \<noteq> []
      then (case parse_rate (s_default_rate_limit cfg) of Inl _ \<Rightarrow> limit | Inr r \<Rightarrow> r) else limit)"

definition create_job ::
  "job_type \<Rightarrow> string \<Rightarrow> string \<Rightarrow> string \<Rightarrow> int \<Rightarrow> int \<Rightarrow> string \<Rightarrow> job_options \<Rightarrow> daemon \<Rightarrow> job result \<times> daemon" where
  "create_job typ source output fmt concurrency limit sha opts d =
     (if source = [] then (Inl (ErrMsg ''source is required''), d)
      else let concurrency = (if concurrency < 1 then 1 else concurrency)
      in if max_job_concurrency < concurrency
         then (Inl (ErrMsg (''at most '' @ itoa max_job_concurrency @ '' pieces at once (asked for ''
                 @ itoa concurrency @ '')'')), d)
         else (case on_store new_id d of
             (Inl e, d) \<Rightarrow> (Inl e, d)
           | (Inr i, d) \<Rightarrow>
               on_store (create_job_row
                 \<lparr>j_id = i, j_type = typ, j_source = source, j_output = output, j_format = fmt,
                  j_concurrency = concurrency, j_limit_rate = default_rate (d_settings d) limit, j_sha256 = sha,
                  j_status = StatusQueued, j_bytes_done = 0, j_bytes_total = 0, j_resume_offset = 0,
                  j_info_hash = [], j_resolved = [], j_error = [], j_retry_count = 0, j_options = opts,
                  j_created = 0, j_updated = 0\<rparr>) d))"

section \<open>Seeding\<close>

text \<open>\<^verbatim>\<open>startSeeding\<close>: once the daemon is shutting down (a nil map) it does nothing. The loop's
  first reading of the client is part of the start.\<close>

definition start_seeding :: "string \<Rightarrow> job_options \<Rightarrow> daemon \<Rightarrow> daemon" where
  "start_seeding i opts d =
     (case d_seeders d of
        None \<Rightarrow> d
      | Some m \<Rightarrow>
          let sd = \<lparr>sd_opts = opts, sd_size = fst (snd (tm_progress i (d_tm d))), sd_start = d_now d,
                    sd_last_up = tm_uploaded i (d_tm d), sd_last_at = d_now d, sd_upload = FFin 0, sd_ratio = FFin 0\<rparr>;
              d = d\<lparr>d_seeders := Some (AList.update i sd m)\<rparr>
          in (case on_store (update_status i StatusSeeding []) d of
                (Inr _, d) \<Rightarrow> d
              | (Inl e, d) \<Rightarrow> log_print (''job '' @ i @ '': recording it as seeding failed: '' @ err_string e) d))"

definition seed_stats :: "int \<Rightarrow> int \<Rightarrow> seeder \<Rightarrow> seeder" where
  "seed_stats now up sd =
     sd\<lparr>sd_upload := f64_div (f64_of_int (wrap64 (up - sd_last_up sd))) (duration_seconds (now - sd_last_at sd)),
        sd_ratio := (if 0 < sd_size sd then f64_div (f64_of_int up) (f64_of_int (sd_size sd)) else FFin 0),
        sd_last_up := up, sd_last_at := now\<rparr>"

definition seed_done :: "int \<Rightarrow> seeder \<Rightarrow> bool" where
  "seed_done now sd \<longleftrightarrow>
     (f64_less (FFin 0) (o_seed_ratio (sd_opts sd)) \<and> f64_le (o_seed_ratio (sd_opts sd)) (sd_ratio sd)) \<or>
     (0 < o_seed_time_sec (sd_opts sd) \<and> wrap64 (o_seed_time_sec (sd_opts sd) * second_ns) \<le> now - sd_start sd)"

definition seed_tick :: "string \<Rightarrow> daemon \<Rightarrow> daemon" where
  "seed_tick i d =
     (case seeder_of i d of
        None \<Rightarrow> d
      | Some sd \<Rightarrow>
          let sd = seed_stats (d_now d) (tm_uploaded i (d_tm d)) sd
          in if seed_done (d_now d) sd
             then do_store (update_status i StatusCompleted [])
               (d\<lparr>d_seeders := map_option (AList.delete i) (d_seeders d), d_tm := tm_pause i (d_tm d)\<rparr>)
             else d\<lparr>d_seeders := map_option (AList.update i sd) (d_seeders d)\<rparr>)"

definition stop_seeding :: "string \<Rightarrow> daemon \<Rightarrow> bool \<times> daemon" where
  "stop_seeding i d =
     (case seeder_of i d of
        None \<Rightarrow> (False, d)
      | Some _ \<Rightarrow> (True, do_store (update_status i StatusCompleted [])
          (d\<lparr>d_seeders := map_option (AList.delete i) (d_seeders d), d_tm := tm_pause i (d_tm d)\<rparr>)))"

definition stop_all_seeding :: "daemon \<Rightarrow> daemon" where
  "stop_all_seeding d = d\<lparr>d_seeders := None\<rparr>"

section \<open>Pausing and resuming\<close>

text \<open>Cancel a runtime's context and wait for its worker. The cancel function of a slot that is
  only reserved is nil; calling it panics.\<close>

definition stop_worker :: "string \<Rightarrow> worker_exit option \<Rightarrow> daemon \<Rightarrow> daemon" where
  "stop_worker i ex d =
     (case get_runtime i d of
        None \<Rightarrow> d
      | Some rt \<Rightarrow>
          if \<not> rt_cancel rt then go_panic d
          else (case ex of None \<Rightarrow> d | Some ex \<Rightarrow> worker_end i ex d))"

text \<open>Write a job back and return it, with the time the store stamps on it.\<close>

definition save_job :: "job \<Rightarrow> daemon \<Rightarrow> job result \<times> daemon" where
  "save_job job d =
     (case on_store (update_job job) d of
        (Inl e, d) \<Rightarrow> (Inl e, d)
      | (Inr _, d) \<Rightarrow> (Inr (job\<lparr>j_updated := st_now (d_store d)\<rparr>), d))"

definition not_found :: "string \<Rightarrow> gerror" where
  "not_found i = ErrMsg (''job '' @ i @ '' not found'')"

definition wrong_status :: "string \<Rightarrow> job \<Rightarrow> string \<Rightarrow> gerror" where
  "wrong_status i job rest = ErrMsg (''job '' @ i @ '' is '' @ status_string (j_status job) @ rest)"

definition pause_torrent :: "worker_exit option \<Rightarrow> string \<Rightarrow> daemon \<Rightarrow> job result \<times> daemon" where
  "pause_torrent ex i d =
     (let (pre, pre_total, have_pre) = tm_progress i (d_tm d);
          d = stop_worker i ex (d\<lparr>d_tm := tm_pause i (d_tm d)\<rparr>)
      in case on_store (get_job i) d of
           (Inl e, d) \<Rightarrow> (Inl e, d)
         | (Inr job, d) \<Rightarrow>
             let job = (if have_pre
                        then job\<lparr>j_bytes_done := pre, j_bytes_total := (if 0 < pre_total then pre_total else j_bytes_total job)\<rparr>
                        else job)
             in save_job (job\<lparr>j_status := StatusPaused, j_error := []\<rparr>) d)"

definition pause :: "worker_exit option \<Rightarrow> string \<Rightarrow> daemon \<Rightarrow> job result \<times> daemon" where
  "pause ex i d =
     (case on_store (get_job i) d of
        (Inl _, d) \<Rightarrow> (Inl (not_found i), d)
      | (Inr job, d) \<Rightarrow>
          if j_status job = StatusSeeding then on_store (get_job i) (snd (stop_seeding i d))
          else if j_status job \<noteq> StatusActive \<and> j_status job \<noteq> StatusQueued
          then (Inl (wrong_status i job '', not active''), d)
          else if j_type job = JobTorrent then pause_torrent ex i d
          else if get_runtime i d = None then save_job (job\<lparr>j_status := StatusPaused\<rparr>) d
          else on_store (get_job i) (stop_worker i ex d))"

definition resume :: "string \<Rightarrow> daemon \<Rightarrow> job result \<times> daemon" where
  "resume i d =
     (case on_store (get_job i) d of
        (Inl _, d) \<Rightarrow> (Inl (not_found i), d)
      | (Inr job, d) \<Rightarrow>
          if j_status job \<noteq> StatusPaused \<and> j_status job \<noteq> StatusFailed
          then (Inl (wrong_status i job '', cannot resume''), d)
          else (case save_job (job\<lparr>j_status := StatusQueued, j_error := []\<rparr>) d of
              (Inl e, d) \<Rightarrow> (Inl e, d)
            | (Inr job, d) \<Rightarrow> on_store (get_job i) (snd (start job d))))"

section \<open>Files\<close>

text \<open>\<^verbatim>\<open>os.Remove\<close> of files, and \<^verbatim>\<open>os.RemoveAll\<close>, which refuses a path that ends in a dot.\<close>

definition remove_files :: "string list \<Rightarrow> daemon \<Rightarrow> daemon" where
  "remove_files ps d = d\<lparr>d_files := filter (\<lambda>f. f \<notin> set ps) (d_files d)\<rparr>"

definition ends_with_dot :: "string \<Rightarrow> bool" where
  "ends_with_dot p \<longleftrightarrow> p = ''.'' \<or> has_suffix p ''/.''"

definition remove_all :: "string \<Rightarrow> daemon \<Rightarrow> daemon" where
  "remove_all p d =
     (if p = [] \<or> ends_with_dot p then d else d\<lparr>d_files := filter (\<lambda>f. \<not> below p f) (d_files d)\<rparr>)"

definition sidecar_of :: "string \<Rightarrow> string" where
  "sidecar_of output = output @ ''.godl-progress.json''"

definition remove_downloaded_files :: "job \<Rightarrow> daemon \<Rightarrow> daemon" where
  "remove_downloaded_files job d =
     (case j_type job of
        JobURL \<Rightarrow> remove_files [j_output job, sidecar_of (j_output job)] d
      | JobTorrent \<Rightarrow>
          (case j_resolved job of [] \<Rightarrow> d | p # _ \<Rightarrow> remove_all (path_join [j_output job, p]) d)
      | _ \<Rightarrow> remove_files (j_resolved job) d)"

section \<open>Retrying, canceling, removing\<close>

definition reset_for_retry :: "job \<Rightarrow> daemon \<Rightarrow> job \<times> daemon" where
  "reset_for_retry job d =
     (let job = job\<lparr>j_bytes_done := 0, j_resume_offset := 0, j_error := [], j_status := StatusQueued\<rparr>
      in if j_type job = JobURL then (job, remove_files [sidecar_of (j_output job), j_output job] d)
         else if j_type job = JobWebDAV then (job\<lparr>j_resolved := []\<rparr>, remove_files (j_resolved job) d)
         else (job, d))"

text \<open>\<^verbatim>\<open>forgetTorBox\<close>: the request to TorBox, whose outcome nothing depends on.\<close>

definition forget_torbox :: "job \<Rightarrow> daemon \<Rightarrow> daemon" where
  "forget_torbox job d =
     (if \<not> opt_torbox (j_options job) \<or> o_torbox_id (j_options job) = 0 \<or> \<not> torbox_ready (d_settings d)
         \<or> s_torbox_keep (d_settings d) then d
      else d\<lparr>d_forgotten := d_forgotten d @ [o_torbox_id (j_options job)]\<rparr>)"

text \<open>\<^verbatim>\<open>retry\<close>: the fresh start, the check before it, and the handler.\<close>

definition start_afresh :: "string \<Rightarrow> job \<Rightarrow> daemon \<Rightarrow> job result \<times> daemon" where
  "start_afresh i job d =
     (let (job, d) = reset_for_retry job d;
          d = forget_torbox job d;
          job = job\<lparr>j_options := (j_options job)\<lparr>o_torbox_id := 0\<rparr>, j_retry_count := 0\<rparr>
      in case save_job job d of
           (Inl e, d) \<Rightarrow> (Inl e, d)
         | (Inr job, d) \<Rightarrow> on_store (get_job i) (snd (start job d)))"

definition retry_stopped :: "string \<Rightarrow> job result \<times> daemon \<Rightarrow> job result \<times> daemon" where
  "retry_stopped i p =
     (case p of
        (Inl e, d) \<Rightarrow> (Inl e, d)
      | (Inr job, d) \<Rightarrow>
          if j_status job = StatusActive \<or> j_status job = StatusQueued
          then (Inl (ErrMsg (''job '' @ i @ '' is already '' @ status_string (j_status job))), d)
          else start_afresh i job d)"

definition retry :: "string \<Rightarrow> daemon \<Rightarrow> job result \<times> daemon" where
  "retry i d =
     (case on_store (get_job i) d of
        (Inl _, d) \<Rightarrow> (Inl (not_found i), d)
      | (Inr job, d) \<Rightarrow>
          (case stop_seeding i d of
             (True, d) \<Rightarrow> retry_stopped i (on_store (get_job i) d)
           | (False, d) \<Rightarrow> retry_stopped i (Inr job, d)))"

definition cancel :: "worker_exit option \<Rightarrow> string \<Rightarrow> daemon \<Rightarrow> job result \<times> daemon" where
  "cancel ex i d =
     (case on_store (get_job i) d of
        (Inl _, d) \<Rightarrow> (Inl (not_found i), d)
      | (Inr job, d) \<Rightarrow>
          if j_status job = StatusSeeding then on_store (get_job i) (snd (stop_seeding i d))
          else let d = (if j_type job = JobTorrent then d\<lparr>d_tm := tm_cancel i (d_tm d)\<rparr> else d);
                   d = stop_worker i ex d
               in (case on_store (get_job i) d of
                   (Inl e, d) \<Rightarrow> (Inl e, d)
                 | (Inr job, d) \<Rightarrow> save_job (job\<lparr>j_status := StatusCanceled, j_error := []\<rparr>) d))"

definition remove :: "worker_exit option \<Rightarrow> string \<Rightarrow> bool \<Rightarrow> daemon \<Rightarrow> job result \<times> daemon" where
  "remove ex i purge d =
     (case on_store (get_job i) d of
        (Inl _, d) \<Rightarrow> (Inl (not_found i), d)
      | (Inr job, d) \<Rightarrow>
          let d = snd (stop_seeding i d);
              d = (if j_type job = JobTorrent then d\<lparr>d_tm := tm_cancel i (d_tm d)\<rparr> else d);
              d = stop_worker i ex d
          in (case on_store (get_job i) d of
              (Inl e, d) \<Rightarrow> (Inl e, d)
            | (Inr job, d) \<Rightarrow>
                let d = (if purge then remove_downloaded_files job d else d);
                    d = forget_torbox job d
                in (case on_store (delete_job i) d of
                    (Inl e, d) \<Rightarrow> (Inl e, d)
                  | (Inr _, d) \<Rightarrow> (Inr job, d))))"

section \<open>Timers and shutdown\<close>

text \<open>An armed timer of \<^verbatim>\<open>scheduleAutoRetry\<close> fires.\<close>

definition fire_timer :: "nat \<Rightarrow> daemon \<Rightarrow> daemon" where
  "fire_timer n d =
     (case map_of (d_armed d) n of
        None \<Rightarrow> d
      | Some (i, _) \<Rightarrow>
          let d = d\<lparr>d_armed := AList.delete n (d_armed d), d_timers := map_option (AList.delete i) (d_timers d)\<rparr>
          in (case on_store (get_job i) d of
              (Inl _, d) \<Rightarrow> d
            | (Inr job, d) \<Rightarrow>
                if j_status job \<noteq> StatusFailed then d
                else let (job, d) = reset_for_retry job d
                     in (case save_job job d of (Inl _, d) \<Rightarrow> d | (Inr job, d) \<Rightarrow> snd (start job d))))"

text \<open>\<^verbatim>\<open>Close\<close>, as far as the state goes: the timers the map holds are stopped, the seeders and
  the web interface too.\<close>

definition close_daemon :: "daemon \<Rightarrow> daemon" where
  "close_daemon d =
     (let held = (case d_timers d of None \<Rightarrow> [] | Some m \<Rightarrow> map snd m)
      in (stop_all_seeding (d\<lparr>d_armed := filter (\<lambda>(n, _). n \<notin> set held) (d_armed d), d_timers := None\<rparr>))\<lparr>d_web := None\<rparr>)"

end
