(* ===== verification/LifecycleProps.thy ===== *)
theory LifecycleProps
  imports Lifecycle
begin

text \<open>
  The operations of \<open>Lifecycle\<close> keep what \<open>QueueProps\<close> states: the bound on the slots for
  any store, and, for a store whose statements succeed, the agreement of rows and slots and the
  absence of a job that waits while a slot is free.
\<close>

section \<open>Frames\<close>

lemma synced_cong:
  "d_store d' = d_store d \<Longrightarrow> d_runtimes d' = d_runtimes d \<Longrightarrow> d_seeders d' = d_seeders d \<Longrightarrow>
   synced_but X d' = synced_but X d"
  by (simp add: synced_but_def get_runtime_def seeder_of_def)

lemma settled_cong:
  assumes "d_store d' = d_store d" "d_runtimes d' = d_runtimes d" "d_seeders d' = d_seeders d" "d_settings d' = d_settings d"
    "d_try_running d' = d_try_running d" "d_try_again d' = d_try_again d"
  shows "settled_but X d' = settled_but X d"
  using assms synced_cong [OF assms(1-3)]
  by (simp add: settled_but_def waiting_only_when_full_def slots_full_def)

lemma settled_aside [simp]:
  "settled_but X (d\<lparr>d_tm := m\<rparr>) = settled_but X d" "settled_but X (remove_files ps d) = settled_but X d"
  "settled_but X (remove_all p d) = settled_but X d" "settled_but X (remove_downloaded_files job d) = settled_but X d"
  "settled_but X (forget_torbox job d) = settled_but X d" "settled_but X (log_print l d) = settled_but X d"
  "settled_but X (d\<lparr>d_timers := tms\<rparr>) = settled_but X d"
  "settled_but X (d\<lparr>d_armed := arm\<rparr>) = settled_but X d" "settled_but X (d\<lparr>d_web := w\<rparr>) = settled_but X d"
  by (rule settled_cong; simp add: remove_files_def remove_all_def remove_downloaded_files_def forget_torbox_def
      log_print_def split: job_type.splits list.splits)+

lemma runtime_aside [simp]:
  "get_runtime i (d\<lparr>d_tm := m\<rparr>) = get_runtime i d" "get_runtime i (remove_files ps d) = get_runtime i d"
  "get_runtime i (remove_all p d) = get_runtime i d" "get_runtime i (remove_downloaded_files job d) = get_runtime i d"
  "get_runtime i (forget_torbox job d) = get_runtime i d" "get_runtime i (d\<lparr>d_seeders := sd\<rparr>) = get_runtime i d"
  "get_runtime i (d\<lparr>d_timers := tms\<rparr>) = get_runtime i d" "get_runtime i (d\<lparr>d_armed := arm\<rparr>) = get_runtime i d"
  by (simp_all add: get_runtime_def remove_files_def remove_all_def remove_downloaded_files_def forget_torbox_def
      split: job_type.splits list.splits)

lemma seeder_aside [simp]:
  "seeder_of i (d\<lparr>d_tm := m\<rparr>) = seeder_of i d" "seeder_of i (remove_files ps d) = seeder_of i d"
  "seeder_of i (forget_torbox job d) = seeder_of i d" "seeder_of i (remove_all p d) = seeder_of i d"
  "seeder_of i (remove_downloaded_files job d) = seeder_of i d"
  "seeder_of i (d\<lparr>d_timers := tms\<rparr>) = seeder_of i d" "seeder_of i (d\<lparr>d_armed := arm\<rparr>) = seeder_of i d"
  by (simp_all add: seeder_of_def remove_files_def remove_all_def remove_downloaded_files_def forget_torbox_def
      split: job_type.splits list.splits)

lemma jobs_aside [simp]:
  "d_store (remove_files ps d) = d_store d" "d_store (forget_torbox job d) = d_store d"
  by (simp_all add: remove_files_def forget_torbox_def)

lemma bounded_aside [simp]:
  "guarded n (d\<lparr>d_tm := m\<rparr>) = guarded n d" "guarded n (remove_files ps d) = guarded n d"
  "guarded n (remove_all p d) = guarded n d" "guarded n (remove_downloaded_files job d) = guarded n d"
  "guarded n (forget_torbox job d) = guarded n d" "guarded n (do_store f d) = guarded n d"
  "guarded n (d\<lparr>d_seeders := sd\<rparr>) = guarded n d" "guarded n (d\<lparr>d_timers := tms\<rparr>) = guarded n d"
  "guarded n (d\<lparr>d_armed := arm\<rparr>) = guarded n d" "guarded n (go_panic d) = guarded n d"
  by (rule bounded_cong; simp add: remove_files_def remove_all_def remove_downloaded_files_def forget_torbox_def
      go_panic_def do_store_eq split: job_type.splits list.splits)+

lemma bounded_on_store: "on_store f d = (r, d') \<Longrightarrow> guarded n d' = guarded n d"
  by (auto simp: on_store_eq)

lemma bounded_save: "save_job job d = (r, d') \<Longrightarrow> guarded n d' = guarded n d"
  by (auto simp: save_job_def bounded_on_store split: prod.splits sum.splits)

lemma bounded_stop_seeding: "guarded n (snd (stop_seeding i d)) = guarded n d"
  by (rule bounded_cong; simp add: stop_seeding_def do_store_eq split: option.splits)

section \<open>The cap, for every operation\<close>

text \<open>How an operation goes on after a call that may fail.\<close>

lemma bounded_case:
  assumes "guarded n (snd p)" and "\<And>e d'. guarded n d' \<Longrightarrow> guarded n (snd (g e d'))"
    and "\<And>v d'. guarded n d' \<Longrightarrow> guarded n (snd (h v d'))"
  shows "guarded n (snd (case p of (Inl e, d') \<Rightarrow> g e d' | (Inr v, d') \<Rightarrow> h v d'))"
  using assms by (cases p; cases "fst p") auto

lemma bounded_get [simp]: "guarded n (snd (on_store f d)) = guarded n d"
  by (cases "on_store f d") (simp add: bounded_on_store)

lemma bounded_save_snd [simp]: "guarded n (snd (save_job job d)) = guarded n d"
  by (cases "save_job job d") (simp add: bounded_save)

lemma bounded_stop [go_inv]: "guarded n d \<Longrightarrow> guarded n (stop_worker i ex d)"
  by (auto simp: stop_worker_def bounded_worker_end split: option.splits)

lemma bounded_create [go_inv]: "guarded n d \<Longrightarrow> guarded n (snd (create_job typ src out fmt c l sha opts d))"
  by (simp add: create_job_def Let_def) (auto intro!: bounded_case)

lemma bounded_pause_torrent: "guarded n d \<Longrightarrow> guarded n (snd (pause_torrent ex i d))"
  unfolding pause_torrent_def Let_def case_prod_beta [of _ "tm_progress i (d_tm d)"]
  by (cases "tm_progress i (d_tm d)") (auto intro!: bounded_case bounded_stop)

lemma bounded_pause [go_inv]: "guarded n d \<Longrightarrow> guarded n (snd (pause ex i d))"
  unfolding pause_def
  by (rule bounded_case) (auto simp: bounded_pause_torrent bounded_stop bounded_stop_seeding)

lemma bounded_resume [go_inv]: "guarded n d \<Longrightarrow> guarded n (snd (resume i d))"
  unfolding resume_def
  by (rule bounded_case) (auto intro!: bounded_case bounded_start)

lemma bounded_reset: "guarded n (snd (reset_for_retry job d)) = guarded n d"
  by (simp add: reset_for_retry_def Let_def)


lemma bounded_afresh: "guarded n d \<Longrightarrow> guarded n (snd (start_afresh i job d))"
  using bounded_reset [of n job d]
  by (cases "reset_for_retry job d") (auto simp: start_afresh_def Let_def intro!: bounded_case bounded_start)

lemma bounded_retry_stopped: "guarded n (snd p) \<Longrightarrow> guarded n (snd (retry_stopped i p))"
  unfolding retry_stopped_def by (rule bounded_case) (auto simp: bounded_afresh)

lemma bounded_retry [go_inv]: "guarded n d \<Longrightarrow> guarded n (snd (retry i d))"
  unfolding retry_def
proof (rule bounded_case, simp, simp)
  fix v d' assume "guarded n d'"
  then show "guarded n (snd (case stop_seeding i d' of
      (True, d) \<Rightarrow> retry_stopped i (on_store (get_job i) d) | (False, d) \<Rightarrow> retry_stopped i (Inr v, d)))"
    using bounded_stop_seeding [of n i d'] by (auto simp: bounded_retry_stopped split: prod.splits bool.splits)
qed

lemma bounded_cancel [go_inv]: "guarded n d \<Longrightarrow> guarded n (snd (cancel ex i d))"
  unfolding cancel_def Let_def
  by (rule bounded_case) (auto simp: bounded_stop_seeding intro!: bounded_case bounded_stop)

lemma bounded_remove [go_inv]: "guarded n d \<Longrightarrow> guarded n (snd (remove ex i purge d))"
  unfolding remove_def Let_def
  by (rule bounded_case) (auto simp: bounded_stop_seeding intro!: bounded_case bounded_stop)

lemma bounded_fire [go_inv]: "guarded n d \<Longrightarrow> guarded n (fire_timer k d)"
proof -
  assume b: "guarded n d"
  have rule: "guarded n (case p of (Inl e, d') \<Rightarrow> d' | (Inr v, d') \<Rightarrow> h v d')"
    if "guarded n (snd p)" "\<And>v d'. guarded n d' \<Longrightarrow> guarded n (h v d')" for p :: "job result \<times> daemon" and h
    using that by (cases p; cases "fst p") auto
  have inner: "guarded n (case reset_for_retry v d' of (job, d) \<Rightarrow>
      case save_job job d of (Inl e, d) \<Rightarrow> d | (Inr job, d) \<Rightarrow> snd (start job d))"
    if "guarded n d'" for v d'
    using that bounded_reset [of n v d'] by (cases "reset_for_retry v d'") (auto intro!: rule bounded_start)
  show ?thesis
    unfolding fire_timer_def Let_def using b inner
    by (auto split: option.splits intro!: rule)
qed

lemma bounded_start_seeding [go_inv]: "guarded n d \<Longrightarrow> guarded n (start_seeding i opts d)"
  by (auto simp: start_seeding_def Let_def on_store_def split: option.splits prod.splits sum.splits)

lemma bounded_seed_tick [go_inv]: "guarded n d \<Longrightarrow> guarded n (seed_tick i d)"
  by (auto simp: seed_tick_def Let_def split: option.splits)

lemma bounded_web: "guarded n d \<Longrightarrow> web_safe (d\<lparr>d_web := w\<rparr>) \<Longrightarrow> guarded n (d\<lparr>d_web := w\<rparr>)"
  by (simp add: guarded_def pool.bounded_def runtimes_ok_def held_slots_def slot_cap_def)

lemma bounded_close [go_inv]: "guarded n d \<Longrightarrow> guarded n (close_daemon d)"
  unfolding close_daemon_def stop_all_seeding_def Let_def
  by (rule bounded_web) (simp_all add: web_safe_def)

section \<open>Operations on a store whose statements succeed\<close>

lemma get_free:
  "st_faults (d_store d) = [] \<Longrightarrow>
   on_store (get_job i) d = (case row_of (jobs_of d) i of None \<Rightarrow> Inl ErrNoRows | Some j \<Rightarrow> Inr j, d)"
  by (simp add: on_store_def get_job_total)

definition saved :: "job \<Rightarrow> daemon \<Rightarrow> daemon" where
  "saved job d = d\<lparr>d_store := (d_store d)\<lparr>st_rows := modify_rows (j_id job) (row_written (d_store d) job) (jobs_of d)\<rparr>\<rparr>"

lemma save_free:
  "st_faults (d_store d) = [] \<Longrightarrow> marshal_ok (j_options job) \<Longrightarrow>
   save_job job d = (Inr (job\<lparr>j_updated := st_now (d_store d)\<rparr>), saved job d)"
  by (simp add: save_job_def on_store_def update_job_def exec_no_faults saved_def row_written_fun)

lemma saved_simps [simp]:
  "d_runtimes (saved job d) = d_runtimes d" "d_settings (saved job d) = d_settings d"
  "d_try_running (saved job d) = d_try_running d" "d_try_again (saved job d) = d_try_again d"
  "get_runtime i (saved job d) = get_runtime i d" "st_faults (d_store (saved job d)) = st_faults (d_store d)"
  "slots_full (saved job d) = slots_full d"
  by (simp_all add: saved_def get_runtime_def slots_full_def)

lemma modify_written:
  "modify_rows (j_id job) (row_written s job) rows =
   modify_rows (j_id job) (\<lambda>r. (row_written s job r)\<lparr>j_id := j_id r\<rparr>) rows"
  by (rule modify_rows_cong) (simp add: row_written_def)

lemma saved_row: "row_of (jobs_of (saved job d)) k =
    (if k = j_id job then map_option (\<lambda>r. (row_written (d_store d) job r)\<lparr>j_id := j_id r\<rparr>) (row_of (jobs_of d) k)
     else row_of (jobs_of d) k)"
  unfolding saved_def by (simp add: modify_written row_of_modify)

lemma saved_synced:
  assumes "synced_but X d" and "X \<subseteq> {j_id job}" and "get_runtime (j_id job) d = None"
    and "marshal_ok (j_options job)" and "j_status job \<noteq> StatusActive" and "seeder_of (j_id job) d = None"
  shows "synced (saved job d)"
proof (rule synced_rewrite [OF assms(1,2), where f = "\<lambda>r. (row_written (d_store d) job r)\<lparr>j_id := j_id r\<rparr>"])
  show "seeder_of (j_id job) (saved job d) = None \<or>
      j_status ((row_written (d_store d) job r)\<lparr>j_id := j_id r\<rparr>) = StatusSeeding" for r
    using assms(6) by (simp add: saved_def seeder_of_def)
  show "seeder_of (j_id job) (saved job d) = None" using assms(6) by (simp add: saved_def seeder_of_def)
qed (use assms in \<open>auto simp: synced_but_def saved_def modify_written get_runtime_def row_written_def seeder_of_def\<close>)

lemma saved_mem:
  assumes "k \<in> set (jobs_of (saved job d))"
  obtains "k \<in> set (jobs_of d)" "j_id k \<noteq> j_id job"
  | "j_id k = j_id job" "j_status k = j_status job"
  using assms by (auto simp: saved_def modify_rows_def row_written_def split: if_splits)

lemma saved_settled:
  assumes "settled_but X d" and "X \<subseteq> {j_id job}" and "get_runtime (j_id job) d = None"
    and "marshal_ok (j_options job)" and "j_status job \<noteq> StatusActive" and "j_status job \<noteq> StatusQueued"
    and "seeder_of (j_id job) d = None"
  shows "settled (saved job d)"
proof -
  have "waiting_only_when_full (saved job d)"
    using assms(1,6) by (auto simp: waiting_only_when_full_def settled_but_def elim!: saved_mem)
  then show ?thesis
    using saved_synced [OF settled_synced [OF assms(1)] assms(2-5,7)] assms(1) by (simp add: settled_but_def)
qed

lemma saved_start_settled:
  assumes "settled_but X d" and "X \<subseteq> {j_id job}" and "get_runtime (j_id job) d = None"
    and "marshal_ok (j_options job)" and "j_status job = StatusQueued" and "j_id job' = j_id job"
    and "row_of (jobs_of d) (j_id job) = Some r" and "seeder_of (j_id job) d = None"
  shows "settled (snd (start job' (saved job d)))"
proof (rule start_settles)
  show "synced (saved job d)"
    using saved_synced [OF settled_synced [OF assms(1)] assms(2-4) _ assms(8)] assms(5) by simp
  show "row_of (jobs_of (saved job d)) (j_id job') = Some ((row_written (d_store d) job r)\<lparr>j_id := j_id r\<rparr>)"
    using assms(6,7) by (simp add: saved_row)
  show "j_status ((row_written (d_store d) job r)\<lparr>j_id := j_id r\<rparr>) = StatusQueued"
    using assms(5) by (simp add: row_written_def)
  show "slots_full (saved job d)" if "k \<in> set (jobs_of (saved job d))" "j_id k \<noteq> j_id job'" "j_status k = StatusQueued" for k
    using that assms(1,6) by (auto simp: waiting_only_when_full_def settled_but_def elim!: saved_mem)
qed (use assms(1) in \<open>simp_all add: settled_but_def\<close>)

text \<open>The write of a status alone.\<close>

definition status_set :: "job_status \<Rightarrow> string \<Rightarrow> int \<Rightarrow> job \<Rightarrow> job" where
  "status_set st msg now j = j\<lparr>j_status := st, j_error := msg, j_updated := now\<rparr>"

definition status_saved :: "string \<Rightarrow> job_status \<Rightarrow> string \<Rightarrow> daemon \<Rightarrow> daemon" where
  "status_saved i st msg d =
     d\<lparr>d_store := (d_store d)\<lparr>st_rows := modify_rows i (status_set st msg (st_now (d_store d))) (jobs_of d)\<rparr>\<rparr>"

lemma status_free:
  "st_faults (d_store d) = [] \<Longrightarrow> on_store (update_status i st msg) d = (Inr (), status_saved i st msg d)"
proof -
  have "status_set st msg now = (\<lambda>j. j\<lparr>j_status := st, j_error := msg, j_updated := now\<rparr>)" for now
    by (rule ext) (simp add: status_set_def)
  then show "st_faults (d_store d) = [] \<Longrightarrow> on_store (update_status i st msg) d = (Inr (), status_saved i st msg d)"
    by (simp add: on_store_def update_status_def exec_no_faults status_saved_def)
qed

lemma do_status_free:
  "st_faults (d_store d) = [] \<Longrightarrow> do_store (update_status i st msg) d = status_saved i st msg d"
  by (simp add: do_store_def status_free)

lemma status_saved_simps [simp]:
  "d_runtimes (status_saved i st msg d) = d_runtimes d" "d_settings (status_saved i st msg d) = d_settings d"
  "d_try_running (status_saved i st msg d) = d_try_running d" "d_try_again (status_saved i st msg d) = d_try_again d"
  "get_runtime k (status_saved i st msg d) = get_runtime k d" "slots_full (status_saved i st msg d) = slots_full d"
  "seeder_of k (status_saved i st msg d) = seeder_of k d"
  "st_faults (d_store (status_saved i st msg d)) = st_faults (d_store d)"
  "row_of (jobs_of (status_saved i st msg d)) k =
     (if k = i then map_option (status_set st msg (st_now (d_store d))) (row_of (jobs_of d) i) else row_of (jobs_of d) k)"
  by (simp_all add: status_saved_def get_runtime_def slots_full_def seeder_of_def row_of_modify status_set_def)

lemma status_synced:
  assumes "synced_but X d" and "X \<subseteq> {i}" and "get_runtime i d = None" and "st \<noteq> StatusActive"
    and "seeder_of i d = None \<or> st = StatusSeeding \<and> row_of (jobs_of d) i \<noteq> None"
  shows "synced (status_saved i st msg d)"
  by (rule synced_rewrite [OF assms(1,2), where f = "status_set st msg (st_now (d_store d))"])
    (use assms row_marshal [OF assms(1), of i] in
      \<open>auto simp: synced_nofaults [OF assms(1)] status_saved_def get_runtime_def seeder_of_def status_set_def synced_but_def\<close>)

lemma modify_rows_mem:
  "k \<in> set (modify_rows i f rows) \<Longrightarrow> \<exists>k'\<in>set rows. k = (if j_id k' = i then f k' else k')"
  by (auto simp: modify_rows_def)

lemma status_settled:
  assumes "settled_but X d" and "X \<subseteq> {i}" and "get_runtime i d = None" and "st \<noteq> StatusActive" and "st \<noteq> StatusQueued"
    and "seeder_of i d = None \<or> st = StatusSeeding \<and> row_of (jobs_of d) i \<noteq> None"
  shows "settled (status_saved i st msg d)"
proof -
  have "waiting_only_when_full (status_saved i st msg d)"
  proof -
    have "slots_full d" if k: "k \<in> set (jobs_of (status_saved i st msg d))" and q: "j_status k = StatusQueued" for k
    proof -
      obtain k' where "k' \<in> set (jobs_of d)" "k = (if j_id k' = i then status_set st msg (st_now (d_store d)) k' else k')"
        using modify_rows_mem [of k i "status_set st msg (st_now (d_store d))" "jobs_of d"] k
        by (auto simp: status_saved_def)
      with q assms(1,5) show ?thesis
        by (auto simp: status_set_def waiting_only_when_full_def settled_but_def split: if_splits)
    qed
    then show ?thesis by (auto simp: waiting_only_when_full_def)
  qed
  then show ?thesis
    using status_synced [OF settled_synced [OF assms(1)] assms(2-4,6)] assms(1) by (simp add: settled_but_def)
qed

lemma fewer_seeders:
  assumes "settled_but X d" and "\<And>k sd. seeder_of k (d\<lparr>d_seeders := m\<rparr>) = Some sd \<Longrightarrow> seeder_of k d \<noteq> None"
  shows "settled_but X (d\<lparr>d_seeders := m\<rparr>)"
proof -
  have "synced_but X (d\<lparr>d_seeders := m\<rparr>)"
    using assms(2) settled_synced [OF assms(1)] unfolding synced_but_def get_runtime_def
    by (simp del: split_paired_All) blast
  with assms(1) show ?thesis
    by (simp add: settled_but_def waiting_only_when_full_def slots_full_def)
qed

lemma seeder_deleted [simp]:
  "seeder_of k (d\<lparr>d_seeders := map_option (AList.delete i) (d_seeders d)\<rparr>) = (if k = i then None else seeder_of k d)"
  by (simp add: seeder_of_def split: option.splits)

lemma seeding_row:
  "synced_but X d \<Longrightarrow> seeder_of i d \<noteq> None \<Longrightarrow> get_runtime i d = None"
  using running_row [of X d i] unfolding synced_but_def
  by (metis job_status.distinct(17) option.inject)


section \<open>No lost wake-up, for every operation\<close>

lemma worker_end_frame:
  "ids_of (worker_end i ex d) = ids_of d \<and> d_settings (worker_end i ex d) = d_settings d \<and>
   d_seeders (worker_end i ex d) = d_seeders d \<and> d_tm (worker_end i ex d) = d_tm d \<and>
   d_files (worker_end i ex d) = d_files d"
  using try_frame [of "drop_runtime i (worker_outcome i ex d)"]
  by (simp add: worker_end_def clear_runtime_def) (simp add: worker_outcome_def split: worker_exit.splits)

lemma seeder_of_cong: "d_seeders d' = d_seeders d \<Longrightarrow> seeder_of k d' = seeder_of k d"
  by (simp add: seeder_of_def)

lemma no_seeder: "synced_but X d \<Longrightarrow> row_of (jobs_of d) i = Some r \<Longrightarrow> j_status r \<noteq> StatusSeeding \<Longrightarrow> seeder_of i d = None"
  unfolding synced_but_def by (metis option.inject)

text \<open>After a stop that did not time out, the job holds no slot; its row is whatever the worker
  left, or active if the worker returned without a report.\<close>

lemma stop_worker_settled:
  assumes "settled d" and "get_runtime i d \<noteq> None \<Longrightarrow> ex \<noteq> None"
  obtains X where "X \<subseteq> {i}" "settled_but X (stop_worker i ex d)" "get_runtime i (stop_worker i ex d) = None"
    "d_seeders (stop_worker i ex d) = d_seeders d" "ids_of (stop_worker i ex d) = ids_of d"
proof (cases "get_runtime i d")
  case None
  then show thesis using assms(1) that [of "{}"] by (simp add: stop_worker_def)
next
  case (Some rt)
  then obtain x where x: "ex = Some x" using assms(2) by auto
  have "rt_cancel rt" using Some settled_synced [OF assms(1)] unfolding synced_but_def by blast
  with Some x have eq: "stop_worker i ex d = worker_end i x d" by (simp add: stop_worker_def)
  have "settled_but {i} (worker_end i x d)" using worker_end_exempt [OF assms(1)] Some by simp
  moreover from this have "get_runtime i (worker_end i x d) = None"
    using exempt_free settled_synced by blast
  ultimately show thesis using that [of "{i}"] worker_end_frame [of i x d] by (simp add: eq)
qed

lemma settled_nofaults: "settled_but X d \<Longrightarrow> st_faults (d_store d) = []"
  using settled_synced synced_nofaults by blast

lemma row_exists: "ids_of d' = ids_of d \<Longrightarrow> (row_of (jobs_of d') i = None) = (row_of (jobs_of d) i = None)"
  by (metis ids_of_def list.set_map row_of_None)

lemma on_get:
  assumes "settled_but X d"
  shows "on_store (get_job i) d = (case row_of (jobs_of d) i of None \<Rightarrow> Inl ErrNoRows | Some j \<Rightarrow> Inr j, d)"
  using get_free [OF settled_nofaults [OF assms]] .

lemma stop_seeding_settled:
  assumes "settled d" and "stop_seeding i d = (b, d')"
  shows "settled d' \<and> seeder_of i d' = None \<and> (\<forall>k. get_runtime k d' = get_runtime k d) \<and> ids_of d' = ids_of d \<and>
    (\<not> b \<longrightarrow> d' = d) \<and> (b \<longrightarrow> get_runtime i d = None \<and> (\<forall>r. row_of (jobs_of d') i = Some r \<longrightarrow> j_status r = StatusCompleted))"
proof (cases "seeder_of i d")
  case None
  with assms show ?thesis by (simp add: stop_seeding_def)
next
  case (Some sd)
  let ?m = "map_option (AList.delete i) (d_seeders d)"
  let ?d1 = "d\<lparr>d_seeders := ?m\<rparr>"
  have s1: "settled ?d1"
    by (rule fewer_seeders [OF assms(1)]) (auto split: if_splits)
  then have s2: "settled (?d1\<lparr>d_tm := tm_pause i (d_tm d)\<rparr>)" by (simp only: settled_aside)
  have free: "get_runtime i d = None"
    using seeding_row [OF settled_synced [OF assms(1)]] Some by simp
  have eq: "d' = status_saved i StatusCompleted [] (?d1\<lparr>d_tm := tm_pause i (d_tm d)\<rparr>)" "b"
    using assms(2) Some do_status_free [OF settled_nofaults [OF s2]] by (simp_all add: stop_seeding_def)
  have "settled d'"
    unfolding eq(1) by (rule status_settled [OF s2]) (use free in \<open>simp_all add: get_runtime_def seeder_of_def split: option.splits\<close>)
  moreover have "ids_of d' = ids_of d"
    by (simp add: eq(1) status_saved_def ids_of_def map_id_modify status_set_def)
  moreover have "seeder_of i d' = None" "get_runtime k d' = get_runtime k d" for k
    unfolding eq(1) status_saved_simps by (simp_all add: seeder_of_def get_runtime_def split: option.splits)
  moreover have "row_of (jobs_of d') i = Some r \<longrightarrow> j_status r = StatusCompleted" for r
    unfolding eq(1) status_saved_simps by (auto simp: status_set_def)
  ultimately show ?thesis using free eq(2) by blast
qed

lemma saved_after_stop:
  assumes "X \<subseteq> {i}" and "settled_but X d" and "get_runtime i d = None" and "seeder_of i d = None"
    and "row_of (jobs_of d) i = Some r" and "j_id job = i" and "j_options job = j_options r"
    and "j_status job \<noteq> StatusActive" and "j_status job \<noteq> StatusQueued"
  shows "settled (snd (save_job job d))"
proof -
  have m: "marshal_ok (j_options job)"
    using row_marshal [OF settled_synced [OF assms(2)] assms(5)] assms(7) by simp
  then show ?thesis
    using saved_settled [OF assms(2) _ _ m assms(8,9)] assms by (simp add: save_free [OF settled_nofaults [OF assms(2)]])
qed

lemma stop_save_settled:
  assumes "settled d" and "get_runtime i d \<noteq> None \<Longrightarrow> ex \<noteq> None" and "seeder_of i d = None"
    and "\<And>r. j_id (f r) = j_id r \<and> j_options (f r) = j_options r \<and> j_status (f r) \<noteq> StatusActive \<and> j_status (f r) \<noteq> StatusQueued"
    and "row_of (jobs_of d) i \<noteq> None"
  shows "settled (snd (case on_store (get_job i) (stop_worker i ex d) of
      (Inl e, d) \<Rightarrow> (Inl e, d) | (Inr job, d) \<Rightarrow> save_job (f job) d))"
proof -
  obtain X where X: "X \<subseteq> {i}" "settled_but X (stop_worker i ex d)" "get_runtime i (stop_worker i ex d) = None"
    "d_seeders (stop_worker i ex d) = d_seeders d" "ids_of (stop_worker i ex d) = ids_of d"
    using stop_worker_settled [OF assms(1,2)] .
  obtain r where r: "row_of (jobs_of (stop_worker i ex d)) i = Some r"
    using row_exists [OF X(5), of i] assms(5) by auto
  have "seeder_of i (stop_worker i ex d) = None" using assms(3) seeder_of_cong [OF X(4)] by simp
  then have "settled (snd (save_job (f r) (stop_worker i ex d)))"
    using saved_after_stop [OF X(1-3) _ r] assms(4) [of r] row_of_mem [OF r] by simp
  then show ?thesis by (simp add: on_get [OF X(2)] r)
qed

lemma pause_settled [go_inv]:
  assumes "settled d" and "get_runtime i d \<noteq> None \<Longrightarrow> ex \<noteq> None"
    and "ex = Some Returned \<Longrightarrow> \<exists>r. row_of (jobs_of d) i = Some r \<and> j_type r = JobTorrent"
  shows "settled (snd (pause ex i d))"
proof (cases "row_of (jobs_of d) i")
  case None
  with assms show ?thesis by (simp add: pause_def on_get [OF assms(1)])
next
  case (Some job)
  note get = on_get [OF assms(1), of i, unfolded Some, simplified]
  have seeding: "settled (snd (stop_seeding i d))"
    using stop_seeding_settled [OF assms(1)] by (cases "stop_seeding i d") auto
  note free = no_seeder [OF settled_synced [OF assms(1)] Some]
  have torrent: "settled (snd (pause_torrent ex i d))" if "j_status job \<noteq> StatusSeeding"
  proof (cases "tm_progress i (d_tm d)")
    case (fields pre tot have_pre)
    let ?d = "d\<lparr>d_tm := tm_pause i (d_tm d)\<rparr>"
    let ?f = "\<lambda>job. (if have_pre
        then job\<lparr>j_bytes_done := pre, j_bytes_total := (if 0 < tot then tot else j_bytes_total job)\<rparr>
        else job)\<lparr>j_status := StatusPaused, j_error := []\<rparr>"
    have "settled (snd (case on_store (get_job i) (stop_worker i ex ?d) of
      (Inl e, d) \<Rightarrow> (Inl e, d) | (Inr job, d) \<Rightarrow> save_job (?f job) d))"
      by (rule stop_save_settled)
        (use assms Some free that in \<open>simp_all add: get_runtime_def seeder_of_def\<close>)
    then show ?thesis unfolding pause_torrent_def fields Let_def by simp
  qed
  show ?thesis
  proof (cases "get_runtime i d = None")
    case True
    have "settled (snd (save_job (job\<lparr>j_status := StatusPaused\<rparr>) d))" if "j_status job \<noteq> StatusSeeding"
      by (rule saved_after_stop [of "{}", OF _ assms(1) True _ Some])
        (use row_of_mem [OF Some] free that in simp_all)
    with True seeding torrent assms(1) show ?thesis
      by (auto simp: pause_def get on_get [OF seeding] split: option.splits)
  next
    case False
    with assms(2) obtain x where x: "ex = Some x" by auto
    obtain rt where rt: "get_runtime i d = Some rt" using False by auto
    then have "rt_cancel rt" using settled_synced [OF assms(1)] unfolding synced_but_def by blast
    then have w: "stop_worker i ex d = worker_end i x d" using rt x by (simp add: stop_worker_def)
    show ?thesis
    proof (cases "j_type job = JobTorrent")
      case True
      with False seeding torrent assms(1) show ?thesis
        by (auto simp: pause_def get on_get [OF seeding] split: option.splits)
    next
      case not_torrent: False
      with assms(3) Some x have "x \<noteq> Returned" by auto
      then have "settled (worker_end i x d)" using worker_end_settles [OF assms(1) False] by simp
      with False not_torrent seeding assms(1) w show ?thesis
        by (auto simp: pause_def get on_get [OF seeding] on_get [of "{}" "worker_end i x d"] split: option.splits)
    qed
  qed
qed

lemma resume_settled [go_inv]:
  assumes "settled d"
  shows "settled (snd (resume i d))"
proof (cases "row_of (jobs_of d) i")
  case None
  with assms show ?thesis by (simp add: resume_def on_get [OF assms])
next
  case (Some job)
  note get = on_get [OF assms, of i, unfolded Some, simplified]
  show ?thesis
  proof (cases "j_status job = StatusPaused \<or> j_status job = StatusFailed")
    case False
    with assms show ?thesis by (auto simp: resume_def get)
  next
    case True
    let ?job = "job\<lparr>j_status := StatusQueued, j_error := []\<rparr>"
    have id: "j_id job = i" using row_of_mem [OF Some] by simp
    have m: "marshal_ok (j_options ?job)" using row_marshal [OF settled_synced [OF assms] Some] by simp
    have none: "get_runtime i d = None"
      using running_row [OF settled_synced [OF assms], of i] Some True by (cases "get_runtime i d") auto
    have seed: "seeder_of i d = None" using no_seeder [OF settled_synced [OF assms] Some] True by auto
    have "settled (snd (start (?job\<lparr>j_updated := st_now (d_store d)\<rparr>) (saved ?job d)))"
      by (rule saved_start_settled [OF assms, of _ _ job]) (use id m none seed Some in simp_all)
    then show ?thesis
      using True by (auto simp: resume_def get save_free [OF settled_nofaults [OF assms] m] on_get)
  qed
qed

lemma cancel_settled [go_inv]:
  assumes "settled d" and "get_runtime i d \<noteq> None \<Longrightarrow> ex \<noteq> None"
  shows "settled (snd (cancel ex i d))"
proof (cases "row_of (jobs_of d) i")
  case None
  with assms show ?thesis by (simp add: cancel_def on_get [OF assms(1)])
next
  case (Some job)
  note get = on_get [OF assms(1), of i, unfolded Some, simplified]
  have seeding: "settled (snd (stop_seeding i d))"
    using stop_seeding_settled [OF assms(1)] by (cases "stop_seeding i d") auto
  show ?thesis
  proof (cases "j_status job = StatusSeeding")
    case True
    with seeding show ?thesis by (simp add: cancel_def get on_get [OF seeding])
  next
    case False
    let ?d = "if j_type job = JobTorrent then d\<lparr>d_tm := tm_cancel i (d_tm d)\<rparr> else d"
    have d: "settled ?d" "get_runtime i ?d = get_runtime i d" "seeder_of i ?d = seeder_of i d" "jobs_of ?d = jobs_of d"
      using assms(1) by (simp_all add: get_runtime_def seeder_of_def)
    have "settled (snd (case on_store (get_job i) (stop_worker i ex ?d) of
      (Inl e, d) \<Rightarrow> (Inl e, d) | (Inr job, d) \<Rightarrow> save_job (job\<lparr>j_status := StatusCanceled, j_error := []\<rparr>) d))"
      by (rule stop_save_settled [OF d(1)])
        (use assms(2) Some d no_seeder [OF settled_synced [OF assms(1)] Some False] in simp_all)
    then show ?thesis using False by (simp add: cancel_def get)
  qed
qed

text \<open>A deleted row takes nothing with it.\<close>

definition deleted :: "string \<Rightarrow> daemon \<Rightarrow> daemon" where
  "deleted i d = d\<lparr>d_store := (d_store d)\<lparr>st_rows := filter (\<lambda>j. j_id j \<noteq> i) (jobs_of d)\<rparr>\<rparr>"

lemma delete_free: "st_faults (d_store d) = [] \<Longrightarrow> on_store (delete_job i) d = (Inr (), deleted i d)"
  by (simp add: on_store_def delete_job_def exec_no_faults deleted_def)

lemma deleted_settled:
  assumes "settled_but X d" and "X \<subseteq> {i}" and "get_runtime i d = None" and "seeder_of i d = None"
  shows "settled (deleted i d)"
proof -
  note s = settled_synced [OF assms(1)]
  have "(get_runtime k (deleted i d) \<noteq> None) =
      (\<exists>j. row_of (jobs_of (deleted i d)) k = Some j \<and> j_status j = StatusActive)" for k
  proof (cases "k = i")
    case True
    with assms(3) show ?thesis by (simp add: deleted_def get_runtime_def row_of_filter)
  next
    case False
    with assms(2) have "k \<notin> X" by auto
    with s False show ?thesis by (simp add: deleted_def get_runtime_def row_of_filter synced_but_def)
  qed
  then have "synced (deleted i d)"
    using s assms(4) unfolding synced_but_def
    by (auto simp: deleted_def row_of_filter get_runtime_def seeder_of_def unique_ids_filter split: if_splits)
  with assms(1) show ?thesis
    by (auto simp: settled_but_def waiting_only_when_full_def slots_full_def deleted_def)
qed

lemma remove_settled [go_inv]:
  assumes "settled d" and "get_runtime i d \<noteq> None \<Longrightarrow> ex \<noteq> None"
  shows "settled (snd (remove ex i purge d))"
proof (cases "row_of (jobs_of d) i")
  case None
  with assms show ?thesis by (simp add: remove_def on_get [OF assms(1)])
next
  case (Some job)
  note get = on_get [OF assms(1), of i, unfolded Some, simplified]
  obtain b d1 where sd: "stop_seeding i d = (b, d1)" by (cases "stop_seeding i d")
  note s1 = stop_seeding_settled [OF assms(1) sd]
  define t where "t = (if j_type job = JobTorrent then d1\<lparr>d_tm := tm_cancel i (d_tm d1)\<rparr> else d1)"
  have t: "settled t" "get_runtime i t = get_runtime i d" "ids_of t = ids_of d" "seeder_of i t = None"
    using s1 by (simp_all add: t_def ids_of_def)
  define e where "e = stop_worker i ex t"
  obtain X where X: "X \<subseteq> {i}" "settled_but X e" "get_runtime i e = None" "ids_of e = ids_of t"
    "d_seeders e = d_seeders t"
    using stop_worker_settled [OF t(1)] assms(2) t(2) unfolding e_def by metis
  obtain r where r: "row_of (jobs_of e) i = Some r"
    using row_exists [of e d i] X(4) t(3) Some by auto
  define e2 where "e2 = forget_torbox r (if purge then remove_downloaded_files r e else e)"
  have e2: "settled_but X e2" "get_runtime i e2 = None" "seeder_of i e2 = None"
    using X t(4) seeder_of_cong [OF X(5)] by (simp_all add: e2_def)
  have "remove ex i purge d = (case on_store (get_job i) e of
       (Inl x, d) \<Rightarrow> (Inl x, d)
     | (Inr job, d) \<Rightarrow> let d = (if purge then remove_downloaded_files job d else d); d = forget_torbox job d
         in (case on_store (delete_job i) d of (Inl x, d) \<Rightarrow> (Inl x, d) | (Inr _, d) \<Rightarrow> (Inr job, d)))"
    by (simp add: remove_def get sd Let_def e_def t_def cong: if_cong)
  also have "\<dots> = (Inr r, deleted i e2)"
    using delete_free [OF settled_nofaults [OF e2(1)], of i] unfolding on_get [OF X(2)] r Let_def by (simp add: e2_def)
  finally show ?thesis using deleted_settled [OF e2(1) X(1) e2(2,3)] by simp
qed


lemma reset_facts:
  assumes "reset_for_retry job d = (job', d')"
  shows "j_id job' = j_id job \<and> j_options job' = j_options job \<and> j_status job' = StatusQueued \<and>
    settled_but X d' = settled_but X d \<and> jobs_of d' = jobs_of d \<and> st_faults (d_store d') = st_faults (d_store d) \<and>
    get_runtime i d' = get_runtime i d \<and> seeder_of i d' = seeder_of i d"
  using assms by (auto simp: reset_for_retry_def Let_def split: if_splits)

lemma marshal_torbox_id [simp]: "marshal_ok (opts\<lparr>o_torbox_id := n\<rparr>) = marshal_ok opts"
  by (simp add: marshal_ok_def)

lemma save_start_settled:
  assumes "settled d" and "row_of (jobs_of d) i = Some r" and "get_runtime i d = None" and "seeder_of i d = None"
    and "j_id job = i" and "marshal_ok (j_options job)" and "j_status job = StatusQueued"
  shows "\<exists>job' d'. save_job job d = (Inr job', d') \<and> settled (snd (start job' d'))"
proof -
  have "settled (snd (start (job\<lparr>j_updated := st_now (d_store d)\<rparr>) (saved job d)))"
    by (rule saved_start_settled [OF assms(1), of _ _ r]) (use assms in simp_all)
  then show ?thesis using save_free [OF settled_nofaults [OF assms(1)] assms(6)] by blast
qed

lemma start_afresh_settled:
  assumes "settled d" and "row_of (jobs_of d) i = Some job" and "get_runtime i d = None" and "seeder_of i d = None"
  shows "settled (snd (start_afresh i job d))"
proof (cases "reset_for_retry job d")
  case (Pair job1 d1)
  note f = reset_facts [OF Pair, of "{}" i]
  let ?d2 = "forget_torbox job1 d1"
  let ?job = "job1\<lparr>j_options := (j_options job1)\<lparr>o_torbox_id := 0\<rparr>, j_retry_count := 0\<rparr>"
  have "\<exists>job' d'. save_job ?job ?d2 = (Inr job', d') \<and> settled (snd (start job' d'))"
    by (rule save_start_settled [of _ i job])
      (use f assms row_of_mem [OF assms(2)] row_marshal [OF settled_synced [OF assms(1)] assms(2)] in simp_all)
  then obtain job' d' where s: "save_job ?job ?d2 = (Inr job', d')" "settled (snd (start job' d'))" by blast
  then show ?thesis by (simp add: start_afresh_def Pair Let_def on_get [OF s(2)])
qed

lemma not_running:
  "synced_but X d \<Longrightarrow> row_of (jobs_of d) i = Some r \<Longrightarrow> j_status r \<noteq> StatusActive \<Longrightarrow> get_runtime i d = None"
  using running_row [of X d i] by (cases "get_runtime i d") auto

lemma retry_stopped_settled:
  assumes "settled d" and "seeder_of i d = None"
  shows "settled (snd (retry_stopped i (on_store (get_job i) d)))"
proof (cases "row_of (jobs_of d) i")
  case None
  with assms show ?thesis by (simp add: retry_stopped_def on_get [OF assms(1)])
next
  case (Some job)
  show ?thesis
  proof (cases "j_status job = StatusActive \<or> j_status job = StatusQueued")
    case True
    with Some assms show ?thesis by (simp add: retry_stopped_def on_get [OF assms(1)])
  next
    case False
    then have "settled (snd (start_afresh i job d))"
      using start_afresh_settled [OF assms(1) Some _ assms(2)] not_running [OF settled_synced [OF assms(1)] Some] by simp
    with Some False show ?thesis by (auto simp: retry_stopped_def on_get [OF assms(1)])
  qed
qed

lemma retry_settled [go_inv]:
  assumes "settled d"
  shows "settled (snd (retry i d))"
proof (cases "row_of (jobs_of d) i")
  case None
  with assms show ?thesis by (simp add: retry_def on_get [OF assms])
next
  case (Some job)
  obtain b d1 where sd: "stop_seeding i d = (b, d1)" by (cases "stop_seeding i d")
  note s1 = stop_seeding_settled [OF assms sd]
  have "settled (snd (retry_stopped i (on_store (get_job i) d1)))"
    using retry_stopped_settled s1 by blast
  moreover have "\<not> b \<Longrightarrow> on_store (get_job i) d1 = (Inr job, d1)"
    using s1 Some on_get [OF assms, of i] by simp
  ultimately show ?thesis
    using Some sd by (cases b) (simp_all add: retry_def on_get [OF assms])
qed

lemma fire_settled [go_inv]:
  assumes "settled d"
  shows "settled (fire_timer n d)"
proof (cases "map_of (d_armed d) n")
  case None
  with assms show ?thesis by (simp add: fire_timer_def)
next
  case (Some it)
  obtain i t where it: "it = (i, t)" by (cases it)
  define e where "e = d\<lparr>d_armed := AList.delete n (d_armed d), d_timers := map_option (AList.delete i) (d_timers d)\<rparr>"
  have e: "settled e" using assms by (simp add: e_def)
  have eq: "fire_timer n d = (case on_store (get_job i) e of (Inl _, d) \<Rightarrow> d
     | (Inr job, d) \<Rightarrow> if j_status job \<noteq> StatusFailed then d
         else let (job, d) = reset_for_retry job d
              in (case save_job job d of (Inl _, d) \<Rightarrow> d | (Inr job, d) \<Rightarrow> snd (start job d)))"
    unfolding fire_timer_def Let_def e_def by (simp add: Some it)
  show ?thesis
  proof (cases "row_of (jobs_of e) i")
    case None
    then show ?thesis using e by (simp add: eq on_get [OF e])
  next
    case (Some job)
    show ?thesis
    proof (cases "j_status job = StatusFailed")
      case False
      with Some e show ?thesis by (simp add: eq on_get [OF e])
    next
      case True
      obtain job1 d1 where r: "reset_for_retry job e = (job1, d1)" by (cases "reset_for_retry job e")
      note f = reset_facts [OF r, of "{}" i]
      have "\<exists>job' d'. save_job job1 d1 = (Inr job', d') \<and> settled (snd (start job' d'))"
        by (rule save_start_settled [of _ i job])
          (use f e Some True row_of_mem [OF Some] row_marshal [OF settled_synced [OF e] Some]
             not_running [OF settled_synced [OF e] Some] no_seeder [OF settled_synced [OF e] Some] in simp_all)
      with Some True r show ?thesis by (auto simp: eq on_get [OF e])
    qed
  qed
qed

lemma seed_tick_settled [go_inv]:
  assumes "settled d"
  shows "settled (seed_tick i d)"
proof (cases "seeder_of i d")
  case None
  with assms show ?thesis by (simp add: seed_tick_def)
next
  case (Some sd)
  let ?sd = "seed_stats (d_now d) (tm_uploaded i (d_tm d)) sd"
  show ?thesis
  proof (cases "seed_done (d_now d) ?sd")
    case True
    have "seed_tick i d = snd (stop_seeding i d)"
      using True Some by (simp add: seed_tick_def stop_seeding_def Let_def)
    then show ?thesis using stop_seeding_settled [OF assms] by (cases "stop_seeding i d") auto
  next
    case False
    have "settled (d\<lparr>d_seeders := map_option (AList.update i ?sd) (d_seeders d)\<rparr>)"
      by (rule fewer_seeders [OF assms]) (use Some in \<open>auto simp: seeder_of_def split: option.splits if_splits\<close>)
    with False Some show ?thesis by (simp add: seed_tick_def Let_def)
  qed
qed

lemma close_settled [go_inv]: "settled d \<Longrightarrow> settled (close_daemon d)"
proof -
  assume "settled d"
  then have "settled ((d\<lparr>d_armed := filter (\<lambda>(n, _). n \<notin> set (case d_timers d of None \<Rightarrow> [] | Some m \<Rightarrow> map snd m)) (d_armed d),
      d_timers := None\<rparr>))" by simp
  from fewer_seeders [OF this, of None] show ?thesis
    by (simp add: close_daemon_def stop_all_seeding_def Let_def seeder_of_def)
qed

text \<open>A new job, and its start.\<close>

lemma new_id_nofaults: "st_faults s = [] \<Longrightarrow> new_id_tries k s = (r, t) \<Longrightarrow> st_faults t = []"
proof (induction k arbitrary: s)
  case (Suc k)
  from Suc.prems Suc.IH [of "s\<lparr>st_rand := tl (st_rand s)\<rparr>"] show ?case
    by (auto simp: get_job_total split: list.splits if_splits option.splits)
qed simp

lemma created_settled:
  assumes "settled d" and "create_job typ src out fmt c l sha opts d = (Inr j, d')"
  shows "settled (snd (start j d'))"
proof -
  note s = settled_synced [OF assms(1)]
  obtain n s1 where new0: "new_id (d_store d) = (n, s1)" by (cases "new_id (d_store d)")
  then have on: "on_store new_id d = (n, d\<lparr>d_store := s1\<rparr>)" by (simp add: on_store_def)
  from assms(2) on obtain i where i: "n = Inr i"
    by (cases n) (auto simp: create_job_def Let_def split: if_splits)
  define j0 where "j0 = \<lparr>j_id = i, j_type = typ, j_source = src, j_output = out, j_format = fmt,
      j_concurrency = (if c < 1 then 1 else c), j_limit_rate = default_rate (d_settings d) l, j_sha256 = sha,
      j_status = StatusQueued, j_bytes_done = 0, j_bytes_total = 0, j_resume_offset = 0,
      j_info_hash = [], j_resolved = [], j_error = [], j_retry_count = 0, j_options = opts, j_created = 0, j_updated = 0\<rparr>"
  have j0: "j_id j0 = i" "j_status j0 = StatusQueued" by (simp_all add: j0_def)
  have new: "new_id (d_store d) = (Inr i, s1)" using new0 i by simp
  have "on_store (create_job_row j0) (d\<lparr>d_store := s1\<rparr>) = (Inr j, d')"
    using assms(2) on i unfolding create_job_def Let_def by (simp add: j0_def split: if_splits)
  then have cr: "create_job_row j0 s1 = (Inr j, d_store d')" "d' = d\<lparr>d_store := d_store d'\<rparr>"
    by (auto simp: on_store_eq)
  have fresh: "row_of (jobs_of d) i = None" "st_rows s1 = jobs_of d" "st_faults s1 = []"
    using new_id_tries_fresh [OF new [unfolded new_id_def]] new_id_nofaults [OF synced_nofaults [OF s] new [unfolded new_id_def]]
    by simp_all
  have m: "marshal_ok (j_options j0)" using cr(1) by (auto simp: create_job_row_def Let_def split: if_splits)
  then have j: "j = j0\<lparr>j_created := st_now s1, j_updated := st_now s1\<rparr>" and d': "d_store d' = s1\<lparr>st_rows := jobs_of d @ [j]\<rparr>"
    using cr(1) fresh j0 by (auto simp: create_job_row_def exec_no_faults Let_def split: if_splits)
  have jid: "j_id j = i" "j_status j = StatusQueued" "marshal_ok (j_options j)" using j j0 m by simp_all
  have same: "get_runtime k d' = get_runtime k d" "seeder_of k d' = seeder_of k d" for k
    by (subst cr(2), simp add: get_runtime_def seeder_of_def)+
  have flags: "d_try_running d' = d_try_running d" "d_try_again d' = d_try_again d" "slots_full d' = slots_full d"
    "d_runtimes d' = d_runtimes d"
    by (subst cr(2), simp add: slots_full_def)+
  have none: "get_runtime i d = None" "seeder_of i d = None"
    using s fresh(1) unfolding synced_but_def by (metis empty_iff option.distinct(1))+
  have at: "row_of (jobs_of d') k = (if k = i then Some j else row_of (jobs_of d) k)" for k
    using fresh(1) jid(1) by (auto simp: d' row_of_append split: option.splits)
  have "synced d'"
    unfolding synced_but_def
  proof (intro conjI)
    show "unique_ids (jobs_of d')" using s fresh(1) jid(1) by (simp add: d' synced_but_def unique_ids_snoc)
    show "\<forall>k. k \<notin> {} \<longrightarrow> (get_runtime k d' \<noteq> None) = (\<exists>j. row_of (jobs_of d') k = Some j \<and> j_status j = StatusActive)"
      using s none fresh(1) jid(2) by (simp add: at same synced_but_def)
    show "\<forall>k. seeder_of k d' \<noteq> None \<longrightarrow> (\<exists>j. row_of (jobs_of d') k = Some j \<and> j_status j = StatusSeeding)"
      using s none by (auto simp: at same synced_but_def)
  qed (use s fresh jid flags in \<open>auto simp: d' same synced_but_def\<close>)
  moreover have "slots_full d'" if "k \<in> set (jobs_of d')" "j_id k \<noteq> j_id j" "j_status k = StatusQueued" for k
    using that assms(1) flags(3) by (auto simp: d' settled_but_def waiting_only_when_full_def)
  ultimately show ?thesis
    using assms(1) flags by (intro start_settles [of d' j j]) (simp_all add: settled_but_def at jid)
qed


section \<open>Writes that leave every status alone\<close>

lemma same_status_settled:
  assumes "settled_but X d" and rows: "jobs_of d' = modify_rows i f (jobs_of d)" and "st_faults (d_store d') = []"
    and f: "\<And>r. j_id (f r) = j_id r" "\<And>r. row_of (jobs_of d) i = Some r \<Longrightarrow> j_status (f r) = j_status r \<and> marshal_ok (j_options (f r))"
    and same: "\<And>k. (get_runtime k d' = None) = (get_runtime k d = None)"
      "\<And>k rt. get_runtime k d' = Some rt \<Longrightarrow> rt_cancel rt" "\<And>k. seeder_of k d' = seeder_of k d" "wf_map (d_runtimes d')"
      "slots_full d' = slots_full d" "d_try_running d' = d_try_running d" "d_try_again d' = d_try_again d"
  shows "settled_but X d'"
proof -
  note s = settled_synced [OF assms(1)]
  have at: "row_of (jobs_of d') k = (if k = i then map_option f (row_of (jobs_of d) i) else row_of (jobs_of d) k)" for k
    using rows f(1) by (simp add: row_of_modify)
  have mem: "\<exists>r\<in>set (jobs_of d). j_id j = j_id r \<and> j_status j = j_status r \<and> marshal_ok (j_options j)"
    if j: "j \<in> set (jobs_of d')" for j
  proof -
    obtain r where r: "r \<in> set (jobs_of d)" "j = (if j_id r = i then f r else r)"
      using modify_rows_mem [of j i f "jobs_of d"] j rows by auto
    with f synced_row [OF s r(1)] row_marshal [OF s synced_row [OF s r(1)]] show ?thesis by auto
  qed
  have st: "(\<exists>j. row_of (jobs_of d') k = Some j \<and> j_status j = st) = (\<exists>j. row_of (jobs_of d) k = Some j \<and> j_status j = st)" for k st
    using at f(2) by auto
  have "synced_but X d'"
    unfolding synced_but_def
  proof (intro conjI)
    show "unique_ids (jobs_of d')" using s rows f(1) by (simp add: synced_but_def unique_ids_modify)
    show "\<forall>j\<in>set (jobs_of d'). marshal_ok (j_options j)" using mem by blast
    show "\<forall>k. k \<notin> X \<longrightarrow> (get_runtime k d' \<noteq> None) = (\<exists>j. row_of (jobs_of d') k = Some j \<and> j_status j = StatusActive)"
      using s unfolding st by (simp add: synced_but_def same(1))
    show "\<forall>k\<in>X. get_runtime k d' = None \<and> (\<forall>j. row_of (jobs_of d') k = Some j \<longrightarrow> j_status j \<noteq> StatusQueued)"
    proof
      fix k assume "k \<in> X"
      then have k: "get_runtime k d = None" "\<nexists>j. row_of (jobs_of d) k = Some j \<and> j_status j = StatusQueued"
        using s by (auto simp: synced_but_def)
      then have "\<nexists>j. row_of (jobs_of d') k = Some j \<and> j_status j = StatusQueued" using st by blast
      with k(1) same(1) show "get_runtime k d' = None \<and> (\<forall>j. row_of (jobs_of d') k = Some j \<longrightarrow> j_status j \<noteq> StatusQueued)"
        by blast
    qed
    show "\<forall>k. seeder_of k d' \<noteq> None \<longrightarrow> (\<exists>j. row_of (jobs_of d') k = Some j \<and> j_status j = StatusSeeding)"
      using s unfolding st by (simp add: synced_but_def same(3))
  qed (use assms(3) same(2,4) in auto)
  moreover have "waiting_only_when_full d'"
    using assms(1) mem same(5) unfolding waiting_only_when_full_def settled_but_def by (metis (no_types, lifting))
  ultimately show ?thesis using assms(1) same(6,7) by (simp add: settled_but_def)
qed

lemma seeder_saved: "seeder_of k (saved job d) = seeder_of k d"
  by (simp add: saved_def seeder_of_def)

lemma saved_same_settled:
  assumes "settled_but X d" and "row_of (jobs_of d) (j_id job) = Some r" and "j_status job = j_status r"
    and "marshal_ok (j_options job)"
  shows "settled_but X (saved job d)"
proof (rule same_status_settled [OF assms(1), where f = "\<lambda>r. (row_written (d_store d) job r)\<lparr>j_id := j_id r\<rparr>"])
  show "jobs_of (saved job d) = modify_rows (j_id job) (\<lambda>r. (row_written (d_store d) job r)\<lparr>j_id := j_id r\<rparr>) (jobs_of d)"
    by (simp add: saved_def modify_written)
  show "rt_cancel rt" if "get_runtime k (saved job d) = Some rt" for k rt
    using that settled_synced [OF assms(1)] unfolding synced_but_def by auto
  show "wf_map (d_runtimes (saved job d))" using settled_synced [OF assms(1)] by (simp add: synced_but_def)
qed (use assms settled_nofaults [OF assms(1)] in \<open>auto simp: row_written_def seeder_saved\<close>)

end
