(* ===== verification/Server.thy ===== *)
theory Server
  imports LifecycleProps
begin

text \<open>
  \<^verbatim>\<open>internal/daemon/settings.go\<close>, the state of \<^verbatim>\<open>webui.go\<close>, the start-up scan of
  \<^verbatim>\<open>server.go\<close>, and the commands of \<^verbatim>\<open>dispatch.go\<close>. What the network decides is an argument:
  (error texts end where the code's leave ASCII): \<open>listen\<close>, whether the web interface can be started with a key (its token, its port, its
  certificate), and \<open>rejected\<close>, whether TorBox rejects an API key.
\<close>

section \<open>The web interface\<close>

definition web_key_of :: "settings \<Rightarrow> web_key" where
  "web_key_of cfg =
     \<lparr>wk_port = (if s_webui_port cfg = 0 then default_webui_port else s_webui_port cfg),
      wk_network = s_webui_network cfg,
      wk_https = (s_webui_network cfg \<and> s_webui_https cfg),
      wk_username = (if s_webui_network cfg then s_webui_username cfg else []),
      wk_password = (if s_webui_network cfg then s_webui_password cfg else [])\<rparr>"

definition validate_web_settings :: "settings \<Rightarrow> gerror option" where
  "validate_web_settings cfg =
     (if s_webui_port cfg < 0 \<or> 65535 < s_webui_port cfg
      then Some (ErrMsg ''web interface port must be between 1 and 65535'')
      else if s_webui_network cfg \<and> (s_webui_username cfg = [] \<or> s_webui_password cfg = [])
      then Some (ErrMsg ''opening the web interface to other devices needs a username and a password'')
      else None)"

text \<open>\<^verbatim>\<open>syncWebUI\<close>. A server that has to change is stopped first.\<close>

definition sync_web_ui :: "(web_key \<Rightarrow> gerror option) \<Rightarrow> settings \<Rightarrow> daemon \<Rightarrow> gerror option \<times> daemon" where
  "sync_web_ui listen cfg d =
     (if s_webui cfg \<and> d_web d = Some (web_key_of cfg) then (None, d)
      else let d = d\<lparr>d_web := None\<rparr>
           in if \<not> s_webui cfg then (None, d)
              else (case listen (web_key_of cfg) of
                  Some e \<Rightarrow> (Some (ErrMsg (''starting the web interface: '' @ err_string e)), d)
                | None \<Rightarrow> (None, d\<lparr>d_web := Some (web_key_of cfg)\<rparr>)))"

section \<open>Settings\<close>

definition check_torbox_key :: "(string \<Rightarrow> bool) \<Rightarrow> settings \<Rightarrow> settings \<Rightarrow> settings result" where
  "check_torbox_key rejected cur cfg =
     (let key = trim_space (s_torbox_key cfg); cfg = cfg\<lparr>s_torbox_key := key\<rparr>
      in if key = [] \<or> key = s_torbox_key cur then Inr cfg
         else if rejected key
         then Inl (ErrMsg ''TorBox didn't accept that API key'') else Inr cfg)"

definition rate_error :: "string \<Rightarrow> gerror option" where
  "rate_error r = (if r = [] then None else case parse_rate r of Inl e \<Rightarrow> Some e | Inr _ \<Rightarrow> None)"

text \<open>The checks of \<^verbatim>\<open>applySettings\<close>, in their order.\<close>

definition settings_error :: "settings \<Rightarrow> gerror option" where
  "settings_error cfg =
     (if s_max_concurrent cfg < 0 then Some (ErrMsg ''max concurrent downloads can't be negative'')
      else case rate_error (s_default_rate_limit cfg) of Some e \<Rightarrow> Some e
      | None \<Rightarrow> (case rate_error (s_global_rate_limit cfg) of Some e \<Rightarrow> Some e
      | None \<Rightarrow> if s_auto_retry_max cfg < 1 then Some (ErrMsg ''auto-retry max attempts must be at least 1'')
               else validate_web_settings cfg))"

definition apply_settings ::
  "((string \<times> string) list \<Rightarrow> (string \<times> string) list) \<Rightarrow> (web_key \<Rightarrow> gerror option) \<Rightarrow> (string \<Rightarrow> bool) \<Rightarrow>
   settings \<Rightarrow> daemon \<Rightarrow> settings result \<times> daemon" where
  "apply_settings order listen rejected cfg d =
     (case settings_error cfg of
        Some e \<Rightarrow> (Inl e, d)
      | None \<Rightarrow>
          (case check_torbox_key rejected (d_settings d) cfg of
             Inl e \<Rightarrow> (Inl e, d)
           | Inr cfg \<Rightarrow>
               (case sync_web_ui listen cfg d of
                  (Some e, d) \<Rightarrow> (Inl e, d)
                | (None, d) \<Rightarrow>
                    (case on_store (save_settings order cfg) d of
                       (Inl e, d) \<Rightarrow> (Inl e, d)
                     | (Inr _, d) \<Rightarrow>
                         (Inr cfg, try_start_queued (apply_global_rate_limit cfg (d\<lparr>d_settings := cfg\<rparr>)))))))"

section \<open>Start-up\<close>

text \<open>\<^verbatim>\<open>resumeInterruptedJobs\<close>: a pass over the listed rows.\<close>

definition resume_one :: "job \<Rightarrow> daemon \<Rightarrow> daemon" where
  "resume_one j d =
     (if j_status j = StatusSeeding
      then (case on_store (update_status (j_id j) StatusCompleted []) d of
              (Inr _, d) \<Rightarrow> d
            | (Inl e, d) \<Rightarrow> log_print (''resume scan: settling seeding job '' @ j_id j @ '': '' @ err_string e) d)
      else if j_status j \<noteq> StatusActive \<and> j_status j \<noteq> StatusQueued then d
      else let d = log_print (''resuming interrupted job '' @ j_id j) d
           in if j_status j = StatusQueued then snd (start j d)
              else (case save_job (j\<lparr>j_status := StatusQueued\<rparr>) d of
                  (Inl e, d) \<Rightarrow> log_print (''resume scan: updating '' @ j_id j @ '' to queued: '' @ err_string e) d
                | (Inr j, d) \<Rightarrow> snd (start j d)))"

definition resume_interrupted_jobs :: "daemon \<Rightarrow> daemon" where
  "resume_interrupted_jobs d =
     (case on_store list_jobs d of
        (Inl e, d) \<Rightarrow> log_print (''resume scan: '' @ err_string e) d
      | (Inr jobs, d) \<Rightarrow> fold resume_one jobs d)"

text \<open>\<^verbatim>\<open>Serve\<close>, up to its loop: the web interface as the stored settings have it, then the scan.\<close>

definition serve :: "(web_key \<Rightarrow> gerror option) \<Rightarrow> daemon \<Rightarrow> daemon" where
  "serve listen d =
     resume_interrupted_jobs
       (case sync_web_ui listen (d_settings d) d of (Some e, d) \<Rightarrow> log_print (err_string e) d | (None, d) \<Rightarrow> d)"

section \<open>Torrent workers\<close>

text \<open>\<^verbatim>\<open>startTorrent\<close>'s worker, cut where it waits. Before it waits for the metadata: the
  selection, the rate, the client. \<open>magnet\<close>, \<open>load\<close> and \<open>client\<close> are the library's.\<close>

definition limit_torrents :: "job \<Rightarrow> daemon \<Rightarrow> daemon" where
  "limit_torrents j d =
     (let eff = min_positive_rate (j_limit_rate j) (d_bps d)
      in if 0 < eff then d\<lparr>d_tm := tm_set_download_limit eff (d_tm d)\<rparr> else d)"

definition torrent_begin ::
  "(string \<Rightarrow> string result) \<Rightarrow> (string \<Rightarrow> string result) \<Rightarrow> (string \<Rightarrow> torrent result) \<Rightarrow> job \<Rightarrow> daemon \<Rightarrow> daemon" where
  "torrent_begin magnet load client j d =
     (case parse_selection (o_torrent_files (j_options j)) of
        Inl e \<Rightarrow> worker_end (j_id j) (Finished (j_bytes_done j) False (Some e)) d
      | Inr sel \<Rightarrow>
          let d = limit_torrents j d
          in (case tm_add (spec_from_source magnet load (j_source j)) client (j_id j) (d_tm d) of
              (Inl e, m) \<Rightarrow> worker_end (j_id j) (Finished (j_bytes_done j) False (Some e)) (d\<lparr>d_tm := m\<rparr>)
            | (Inr _, m) \<Rightarrow> d\<lparr>d_tm := m\<rparr>))"

text \<open>The metadata has arrived: the files are selected and the torrent's name and hash recorded.\<close>

definition record_torrent :: "string \<Rightarrow> daemon \<Rightarrow> daemon" where
  "record_torrent i d =
     (case on_store (get_job i) d of
        (Inl _, d) \<Rightarrow> d
      | (Inr job, d) \<Rightarrow>
          let job = (case tm_info_hash i (d_tm d) of Some h \<Rightarrow> job\<lparr>j_info_hash := h\<rparr> | None \<Rightarrow> job);
              job = (case map_of (tm_active (d_tm d)) i of
                       Some t \<Rightarrow> if tor_info t then job\<lparr>j_resolved := [tor_name t]\<rparr> else job
                     | None \<Rightarrow> job)
          in do_store (update_job job) d)"

definition no_match_error :: "string \<Rightarrow> nat \<Rightarrow> gerror" where
  "no_match_error spec n =
     ErrMsg (''--files '' @ [CHR 0x22] @ spec @ [CHR 0x22] @ '' matched none of the torrent's '' @ nat_digits n @ '' file(s)'')"

definition torrent_ready :: "job \<Rightarrow> daemon \<Rightarrow> daemon" where
  "torrent_ready j d =
     (let i = j_id j;
          sel = (case parse_selection (o_torrent_files (j_options j)) of Inr sel \<Rightarrow> sel | Inl _ \<Rightarrow> None)
      in case tm_select i sel (d_tm d) of
           (Inl e, m) \<Rightarrow> worker_end i (Finished (j_bytes_done j) False (Some e)) (d\<lparr>d_tm := tm_cancel i m\<rparr>)
         | (Inr n, m) \<Rightarrow>
             if n = 0
             then worker_end i (Finished (j_bytes_done j) False (Some (no_match_error (o_torrent_files (j_options j))
                    (case map_of (tm_active m) i of Some t \<Rightarrow> length (tor_files t) | None \<Rightarrow> 0))))
                  (d\<lparr>d_tm := tm_cancel i m\<rparr>)
             else record_torrent i (d\<lparr>d_tm := m\<rparr>))"

text \<open>One tick of the worker's loop.\<close>

definition torrent_tick :: "job \<Rightarrow> daemon \<Rightarrow> daemon" where
  "torrent_tick j d =
     (let i = j_id j in
      case tm_progress i (d_tm d) of
        (done, tot, running) \<Rightarrow>
          if \<not> running then d
          else let d = report_progress i done tot None d
               in if \<not> tm_done i (d_tm d) then d
                  else let d = finish_job i done True None d;
                           d = (if opt_seeds (j_options j) then start_seeding i (j_options j) d
                                else d\<lparr>d_tm := tm_pause i (d_tm d)\<rparr>)
                       in clear_runtime i d)"


section \<open>Choosing a torrent's files\<close>

fun type_string :: "job_type \<Rightarrow> string" where
  "type_string JobURL = ''url''"
| "type_string JobSocial = ''social''"
| "type_string JobTorrent = ''torrent''"
| "type_string JobWebDAV = ''webdav''"

text \<open>A running torrent switches at once; a choice that leaves nothing is undone.\<close>

definition switch_running :: "string \<Rightarrow> selection \<Rightarrow> string \<Rightarrow> daemon \<Rightarrow> gerror option \<times> daemon" where
  "switch_running i sel old_spec d =
     (if tm_files i (d_tm d) = None then (None, d)
      else let (r, m) = tm_select i sel (d_tm d);
               err = (case r of Inl e \<Rightarrow> Some e
                      | Inr n \<Rightarrow> if n = 0 then Some (ErrMsg ''that choice leaves no files to download'') else None)
           in if err = None then (None, d\<lparr>d_tm := m\<rparr>)
              else (err, d\<lparr>d_tm := (case parse_selection old_spec of
                                      Inl _ \<Rightarrow> m | Inr old \<Rightarrow> snd (tm_select i old m))\<rparr>))"

text \<open>\<open>files\<close> is what \<^verbatim>\<open>torboxRuntimeFiles\<close> answers: the numbers and paths of a running TorBox
  job's files.\<close>

definition restart_torbox ::
  "worker_exit option \<Rightarrow> (nat \<times> string) list option \<Rightarrow> string \<Rightarrow> selection \<Rightarrow> daemon \<Rightarrow> job result \<times> daemon" where
  "restart_torbox ex files i sel d =
     (if (case files of None \<Rightarrow> False | Some fs \<Rightarrow> filter (\<lambda>(k, p). sel_match sel (int k + 1) p) fs = [])
      then (Inl (ErrMsg ''that choice leaves no files to download''), d)
      else case pause ex i d of
             (Inl e, d) \<Rightarrow> (Inl e, d)
           | (Inr _, d) \<Rightarrow>
               (case on_store (get_job i) d of
                  (Inl e, d) \<Rightarrow> (Inl e, d)
                | (Inr job, d) \<Rightarrow> (Inr (job\<lparr>j_status := StatusQueued, j_error := []\<rparr>), d)))"

text \<open>The end of \<^verbatim>\<open>selectFiles\<close>: the choice is stored, and a finished or restarted job starts.\<close>

definition save_choice :: "string \<Rightarrow> bool \<Rightarrow> job \<Rightarrow> daemon \<Rightarrow> job result \<times> daemon" where
  "save_choice i again job d =
     (case save_job job d of
        (Inl e, d) \<Rightarrow> (Inl e, d)
      | (Inr job, d) \<Rightarrow> on_store (get_job i) (if again then snd (start job d) else d))"

definition store_choice :: "string \<Rightarrow> string \<Rightarrow> bool \<Rightarrow> job result \<times> daemon \<Rightarrow> job result \<times> daemon" where
  "store_choice i spec restart p =
     (case p of
        (Inl e, d) \<Rightarrow> (Inl e, d)
      | (Inr job, d) \<Rightarrow>
          let job = job\<lparr>j_options := (j_options job)\<lparr>o_torrent_files := spec\<rparr>\<rparr>
          in if j_status job = StatusCompleted \<or> j_status job = StatusSeeding
             then save_choice i True (job\<lparr>j_status := StatusQueued, j_error := []\<rparr>) (snd (stop_seeding i d))
             else save_choice i restart job d)"

definition select_files ::
  "worker_exit option \<Rightarrow> (nat \<times> string) list option \<Rightarrow> string \<Rightarrow> string \<Rightarrow> daemon \<Rightarrow> job result \<times> daemon" where
  "select_files ex files i spec d =
     (case on_store (get_job i) d of
        (Inl _, d) \<Rightarrow> (Inl (not_found i), d)
      | (Inr job, d) \<Rightarrow>
          if j_type job \<noteq> JobTorrent
          then (Inl (ErrMsg (''job '' @ i @ '' is a '' @ type_string (j_type job) @ '' job, not a torrent'')), d)
          else (case parse_selection spec of
              Inl e \<Rightarrow> (Inl e, d)
            | Inr sel \<Rightarrow>
                (case switch_running i sel (o_torrent_files (j_options job)) d of
                   (Some e, d) \<Rightarrow> (Inl e, d)
                 | (None, d) \<Rightarrow>
                     let restart = (opt_torbox (j_options job) \<and> (j_status job = StatusActive \<or> j_status job = StatusQueued))
                     in store_choice i spec restart
                          (if restart then restart_torbox ex files i sel d else (Inr job, d)))))"

section \<open>Commands\<close>

definition resolve_via :: "settings \<Rightarrow> job_options \<Rightarrow> job_options result" where
  "resolve_via cfg opts =
     (if o_via opts = ViaTorBox
      then (if torbox_ready cfg then Inr opts else Inl (ErrMsg ''TorBox isn't set up''))
      else if o_via opts = ViaP2P then Inr (opts\<lparr>o_via := []\<rparr>)
      else if o_via opts = [] then Inr (if s_torbox_default cfg \<and> torbox_ready cfg then opts\<lparr>o_via := ViaTorBox\<rparr> else opts)
      else Inl (ErrMsg (''unknown way to fetch a torrent '' @ [CHR 0x22] @ o_via opts @ [CHR 0x22] @ '' (want torbox or p2p)'')))"

text \<open>The requests of \<^verbatim>\<open>do\<close> that read or change the job table and the settings. What stops a
  worker carries how that worker ends.\<close>

datatype request =
    Ping
  | AddURL string string int int string job_options
  | AddTorrent string string int job_options
  | AddWebDAV string string int
  | AddSocial string string string int job_options
  | Pause string "worker_exit option"
  | Resume string
  | Retry string
  | Cancel string "worker_exit option"
  | Remove string bool "worker_exit option"
  | SelectFiles string string "worker_exit option" "(nat \<times> string) list option"
  | ListJobs
  | GetSettings
  | SetSettings "settings option"
  | Unknown string

datatype response =
    RespError string
  | RespOK
  | RespJob "job_view option"
  | RespJobs "job_view list"
  | RespSettings settings

definition job_result :: "job result \<times> daemon \<Rightarrow> response \<times> daemon" where
  "job_result p = (case p of (Inl e, d) \<Rightarrow> (RespError (err_string e), d) | (Inr j, d) \<Rightarrow> (RespJob (Some (view_of j None)), d))"

definition start_and_report :: "job result \<times> daemon \<Rightarrow> response \<times> daemon" where
  "start_and_report p =
     (case p of
        (Inl e, d) \<Rightarrow> (RespError (err_string e), d)
      | (Inr j, d) \<Rightarrow> (case view (j_id j) (snd (start j d)) of (v, d) \<Rightarrow> (RespJob v, d)))"

record network =
  nw_order :: "(string \<times> string) list \<Rightarrow> (string \<times> string) list"
  nw_listen :: "web_key \<Rightarrow> gerror option"
  nw_rejected :: "string \<Rightarrow> bool"

fun do_request :: "network \<Rightarrow> request \<Rightarrow> daemon \<Rightarrow> response \<times> daemon" where
  "do_request nw Ping d = (RespOK, d)"
| "do_request nw (AddURL src out conc limit sha opts) d =
     start_and_report (create_job JobURL src out [] conc limit sha opts d)"
| "do_request nw (AddTorrent src out limit opts) d =
     (case resolve_via (d_settings d) opts of
        Inl e \<Rightarrow> (RespError (err_string e), d)
      | Inr opts \<Rightarrow> start_and_report (create_job JobTorrent src out [] 0 limit [] opts d))"
| "do_request nw (AddWebDAV src out limit) d =
     start_and_report (create_job JobWebDAV src out [] 0 limit [] empty_options d)"
| "do_request nw (AddSocial src out fmt limit opts) d =
     start_and_report (create_job JobSocial src out fmt 0 limit [] opts d)"
| "do_request nw (Pause i ex) d = job_result (pause ex i d)"
| "do_request nw (Resume i) d = job_result (resume i d)"
| "do_request nw (Retry i) d = job_result (retry i d)"
| "do_request nw (Cancel i ex) d = job_result (cancel ex i d)"
| "do_request nw (Remove i purge ex) d = job_result (remove ex i purge d)"
| "do_request nw (SelectFiles i spec ex files) d = job_result (select_files ex files i spec d)"
| "do_request nw ListJobs d = (case snapshot d of (vs, d) \<Rightarrow> (RespJobs vs, d))"
| "do_request nw GetSettings d = (RespSettings (d_settings d), d)"
| "do_request nw (SetSettings None) d = (RespError ''settings is required'', d)"
| "do_request nw (SetSettings (Some cfg)) d =
     (case apply_settings (nw_order nw) (nw_listen nw) (nw_rejected nw) cfg d of
        (Inl e, d) \<Rightarrow> (RespError (err_string e), d)
      | (Inr cfg, d) \<Rightarrow> (RespSettings cfg, d))"
| "do_request nw (Unknown c) d = (RespError (''unknown command: '' @ c), d)"

end
