(* ===== verification/ServerProps.thy ===== *)
theory ServerProps
  imports Server
begin

text \<open>
  The commands, the workers' steps and the start-up scan keep the bound on the slots and, on a
  store whose statements succeed, leave the daemon settled.
\<close>

section \<open>The cap\<close>

text \<open>\<open>fits n d\<close>: the slots held are at most \<open>n\<close> or the cap. It also holds across a change of
  the cap when \<open>n\<close> covers what was held before.\<close>

lemma valid_key_safe: "validate_web_settings cfg = None \<Longrightarrow> web_key_safe (web_key_of cfg)"
  by (auto simp: validate_web_settings_def web_key_safe_def web_key_of_def default_webui_port_def split: if_splits)

lemma bounded_sync:
  "sync_web_ui listen cfg d = (e, d') \<Longrightarrow> guarded n d \<Longrightarrow> validate_web_settings cfg = None \<Longrightarrow> guarded n d'"
  by (auto simp: sync_web_ui_def Let_def web_safe_def valid_key_safe intro!: bounded_web split: if_splits option.splits)

lemma global_rate_simps [simp]:
  "d_web (apply_global_rate_limit cfg d) = d_web d" "d_runtimes (apply_global_rate_limit cfg d) = d_runtimes d" "d_settings (apply_global_rate_limit cfg d) = d_settings d"
  "d_store (apply_global_rate_limit cfg d) = d_store d" "d_seeders (apply_global_rate_limit cfg d) = d_seeders d"
  "d_try_running (apply_global_rate_limit cfg d) = d_try_running d" "d_try_again (apply_global_rate_limit cfg d) = d_try_again d"
  by (simp_all add: apply_global_rate_limit_def Let_def)

lemma bounded_global_rate [simp]: "guarded n (apply_global_rate_limit cfg d) = guarded n d"
  by (rule bounded_cong; simp add: apply_global_rate_limit_def Let_def)

lemma bounded_own: "runtimes_ok d \<Longrightarrow> web_safe d \<Longrightarrow> guarded (int (card (held_slots d))) d"
  by (simp add: guarded_def pool.bounded_held)

lemma settings_error_valid: "settings_error cfg = None \<Longrightarrow> validate_web_settings cfg = None"
  by (simp add: settings_error_def split: if_splits option.splits)

lemma checked_valid:
  "check_torbox_key rejected cur cfg = Inr cfg' \<Longrightarrow> validate_web_settings cfg' = validate_web_settings cfg"
  by (auto simp: check_torbox_key_def Let_def validate_web_settings_def split: if_splits)

lemma bounded_apply_settings:
  assumes "runtimes_ok d" and "web_safe d"
  shows "guarded (int (card (held_slots d))) (snd (apply_settings order listen rejected cfg d))"
proof -
  let ?n = "int (card (held_slots d))"
  note own = bounded_own [OF assms]
  have new: "guarded ?n (try_start_queued (apply_global_rate_limit c (d1\<lparr>d_store := s, d_settings := c\<rparr>)))"
    if "d_runtimes d1 = d_runtimes d" "guarded ?n d1" for c d1 s
    using that assms
    by (intro bounded_try) (simp add: guarded_def web_safe_def pool.bounded_def runtimes_ok_def held_slots_def)
  have web: "d_runtimes d1 = d_runtimes d" "guarded ?n d1"
    if "sync_web_ui listen c d = (e, d1)" "settings_error cfg = None" "check_torbox_key rejected (d_settings d) cfg = Inr c" for c e d1
    using that own settings_error_valid checked_valid bounded_sync [of listen c d e d1]
    by (auto simp: sync_web_ui_def Let_def split: if_splits option.splits)
  show ?thesis
    using own by (auto simp: apply_settings_def on_store_def new web split: option.splits sum.splits prod.splits)
qed

lemma bounded_resume_one [go_inv]: "guarded n d \<Longrightarrow> guarded n (resume_one j d)"
  by (auto simp: resume_one_def Let_def on_store_def bounded_save bounded_start split: sum.splits prod.splits)

lemma bounded_resume_all [go_inv]: "guarded n d \<Longrightarrow> guarded n (resume_interrupted_jobs d)"
proof -
  have "guarded n d \<Longrightarrow> guarded n (fold resume_one jobs d)" for jobs d
    by (induction jobs arbitrary: d) (simp_all add: bounded_resume_one)
  then show "guarded n d \<Longrightarrow> guarded n (resume_interrupted_jobs d)"
    by (auto simp: resume_interrupted_jobs_def on_store_def split: sum.splits prod.splits)
qed

lemma bounded_limit [simp]: "guarded n (limit_torrents j d) = guarded n d"
  by (simp add: limit_torrents_def Let_def)

lemma bounded_torrent_begin [go_inv]: "guarded n d \<Longrightarrow> guarded n (torrent_begin magnet load client j d)"
  by (auto simp: torrent_begin_def Let_def bounded_worker_end split: sum.splits prod.splits)

lemma bounded_record [simp]: "guarded n (record_torrent i d) = guarded n d"
  by (auto simp: record_torrent_def Let_def on_store_def split: sum.splits prod.splits)

lemma bounded_torrent_ready [go_inv]: "guarded n d \<Longrightarrow> guarded n (torrent_ready j d)"
  by (auto simp: torrent_ready_def Let_def bounded_worker_end split: sum.splits prod.splits)

lemma bounded_report [go_inv]: "guarded n d \<Longrightarrow> guarded n (report_progress i done tot off d)"
proof -
  assume b: "guarded n d"
  have "guarded n (set_runtime i rt d)" if "get_runtime i d \<noteq> None" for rt
  proof -
    have "keys_of (d_runtimes (set_runtime i rt d)) = keys_of (d_runtimes d)"
      using that by (auto simp: set_runtime_def get_runtime_def keys_of_map_of)
    moreover have "wf_map (d_runtimes (set_runtime i rt d))"
      using b by (simp add: set_runtime_def guarded_def pool.bounded_def runtimes_ok_def)
    ultimately show ?thesis
      using b by (simp add: guarded_def web_safe_def pool.bounded_def runtimes_ok_def held_slots_def slot_cap_def)
  qed
  with b show ?thesis by (simp add: report_progress_def Let_def split: option.splits)
qed

lemma bounded_torrent_tick [go_inv]: "guarded n d \<Longrightarrow> guarded n (torrent_tick j d)"
  by (cases "tm_progress (j_id j) (d_tm d)")
    (auto simp: torrent_tick_def Let_def intro!: bounded_clear bounded_start_seeding bounded_report)

lemma bounded_switch: "switch_running i sel old d = (e, d') \<Longrightarrow> guarded n d' = guarded n d"
  by (auto simp: switch_running_def Let_def split: if_splits prod.splits)

lemma bounded_restart: "guarded n d \<Longrightarrow> guarded n (snd (restart_torbox ex files i sel d))"
  unfolding restart_torbox_def using bounded_pause [of n d ex i]
  by (auto intro!: bounded_case)

lemma bounded_stop_snd: "stop_seeding i d = (b, d') \<Longrightarrow> guarded n d' = guarded n d"
  using bounded_stop_seeding [of n i d] by simp

lemma bounded_save_choice: "guarded n d \<Longrightarrow> guarded n (snd (save_choice i again job d))"
  unfolding save_choice_def by (rule bounded_case) (auto simp: bounded_start)

lemma bounded_choice: "guarded n (snd p) \<Longrightarrow> guarded n (snd (store_choice i spec restart p))"
  unfolding store_choice_def Let_def
  by (rule bounded_case) (auto simp: bounded_stop_seeding intro!: bounded_save_choice)

lemma bounded_select_files [go_inv]: "guarded n d \<Longrightarrow> guarded n (snd (select_files ex files i spec d))"
  unfolding select_files_def Let_def
  by (rule bounded_case)
    (auto simp: bounded_switch intro!: bounded_choice bounded_restart split: sum.splits prod.splits option.splits)

lemma bounded_view: "view i d = (v, d') \<Longrightarrow> guarded n d' = guarded n d"
  by (auto simp: view_def on_store_def split: sum.splits prod.splits)

lemma bounded_job_result: "guarded n (snd p) \<Longrightarrow> guarded n (snd (job_result p))"
  by (auto simp: job_result_def split: sum.splits prod.splits)

lemma bounded_start_report: "guarded n (snd p) \<Longrightarrow> guarded n (snd (start_and_report p))"
  using bounded_start by (auto simp: start_and_report_def bounded_view split: sum.splits prod.splits)

lemma bounded_request:
  assumes "runtimes_ok d" and "web_safe d"
  shows "guarded (int (card (held_slots d))) (snd (do_request nw rq d))"
proof (cases rq)
  case ListJobs
  then show ?thesis using bounded_own [OF assms] by (auto simp: snapshot_def on_store_def split: sum.splits prod.splits)
next
  case (SetSettings cfg)
  then show ?thesis
    using bounded_own [OF assms] bounded_apply_settings [OF assms, of "nw_order nw" "nw_listen nw" "nw_rejected nw"]
    by (cases cfg) (auto split: sum.splits prod.splits, (metis snd_conv)+)
qed (use bounded_own [OF assms] in \<open>auto intro!: bounded_job_result bounded_start_report bounded_create bounded_pause
      bounded_resume bounded_retry bounded_cancel bounded_remove bounded_select_files split: sum.splits\<close>)


section \<open>No lost wake-up\<close>

lemma modify_rows_id: "modify_rows i (\<lambda>r. r) rows = rows"
  by (simp add: modify_rows_def)

lemma do_update_free:
  "st_faults (d_store d) = [] \<Longrightarrow> marshal_ok (j_options job) \<Longrightarrow> do_store (update_job job) d = saved job d"
  by (simp add: do_store_eq update_job_def exec_no_faults saved_def row_written_fun)

lemma report_settled [go_inv]:
  assumes "settled d"
  shows "settled (report_progress i done tot off d)"
proof -
  note s = settled_synced [OF assms]
  note nf = synced_nofaults [OF s]
  define f where "f = (\<lambda>j :: job. case off of
       Some r \<Rightarrow> j\<lparr>j_bytes_done := done, j_bytes_total := tot, j_resume_offset := r, j_updated := st_now (d_store d)\<rparr>
     | None \<Rightarrow> j\<lparr>j_bytes_done := done, j_bytes_total := tot, j_updated := st_now (d_store d)\<rparr>)"
  have f: "j_id (f r) = j_id r" "j_status (f r) = j_status r" "j_options (f r) = j_options r" for r
    by (simp_all add: f_def split: option.splits)
  have wf: "wf_map (d_runtimes d)" using s by (simp add: synced_but_def)
  have up: "do_store (update_progress i done tot off) d1 =
      d1\<lparr>d_store := (d_store d)\<lparr>st_rows := modify_rows i f (jobs_of d)\<rparr>\<rparr>" if "d_store d1 = d_store d" for d1
    using that nf by (simp add: do_store_eq update_progress_def exec_no_faults f_def)
  have cancel: "rt_cancel rt" if "get_runtime k d = Some rt" for k rt
    using that s unfolding synced_but_def by blast
  show ?thesis
  proof (cases "get_runtime i d")
    case None
    have "settled (do_store (update_progress i done tot off) d)"
      by (rule same_status_settled [OF assms, where f = f and i = i])
        (use row_marshal [OF s] nf f cancel wf in \<open>auto simp: up get_runtime_def seeder_of_def slots_full_def\<close>)
    with None show ?thesis by (simp add: report_progress_def)
  next
    case (Some rt)
    have keep: "settled e" if e: "e = (set_runtime i rt' d)\<lparr>d_store := (d_store d)\<lparr>st_rows := modify_rows i g (jobs_of d)\<rparr>\<rparr>"
      "rt_cancel rt'" "\<And>r. j_id (g r) = j_id r \<and> j_status (g r) = j_status r \<and> j_options (g r) = j_options r" for e rt' g
    proof (rule same_status_settled [OF assms, where f = g and i = i])
      have len: "length (d_runtimes (set_runtime i rt' d)) = length (d_runtimes d)"
        using Some by (simp add: set_runtime_def length_update keys_of_map_of get_runtime_def)
      then show "slots_full e = slots_full d" by (simp add: e(1) slots_full_def)
      show "(get_runtime k e = None) = (get_runtime k d = None)" for k
        using Some by (simp add: e(1) get_runtime_def set_runtime_def)
      show "rt_cancel rt2" if "get_runtime k e = Some rt2" for k rt2
        using that cancel e(2) by (auto simp: e(1) get_runtime_def set_runtime_def split: if_splits)
    qed (use e row_marshal [OF s] nf wf in \<open>auto simp: get_runtime_def seeder_of_def set_runtime_def\<close>)
    let ?rt = "rt_report (d_now d) done tot rt"
    have rc: "rt_cancel ?rt" using cancel [OF Some] by (simp add: rt_report_def Let_def)
    have "settled (set_runtime i ?rt d)"
      by (rule keep [where rt' = ?rt and g = "\<lambda>r. r"]) (simp_all add: rc modify_rows_id)
    moreover have "settled (do_store (update_progress i done tot off)
        (set_runtime i (?rt\<lparr>rt_last_persist := Some (d_now d), rt_last_persist_bytes := done\<rparr>) d))"
      by (rule keep [where rt' = "?rt\<lparr>rt_last_persist := Some (d_now d), rt_last_persist_bytes := done\<rparr>" and g = f])
        (simp_all add: rc f up)
    ultimately show ?thesis using Some by (simp add: report_progress_def Let_def)
  qed
qed

lemma limit_settled [simp]: "settled_but X (limit_torrents j d) = settled_but X d"
  by (simp add: limit_torrents_def Let_def)

lemma runtime_limit [simp]: "get_runtime i (limit_torrents j d) = get_runtime i d"
  by (simp add: limit_torrents_def Let_def)

lemma torrent_begin_settled [go_inv]:
  "settled d \<Longrightarrow> get_runtime (j_id j) d \<noteq> None \<Longrightarrow> settled (torrent_begin magnet load client j d)"
  by (auto simp: torrent_begin_def Let_def intro!: worker_end_settles split: sum.splits prod.splits)

lemma record_settled: "settled d \<Longrightarrow> settled (record_torrent i d)"
proof -
  assume s: "settled d"
  show ?thesis
  proof (cases "row_of (jobs_of d) i")
    case None
    with s show ?thesis by (simp add: record_torrent_def on_get [OF s])
  next
    case (Some job)
    have "settled (do_store (update_job job') d)"
      if "j_id job' = j_id job" "j_status job' = j_status job" "j_options job' = j_options job" for job'
    proof -
      have "marshal_ok (j_options job')" using row_marshal [OF settled_synced [OF s] Some] that by simp
      with saved_same_settled [OF s, of job' job] that Some row_of_mem [OF Some] show ?thesis
        by (simp add: do_update_free [OF settled_nofaults [OF s]])
    qed
    then show ?thesis
      by (auto simp: record_torrent_def on_get [OF s] Some Let_def split: option.splits)
  qed
qed

lemma torrent_ready_settled [go_inv]:
  "settled d \<Longrightarrow> get_runtime (j_id j) d \<noteq> None \<Longrightarrow> settled (torrent_ready j d)"
  by (auto simp: torrent_ready_def Let_def intro!: worker_end_settles record_settled split: sum.splits prod.splits)

lemma start_seeding_synced:
  assumes "synced e" and "get_runtime i e = None" and "row_of (jobs_of e) i \<noteq> None"
  shows "synced (start_seeding i opts e)"
proof (cases "d_seeders e")
  case None
  with assms show ?thesis by (simp add: start_seeding_def)
next
  case (Some m)
  define sd where "sd = \<lparr>sd_opts = opts, sd_size = fst (snd (tm_progress i (d_tm e))), sd_start = d_now e,
      sd_last_up = tm_uploaded i (d_tm e), sd_last_at = d_now e, sd_upload = FFin 0, sd_ratio = FFin 0\<rparr>"
  let ?e1 = "e\<lparr>d_seeders := Some (AList.update i sd m)\<rparr>"
  note nf = synced_nofaults [OF assms(1)]
  have eq: "start_seeding i opts e = status_saved i StatusSeeding [] ?e1"
    using status_free [of ?e1 i StatusSeeding "[]"] nf Some by (simp add: start_seeding_def sd_def Let_def)
  show ?thesis
    unfolding eq
  proof (rule synced_rewrite [OF assms(1), where f = "status_set StatusSeeding [] (st_now (d_store e))" and i = i])
    show "seeder_of k (status_saved i StatusSeeding [] ?e1) = seeder_of k e" if "k \<noteq> i" for k
      using that Some by (simp add: seeder_of_def status_saved_def)
    show "wf_map (d_runtimes (status_saved i StatusSeeding [] ?e1))"
      using assms(1) by (simp add: synced_but_def)
    show "get_runtime i (status_saved i StatusSeeding [] ?e1) = None" using assms(2) by simp
    show "jobs_of (status_saved i StatusSeeding [] ?e1) = modify_rows i (status_set StatusSeeding [] (st_now (d_store e))) (jobs_of e)"
      by (simp add: status_saved_def)
  qed (use assms nf row_marshal [OF assms(1), of i] in \<open>auto simp: status_set_def\<close>)
qed

lemma drop_start_seeding: "drop_runtime i (start_seeding i opts d) = start_seeding i opts (drop_runtime i d)"
  by (auto simp: start_seeding_def Let_def on_store_def drop_runtime_def log_print_def
    split: option.splits prod.splits sum.splits)

lemma start_seeding_simps [simp]:
  "d_try_running (start_seeding i opts d) = d_try_running d" "d_try_again (start_seeding i opts d) = d_try_again d"
  by (auto simp: start_seeding_def Let_def on_store_def split: option.splits prod.splits sum.splits)

lemma report_runtime: "(get_runtime k (report_progress i done tot off d) = None) = (get_runtime k d = None)"
  by (auto simp: report_progress_def Let_def do_store_eq get_runtime_def set_runtime_def split: option.splits if_splits)

lemma torrent_tick_settled [go_inv]:
  assumes "settled d" and "get_runtime (j_id j) d \<noteq> None"
  shows "settled (torrent_tick j d)"
proof (cases "tm_progress (j_id j) (d_tm d)")
  case (fields fin tot running)
  define i where "i = j_id j"
  define d1 where "d1 = report_progress i fin tot None d"
  have d1: "settled d1" "get_runtime i d1 \<noteq> None"
    using report_settled [OF assms(1)] report_runtime assms(2) by (simp_all add: d1_def i_def)
  define d2 where "d2 = finish_job i fin True None d1"
  have d2: "synced (drop_runtime i d2)" "get_runtime i (drop_runtime i d2) = None" "row_of (jobs_of (drop_runtime i d2)) i \<noteq> None"
    "\<not> d_try_running d2" "\<not> d_try_again d2"
  proof -
    show "synced (drop_runtime i d2)" using finish_synced [OF settled_synced [OF d1(1)] d1(2)] by (simp add: d2_def)
    show "get_runtime i (drop_runtime i d2) = None" by (simp add: get_runtime_def drop_runtime_def)
    have "row_of (jobs_of d1) i \<noteq> None" using running_row [OF settled_synced [OF d1(1)] d1(2)] by auto
    then show "row_of (jobs_of (drop_runtime i d2)) i \<noteq> None"
      using row_exists [of d2 d1 i] by (simp add: d2_def)
    show "\<not> d_try_running d2" "\<not> d_try_again d2" using d1(1) by (simp_all add: d2_def settled_but_def)
  qed
  have seeds: "settled (clear_runtime i (start_seeding i opts d2))" for opts
    unfolding clear_runtime_def drop_start_seeding
    by (rule try_settles) (use start_seeding_synced [OF d2(1-3)] d2(4,5) in simp_all)
  have "synced (drop_runtime i (d2\<lparr>d_tm := m\<rparr>))" for m
    using d2(1) synced_cong [of "drop_runtime i (d2\<lparr>d_tm := m\<rparr>)" "drop_runtime i d2"]
    by (simp add: drop_runtime_def)
  then have stops: "settled (clear_runtime i (d2\<lparr>d_tm := m\<rparr>))" for m
    unfolding clear_runtime_def by (rule try_settles) (use d2(4,5) in simp_all)
  show ?thesis
    using assms(1) d1(1) seeds stops unfolding torrent_tick_def Let_def i_def [symmetric] fields [folded i_def]
    by (simp add: d1_def [symmetric] d2_def [symmetric])
qed


lemma save_kvs_rows: "st_faults s = [] \<Longrightarrow> st_rows (snd (save_kvs kvs s)) = st_rows s \<and> st_faults (snd (save_kvs kvs s)) = []"
  by (induction kvs s rule: save_kvs.induct) (auto simp: exec_no_faults)

lemma sync_settled: "sync_web_ui listen cfg d = (e, d') \<Longrightarrow> settled_but X d' = settled_but X d"
  by (auto simp: sync_web_ui_def Let_def split: if_splits option.splits)

lemma apply_settings_settled [go_inv]:
  assumes "settled d"
  shows "settled (snd (apply_settings order listen rejected cfg d))"
proof -
  have new: "settled (try_start_queued (apply_global_rate_limit c (d1\<lparr>d_store := s, d_settings := c\<rparr>)))"
    if d1: "settled d1" and s: "save_settings order c (d_store d1) = (r, s)" for d1 r s c
  proof (rule try_settles)
    have rows: "st_rows s = jobs_of d1" "st_faults s = []"
      using save_kvs_rows [OF settled_nofaults [OF d1], of "order (settings_kv c)"] s
      by (simp_all add: save_settings_def)
    then show "synced (apply_global_rate_limit c (d1\<lparr>d_store := s, d_settings := c\<rparr>))"
      using settled_synced [OF d1] by (simp add: synced_but_def get_runtime_def seeder_of_def)
  qed (use d1 in \<open>simp_all add: settled_but_def\<close>)
  have keep: "settled (d1\<lparr>d_store := s\<rparr>)" if d1: "settled d1" and s: "save_settings order c (d_store d1) = (r, s)" for d1 r s c
  proof -
    have "st_rows s = jobs_of d1" "st_faults s = []"
      using save_kvs_rows [OF settled_nofaults [OF d1], of "order (settings_kv c)"] s
      by (simp_all add: save_settings_def)
    then show ?thesis
      using d1 by (simp add: settled_but_def synced_but_def get_runtime_def seeder_of_def waiting_only_when_full_def slots_full_def)
  qed
  show ?thesis
    using assms by (auto simp: apply_settings_def on_store_def sync_settled intro: new keep split: option.splits sum.splits prod.splits)
qed

lemma pause_frees:
  assumes "settled d" and "row_of (jobs_of d) i = Some job" and "j_type job = JobTorrent" and "j_status job \<noteq> StatusSeeding"
    and "j_status job = StatusActive \<or> j_status job = StatusQueued" and "get_runtime i d \<noteq> None \<Longrightarrow> ex \<noteq> None"
  shows "get_runtime i (snd (pause ex i d)) = None \<and> seeder_of i (snd (pause ex i d)) = None"
proof (cases "tm_progress i (d_tm d)")
  case (fields pre tot have_pre)
  let ?d = "d\<lparr>d_tm := tm_pause i (d_tm d)\<rparr>"
  have t: "settled ?d" "get_runtime i ?d \<noteq> None \<Longrightarrow> ex \<noteq> None" using assms(1,6) by simp_all
  obtain X where X: "settled_but X (stop_worker i ex ?d)" "get_runtime i (stop_worker i ex ?d) = None"
    "d_seeders (stop_worker i ex ?d) = d_seeders ?d"
    using stop_worker_settled [OF t] by metis
  have seed: "seeder_of i (stop_worker i ex ?d) = None"
    using no_seeder [OF settled_synced [OF assms(1)] assms(2,4)] seeder_of_cong [OF X(3)] by simp
  have free: "get_runtime i (snd (save_job jb e)) = get_runtime i e \<and> seeder_of i (snd (save_job jb e)) = seeder_of i e" for jb e
    by (auto simp: save_job_def on_store_def get_runtime_def seeder_of_def split: prod.splits sum.splits)
  have "pause ex i d = pause_torrent ex i d"
    using assms(2-5) by (auto simp: pause_def on_get [OF assms(1)])
  then show ?thesis
    using X(2) seed free unfolding pause_torrent_def fields Let_def
    by (auto simp: on_get [OF X(1)] split: option.splits)
qed

lemma switch_facts:
  "switch_running i sel old d = (e, d') \<Longrightarrow> \<exists>m. d' = d\<lparr>d_tm := m\<rparr>"
proof -
  have self: "\<exists>m. d = d\<lparr>d_tm := m\<rparr>" by (rule exI [of _ "d_tm d"]) simp
  assume "switch_running i sel old d = (e, d')"
  then show ?thesis
    using self by (auto simp: switch_running_def Let_def split: if_splits prod.splits)
qed

lemma marshal_files [simp]: "marshal_ok (opts\<lparr>o_torrent_files := p\<rparr>) = marshal_ok opts"
  by (simp add: marshal_ok_def)

lemma save_choice_start:
  assumes "settled d" and "row_of (jobs_of d) i = Some r" and "get_runtime i d = None" and "seeder_of i d = None"
    and "j_id job = i" and "marshal_ok (j_options job)" and "j_status job = StatusQueued"
  shows "settled (snd (save_choice i True job d))"
proof -
  obtain job' d' where "save_job job d = (Inr job', d')" "settled (snd (start job' d'))"
    using save_start_settled [OF assms] by blast
  then show ?thesis by (simp add: save_choice_def on_get)
qed

lemma store_choice_settled:
  assumes "settled d" and "row_of (jobs_of d) i = Some job" and "\<not> restart"
  shows "settled (snd (store_choice i spec restart (Inr job, d)))"
proof -
  let ?job = "job\<lparr>j_options := (j_options job)\<lparr>o_torrent_files := spec\<rparr>\<rparr>"
  have id: "j_id job = i" and m: "marshal_ok (j_options job)"
    using row_of_mem [OF assms(2)] row_marshal [OF settled_synced [OF assms(1)] assms(2)] by simp_all
  show ?thesis
  proof (cases "j_status job = StatusCompleted \<or> j_status job = StatusSeeding")
    case True
    obtain b d1 where sd: "stop_seeding i d = (b, d1)" by (cases "stop_seeding i d")
    note s1 = stop_seeding_settled [OF assms(1) sd]
    have none: "get_runtime i d1 = None"
      using not_running [OF settled_synced [OF assms(1)] assms(2)] True s1 by auto
    obtain r where "row_of (jobs_of d1) i = Some r" using row_exists [of d1 d i] s1 assms(2) by auto
    then have "settled (snd (save_choice i True (?job\<lparr>j_status := StatusQueued, j_error := []\<rparr>) d1))"
      using save_choice_start [of d1 i r] s1 none id m by simp
    with True sd show ?thesis by (auto simp: store_choice_def Let_def)
  next
    case False
    have "settled (saved ?job d)"
      by (rule saved_same_settled [OF assms(1), of _ job]) (use assms(2) id m in simp_all)
    with False assms(3) m show ?thesis
      by (simp add: store_choice_def Let_def save_choice_def save_free [OF settled_nofaults [OF assms(1)]] on_get)
  qed
qed

lemma select_files_settled [go_inv]:
  assumes "settled d" and "get_runtime i d \<noteq> None \<Longrightarrow> ex \<noteq> None"
  shows "settled (snd (select_files ex files i spec d))"
proof (cases "row_of (jobs_of d) i")
  case None
  with assms show ?thesis by (simp add: select_files_def on_get [OF assms(1)])
next
  case (Some job)
  note get = on_get [OF assms(1), of i, unfolded Some, simplified]
  show ?thesis
  proof (cases "j_type job = JobTorrent")
    case False
    with assms(1) show ?thesis by (simp add: select_files_def get)
  next
    case torrent: True
    show ?thesis
    proof (cases "parse_selection spec")
      case (Inl e)
      with assms(1) torrent show ?thesis by (simp add: select_files_def get)
    next
      case (Inr sel)
      obtain err d1 where sw: "switch_running i sel (o_torrent_files (j_options job)) d = (err, d1)"
        by (cases "switch_running i sel (o_torrent_files (j_options job)) d")
      obtain tm where d1: "d1 = d\<lparr>d_tm := tm\<rparr>" using switch_facts [OF sw] by blast
      have s1: "settled d1" "row_of (jobs_of d1) i = Some job" "get_runtime i d1 = get_runtime i d"
        using assms(1) Some by (simp_all add: d1)
      show ?thesis
      proof (cases err)
        case (Some e)
        with torrent Inr sw s1(1) show ?thesis by (simp add: select_files_def get)
      next
        case None
        note eq = torrent Inr sw None
        define restart where "restart = (opt_torbox (j_options job) \<and> (j_status job = StatusActive \<or> j_status job = StatusQueued))"
        have whole: "select_files ex files i spec d = store_choice i spec restart
            (if restart then restart_torbox ex files i sel d1 else (Inr job, d1))"
          using eq by (simp add: select_files_def get Let_def restart_def)
        show ?thesis
        proof (cases restart)
          case False
          with store_choice_settled [OF s1(1,2) False] show ?thesis by (simp add: whole)
        next
          case True
          have ok: "settled (snd (pause ex i d1))" "get_runtime i (snd (pause ex i d1)) = None" "seeder_of i (snd (pause ex i d1)) = None"
            using pause_settled [OF s1(1), of i ex] pause_frees [OF s1(1,2) torrent, of ex] s1 assms(2) torrent True
            by (auto simp: restart_def)
          obtain q d2 where p: "pause ex i d1 = (q, d2)" by (cases "pause ex i d1")
          have "settled (snd (store_choice i spec True (restart_torbox ex files i sel d1)))"
          proof (cases "row_of (jobs_of d2) i")
            case None
            with ok p s1(1) show ?thesis
              by (auto simp: restart_torbox_def store_choice_def on_get split: sum.splits option.splits)
          next
            case (Some r)
            let ?j = "r\<lparr>j_status := StatusQueued, j_error := []\<rparr>"
            have "settled (snd (save_choice i True (?j\<lparr>j_options := (j_options ?j)\<lparr>o_torrent_files := spec\<rparr>\<rparr>) d2))"
              by (rule save_choice_start [of _ _ r])
                (use ok p Some row_of_mem [OF Some] row_marshal [OF settled_synced Some] in auto)
            with ok p s1(1) Some show ?thesis
              by (auto simp: restart_torbox_def store_choice_def Let_def on_get split: sum.splits option.splits)
          qed
          with True show ?thesis by (simp add: whole)
        qed
      qed
    qed
  qed
qed


lemma create_failed_settled:
  assumes "settled d" and "create_job typ src out fmt c l sha opts d = (Inl e, d')"
  shows "settled d'"
proof -
  note nf = settled_nofaults [OF assms(1)]
  have same: "settled (d\<lparr>d_store := s\<rparr>)" if "st_rows s = jobs_of d" "st_faults s = []" for s
    using assms(1) that by (simp add: settled_but_def synced_but_def get_runtime_def seeder_of_def waiting_only_when_full_def slots_full_def)
  obtain n s1 where new: "new_id (d_store d) = (n, s1)" by (cases "new_id (d_store d)")
  then have s1: "st_rows s1 = jobs_of d" "st_faults s1 = []"
    using new_id_tries_rows [OF new [unfolded new_id_def]] new_id_nofaults [OF nf new [unfolded new_id_def]] by simp_all
  have row: "st_rows t = jobs_of d \<and> st_faults t = []" if "create_job_row j s1 = (Inl x, t)" for j x t
    using that s1 by (auto simp: create_job_row_def Let_def exec_no_faults split: if_splits)
  have on: "on_store new_id d = (n, d\<lparr>d_store := s1\<rparr>)" using new by (simp add: on_store_def)
  show ?thesis
  proof (cases "src = [] \<or> max_job_concurrency < (if c < 1 then 1 else c)")
    case True
    with assms show ?thesis by (auto simp: create_job_def Let_def split: if_splits)
  next
    case False
    show ?thesis
    proof (cases n)
      case (Inl x)
      with False assms(2) on have "d' = d\<lparr>d_store := s1\<rparr>" by (simp add: create_job_def Let_def)
      with same [OF s1] show ?thesis by simp
    next
      case (Inr i)
      obtain j where "on_store (create_job_row j) (d\<lparr>d_store := s1\<rparr>) = (Inl e, d')"
        using False assms(2) on Inr unfolding create_job_def Let_def by (simp split: if_splits)
      then obtain t where "create_job_row j s1 = (Inl e, t)" "d' = d\<lparr>d_store := t\<rparr>" by (auto simp: on_store_eq)
      with row same show ?thesis by blast
    qed
  qed
qed

lemma view_settled: "settled d \<Longrightarrow> view i d = (v, d') \<Longrightarrow> settled d'"
  by (auto simp: view_def on_get split: option.splits)

lemma start_report_settled:
  assumes "settled d"
  shows "settled (snd (start_and_report (create_job typ src out fmt c l sha opts d)))"
proof (cases "create_job typ src out fmt c l sha opts d")
  case (Pair r d')
  show ?thesis
  proof (cases r)
    case (Inl e)
    with Pair create_failed_settled [OF assms] show ?thesis by (simp add: start_and_report_def)
  next
    case (Inr j)
    with Pair have "settled (snd (start j d'))" using created_settled [OF assms] by simp
    from view_settled [OF this] Pair Inr show ?thesis by (simp add: start_and_report_def split: prod.splits)
  qed
qed

text \<open>A request that stops a running worker finds it ended within the five seconds, and no worker
  but a torrent's returns without a report.\<close>

definition request_ok :: "request \<Rightarrow> daemon \<Rightarrow> bool" where
  "request_ok rq d =
     (case rq of
        Pause i ex \<Rightarrow> (get_runtime i d \<noteq> None \<longrightarrow> ex \<noteq> None) \<and>
          (ex = Some Returned \<longrightarrow> (\<exists>r. row_of (jobs_of d) i = Some r \<and> j_type r = JobTorrent))
      | Cancel i ex \<Rightarrow> get_runtime i d \<noteq> None \<longrightarrow> ex \<noteq> None
      | Remove i _ ex \<Rightarrow> get_runtime i d \<noteq> None \<longrightarrow> ex \<noteq> None
      | SelectFiles i _ ex _ \<Rightarrow> get_runtime i d \<noteq> None \<longrightarrow> ex \<noteq> None
      | _ \<Rightarrow> True)"

lemma job_result_settled: "settled (snd p) \<Longrightarrow> settled (snd (job_result p))"
  by (auto simp: job_result_def split: sum.splits prod.splits)

lemma request_settled [go_inv]:
  assumes "settled d" and "request_ok rq d"
  shows "settled (snd (do_request nw rq d))"
proof (cases rq)
  case ListJobs
  have "on_store list_jobs d = (Inr (sort_key j_created (jobs_of d)), d)"
    using settled_nofaults [OF assms(1)] by (simp add: on_store_def list_jobs_def exec_no_faults)
  with ListJobs assms(1) show ?thesis by (simp add: snapshot_def)
next
  case (SetSettings cfg)
  show ?thesis
  proof (cases cfg)
    case (Some c)
    then show ?thesis
      using apply_settings_settled [OF assms(1), of "nw_order nw" "nw_listen nw" "nw_rejected nw" c] SetSettings
      by (cases "apply_settings (nw_order nw) (nw_listen nw) (nw_rejected nw) c d") (auto split: sum.splits)
  qed (use assms(1) SetSettings in simp)
qed (use assms in \<open>auto simp: request_ok_def intro!: job_result_settled start_report_settled pause_settled
      resume_settled retry_settled cancel_settled remove_settled select_files_settled split: sum.splits\<close>)

section \<open>The start-up scan\<close>

text \<open>What holds while the scan runs: of the jobs of \<open>R\<close>, still to come, none holds a slot.\<close>

definition scanning :: "string set \<Rightarrow> daemon \<Rightarrow> bool" where
  "scanning R d \<longleftrightarrow> st_faults (d_store d) = [] \<and> unique_ids (jobs_of d) \<and> wf_map (d_runtimes d) \<and>
     (\<forall>j\<in>set (jobs_of d). marshal_ok (j_options j)) \<and> (\<forall>i. seeder_of i d = None) \<and>
     (\<forall>i rt. get_runtime i d = Some rt \<longrightarrow> rt_cancel rt) \<and>
     (\<forall>i. i \<notin> R \<longrightarrow> (get_runtime i d \<noteq> None \<longleftrightarrow> (\<exists>j. row_of (jobs_of d) i = Some j \<and> j_status j = StatusActive))) \<and>
     (\<forall>i\<in>R. get_runtime i d = None) \<and>
     (\<forall>j\<in>set (jobs_of d). j_id j \<notin> R \<longrightarrow> j_status j \<noteq> StatusSeeding \<and> (j_status j = StatusQueued \<longrightarrow> slots_full d)) \<and>
     \<not> d_try_running d \<and> \<not> d_try_again d"

lemma scanning_done: "scanning {} d \<Longrightarrow> settled d \<and> (\<forall>j\<in>set (jobs_of d). j_status j \<noteq> StatusSeeding)"
  by (auto simp: scanning_def settled_but_def synced_but_def waiting_only_when_full_def)

lemma scanning_log [simp]: "scanning R (log_print l d) = scanning R d"
  by (simp add: scanning_def get_runtime_def seeder_of_def slots_full_def log_print_def)

lemma scanning_row: "scanning R d \<Longrightarrow> j \<in> set (jobs_of d) \<Longrightarrow> row_of (jobs_of d) (j_id j) = Some j"
  by (simp add: scanning_def row_of_unique)

text \<open>One job of the scan dealt with: its row rewritten to a status that holds no slot.\<close>

lemma scanning_rewrite:
  assumes "scanning R d" and "i \<in> R" and same: "d_runtimes d' = d_runtimes d" "d_settings d' = d_settings d"
    "d_seeders d' = d_seeders d" "d_try_running d' = d_try_running d" "d_try_again d' = d_try_again d"
    and rows: "jobs_of d' = modify_rows i f (jobs_of d)" "st_faults (d_store d') = []" "\<And>r. j_id (f r) = j_id r"
    and f: "\<And>r. row_of (jobs_of d) i = Some r \<Longrightarrow> marshal_ok (j_options (f r)) \<and> j_status (f r) \<noteq> StatusActive \<and>
      j_status (f r) \<noteq> StatusSeeding \<and> (j_status (f r) = StatusQueued \<longrightarrow> slots_full d)"
  shows "scanning (R - {i}) d'"
proof -
  have rt: "get_runtime k d' = get_runtime k d" "seeder_of k d' = seeder_of k d" "slots_full d' = slots_full d" for k
    using same by (simp_all add: get_runtime_def seeder_of_def slots_full_def)
  have at: "row_of (jobs_of d') k = (if k = i then map_option f (row_of (jobs_of d) i) else row_of (jobs_of d) k)" for k
    using rows by (simp add: row_of_modify)
  have mem: "(j_id j \<noteq> i \<and> j \<in> set (jobs_of d)) \<or> (\<exists>r. j_id j = i \<and> row_of (jobs_of d) i = Some r \<and> j = f r)"
    if j: "j \<in> set (jobs_of d')" for j
  proof -
    obtain r where r: "r \<in> set (jobs_of d)" "j = (if j_id r = i then f r else r)"
      using modify_rows_mem [of j i f "jobs_of d"] j rows(1) by auto
    with rows(3) scanning_row [OF assms(1) r(1)] show ?thesis by (cases "j_id r = i") auto
  qed
  have act: "(get_runtime k d' \<noteq> None) = (\<exists>j. row_of (jobs_of d') k = Some j \<and> j_status j = StatusActive)"
    if k: "k \<notin> R - {i}" for k
  proof (cases "k = i")
    case True
    have "get_runtime i d = None" using assms(1,2) by (simp add: scanning_def)
    with True at f show ?thesis by (auto simp: rt)
  next
    case False
    with k assms(1) show ?thesis by (simp add: at rt scanning_def)
  qed
  show ?thesis
    unfolding scanning_def
  proof (intro conjI)
    show "unique_ids (jobs_of d')" using assms(1) rows by (simp add: scanning_def unique_ids_modify)
    show "\<forall>j\<in>set (jobs_of d'). marshal_ok (j_options j)" using mem f assms(1) by (fastforce simp: scanning_def)
    show "\<forall>k. k \<notin> R - {i} \<longrightarrow> (get_runtime k d' \<noteq> None) = (\<exists>j. row_of (jobs_of d') k = Some j \<and> j_status j = StatusActive)"
      using act by blast
    show "\<forall>j\<in>set (jobs_of d'). j_id j \<notin> R - {i} \<longrightarrow>
        j_status j \<noteq> StatusSeeding \<and> (j_status j = StatusQueued \<longrightarrow> slots_full d')"
      using mem f assms(1) by (fastforce simp: scanning_def rt)
  qed (use assms(1) same rows(2) in \<open>auto simp: scanning_def rt\<close>)
qed


lemma scanning_started:
  assumes "scanning R d" and "row_of (jobs_of d) (j_id j) = Some r" and "get_runtime (j_id j) d = None"
    and "\<not> slots_full d" and "j_id j \<in> R"
  shows "scanning (R - {j_id j}) (started j d)"
  unfolding scanning_def
proof (intro conjI)
  let ?i = "j_id j"
  have mem: "(j_id k \<noteq> ?i \<and> k \<in> set (jobs_of d)) \<or> (j_id k = ?i \<and> j_status k = StatusActive \<and> marshal_ok (j_options k))"
    if k: "k \<in> set (jobs_of (started j d))" for k
  proof -
    obtain k' where "k' \<in> set (jobs_of d)" "k = (if j_id k' = ?i then activated (st_now (d_store d)) k' else k')"
      using modify_rows_mem [of k ?i "activated (st_now (d_store d))" "jobs_of d"] k by (auto simp: started_def)
    with assms(1) show ?thesis by (cases "j_id k' = ?i") (auto simp: scanning_def)
  qed
  show "\<forall>k\<in>set (jobs_of (started j d)). marshal_ok (j_options k)"
    using mem assms(1) by (auto simp: scanning_def)
  show "\<forall>i rt. get_runtime i (started j d) = Some rt \<longrightarrow> rt_cancel rt"
    using assms(1) by (auto simp: scanning_def launch_runtime_def)
  show "\<forall>i. i \<notin> R - {?i} \<longrightarrow> (get_runtime i (started j d) \<noteq> None) =
      (\<exists>k. row_of (jobs_of (started j d)) i = Some k \<and> j_status k = StatusActive)"
    using assms(1,2) by (auto simp: row_of_started scanning_def)
  show "\<forall>k\<in>set (jobs_of (started j d)). j_id k \<notin> R - {?i} \<longrightarrow>
      j_status k \<noteq> StatusSeeding \<and> (j_status k = StatusQueued \<longrightarrow> slots_full (started j d))"
    using mem assms(1,4) by (fastforce simp: scanning_def)
  show "\<forall>i\<in>R - {?i}. get_runtime i (started j d) = None"
    using assms(1) by (simp add: scanning_def)
  show "\<forall>i. seeder_of i (started j d) = None" using assms(1) by (simp add: scanning_def)
  show "\<not> d_try_running (started j d)" "\<not> d_try_again (started j d)" "st_faults (d_store (started j d)) = []"
    using assms(1) by (simp_all add: scanning_def)
  show "unique_ids (jobs_of (started j d))" using assms(1) by (simp add: scanning_def started_def unique_ids_modify)
  show "wf_map (d_runtimes (started j d))" using assms(1) by (simp add: scanning_def started_def set_runtime_def)
qed

lemma scanning_start:
  assumes "scanning R d" and "row_of (jobs_of d) (j_id j) = Some r" and "j_status r = StatusQueued" and "j_id j \<in> R"
  shows "scanning (R - {j_id j}) (snd (start j d)) \<and>
    (\<forall>k. k \<noteq> j_id j \<longrightarrow> row_of (jobs_of (snd (start j d))) k = row_of (jobs_of d) k)"
proof -
  have nf: "st_faults (d_store d) = []" and none: "get_runtime (j_id j) d = None"
    using assms(1,4) by (simp_all add: scanning_def)
  show ?thesis
  proof (cases "slots_full d")
    case True
    have "scanning (R - {j_id j}) d"
      by (rule scanning_rewrite [OF assms(1,4), where f = "\<lambda>r. r"])
        (use True assms nf row_of_mem [OF assms(2)] in \<open>auto simp: modify_rows_id scanning_def\<close>)
    with True show ?thesis by (simp add: start_def start_refused)
  next
    case False
    then show ?thesis
      using scanning_started [OF assms(1,2) none False assms(4)] start_free [OF nf none False]
      by (simp add: start_def row_of_started)
  qed
qed

text \<open>The row of a job still to come is rewritten, whatever its status.\<close>

lemma scanning_saved:
  assumes "scanning R d" and "j_id job \<in> R" and "marshal_ok (j_options job)"
  shows "scanning R (saved job d)"
proof -
  have mem: "k \<in> set (jobs_of d) \<and> j_id k \<noteq> j_id job \<or> j_id k = j_id job \<and> marshal_ok (j_options k)"
    if k: "k \<in> set (jobs_of (saved job d))" for k
    using k assms(3) by (auto simp: saved_def modify_rows_def row_written_def split: if_splits)
  show ?thesis
    unfolding scanning_def
  proof (intro conjI)
    show "unique_ids (jobs_of (saved job d))"
      using assms(1) by (simp add: scanning_def saved_def modify_written unique_ids_modify)
    show "\<forall>i. i \<notin> R \<longrightarrow> (get_runtime i (saved job d) \<noteq> None) =
        (\<exists>k. row_of (jobs_of (saved job d)) i = Some k \<and> j_status k = StatusActive)"
    proof (intro allI impI)
      fix i assume i: "i \<notin> R"
      with assms(2) have "i \<noteq> j_id job" by auto
      with i assms(1) show "(get_runtime i (saved job d) \<noteq> None) =
        (\<exists>k. row_of (jobs_of (saved job d)) i = Some k \<and> j_status k = StatusActive)"
        by (simp add: scanning_def saved_row)
    qed
    show "\<forall>k\<in>set (jobs_of (saved job d)). j_id k \<notin> R \<longrightarrow>
        j_status k \<noteq> StatusSeeding \<and> (j_status k = StatusQueued \<longrightarrow> slots_full (saved job d))"
    proof (intro ballI impI)
      fix k assume k: "k \<in> set (jobs_of (saved job d))" "j_id k \<notin> R"
      then have "k \<in> set (jobs_of d)" using mem [OF k(1)] assms(2) by auto
      with k(2) assms(1) show "j_status k \<noteq> StatusSeeding \<and> (j_status k = StatusQueued \<longrightarrow> slots_full (saved job d))"
        by (simp add: scanning_def)
    qed
    show "\<forall>k\<in>set (jobs_of (saved job d)). marshal_ok (j_options k)"
      using mem assms(1) by (auto simp: scanning_def)
    show "\<forall>i. seeder_of i (saved job d) = None" using assms(1) by (simp add: scanning_def saved_def seeder_of_def)
  qed (use assms(1) in \<open>simp_all add: scanning_def\<close>)
qed

lemma scanning_active:
  assumes "scanning R d" and "row_of (jobs_of d) (j_id j) = Some j" and "j_id j \<in> R" and "j_status j = StatusActive"
  shows "scanning (R - {j_id j}) (resume_one j d) \<and>
    (\<forall>k. k \<noteq> j_id j \<longrightarrow> row_of (jobs_of (resume_one j d)) k = row_of (jobs_of d) k)"
proof -
  let ?d = "log_print (''resuming interrupted job '' @ j_id j) d"
  let ?j = "j\<lparr>j_status := StatusQueued\<rparr>"
  let ?w = "?j\<lparr>j_updated := st_now (d_store d)\<rparr>"
  have nf: "st_faults (d_store ?d) = []" using assms(1) by (simp add: scanning_def)
  have m: "marshal_ok (j_options ?j)" using assms(1) row_of_mem [OF assms(2)] by (simp add: scanning_def)
  have sv: "save_job ?j ?d = (Inr ?w, saved ?j ?d)" using save_free [OF nf m] by simp
  have sc: "scanning R (saved ?j ?d)" by (rule scanning_saved) (use assms m in simp_all)
  have row: "row_of (jobs_of (saved ?j ?d)) (j_id ?w) = Some ((row_written (d_store ?d) ?j j)\<lparr>j_id := j_id j\<rparr>)"
    using assms(2) by (simp add: saved_row)
  have "scanning (R - {j_id ?w}) (snd (start ?w (saved ?j ?d))) \<and>
    (\<forall>k. k \<noteq> j_id ?w \<longrightarrow> row_of (jobs_of (snd (start ?w (saved ?j ?d)))) k = row_of (jobs_of (saved ?j ?d)) k)"
    by (rule scanning_start [OF sc row]) (use assms(3) in \<open>simp_all add: row_written_def\<close>)
  moreover have "resume_one j d = snd (start ?w (saved ?j ?d))"
    using assms(4) sv by (simp add: resume_one_def Let_def)
  ultimately show ?thesis by (simp add: saved_row)
qed

lemma scanning_one:
  assumes "scanning R d" and "row_of (jobs_of d) (j_id j) = Some j" and "j_id j \<in> R"
  shows "scanning (R - {j_id j}) (resume_one j d) \<and>
    (\<forall>k. k \<noteq> j_id j \<longrightarrow> row_of (jobs_of (resume_one j d)) k = row_of (jobs_of d) k)"
proof -
  have nf: "st_faults (d_store d) = []" using assms(1) by (simp add: scanning_def)
  have m: "marshal_ok (j_options j)" using assms(1) row_of_mem [OF assms(2)] by (simp add: scanning_def)
  consider (seeding) "j_status j = StatusSeeding" | (queued) "j_status j = StatusQueued"
    | (active) "j_status j = StatusActive" | (other) "j_status j \<notin> {StatusSeeding, StatusQueued, StatusActive}" by blast
  then show ?thesis
  proof cases
    case seeding
    have "scanning (R - {j_id j}) (status_saved (j_id j) StatusCompleted [] d)"
    proof (rule scanning_rewrite [OF assms(1,3), where f = "status_set StatusCompleted [] (st_now (d_store d))"])
      show "jobs_of (status_saved (j_id j) StatusCompleted [] d) =
        modify_rows (j_id j) (status_set StatusCompleted [] (st_now (d_store d))) (jobs_of d)"
        by (simp add: status_saved_def)
      show "d_seeders (status_saved (j_id j) StatusCompleted [] d) = d_seeders d" by (simp add: status_saved_def)
    qed (use nf m assms(2) in \<open>simp_all add: status_set_def\<close>)
    with seeding show ?thesis by (simp add: resume_one_def status_free [OF nf])
  next
    case queued
    let ?d = "log_print (''resuming interrupted job '' @ j_id j) d"
    have "scanning R ?d" "row_of (jobs_of ?d) (j_id j) = Some j" using assms by simp_all
    from scanning_start [OF this queued assms(3)] queued show ?thesis by (simp add: resume_one_def Let_def)
  next
    case active
    with assms show ?thesis by (rule scanning_active)
  next
    case other
    have "scanning (R - {j_id j}) d"
      by (rule scanning_rewrite [OF assms(1,3), where f = "\<lambda>r. r"])
        (use other assms nf m in \<open>simp_all add: modify_rows_id\<close>)
    with other show ?thesis by (simp add: resume_one_def)
  qed
qed

lemma scanning_all:
  assumes "scanning (j_id ` set js) d" and "distinct (map j_id js)"
    and "\<forall>j\<in>set js. row_of (jobs_of d) (j_id j) = Some j"
  shows "scanning {} (fold resume_one js d)"
  using assms
proof (induction js arbitrary: d)
  case Nil
  then show ?case by simp
next
  case (Cons j js)
  note one = scanning_one [OF Cons.prems(1), of j]
  have "j_id ` set (j # js) - {j_id j} = j_id ` set js" using Cons.prems(2) by auto
  with one Cons.prems have "scanning (j_id ` set js) (resume_one j d)" by simp
  moreover have "\<forall>k\<in>set js. row_of (jobs_of (resume_one j d)) (j_id k) = Some k"
    using one Cons.prems by (metis distinct.simps(2) image_eqI list.set_intros(1,2) list.set_map list.simps(9))
  ultimately show ?case using Cons.IH Cons.prems(2) by simp
qed

lemma scan_fresh:
  assumes "jobs_of d = rows" "st_faults (d_store d) = []" "d_runtimes d = []" "d_seeders d = Some []"
    "\<not> d_try_running d" "\<not> d_try_again d"
    and "unique_ids rows" and "\<forall>j\<in>set rows. marshal_ok (j_options j)"
  shows "scanning {} (resume_interrupted_jobs d)"
proof -
  define js where "js = sort_key j_created rows"
  have js: "list_jobs (d_store d) = (Inr js, d_store d)" "set js = set (jobs_of d)"
    using assms(1,2) by (simp_all add: list_jobs_def exec_no_faults js_def)
  have "mset (map j_id js) = mset (map j_id rows)" by (simp add: js_def)
  then have dist: "distinct (map j_id js)"
    using assms(7) mset_eq_imp_distinct_iff unfolding unique_ids_def by blast
  have gone: "row_of (jobs_of d) i \<noteq> Some j" if "i \<notin> j_id ` set js" for i j
    using that js(2) row_of_mem [of "jobs_of d" i j] by auto
  have "scanning (j_id ` set js) d"
    unfolding scanning_def
    using assms gone js(2) by (simp add: get_runtime_def seeder_of_def wf_map_def)
  then have "scanning {} (fold resume_one js d)"
    by (rule scanning_all) (use js dist assms in \<open>simp_all add: row_of_unique\<close>)
  then show ?thesis using js(1) by (simp add: resume_interrupted_jobs_def on_store_def)
qed

lemma sync_frame:
  "sync_web_ui listen cfg d = (e, d') \<Longrightarrow> d_store d' = d_store d \<and> d_runtimes d' = d_runtimes d \<and>
   d_seeders d' = d_seeders d \<and> d_try_running d' = d_try_running d \<and> d_try_again d' = d_try_again d \<and>
   d_settings d' = d_settings d"
  by (auto simp: sync_web_ui_def Let_def split: if_splits option.splits)

lemma served_scan:
  assumes "new_daemon s now files = Inr d" and "st_faults s = []" and "unique_ids (st_rows s)"
    and "\<forall>j\<in>set (st_rows s). marshal_ok (j_options j)"
  shows "scanning {} (serve listen d)"
proof -
  have d: "jobs_of d = st_rows s" "st_faults (d_store d) = []" "d_runtimes d = []" "d_seeders d = Some []"
    "\<not> d_try_running d" "\<not> d_try_again d"
    using assms(1,2)
    by (auto simp: new_daemon_def apply_global_rate_limit_def Let_def get_settings_def exec_no_faults split: sum.splits prod.splits)
  obtain e d1 where sy: "sync_web_ui listen (d_settings d) d = (e, d1)" by (cases "sync_web_ui listen (d_settings d) d")
  note f = sync_frame [OF sy]
  show ?thesis
    unfolding serve_def sy
    by (rule scan_fresh [OF _ _ _ _ _ _ assms(3,4)]) (use f d in \<open>simp_all split: option.splits\<close>)
qed

text \<open>C3: after the start-up scan every row of a fault-free table is settled: a slot is held by
  the active rows and no others, a queued job waits only while every slot is taken, and no row
  is left seeding by the process before.\<close>

theorem resume_interrupted_settles:
  assumes "new_daemon s now files = Inr d" and "st_faults s = []" and "unique_ids (st_rows s)"
    and "\<forall>j\<in>set (st_rows s). marshal_ok (j_options j)"
  shows "settled (serve listen d) \<and> (\<forall>j\<in>set (jobs_of (serve listen d)). j_status j \<noteq> StatusSeeding)"
  using served_scan [OF assms] by (rule scanning_done)

text \<open>A process that died with one job active, one queued and one seeding: a daemon on its table.\<close>

definition crashed_rows :: "job list" where
  "crashed_rows = [sample_job ''a'' StatusActive, sample_job ''b'' StatusQueued, sample_job ''c'' StatusSeeding]"

definition sample_boot :: daemon where
  "sample_boot = (case new_daemon (sample_store crashed_rows) 0 [] of Inl _ \<Rightarrow> sample_daemon 0 [] [] | Inr d \<Rightarrow> d)"

lemma sample_boots: "new_daemon (sample_store crashed_rows) 0 [] = Inr sample_boot"
  by (simp add: sample_boot_def new_daemon_def get_settings_def exec_no_faults sample_store_def)

lemma crashed_rows_ok:
  "st_faults (sample_store crashed_rows) = []" "unique_ids (st_rows (sample_store crashed_rows))"
  "\<forall>j\<in>set (st_rows (sample_store crashed_rows)). marshal_ok (j_options j)"
  by (simp_all add: sample_store_def crashed_rows_def unique_ids_def)

theorem resume_interrupted_settles_witness:
  "settled (serve (\<lambda>_. None) sample_boot) \<and>
   list_all (\<lambda>j. j_status j \<noteq> StatusSeeding) (jobs_of (serve (\<lambda>_. None) sample_boot))"
  using resume_interrupted_settles [OF sample_boots crashed_rows_ok] by (simp add: list_all_iff)

end
