(* ===== verification/DaemonSteps.thy ===== *)
theory DaemonSteps
  imports ServerProps
begin

text \<open>
  The daemon as a transition system: the requests, the ends and the reports of workers, the
  torrent workers' stages, the timers, the seeding ticks, the clock, the world's own changes and
  the shutdown, in any order. The invariants proved operation by operation are put together:
  a reachable daemon is settled, and no step takes more slots than the cap (or than were held).
\<close>

section \<open>Steps\<close>

text \<open>What the clock, the torrent library and the disk do on their own.\<close>

definition world_moves :: "int \<Rightarrow> int \<Rightarrow> 32 word list \<Rightarrow> tmanager \<Rightarrow> string list \<Rightarrow> daemon \<Rightarrow> daemon" where
  "world_moves now wall rand m files d =
     d\<lparr>d_now := now, d_store := (d_store d)\<lparr>st_now := wall, st_rand := rand\<rparr>, d_tm := m, d_files := files\<rparr>"

inductive daemon_step :: "daemon \<Rightarrow> daemon \<Rightarrow> bool" where
  request: "request_ok rq d \<Longrightarrow> daemon_step d (snd (do_request nw rq d))"
| worker_ends: "get_runtime i d \<noteq> None \<Longrightarrow> ex \<noteq> Returned \<Longrightarrow> daemon_step d (worker_end i ex d)"
| worker_reports: "daemon_step d (report_progress i done tot off d)"
| torrent_begins: "get_runtime (j_id j) d \<noteq> None \<Longrightarrow> daemon_step d (torrent_begin magnet load client j d)"
| torrent_readies: "get_runtime (j_id j) d \<noteq> None \<Longrightarrow> daemon_step d (torrent_ready j d)"
| torrent_ticks: "get_runtime (j_id j) d \<noteq> None \<Longrightarrow> daemon_step d (torrent_tick j d)"
| timer_fires: "daemon_step d (fire_timer n d)"
| seed_ticks: "daemon_step d (seed_tick i d)"
| world: "daemon_step d (world_moves now wall rand m files d)"
| closes: "daemon_step d (close_daemon d)"

inductive_cases daemon_stepE: "daemon_step d d'"

text \<open>A daemon is built on a store whose rows an earlier process left, and scans them.\<close>

inductive reachable :: "daemon \<Rightarrow> bool" where
  boot: "new_daemon s now files = Inr d \<Longrightarrow> st_faults s = [] \<Longrightarrow> unique_ids (st_rows s) \<Longrightarrow>
    \<forall>j\<in>set (st_rows s). marshal_ok (j_options j) \<Longrightarrow> reachable (serve listen d)"
| step: "reachable d \<Longrightarrow> daemon_step d d' \<Longrightarrow> reachable d'"

section \<open>The invariants over all steps\<close>

lemma world_settled: "settled_but X (world_moves now wall rand m files d) = settled_but X d"
  by (simp add: world_moves_def settled_but_def synced_but_def waiting_only_when_full_def slots_full_def
      get_runtime_def seeder_of_def)

lemma step_settled: "daemon_step d d' \<Longrightarrow> settled d \<Longrightarrow> settled d'"
  by (induction rule: daemon_step.induct)
    (simp_all add: request_settled worker_end_settles report_settled torrent_begin_settled torrent_ready_settled
      torrent_tick_settled fire_settled seed_tick_settled world_settled close_settled)

lemma booted_settled:
  assumes "new_daemon s now files = Inr d" and "st_faults s = []" and "unique_ids (st_rows s)"
    and "\<forall>j\<in>set (st_rows s). marshal_ok (j_options j)"
  shows "settled (serve listen d)"
  using served_scan [OF assms] scanning_done by blast

lemma reachable_inv: "reachable d \<Longrightarrow> settled d"
  by (induction rule: reachable.induct) (simp_all add: booted_settled step_settled)


text \<open>What every step keeps on any store.\<close>

lemma step_guarded:
  assumes "daemon_step d d'" and "runtimes_ok d" and "web_safe d"
  shows "guarded (int (card (held_slots d))) d'"
proof -
  have b: "guarded (int (card (held_slots d))) d" by (rule bounded_own [OF assms(2,3)])
  show ?thesis
    using assms(1)
  proof cases
    case (world now wall rand m files)
    have "guarded n d' = guarded n d" for n
      by (rule bounded_cong) (simp_all add: world world_moves_def)
    with b show ?thesis by simp
  qed (use b assms(2,3) in \<open>simp_all add: bounded_request bounded_worker_end bounded_report bounded_torrent_begin
      bounded_torrent_ready bounded_torrent_tick bounded_fire bounded_seed_tick bounded_close\<close>)
qed


text \<open>Stored settings that \<^verbatim>\<open>applySettings\<close> would accept never open an unsafe web interface.\<close>

lemma served_web_safe:
  assumes "daemon_step\<^sup>*\<^sup>* (serve listen d) d'" and "new_daemon s now files = Inr d"
    and "validate_web_settings (d_settings d) = None"
  shows "web_safe d'"
proof -
  have "runtimes_ok (serve listen d) \<and> web_safe (serve listen d)"
  proof -
    have d: "d_runtimes d = []" "d_web d = None"
      using assms(2) by (auto simp: new_daemon_def apply_global_rate_limit_def Let_def split: sum.splits prod.splits)
    then have "guarded 0 d"
      by (simp add: guarded_def web_safe_def pool.bounded_def runtimes_ok_def held_slots_def wf_map_def keys_of_def)
    then have "guarded 0 (serve listen d)"
      using bounded_sync [OF _ _ assms(3), of listen d]
      unfolding serve_def by (intro bounded_resume_all) (auto split: prod.splits option.splits)
    then show ?thesis by (simp add: guarded_def pool.bounded_def)
  qed
  with assms(1) have "runtimes_ok d' \<and> web_safe d'"
  proof (induction rule: rtranclp_induct)
    case (step x y)
    then show ?case using step_guarded [of x y] by (simp add: guarded_def pool.bounded_def)
  qed simp
  then show ?thesis by simp
qed

text \<open>A run: a daemon on a crashed process's table, a new cap of one, the end of a worker.\<close>

definition sample_network :: network where
  "sample_network = \<lparr>nw_order = (\<lambda>kvs. kvs), nw_listen = (\<lambda>_. None), nw_rejected = (\<lambda>_. False)\<rparr>"

definition sample_run :: daemon where
  "sample_run = snd (do_request sample_network (Pause ''b'' (Some (Finished 7 False (Some ErrCanceled))))
     (serve (\<lambda>_. None) sample_boot))"


definition sample_full :: daemon where
  "sample_full = set_runtime ''a'' (launch_runtime 0 (sample_job ''a'' StatusQueued))
     (sample_daemon 1 [sample_job ''a'' StatusActive, sample_job ''b'' StatusQueued] [False, True, False])"


text \<open>A daemon started on stored settings that open the web interface to the network.\<close>

definition web_rows :: "(string \<times> string) list" where
  "web_rows = [(''webui'', ''true''), (''webui_network'', ''true''), (''webui_username'', ''u''), (''webui_password'', ''p'')]"

definition web_boot :: daemon where
  "web_boot = (case new_daemon ((sample_store [])\<lparr>st_settings := web_rows\<rparr>) 0 [] of Inl _ \<Rightarrow> sample_daemon 0 [] [] | Inr d \<Rightarrow> d)"

lemma web_boots: "new_daemon ((sample_store [])\<lparr>st_settings := web_rows\<rparr>) 0 [] = Inr web_boot"
  by (simp add: web_boot_def new_daemon_def get_settings_def exec_no_faults sample_store_def)

lemma web_boot_settings: "d_settings web_boot = settings_of_kv web_rows" "jobs_of web_boot = []" "d_web web_boot = None"
  "st_faults (d_store web_boot) = []"
  by (simp_all add: web_boot_def new_daemon_def get_settings_def exec_no_faults sample_store_def
      apply_global_rate_limit_def Let_def)

lemma web_rows_settings: "s_webui (settings_of_kv web_rows)" "s_webui_network (settings_of_kv web_rows)"
  "s_webui_username (settings_of_kv web_rows) = ''u''" "s_webui_password (settings_of_kv web_rows) = ''p''"
  "s_webui_port (settings_of_kv web_rows) = default_webui_port"
  by (simp_all add: settings_of_kv_def web_rows_def read_field_def read_bool_def Let_def default_settings_def)

lemma web_boot_serves: "d_web (serve (\<lambda>_. None) web_boot) = Some (web_key_of (settings_of_kv web_rows))"
  by (simp add: serve_def sync_web_ui_def web_boot_settings web_rows_settings resume_interrupted_jobs_def on_store_def
      list_jobs_def exec_no_faults)

end
