(* ===== verification/Outcomes.thy ===== *)
theory Outcomes
  imports DaemonSteps
begin

text \<open>
  What single operations of the daemon leave behind, branch by branch: the row at the end of a
  job, the checkpoint of a report, the web server that runs, the files a purge deletes; and the
  orders of events the code does not guard against: a worker that ends late, a timer that was
  replaced, a stop of a slot that is only reserved.
\<close>

section \<open>The end of a job\<close>

text \<open>Is the failure going to be retried by the daemon?\<close>

definition will_retry :: "settings \<Rightarrow> bool \<Rightarrow> gerror option \<Rightarrow> job \<Rightarrow> bool" where
  "will_retry cfg completed err j \<longleftrightarrow> \<not> completed \<and> err \<noteq> None \<and> err \<noteq> Some ErrCanceled \<and>
     s_auto_retry cfg \<and> j_retry_count j < s_auto_retry_max cfg"

lemma finish_status_spec:
  assumes "finish_status cfg completed err j = (j', delay)"
  shows "j_id j' = j_id j \<and> j_options j' = j_options j \<and> j_bytes_done j' = j_bytes_done j \<and>
    j_resume_offset j' = j_resume_offset j \<and>
    j_status j' = (if completed then StatusCompleted else if err = Some ErrCanceled then StatusPaused else StatusFailed) \<and>
    j_retry_count j' = (if completed then 0 else if will_retry cfg completed err j then j_retry_count j + 1 else j_retry_count j) \<and>
    delay = (if will_retry cfg completed err j then auto_retry_backoff (j_retry_count j + 1) else 0)"
proof -
  consider "completed" | "\<not> completed" "err = None" | "\<not> completed" "err = Some ErrCanceled"
    | x where "\<not> completed" "err = Some x" "x \<noteq> ErrCanceled"
    by (cases err) auto
  then show ?thesis
  proof cases
    case 4
    show ?thesis
    proof (cases "s_auto_retry cfg \<and> j_retry_count j < s_auto_retry_max cfg")
      case True
      with assms 4 show ?thesis unfolding finish_status_def Let_def will_retry_def by clarsimp
    next
      case False
      with assms 4 show ?thesis unfolding finish_status_def will_retry_def by clarsimp
    qed
  next
    case 1
    with assms show ?thesis unfolding finish_status_def will_retry_def by clarsimp
  next
    case 2
    with assms show ?thesis unfolding finish_status_def will_retry_def by clarsimp
  next
    case 3
    with assms show ?thesis unfolding finish_status_def will_retry_def by clarsimp
  qed
qed

lemma backoff_loop_pos: "0 < t \<Longrightarrow> 0 < backoff_loop k t"
  by (induction k arbitrary: t) (auto simp: minute_ns_def second_ns_def)

lemma backoff_pos: "0 < auto_retry_backoff n"
  by (simp add: auto_retry_backoff_def backoff_loop_pos second_ns_def)

text \<open>The end of a job whose row is there.\<close>

lemma finish_job_row:
  assumes "st_faults (d_store d) = []" and "row_of (jobs_of d) i = Some r" and "marshal_ok (j_options r)"
    and "d_timers d = Some m"
  shows "\<exists>r'. row_of (jobs_of (finish_job i b c e d)) i = Some r' \<and> j_bytes_done r' = b \<and>
      j_resume_offset r' = (if j_type r = JobURL then b else j_resume_offset r) \<and>
      j_status r' = (if c then StatusCompleted else if e = Some ErrCanceled then StatusPaused else StatusFailed) \<and>
      j_retry_count r' = (if c then 0 else if will_retry (d_settings d) c e r then j_retry_count r + 1 else j_retry_count r) \<and>
      d_armed (finish_job i b c e d) = d_armed d @ (if will_retry (d_settings d) c e r
        then [(d_next_timer d, i, d_now d + auto_retry_backoff (j_retry_count r + 1))] else [])"
proof -
  define j1 where "j1 = (let j = r\<lparr>j_bytes_done := b\<rparr> in if j_type j = JobURL then j\<lparr>j_resume_offset := b\<rparr> else j)"
  obtain j' delay where fs: "finish_status (d_settings d) c e j1 = (j', delay)"
    by (cases "finish_status (d_settings d) c e j1")
  note sp = finish_status_spec [OF fs]
  have j1: "j_id j1 = i" "j_options j1 = j_options r" "j_retry_count j1 = j_retry_count r" "j_bytes_done j1 = b"
    "j_resume_offset j1 = (if j_type r = JobURL then b else j_resume_offset r)"
    "\<And>c e. will_retry (d_settings d) c e j1 = will_retry (d_settings d) c e r"
    using row_of_mem [OF assms(2)] by (auto simp: j1_def will_retry_def Let_def)
  have g: "on_store (get_job i) d = (Inr r, d)"
    using assms(1,2) by (simp add: on_store_def get_job_total)
  have m': "marshal_ok (j_options j')" using sp j1 assms(3) by simp
  let ?d2 = "saved j' d"
  have "do_store (update_job j') d = ?d2" by (rule do_update_free [OF assms(1) m'])
  then have fin: "finish_job i b c e d = (let d = ?d2; d = (if c \<and> s_notify (d_settings d)
         then d\<lparr>d_notified := d_notified d @ [notify_body j']\<rparr> else d)
       in if 0 < delay then schedule_auto_retry i delay d else d)"
    using g fs by (simp add: finish_job_def Let_def j1_def)
  have row: "row_of (jobs_of (finish_job i b c e d)) i = row_of (jobs_of ?d2) i"
    unfolding fin Let_def using schedule_frame by simp
  have keep: "d_timers ?d2 = d_timers d" "d_armed ?d2 = d_armed d" "d_now ?d2 = d_now d" "d_next_timer ?d2 = d_next_timer d"
    by (simp_all add: saved_def)
  have arm: "d_armed (finish_job i b c e d) =
      d_armed d @ (if 0 < delay then [(d_next_timer d, i, d_now d + delay)] else [])"
    unfolding fin Let_def using assms(4) keep by (simp add: schedule_auto_retry_def Let_def)
  have r2: "row_of (jobs_of ?d2) i = Some ((row_written (d_store d) j' r)\<lparr>j_id := j_id r\<rparr>)"
    using saved_row [of j' d i] assms(2) sp j1 by simp
  show ?thesis
    unfolding row r2 arm using sp j1 backoff_pos [of "j_retry_count r + 1"]
    by (simp add: row_written_def)
qed

text \<open>the end of a job whose row is there writes the row of every branch: the bytes (for a
  URL also as the resume offset), completed, paused on a cancellation or failed otherwise; the
  retry count goes to 0 on completion and up by one exactly when a retry is going to come; and
  a timer for it is armed exactly then, at the backoff's delay.\<close>

theorem finish_job_outcome:
  assumes "st_faults (d_store d) = []" and "row_of (jobs_of d) i = Some r" and "marshal_ok (j_options r)"
    and "d_timers d = Some m"
  shows "\<exists>r'. row_of (jobs_of (finish_job i b c e d)) i = Some r' \<and> j_bytes_done r' = b \<and>
      j_resume_offset r' = (if j_type r = JobURL then b else j_resume_offset r) \<and>
      j_status r' = (if c then StatusCompleted else if e = Some ErrCanceled then StatusPaused else StatusFailed) \<and>
      j_retry_count r' = (if c then 0 else if will_retry (d_settings d) c e r then j_retry_count r + 1 else j_retry_count r) \<and>
      d_armed (finish_job i b c e d) = d_armed d @ (if will_retry (d_settings d) c e r
        then [(d_next_timer d, i, d_now d + auto_retry_backoff (j_retry_count r + 1))] else [])"
  using assms by (rule finish_job_row)

definition retrying_daemon :: daemon where
  "retrying_daemon = (sample_daemon 0 [sample_job ''a'' StatusActive] [])\<lparr>d_settings := default_settings\<lparr>s_auto_retry := True\<rparr>\<rparr>"

lemma retrying_simps [simp]:
  "jobs_of retrying_daemon = [sample_job ''a'' StatusActive]" "st_faults (d_store retrying_daemon) = []"
  "d_timers retrying_daemon = Some []" "d_armed retrying_daemon = []" "d_next_timer retrying_daemon = 0"
  "d_settings retrying_daemon = default_settings\<lparr>s_auto_retry := True\<rparr>"
  by (simp_all add: retrying_daemon_def) (simp_all add: sample_daemon_def)

theorem finish_job_outcome_witness:
  "d_armed (finish_job ''a'' 7 False (Some ErrEOF) retrying_daemon) =
     [(0, ''a'', d_now retrying_daemon + 5 * second_ns)]"
  using finish_job_outcome [of retrying_daemon "''a''" "sample_job ''a'' StatusActive" "[]" 7 False "Some ErrEOF"]
  by (auto simp: will_retry_def default_settings_def sample_job_def marshal_ok_def empty_options_def
      auto_retry_backoff_def)

section \<open>A worker that ends late\<close>

lemma saved_next: "d_timers (saved job d) = d_timers d"
  by (simp add: saved_def)

text \<open>\<^verbatim>\<open>cancel\<close> gives up waiting for the worker after five seconds and writes the row as
  canceled; the worker's own end, when it comes, writes it as paused: \<^verbatim>\<open>cancel\<close> is not the only
  writer of the transition.\<close>

theorem cancel_overwritten_by_late_worker:
  assumes "st_faults (d_store d) = []" and "row_of (jobs_of d) i = Some r" and "marshal_ok (j_options r)"
    and "d_timers d = Some m" and "j_status r = StatusActive" and "j_type r \<noteq> JobTorrent"
    and "get_runtime i d = Some rt" and "rt_cancel rt"
  shows "\<exists>j d1 r'. cancel None i d = (Inr j, d1) \<and> j_status j = StatusCanceled \<and>
    map_option j_status (row_of (jobs_of d1) i) = Some StatusCanceled \<and>
    row_of (jobs_of (worker_outcome i (Finished b False (Some ErrCanceled)) d1)) i = Some r' \<and> j_status r' = StatusPaused"
proof -
  let ?j = "r\<lparr>j_status := StatusCanceled, j_error := []\<rparr>"
  let ?d1 = "saved ?j d"
  have id: "j_id r = i" using row_of_mem [OF assms(2)] by simp
  have m: "marshal_ok (j_options ?j)" using assms(3) by simp
  have c: "cancel None i d = (Inr (?j\<lparr>j_updated := st_now (d_store d)\<rparr>), ?d1)"
    using assms(2,5-8) save_free [OF assms(1) m]
    by (simp add: cancel_def get_free [OF assms(1)] stop_worker_def)
  have row: "row_of (jobs_of ?d1) i = Some ((row_written (d_store d) ?j r)\<lparr>j_id := j_id r\<rparr>)"
    using saved_row [of ?j d i] assms(2) id by simp
  have "\<exists>r'. row_of (jobs_of (finish_job i b False (Some ErrCanceled) ?d1)) i = Some r' \<and> j_status r' = StatusPaused"
    using finish_job_row [OF _ row, of m b False "Some ErrCanceled"] assms(1,3,4)
    by (auto simp: row_written_def saved_next)
  with c row show ?thesis by (auto simp: worker_outcome_def row_written_def)
qed

theorem cancel_overwritten_by_late_worker_witness:
  "\<exists>j d1 r'. cancel None ''a'' (set_runtime ''a'' (placeholder\<lparr>rt_cancel := True\<rparr>) retrying_daemon) = (Inr j, d1) \<and>
    j_status j = StatusCanceled \<and> map_option j_status (row_of (jobs_of d1) ''a'') = Some StatusCanceled \<and>
    row_of (jobs_of (worker_outcome ''a'' (Finished 3 False (Some ErrCanceled)) d1)) ''a'' = Some r' \<and> j_status r' = StatusPaused"
  by (rule cancel_overwritten_by_late_worker [of _ _ "sample_job ''a'' StatusActive" "[]" "placeholder\<lparr>rt_cancel := True\<rparr>"])
    (simp_all add: get_runtime_def set_runtime_def)

section \<open>Reserved slots and replaced timers\<close>

text \<open>between \<^verbatim>\<open>acquireSlot\<close> and \<^verbatim>\<open>launch\<close> a job's runtime has no cancel function, and a pause
  of the (queued) job calls it: the daemon panics.\<close>

theorem pause_reserved_panics:
  assumes "st_faults (d_store d) = []" and "row_of (jobs_of d) i = Some r" and "j_status r = StatusQueued"
    and "j_type r \<noteq> JobTorrent" and "acquire_slot i d = (True, d1)"
  shows "d_panic (snd (pause ex i d1))"
proof -
  have d1: "d1 = set_runtime i placeholder d" using acquire_cases [OF assms(5)] by auto
  have "get_runtime i d1 = Some placeholder" "jobs_of d1 = jobs_of d" "st_faults (d_store d1) = []"
    using assms(1) by (simp_all add: d1 get_runtime_def set_runtime_def)
  then have "pause ex i d1 = on_store (get_job i) (go_panic d1)"
    using assms(2-4) by (simp add: pause_def get_free stop_worker_def placeholder_def)
  then show ?thesis by (simp add: on_store_def go_panic_def split: prod.splits)
qed

theorem pause_reserved_panics_witness:
  "d_panic (snd (pause None ''a'' (set_runtime ''a'' placeholder (sample_daemon 1 [sample_job ''a'' StatusQueued] []))))"
  by (rule pause_reserved_panics [of "sample_daemon 1 [sample_job ''a'' StatusQueued] []" _ "sample_job ''a'' StatusQueued"])
    (simp_all add: acquire_slot_def slots_full_def get_runtime_def)

text \<open>a second retry scheduled for a job replaces the first in the map without stopping it, and
  \<^verbatim>\<open>Close\<close> stops only what the map holds: the first timer is still armed afterwards.\<close>

theorem close_leaves_replaced_timer:
  assumes "d_timers d = Some m" and "\<forall>n\<in>snd ` set m. n < d_next_timer d"
  shows "(d_next_timer d, i, d_now d + t1) \<in>
    set (d_armed (close_daemon (schedule_auto_retry i t2 (schedule_auto_retry i t1 d))))"
proof -
  let ?m = "AList.update i (Suc (d_next_timer d)) (AList.update i (d_next_timer d) m)"
  have "d_next_timer d \<notin> snd ` set ?m"
  proof
    assume "d_next_timer d \<in> snd ` set ?m"
    then obtain k where k: "(k, d_next_timer d) \<in> set ?m" by auto
    have upd: "AList.update i y (AList.update i x m) = AList.update i y m" for x y :: nat
      by (induction m) auto
    have "set (AList.update i y m) \<subseteq> insert (i, y) (set m)" for y :: nat
      by (induction m) auto
    from subsetD [OF this k [unfolded upd]] have "(k, d_next_timer d) \<in> insert (i, Suc (d_next_timer d)) (set m)" .
    with assms(2) show False by force
  qed
  then show ?thesis
    using assms(1)
    by (simp add: schedule_auto_retry_def close_daemon_def stop_all_seeding_def Let_def)
qed

theorem close_leaves_replaced_timer_witness:
  "(0, ''a'', d_now retrying_daemon + 5) \<in>
    set (d_armed (close_daemon (schedule_auto_retry ''a'' 15 (schedule_auto_retry ''a'' 5 retrying_daemon))))"
  using close_leaves_replaced_timer [of retrying_daemon "[]" "''a''" 5 15] by simp

section \<open>Progress checkpoints\<close>

text \<open>when a report returns (no statement failing), the stored count of the job is what the
  runtime recorded as last persisted, less than 8 MiB behind the count just reported and
  written less than two seconds ago.\<close>

theorem report_checkpoint:
  assumes "st_faults (d_store d) = []" and "get_runtime i d = Some rt" and "row_of (jobs_of d) i = Some r"
    and "rt_last_persist rt = None \<or> j_bytes_done r = rt_last_persist_bytes rt"
    and "0 \<le> done" "done \<le> int64_max" "0 \<le> rt_last_persist_bytes rt" "rt_last_persist_bytes rt \<le> int64_max"
  shows "\<exists>rt' r' t. get_runtime i (report_progress i done tot off d) = Some rt' \<and>
    row_of (jobs_of (report_progress i done tot off d)) i = Some r' \<and> rt_bytes_done rt' = done \<and>
    rt_last_persist rt' = Some t \<and> j_bytes_done r' = rt_last_persist_bytes rt' \<and>
    done - j_bytes_done r' < persist_bytes \<and> d_now d - t < persist_interval"
proof (cases "rt_persists (d_now d) done (rt_report (d_now d) done tot rt)")
  case True
  let ?f = "\<lambda>j :: job. case off of
       Some r \<Rightarrow> j\<lparr>j_bytes_done := done, j_bytes_total := tot, j_resume_offset := r, j_updated := st_now (d_store d)\<rparr>
     | None \<Rightarrow> j\<lparr>j_bytes_done := done, j_bytes_total := tot, j_updated := st_now (d_store d)\<rparr>"
  let ?rt = "(rt_report (d_now d) done tot rt)\<lparr>rt_last_persist := Some (d_now d), rt_last_persist_bytes := done\<rparr>"
  have e: "report_progress i done tot off d = (set_runtime i ?rt d)\<lparr>d_store := (d_store d)\<lparr>st_rows := modify_rows i ?f (jobs_of d)\<rparr>\<rparr>"
    using True assms(1,2) by (simp add: report_progress_def Let_def do_store_eq update_progress_def exec_no_faults)
  have "row_of (modify_rows i ?f (jobs_of d)) i = Some (?f r)"
    using assms(3) by (subst row_of_modify) (auto split: option.splits)
  then show ?thesis unfolding e
    by (auto simp: get_runtime_def set_runtime_def rt_report_def Let_def persist_bytes_def persist_interval_def
        split: option.splits)
next
  case False
  let ?rt = "rt_report (d_now d) done tot rt"
  have same: "rt_last_persist ?rt = rt_last_persist rt" "rt_last_persist_bytes ?rt = rt_last_persist_bytes rt"
    "rt_bytes_done ?rt = done"
    by (simp_all add: rt_report_def Let_def)
  have "wrap64 (done - rt_last_persist_bytes rt) = done - rt_last_persist_bytes rt"
    by (rule wrap64_id) (use assms(5-8) in \<open>simp add: in_int64_def int64_min_def int64_max_def\<close>)
  with False same obtain t where "rt_last_persist rt = Some t" "d_now d - t < persist_interval"
    "done - rt_last_persist_bytes rt < persist_bytes"
    by (auto simp: rt_persists_def since_def)
  with assms(2-4) False same show ?thesis
    by (simp add: report_progress_def Let_def get_runtime_def set_runtime_def)
qed

theorem report_checkpoint_witness:
  "\<exists>rt' r' t. get_runtime ''a'' (report_progress ''a'' 5 9 None (set_runtime ''a'' placeholder retrying_daemon)) = Some rt' \<and>
    row_of (jobs_of (report_progress ''a'' 5 9 None (set_runtime ''a'' placeholder retrying_daemon))) ''a'' = Some r' \<and>
    rt_bytes_done rt' = 5 \<and> rt_last_persist rt' = Some t \<and> j_bytes_done r' = rt_last_persist_bytes rt' \<and>
    5 - j_bytes_done r' < persist_bytes \<and> d_now (set_runtime ''a'' placeholder retrying_daemon) - t < persist_interval"
  by (rule report_checkpoint [of _ _ placeholder "sample_job ''a'' StatusActive"])
    (simp_all add: get_runtime_def set_runtime_def placeholder_def int64_max_def)

section \<open>What a purge deletes\<close>

lemma below_trans: "below a b \<Longrightarrow> below b c \<Longrightarrow> below a c"
  by (auto simp: below_def has_prefix_iff)

lemma join_element:
  assumes "rooted dir" and "e \<noteq> []" "e \<noteq> ''.''" "e \<noteq> ''..''" "CHR ''/'' \<notin> set e"
  shows "path_join [dir, e] = show_path True (clean_elems True (path_elems dir) @ [e])"
proof -
  have dir: "dir \<noteq> []" using assms(1) by (auto simp: rooted_def)
  have elems: "path_elems (join_with ''/'' [dir, e]) = path_elems dir @ [e]"
    using assms(2-5) by (simp only: path_elems_join_with) (simp add: path_elems_def split_on_free)
  have "rooted (join_with ''/'' [dir, e])" using assms(1) dir by (cases dir) (simp_all add: rooted_def)
  then show ?thesis
    using dir elems assms(4) by (simp add: path_join_def path_clean_def clean_elems_def push_elem_def dotdot_def)
qed

text \<open>C40: a purge of a torrent whose recorded name is one path element deletes nothing outside
  \<^verbatim>\<open>output/name\<close>: every file gone was below it, and so strictly below the output directory.\<close>

theorem purge_confined:
  assumes "j_type job = JobTorrent" and "j_resolved job = name # ps" and "rooted (j_output job)"
    and "path_clean (j_output job) \<noteq> ''/''"
    and "name \<noteq> []" "name \<noteq> ''.''" "name \<noteq> ''..''" "CHR ''/'' \<notin> set name"
    and "f \<in> set (d_files d)" and "f \<notin> set (d_files (remove_downloaded_files job d))"
  shows "below (path_join [j_output job, name]) f \<and> below (path_clean (j_output job)) f \<and> f \<noteq> path_clean (j_output job)"
proof -
  let ?es = "clean_elems True (path_elems (j_output job))"
  have p: "path_join [j_output job, name] = show_path True (?es @ [name])"
    by (rule join_element) (use assms in simp_all)
  have o: "path_clean (j_output job) = show_path True ?es"
    using assms(3) by (simp add: path_clean_def)
  have ne: "?es \<noteq> []" using assms(4) o by (auto simp: show_path_def)
  have f: "below (show_path True (?es @ [name])) f"
    using assms(1,2,9,10) p by (auto simp: remove_downloaded_files_def remove_all_def split: if_splits)
  have "show_path True (?es @ [name]) = show_path True ?es @ ''/'' @ name"
    using join_with_append [OF ne, of "[name]" "''/''"] by (simp add: show_path_def)
  with f have "f \<noteq> show_path True ?es" by (auto simp: below_def has_prefix_iff)
  with f below_trans [OF below_show [OF ne, of "[name]"] f] show ?thesis by (simp add: p o)
qed

definition purged_job :: job where
  "purged_job = (sample_job ''t'' StatusCompleted)\<lparr>j_type := JobTorrent, j_output := ''/dl'', j_resolved := [''show'']\<rparr>"

definition purge_daemon :: daemon where
  "purge_daemon = (sample_daemon 0 [] [])\<lparr>d_files := [''/dl/show/a'', ''/dl/shown'']\<rparr>"

theorem purge_confined_witness:
  "below ''/dl'' ''/dl/show/a'' \<and> d_files (remove_downloaded_files purged_job purge_daemon) = [''/dl/shown'']"
proof -
  have j: "path_join [''/dl'', ''show''] = ''/dl/show''" "path_clean ''/dl'' = ''/dl''" by code_simp+
  have fs: "d_files (remove_downloaded_files purged_job purge_daemon) = [''/dl/shown'']"
    by (simp add: purged_job_def purge_daemon_def remove_downloaded_files_def j remove_all_def ends_with_dot_def
        has_suffix_def below_def)
  have "below (path_clean (j_output purged_job)) ''/dl/show/a''"
    using purge_confined [of purged_job "''show''" "[]" "''/dl/show/a''" purge_daemon] fs j
    by (simp add: purged_job_def purge_daemon_def rooted_def)
  then have "below ''/dl'' ''/dl/show/a''" using j by (simp add: purged_job_def)
  with fs show ?thesis by simp
qed

end
