(* ===== verification/WebAccess.thy ===== *)
theory WebAccess
  imports DaemonSteps
begin

text \<open>
  Who may use the web interface: \<^verbatim>\<open>internal/webui/auth.go\<close>, with the parts of Go's \<^verbatim>\<open>net\<close>
  package its \<^verbatim>\<open>hostAllowed\<close> uses (\<^verbatim>\<open>SplitHostPort\<close>, \<^verbatim>\<open>ParseIP\<close>), and how \<^verbatim>\<open>syncWebUI\<close> sets
  it up. A request is what \<^verbatim>\<open>net/http\<close> read from the wire. The lemmas show that only addresses
  and localhost pass the host check, what a request must carry to be served, and what happens
  when settings no check has seen open the interface.
\<close>

section \<open>Addresses\<close>

text \<open>\<^verbatim>\<open>strings.IndexByte\<close>, as the part before and from the byte.\<close>

definition index_byte :: "char \<Rightarrow> string \<Rightarrow> nat option" where
  "index_byte c s = (if c \<in> set s then Some (length (takeWhile (\<lambda>x. x \<noteq> c) s)) else None)"

text \<open>The host of \<^verbatim>\<open>net.SplitHostPort\<close>; \<open>None\<close> for its errors.\<close>

definition split_host :: "string \<Rightarrow> string option" where
  "split_host hp =
     (case last_index (CHR '':'') hp of
        None \<Rightarrow> None
      | Some i \<Rightarrow>
          if hd hp = CHR ''[''
          then (case index_byte (CHR '']'') hp of
              None \<Rightarrow> None
            | Some e \<Rightarrow>
                if e + 1 \<noteq> i then None
                else if CHR ''['' \<in> set (drop 1 hp) \<or> CHR '']'' \<in> set (drop (e + 1) hp) then None
                else Some (take (e - 1) (drop 1 hp)))
          else if CHR '':'' \<in> set (take i hp) \<or> CHR ''['' \<in> set hp \<or> CHR '']'' \<in> set hp then None
          else Some (take i hp))"

text \<open>One number of a dotted address: one to three digits, no leading zero, at most 255.\<close>

definition ipv4_field :: "string \<Rightarrow> bool" where
  "ipv4_field f \<longleftrightarrow> f \<noteq> [] \<and> (length f = 1 \<or> hd f \<noteq> CHR ''0'') \<and>
     (case parse_digits 0 f of None \<Rightarrow> False | Some n \<Rightarrow> n \<le> 255)"

definition ipv4_ok :: "string \<Rightarrow> bool" where
  "ipv4_ok s \<longleftrightarrow> length (split_on (CHR ''.'') s) = 4 \<and> list_all ipv4_field (split_on (CHR ''.'') s)"

definition is_hex :: "char \<Rightarrow> bool" where
  "is_hex c \<longleftrightarrow> (let n = (of_char c :: nat) in 48 \<le> n \<and> n \<le> 57 \<or> 65 \<le> n \<and> n \<le> 70 \<or> 97 \<le> n \<and> n \<le> 102)"

text \<open>The loop of \<^verbatim>\<open>parseIPv6\<close>: \<open>k\<close> of the eight groups are read, \<open>el\<close> tells whether an ellipsis was.\<close>

function ipv6_groups :: "nat \<Rightarrow> bool \<Rightarrow> string \<Rightarrow> bool" where
  "ipv6_groups k el s =
     (if 8 \<le> k then s = [] \<and> \<not> el
      else let g = takeWhile is_hex s; rest = dropWhile is_hex s in
        if g = [] \<or> 4 < length g then False
        else case rest of
            [] \<Rightarrow> if k + 1 < 8 then el else \<not> el
          | c # t \<Rightarrow>
              if c = CHR ''.''
              then (el \<or> k = 6) \<and> k \<le> 6 \<and> ipv4_ok s \<and> (if k + 2 < 8 then el else \<not> el)
              else if c \<noteq> CHR '':'' \<or> t = [] then False
              else if hd t = CHR '':''
              then \<not> el \<and> (if tl t = [] then k + 1 < 8 else ipv6_groups (k + 1) True (tl t))
              else ipv6_groups (k + 1) el t)"
  by pat_completeness auto
termination by (relation "measure (\<lambda>(k, el, s). 8 - k)") auto

definition ipv6_ok :: "string \<Rightarrow> bool" where
  "ipv6_ok s \<longleftrightarrow>
     (if has_prefix s ''::'' then drop 2 s = [] \<or> ipv6_groups 0 True (drop 2 s) else ipv6_groups 0 False s)"

text \<open>\<^verbatim>\<open>net.ParseIP\<close> accepts the string. The first of these bytes decides; a zone is refused.\<close>

definition parse_ip :: "string \<Rightarrow> bool" where
  "parse_ip s =
     (case dropWhile (\<lambda>c. c \<noteq> CHR ''.'' \<and> c \<noteq> CHR '':'' \<and> c \<noteq> CHR ''%'') s of
        [] \<Rightarrow> False
      | c # _ \<Rightarrow> if c = CHR ''.'' then ipv4_ok s
                 else if c = CHR '':'' then CHR ''%'' \<notin> set s \<and> ipv6_ok s else False)"

section \<open>The guard\<close>

text \<open>\<^verbatim>\<open>strings.Trim(host, "[]")\<close>.\<close>

definition trim_brackets :: "string \<Rightarrow> string" where
  "trim_brackets s =
     (let p = (\<lambda>c. c = CHR ''['' \<or> c = CHR '']'') in rev (dropWhile p (rev (dropWhile p s))))"

definition host_of :: "string \<Rightarrow> string" where
  "host_of hostport = trim_brackets (case split_host hostport of Some h \<Rightarrow> h | None \<Rightarrow> hostport)"

definition host_allowed :: "string \<Rightarrow> bool" where
  "host_allowed hostport \<longleftrightarrow> host_of hostport = ''localhost'' \<or> parse_ip (host_of hostport)"

text \<open>\<^verbatim>\<open>Auth\<close>, and a request as \<^verbatim>\<open>net/http\<close> hands it over. \<open>rq_origin\<close> is the host of the Origin
  header's URL: \<open>None\<close> without the header, \<open>Some None\<close> when it does not parse. \<open>rq_cookie\<close> is
  the value of the interface's cookie, \<open>rq_token\<close> the query's.\<close>

record auth =
  au_token :: string
  au_username :: string
  au_password :: string

record web_request =
  rq_method :: string
  rq_host :: string
  rq_origin :: "string option option"
  rq_path :: string
  rq_basic :: "(string \<times> string) option"
  rq_cookie :: "string option"
  rq_token :: string

definition origin_allowed :: "web_request \<Rightarrow> bool" where
  "origin_allowed r \<longleftrightarrow> rq_method r \<in> {''GET'', ''HEAD'', ''OPTIONS''} \<or>
     (case rq_origin r of None \<Rightarrow> True | Some None \<Rightarrow> False | Some (Some h) \<Rightarrow> h = rq_host r)"

definition auth_network :: "auth \<Rightarrow> bool" where
  "auth_network a \<longleftrightarrow> au_username a \<noteq> []"

datatype guard_answer = Served | Forbidden | Unauthorized | CookieSet

definition guard :: "auth \<Rightarrow> string list \<Rightarrow> web_request \<Rightarrow> guard_answer" where
  "guard a open_paths r =
     (if \<not> host_allowed (rq_host r) then Forbidden
      else if \<not> origin_allowed r then Forbidden
      else if list_ex (has_prefix (rq_path r)) open_paths then Served
      else if auth_network a
      then (case rq_basic r of
              None \<Rightarrow> Unauthorized
            | Some (u, p) \<Rightarrow> if u = au_username a \<and> p = au_password a then Served else Unauthorized)
      else if rq_cookie r = Some (au_token a) then Served
      else if rq_token r \<noteq> [] \<and> rq_token r = au_token a \<and> rq_method r = ''GET'' then CookieSet
      else Unauthorized)"

text \<open>The credentials \<^verbatim>\<open>syncWebUI\<close> gives the guard; \<open>token\<close> is the loopback token.\<close>

definition auth_of_key :: "string \<Rightarrow> web_key \<Rightarrow> auth" where
  "auth_of_key token k =
     (if wk_network k then \<lparr>au_token = [], au_username = wk_username k, au_password = wk_password k\<rparr>
      else \<lparr>au_token = token, au_username = [], au_password = []\<rparr>)"

section \<open>What passes\<close>

lemma parse_digits_all: "parse_digits acc f = Some n \<Longrightarrow> c \<in> set f \<Longrightarrow> digit_val c \<noteq> None"
  by (induction f arbitrary: acc) (auto split: option.splits)

lemma join_chars: "c \<in> set (join_with [x] ps) \<Longrightarrow> c = x \<or> (\<exists>p\<in>set ps. c \<in> set p)"
  by (induction ps rule: induct_list012) auto

lemma ipv4_chars:
  assumes "ipv4_ok s" and "c \<in> set s"
  shows "c = CHR ''.'' \<or> digit_val c \<noteq> None"
proof -
  have "c \<in> set (join_with [CHR ''.''] (split_on (CHR ''.'') s))" using assms(2) by (simp add: join_split)
  from join_chars [OF this] show ?thesis
  proof
    assume "\<exists>f\<in>set (split_on (CHR ''.'') s). c \<in> set f"
    then obtain f where f: "f \<in> set (split_on (CHR ''.'') s)" "c \<in> set f" by blast
    with assms(1) have "ipv4_field f" by (simp add: ipv4_ok_def list_all_iff)
    then obtain n where "parse_digits 0 f = Some n" by (auto simp: ipv4_field_def split: option.splits)
    from parse_digits_all [OF this f(2)] show ?thesis by simp
  qed simp
qed

text \<open>whatever Host a request names, it passes only as localhost, as a dotted quad of digits or as
  something with a colon in it: a DNS name an attacker can register, which has a letter in its
  last label and no colon, never does.\<close>

theorem host_allowed_addresses:
  assumes "host_allowed hp" and "host_of hp \<noteq> ''localhost''" and "CHR '':'' \<notin> set (host_of hp)"
  shows "length (split_on (CHR ''.'') (host_of hp)) = 4 \<and> (\<forall>c\<in>set (host_of hp). c = CHR ''.'' \<or> digit_val c \<noteq> None)"
proof -
  have p: "parse_ip (host_of hp)" using assms(1,2) by (simp add: host_allowed_def)
  then obtain c t where d: "dropWhile (\<lambda>c. c \<noteq> CHR ''.'' \<and> c \<noteq> CHR '':'' \<and> c \<noteq> CHR ''%'') (host_of hp) = c # t"
    by (auto simp: parse_ip_def split: list.splits)
  then have "c \<in> set (host_of hp)" by (metis list.set_intros(1) set_dropWhileD)
  with assms(3) p d have "ipv4_ok (host_of hp)" by (auto simp: parse_ip_def split: if_splits)
  then show ?thesis using ipv4_chars by (auto simp: ipv4_ok_def)
qed

theorem host_allowed_addresses_witness:
  "length (split_on (CHR ''.'') (host_of ''192.168.0.7:8090'')) = 4"
proof -
  have "host_allowed ''192.168.0.7:8090''" "host_of ''192.168.0.7:8090'' \<noteq> ''localhost''"
    "CHR '':'' \<notin> set (host_of ''192.168.0.7:8090'')"
    by code_simp+
  from host_allowed_addresses [OF this] show ?thesis by blast
qed


definition sample_request :: web_request where
  "sample_request = \<lparr>rq_method = ''GET'', rq_host = ''192.168.0.7:8090'', rq_origin = None, rq_path = ''/'',
     rq_basic = None, rq_cookie = Some [], rq_token = []\<rparr>"

lemma sample_host: "host_allowed ''192.168.0.7:8090''"
  by code_simp


section \<open>Settings no check has seen\<close>

text \<open>Accepted settings whose save fails at the username, and the daemon that starts on what was
  stored of them.\<close>

definition network_settings :: settings where
  "network_settings = default_settings\<lparr>s_webui := True, s_webui_network := True, s_webui_username := ''u'', s_webui_password := ''p''\<rparr>"

definition half_saved :: "unit result \<times> store" where
  "half_saved = save_settings (\<lambda>kvs. kvs) network_settings ((sample_store [])\<lparr>st_faults := [False, False, False, False, False, False, False, False, False, True]\<rparr>)"

lemma half_saved_eq: "half_saved = (Inl sql_error, (sample_store [])\<lparr>st_faults := [], st_settings := take 9 (settings_kv network_settings)\<rparr>)"
  by (simp add: half_saved_def save_settings_def settings_kv_def network_settings_def default_settings_def
      exec_def next_fault_def sample_store_def)

text \<open>\<^verbatim>\<open>Serve\<close> starts the web interface on the stored settings without the check that
  \<^verbatim>\<open>applySettings\<close> makes, and \<^verbatim>\<open>SaveSettings\<close> is no transaction: settings that pass the check,
  saved up to a failing statement, open the interface to the network at the next start, and a
  request with an empty cookie and no password is served.\<close>

theorem partial_save_opens_network:
  "settings_error network_settings = None \<and> \<not> is_ok (fst half_saved) \<and>
   (\<exists>d k. new_daemon (snd half_saved) 0 [] = Inr d \<and> d_web (serve (\<lambda>_. None) d) = Some k \<and> wk_network k \<and>
      guard (auth_of_key ''t'' k) [] sample_request = Served)"
proof -
  let ?d = "case new_daemon (snd half_saved) 0 [] of Inl _ \<Rightarrow> sample_daemon 0 [] [] | Inr d \<Rightarrow> d"
  let ?cfg = "settings_of_kv (take 9 (settings_kv network_settings))"
  have n: "new_daemon (snd half_saved) 0 [] = Inr ?d"
    by (simp add: half_saved_eq new_daemon_def get_settings_def exec_no_faults)
  have d: "d_settings ?d = ?cfg" "jobs_of ?d = []" "d_web ?d = None" "st_faults (d_store ?d) = []"
    by (simp_all add: half_saved_eq new_daemon_def get_settings_def exec_no_faults sample_store_def
        apply_global_rate_limit_def Let_def)
  have c: "s_webui ?cfg" "s_webui_network ?cfg" "s_webui_username ?cfg = []"
    by (simp_all add: settings_of_kv_def settings_kv_def read_field_def read_bool_def Let_def network_settings_def
        default_settings_def format_bool_def)
  have w: "d_web (serve (\<lambda>_. None) ?d) = Some (web_key_of ?cfg)"
    using d c by (simp add: serve_def sync_web_ui_def resume_interrupted_jobs_def on_store_def list_jobs_def exec_no_faults)
  have g: "wk_network (web_key_of ?cfg)" "guard (auth_of_key ''t'' (web_key_of ?cfg)) [] sample_request = Served"
    using c sample_host
    by (simp_all add: web_key_of_def guard_def auth_of_key_def auth_network_def origin_allowed_def sample_request_def)
  have "settings_error network_settings = None"
    by (simp add: settings_error_def network_settings_def default_settings_def rate_error_def validate_web_settings_def
        default_webui_port_def)
  with n w g show ?thesis by (auto simp: half_saved_eq)
qed

section \<open>A settings change that is refused\<close>

text \<open>a settings change whose web address cannot be served is refused and the settings stay as they
  were, but the web interface they ask for has been stopped.\<close>

theorem refused_settings_stop_web:
  assumes "settings_error cfg = None" and "check_torbox_key rejected (d_settings d) cfg = Inr cfg'"
    and "s_webui cfg'" and "d_web d = Some k" and "k \<noteq> web_key_of cfg'" and "listen (web_key_of cfg') = Some e"
  shows "\<exists>d' e'. apply_settings order listen rejected cfg d = (Inl e', d') \<and>
    d_settings d' = d_settings d \<and> d_store d' = d_store d \<and> d_web d' = None"
  using assms by (simp add: apply_settings_def sync_web_ui_def)

lemma trim_empty: "trim_space [] = []"
  by (rule trim_space_plain) simp

theorem refused_settings_stop_web_witness:
  "\<exists>d' e'. apply_settings (\<lambda>kvs. kvs) (\<lambda>_. Some ErrEOF) (\<lambda>_. False) network_settings
      ((sample_daemon 0 [] [])\<lparr>d_web := Some (web_key_of default_settings)\<rparr>) = (Inl e', d') \<and>
    d_settings d' = d_settings ((sample_daemon 0 [] [])\<lparr>d_web := Some (web_key_of default_settings)\<rparr>) \<and>
    d_store d' = d_store ((sample_daemon 0 [] [])\<lparr>d_web := Some (web_key_of default_settings)\<rparr>) \<and> d_web d' = None"
  by (rule refused_settings_stop_web [where cfg' = network_settings and k = "web_key_of default_settings" and e = ErrEOF])
    (simp_all add: network_settings_def default_settings_def settings_error_def rate_error_def validate_web_settings_def
      check_torbox_key_def trim_empty web_key_of_def default_webui_port_def)

end
