(* ===== verification/HostGate.thy ===== *)
theory HostGate
  imports Prelude
begin

text \<open>
  \<^verbatim>\<open>internal/webdav/hostgate.go\<close>: the gate that caps the requests to one WebDAV host. Every
  critical section of the code is an operation on \<open>gate\<close>; the goroutines that call \<^verbatim>\<open>acquire\<close>
  are callers with the place they have reached in it, and \<open>gate_step\<close> interleaves them. A caller
  that waits and is not in the queue has been signalled. Times are nanoseconds; a time never set
  is \<open>None\<close>. The lemmas bound the requests in flight, and say when a wake-up can get lost.
\<close>

section \<open>The gate\<close>

definition default_limit :: int where "default_limit = 4"
definition min_limit :: int where "min_limit = 1"
definition recover_after :: int where "recover_after = 5000000000"

record gate =
  g_limit :: int
  g_in_flight :: int
  g_waiters :: "nat list"
  g_cool_until :: "int option"
  g_last_throttle :: "int option"

definition new_gate :: gate where
  "new_gate = \<lparr>g_limit = default_limit, g_in_flight = 0, g_waiters = [], g_cool_until = None, g_last_throttle = None\<rparr>"

text \<open>The first statement of \<^verbatim>\<open>acquire\<close>'s loop: the ceiling widens after a quiet spell.\<close>

definition widen :: "int \<Rightarrow> gate \<Rightarrow> gate" where
  "widen now g =
     (case g_last_throttle g of
        None \<Rightarrow> g
      | Some t \<Rightarrow>
          if g_limit g < default_limit \<and> recover_after \<le> now - t
          then g\<lparr>g_limit := g_limit g + 1, g_last_throttle := Some now\<rparr> else g)"

definition cooling_down :: "int \<Rightarrow> gate \<Rightarrow> bool" where
  "cooling_down now g \<longleftrightarrow> (case g_cool_until g of None \<Rightarrow> False | Some t \<Rightarrow> 0 < t - now)"

datatype attempt = Granted | CoolDown | Enqueued

text \<open>The rest of the iteration: a slot, a wait for the cool-down, or a place in the queue.\<close>

definition try_acquire :: "int \<Rightarrow> nat \<Rightarrow> gate \<Rightarrow> attempt \<times> gate" where
  "try_acquire now k g =
     (let g = widen now g
      in if \<not> cooling_down now g \<and> g_in_flight g < g_limit g
         then (Granted, g\<lparr>g_in_flight := g_in_flight g + 1\<rparr>)
         else if cooling_down now g then (CoolDown, g)
         else (Enqueued, g\<lparr>g_waiters := g_waiters g @ [k]\<rparr>))"

definition wake_one :: "gate \<Rightarrow> gate" where
  "wake_one g = g\<lparr>g_waiters := tl (g_waiters g)\<rparr>"

definition release :: "gate \<Rightarrow> gate" where
  "release g = wake_one (g\<lparr>g_in_flight := g_in_flight g - 1\<rparr>)"

definition cancel_waiter :: "nat \<Rightarrow> gate \<Rightarrow> gate" where
  "cancel_waiter k g =
     (if k \<in> set (g_waiters g) then g\<lparr>g_waiters := remove1 k (g_waiters g)\<rparr> else wake_one g)"

definition throttled :: "int \<Rightarrow> int \<Rightarrow> gate \<Rightarrow> gate" where
  "throttled now pause g =
     (let g = g\<lparr>g_limit := max min_limit (go_div (g_limit g) 2), g_last_throttle := Some now\<rparr>
      in if pause \<le> 0 then g
         else case g_cool_until g of
             Some t \<Rightarrow> if t < now + pause then g\<lparr>g_cool_until := Some (now + pause)\<rparr> else g
           | None \<Rightarrow> g\<lparr>g_cool_until := Some (now + pause)\<rparr>)"

section \<open>Callers\<close>

text \<open>Where a round of \<^verbatim>\<open>doRetrying429\<close> is: at the top of \<^verbatim>\<open>acquire\<close>'s loop, waiting for the
  cool-down, waiting for its channel, with a slot, or past it. A round that is past its slot has its
  answer and may report it as throttled.\<close>

datatype caller = Trying | Cooling | Waiting | Holding | Gone

record gate_system =
  gs_gate :: gate
  gs_now :: int
  gs_callers :: "caller list"

abbreviation caller_is :: "nat \<Rightarrow> caller \<Rightarrow> gate_system \<Rightarrow> bool" where
  "caller_is k c s \<equiv> k < length (gs_callers s) \<and> gs_callers s ! k = c"

definition move :: "nat \<Rightarrow> caller \<Rightarrow> gate \<Rightarrow> gate_system \<Rightarrow> gate_system" where
  "move k c g s = s\<lparr>gs_gate := g, gs_callers := (gs_callers s)[k := c]\<rparr>"

definition attempt_place :: "attempt \<Rightarrow> caller" where
  "attempt_place a = (case a of Granted \<Rightarrow> Holding | CoolDown \<Rightarrow> Cooling | Enqueued \<Rightarrow> Waiting)"

text \<open>\<open>quits\<close> tells whether a caller's context may be canceled while it waits for the cool-down.\<close>

inductive gate_step :: "bool \<Rightarrow> gate_system \<Rightarrow> gate_system \<Rightarrow> bool" for quits where
  calls: "gate_step quits s (s\<lparr>gs_callers := gs_callers s @ [Trying]\<rparr>)"
| tries: "caller_is k Trying s \<Longrightarrow> try_acquire (gs_now s) k (gs_gate s) = (a, g) \<Longrightarrow>
    gate_step quits s (move k (attempt_place a) g s)"
| cooled: "caller_is k Cooling s \<Longrightarrow> gate_step quits s (move k Trying (gs_gate s) s)"
| cool_quits: "quits \<Longrightarrow> caller_is k Cooling s \<Longrightarrow> gate_step quits s (move k Gone (gs_gate s) s)"
| signalled: "caller_is k Waiting s \<Longrightarrow> k \<notin> set (g_waiters (gs_gate s)) \<Longrightarrow> gate_step quits s (move k Trying (gs_gate s) s)"
| wait_quits: "caller_is k Waiting s \<Longrightarrow> gate_step quits s (move k Gone (cancel_waiter k (gs_gate s)) s)"
| releases: "caller_is k Holding s \<Longrightarrow> gate_step quits s (move k Gone (release (gs_gate s)) s)"
| throttles: "caller_is k Gone s \<Longrightarrow> gate_step quits s (move k Gone (throttled (gs_now s) pause (gs_gate s)) s)"
| time: "gs_now s \<le> now \<Longrightarrow> gate_step quits s (s\<lparr>gs_now := now\<rparr>)"

definition fresh_gate :: "int \<Rightarrow> gate_system" where
  "fresh_gate now = \<lparr>gs_gate = new_gate, gs_now = now, gs_callers = []\<rparr>"

abbreviation gate_reachable :: "bool \<Rightarrow> gate_system \<Rightarrow> bool" where
  "gate_reachable quits s \<equiv> \<exists>now. (gate_step quits)\<^sup>*\<^sup>* (fresh_gate now) s"

section \<open>Invariants\<close>

text \<open>The slots held.\<close>

definition holders :: "caller list \<Rightarrow> int" where
  "holders cs = sum_list (map (\<lambda>c. if c = Holding then 1 else 0) cs)"

definition gate_inv :: "gate_system \<Rightarrow> bool" where
  "gate_inv s \<longleftrightarrow> min_limit \<le> g_limit (gs_gate s) \<and> g_limit (gs_gate s) \<le> default_limit \<and>
     g_in_flight (gs_gate s) = holders (gs_callers s) \<and>
     g_in_flight (gs_gate s) \<le> default_limit \<and>
     distinct (g_waiters (gs_gate s)) \<and> (\<forall>k\<in>set (g_waiters (gs_gate s)). caller_is k Waiting s)"

text \<open>Someone will wake the queue: a slot is held, or a caller is on its way to one.\<close>

definition wake_inv :: "gate_system \<Rightarrow> bool" where
  "wake_inv s \<longleftrightarrow> g_waiters (gs_gate s) = [] \<or> (\<exists>k c. caller_is k c s \<and>
     (c \<in> {Holding, Trying, Cooling} \<or> c = Waiting \<and> k \<notin> set (g_waiters (gs_gate s))))"

lemma count_update:
  "k < length cs \<Longrightarrow> holders (cs[k := d]) =
     holders cs - (if cs ! k = Holding then 1 else 0) + (if d = Holding then 1 else 0)"
  unfolding holders_def
proof (induction cs arbitrary: k)
  case (Cons a cs)
  then show ?case by (cases k) simp_all
qed simp

lemma holders_append [simp]: "holders (cs @ [c]) = holders cs + (if c = Holding then 1 else 0)"
  by (simp add: holders_def)

lemma move_simps [simp]:
  "gs_gate (move k c g s) = g" "gs_callers (move k c g s) = (gs_callers s)[k := c]" "gs_now (move k c g s) = gs_now s"
  by (simp_all add: move_def)

lemma widen_simps [simp]: "g_in_flight (widen now g) = g_in_flight g" "g_waiters (widen now g) = g_waiters g"
  "g_cool_until (widen now g) = g_cool_until g"
  by (auto simp: widen_def split: option.splits)

lemma widen_limit: "min_limit \<le> g_limit g \<Longrightarrow> g_limit g \<le> default_limit \<Longrightarrow>
   min_limit \<le> g_limit (widen now g) \<and> g_limit (widen now g) \<le> default_limit"
  by (auto simp: widen_def split: option.splits)

lemma throttled_simps [simp]: "g_in_flight (throttled now p g) = g_in_flight g" "g_waiters (throttled now p g) = g_waiters g"
  by (auto simp: throttled_def Let_def split: option.splits)

lemma throttled_limit: "min_limit \<le> g_limit g \<Longrightarrow> g_limit g \<le> default_limit \<Longrightarrow>
   min_limit \<le> g_limit (throttled now p g) \<and> g_limit (throttled now p g) \<le> default_limit"
proof -
  assume "min_limit \<le> g_limit g" "g_limit g \<le> default_limit"
  moreover have "g_limit (throttled now p g) = max min_limit (go_div (g_limit g) 2)"
    by (auto simp: throttled_def Let_def split: option.splits)
  ultimately show ?thesis by (simp add: min_limit_def default_limit_def go_div_nonneg)
qed

lemma cancel_simps [simp]: "g_in_flight (cancel_waiter k g) = g_in_flight g" "g_limit (cancel_waiter k g) = g_limit g"
  "g_limit (release g) = g_limit g" "g_in_flight (release g) = g_in_flight g - 1" "g_waiters (release g) = tl (g_waiters g)"
  by (simp_all add: cancel_waiter_def wake_one_def release_def)

lemma set_tl_subset: "set (tl xs) \<subseteq> set xs"
  by (cases xs) auto

lemma step_inv: "gate_step quits s s' \<Longrightarrow> gate_inv s \<Longrightarrow> gate_inv s'"
proof (induction rule: gate_step.induct)
  case (calls s)
  then show ?case by (auto simp: gate_inv_def nth_append)
next
  case (tries k s a g)
  let ?g = "widen (gs_now s) (gs_gate s)"
  have lim: "min_limit \<le> g_limit ?g" "g_limit ?g \<le> default_limit" using tries(3) widen_limit by (simp_all add: gate_inv_def)
  have nw: "k \<notin> set (g_waiters (gs_gate s))" using tries by (auto simp: gate_inv_def)
  from tries nw lim show ?case
    by (cases a) (auto simp: gate_inv_def try_acquire_def Let_def attempt_place_def count_update nth_list_update split: if_splits)
next
  case (releases k s)
  have "k \<notin> set (tl (g_waiters (gs_gate s)))" "distinct (tl (g_waiters (gs_gate s)))"
    using releases set_tl_subset [of "g_waiters (gs_gate s)"] by (auto simp: gate_inv_def distinct_tl)
  with releases set_tl_subset [of "g_waiters (gs_gate s)"] show ?case
    by (auto simp: gate_inv_def count_update nth_list_update)
next
  case (throttles k s pause)
  then show ?case using throttled_limit [of "gs_gate s" "gs_now s" pause] by (auto simp: gate_inv_def count_update nth_list_update)
next
  case (wait_quits k s)
  have w: "k \<notin> set (g_waiters (cancel_waiter k (gs_gate s)))" "distinct (g_waiters (cancel_waiter k (gs_gate s)))"
    "set (g_waiters (cancel_waiter k (gs_gate s))) \<subseteq> set (g_waiters (gs_gate s))"
    using wait_quits set_tl_subset [of "g_waiters (gs_gate s)"]
    by (auto simp: gate_inv_def cancel_waiter_def wake_one_def distinct_tl set_remove1_eq dest: notin_set_remove1)
  with wait_quits show ?case by (auto simp: gate_inv_def count_update nth_list_update)
qed (auto simp: gate_inv_def count_update nth_list_update)

lemma holders_pos: "0 < holders cs \<Longrightarrow> \<exists>k. k < length cs \<and> cs ! k = Holding"
proof (induction cs)
  case (Cons a cs)
  show ?case
  proof (cases "a = Holding")
    case False
    then have "0 < holders cs" using Cons.prems by (simp add: holders_def)
    then obtain k where "k < length cs \<and> cs ! k = Holding" using Cons.IH by blast
    then show ?thesis by (intro exI [of _ "Suc k"]) simp
  qed (intro exI [of _ 0], simp)
qed (simp add: holders_def)

lemma holders_nonneg: "0 \<le> holders cs"
  unfolding holders_def by (rule sum_list_nonneg) auto

lemma fresh_inv: "gate_inv (fresh_gate now)"
  by (simp add: gate_inv_def fresh_gate_def new_gate_def default_limit_def min_limit_def holders_def)

lemma reachable_gate_inv: "(gate_step quits)\<^sup>*\<^sup>* (fresh_gate now) s \<Longrightarrow> gate_inv s"
  by (induction rule: rtranclp_induct) (simp_all add: fresh_inv step_inv)

text \<open>C23: whatever the callers, the throttling answers and the clock do, the requests in flight to one
  host are exactly the slots held, between none and four, and the ceiling stays between one and
  four; a caller is in the queue at most once, and only while it waits.\<close>

theorem gate_bounds:
  assumes "(gate_step quits)\<^sup>*\<^sup>* (fresh_gate now) s"
  shows "g_in_flight (gs_gate s) = holders (gs_callers s) \<and> 0 \<le> g_in_flight (gs_gate s) \<and> g_in_flight (gs_gate s) \<le> 4 \<and>
    1 \<le> g_limit (gs_gate s) \<and> g_limit (gs_gate s) \<le> 4 \<and> distinct (g_waiters (gs_gate s)) \<and>
    (\<forall>k\<in>set (g_waiters (gs_gate s)). caller_is k Waiting s)"
  using reachable_gate_inv [OF assms] holders_nonneg [of "gs_callers s"]
  by (simp add: gate_inv_def default_limit_def min_limit_def)

text \<open>Who keeps a wake-up alive.\<close>

definition wakes :: "gate_system \<Rightarrow> nat \<Rightarrow> bool" where
  "wakes s k \<longleftrightarrow> k < length (gs_callers s) \<and>
     (gs_callers s ! k \<in> {Holding, Trying, Cooling} \<or> gs_callers s ! k = Waiting \<and> k \<notin> set (g_waiters (gs_gate s)))"

lemma wake_inv_wakes: "wake_inv s \<longleftrightarrow> g_waiters (gs_gate s) = [] \<or> (\<exists>k. wakes s k)"
  by (auto simp: wake_inv_def wakes_def)

text \<open>The head of a queue that is woken, if any of the queue is left.\<close>

lemma woken_wakes:
  assumes "gate_inv s" and "g_waiters (gs_gate s) = w # ws" and "k \<noteq> w"
  shows "wakes (move k Gone g s) w \<or> w \<in> set (g_waiters g)"
  using assms by (auto simp: wakes_def gate_inv_def nth_list_update)

lemma step_wakes: "gate_step False s s' \<Longrightarrow> gate_inv s \<Longrightarrow> wake_inv s \<Longrightarrow> wake_inv s'"
proof (induction rule: gate_step.induct)
  case (calls s)
  have "wakes (s\<lparr>gs_callers := gs_callers s @ [Trying]\<rparr>) (length (gs_callers s))" by (simp add: wakes_def)
  then show ?case unfolding wake_inv_wakes by blast
next
  case (tries k s a g)
  show ?case
  proof (cases a)
    case Enqueued
    then have full: "0 < g_in_flight (gs_gate s)" and g: "g_waiters g = g_waiters (gs_gate s) @ [k]"
      using tries widen_limit [of "gs_gate s" "gs_now s"]
      by (auto simp: try_acquire_def Let_def gate_inv_def min_limit_def split: if_splits)
    then obtain h where h: "h < length (gs_callers s)" "gs_callers s ! h = Holding"
      using holders_pos [of "gs_callers s"] tries(3) by (auto simp: gate_inv_def)
    have "h \<noteq> k" using h tries(1) by auto
    with h have "wakes (move k (attempt_place a) g s) h" by (simp add: wakes_def)
    then show ?thesis unfolding wake_inv_wakes by blast
  qed (use tries(1) in \<open>auto simp: wake_inv_wakes wakes_def attempt_place_def nth_list_update\<close>)
next
  case (cooled k s)
  then have "wakes (move k Trying (gs_gate s) s) k" by (simp add: wakes_def)
  then show ?case unfolding wake_inv_wakes by blast
next
  case (signalled k s)
  then have "wakes (move k Trying (gs_gate s) s) k" by (simp add: wakes_def)
  then show ?case unfolding wake_inv_wakes by blast
next
  case (throttles k s pause)
  then have "(gs_callers s)[k := Gone] = gs_callers s" by (metis list_update_id)
  with throttles(3) show ?case by (simp add: wake_inv_wakes wakes_def)
next
  case (releases k s)
  show ?case
  proof (cases "g_waiters (gs_gate s)")
    case (Cons w ws)
    have "k \<noteq> w" "w \<notin> set ws" using releases Cons by (auto simp: gate_inv_def)
    with woken_wakes [OF releases(2) Cons, of k "release (gs_gate s)"] Cons show ?thesis
      unfolding wake_inv_wakes by auto
  qed (simp add: wake_inv_def)
next
  case (wait_quits k s)
  show ?case
  proof (cases "k \<in> set (g_waiters (gs_gate s))")
    case True
    then obtain j where "wakes s j" using wait_quits(3) by (auto simp: wake_inv_wakes)
    moreover from this have "j \<noteq> k" using True wait_quits(1) by (auto simp: wakes_def)
    ultimately have "wakes (move k Gone (cancel_waiter k (gs_gate s)) s) j"
      using True by (auto simp: wakes_def cancel_waiter_def dest: notin_set_remove1)
    then show ?thesis unfolding wake_inv_wakes by blast
  next
    case False
    show ?thesis
    proof (cases "g_waiters (gs_gate s)")
      case (Cons w ws)
      have "k \<noteq> w" "w \<notin> set ws" using wait_quits Cons False by (auto simp: gate_inv_def)
      with woken_wakes [OF wait_quits(2) Cons, of k "cancel_waiter k (gs_gate s)"] Cons False show ?thesis
        unfolding wake_inv_wakes by (auto simp: cancel_waiter_def wake_one_def)
    qed (use False in \<open>simp add: wake_inv_def cancel_waiter_def wake_one_def\<close>)
  qed
next
  case (time s now)
  then show ?case by (simp add: wake_inv_def)
qed simp

text \<open>C24: as long as no caller is canceled while it waits for a cool-down, the queue never sleeps on:
  while callers are queued, some other caller holds a slot or is on its way to one.\<close>

theorem no_lost_wakeup_without_quits:
  assumes "(gate_step False)\<^sup>*\<^sup>* (fresh_gate now) s" and "g_waiters (gs_gate s) \<noteq> []"
  shows "\<exists>k. wakes s k"
proof -
  have "gate_inv s \<and> wake_inv s"
    using assms(1)
  proof (induction rule: rtranclp_induct)
    case base
    show ?case by (simp add: fresh_inv wake_inv_def) (simp add: fresh_gate_def new_gate_def)
  next
    case (step s t)
    then show ?case using step_inv step_wakes by blast
  qed
  with assms(2) show ?thesis by (simp add: wake_inv_wakes)
qed

section \<open>Runs\<close>

text \<open>A step picked by name, so that a run can be computed.\<close>

datatype gate_event = Calls | Tries nat | CoolQuits nat | Signalled nat | Releases nat | Throttles nat int | Time int

definition gate_do :: "gate_system \<Rightarrow> gate_event \<Rightarrow> gate_system option" where
  "gate_do s e =
     (case e of
        Calls \<Rightarrow> Some (s\<lparr>gs_callers := gs_callers s @ [Trying]\<rparr>)
      | Tries k \<Rightarrow> if caller_is k Trying s
          then (case try_acquire (gs_now s) k (gs_gate s) of (a, g) \<Rightarrow> Some (move k (attempt_place a) g s)) else None
      | CoolQuits k \<Rightarrow> if caller_is k Cooling s then Some (move k Gone (gs_gate s) s) else None
      | Signalled k \<Rightarrow> if caller_is k Waiting s \<and> k \<notin> set (g_waiters (gs_gate s)) then Some (move k Trying (gs_gate s) s) else None
      | Releases k \<Rightarrow> if caller_is k Holding s then Some (move k Gone (release (gs_gate s)) s) else None
      | Throttles k p \<Rightarrow> if caller_is k Gone s then Some (move k Gone (throttled (gs_now s) p (gs_gate s)) s) else None
      | Time t \<Rightarrow> if gs_now s \<le> t then Some (s\<lparr>gs_now := t\<rparr>) else None)"

primrec gate_run :: "gate_event list \<Rightarrow> gate_system \<Rightarrow> gate_system option" where
  "gate_run [] s = Some s"
| "gate_run (e # es) s = Option.bind (gate_do s e) (gate_run es)"

lemma gate_do_step: "gate_do s e = Some s' \<Longrightarrow> quits \<or> (\<forall>k. e \<noteq> CoolQuits k) \<Longrightarrow> gate_step quits s s'"
  unfolding gate_do_def
  by (cases e) (auto split: if_splits prod.splits intro: gate_step.intros)

lemma gate_run_reach:
  "gate_run es s = Some s' \<Longrightarrow> quits \<or> (\<forall>k. CoolQuits k \<notin> set es) \<Longrightarrow> (gate_step quits)\<^sup>*\<^sup>* s s'"
proof (induction es arbitrary: s)
  case (Cons e es)
  then obtain t where t: "gate_do s e = Some t" "gate_run es t = Some s'" by (auto simp: bind_eq_Some_conv)
  have "gate_step quits s t" by (rule gate_do_step [OF t(1)]) (use Cons.prems in auto)
  moreover have "(gate_step quits)\<^sup>*\<^sup>* t s'" by (rule Cons.IH [OF t(2)]) (use Cons.prems in auto)
  ultimately show ?case by (rule converse_rtranclp_into_rtranclp)
qed simp

text \<open>Two requests are answered with a 429 and \<^verbatim>\<open>Retry-After: 0\<close>, which leaves one slot; a third takes
  it and two more queue up.\<close>

definition sample_events :: "gate_event list" where
  "sample_events =
     [Calls, Tries 0, Releases 0, Throttles 0 0, Calls, Tries 1, Releases 1, Throttles 1 0,
      Calls, Tries 2, Calls, Tries 3, Calls, Tries 4]"

definition sample_queue :: gate_system where
  "sample_queue = the (gate_run sample_events (fresh_gate 0))"

lemma sample_queue_run: "gate_run sample_events (fresh_gate 0) = Some sample_queue"
  by code_simp

lemma sample_queue_reach: "(gate_step quits)\<^sup>*\<^sup>* (fresh_gate 0) sample_queue"
  by (rule gate_run_reach [OF sample_queue_run]) (simp add: sample_events_def)

lemma gate_bounds_witness: "holders (gs_callers sample_queue) = 1 \<and> g_limit (gs_gate sample_queue) = 1 \<and>
    g_waiters (gs_gate sample_queue) = [3, 4] \<and> g_in_flight (gs_gate sample_queue) = 1"
proof -
  have "holders (gs_callers sample_queue) = 1" "g_limit (gs_gate sample_queue) = 1" "g_waiters (gs_gate sample_queue) = [3, 4]"
    by code_simp+
  with gate_bounds [OF sample_queue_reach [of True]] show ?thesis by simp
qed

lemma no_lost_wakeup_without_quits_witness: "\<exists>k. wakes sample_queue k"
proof -
  have "g_waiters (gs_gate sample_queue) \<noteq> []" by code_simp
  with no_lost_wakeup_without_quits [OF sample_queue_reach] show ?thesis by blast
qed

text \<open>a wake-up can be lost. The third request is answered with a 429 that pauses the host for a
  second. A signalled caller that finds the host cooling down and is canceled there
  leaves without passing the signal on: the run ends with no request in flight and one caller
  queued, and nothing left that would ever wake it, however long the cool-down is over.\<close>

theorem canceled_cooldown_loses_wakeup:
  "\<exists>s. (gate_step True)\<^sup>*\<^sup>* (fresh_gate 0) s \<and> g_waiters (gs_gate s) = [4] \<and> gs_callers s ! 4 = Waiting \<and>
     g_in_flight (gs_gate s) = 0 \<and> \<not> cooling_down (gs_now s) (gs_gate s) \<and> (\<forall>k. \<not> wakes s k)"
proof -
  define es where "es = sample_events @ [Releases 2, Throttles 2 1000000000, Signalled 3, Tries 3, CoolQuits 3, Time 60000000000]"
  define s where "s = the (gate_run es (fresh_gate 0))"
  have run: "gate_run es (fresh_gate 0) = Some s" unfolding s_def es_def by code_simp
  have facts: "g_waiters (gs_gate s) = [4]" "gs_callers s = [Gone, Gone, Gone, Gone, Waiting]"
    "g_in_flight (gs_gate s) = 0" "cooling_down (gs_now s) (gs_gate s) = False"
    unfolding s_def es_def by code_simp+
  have "\<not> wakes s k" for k
    by (cases "k < 5") (auto simp: wakes_def facts nth_Cons' less_Suc_eq)
  moreover have "(gate_step True)\<^sup>*\<^sup>* (fresh_gate 0) s" by (rule gate_run_reach [OF run]) simp
  ultimately show ?thesis using facts by (intro exI [of _ s]) simp
qed

end
