(* ===== verification/Retry.thy ===== *)
theory Retry
  imports HostGate GoStrings
begin

text \<open>
  \<^verbatim>\<open>internal/webdav/retry.go\<close>: one WebDAV request with its retries on 429. What the rounds meet
  (the gate, the server, the context) is an argument, a round being read once; the pauses the
  loop reports to the host gate are part of its result. The jitter of the sleep between two
  rounds is left out: it changes only when the next round starts.
\<close>

definition retry_429_max :: nat where "retry_429_max = 5"
definition max_retry_delay :: int where "max_retry_delay = 30000000000"
definition retry_backoff_unit :: int where "retry_backoff_unit = 1000000000"

text \<open>\<^verbatim>\<open>retryAfterDelay\<close>; the product with \<^verbatim>\<open>time.Second\<close> is an int64.\<close>

definition retry_after_delay :: "string \<Rightarrow> int option" where
  "retry_after_delay v =
     (if v = [] then None
      else case atoi v of
          None \<Rightarrow> None
        | Some secs \<Rightarrow> if secs < 0 then None else Some (wrap64 (secs * 1000000000)))"

definition retry_delay :: "nat \<Rightarrow> string \<Rightarrow> int" where
  "retry_delay attempt v =
     (let delay = (case retry_after_delay v of Some d \<Rightarrow> d | None \<Rightarrow> 2 ^ attempt * retry_backoff_unit)
      in if max_retry_delay < delay then max_retry_delay else delay)"

text \<open>A round: what \<^verbatim>\<open>acquire\<close> returned, what the request returned (its status and \<^verbatim>\<open>Retry-After\<close>), and
  the context's error if it ended during the sleep.\<close>

record round =
  rd_acquire :: "gerror option"
  rd_answer :: "gerror + int \<times> string"
  rd_sleep :: "gerror option"

type_synonym answer = "gerror + int \<times> string"

function retry_loop :: "(nat \<Rightarrow> round) \<Rightarrow> nat \<Rightarrow> answer \<Rightarrow> answer \<times> int list" where
  "retry_loop rounds attempt resp =
     (if retry_429_max \<le> attempt then (resp, [])
      else let r = rounds attempt in
        case rd_acquire r of
          Some e \<Rightarrow> (Inl e, [])
        | None \<Rightarrow>
            (case rd_answer r of
               Inl e \<Rightarrow> (Inl e, [])
             | Inr (status, after) \<Rightarrow>
                 if status \<noteq> 429 then (rd_answer r, [])
                 else let delay = retry_delay attempt after in
                   case rd_sleep r of
                     Some e \<Rightarrow> (Inl e, [delay])
                   | None \<Rightarrow> (case retry_loop rounds (attempt + 1) (rd_answer r) of (a, ps) \<Rightarrow> (a, delay # ps))))"
  by pat_completeness auto
termination by (relation "measure (\<lambda>(rounds, attempt, resp). retry_429_max - attempt)") auto

declare retry_loop.simps [simp del]

definition do_retrying_429 :: "(nat \<Rightarrow> round) \<Rightarrow> answer \<times> int list" where
  "do_retrying_429 rounds = retry_loop rounds 0 (Inr (0, []))"

section \<open>Delays\<close>

lemma retry_delay_max: "retry_delay n v \<le> max_retry_delay"
  by (simp add: retry_delay_def Let_def)

lemma retry_after_delay_exact:
  "atoi v = Some secs \<Longrightarrow> v \<noteq> [] \<Longrightarrow> 0 \<le> secs \<Longrightarrow> secs \<le> 9223372036 \<Longrightarrow> retry_after_delay v = Some (secs * 1000000000)"
  by (simp add: retry_after_delay_def in_int64_def int64_min_def int64_max_def)

text \<open>What the loop reports, from any round on.\<close>

definition retry_report :: "(nat \<Rightarrow> round) \<Rightarrow> nat \<Rightarrow> answer \<Rightarrow> answer \<times> int list \<Rightarrow> bool" where
  "retry_report rounds n resp p \<longleftrightarrow>
     (case p of (a, ps) \<Rightarrow>
        n + length ps \<le> retry_429_max \<and>
        (\<forall>i<length ps. \<exists>v. rd_answer (rounds (n + i)) = Inr (429, v) \<and> ps ! i = retry_delay (n + i) v) \<and>
        (case a of
           Inl e \<Rightarrow> True
         | Inr (status, v) \<Rightarrow>
             if n + length ps = retry_429_max then ps \<noteq> [] \<longrightarrow> a = rd_answer (rounds 4)
             else status \<noteq> 429 \<and> a = rd_answer (rounds (n + length ps))))"

lemma retry_report_Cons:
  assumes "retry_report rounds (n + 1) (rd_answer (rounds n)) (a, ps)" and "rd_answer (rounds n) = Inr (429, v)"
    and "n + 1 = retry_429_max \<longrightarrow> a = rd_answer (rounds n)"
  shows "retry_report rounds n resp (a, retry_delay n v # ps)"
proof -
  have nth: "\<exists>w. rd_answer (rounds (n + i)) = Inr (429, w) \<and> (retry_delay n v # ps) ! i = retry_delay (n + i) w"
    if "i < length (retry_delay n v # ps)" for i
  proof (cases i)
    case 0
    with assms(2) show ?thesis by simp
  next
    case (Suc j)
    with that assms(1) show ?thesis by (simp add: retry_report_def)
  qed
  show ?thesis
    using assms nth by (auto simp: retry_report_def retry_429_max_def split: sum.splits prod.splits if_splits)
qed

lemma retry_loop_spec: "n \<le> retry_429_max \<Longrightarrow> retry_report rounds n resp (retry_loop rounds n resp)"
proof (induction rounds n resp rule: retry_loop.induct)
  case (1 rounds n resp)
  show ?case
  proof (cases "retry_429_max \<le> n")
    case True
    then show ?thesis using 1(2) by (subst retry_loop.simps) (auto simp: retry_report_def split: sum.splits)
  next
    case False
    show ?thesis
    proof (cases "\<exists>v. rd_acquire (rounds n) = None \<and> rd_answer (rounds n) = Inr (429, v) \<and> rd_sleep (rounds n) = None")
      case True
      then obtain v where v: "rd_acquire (rounds n) = None" "rd_answer (rounds n) = Inr (429, v)" "rd_sleep (rounds n) = None"
        by blast
      obtain a ps where l: "retry_loop rounds (n + 1) (rd_answer (rounds n)) = (a, ps)" by fastforce
      have "retry_report rounds (n + 1) (rd_answer (rounds n)) (a, ps)"
        using 1(1) [OF False refl v(1) v(2) refl _ refl v(3)] False l v(2) by simp
      moreover have "n + 1 = retry_429_max \<longrightarrow> a = rd_answer (rounds n)"
        using l by (subst (asm) retry_loop.simps) auto
      ultimately have "retry_report rounds n resp (a, retry_delay n v # ps)" using v(2) by (intro retry_report_Cons)
      with False v l show ?thesis by (subst retry_loop.simps) (simp add: Let_def)
    qed (use False in \<open>subst retry_loop.simps; auto simp: retry_report_def Let_def split: sum.splits option.splits prod.splits\<close>)
  qed
qed

text \<open>a request is sent at most five times; each repetition follows a 429 and a pause of the length
  the server asked for, or 1, 2, 4, 8, 16 seconds, and never over 30; a 429 comes back only after
  five of them, and any other answer is the one the last request got.\<close>

theorem retries_bounded:
  assumes "do_retrying_429 rounds = (a, ps)"
  shows "length ps \<le> 5 \<and>
    (\<forall>i<length ps. \<exists>v. rd_answer (rounds i) = Inr (429, v) \<and> ps ! i = retry_delay i v \<and> ps ! i \<le> 30000000000) \<and>
    (\<forall>v. a = Inr (429, v) \<longrightarrow> length ps = 5 \<and> a = rd_answer (rounds 4)) \<and>
    (\<forall>status v. a = Inr (status, v) \<longrightarrow> status \<noteq> 429 \<longrightarrow> length ps < 5 \<and> a = rd_answer (rounds (length ps)))"
proof -
  have r: "retry_report rounds 0 (Inr (0, [])) (a, ps)"
    using retry_loop_spec [of 0 rounds "Inr (0, [])"] assms by (simp add: do_retrying_429_def)
  then have nth: "\<exists>v. rd_answer (rounds i) = Inr (429, v) \<and> ps ! i = retry_delay i v \<and> ps ! i \<le> 30000000000"
    if "i < length ps" for i
    using that retry_delay_max by (fastforce simp: retry_report_def max_retry_delay_def)
  have all: "length ps = 5 \<Longrightarrow> \<exists>v. rd_answer (rounds 4) = Inr (429, v)" using nth [of 4] by auto
  show ?thesis using r nth all by (auto simp: retry_report_def retry_429_max_def split: if_splits)
qed

text \<open>Two 429 answers, one with a \<^verbatim>\<open>Retry-After\<close> of a minute, before the file.\<close>

definition busy_rounds :: "nat \<Rightarrow> round" where
  "busy_rounds n =
     \<lparr>rd_acquire = None, rd_answer = Inr (if n = 0 then (429, ''60'') else if n = 1 then (429, []) else (207, [])), rd_sleep = None\<rparr>"

theorem retries_bounded_witness: "length [30000000000, 2000000000 :: int] \<le> 5 \<and> Inr (207, []) = rd_answer (busy_rounds 2)"
proof -
  have "do_retrying_429 busy_rounds = (Inr (207, []), [30000000000, 2000000000])" by code_simp
  from retries_bounded [OF this] show ?thesis by (simp add: numeral_2_eq_2)
qed

text \<open>The product overflows: a \<^verbatim>\<open>Retry-After\<close> of ten thousand million seconds is no pause at all, for
  the request or for the gate.\<close>

lemma huge_retry_after_no_pause:
  "retry_delay n ''10000000000'' < 0 \<and> g_cool_until (throttled now (retry_delay n ''10000000000'') g) = g_cool_until g"
proof -
  have "atoi ''10000000000'' = Some 10000000000"
    by (simp add: atoi_def digit_val_def in_int64_def int64_min_def int64_max_def)
  then have "retry_after_delay ''10000000000'' = Some (-8446744073709551616)" by (simp add: retry_after_delay_def wrap64_def)
  then have "retry_delay n ''10000000000'' < 0" by (simp add: retry_delay_def max_retry_delay_def)
  then show ?thesis by (simp add: throttled_def Let_def)
qed

text \<open>Up to the longest time an int64 of nanoseconds holds, the server's wish is followed.\<close>

lemma retry_delay_followed:
  assumes "0 \<le> secs" and "secs \<le> 9223372036"
  shows "retry_delay n (itoa secs) = min max_retry_delay (secs * 1000000000)"
proof -
  have "retry_after_delay (itoa secs) = Some (secs * 1000000000)"
    by (rule retry_after_delay_exact) (use assms in \<open>simp_all add: in_int64_def int64_min_def int64_max_def\<close>)
  then show ?thesis by (simp add: retry_delay_def Let_def min_def)
qed

end
