(* ===== verification/GoQuote.thy ===== *)
theory GoQuote
  imports GoStrings
begin

text \<open>
  The verb \<^verbatim>\<open>%q\<close> of Go's \<^verbatim>\<open>fmt\<close>, as the error messages use it: a string in double quotes with
  Go's escapes. Bytes above 127 are shown as they are, which is what happens to printable text. And the hexadecimal digits.
\<close>

definition hex_digit :: "nat \<Rightarrow> char" where
  "hex_digit d = (if d < 10 then char_of (48 + d) else char_of (87 + d))"

definition quote_byte :: "char \<Rightarrow> string" where
  "quote_byte c =
     (let n = (of_char c :: nat)
      in if n = 34 then [CHR 0x5C, CHR 0x22]
         else if n = 92 then [CHR 0x5C, CHR 0x5C]
         else if n = 7 then [CHR 0x5C, CHR ''a''] else if n = 8 then [CHR 0x5C, CHR ''b'']
         else if n = 9 then [CHR 0x5C, CHR ''t''] else if n = 10 then [CHR 0x5C, CHR ''n'']
         else if n = 11 then [CHR 0x5C, CHR ''v''] else if n = 12 then [CHR 0x5C, CHR ''f'']
         else if n = 13 then [CHR 0x5C, CHR ''r'']
         else if n < 32 \<or> n = 127 then [CHR 0x5C, CHR ''x'', hex_digit (n div 16), hex_digit (n mod 16)]
         else [c])"

definition go_quote :: "string \<Rightarrow> string" where
  "go_quote s = CHR 0x22 # concat (map quote_byte s) @ [CHR 0x22]"

text \<open>No quoted string has a line break in it: a log line with one stays a line.\<close>

lemma hex_digit_no_newline: "d < 16 \<Longrightarrow> hex_digit d \<noteq> CHR 0x0A"
proof -
  assume "d < 16"
  then have "(of_char (hex_digit d) :: nat) \<noteq> 10" by (auto simp: hex_digit_def of_char_of)
  then show ?thesis by auto
qed

lemma quote_byte_no_newline: "CHR 0x0A \<notin> set (quote_byte c)"
proof (cases "(of_char c :: nat) = 10")
  case False
  then have "c \<noteq> CHR 0x0A" by auto
  moreover have "of_char c div 16 < (16 :: nat)" using nat_of_char_less_256 [of c] by linarith
  then have "hex_digit (of_char c div 16) \<noteq> CHR 0x0A" by (rule hex_digit_no_newline)
  moreover have "hex_digit (of_char c mod 16) \<noteq> CHR 0x0A" by (rule hex_digit_no_newline) simp
  ultimately show ?thesis by (auto simp: quote_byte_def Let_def)
qed (simp add: quote_byte_def)

lemma go_quote_no_newline: "CHR 0x0A \<notin> set (go_quote s)"
  using quote_byte_no_newline by (auto simp: go_quote_def)

text \<open>The value of a hexadecimal digit, as the unescaping functions of \<^verbatim>\<open>net/url\<close> read it.\<close>

definition hex_digit_val :: "char \<Rightarrow> nat option" where
  "hex_digit_val c =
     (let n = (of_char c :: nat)
      in if 48 \<le> n \<and> n \<le> 57 then Some (n - 48)
         else if 97 \<le> n \<and> n \<le> 102 then Some (n - 87)
         else if 65 \<le> n \<and> n \<le> 70 then Some (n - 55) else None)"

end
