(* ===== verification/WebDavWalk.thy ===== *)
theory WebDavWalk
  imports WebDavClient
begin

text \<open>
  The walk of \<^verbatim>\<open>internal/webdav/webdav.go\<close> against a server whose directories nest finitely deep
  (\<open>ranked\<close>): it ends after a bounded number of steps whatever its workers do, it never gets
  stuck, and what it returns is every file of the tree once.
\<close>

definition ranked :: "(string \<Rightarrow> entry list result) \<Rightarrow> (string \<Rightarrow> nat) \<Rightarrow> bool" where
  "ranked lst rank \<longleftrightarrow> (\<forall>p cs e. lst p = Inr cs \<longrightarrow> e \<in> set cs \<longrightarrow> en_is_dir e \<longrightarrow> rank (en_path e) < rank p)"

text \<open>The files and the directories from a path down to a depth.\<close>

primrec files_under :: "(string \<Rightarrow> entry list result) \<Rightarrow> nat \<Rightarrow> string \<Rightarrow> entry list" where
  "files_under lst 0 p = []"
| "files_under lst (Suc n) p =
     (case lst p of
        Inl _ \<Rightarrow> []
      | Inr cs \<Rightarrow> filter (\<lambda>e. \<not> en_is_dir e) cs @
          concat (map (\<lambda>e. files_under lst n (en_path e)) (filter en_is_dir cs)))"

primrec dirs_under :: "(string \<Rightarrow> entry list result) \<Rightarrow> nat \<Rightarrow> string \<Rightarrow> nat" where
  "dirs_under lst 0 p = 1"
| "dirs_under lst (Suc n) p =
     (case lst p of Inl _ \<Rightarrow> 1 | Inr cs \<Rightarrow> 1 + sum_list (map (\<lambda>e. dirs_under lst n (en_path e)) (filter en_is_dir cs)))"

lemma under_deep:
  assumes "ranked lst rank" and "rank p < n" and "rank p < m"
  shows "files_under lst n p = files_under lst m p \<and> dirs_under lst n p = dirs_under lst m p"
  using assms(2,3)
proof (induction n arbitrary: m p)
  case (Suc n)
  then obtain k where m: "m = Suc k" by (cases m) auto
  show ?case
  proof (cases "lst p")
    case (Inr cs)
    have "files_under lst n (en_path e) = files_under lst k (en_path e) \<and> dirs_under lst n (en_path e) = dirs_under lst k (en_path e)"
      if "e \<in> set (filter en_is_dir cs)" for e
    proof -
      have "rank (en_path e) < rank p" using assms(1) Inr that by (auto simp: ranked_def)
      with Suc.IH [of "en_path e" k] Suc.prems m show ?thesis by simp
    qed
    then have "map (\<lambda>e. files_under lst n (en_path e)) (filter en_is_dir cs) = map (\<lambda>e. files_under lst k (en_path e)) (filter en_is_dir cs)"
      "map (\<lambda>e. dirs_under lst n (en_path e)) (filter en_is_dir cs) = map (\<lambda>e. dirs_under lst k (en_path e)) (filter en_is_dir cs)"
      by (auto intro!: map_cong)
    with Inr m show ?thesis by (simp del: map_eq_conv)
  qed (simp add: m)
qed simp

definition tree_files :: "(string \<Rightarrow> entry list result) \<Rightarrow> (string \<Rightarrow> nat) \<Rightarrow> string \<Rightarrow> entry list" where
  "tree_files lst rank p = files_under lst (Suc (rank p)) p"

definition tree_dirs :: "(string \<Rightarrow> entry list result) \<Rightarrow> (string \<Rightarrow> nat) \<Rightarrow> string \<Rightarrow> nat" where
  "tree_dirs lst rank p = dirs_under lst (Suc (rank p)) p"

lemma tree_unfold:
  assumes "ranked lst rank" and "lst p = Inr cs"
  shows "tree_files lst rank p = filter (\<lambda>e. \<not> en_is_dir e) cs @
      concat (map (tree_files lst rank) (map en_path (filter en_is_dir cs)))"
    and "tree_dirs lst rank p = 1 + sum_list (map (tree_dirs lst rank) (map en_path (filter en_is_dir cs)))"
proof -
  have eq: "files_under lst (rank p) (en_path e) = tree_files lst rank (en_path e) \<and>
      dirs_under lst (rank p) (en_path e) = tree_dirs lst rank (en_path e)"
    if "e \<in> set (filter en_is_dir cs)" for e
  proof -
    have "rank (en_path e) < rank p" using assms that by (auto simp: ranked_def)
    then show ?thesis using under_deep [OF assms(1), of "en_path e" "rank p" "Suc (rank (en_path e))"]
      by (simp add: tree_files_def tree_dirs_def)
  qed
  then have "map (\<lambda>e. files_under lst (rank p) (en_path e)) (filter en_is_dir cs) = map (tree_files lst rank) (map en_path (filter en_is_dir cs))"
    "map (\<lambda>e. dirs_under lst (rank p) (en_path e)) (filter en_is_dir cs) = map (tree_dirs lst rank) (map en_path (filter en_is_dir cs))"
    by (auto intro!: map_cong)
  with assms(2) show "tree_files lst rank p = filter (\<lambda>e. \<not> en_is_dir e) cs @
      concat (map (tree_files lst rank) (map en_path (filter en_is_dir cs)))"
    and "tree_dirs lst rank p = 1 + sum_list (map (tree_dirs lst rank) (map en_path (filter en_is_dir cs)))"
    unfolding tree_files_def tree_dirs_def by (simp_all del: map_map map_eq_conv)
qed

lemma tree_dirs_pos [simp]: "0 < tree_dirs lst rank p"
  by (simp add: tree_dirs_def split: sum.splits)

section \<open>What the workers hold\<close>

definition walker_files :: "(string \<Rightarrow> entry list result) \<Rightarrow> (string \<Rightarrow> nat) \<Rightarrow> walker \<Rightarrow> entry multiset" where
  "walker_files lst rank a = (case a of Listing p \<Rightarrow> mset (tree_files lst rank p) | _ \<Rightarrow> {#})"

definition walker_load :: "(string \<Rightarrow> entry list result) \<Rightarrow> (string \<Rightarrow> nat) \<Rightarrow> walker \<Rightarrow> nat" where
  "walker_load lst rank a = (case a of Listing p \<Rightarrow> 2 * tree_dirs lst rank p | Idle \<Rightarrow> 1 | Returned \<Rightarrow> 0)"

lemma sum_list_upd:
  fixes f :: "'a \<Rightarrow> 'b :: comm_monoid_add"
  shows "k < length xs \<Longrightarrow> sum_list (map f (xs[k := y])) + f (xs ! k) = sum_list (map f xs) + f y"
proof (induction xs arbitrary: k)
  case (Cons x xs)
  show ?case
  proof (cases k)
    case 0
    then show ?thesis by (simp add: ac_simps)
  next
    case (Suc j)
    with Cons have "sum_list (map f (xs[j := y])) + f (xs ! j) = sum_list (map f xs) + f y" by simp
    with Suc show ?thesis by (simp add: add.assoc)
  qed
qed simp

definition walk_holds :: "(string \<Rightarrow> entry list result) \<Rightarrow> (string \<Rightarrow> nat) \<Rightarrow> walk \<Rightarrow> entry multiset" where
  "walk_holds lst rank w = mset (wk_files w) + mset (concat (map (tree_files lst rank) (wk_queue w))) +
     sum_list (map (walker_files lst rank) (wk_workers w))"

definition walk_load :: "(string \<Rightarrow> entry list result) \<Rightarrow> (string \<Rightarrow> nat) \<Rightarrow> walk \<Rightarrow> nat" where
  "walk_load lst rank w = 2 * sum_list (map (tree_dirs lst rank) (wk_queue w)) +
     sum_list (map (walker_load lst rank) (wk_workers w)) + (if wk_outer w then 0 else 1)"

lemma take_holds:
  assumes "worker_is k Idle w" and "wk_queue w \<noteq> []"
  shows "walk_holds lst rank (walk_take k w) = walk_holds lst rank w"
    and "walk_load lst rank (walk_take k w) < walk_load lst rank w"
proof -
  obtain q p where q: "wk_queue w = q @ [p]" using assms(2) by (meson rev_exhaust)
  from sum_list_upd [of k "wk_workers w" "walker_files lst rank" "Listing p"] assms(1)
  have s: "sum_list (map (walker_files lst rank) ((wk_workers w)[k := Listing p])) =
      sum_list (map (walker_files lst rank) (wk_workers w)) + mset (tree_files lst rank p)"
    by (simp add: walker_files_def)
  from q s show "walk_holds lst rank (walk_take k w) = walk_holds lst rank w"
    by (simp add: walk_holds_def walk_take_def ac_simps)
  from sum_list_upd [of k "wk_workers w" "walker_load lst rank" "Listing p"] assms(1)
  have "sum_list (map (walker_load lst rank) ((wk_workers w)[k := Listing p])) + 1 =
      sum_list (map (walker_load lst rank) (wk_workers w)) + 2 * tree_dirs lst rank p"
    by (simp add: walker_load_def)
  with q show "walk_load lst rank (walk_take k w) < walk_load lst rank w"
    by (simp add: walk_load_def walk_take_def)
qed

lemma listed_holds:
  assumes "ranked lst rank" and "worker_is k (Listing p) w" and "lst p = Inr cs"
  shows "walk_holds lst rank (walk_listed k (Inr cs) w) = walk_holds lst rank w"
    and "walk_load lst rank (walk_listed k (Inr cs) w) < walk_load lst rank w"
proof -
  note t = tree_unfold [OF assms(1,3)]
  from sum_list_upd [of k "wk_workers w" "walker_files lst rank" Idle] assms(2)
  have s: "sum_list (map (walker_files lst rank) (wk_workers w)) =
      sum_list (map (walker_files lst rank) ((wk_workers w)[k := Idle])) + mset (tree_files lst rank p)"
    by (simp add: walker_files_def)
  show "walk_holds lst rank (walk_listed k (Inr cs) w) = walk_holds lst rank w"
    unfolding walk_holds_def s by (simp add: walk_listed_def t(1) ac_simps)
  from sum_list_upd [of k "wk_workers w" "walker_load lst rank" Idle] assms(2)
  have "sum_list (map (walker_load lst rank) ((wk_workers w)[k := Idle])) + 2 * tree_dirs lst rank p =
      sum_list (map (walker_load lst rank) (wk_workers w)) + 1"
    by (simp add: walker_load_def)
  then show "walk_load lst rank (walk_listed k (Inr cs) w) < walk_load lst rank w"
    by (simp add: walk_load_def walk_listed_def t(2))
qed

lemma return_load:
  assumes "worker_is k a w" and "a \<noteq> Returned" and "wk_queue w' = wk_queue w" and "wk_outer w' = wk_outer w"
    and "wk_workers w' = (wk_workers w)[k := Returned]"
  shows "walk_load lst rank w' < walk_load lst rank w"
proof -
  from sum_list_upd [of k "wk_workers w" "walker_load lst rank" Returned] assms(1)
  have "sum_list (map (walker_load lst rank) ((wk_workers w)[k := Returned])) + walker_load lst rank a =
      sum_list (map (walker_load lst rank) (wk_workers w))"
    by (simp add: walker_load_def)
  moreover have "0 < walker_load lst rank a" using assms(2) by (cases a) (simp_all add: walker_load_def)
  ultimately show ?thesis using assms(3-5) by (simp add: walk_load_def)
qed

lemma step_load: "walk_step lst w w' \<Longrightarrow> ranked lst rank \<Longrightarrow> walk_load lst rank w' < walk_load lst rank w"
proof (induction rule: walk_step.induct)
  case (takes k w)
  then show ?case using take_holds(2) by (simp add: walk_over_def)
next
  case (returns k w)
  then show ?case by (intro return_load) (auto simp: walk_return_def)
next
  case (listed k p w)
  show ?case
  proof (cases "lst p")
    case (Inl e)
    with listed show ?thesis by (intro return_load [where a = "Listing p"]) (auto simp: walk_listed_def walk_return_def)
  next
    case (Inr cs)
    with listed show ?thesis using listed_holds(2) by simp
  qed
next
  case (aborted k p w e)
  then show ?case by (intro return_load [where a = "Listing p"]) (auto simp: walk_listed_def walk_return_def)
next
  case (canceled w)
  then show ?case by (simp add: walk_load_def)
qed

lemma walk_active_at: "walk_active w \<longleftrightarrow> (\<exists>j p. worker_is j (Listing p) w)"
proof
  assume "walk_active w"
  then obtain a where a: "a \<in> set (wk_workers w)" "case a of Listing _ \<Rightarrow> True | _ \<Rightarrow> False"
    by (auto simp: walk_active_def list_ex_iff)
  from a(2) obtain p where "a = Listing p" by (auto split: walker.splits)
  with a(1) show "\<exists>j p. worker_is j (Listing p) w" by (auto simp: in_set_conv_nth)
next
  assume "\<exists>j p. worker_is j (Listing p) w"
  then obtain p where "Listing p \<in> set (wk_workers w)" using nth_mem by metis
  then show "walk_active w" by (force simp: walk_active_def list_ex_iff)
qed

lemma walk_progress: "walk_result w = None \<Longrightarrow> \<exists>w'. walk_step lst w w' \<and> wk_outer w' = wk_outer w"
proof -
  assume "walk_result w = None"
  then obtain k where k: "k < length (wk_workers w)" "wk_workers w ! k \<noteq> Returned"
    by (auto simp: walk_result_def list_all_iff in_set_conv_nth split: if_splits)
  show ?thesis
  proof (cases "walk_active w")
    case True
    then obtain j p where "worker_is j (Listing p) w" by (auto simp: walk_active_at)
    then have "walk_step lst w (walk_listed j (lst p) w)" by (rule walk_step.listed)
    moreover have "wk_outer (walk_listed j (lst p) w) = wk_outer w"
      by (simp add: walk_listed_def walk_return_def split: sum.splits)
    ultimately show ?thesis by blast
  next
    case False
    then have i: "worker_is k Idle w" using k by (cases "wk_workers w ! k") (auto simp: walk_active_at)
    have "\<not> walk_waits w" using False by (simp add: walk_waits_def)
    with i have "walk_step lst w (if walk_over w then walk_return k w else walk_take k w)"
      by (auto intro: walk_step.takes walk_step.returns)
    moreover have "wk_outer (if walk_over w then walk_return k w else walk_take k w) = wk_outer w"
      by (simp add: walk_return_def walk_take_def)
    ultimately show ?thesis by blast
  qed
qed

lemma steps_load: "(walk_step lst ^^ n) w w' \<Longrightarrow> ranked lst rank \<Longrightarrow> n + walk_load lst rank w' \<le> walk_load lst rank w"
proof (induction n arbitrary: w')
  case (Suc n)
  then obtain u where u: "(walk_step lst ^^ n) w u" "walk_step lst u w'" by auto
  from Suc.IH [OF u(1) Suc.prems(2)] step_load [OF u(2) Suc.prems(2)] show ?case by simp
qed simp


section \<open>Every file, once\<close>

text \<open>What holds in a walk: a canceled one has a reason; without one, every file of the tree is either
  found or still ahead, and a worker returns only when nothing is ahead.\<close>

definition walk_inv :: "(string \<Rightarrow> entry list result) \<Rightarrow> (string \<Rightarrow> nat) \<Rightarrow> string \<Rightarrow> walk \<Rightarrow> bool" where
  "walk_inv lst rank root w \<longleftrightarrow>
     (wk_err w = None \<and> \<not> wk_outer w \<longrightarrow>
        \<not> wk_canceled w \<and> walk_holds lst rank w = mset (tree_files lst rank root) \<and>
        (Returned \<in> set (wk_workers w) \<longrightarrow> wk_queue w = [] \<and> \<not> walk_active w))"

lemma active_update: "k < length (wk_workers w) \<Longrightarrow> wk_workers w ! k = Idle \<Longrightarrow>
   walk_active (w\<lparr>wk_workers := (wk_workers w)[k := Returned]\<rparr>) = walk_active w"
proof -
  assume k: "k < length (wk_workers w)" "wk_workers w ! k = Idle"
  have "worker_is j (Listing p) (w\<lparr>wk_workers := (wk_workers w)[k := Returned]\<rparr>) \<longleftrightarrow> worker_is j (Listing p) w" for j p
    using k by (cases "j = k") auto
  then show ?thesis unfolding walk_active_at by simp
qed

lemma returned_update: "Returned \<in> set (xs[k := a]) \<Longrightarrow> a \<noteq> Returned \<Longrightarrow> Returned \<in> set xs"
  using set_update_subset_insert [of xs k a] by auto

lemma step_walk_inv: "walk_step lst w w' \<Longrightarrow> ranked lst rank \<Longrightarrow> walk_inv lst rank root w \<Longrightarrow> walk_inv lst rank root w'"
proof (induction rule: walk_step.induct)
  case (takes k w)
  have q: "wk_queue w \<noteq> []" using takes by (simp add: walk_over_def)
  have "Returned \<notin> set (wk_workers (walk_take k w))" if "wk_err w = None" "\<not> wk_outer w"
    using takes q that by (auto simp: walk_inv_def walk_take_def dest!: returned_update)
  with takes take_holds(1) [OF takes(1) q, of lst rank] show ?case
    by (auto simp: walk_inv_def walk_take_def)
next
  case (returns k w)
  let ?w = "walk_return k w"
  from sum_list_upd [of k "wk_workers w" "walker_files lst rank" Returned] returns(1)
  have "walk_holds lst rank ?w = walk_holds lst rank w"
    by (simp add: walk_holds_def walk_return_def walker_files_def)
  moreover have "walk_active ?w = walk_active w" using active_update [of k w] returns(1) by (simp add: walk_return_def)
  moreover have "wk_queue w = [] \<and> \<not> walk_active w" if "wk_err w = None" "\<not> wk_outer w"
    using returns that by (auto simp: walk_inv_def walk_over_def walk_waits_def)
  ultimately show ?case using returns(5) by (simp add: walk_inv_def walk_return_def)
next
  case (listed k p w)
  show ?case
  proof (cases "lst p")
    case (Inl e)
    with listed show ?thesis by (auto simp: walk_inv_def walk_listed_def walk_return_def)
  next
    case (Inr cs)
    have "walk_active w" using listed(1) by (auto simp: walk_active_at)
    with listed have "Returned \<notin> set (wk_workers (walk_listed k (Inr cs) w))" if "wk_err w = None" "\<not> wk_outer w"
      using that by (auto simp: walk_inv_def walk_listed_def dest!: returned_update)
    with Inr listed listed_holds(1) [OF listed(2,1) Inr] show ?thesis
      by (auto simp: walk_inv_def walk_listed_def)
  qed
next
  case (aborted k p w e)
  then show ?case by (auto simp: walk_inv_def walk_listed_def walk_return_def)
next
  case (canceled w)
  then show ?case by (simp add: walk_inv_def)
qed

lemma start_walk_inv: "walk_inv lst rank root (walk_start root)"
  by (simp add: walk_inv_def walk_start_def walk_holds_def walk_concurrency_def walker_files_def numeral_eq_Suc)

text \<open>C5: when the walk returns files, they are the files of the tree, each as often as the server
  lists it, whichever order the four workers took the directories in.\<close>

theorem walk_complete:
  assumes "ranked lst rank" and "(walk_step lst)\<^sup>*\<^sup>* (walk_start root) w" and "walk_result w = Some (Inr fs)"
  shows "mset fs = mset (tree_files lst rank root)"
proof -
  have inv: "walk_inv lst rank root w"
    using assms(2) by (induction rule: rtranclp_induct) (use start_walk_inv step_walk_inv assms(1) in blast)+
  have all: "list_all (\<lambda>k. k = Returned) (wk_workers w)" "wk_err w = None" "\<not> wk_outer w" "fs = wk_files w"
    using assms(3) by (auto simp: walk_result_def split: if_splits option.splits)
  have len: "length (wk_workers w) = 4"
    using assms(2)
  proof (induction rule: rtranclp_induct)
    case base
    show ?case by (simp add: walk_start_def walk_concurrency_def)
  next
    case (step u v)
    from step.hyps(2) step.IH show ?case
      by cases (auto simp: walk_take_def walk_return_def walk_listed_def split: sum.splits)
  qed
  have "Returned \<in> set (wk_workers w)" using all(1) len by (cases "wk_workers w") auto
  with inv all have q: "wk_queue w = []" "walk_holds lst rank w = mset (tree_files lst rank root)" by (auto simp: walk_inv_def)
  have "list_all (\<lambda>k. k = Returned) ws \<Longrightarrow> sum_list (map (walker_files lst rank) ws) = {#}" for ws
    by (induction ws) (simp_all add: walker_files_def)
  from this [OF all(1)] have "sum_list (map (walker_files lst rank) (wk_workers w)) = {#}" .
  with q all show ?thesis by (simp add: walk_holds_def)
qed

section \<open>A tree\<close>

definition dir_entry :: "string \<Rightarrow> entry" where
  "dir_entry p = \<lparr>en_path = p, en_is_dir = True, en_size = -1, en_mod = None\<rparr>"

definition file_entry :: "string \<Rightarrow> int \<Rightarrow> entry" where
  "file_entry p n = \<lparr>en_path = p, en_is_dir = False, en_size = n, en_mod = None\<rparr>"

definition sample_tree :: "string \<Rightarrow> entry list result" where
  "sample_tree p =
     (if p = ''/d'' then Inr [file_entry ''/d/a'' 1, dir_entry ''/d/e'']
      else if p = ''/d/e'' then Inr [file_entry ''/d/e/b'' 2] else Inl (ErrMsg ''404''))"

definition sample_rank :: "string \<Rightarrow> nat" where
  "sample_rank p = (if p = ''/d'' then 1 else 0)"

lemma sample_ranked: "ranked sample_tree sample_rank"
  by (auto simp: ranked_def sample_tree_def sample_rank_def file_entry_def dir_entry_def split: if_splits)

text \<open>Two workers share the tree.\<close>

definition walked :: walk where
  "walked =
     (let w = walk_listed 0 (sample_tree ''/d'') (walk_take 0 (walk_start ''/d''));
          w = walk_listed 1 (sample_tree ''/d/e'') (walk_take 1 w)
      in fold walk_return [0, 1, 2, 3] w)"

lemma walked_run: "(walk_step sample_tree ^^ 8) (walk_start ''/d'') walked"
proof -
  define w0 where "w0 = walk_start ''/d''"
  define w1 where "w1 = walk_take 0 w0"
  define w2 where "w2 = walk_listed 0 (sample_tree ''/d'') w1"
  define w3 where "w3 = walk_take 1 w2"
  define w4 where "w4 = walk_listed 1 (sample_tree ''/d/e'') w3"
  note ws = w4_def w3_def w2_def w1_def w0_def
  have walked_eq: "walked = walk_return 3 (walk_return 2 (walk_return 1 (walk_return 0 w4)))"
    by (simp add: walked_def ws)
  have "walk_step sample_tree w0 w1" unfolding w1_def by (rule walk_step.takes) (unfold ws, code_simp+)
  moreover have "walk_step sample_tree w1 w2" unfolding w2_def by (rule walk_step.listed) (unfold ws, code_simp+)
  moreover have "walk_step sample_tree w2 w3" unfolding w3_def by (rule walk_step.takes) (unfold ws, code_simp+)
  moreover have "walk_step sample_tree w3 w4" unfolding w4_def by (rule walk_step.listed) (unfold ws, code_simp+)
  moreover have "walk_step sample_tree w4 (walk_return 0 w4)" by (rule walk_step.returns) (unfold ws, code_simp+)
  moreover have "walk_step sample_tree (walk_return 0 w4) (walk_return 1 (walk_return 0 w4))"
    by (rule walk_step.returns) (unfold ws, code_simp+)
  moreover have "walk_step sample_tree (walk_return 1 (walk_return 0 w4)) (walk_return 2 (walk_return 1 (walk_return 0 w4)))"
    by (rule walk_step.returns) (unfold ws, code_simp+)
  moreover have "walk_step sample_tree (walk_return 2 (walk_return 1 (walk_return 0 w4))) walked"
    unfolding walked_eq by (rule walk_step.returns) (unfold ws, code_simp+)
  ultimately show ?thesis
    unfolding w0_def by (simp add: numeral_eq_Suc) blast
qed


theorem walk_complete_witness: "mset [file_entry ''/d/a'' 1, file_entry ''/d/e/b'' 2] = mset (tree_files sample_tree sample_rank ''/d'')"
proof -
  have "walk_result walked = Some (Inr [file_entry ''/d/a'' 1, file_entry ''/d/e/b'' 2])" by code_simp
  from walk_complete [OF sample_ranked relpowp_imp_rtranclp [OF walked_run] this] show ?thesis .
qed

end
