(* ===== verification/Downloader.thy ===== *)
theory Downloader
  imports GoStrings
begin

text \<open>
  \<^verbatim>\<open>internal/downloader/downloader.go\<close>: the probe, the single stream, the chunked download with
  its sidecar, and the checksum. The server and the disk are arguments: a reply is its status and
  the events of its body, each with the bytes a \<^verbatim>\<open>Read\<close> returned and what the rate limiters, the
  write and the read's own error were. The goroutines of a chunked download are a list of
  workers, and their interleaving is the order of the steps of \<open>transfer_step\<close>. A body's end
  without an error event is an end of file. SHA-256 is an argument. Progress callbacks are left
  out: nothing the download does depends on them.
\<close>

section \<open>Bytes at an offset\<close>

text \<open>\<^verbatim>\<open>WriteAt\<close> (a gap reads as zeros) and \<^verbatim>\<open>Truncate\<close>.\<close>

definition write_at :: "int \<Rightarrow> string \<Rightarrow> string \<Rightarrow> string" where
  "write_at pos bs f =
     (let p = nat pos in take p (f @ replicate (p - length f) (CHR 0x00)) @ bs @ drop (p + length bs) f)"

definition truncate_to :: "int \<Rightarrow> string \<Rightarrow> string" where
  "truncate_to n f = take (nat n) f @ replicate (nat n - length f) (CHR 0x00)"

section \<open>Replies\<close>

record read_event =
  ev_bytes :: string
  ev_wait :: "gerror option"
  ev_write :: "gerror option"
  ev_err :: "gerror option"
  ev_ctx :: bool

text \<open>No reply, with whether the context was canceled, or a status, its text and a body.\<close>

datatype reply = NoReply gerror bool | Reply int string "read_event list"

record options =
  op_url :: string
  op_concurrency :: int
  op_start :: int
  op_sha256 :: string

record dl_result =
  dr_bytes :: int
  dr_completed :: bool

definition no_result :: dl_result where
  "no_result = \<lparr>dr_bytes = 0, dr_completed = False\<rparr>"

section \<open>The sidecar and the files\<close>

record chunk =
  ck_start :: int
  ck_end :: int
  ck_done :: int

record sidecar =
  sc_url :: string
  sc_total :: int
  sc_chunks :: "chunk list"

text \<open>The output file, and the sidecar (\<open>None\<close> also when it does not parse).\<close>

record files =
  fs_out :: "string option"
  fs_side :: "sidecar option"

fun split_loop :: "int \<Rightarrow> int \<Rightarrow> nat \<Rightarrow> int \<Rightarrow> chunk list" where
  "split_loop tot piece 0 start = []"
| "split_loop tot piece (Suc k) start =
     (let e = (if k = 0 then tot else start + piece)
      in \<lparr>ck_start = start, ck_end = e, ck_done = 0\<rparr> # split_loop tot piece k e)"

definition load_or_init_sidecar :: "options \<Rightarrow> int \<Rightarrow> files \<Rightarrow> sidecar \<times> files" where
  "load_or_init_sidecar opt tot fs =
     (case (case fs_side fs of
              Some sc \<Rightarrow> if sc_url sc \<noteq> op_url opt \<or> sc_total sc \<noteq> tot \<or> sc_chunks sc = [] then None else Some sc
            | None \<Rightarrow> None) of
        Some sc \<Rightarrow> (sc, fs)
      | None \<Rightarrow>
          (\<lparr>sc_url = op_url opt, sc_total = tot,
            sc_chunks = split_loop tot (go_div tot (op_concurrency opt)) (nat (op_concurrency opt)) 0\<rparr>,
           fs\<lparr>fs_out := Some (truncate_to tot (case fs_out fs of None \<Rightarrow> [] | Some f \<Rightarrow> f))\<rparr>))"

section \<open>Chunks\<close>

text \<open>A goroutine of \<^verbatim>\<open>fetchChunk\<close>: its request not answered yet, at a position of its body, or over.\<close>

datatype chunk_worker = Asking | Reading int "read_event list" | Over

record transfer =
  tr_sc :: sidecar
  tr_file :: string
  tr_disk :: "sidecar option"
  tr_workers :: "chunk_worker list"
  tr_counter :: int
  tr_ignored :: bool
  tr_errors :: "gerror list"

abbreviation chunk_at :: "nat \<Rightarrow> transfer \<Rightarrow> chunk" where
  "chunk_at k t \<equiv> sc_chunks (tr_sc t) ! k"

definition set_worker :: "nat \<Rightarrow> chunk_worker \<Rightarrow> transfer \<Rightarrow> transfer" where
  "set_worker k w t = t\<lparr>tr_workers := (tr_workers t)[k := w]\<rparr>"

text \<open>A goroutine returns, with an error for \<^verbatim>\<open>errCh\<close> or without.\<close>

definition worker_returns :: "nat \<Rightarrow> gerror option \<Rightarrow> transfer \<Rightarrow> transfer" where
  "worker_returns k e t =
     (case e of None \<Rightarrow> set_worker k Over t
      | Some x \<Rightarrow> (set_worker k Over t)\<lparr>tr_errors := tr_errors t @ [x]\<rparr>)"

definition chunk_status_error :: "chunk \<Rightarrow> string \<Rightarrow> gerror" where
  "chunk_status_error c text =
     ErrMsg (''chunk ['' @ itoa (ck_start c) @ '','' @ itoa (ck_end c) @ ''): unexpected status '' @ text)"

definition chunk_reply :: "nat \<Rightarrow> reply \<Rightarrow> transfer \<Rightarrow> transfer" where
  "chunk_reply k r t =
     (case r of
        NoReply e canceled \<Rightarrow> worker_returns k (if canceled then None else Some e) t
      | Reply status text evs \<Rightarrow>
          if status = 200 then (worker_returns k None t)\<lparr>tr_ignored := True\<rparr>
          else if status \<noteq> 206 then worker_returns k (Some (chunk_status_error (chunk_at k t) text)) t
          else set_worker k (Reading (ck_start (chunk_at k t) + ck_done (chunk_at k t)) evs) t)"

text \<open>The bytes of one read are written and counted.\<close>

definition chunk_write :: "nat \<Rightarrow> int \<Rightarrow> string \<Rightarrow> transfer \<Rightarrow> transfer" where
  "chunk_write k pos bs t =
     (let c = chunk_at k t;
          c' = c\<lparr>ck_done := pos + int (length bs) - ck_start c\<rparr>
      in t\<lparr>tr_file := write_at pos bs (tr_file t),
           tr_sc := (tr_sc t)\<lparr>sc_chunks := (sc_chunks (tr_sc t))[k := c']\<rparr>,
           tr_counter := tr_counter t + int (length bs)\<rparr>)"

text \<open>What follows a read whose bytes are dealt with.\<close>

definition read_end :: "nat \<Rightarrow> int \<Rightarrow> read_event \<Rightarrow> read_event list \<Rightarrow> transfer \<Rightarrow> transfer" where
  "read_end k pos ev rest t =
     (case ev_err ev of
        None \<Rightarrow> set_worker k (Reading pos rest) t
      | Some e \<Rightarrow> worker_returns k (if e = ErrEOF \<or> ev_ctx ev then None else Some e) t)"

definition chunk_read :: "nat \<Rightarrow> transfer \<Rightarrow> transfer" where
  "chunk_read k t =
     (case tr_workers t ! k of
        Reading pos (ev # rest) \<Rightarrow>
          if ev_bytes ev = [] then read_end k pos ev rest t
          else
            let c = chunk_at k t; bs = take (nat (ck_end c - pos)) (ev_bytes ev)
            in if bs \<noteq> [] \<and> ev_wait ev \<noteq> None then worker_returns k (ev_wait ev) t
               else if bs \<noteq> [] \<and> ev_write ev \<noteq> None then worker_returns k (ev_write ev) t
               else let t' = (if bs = [] then t else chunk_write k pos bs t); pos' = pos + int (length bs)
                    in if ck_end c \<le> pos' then worker_returns k None t' else read_end k pos' ev rest t'
      | Reading pos [] \<Rightarrow> worker_returns k None t
      | _ \<Rightarrow> t)"

text \<open>\<^verbatim>\<open>saveSidecar\<close>: written to a temporary file and renamed, so all of it or nothing.\<close>

definition save_sidecar :: "transfer \<Rightarrow> transfer" where
  "save_sidecar t = t\<lparr>tr_disk := Some (tr_sc t)\<rparr>"

text \<open>The start of \<^verbatim>\<open>runChunked\<close>. A file that is gone cannot be opened.\<close>

definition start_transfer :: "sidecar \<times> files \<Rightarrow> transfer result" where
  "start_transfer p =
     (case fs_out (snd p) of
        None \<Rightarrow> Inl (ErrMsg ''open: no such file or directory'')
      | Some f \<Rightarrow> Inr
         \<lparr>tr_sc = fst p, tr_file = f, tr_disk = fs_side (snd p),
          tr_workers = map (\<lambda>c. if ck_end c - ck_start c \<le> ck_done c then Over else Asking) (sc_chunks (fst p)),
          tr_counter = sum_list (map ck_done (sc_chunks (fst p))), tr_ignored = False, tr_errors = []\<rparr>)"

definition files_of :: "transfer \<Rightarrow> files" where
  "files_of t = \<lparr>fs_out = Some (tr_file t), fs_side = tr_disk t\<rparr>"

text \<open>The end of \<^verbatim>\<open>runChunked\<close>, once every goroutine is over; \<open>canceled\<close> is the context's state.\<close>

definition finish_transfer :: "bool \<Rightarrow> transfer \<Rightarrow> dl_result \<times> gerror option \<times> files" where
  "finish_transfer canceled t =
     (if tr_ignored t then (no_result, Some ErrRangeIgnored, files_of t)
      else let t = save_sidecar t; partial = \<lparr>dr_bytes = tr_counter t, dr_completed = False\<rparr>
      in case tr_errors t of
           e # _ \<Rightarrow> (partial, Some e, files_of t)
         | [] \<Rightarrow>
             if canceled then (partial, Some ErrCanceled, files_of t)
             else if list_ex (\<lambda>c. ck_done c < ck_end c - ck_start c) (sc_chunks (tr_sc t))
             then (partial, Some (ErrMsg ''download did not complete''), files_of t)
             else (\<lparr>dr_bytes = sc_total (tr_sc t), dr_completed = True\<rparr>, None, (files_of t)\<lparr>fs_side := None\<rparr>))"

section \<open>The probe\<close>

text \<open>What HEAD answered (its status, whether \<^verbatim>\<open>Accept-Ranges\<close> is \<^verbatim>\<open>bytes\<close>, its length), \<open>None\<close> for no
  answer, and what the one-byte GET did (an error, or its status, text, \<^verbatim>\<open>Content-Range\<close> and length).\<close>

definition content_range_total :: "string \<Rightarrow> int" where
  "content_range_total cr =
     (case last_index (CHR ''/'') cr of
        None \<Rightarrow> -1 | Some i \<Rightarrow> (case atoi (drop (Suc i) cr) of Some t \<Rightarrow> t | None \<Rightarrow> -1))"

definition probe_get :: "string \<Rightarrow> gerror + (int \<times> string \<times> string \<times> int) \<Rightarrow> (bool \<times> int) result" where
  "probe_get url r =
     (case r of
        Inl e \<Rightarrow> Inl e
      | Inr (status, text, cr, len) \<Rightarrow>
          if status = 206 then Inr (True, content_range_total cr)
          else if status \<noteq> 200
          then Inl (ErrMsg (''unexpected status probing '' @ url @ '': '' @ text))
          else Inr (False, len))"

definition probe ::
  "string \<Rightarrow> (int \<times> bool \<times> int) option \<Rightarrow> gerror + (int \<times> string \<times> string \<times> int) \<Rightarrow> (bool \<times> int) result" where
  "probe url hd_reply get_reply =
     (case hd_reply of
        Some (status, ranges, len) \<Rightarrow>
          if 200 \<le> status \<and> status < 400 then Inr (ranges, len)
          else probe_get url get_reply
      | None \<Rightarrow> probe_get url get_reply)"

section \<open>The single stream\<close>

text \<open>The copy loop: the file, the position and the events left.\<close>

fun single_loop :: "int \<Rightarrow> string \<Rightarrow> read_event list \<Rightarrow> dl_result \<times> gerror option \<times> string" where
  "single_loop written f [] = (\<lparr>dr_bytes = written, dr_completed = True\<rparr>, None, f)"
| "single_loop written f (ev # evs) =
     (if ev_bytes ev \<noteq> [] \<and> ev_wait ev \<noteq> None then (\<lparr>dr_bytes = written, dr_completed = False\<rparr>, ev_wait ev, f)
      else if ev_bytes ev \<noteq> [] \<and> ev_write ev \<noteq> None then (\<lparr>dr_bytes = written, dr_completed = False\<rparr>, ev_write ev, f)
      else
        let f' = (if ev_bytes ev = [] then f else write_at written (ev_bytes ev) f);
            written' = written + int (length (ev_bytes ev))
        in case ev_err ev of
             None \<Rightarrow> single_loop written' f' evs
           | Some e \<Rightarrow>
               if e = ErrEOF then (\<lparr>dr_bytes = written', dr_completed = True\<rparr>, None, f')
               else (\<lparr>dr_bytes = written', dr_completed = False\<rparr>, Some (if ev_ctx ev then ErrCanceled else e), f'))"

definition single_start :: "options \<Rightarrow> bool \<Rightarrow> files \<Rightarrow> int" where
  "single_start opt ranges fs =
     (if 0 < op_start opt \<and> ranges
      then (case fs_out fs of
              Some f \<Rightarrow> if op_start opt \<le> int (length f) then op_start opt else 0
            | None \<Rightarrow> 0)
      else 0)"

text \<open>\<^verbatim>\<open>runSingle\<close>: \<open>answer\<close> replies to the request, given the offset its range starts at (0: no range).\<close>

definition run_single ::
  "options \<Rightarrow> bool \<Rightarrow> (int \<Rightarrow> reply) \<Rightarrow> files \<Rightarrow> dl_result \<times> gerror option \<times> files" where
  "run_single opt ranges answer fs =
     (let start = single_start opt ranges fs;
          f = (case fs_out fs of None \<Rightarrow> [] | Some f \<Rightarrow> f);
          f = (if 0 < start then f else truncate_to 0 f)
      in case answer start of
           NoReply e _ \<Rightarrow> (\<lparr>dr_bytes = start, dr_completed = False\<rparr>, Some e, fs\<lparr>fs_out := Some f\<rparr>)
         | Reply status text evs \<Rightarrow>
             if 0 < start \<and> status \<noteq> 206
             then (case single_loop 0 (truncate_to 0 f) evs of (r, e, f) \<Rightarrow> (r, e, fs\<lparr>fs_out := Some f\<rparr>))
             else if status \<noteq> 200 \<and> status \<noteq> 206
             then (\<lparr>dr_bytes = start, dr_completed = False\<rparr>, Some (ErrMsg (''unexpected status: '' @ text)),
                   fs\<lparr>fs_out := Some f\<rparr>)
             else (case single_loop start f evs of (r, e, f) \<Rightarrow> (r, e, fs\<lparr>fs_out := Some f\<rparr>)))"

section \<open>Run\<close>

text \<open>\<^verbatim>\<open>verifyChecksum\<close> and what \<^verbatim>\<open>Run\<close> does with its answer; \<open>digest\<close> is the hex SHA-256.\<close>

definition verify_checksum :: "(string \<Rightarrow> string) \<Rightarrow> string option \<Rightarrow> string \<Rightarrow> gerror option" where
  "verify_checksum digest f want =
     (case f of
        None \<Rightarrow> Some (ErrMsg ''open: no such file or directory'')
      | Some bs \<Rightarrow>
          let want = to_lower (trim_space want)
          in if digest bs \<noteq> want
             then Some (ErrMsg (''sha256 mismatch (got '' @ digest bs @ '', want '' @ want @ '')''))
             else None)"

definition check_result ::
  "options \<Rightarrow> (string \<Rightarrow> string) \<Rightarrow> dl_result \<times> gerror option \<times> files \<Rightarrow> dl_result \<times> gerror option \<times> files" where
  "check_result opt digest p =
     (case p of
        (res, err, fs) \<Rightarrow>
          if err \<noteq> None \<or> \<not> dr_completed res \<or> op_sha256 opt = [] then (res, err, fs)
          else (case verify_checksum digest (fs_out fs) (op_sha256 opt) of
              Some e \<Rightarrow> (no_result, Some e, \<lparr>fs_out = None, fs_side = None\<rparr>)
            | None \<Rightarrow> (res, None, fs)))"

text \<open>\<^verbatim>\<open>Run\<close>. \<open>chunked\<close> is how the chunked download of these files goes under one order of its
  goroutines, \<open>answer\<close> how the server replies to a single stream.\<close>

definition run ::
  "options \<Rightarrow> (bool \<times> int) result \<Rightarrow> (int \<Rightarrow> files \<Rightarrow> dl_result \<times> gerror option \<times> files) \<Rightarrow> (int \<Rightarrow> reply) \<Rightarrow>
   (string \<Rightarrow> string) \<Rightarrow> files \<Rightarrow> dl_result \<times> gerror option \<times> files" where
  "run opt probed chunked answer digest fs =
     (let opt = opt\<lparr>op_concurrency := max 1 (op_concurrency opt)\<rparr>
      in case probed of
           Inl e \<Rightarrow> (no_result, Some e, fs)
         | Inr (ranges, tot) \<Rightarrow>
             check_result opt digest
               (if 1 < op_concurrency opt \<and> ranges \<and> 0 < tot
                then (case chunked tot fs of
                    (res, err, fs) \<Rightarrow>
                      if err = Some ErrRangeIgnored
                      then run_single (opt\<lparr>op_start := 0\<rparr>) False answer (fs\<lparr>fs_side := None\<rparr>)
                      else (res, err, fs))
                else run_single opt ranges answer fs))"

section \<open>Interleavings\<close>

text \<open>One step of a chunked download: a request answered, a read, a tick that saves the sidecar.
  \<open>answers lo hi r\<close>: the server may answer a request for the bytes from \<open>lo\<close> to before \<open>hi\<close> so.\<close>

inductive transfer_step :: "(int \<Rightarrow> int \<Rightarrow> reply \<Rightarrow> bool) \<Rightarrow> transfer \<Rightarrow> transfer \<Rightarrow> bool" for answers where
  answered: "k < length (tr_workers t) \<Longrightarrow> tr_workers t ! k = Asking \<Longrightarrow>
    answers (ck_start (chunk_at k t) + ck_done (chunk_at k t)) (ck_end (chunk_at k t)) r \<Longrightarrow>
    transfer_step answers t (chunk_reply k r t)"
| reads: "k < length (tr_workers t) \<Longrightarrow> tr_workers t ! k = Reading pos evs \<Longrightarrow> transfer_step answers t (chunk_read k t)"
| saves: "transfer_step answers t (save_sidecar t)"

text \<open>The runs of a download of one URL, each of any concurrency, cut off by a crash or a pause
  anywhere and started again on what the disk holds.\<close>

inductive downloading :: "(int \<Rightarrow> int \<Rightarrow> reply \<Rightarrow> bool) \<Rightarrow> string \<Rightarrow> int \<Rightarrow> transfer \<Rightarrow> bool"
  for answers url tot where
  fresh: "fs_side fs = None \<Longrightarrow> op_url opt = url \<Longrightarrow> 1 \<le> op_concurrency opt \<Longrightarrow>
    start_transfer (load_or_init_sidecar opt tot fs) = Inr t \<Longrightarrow> downloading answers url tot t"
| step: "downloading answers url tot t \<Longrightarrow> transfer_step answers t t' \<Longrightarrow> downloading answers url tot t'"
| again: "downloading answers url tot t \<Longrightarrow> op_url opt = url \<Longrightarrow> 1 \<le> op_concurrency opt \<Longrightarrow>
    start_transfer (load_or_init_sidecar opt tot (files_of t)) = Inr t' \<Longrightarrow> downloading answers url tot t'"

end
