(* ===== verification/DownloaderProps.thy ===== *)
theory DownloaderProps
  imports Downloader "HOL-Library.Sublist"
begin

text \<open>
  What the download guarantees: against any server a chunk writes inside its own window only;
  against a server that serves the bytes of one content, a chunked download that completes left
  exactly that content, whatever the order of its goroutines and however often it was cut off and
  started again; the checksum; and the single stream, with the error page it takes for the file.
\<close>

section \<open>Writes\<close>

lemma length_write_at: "0 \<le> pos \<Longrightarrow> pos + int (length bs) \<le> int (length f) \<Longrightarrow> length (write_at pos bs f) = length f"
  by (simp add: write_at_def Let_def)

lemma nth_write_at:
  assumes "0 \<le> pos" and "pos + int (length bs) \<le> int (length f)" and "i < length f"
  shows "write_at pos bs f ! i = (if pos \<le> int i \<and> int i < pos + int (length bs) then bs ! (i - nat pos) else f ! i)"
  using assms by (auto simp: write_at_def Let_def nth_append)

section \<open>Windows\<close>

text \<open>Chunks side by side from one offset to another.\<close>

fun tiled :: "int \<Rightarrow> int \<Rightarrow> chunk list \<Rightarrow> bool" where
  "tiled lo hi [] = (lo = hi)"
| "tiled lo hi (c # cs) = (ck_start c = lo \<and> lo \<le> ck_end c \<and> tiled (ck_end c) hi cs)"

lemma tiled_le: "tiled lo hi cs \<Longrightarrow> lo \<le> hi"
  by (induction cs arbitrary: lo) force+

lemma tiled_within: "tiled lo hi cs \<Longrightarrow> c \<in> set cs \<Longrightarrow> lo \<le> ck_start c \<and> ck_start c \<le> ck_end c \<and> ck_end c \<le> hi"
proof (induction cs arbitrary: lo)
  case (Cons a cs)
  then show ?case using tiled_le [of "ck_end a" hi cs] by fastforce
qed simp

lemma tiled_covers: "tiled lo hi cs \<Longrightarrow> lo \<le> i \<Longrightarrow> i < hi \<Longrightarrow> \<exists>c\<in>set cs. ck_start c \<le> i \<and> i < ck_end c"
proof (induction cs arbitrary: lo)
  case (Cons a cs)
  then show ?case by (cases "i < ck_end a") auto
qed simp

lemma tiled_done: "tiled lo hi cs \<Longrightarrow> k < length cs \<Longrightarrow> tiled lo hi (cs[k := (cs ! k)\<lparr>ck_done := n\<rparr>])"
proof (induction cs arbitrary: lo k)
  case (Cons a cs)
  then show ?case by (cases k) simp_all
qed simp

lemma split_tiled:
  "0 \<le> piece \<Longrightarrow> start + int k * piece \<le> tot \<Longrightarrow> tiled start tot (split_loop tot piece (Suc k) start)"
proof (induction k arbitrary: start)
  case (Suc k)
  from Suc.prems have "start + piece + int k * piece \<le> tot" by (simp add: algebra_simps)
  with Suc show ?case by (subst split_loop.simps) (simp add: Let_def)
qed simp

lemma split_fresh: "c \<in> set (split_loop tot piece k start) \<Longrightarrow> ck_done c = 0"
  by (induction k arbitrary: start) (auto simp: Let_def)

lemma fresh_tiles:
  assumes "fs_side fs = None" and "1 \<le> op_concurrency opt" and "0 \<le> n"
    and "load_or_init_sidecar opt n fs = (sc, fs')"
  shows "tiled 0 n (sc_chunks sc) \<and> length (sc_chunks sc) = nat (op_concurrency opt) \<and>
    (\<forall>c\<in>set (sc_chunks sc). ck_done c = 0) \<and> map_option length (fs_out fs') = Some (nat n)"
proof -
  define piece where "piece = go_div n (op_concurrency opt)"
  obtain k where k: "nat (op_concurrency opt) = Suc k" using assms(2) by (cases "nat (op_concurrency opt)") auto
  have piece: "0 \<le> piece" "piece * op_concurrency opt \<le> n"
    using assms(2,3) by (simp_all add: piece_def go_div_nonneg pos_imp_zdiv_nonneg_iff)
      (metis add.right_neutral add_mono_thms_linordered_semiring(1) div_mult_mod_eq dual_order.refl order_less_le_trans pos_mod_sign zero_less_one)
  have kk: "int k = op_concurrency opt - 1" using k assms(2) by simp
  have "tiled 0 n (split_loop n piece (Suc k) 0)"
  proof (rule split_tiled [OF piece(1)])
    have "int k * piece \<le> op_concurrency opt * piece" by (rule mult_right_mono) (use kk piece in simp_all)
    with piece(2) show "0 + int k * piece \<le> n" by (simp add: mult.commute)
  qed
  moreover have "length (split_loop n piece m s) = m" for m s
    by (induction m arbitrary: s) (simp_all add: Let_def)
  moreover have "length (truncate_to n f) = nat n" for f by (simp add: truncate_to_def)
  ultimately show ?thesis
    using assms(1,4) split_fresh
    by (auto simp: load_or_init_sidecar_def k simp del: split_loop.simps simp flip: piece_def)
qed

text \<open>\<^verbatim>\<open>loadOrInitSidecar\<close> splits a fresh download into as many chunks as asked for, side by side
  over the whole file, with nothing done, and gives the file its final size.\<close>

theorem fresh_split_tiles:
  assumes "fs_side fs = None" and "1 \<le> op_concurrency opt" and "0 \<le> n"
    and "load_or_init_sidecar opt n fs = (sc, fs')"
  shows "tiled 0 n (sc_chunks sc) \<and> length (sc_chunks sc) = nat (op_concurrency opt) \<and>
    (\<forall>c\<in>set (sc_chunks sc). ck_done c = 0) \<and> map_option length (fs_out fs') = Some (nat n)"
  by (rule fresh_tiles [OF assms])

theorem fresh_split_tiles_witness:
  "tiled 0 10 (sc_chunks (fst (load_or_init_sidecar \<lparr>op_url = ''u'', op_concurrency = 3, op_start = 0, op_sha256 = []\<rparr> 10
     \<lparr>fs_out = None, fs_side = None\<rparr>)))"
  using fresh_split_tiles [of "\<lparr>fs_out = None, fs_side = None\<rparr>" "\<lparr>op_url = ''u'', op_concurrency = 3, op_start = 0, op_sha256 = []\<rparr>" 10]
  by (cases "load_or_init_sidecar \<lparr>op_url = ''u'', op_concurrency = 3, op_start = 0, op_sha256 = []\<rparr> 10 \<lparr>fs_out = None, fs_side = None\<rparr>")
    simp

section \<open>What a step changes\<close>

text \<open>The shape every step keeps, whatever the server does.\<close>

definition transfer_shape :: "int \<Rightarrow> transfer \<Rightarrow> bool" where
  "transfer_shape n t \<longleftrightarrow> tiled 0 n (sc_chunks (tr_sc t)) \<and> int (length (tr_file t)) = n \<and>
     length (tr_workers t) = length (sc_chunks (tr_sc t)) \<and>
     (\<forall>c\<in>set (sc_chunks (tr_sc t)). 0 \<le> ck_done c \<and> ck_done c \<le> ck_end c - ck_start c) \<and>
     (\<forall>k pos evs. k < length (tr_workers t) \<longrightarrow> tr_workers t ! k = Reading pos evs \<longrightarrow>
        pos = ck_start (chunk_at k t) + ck_done (chunk_at k t)) \<and>
     tr_counter t = sum_list (map ck_done (sc_chunks (tr_sc t)))"

lemma set_worker_simps [simp]:
  "tr_sc (set_worker k w t) = tr_sc t" "tr_file (set_worker k w t) = tr_file t" "tr_disk (set_worker k w t) = tr_disk t"
  "tr_workers (set_worker k w t) = (tr_workers t)[k := w]" "tr_counter (set_worker k w t) = tr_counter t"
  "tr_errors (set_worker k w t) = tr_errors t" "tr_ignored (set_worker k w t) = tr_ignored t"
  by (simp_all add: set_worker_def)

lemma worker_returns_simps [simp]:
  "tr_sc (worker_returns k e t) = tr_sc t" "tr_file (worker_returns k e t) = tr_file t"
  "tr_disk (worker_returns k e t) = tr_disk t" "tr_workers (worker_returns k e t) = (tr_workers t)[k := Over]"
  "tr_counter (worker_returns k e t) = tr_counter t" "tr_ignored (worker_returns k e t) = tr_ignored t"
  by (simp_all add: worker_returns_def split: option.splits)

lemma chunk_write_simps [simp]:
  "tr_disk (chunk_write k pos bs t) = tr_disk t" "tr_workers (chunk_write k pos bs t) = tr_workers t"
  "tr_file (chunk_write k pos bs t) = write_at pos bs (tr_file t)"
  "sc_url (tr_sc (chunk_write k pos bs t)) = sc_url (tr_sc t)" "sc_total (tr_sc (chunk_write k pos bs t)) = sc_total (tr_sc t)"
  "sc_chunks (tr_sc (chunk_write k pos bs t)) =
     (sc_chunks (tr_sc t))[k := (chunk_at k t)\<lparr>ck_done := pos + int (length bs) - ck_start (chunk_at k t)\<rparr>]"
  "tr_counter (chunk_write k pos bs t) = tr_counter t + int (length bs)"
  by (simp_all add: chunk_write_def Let_def)

text \<open>A worker's place after its read: over, or further on in its body.\<close>

lemma read_end_cases:
  obtains (goes_on) "read_end k pos ev rest t = set_worker k (Reading pos rest) t"
  | (ends) e where "read_end k pos ev rest t = worker_returns k e t"
  by (cases "ev_err ev") (auto simp: read_end_def)

lemma chunk_read_cases:
  assumes "tr_workers t ! k = Reading pos evs"
  obtains (returns) e where "chunk_read k t = worker_returns k e t"
  | (skips) ev rest where "evs = ev # rest" "ev_bytes ev = []" "chunk_read k t = set_worker k (Reading pos rest) t"
  | (last_write) bs e ev rest where "evs = ev # rest" "bs \<noteq> []" "prefix bs (ev_bytes ev)" "pos + int (length bs) \<le> ck_end (chunk_at k t)"
      "chunk_read k t = worker_returns k e (chunk_write k pos bs t)"
  | (writes) ev rest where "evs = ev # rest" "ev_bytes ev \<noteq> []" "pos + int (length (ev_bytes ev)) < ck_end (chunk_at k t)"
      "chunk_read k t = set_worker k (Reading (pos + int (length (ev_bytes ev))) rest) (chunk_write k pos (ev_bytes ev) t)"
proof (cases evs)
  case Nil
  with assms returns show thesis by (simp add: chunk_read_def)
next
  case (Cons ev rest)
  let ?c = "chunk_at k t"
  define bs where "bs = take (nat (ck_end ?c - pos)) (ev_bytes ev)"
  show thesis
  proof (cases "ev_bytes ev = []")
    case True
    with Cons assms have "chunk_read k t = read_end k pos ev rest t" by (simp add: chunk_read_def)
    with True Cons skips returns show thesis by (cases rule: read_end_cases [of k pos ev rest t]) auto
  next
    case False
    have read: "chunk_read k t =
        (if bs \<noteq> [] \<and> ev_wait ev \<noteq> None then worker_returns k (ev_wait ev) t
         else if bs \<noteq> [] \<and> ev_write ev \<noteq> None then worker_returns k (ev_write ev) t
         else if ck_end ?c \<le> pos + int (length bs)
         then worker_returns k None (if bs = [] then t else chunk_write k pos bs t)
         else read_end k (pos + int (length bs)) ev rest (if bs = [] then t else chunk_write k pos bs t))"
      using False by (simp add: chunk_read_def Let_def bs_def Cons assms [unfolded Cons])
    show thesis
    proof (cases "bs \<noteq> [] \<and> (ev_wait ev \<noteq> None \<or> ev_write ev \<noteq> None)")
      case True
      show thesis
      proof (cases "ev_wait ev = None")
        case True
        with \<open>bs \<noteq> [] \<and> (ev_wait ev \<noteq> None \<or> ev_write ev \<noteq> None)\<close> read returns show thesis by simp
      next
        case False
        with \<open>bs \<noteq> [] \<and> (ev_wait ev \<noteq> None \<or> ev_write ev \<noteq> None)\<close> read returns show thesis by simp
      qed
    next
      case ok: False
      show thesis
      proof (cases "bs = []")
        case True
        then have "ck_end ?c \<le> pos" using False by (simp add: bs_def)
        with True read returns show thesis by simp
      next
        case nonempty: False
        have len: "pos + int (length bs) \<le> ck_end ?c" using nonempty by (auto simp: bs_def)
        have pre: "prefix bs (ev_bytes ev)" by (simp add: bs_def take_is_prefix)
        let ?t = "chunk_write k pos bs t"
        have r: "chunk_read k t = (if ck_end ?c \<le> pos + int (length bs) then worker_returns k None ?t
            else read_end k (pos + int (length bs)) ev rest ?t)"
          using ok nonempty read by simp
        show thesis
        proof (cases "ck_end ?c \<le> pos + int (length bs)")
          case True
          with r last_write [OF Cons nonempty pre len] show thesis by simp
        next
          case more: False
          then have bs: "bs = ev_bytes ev" by (auto simp: bs_def min_def split: if_splits)
          with more r writes [OF Cons False] last_write [OF Cons nonempty pre len] show thesis
            by (cases rule: read_end_cases [of k "pos + int (length bs)" ev rest ?t]) auto
        qed
      qed
    qed
  qed
qed

lemma chunk_within:
  assumes "transfer_shape n t" and "k < length (tr_workers t)"
  shows "0 \<le> ck_start (chunk_at k t) \<and> ck_end (chunk_at k t) \<le> n \<and> 0 \<le> ck_done (chunk_at k t) \<and>
    ck_start (chunk_at k t) + ck_done (chunk_at k t) \<le> ck_end (chunk_at k t)"
proof -
  have "chunk_at k t \<in> set (sc_chunks (tr_sc t))" using assms by (simp add: transfer_shape_def)
  then show ?thesis
    using assms(1) tiled_within [of 0 n "sc_chunks (tr_sc t)" "chunk_at k t"] by (fastforce simp: transfer_shape_def)
qed

lemma shape_worker:
  assumes "transfer_shape n t" and "w = Over \<or> (\<exists>evs. w = Reading (ck_start (chunk_at k t) + ck_done (chunk_at k t)) evs)"
    and "tr_sc t' = tr_sc t" "tr_file t' = tr_file t" "tr_counter t' = tr_counter t" "tr_workers t' = (tr_workers t)[k := w]"
  shows "transfer_shape n t'"
proof -
  have "pos = ck_start (chunk_at j t) + ck_done (chunk_at j t)"
    if "j < length (tr_workers t)" "(tr_workers t)[k := w] ! j = Reading pos evs" for j pos evs
    using that assms(1,2) unfolding transfer_shape_def by (cases "j = k") auto
  with assms(1,3-6) show ?thesis by (simp add: transfer_shape_def)
qed

lemma shape_returns: "transfer_shape n t \<Longrightarrow> transfer_shape n (worker_returns k e t)"
  by (rule shape_worker [where w = Over and k = k]) simp_all

lemma sum_list_done:
  "k < length cs \<Longrightarrow> sum_list (map ck_done (cs[k := c])) = sum_list (map ck_done cs) - ck_done (cs ! k) + ck_done c"
proof (induction cs arbitrary: k)
  case (Cons a cs)
  then show ?case by (cases k) simp_all
qed simp

lemma shape_write:
  assumes s: "transfer_shape n t" and k: "k < length (tr_workers t)" "tr_workers t ! k = Reading pos evs"
    and le: "pos + int (length bs) \<le> ck_end (chunk_at k t)"
    and w: "w = Over \<or> (\<exists>rest. w = Reading (pos + int (length bs)) rest)"
  shows "transfer_shape n (set_worker k w (chunk_write k pos bs t))"
proof -
  let ?cs = "sc_chunks (tr_sc t)" and ?c = "chunk_at k t"
  have kl: "k < length ?cs" using s k by (simp add: transfer_shape_def)
  have pos: "pos = ck_start ?c + ck_done ?c" using s k unfolding transfer_shape_def by blast
  note c = chunk_within [OF s k(1)]
  have len: "length (write_at pos bs (tr_file t)) = length (tr_file t)"
    by (rule length_write_at) (use s c pos le in \<open>simp_all add: transfer_shape_def\<close>)
  show ?thesis
    unfolding transfer_shape_def
  proof (intro conjI)
    show "tiled 0 n (sc_chunks (tr_sc (set_worker k w (chunk_write k pos bs t))))"
      using s kl by (simp add: transfer_shape_def tiled_done)
    show "\<forall>c\<in>set (sc_chunks (tr_sc (set_worker k w (chunk_write k pos bs t)))). 0 \<le> ck_done c \<and> ck_done c \<le> ck_end c - ck_start c"
    proof
      fix c' assume "c' \<in> set (sc_chunks (tr_sc (set_worker k w (chunk_write k pos bs t))))"
      then have "c' \<in> set ?cs \<or> c' = ?c\<lparr>ck_done := pos + int (length bs) - ck_start ?c\<rparr>"
        using set_update_subset_insert by fastforce
      then show "0 \<le> ck_done c' \<and> ck_done c' \<le> ck_end c' - ck_start c'"
        using s c pos le by (auto simp: transfer_shape_def)
    qed
    show "tr_counter (set_worker k w (chunk_write k pos bs t)) =
        sum_list (map ck_done (sc_chunks (tr_sc (set_worker k w (chunk_write k pos bs t)))))"
      using s kl pos by (simp add: transfer_shape_def sum_list_done)
    show "\<forall>j pos' evs'. j < length (tr_workers (set_worker k w (chunk_write k pos bs t))) \<longrightarrow>
        tr_workers (set_worker k w (chunk_write k pos bs t)) ! j = Reading pos' evs' \<longrightarrow>
        pos' = ck_start (chunk_at j (set_worker k w (chunk_write k pos bs t))) +
               ck_done (chunk_at j (set_worker k w (chunk_write k pos bs t)))"
    proof (intro allI impI)
      fix j pos' evs'
      assume j: "j < length (tr_workers (set_worker k w (chunk_write k pos bs t)))"
        and r: "tr_workers (set_worker k w (chunk_write k pos bs t)) ! j = Reading pos' evs'"
      show "pos' = ck_start (chunk_at j (set_worker k w (chunk_write k pos bs t))) +
               ck_done (chunk_at j (set_worker k w (chunk_write k pos bs t)))"
      proof (cases "j = k")
        case True
        with r k kl w show ?thesis by auto
      next
        case False
        with r j s show ?thesis by (simp add: transfer_shape_def)
      qed
    qed
  qed (use s len in \<open>simp_all add: transfer_shape_def\<close>)
qed

lemma read_shape:
  assumes "transfer_shape n t" and "k < length (tr_workers t)" and "tr_workers t ! k = Reading pos evs"
  shows "transfer_shape n (chunk_read k t)"
  using assms(3)
proof (cases rule: chunk_read_cases)
  case (returns e)
  with assms(1) show ?thesis by (simp add: shape_returns)
next
  case (skips ev rest)
  have "pos = ck_start (chunk_at k t) + ck_done (chunk_at k t)" using assms unfolding transfer_shape_def by blast
  then show ?thesis by (intro shape_worker [OF assms(1), of "Reading pos rest" k]) (simp_all add: skips)
next
  case (last_write bs e ev rest)
  have "worker_returns k e (chunk_write k pos bs t) = (set_worker k Over (chunk_write k pos bs t))
      \<lparr>tr_errors := tr_errors (worker_returns k e (chunk_write k pos bs t))\<rparr>"
    by (cases e) (simp_all add: worker_returns_def)
  moreover have "transfer_shape n (x\<lparr>tr_errors := es\<rparr>) = transfer_shape n x" for x es
    by (simp add: transfer_shape_def)
  ultimately show ?thesis using last_write shape_write [OF assms, of bs Over] by metis
next
  case (writes ev rest)
  then show ?thesis using shape_write [OF assms, of "ev_bytes ev"] by simp
qed

lemma reply_shape:
  assumes "transfer_shape n t"
  shows "transfer_shape n (chunk_reply k r t)"
proof -
  have "transfer_shape n (x\<lparr>tr_ignored := b\<rparr>) = transfer_shape n x" for x b
    by (simp add: transfer_shape_def)
  moreover have "transfer_shape n (set_worker k (Reading (ck_start (chunk_at k t) + ck_done (chunk_at k t)) evs) t)" for evs
    by (rule shape_worker [OF assms, of "Reading (ck_start (chunk_at k t) + ck_done (chunk_at k t)) evs" k]) simp_all
  ultimately show ?thesis
    using assms by (simp add: chunk_reply_def shape_returns split: reply.splits)
qed

lemma step_shape: "transfer_step answers t t' \<Longrightarrow> transfer_shape n t \<Longrightarrow> transfer_shape n t'"
proof (induction rule: transfer_step.induct)
  case (saves t)
  then show ?case by (simp add: transfer_shape_def save_sidecar_def)
qed (simp_all add: reply_shape read_shape)

text \<open>whatever the server sends, a step of a chunked download changes no byte outside the part of
  a chunk still to come, and the counts stay within the chunks; the total reported is their sum.\<close>

theorem chunk_writes_in_window:
  assumes "transfer_step answers t t'" and "transfer_shape n t"
  shows "transfer_shape n t' \<and> (\<forall>i<length (tr_file t). tr_file t' ! i \<noteq> tr_file t ! i \<longrightarrow>
    (\<exists>c\<in>set (sc_chunks (tr_sc t)). ck_start c + ck_done c \<le> int i \<and> int i < ck_end c))"
proof -
  have keep: "tr_file t' ! i = tr_file t ! i \<or>
      (\<exists>c\<in>set (sc_chunks (tr_sc t)). ck_start c + ck_done c \<le> int i \<and> int i < ck_end c)" if i: "i < length (tr_file t)" for i
    using assms
  proof (cases rule: transfer_step.cases)
    case (answered k r)
    then show ?thesis by (simp add: chunk_reply_def split: reply.splits)
  next
    case saves
    then show ?thesis by (simp add: save_sidecar_def)
  next
    case (reads k pos evs)
    have mem: "chunk_at k t \<in> set (sc_chunks (tr_sc t))" using reads(2) assms(2) by (simp add: transfer_shape_def)
    have pos: "pos = ck_start (chunk_at k t) + ck_done (chunk_at k t)"
      using reads assms(2) unfolding transfer_shape_def by blast
    note c = chunk_within [OF assms(2) reads(2)]
    have w: "write_at pos bs (tr_file t) ! i = tr_file t ! i \<or> pos \<le> int i \<and> int i < ck_end (chunk_at k t)"
      if le: "pos + int (length bs) \<le> ck_end (chunk_at k t)" for bs
      using nth_write_at [of pos bs "tr_file t" i] assms(2) c pos le i by (auto simp: transfer_shape_def)
    from reads(3) show ?thesis
    proof (cases rule: chunk_read_cases)
      case (last_write bs e ev rest)
      with reads(1) w [of bs] mem pos show ?thesis by auto
    next
      case (writes ev rest)
      with reads(1) w [of "ev_bytes ev"] mem pos show ?thesis by auto
    qed (simp_all add: reads(1))
  qed
  then show ?thesis using step_shape [OF assms] by blast
qed

section \<open>A server that serves one content\<close>

text \<open>A partial answer carries the content's bytes from the offset asked for on: as many as it
  likes, also more than were asked for, in pieces of any size.\<close>

definition honest :: "string \<Rightarrow> int \<Rightarrow> int \<Rightarrow> reply \<Rightarrow> bool" where
  "honest C lo hi r =
     (case r of
        Reply status _ evs \<Rightarrow> status = 206 \<longrightarrow> prefix (concat (map ev_bytes evs)) (drop (nat lo) C)
      | NoReply _ _ \<Rightarrow> True)"

text \<open>A sidecar of this download whose counts the file bears out.\<close>

definition right_sidecar :: "string \<Rightarrow> string \<Rightarrow> string \<Rightarrow> sidecar \<Rightarrow> bool" where
  "right_sidecar C url f sc \<longleftrightarrow> sc_url sc = url \<and> sc_total sc = int (length C) \<and> sc_chunks sc \<noteq> [] \<and>
     tiled 0 (int (length C)) (sc_chunks sc) \<and>
     (\<forall>c\<in>set (sc_chunks sc). 0 \<le> ck_done c \<and> ck_done c \<le> ck_end c - ck_start c) \<and>
     (\<forall>c\<in>set (sc_chunks sc). \<forall>i. ck_start c \<le> int i \<longrightarrow> int i < ck_start c + ck_done c \<longrightarrow> f ! i = C ! i)"

definition transfer_right :: "string \<Rightarrow> string \<Rightarrow> transfer \<Rightarrow> bool" where
  "transfer_right C url t \<longleftrightarrow> transfer_shape (int (length C)) t \<and> right_sidecar C url (tr_file t) (tr_sc t) \<and>
     (\<forall>sc. tr_disk t = Some sc \<longrightarrow> right_sidecar C url (tr_file t) sc) \<and>
     (\<forall>k pos evs. k < length (tr_workers t) \<longrightarrow> tr_workers t ! k = Reading pos evs \<longrightarrow>
        prefix (concat (map ev_bytes evs)) (drop (nat pos) C))"

lemma right_sidecar_mono:
  assumes "right_sidecar C url f sc" and "\<And>i. i < length C \<Longrightarrow> f ! i = C ! i \<Longrightarrow> f' ! i = C ! i"
  shows "right_sidecar C url f' sc"
proof -
  have "f' ! i = C ! i" if "c \<in> set (sc_chunks sc)" "ck_start c \<le> int i" "int i < ck_start c + ck_done c" for c i
  proof (rule assms(2))
    have "ck_end c \<le> int (length C)" "ck_done c \<le> ck_end c - ck_start c"
      using that(1) assms(1) tiled_within by (fastforce simp: right_sidecar_def)+
    then show "i < length C" using that(3) by simp
    show "f ! i = C ! i" using that assms(1) by (simp add: right_sidecar_def)
  qed
  with assms(1) show ?thesis by (simp add: right_sidecar_def)
qed

text \<open>Writing a piece of the content where it belongs.\<close>

lemma write_right:
  assumes "prefix bs (drop (nat pos) C)" and "0 \<le> pos" and "length f = length C" and "i < length C"
  shows "pos \<le> int i \<Longrightarrow> int i < pos + int (length bs) \<Longrightarrow> write_at pos bs f ! i = C ! i"
    and "f ! i = C ! i \<Longrightarrow> write_at pos bs f ! i = C ! i"
proof -
  obtain r where r: "drop (nat pos) C = bs @ r" using assms(1) by (auto simp: prefix_def)
  have len: "pos + int (length bs) \<le> int (length f) \<or> bs = []"
  proof (cases "bs = []")
    case False
    then have "0 < length bs" by simp
    moreover have "length C - nat pos = length bs + length r" using arg_cong [OF r, of length] by simp
    ultimately have "int (nat pos + length bs) \<le> int (length C)" by linarith
    then have "int (nat pos) + int (length bs) \<le> int (length C)" by simp
    with assms(2,3) show ?thesis by simp
  qed simp
  have at: "bs ! (i - nat pos) = C ! i" if "pos \<le> int i" "int i < pos + int (length bs)"
  proof -
    obtain p where p: "pos = int p" using assms(2) zero_le_imp_eq_int by blast
    with that have i: "p \<le> i" "i - p < length bs" by simp_all
    then have "C ! i = drop p C ! (i - p)" using assms(4) by simp
    also have "\<dots> = bs ! (i - p)" using i r p by (simp add: nth_append)
    finally show ?thesis by (simp add: p)
  qed
  have noop: "write_at pos [] f ! i = f ! i"
    using assms(3,4) by (auto simp: write_at_def Let_def nth_append)
  show "pos \<le> int i \<Longrightarrow> int i < pos + int (length bs) \<Longrightarrow> write_at pos bs f ! i = C ! i"
    using len at nth_write_at [OF assms(2), of bs f i] assms(3,4) by auto
  show "f ! i = C ! i \<Longrightarrow> write_at pos bs f ! i = C ! i"
    using len at noop nth_write_at [OF assms(2), of bs f i] assms(3,4) by (cases "bs = []") auto
qed

lemma write_sidecar:
  assumes t: "transfer_right C url t" and k: "k < length (tr_workers t)" "tr_workers t ! k = Reading pos (ev # rest)"
    and bs: "prefix bs (ev_bytes ev)" and le: "pos + int (length bs) \<le> ck_end (chunk_at k t)"
  shows "right_sidecar C url (write_at pos bs (tr_file t)) (tr_sc (chunk_write k pos bs t)) \<and>
    (\<forall>sc. tr_disk t = Some sc \<longrightarrow> right_sidecar C url (write_at pos bs (tr_file t)) sc)"
proof -
  let ?f = "write_at pos bs (tr_file t)" and ?c = "chunk_at k t"
  let ?c' = "?c\<lparr>ck_done := pos + int (length bs) - ck_start ?c\<rparr>"
  have shape: "transfer_shape (int (length C)) t" using t by (simp add: transfer_right_def)
  have pos: "pos = ck_start ?c + ck_done ?c" using shape k unfolding transfer_shape_def by blast
  note c = chunk_within [OF shape k(1)]
  have "prefix (concat (map ev_bytes (ev # rest))) (drop (nat pos) C)"
    using t k unfolding transfer_right_def by blast
  with bs have pre: "prefix bs (drop (nat pos) C)" by (auto intro: prefix_order.trans prefixI elim!: prefixE)
  have len: "length (tr_file t) = length C" using shape by (simp add: transfer_shape_def)
  have pos0: "0 \<le> pos" using c pos by simp
  note wr = write_right [OF pre pos0 len]
  have mono: "right_sidecar C url ?f sc" if "right_sidecar C url (tr_file t) sc" for sc
    by (rule right_sidecar_mono [OF that]) (rule wr(2))
  have own: "right_sidecar C url ?f (tr_sc t)" using t mono by (simp add: transfer_right_def)
  have kl: "k < length (sc_chunks (tr_sc t))" using shape k by (simp add: transfer_shape_def)
  have range: "0 \<le> ck_done ?c' \<and> ck_done ?c' \<le> ck_end ?c' - ck_start ?c'" using c pos le by simp
  have bytes: "?f ! i = C ! i" if "ck_start ?c' \<le> int i" "int i < ck_start ?c' + ck_done ?c'" for i
  proof (cases "pos \<le> int i")
    case True
    with that le c show ?thesis by (intro wr(1)) simp_all
  next
    case False
    with that pos own kl show ?thesis by (simp add: right_sidecar_def) (metis nth_mem not_le)
  qed
  have sub: "c = ?c' \<or> c \<in> set (sc_chunks (tr_sc t))"
    if "c \<in> set ((sc_chunks (tr_sc t))[k := ?c'])" for c
    using that set_update_subset_insert by fastforce
  have "right_sidecar C url ?f (tr_sc (chunk_write k pos bs t))"
    unfolding right_sidecar_def chunk_write_simps
  proof (intro conjI ballI)
    show "tiled 0 (int (length C)) ((sc_chunks (tr_sc t))[k := ?c'])"
      using own kl by (simp add: right_sidecar_def tiled_done)
    fix c assume "c \<in> set ((sc_chunks (tr_sc t))[k := ?c'])"
    note s = sub [OF this]
    show "0 \<le> ck_done c" "ck_done c \<le> ck_end c - ck_start c" using s range own by (auto simp: right_sidecar_def)
    show "\<forall>i. ck_start c \<le> int i \<longrightarrow> int i < ck_start c + ck_done c \<longrightarrow> ?f ! i = C ! i"
      using s bytes own by (auto simp: right_sidecar_def)
  qed (use own in \<open>simp_all add: right_sidecar_def\<close>)
  with mono t show ?thesis by (simp add: transfer_right_def)
qed

lemma transfer_rightI:
  assumes "transfer_right C url t" and "transfer_shape (int (length C)) t'"
    and "right_sidecar C url (tr_file t') (tr_sc t')"
    and "\<And>sc. tr_disk t' = Some sc \<Longrightarrow> right_sidecar C url (tr_file t') sc"
    and "tr_workers t' = (tr_workers t)[k := w]"
    and "\<And>pos evs. w = Reading pos evs \<Longrightarrow> k < length (tr_workers t) \<Longrightarrow> prefix (concat (map ev_bytes evs)) (drop (nat pos) C)"
  shows "transfer_right C url t'"
  unfolding transfer_right_def
proof (intro conjI allI impI)
  fix j pos evs assume j: "j < length (tr_workers t')" "tr_workers t' ! j = Reading pos evs"
  show "prefix (concat (map ev_bytes evs)) (drop (nat pos) C)"
  proof (cases "j = k")
    case True
    with j assms(5,6) show ?thesis by simp
  next
    case False
    with j assms(1,5) show ?thesis unfolding transfer_right_def by simp
  qed
qed (use assms(2-4) in simp_all)

lemma step_right:
  assumes "transfer_step (honest C) t t'" and right: "transfer_right C url t"
  shows "transfer_right C url t'"
proof -
  have shape: "transfer_shape (int (length C)) t" using right by (simp add: transfer_right_def)
  note shape' = step_shape [OF assms(1) shape]
  have own: "right_sidecar C url (tr_file t) (tr_sc t)" "\<And>sc. tr_disk t = Some sc \<Longrightarrow> right_sidecar C url (tr_file t) sc"
    using right by (simp_all add: transfer_right_def)
  from assms(1) show ?thesis
  proof cases
    case (answered k r)
    show ?thesis
    proof (cases "\<exists>msg evs. r = Reply 206 msg evs")
      case True
      then obtain msg evs where r: "r = Reply 206 msg evs" by blast
      have t': "t' = set_worker k (Reading (ck_start (chunk_at k t) + ck_done (chunk_at k t)) evs) t"
        by (simp add: answered r chunk_reply_def)
      show ?thesis
        by (rule transfer_rightI [OF right shape'])
          (use own answered(4) in \<open>auto simp: t' r honest_def\<close>)
    next
      case False
      then have "tr_workers t' = (tr_workers t)[k := Over]" "tr_file t' = tr_file t" "tr_sc t' = tr_sc t" "tr_disk t' = tr_disk t"
        by (auto simp: answered chunk_reply_def split: reply.splits)
      with own show ?thesis by (intro transfer_rightI [OF right shape', of k Over]) simp_all
    qed
  next
    case saves
    with own right shape' show ?thesis by (simp add: transfer_right_def save_sidecar_def)
  next
    case (reads k pos evs)
    have body: "prefix (concat (map ev_bytes evs)) (drop (nat pos) C)"
      using right reads unfolding transfer_right_def by blast
    from reads(3) show ?thesis
    proof (cases rule: chunk_read_cases)
      case (returns e)
      with own reads(1) show ?thesis by (intro transfer_rightI [OF right shape', of k Over]) simp_all
    next
      case (skips ev rest)
      with own reads(1) body show ?thesis
        by (intro transfer_rightI [OF right shape', of k "Reading pos rest"]) simp_all
    next
      case (last_write bs e ev rest)
      note w = write_sidecar [OF right reads(2) reads(3) [unfolded last_write(1)] last_write(3,4)]
      show ?thesis
        by (rule transfer_rightI [OF right shape', of k Over]) (use w reads(1) last_write(5) in simp_all)
    next
      case (writes ev rest)
      note w = write_sidecar [OF right reads(2) reads(3) [unfolded writes(1)], of "ev_bytes ev"]
      have pos: "0 \<le> pos" using shape reads(2,3) chunk_within [OF shape reads(2)] unfolding transfer_shape_def by fastforce
      obtain r where "drop (nat pos) C = ev_bytes ev @ concat (map ev_bytes rest) @ r"
        using body by (auto simp: writes(1) prefix_def)
      then have "drop (nat (pos + int (length (ev_bytes ev)))) C = concat (map ev_bytes rest) @ r"
        using pos by (metis add.commute append_eq_conv_conj drop_drop nat_int nat_int_add zero_le_imp_eq_int)
      then have "prefix (concat (map ev_bytes rest)) (drop (nat (pos + int (length (ev_bytes ev)))) C)" by simp
      with w writes reads(1) show ?thesis
        by (intro transfer_rightI [OF right shape', of k "Reading (pos + int (length (ev_bytes ev))) rest"]) simp_all
    qed
  qed
qed

text \<open>A run starts right on files whose sidecar, if any, is right.\<close>

lemma start_right:
  assumes "start_transfer (load_or_init_sidecar opt (int (length C)) fs) = Inr t" and "op_url opt = url" and "1 \<le> op_concurrency opt"
    and "\<And>sc. fs_side fs = Some sc \<Longrightarrow> \<exists>f. fs_out fs = Some f \<and> length f = length C \<and> right_sidecar C url f sc"
  shows "transfer_right C url t"
proof -
  obtain sc fs' where l: "load_or_init_sidecar opt (int (length C)) fs = (sc, fs')"
    by (cases "load_or_init_sidecar opt (int (length C)) fs")
  obtain f where f: "fs_out fs' = Some f" using assms(1) l by (auto simp: start_transfer_def split: option.splits)
  have t: "t = \<lparr>tr_sc = sc, tr_file = f, tr_disk = fs_side fs',
      tr_workers = map (\<lambda>c. if ck_end c - ck_start c \<le> ck_done c then Over else Asking) (sc_chunks sc),
      tr_counter = sum_list (map ck_done (sc_chunks sc)), tr_ignored = False, tr_errors = []\<rparr>"
    using assms(1) l f by (simp add: start_transfer_def)
  have "length f = length C \<and> right_sidecar C url f sc \<and> (\<forall>s. fs_side fs' = Some s \<longrightarrow> right_sidecar C url f s)"
  proof (cases "fs_side fs")
    case (Some s)
    then obtain g where g: "fs_out fs = Some g" "length g = length C" "right_sidecar C url g s" using assms(4) by blast
    then have "sc = s \<and> fs' = fs" using l Some assms(2) by (auto simp: load_or_init_sidecar_def right_sidecar_def)
    with g f Some show ?thesis by auto
  next
    case None
    have fresh: "tiled 0 (int (length C)) (sc_chunks sc)" "sc_chunks sc \<noteq> []" "\<forall>c\<in>set (sc_chunks sc). ck_done c = 0" "length f = length C"
      using fresh_tiles [OF None assms(3) _ l] f assms(3) by auto
    have "sc_url sc = url" "sc_total sc = int (length C)" "fs_side fs' = None"
      using l None assms(2) by (auto simp: load_or_init_sidecar_def)
    with fresh tiled_within [OF fresh(1)] show ?thesis by (auto simp: right_sidecar_def)
  qed
  moreover from this have "transfer_shape (int (length C)) t"
    by (auto simp: t transfer_shape_def right_sidecar_def split: if_splits)
  ultimately show ?thesis by (auto simp: transfer_right_def t split: if_splits)
qed

lemma downloading_right:
  "downloading (honest C) url (int (length C)) t \<Longrightarrow> transfer_right C url t"
proof (induction rule: downloading.induct)
  case (fresh fs opt t)
  then show ?case by (intro start_right [of opt C fs t url]) simp_all
next
  case (step t t')
  then show ?case using step_right by blast
next
  case (again t opt t')
  then have "length (tr_file t) = length C" "\<And>sc. tr_disk t = Some sc \<Longrightarrow> right_sidecar C url (tr_file t) sc"
    by (simp_all add: transfer_right_def transfer_shape_def)
  with again show ?case by (intro start_right [of opt C "files_of t" t' url]) (simp_all add: files_of_def)
qed

text \<open>C4: when a chunked download of a content reports completion, the file is that content, and the
  sidecar is gone: whatever the order in which its goroutines were answered, read and wrote and
  the ticker saved, and however often it was killed or paused and started again, with any number
  of chunks.\<close>

theorem completed_file_correct:
  assumes "downloading (honest C) url (int (length C)) t"
    and "finish_transfer canceled t = (res, err, fs)" and "dr_completed res"
  shows "fs_out fs = Some C \<and> dr_bytes res = int (length C) \<and> err = None \<and> fs_side fs = None"
proof -
  have right: "transfer_right C url t" by (rule downloading_right [OF assms(1)])
  then have shape: "transfer_shape (int (length C)) t" and own: "right_sidecar C url (tr_file t) (tr_sc t)"
    by (simp_all add: transfer_right_def)
  have fin: "\<forall>c\<in>set (sc_chunks (tr_sc t)). ck_end c - ck_start c \<le> ck_done c"
    "res = \<lparr>dr_bytes = sc_total (tr_sc t), dr_completed = True\<rparr>" "err = None" "fs = \<lparr>fs_out = Some (tr_file t), fs_side = None\<rparr>"
    using assms(2,3)
    by (auto simp: finish_transfer_def no_result_def save_sidecar_def files_of_def Let_def list_ex_iff
        split: if_splits list.splits)
  have "tr_file t = C"
  proof (rule nth_equalityI)
    show "length (tr_file t) = length C" using shape by (simp add: transfer_shape_def)
    fix i assume "i < length (tr_file t)"
    then have "int i < int (length C)" using shape by (simp add: transfer_shape_def)
    then obtain c where c: "c \<in> set (sc_chunks (tr_sc t))" "ck_start c \<le> int i" "int i < ck_end c"
      using own tiled_covers [of 0 "int (length C)" "sc_chunks (tr_sc t)" "int i"] by (auto simp: right_sidecar_def)
    with fin(1) have "int i < ck_start c + ck_done c" by fastforce
    with c own show "tr_file t ! i = C ! i" by (simp add: right_sidecar_def)
  qed
  with fin own show ?thesis by (simp add: right_sidecar_def)
qed

text \<open>A run of two chunks: the second one done, saved, the process killed; then a run that finds the
  sidecar, and a server that sends more than was asked for.\<close>

definition plain_event :: "string \<Rightarrow> read_event" where
  "plain_event bs = \<lparr>ev_bytes = bs, ev_wait = None, ev_write = None, ev_err = None, ev_ctx = False\<rparr>"

definition two_pieces :: options where
  "two_pieces = \<lparr>op_url = ''u'', op_concurrency = 2, op_start = 0, op_sha256 = []\<rparr>"

definition started_run :: "files \<Rightarrow> transfer" where
  "started_run fs = (case start_transfer (load_or_init_sidecar two_pieces 3 fs) of Inr t \<Rightarrow> t)"

definition killed_run :: transfer where
  "killed_run = save_sidecar (chunk_read 1 (chunk_reply 1 (Reply 206 [] [plain_event ''bc''])
     (started_run \<lparr>fs_out = None, fs_side = None\<rparr>)))"

definition resumed_run :: transfer where
  "resumed_run = chunk_read 0 (chunk_reply 0 (Reply 206 [] [plain_event ''ab'']) (started_run (files_of killed_run)))"

lemma killed_downloads: "downloading (honest ''abc'') ''u'' 3 killed_run"
proof -
  let ?t0 = "started_run \<lparr>fs_out = None, fs_side = None\<rparr>"
  let ?r = "Reply 206 [] [plain_event ''bc'']"
  have "start_transfer (load_or_init_sidecar two_pieces 3 \<lparr>fs_out = None, fs_side = None\<rparr>) = Inr ?t0"
    by code_simp
  then have "downloading (honest ''abc'') ''u'' 3 ?t0"
    by (intro downloading.fresh [of "\<lparr>fs_out = None, fs_side = None\<rparr>" two_pieces]) (simp_all add: two_pieces_def)
  moreover have "transfer_step (honest ''abc'') ?t0 (chunk_reply 1 ?r ?t0)"
    by (rule transfer_step.answered) (code_simp+)
  moreover have "transfer_step (honest ''abc'') (chunk_reply 1 ?r ?t0) (chunk_read 1 (chunk_reply 1 ?r ?t0))"
    by (rule transfer_step.reads [where pos = 1 and evs = "[plain_event ''bc'']"]) (code_simp+)
  ultimately show ?thesis
    unfolding killed_run_def by (blast intro: downloading.step transfer_step.saves)
qed

lemma resumed_downloads: "downloading (honest ''abc'') ''u'' 3 resumed_run"
proof -
  let ?t1 = "started_run (files_of killed_run)"
  let ?r = "Reply 206 [] [plain_event ''ab'']"
  have "start_transfer (load_or_init_sidecar two_pieces 3 (files_of killed_run)) = Inr ?t1"
    by code_simp
  then have "downloading (honest ''abc'') ''u'' 3 ?t1"
    by (rule downloading.again [OF killed_downloads, rotated 2]) (simp_all add: two_pieces_def)
  moreover have "transfer_step (honest ''abc'') ?t1 (chunk_reply 0 ?r ?t1)"
    by (rule transfer_step.answered) (code_simp+)
  moreover have "transfer_step (honest ''abc'') (chunk_reply 0 ?r ?t1) (chunk_read 0 (chunk_reply 0 ?r ?t1))"
    by (rule transfer_step.reads [where pos = 0 and evs = "[plain_event ''ab'']"]) (code_simp+)
  ultimately show ?thesis
    unfolding resumed_run_def by (blast intro: downloading.step)
qed

theorem completed_file_correct_witness:
  "fs_out (snd (snd (finish_transfer False resumed_run))) = Some ''abc''"
proof -
  have "dr_completed (fst (finish_transfer False resumed_run))" by code_simp
  then show ?thesis
    using completed_file_correct [of "''abc''" "''u''" resumed_run False] resumed_downloads
    by (cases "finish_transfer False resumed_run") simp
qed

theorem chunk_writes_in_window_witness:
  "transfer_shape 3 (chunk_reply 0 (NoReply ErrEOF False) (started_run (files_of killed_run)))"
proof -
  have "transfer_shape 3 (started_run (files_of killed_run))"
  proof -
    have "start_transfer (load_or_init_sidecar two_pieces 3 (files_of killed_run)) = Inr (started_run (files_of killed_run))"
      by code_simp
    from downloading_right [of "''abc''", simplified, OF downloading.again [OF killed_downloads _ _ this]]
    show ?thesis by (simp add: transfer_right_def two_pieces_def)
  qed
  moreover have "transfer_step (\<lambda>_ _ _. True) (started_run (files_of killed_run))
      (chunk_reply 0 (NoReply ErrEOF False) (started_run (files_of killed_run)))"
    by (rule transfer_step.answered) (code_simp | simp)+
  ultimately show ?thesis using chunk_writes_in_window by blast
qed

section \<open>The single stream\<close>

definition clean_event :: "read_event \<Rightarrow> bool" where
  "clean_event ev \<longleftrightarrow> ev_wait ev = None \<and> ev_write ev = None \<and> ev_err ev = None"

lemma write_nothing: "0 \<le> w \<Longrightarrow> w \<le> int (length f) \<Longrightarrow> write_at w [] f = f"
  by (simp add: write_at_def Let_def)

lemma write_at_append:
  "0 \<le> w \<Longrightarrow> w \<le> int (length f) \<Longrightarrow> write_at (w + int (length a)) b (write_at w a f) = write_at w (a @ b) f"
  by (simp add: write_at_def Let_def nat_add_distrib ac_simps)

lemma single_loop_clean:
  "list_all clean_event evs \<Longrightarrow> 0 \<le> w \<Longrightarrow> w \<le> int (length f) \<Longrightarrow>
   single_loop w f evs = (\<lparr>dr_bytes = w + int (length (concat (map ev_bytes evs))), dr_completed = True\<rparr>, None,
     write_at w (concat (map ev_bytes evs)) f)"
proof (induction evs arbitrary: w f)
  case Nil
  then show ?case by (simp add: write_nothing)
next
  case (Cons ev evs)
  let ?f = "write_at w (ev_bytes ev) f" and ?w = "w + int (length (ev_bytes ev))"
  have "int (length ?f) \<ge> ?w" using Cons.prems by (simp add: write_at_def Let_def)
  with Cons.IH [of ?w ?f] Cons.prems have
    "single_loop ?w ?f evs = (\<lparr>dr_bytes = ?w + int (length (concat (map ev_bytes evs))), dr_completed = True\<rparr>, None,
       write_at ?w (concat (map ev_bytes evs)) ?f)" by simp
  moreover have "(if ev_bytes ev = [] then f else ?f) = ?f" using Cons.prems by (simp add: write_nothing)
  ultimately show ?case
    using Cons.prems write_at_append [of w f "ev_bytes ev" "concat (map ev_bytes evs)"]
    by (simp add: clean_event_def Let_def del: append_assoc)
qed

text \<open>C30: a single stream from a server that has the content, from the saved offset where there is
  one, ends with the content in the file when the part before the offset is.\<close>

theorem single_stream_correct:
  assumes "start = single_start opt ranges fs" and "0 \<le> start"
    and "answer start = Reply (if 0 < start then 206 else 200) msg evs"
    and "list_all clean_event evs" and "concat (map ev_bytes evs) = drop (nat start) C"
    and "0 < start \<Longrightarrow> fs_out fs = Some f \<and> take (nat start) f = take (nat start) C \<and> length f \<le> length C"
  shows "run_single opt ranges answer fs = (\<lparr>dr_bytes = int (length C), dr_completed = True\<rparr>, None, fs\<lparr>fs_out := Some C\<rparr>)"
proof (cases "0 < start")
  case True
  then have f: "fs_out fs = Some f" "take (nat start) f = take (nat start) C" "length f \<le> length C" using assms(6) by auto
  have le: "start \<le> int (length f)" using assms(1) True f(1) by (simp add: single_start_def split: if_splits)
  have "write_at start (drop (nat start) C) f = take (nat start) C @ drop (nat start) C"
    using f le by (simp add: write_at_def Let_def)
  then show ?thesis
    using single_loop_clean [OF assms(4,2) le] True f le assms(3,5) assms(1) [symmetric]
    by (simp add: run_single_def Let_def)
next
  case False
  with assms(2) have z: "start = 0" by simp
  have "write_at 0 C [] = C" by (simp add: write_at_def)
  then show ?thesis
    using single_loop_clean [OF assms(4), of 0 "[]"] z assms(3,5) assms(1) [symmetric]
    by (simp add: run_single_def Let_def truncate_to_def)
qed

theorem single_stream_correct_witness:
  "run_single (two_pieces\<lparr>op_start := 2\<rparr>) True (\<lambda>_. Reply 206 [] [plain_event ''c'']) \<lparr>fs_out = Some ''ab'', fs_side = None\<rparr> =
    (\<lparr>dr_bytes = 3, dr_completed = True\<rparr>, None, \<lparr>fs_out = Some ''abc'', fs_side = None\<rparr>)"
  using single_stream_correct [of 2 "two_pieces\<lparr>op_start := 2\<rparr>" True "\<lparr>fs_out = Some ''ab'', fs_side = None\<rparr>"
    "\<lambda>_. Reply 206 [] [plain_event ''c'']" "[]" "[plain_event ''c'']" "''abc''" "''ab''"]
  by (simp add: single_start_def clean_event_def plain_event_def)

text \<open>when a single stream resumes and the server answers its ranged request with an error, the
  error is taken for a server that ignores ranges: what was downloaded is thrown away, the error
  page is written to the file, and the job is reported complete.\<close>

theorem resumed_error_page_completes:
  assumes "op_concurrency opt \<le> 1" and "0 < op_start opt" and "fs_out fs = Some f" and "op_start opt \<le> int (length f)"
    and "answer (op_start opt) = Reply status msg evs" and "400 \<le> status" and "list_all clean_event evs" and "op_sha256 opt = []"
  shows "run opt (Inr (True, tot)) chunked answer digest fs =
    (\<lparr>dr_bytes = int (length (concat (map ev_bytes evs))), dr_completed = True\<rparr>, None,
     fs\<lparr>fs_out := Some (concat (map ev_bytes evs))\<rparr>)"
proof -
  let ?opt = "opt\<lparr>op_concurrency := max 1 (op_concurrency opt)\<rparr>"
  have start: "single_start ?opt True fs = op_start opt" using assms(2-4) by (simp add: single_start_def)
  have "write_at 0 bs [] = bs" for bs by (simp add: write_at_def)
  then have "run_single ?opt True answer fs =
    (\<lparr>dr_bytes = int (length (concat (map ev_bytes evs))), dr_completed = True\<rparr>, None,
     fs\<lparr>fs_out := Some (concat (map ev_bytes evs))\<rparr>)"
    using start assms(2,3,5,6) single_loop_clean [OF assms(7), of 0 "[]"]
    by (simp add: run_single_def Let_def truncate_to_def)
  then show ?thesis using assms(1,8) by (simp add: run_def Let_def check_result_def)
qed

theorem resumed_error_page_completes_witness:
  "run \<lparr>op_url = ''u'', op_concurrency = 1, op_start = 2, op_sha256 = []\<rparr> (Inr (True, 3)) (\<lambda>_ fs. (no_result, None, fs))
     (\<lambda>_. Reply 503 ''busy'' [plain_event ''try later'']) (\<lambda>bs. bs) \<lparr>fs_out = Some ''ab'', fs_side = None\<rparr> =
   (\<lparr>dr_bytes = 9, dr_completed = True\<rparr>, None, \<lparr>fs_out = Some ''try later'', fs_side = None\<rparr>)"
  using resumed_error_page_completes [of "\<lparr>op_url = ''u'', op_concurrency = 1, op_start = 2, op_sha256 = []\<rparr>"
    "\<lparr>fs_out = Some ''ab'', fs_side = None\<rparr>" "''ab''" "\<lambda>_. Reply 503 ''busy'' [plain_event ''try later'']" 503 "''busy''"
    "[plain_event ''try later'']" 3 "\<lambda>_ fs. (no_result, None, fs)" "\<lambda>bs. bs"]
  by (simp add: clean_event_def plain_event_def)

section \<open>The checksum\<close>

text \<open>a download with an expected checksum that ends without an error and complete left a file
  with that checksum, whatever the server sent, and in whichever way it was downloaded.\<close>

theorem run_verifies_checksum:
  assumes "run opt probed chunked answer digest fs = (res, None, fs')" and "dr_completed res" and "op_sha256 opt \<noteq> []"
  shows "\<exists>f. fs_out fs' = Some f \<and> digest f = to_lower (trim_space (op_sha256 opt))"
proof -
  let ?opt = "opt\<lparr>op_concurrency := max 1 (op_concurrency opt)\<rparr>"
  obtain p where "check_result ?opt digest p = (res, None, fs')"
    using assms(1) by (auto simp: run_def Let_def split: sum.splits prod.splits)
  then show ?thesis
    using assms(2,3)
    by (cases p) (auto simp: check_result_def verify_checksum_def no_result_def Let_def split: if_splits option.splits)
qed

theorem run_verifies_checksum_witness:
  "run (two_pieces\<lparr>op_sha256 := ''AB''\<rparr>) (Inr (False, 2)) (\<lambda>_ fs. (no_result, None, fs))
      (\<lambda>_. Reply 200 [] [plain_event ''ab'']) (\<lambda>bs. bs) \<lparr>fs_out = None, fs_side = None\<rparr> =
    (\<lparr>dr_bytes = 2, dr_completed = True\<rparr>, None, \<lparr>fs_out = Some ''ab'', fs_side = None\<rparr>) \<and>
   to_lower (trim_space ''AB'') = ''ab''"
proof -
  have r: "run (two_pieces\<lparr>op_sha256 := ''AB''\<rparr>) (Inr (False, 2)) (\<lambda>_ fs. (no_result, None, fs))
      (\<lambda>_. Reply 200 [] [plain_event ''ab'']) (\<lambda>bs. bs) \<lparr>fs_out = None, fs_side = None\<rparr> =
    (\<lparr>dr_bytes = 2, dr_completed = True\<rparr>, None, \<lparr>fs_out = Some ''ab'', fs_side = None\<rparr>)"
    by code_simp
  from run_verifies_checksum [OF r] r show ?thesis by simp
qed

end
