(* ===== verification/WebDavPaths.thy ===== *)
theory WebDavPaths
  imports WebDavClient
begin

text \<open>
  Where a WebDAV file comes from and where it goes: the job source and \<^verbatim>\<open>webdavLocalPath\<close> of
  \<^verbatim>\<open>internal/daemon/webdav.go\<close>, and what \<^verbatim>\<open>resolve\<close> and \<^verbatim>\<open>relativePath\<close> of the client do to a path.
  The lemmas say that the files of a tree go to different places that mirror it, that no file
  goes outside the output directory unless its name is \<open>..\<close>, and that a path read from a server
  leads back to the address it came from unless it has a percent sign in it.
\<close>

section \<open>Job sources\<close>

definition split_webdav_source :: "string \<Rightarrow> (string \<times> string) option" where
  "split_webdav_source source =
     (case cut (CHR '':'') source of
        (name, remote, found) \<Rightarrow>
          if \<not> found \<or> name = [] \<or> remote = [] then None
          else Some (name, if has_prefix remote ''/'' then remote else ''/'' @ remote))"

definition join_webdav_source :: "string \<Rightarrow> string \<Rightarrow> string" where
  "join_webdav_source name remote = name @ '':'' @ remote"

lemma split_join_source:
  assumes "name \<noteq> []" and "CHR '':'' \<notin> set name" and "has_prefix remote ''/''"
  shows "split_webdav_source (join_webdav_source name remote) = Some (name, remote)"
proof -
  have "cut (CHR '':'') (join_webdav_source name remote) = (name, remote, True)"
    using cut_found [OF assms(2)] by (simp add: join_webdav_source_def)
  with assms show ?thesis by (cases remote) (simp_all add: split_webdav_source_def)
qed

text \<open>A connection name with a colon in it is cut at the colon: its jobs look for another connection.\<close>

lemma colon_name_is_cut:
  "split_webdav_source (join_webdav_source ''nas:home'' ''/docs'') = Some (''nas'', ''/home:/docs'')"
  by (simp add: split_webdav_source_def join_webdav_source_def)

section \<open>Local paths\<close>

definition webdav_local_path :: "string option \<Rightarrow> string \<Rightarrow> string \<Rightarrow> string \<Rightarrow> bool \<Rightarrow> string" where
  "webdav_local_path cwd output root file_path root_is_dir =
     (if \<not> root_is_dir then path_join [output, path_base file_path]
      else
        let trimmed = trim_suffix root ''/'';
            rel = trim_prefix (trim_prefix file_path trimmed) ''/'';
            root_base = (if trimmed \<noteq> [] then path_base trimmed else []);
            joined = path_join [output, root_base, rel]
        in case (path_abs cwd output, path_abs cwd joined) of
             (Some out_abs, Some joined_abs) \<Rightarrow>
               if joined_abs \<noteq> out_abs \<and> \<not> has_prefix joined_abs (out_abs @ ''/'')
               then path_join [output, path_base file_path] else joined
           | _ \<Rightarrow> path_join [output, path_base file_path])"

lemma rooted_join_form:
  assumes "rooted p"
  shows "path_join (p # ps) = path_clean (join_with ''/'' (p # ps))" and "rooted (join_with ''/'' (p # ps))"
proof -
  obtain q where p: "p = CHR ''/'' # q" using assms by (auto simp: rooted_def split: list.splits)
  show "path_join (p # ps) = path_clean (join_with ''/'' (p # ps))" by (simp add: path_join_def p)
  show "rooted (join_with ''/'' (p # ps))" by (cases ps) (simp_all add: p rooted_def)
qed

lemma rooted_join: "rooted p \<Longrightarrow> rooted (path_join (p # ps))"
  using rooted_join_form by simp

lemma rooted_join_elems:
  assumes "rooted p"
  shows "path_join (p # ps) = show_path True (clean_elems True (concat (map path_elems (p # ps))))"
  unfolding rooted_join_form(1) [OF assms] path_clean_def path_elems_join_with
  using rooted_join_form(2) [OF assms] by simp

lemma clean_join_fix: "rooted p \<Longrightarrow> path_clean (path_join (p # ps)) = path_join (p # ps)"
  using rooted_join_form clean_idem by simp

lemma clean_elems_append1:
  "e \<noteq> dotdot \<Longrightarrow> clean_elems True (es @ [e]) = clean_elems True es @ [e]"
  by (simp add: clean_elems_def push_elem_def)

lemma path_elems_name:
  assumes "CHR ''/'' \<notin> set b"
  shows "path_elems b = (if b = [] \<or> b = ''.'' then [] else [b])"
  using assms by (simp add: path_elems_def split_on_free)

lemma path_elems_root [simp]: "path_elems ''/'' = []"
  by (simp add: path_elems_def)

lemma base_below:
  assumes "rooted output" and "path_clean output \<noteq> ''/''" and "path_base f \<noteq> dotdot"
  shows "below (path_clean output) (path_join [output, path_base f])"
proof -
  have c: "path_clean output = show_path True (clean_elems True (path_elems output))"
    using assms(1) by (simp add: path_clean_def)
  have ne: "clean_elems True (path_elems output) \<noteq> []" using assms(2) c by (auto simp: show_path_def)
  have e: "path_elems (path_base f) = [] \<or> path_elems (path_base f) = [path_base f]"
    using path_base_no_slash [of f] path_elems_name [of "path_base f"] path_elems_root by (metis path_base_nonempty)
  then show ?thesis
  proof
    assume "path_elems (path_base f) = []"
    then show ?thesis using rooted_join_elems [OF assms(1)] c by (simp add: below_def)
  next
    assume "path_elems (path_base f) = [path_base f]"
    then have "path_join [output, path_base f] = show_path True (clean_elems True (path_elems output) @ [path_base f])"
      using rooted_join_elems [OF assms(1), of "[path_base f]"] clean_elems_append1 [OF assms(3)] by simp
    then show ?thesis using below_show [OF ne] c by simp
  qed
qed

text \<open>C37: whatever path a server reports, the file is written to the output directory or below it,
  unless the last element of the path is \<open>..\<close>.\<close>

theorem webdav_local_path_confined:
  assumes "rooted output" and "path_clean output \<noteq> ''/''" and "path_base file_path \<noteq> dotdot"
  shows "below (path_clean output) (webdav_local_path cwd output root file_path root_is_dir)"
proof -
  note b = base_below [OF assms]
  have abs: "path_abs cwd output = Some (path_clean output)"
    "path_abs cwd (path_join (output # ps)) = Some (path_join (output # ps))" for ps
    using assms(1) rooted_join clean_join_fix by (simp_all add: path_abs_def)
  show ?thesis
    using b by (auto simp: webdav_local_path_def Let_def abs below_def)
qed

theorem webdav_local_path_confined_witness:
  "webdav_local_path None ''/home/u/dl'' ''/p'' ''/p/../../../etc/passwd'' True = ''/home/u/dl/passwd'' \<and>
   below (path_clean ''/home/u/dl'') ''/home/u/dl/passwd''"
proof -
  have p: "webdav_local_path None ''/home/u/dl'' ''/p'' ''/p/../../../etc/passwd'' True = ''/home/u/dl/passwd''" by code_simp
  have "rooted ''/home/u/dl''" "path_clean ''/home/u/dl'' \<noteq> ''/''" "path_base ''/p/../../../etc/passwd'' \<noteq> dotdot" by code_simp+
  from webdav_local_path_confined [OF this, of None "''/p''" True] p show ?thesis by simp
qed

text \<open>A path that ends in \<open>..\<close> is written to the parent of the output directory.\<close>

lemma dotdot_escapes:
  "webdav_local_path None ''/home/u/dl'' ''/p'' ''/p/../../..'' True = ''/home/u'' \<and>
   webdav_local_path None ''/home/u/dl'' ''/p'' ''/..'' False = ''/home/u''"
  by code_simp

section \<open>Trees keep their shape\<close>

definition plain_elems :: "string list \<Rightarrow> bool" where
  "plain_elems es \<longleftrightarrow> list_all (\<lambda>e. e \<noteq> [] \<and> e \<noteq> ''.'' \<and> e \<noteq> dotdot \<and> CHR ''/'' \<notin> set e) es"

lemma plain_elems_simps [simp]: "plain_elems (es @ fs) \<longleftrightarrow> plain_elems es \<and> plain_elems fs" "plain_elems []"
  "plain_elems (e # es) \<longleftrightarrow> (e \<noteq> [] \<and> e \<noteq> ''.'' \<and> e \<noteq> dotdot \<and> CHR ''/'' \<notin> set e) \<and> plain_elems es"
  by (auto simp: plain_elems_def)

lemma plain_elems_fix: "plain_elems es \<Longrightarrow> path_elems (join_with ''/'' es) = es \<and> clean_elems r es = es"
proof -
  assume p: "plain_elems es"
  then have "dotdot \<notin> set es" "\<forall>e\<in>set es. e \<noteq> [] \<and> e \<noteq> ''.'' \<and> CHR ''/'' \<notin> set e"
    by (auto simp: plain_elems_def list_all_iff)
  then show ?thesis using join_plain_elems clean_elems_plain by blast
qed

lemma show_path_inj: "plain_elems es \<Longrightarrow> plain_elems fs \<Longrightarrow> show_path True es = show_path True fs \<Longrightarrow> es = fs"
  using plain_elems_fix by (metis path_elems_slash show_path_def)

lemma clean_append_plain: "plain_elems fs \<Longrightarrow> clean_elems True (es @ fs) = clean_elems True es @ fs"
proof (induction fs rule: rev_induct)
  case (snoc f fs)
  then show ?case using clean_elems_append1 [of f "es @ fs"] by simp
qed simp

lemma path_base_show:
  assumes "plain_elems es" and "es \<noteq> []"
  shows "path_base (show_path True es) = last es"
proof -
  obtain fs e where es: "es = fs @ [e]" using assms(2) by (meson rev_exhaust)
  have e: "e \<noteq> []" "CHR ''/'' \<notin> set e" using assms(1) es by auto
  have "show_path True es = (if fs = [] then ''/'' else show_path True fs @ ''/'') @ e"
    using join_with_append [of fs "[e]" "''/''"] es by (simp add: show_path_def)
  then obtain q where q: "show_path True es = q @ CHR ''/'' # e" by (cases "fs = []") auto
  have "takeWhile (\<lambda>c. c \<noteq> CHR ''/'') (rev e @ CHR ''/'' # rev q) = rev e"
    using e(2) by (subst takeWhile_append2) auto
  moreover have "dropWhile (\<lambda>c. c = CHR ''/'') (rev e @ CHR ''/'' # rev q) = rev e @ CHR ''/'' # rev q"
    using e by (cases "rev e") (auto simp: dropWhile_eq_self_iff dest: arg_cong [where f = set])
  ultimately have "path_base (q @ CHR ''/'' # e) = e" using e(1) by (simp add: path_base_def Let_def)
  then show ?thesis by (simp only: q) (simp add: es)
qed

lemma join_with_ends: "es \<noteq> [] \<Longrightarrow> plain_elems es \<Longrightarrow> join_with ''/'' es \<noteq> [] \<and> last (join_with ''/'' es) \<noteq> CHR ''/'' \<and> hd (join_with ''/'' es) \<noteq> CHR ''/''"
proof (induction es)
  case (Cons e es)
  have "e \<noteq> []" "last e \<in> set e" "hd e \<in> set e" "CHR ''/'' \<notin> set e" using Cons.prems(2) by auto
  then have "last e \<noteq> CHR ''/''" "hd e \<noteq> CHR ''/''" by metis+
  with Cons \<open>e \<noteq> []\<close> show ?case by (cases es) (auto simp: last_append hd_append)
qed simp

definition tree_path :: "string list \<Rightarrow> string" where
  "tree_path es = (if es = [] then [] else show_path True es)"

lemma tree_path_trim:
  assumes "plain_elems es"
  shows "trim_suffix (tree_path es) ''/'' = tree_path es" and "trim_suffix (tree_path es @ ''/'') ''/'' = tree_path es"
proof -
  show "trim_suffix (tree_path es) ''/'' = tree_path es"
  proof (cases "es = []")
    case False
    have "last (tree_path es) \<noteq> CHR ''/''"
      using join_with_ends [OF False assms] False by (simp add: tree_path_def show_path_def)
    then have "\<not> has_suffix (tree_path es) ''/''" by (auto simp: has_suffix_iff)
    then show ?thesis by (simp add: trim_suffix_def)
  qed (simp add: tree_path_def trim_suffix_def)
qed (simp add: trim_suffix_def)

lemma tree_path_append: "fs \<noteq> [] \<Longrightarrow> show_path True (es @ fs) = tree_path es @ ''/'' @ join_with ''/'' fs"
  using join_with_append [of es fs "''/''"] by (cases "es = []") (simp_all add: tree_path_def show_path_def)

lemma webdav_local_path_tree:
  assumes "rooted output" and "path_clean output \<noteq> ''/''" and "plain_elems res" and "plain_elems es" and "es \<noteq> []"
    and "root = tree_path res \<or> root = tree_path res @ ''/''"
  shows "webdav_local_path cwd output root (show_path True (res @ es)) True =
    show_path True (clean_elems True (path_elems output) @ (if res = [] then [] else [last res]) @ es)"
proof -
  let ?b = "if res = [] then [] else [last res]"
  have tr: "trim_suffix root ''/'' = tree_path res" using assms(3,6) tree_path_trim by blast
  have "has_prefix (''/'' @ join_with ''/'' es) ''/''" by simp
  then have rel: "trim_prefix (trim_prefix (show_path True (res @ es)) (tree_path res)) ''/'' = join_with ''/'' es"
    unfolding tree_path_append [OF assms(5)] trim_prefix_def [of "tree_path res @ _"]
    by (simp add: trim_prefix_def)
  have base: "path_elems (if tree_path res \<noteq> [] then path_base (tree_path res) else []) = ?b"
  proof (cases "res = []")
    case False
    then have "last res \<in> set res" by simp
    then have "path_elems (last res) = [last res]"
      using assms(3) path_elems_name by (auto simp: plain_elems_def list_all_iff)
    with False assms(3) show ?thesis by (simp add: tree_path_def path_base_show) (simp add: show_path_def)
  qed (simp add: tree_path_def)
  have pb: "plain_elems (?b @ es)" using assms(3,4) by (auto simp: plain_elems_def list_all_iff)
  have joined: "path_join [output, if tree_path res \<noteq> [] then path_base (tree_path res) else [], join_with ''/'' es] =
      show_path True (clean_elems True (path_elems output) @ ?b @ es)"
    unfolding rooted_join_elems [OF assms(1)] using base plain_elems_fix [OF assms(4)] clean_append_plain [OF pb] by simp
  have c: "path_clean output = show_path True (clean_elems True (path_elems output))"
    using assms(1) by (simp add: path_clean_def)
  have ne: "clean_elems True (path_elems output) \<noteq> []" using assms(2) c by (auto simp: show_path_def)
  have abs: "path_abs cwd output = Some (path_clean output)"
    "path_abs cwd (path_join (output # ps)) = Some (path_join (output # ps))" for ps
    using assms(1) rooted_join clean_join_fix by (simp_all add: path_abs_def)
  show ?thesis
    unfolding webdav_local_path_def Let_def tr rel abs joined
    using below_show [OF ne, of "?b @ es"] c by (auto simp: below_def)
qed

text \<open>two files of one folder job never go to the same place: with no element \<open>.\<close> or \<open>..\<close> in
  their paths they are written below the output directory in the folder's own directory, at the
  places they have in the tree.\<close>

theorem webdav_files_apart:
  assumes "rooted output" and "path_clean output \<noteq> ''/''" and "plain_elems res"
    and "plain_elems es" and "es \<noteq> []" and "plain_elems fs" and "fs \<noteq> []" and "es \<noteq> fs"
    and "root = tree_path res \<or> root = tree_path res @ ''/''"
  shows "webdav_local_path cwd output root (show_path True (res @ es)) True \<noteq>
    webdav_local_path cwd output root (show_path True (res @ fs)) True"
proof -
  have "plain_elems (clean_elems True (path_elems output))"
    using clean_elems_in path_elems_plain clean_rooted_no_dotdot by (auto simp: plain_elems_def list_all_iff)
  moreover have "plain_elems (if res = [] then [] else [last res])" using assms(3) by (auto simp: plain_elems_def list_all_iff)
  ultimately have p: "plain_elems (clean_elems True (path_elems output) @ (if res = [] then [] else [last res]) @ gs)"
    if "plain_elems gs" for gs
    using that by simp
  show ?thesis
    unfolding webdav_local_path_tree [OF assms(1-5,9)] webdav_local_path_tree [OF assms(1-3,6,7,9)]
    using show_path_inj [OF p [OF assms(4)] p [OF assms(6)]] assms(8) by auto
qed

theorem webdav_files_apart_witness:
  "webdav_local_path None ''/dl'' ''/dav/Photos/'' (show_path True [''dav'', ''Photos'', ''a'', ''1.jpg'']) True \<noteq>
   webdav_local_path None ''/dl'' ''/dav/Photos/'' (show_path True [''dav'', ''Photos'', ''b'', ''1.jpg'']) True"
proof -
  have a: "rooted ''/dl''" "path_clean ''/dl'' \<noteq> ''/''" "plain_elems [''dav'', ''Photos'']" "plain_elems [''a'', ''1.jpg'']"
    "plain_elems [''b'', ''1.jpg'']" "''/dav/Photos/'' = tree_path [''dav'', ''Photos''] @ ''/''"
    by code_simp+
  have ne: "[''a'', ''1.jpg''] \<noteq> []" "[''b'', ''1.jpg''] \<noteq> []" "[''a'', ''1.jpg''] \<noteq> [''b'', ''1.jpg'']" by simp_all
  from webdav_files_apart [OF a(1-4) ne(1) a(5) ne(2,3) disjI2 [OF a(6)], of None]
  have "webdav_local_path None ''/dl'' ''/dav/Photos/'' (show_path True ([''dav'', ''Photos''] @ [''a'', ''1.jpg''])) True \<noteq>
    webdav_local_path None ''/dl'' ''/dav/Photos/'' (show_path True ([''dav'', ''Photos''] @ [''b'', ''1.jpg''])) True" .
  then show ?thesis unfolding append_Cons append_Nil .
qed

section \<open>Addresses and back\<close>

lemma path_unescape_plain: "CHR ''%'' \<notin> set s \<Longrightarrow> path_unescape s = Some s"
  by (induction s) auto

lemma tree_path_no_slash:
  assumes "plain_elems es" and "es \<noteq> []"
  shows "\<not> has_suffix (show_path True es) ''/''"
proof -
  have "last (show_path True es) \<noteq> CHR ''/''"
    using join_with_ends [OF assms(2,1)] by (simp add: show_path_def)
  then show ?thesis by (auto simp: has_suffix_iff)
qed

lemma show_path_plain_clean: "plain_elems es \<Longrightarrow> path_clean (show_path True es) = show_path True es"
  using plain_elems_fix [of es True] by (simp add: path_clean_def show_path_def rooted_def)

lemma resolve_tree:
  assumes "cl_base c = tree_path bes \<or> cl_base c = tree_path bes @ ''/''" and "plain_elems bes"
    and "plain_elems es" and "es \<noteq> []" and "slash = [] \<or> slash = ''/''"
  shows "resolve c (show_path True es @ slash) = tree_path bes @ show_path True es @ slash"
proof -
  have tr: "trim_suffix (cl_base c) ''/'' = tree_path bes" using tree_path_trim [OF assms(2)] assms(1) by metis
  have rem: "has_prefix (show_path True es @ slash) ''/''" by (simp add: show_path_def)
  have el: "path_elems (show_path True es @ slash) = es"
    using assms(5) plain_elems_fix [OF assms(3), of True] path_elems_join [of "show_path True es" "[]"]
    by (auto simp: show_path_def)
  have r: "rooted (show_path True es @ slash)" by (simp add: show_path_def rooted_def)
  have j: "path_join [tree_path bes, show_path True es @ slash] = tree_path bes @ show_path True es"
  proof (cases "bes = []")
    case True
    have "path_clean (show_path True es @ slash) = show_path True es"
      using r el plain_elems_fix [OF assms(3), of True] by (simp add: path_clean_def)
    with True rem show ?thesis by (simp add: path_join_def tree_path_def split: list.splits)
  next
    case False
    then have rb: "rooted (tree_path bes)" by (simp add: tree_path_def show_path_def rooted_def)
    have eb: "path_elems (tree_path bes) = bes"
      using False plain_elems_fix [OF assms(2), of True] by (simp add: tree_path_def show_path_def)
    have "path_join [tree_path bes, show_path True es @ slash] = show_path True (bes @ es)"
      using rooted_join_elems [OF rb, of "[show_path True es @ slash]"] el eb assms(2,3) plain_elems_fix [of "bes @ es" True] by simp
    then show ?thesis using tree_path_append [OF assms(4), of bes] by (simp add: show_path_def)
  qed
  have "last (tree_path bes @ show_path True es) \<noteq> CHR ''/''"
    using join_with_ends [OF assms(4,3)] by (simp add: show_path_def)
  then have "\<not> has_suffix (tree_path bes @ show_path True es) ''/''" by (auto simp only: has_suffix_iff last_snoc)
  moreover have "has_suffix (show_path True es @ slash) ''/'' \<longleftrightarrow> slash = ''/''"
    using assms(5) tree_path_no_slash [OF assms(3,4)] by auto
  ultimately show ?thesis using assms(5) rem j by (auto simp: resolve_def Let_def tr)
qed

text \<open>a path of the tree survives the way to the server and back: the address \<^verbatim>\<open>resolve\<close> builds,
  reported by the server in whatever encoding, reads back as the same path, trailing slash
  included, as long as there is no percent sign in it.\<close>

theorem relative_path_of_resolved:
  assumes "cl_base c = tree_path bes \<or> cl_base c = tree_path bes @ ''/''" and "plain_elems bes"
    and "plain_elems es" and "es \<noteq> []" and "slash = [] \<or> slash = ''/''"
    and "url_path parse href = Some (resolve c (show_path True es @ slash))"
    and "CHR ''%'' \<notin> set (tree_path bes @ show_path True es)"
  shows "relative_path parse c href = show_path True es @ slash"
proof -
  let ?p = "tree_path bes @ show_path True es @ slash"
  have tr: "trim_suffix (cl_base c) ''/'' = tree_path bes" using tree_path_trim [OF assms(2)] assms(1) by metis
  have u: "url_path parse href = Some ?p" using assms(6) resolve_tree [OF assms(1-5)] by simp
  have "CHR ''%'' \<notin> set ?p" using assms(5,7) by auto
  then have d: "path_unescape ?p = Some ?p" by (rule path_unescape_plain)
  have "?p \<noteq> []" "has_prefix (show_path True es @ slash) ''/''" by (simp_all add: show_path_def)
  with u d show ?thesis by (simp add: relative_path_def Let_def tr trim_prefix_def)
qed

definition dav_home :: dav_client where
  "dav_home = \<lparr>cl_base = ''/dav/'', cl_user = ''u'', cl_pass = ''p''\<rparr>"

theorem relative_path_of_resolved_witness:
  "relative_path (\<lambda>_. None) dav_home ''/dav/My%20Docs/a.txt'' = ''/My Docs/a.txt''"
proof -
  have a: "cl_base dav_home = tree_path [''dav''] \<or> cl_base dav_home = tree_path [''dav''] @ ''/''" "plain_elems [''dav'']"
    "plain_elems [''My Docs'', ''a.txt'']" "[''My Docs'', ''a.txt''] \<noteq> []" "([] :: string) = [] \<or> ([] :: string) = ''/''"
    "url_path (\<lambda>_. None) ''/dav/My%20Docs/a.txt'' = Some (resolve dav_home (show_path True [''My Docs'', ''a.txt''] @ []))"
    "CHR ''%'' \<notin> set (tree_path [''dav''] @ show_path True [''My Docs'', ''a.txt''])"
    by code_simp+
  from relative_path_of_resolved [OF a] show ?thesis by (simp add: show_path_def)
qed

text \<open>With a percent sign the path is decoded twice: a file named \<^verbatim>\<open>50%20off.txt\<close> is taken for
  \<^verbatim>\<open>50 off.txt\<close>, which the client then asks for.\<close>

lemma relative_path_decodes_twice:
  "url_path (\<lambda>_. None) ''/dav/50%2520off.txt'' = Some (resolve dav_home ''/50%20off.txt'') \<and>
   relative_path (\<lambda>_. None) dav_home ''/dav/50%2520off.txt'' = ''/50 off.txt''"
  by code_simp

end
