(* ===== verification/WebDavJob.thy ===== *)
theory WebDavJob
  imports DownloaderProps WebDavPaths GoQuote Outcomes
begin

text \<open>
  A WebDAV job: \<^verbatim>\<open>internal/webdav/download.go\<close> (one file, with its idle watchdog) and the worker of
  \<^verbatim>\<open>internal/daemon/webdav.go\<close> (which files are pending, what the end of each does, how the job
  ends). The server and the disk are arguments, as in \<^verbatim>\<open>Downloader\<close>; the goroutines of the files
  are the order in which they end. The lemmas say what a download leaves on the disk, and that a
  job with a file that failed ends as a canceled one.
\<close>

text \<open>\<^verbatim>\<open>fmt.Errorf\<close> with \<^verbatim>\<open>%w\<close>: a wrapped cancellation is still one to \<^verbatim>\<open>errors.Is\<close>.\<close>

definition wrap_error :: "string \<Rightarrow> gerror \<Rightarrow> gerror" where
  "wrap_error pre e = (if e = ErrCanceled then ErrCanceled else ErrMsg (pre @ err_string e))"

section \<open>The watchdog\<close>

record idle_watchdog =
  wd_timeout :: int
  wd_last :: int
  wd_in_limiter :: bool
  wd_tripped :: bool

definition download_idle_timeout :: int where "download_idle_timeout = 90000000000"

definition start_watchdog :: "int \<Rightarrow> idle_watchdog" where
  "start_watchdog now = \<lparr>wd_timeout = download_idle_timeout, wd_last = now, wd_in_limiter = False, wd_tripped = False\<rparr>"

definition saw_data :: "int \<Rightarrow> idle_watchdog \<Rightarrow> idle_watchdog" where
  "saw_data now w = w\<lparr>wd_last := now\<rparr>"

definition enter_limiter :: "idle_watchdog \<Rightarrow> idle_watchdog" where
  "enter_limiter w = w\<lparr>wd_in_limiter := True\<rparr>"

definition leave_limiter :: "int \<Rightarrow> idle_watchdog \<Rightarrow> idle_watchdog" where
  "leave_limiter now w = saw_data now (w\<lparr>wd_in_limiter := False\<rparr>)"

text \<open>A tick of the goroutine; once it has tripped the goroutine is gone.\<close>

definition watchdog_tick :: "int \<Rightarrow> idle_watchdog \<Rightarrow> idle_watchdog" where
  "watchdog_tick now w =
     (if wd_tripped w \<or> wd_in_limiter w then w
      else if wd_timeout w < now - wd_last w then w\<lparr>wd_tripped := True\<rparr> else w)"

definition stall_err :: "string \<Rightarrow> gerror" where
  "stall_err remote = ErrMsg (''downloading '' @ remote @ '': no data received for 1m30s, giving up'')"

section \<open>One file\<close>

text \<open>A read, with whether the watchdog had fired when its error was looked at.\<close>

record body_event = read_event +
  ev_fired :: bool

datatype dav_reply = DavNone gerror | DavReply int string "body_event list"

definition seek_for_status :: "string \<Rightarrow> int \<Rightarrow> string \<Rightarrow> int \<Rightarrow> string \<Rightarrow> int \<times> gerror option \<times> string" where
  "seek_for_status remote status text off f =
     (if status = 200 then (0, None, truncate_to 0 f)
      else if status = 206 then (off, None, f)
      else (off, Some (ErrMsg (''unexpected status downloading '' @ remote @ '': '' @ text)), f))"

fun body_copy :: "string \<Rightarrow> int \<Rightarrow> string \<Rightarrow> body_event list \<Rightarrow> int \<times> gerror option \<times> string" where
  "body_copy remote written f [] = (written, None, f)"
| "body_copy remote written f (ev # evs) =
     (if ev_bytes ev \<noteq> [] \<and> ev_wait ev \<noteq> None then (written, ev_wait ev, f)
      else if ev_bytes ev \<noteq> [] \<and> ev_write ev \<noteq> None then (written, ev_write ev, f)
      else
        let f' = (if ev_bytes ev = [] then f else write_at written (ev_bytes ev) f);
            written' = written + int (length (ev_bytes ev))
        in case ev_err ev of
             None \<Rightarrow> body_copy remote written' f' evs
           | Some e \<Rightarrow>
               if e = ErrEOF then (written', None, f')
               else if ev_fired ev then (written', Some (stall_err remote), f')
               else if ev_ctx ev then (written', Some ErrCanceled, f')
               else (written', Some e, f'))"

text \<open>\<^verbatim>\<open>Download\<close>: \<open>mkdir\<close> and \<open>opened\<close> are the disk's errors, \<open>answer\<close> is what the request for the bytes
  from an offset gets (0: no range), \<open>fired\<close> the watchdog's state if it gets no response.\<close>

definition dav_download ::
  "string \<Rightarrow> gerror option \<Rightarrow> gerror option \<Rightarrow> (int \<Rightarrow> dav_reply) \<Rightarrow> bool \<Rightarrow> string option \<Rightarrow> int \<times> gerror option \<times> string option" where
  "dav_download remote mkdir opened answer fired disk =
     (case mkdir of
        Some e \<Rightarrow> (0, Some e, disk)
      | None \<Rightarrow>
          let off = (case disk of Some f \<Rightarrow> int (length f) | None \<Rightarrow> 0)
          in case opened of
               Some e \<Rightarrow> (0, Some e, disk)
             | None \<Rightarrow>
                 let f = (case disk of Some f \<Rightarrow> f | None \<Rightarrow> [])
                 in case answer off of
                      DavNone e \<Rightarrow> (off, Some (if fired then stall_err remote else e), Some f)
                    | DavReply status text evs \<Rightarrow>
                        (case seek_for_status remote status text off f of
                           (off, Some e, f) \<Rightarrow> (off, Some e, Some f)
                         | (off, None, f) \<Rightarrow> (case body_copy remote off f evs of (n, e, f) \<Rightarrow> (n, e, Some f))))"

section \<open>The files of a job\<close>

text \<open>\<^verbatim>\<open>pendingWebDAVFiles\<close>: \<open>stat\<close> is the size of a file on the disk, \<open>place\<close> is \<^verbatim>\<open>webdavLocalPath\<close>.\<close>

fun pending_webdav_files :: "(string \<Rightarrow> int option) \<Rightarrow> (string \<Rightarrow> string) \<Rightarrow> string list \<Rightarrow> entry list \<Rightarrow> entry list \<times> int" where
  "pending_webdav_files stat place already [] = ([], 0)"
| "pending_webdav_files stat place already (f # fs) =
     (case pending_webdav_files stat place already fs of
        (pending, cum) \<Rightarrow>
          if place (en_path f) \<in> set already
          then (case stat (place (en_path f)) of Some n \<Rightarrow> (pending, n + cum) | None \<Rightarrow> (f # pending, cum))
          else (f # pending, cum))"

definition webdav_total :: "entry list \<Rightarrow> int" where
  "webdav_total fs =
     (let t = wrap64 (sum_list (map (\<lambda>f. if 0 < en_size f then en_size f else 0) fs)) in if t = 0 then -1 else t)"

text \<open>The state the file goroutines share.\<close>

record dav_files =
  df_cumulative :: int
  df_first :: "(string \<times> gerror) option"
  df_canceled :: bool
  df_recorded :: "string list"

text \<open>A file's end: what \<^verbatim>\<open>Download\<close> returned and the count its last progress report gave.\<close>

record file_end =
  fe_file :: entry
  fe_written :: int
  fe_err :: "gerror option"
  fe_last :: int

definition dav_file_end :: "(string \<Rightarrow> string) \<Rightarrow> file_end \<Rightarrow> dav_files \<Rightarrow> dav_files" where
  "dav_file_end place fe d =
     (let d = d\<lparr>df_cumulative := df_cumulative d + fe_last fe\<rparr>
      in case fe_err fe of
           Some e \<Rightarrow>
             if df_first d = None then d\<lparr>df_first := Some (en_path (fe_file fe), e), df_canceled := True\<rparr> else d
         | None \<Rightarrow>
             d\<lparr>df_cumulative := df_cumulative d + (fe_written fe - fe_last fe),
               df_recorded := df_recorded d @ [place (en_path (fe_file fe))]\<rparr>)"

definition download_webdav_files :: "(string \<Rightarrow> string) \<Rightarrow> file_end list \<Rightarrow> dav_files \<Rightarrow> dav_files" where
  "download_webdav_files place ends d = fold (dav_file_end place) ends d"

text \<open>How the job ends; \<open>canceled\<close> is the job's context, which a pause or a cancel ends too.\<close>

definition webdav_exit :: "bool \<Rightarrow> dav_files \<Rightarrow> worker_exit" where
  "webdav_exit canceled d =
     (let gone = canceled \<or> df_canceled d
      in case df_first d of
           Some (p, e) \<Rightarrow>
             if e = ErrCanceled \<or> gone then Finished (df_cumulative d) False (Some ErrCanceled)
             else Finished (df_cumulative d) False (Some (wrap_error (''downloading '' @ p @ '': '') e))
         | None \<Rightarrow>
             if gone then Finished (df_cumulative d) False (Some ErrCanceled)
             else Finished (df_cumulative d) True None)"

text \<open>The worker up to its files: the end of a job that does not get to them, or the remote path,
  whether it is a directory, and the files. \<open>conn\<close> is \<^verbatim>\<open>connections.Get\<close> with \<^verbatim>\<open>webdav.New\<close>.\<close>

definition webdav_begin ::
  "job \<Rightarrow> (string \<Rightarrow> 'c result) \<Rightarrow> ('c \<Rightarrow> string \<Rightarrow> entry result) \<Rightarrow> ('c \<Rightarrow> string \<Rightarrow> entry list result) \<Rightarrow> bool \<Rightarrow>
   worker_exit + (string \<times> bool \<times> entry list)" where
  "webdav_begin j conn stat walk canceled =
     (let fail = (\<lambda>e. Inl (Finished (j_bytes_done j) False (Some e)))
      in case split_webdav_source (j_source j) of
           None \<Rightarrow> fail (ErrMsg (''invalid webdav job source '' @ go_quote (j_source j)))
         | Some (name, remote) \<Rightarrow>
             (case conn name of
                Inl e \<Rightarrow> fail e
              | Inr c \<Rightarrow>
                  (case stat c remote of
                     Inl e \<Rightarrow> fail (wrap_error (''stat '' @ remote @ '': '') e)
                   | Inr rt \<Rightarrow>
                       if \<not> en_is_dir rt then Inr (remote, False, [rt])
                       else (case walk c remote of
                           Inl e \<Rightarrow> fail (if canceled then ErrCanceled else e)
                         | Inr fs \<Rightarrow> Inr (remote, True, fs)))))"

text \<open>The whole worker: the files not recorded yet are downloaded, and each that ends well is recorded.\<close>

definition webdav_work ::
  "job \<Rightarrow> (string \<Rightarrow> int option) \<Rightarrow> (string \<Rightarrow> string) \<Rightarrow> entry list \<Rightarrow> (entry list \<Rightarrow> file_end list) \<Rightarrow> bool \<Rightarrow> dav_files \<times> worker_exit" where
  "webdav_work j stat place fs goes canceled =
     (case pending_webdav_files stat place (j_resolved j) fs of
        (pending, cum) \<Rightarrow>
          let d = download_webdav_files place (goes pending)
                    \<lparr>df_cumulative = cum, df_first = None, df_canceled = False, df_recorded = []\<rparr>
          in (d, webdav_exit canceled d))"

section \<open>What a download leaves\<close>

definition clean_body :: "body_event \<Rightarrow> bool" where
  "clean_body ev \<longleftrightarrow> ev_wait ev = None \<and> ev_write ev = None \<and> ev_err ev = None"

lemma body_copy_clean:
  "list_all clean_body evs \<Longrightarrow> 0 \<le> w \<Longrightarrow> w \<le> int (length f) \<Longrightarrow>
   body_copy remote w f evs = (w + int (length (concat (map ev_bytes evs))), None, write_at w (concat (map ev_bytes evs)) f)"
proof (induction evs arbitrary: w f)
  case Nil
  then show ?case by (simp add: write_nothing)
next
  case (Cons ev evs)
  let ?f = "write_at w (ev_bytes ev) f" and ?w = "w + int (length (ev_bytes ev))"
  have "?w \<le> int (length ?f)" using Cons.prems by (simp add: write_at_def Let_def)
  with Cons.IH [of ?w ?f] Cons.prems have
    "body_copy remote ?w ?f evs = (?w + int (length (concat (map ev_bytes evs))), None, write_at ?w (concat (map ev_bytes evs)) ?f)"
    by simp
  moreover have "(if ev_bytes ev = [] then f else ?f) = ?f" using Cons.prems by (simp add: write_nothing)
  ultimately show ?case
    using Cons.prems write_at_append [of w f "ev_bytes ev" "concat (map ev_bytes evs)"]
    by (simp add: clean_body_def Let_def del: append_assoc)
qed

text \<open>C36: a file whose first part is on the disk is completed by a server that continues it, and replaced
  by one that sends all of it: either way the file is the content, and its length is returned.\<close>

theorem dav_download_correct:
  assumes "answer (int (length f)) = DavReply status text evs" and "list_all clean_body evs"
    and "status = 206 \<and> f @ concat (map ev_bytes evs) = C \<or> status = 200 \<and> concat (map ev_bytes evs) = C"
  shows "dav_download remote None None answer fired (Some f) = (int (length C), None, Some C)"
proof -
  have w: "write_at (int (length f)) bs f = f @ bs" "write_at 0 bs [] = bs" for bs by (simp_all add: write_at_def)
  show ?thesis
    using assms(3)
  proof
    assume "status = 206 \<and> f @ concat (map ev_bytes evs) = C"
    then show ?thesis using assms(1) body_copy_clean [OF assms(2), of "int (length f)" f] w
      by (auto simp: dav_download_def seek_for_status_def)
  next
    assume "status = 200 \<and> concat (map ev_bytes evs) = C"
    then show ?thesis using assms(1) body_copy_clean [OF assms(2), of 0 "[]"] w
      by (auto simp: dav_download_def seek_for_status_def truncate_to_def)
  qed
qed

definition dav_event :: "string \<Rightarrow> body_event" where
  "dav_event bs = \<lparr>ev_bytes = bs, ev_wait = None, ev_write = None, ev_err = None, ev_ctx = False, ev_fired = False\<rparr>"

theorem dav_download_correct_witness:
  "dav_download ''/a'' None None (\<lambda>_. DavReply 206 [] [dav_event ''c'', dav_event ''d'']) False (Some ''ab'') = (4, None, Some ''abcd'')"
  using dav_download_correct [of "\<lambda>_. DavReply 206 [] [dav_event ''c'', dav_event ''d'']" "''ab''" 206 "[]"
    "[dav_event ''c'', dav_event ''d'']" "''abcd''" "''/a''" False]
  by (simp add: clean_body_def dav_event_def)

text \<open>A file that is complete on the disk but was not recorded as done is asked for from its end, which a
  server answers with 416: the download fails, and leaves the file, so the next one fails too.\<close>

lemma complete_file_fails:
  assumes "answer (int (length C)) = DavReply 416 text evs"
  shows "dav_download remote None None answer fired (Some C) =
    (int (length C), Some (ErrMsg (''unexpected status downloading '' @ remote @ '': '' @ text)), Some C)"
  using assms by (simp add: dav_download_def seek_for_status_def)

section \<open>The watchdog trips only on silence\<close>

lemma watchdog_trips:
  "wd_tripped (watchdog_tick now w) \<and> \<not> wd_tripped w \<longleftrightarrow>
   \<not> wd_tripped w \<and> \<not> wd_in_limiter w \<and> wd_timeout w < now - wd_last w"
  by (auto simp: watchdog_tick_def)

lemma watchdog_limiter_safe:
  assumes "now \<le> t + wd_timeout w" and "\<not> wd_tripped w"
  shows "\<not> wd_tripped (watchdog_tick now (leave_limiter t (watchdog_tick s (enter_limiter w))))"
  using assms by (simp add: watchdog_tick_def enter_limiter_def leave_limiter_def saw_data_def)

section \<open>How a job ends\<close>

lemma file_end_first:
  "df_first d \<noteq> None \<longrightarrow> df_canceled d \<Longrightarrow> df_first (dav_file_end place fe d) \<noteq> None \<longrightarrow> df_canceled (dav_file_end place fe d)"
  by (auto simp: dav_file_end_def Let_def split: option.splits)

lemma file_end_keeps: "df_first d \<noteq> None \<Longrightarrow> df_first (dav_file_end place fe d) \<noteq> None"
  by (auto simp: dav_file_end_def Let_def split: option.splits)

lemma file_end_err: "fe_err fe \<noteq> None \<Longrightarrow> df_first (dav_file_end place fe d) \<noteq> None"
  by (auto simp: dav_file_end_def Let_def split: option.splits)

lemma download_first:
  "df_first d \<noteq> None \<longrightarrow> df_canceled d \<Longrightarrow>
   (df_first d \<noteq> None \<or> list_ex (\<lambda>fe. fe_err fe \<noteq> None) ends) \<Longrightarrow>
   df_first (download_webdav_files place ends d) \<noteq> None \<and> df_canceled (download_webdav_files place ends d)"
proof (induction ends arbitrary: d)
  case (Cons fe ends)
  have "df_first (dav_file_end place fe d) \<noteq> None \<or> list_ex (\<lambda>fe. fe_err fe \<noteq> None) ends"
    using Cons.prems(2) file_end_keeps file_end_err by auto
  with Cons.IH [OF file_end_first [OF Cons.prems(1)]] show ?case by (simp add: download_webdav_files_def)
qed (simp add: download_webdav_files_def)

lemma failed_exit:
  assumes "list_ex (\<lambda>fe. fe_err fe \<noteq> None) (goes (fst (pending_webdav_files stat place (j_resolved j) fs)))"
  shows "\<exists>b. snd (webdav_work j stat place fs goes canceled) = Finished b False (Some ErrCanceled)"
proof -
  obtain pending cum where p: "pending_webdav_files stat place (j_resolved j) fs = (pending, cum)" by fastforce
  let ?d = "download_webdav_files place (goes pending) \<lparr>df_cumulative = cum, df_first = None, df_canceled = False, df_recorded = []\<rparr>"
  have "df_first ?d \<noteq> None \<and> df_canceled ?d"
    by (rule download_first) (use assms p in simp_all)
  then show ?thesis by (auto simp: webdav_work_def p webdav_exit_def Let_def)
qed

text \<open>C8: a WebDAV job with a file that failed, for whatever reason, ends as if it had been canceled: the
  failure cancels the job's context, and the worker asks the context first. So the row says paused,
  not failed, and no automatic retry is armed, however the settings ask for one.\<close>

theorem failed_webdav_job_pauses:
  assumes "list_ex (\<lambda>fe. fe_err fe \<noteq> None) (goes (fst (pending_webdav_files stat place (j_resolved j) fs)))"
    and "st_faults (d_store d) = []" and "row_of (jobs_of d) i = Some r" and "marshal_ok (j_options r)"
    and "d_timers d = Some m"
  shows "\<exists>r'. row_of (jobs_of (worker_outcome i (snd (webdav_work j stat place fs goes False)) d)) i = Some r' \<and>
    j_status r' = StatusPaused \<and> j_retry_count r' = j_retry_count r \<and>
    d_armed (worker_outcome i (snd (webdav_work j stat place fs goes False)) d) = d_armed d"
proof -
  obtain b where "snd (webdav_work j stat place fs goes False) = Finished b False (Some ErrCanceled)"
    using failed_exit [of goes stat place j fs False] assms(1) by blast
  then show ?thesis
    using finish_job_row [OF assms(2-5), of b False "Some ErrCanceled"]
    by (auto simp: worker_outcome_def will_retry_def)
qed

definition failing_end :: file_end where
  "failing_end = \<lparr>fe_file = \<lparr>en_path = ''/a'', en_is_dir = False, en_size = 1, en_mod = None\<rparr>, fe_written = 0,
     fe_err = Some (ErrMsg ''connection reset''), fe_last = 0\<rparr>"

theorem failed_webdav_job_pauses_witness:
  "\<exists>r'. row_of (jobs_of (worker_outcome ''a'' (snd (webdav_work (sample_job ''a'' StatusActive) (\<lambda>_. None) (\<lambda>p. p)
      [fe_file failing_end] (\<lambda>_. [failing_end]) False)) retrying_daemon)) ''a'' = Some r' \<and> j_status r' = StatusPaused"
proof -
  have a: "list_ex (\<lambda>fe. fe_err fe \<noteq> None) ((\<lambda>_. [failing_end])
      (fst (pending_webdav_files (\<lambda>_. None) (\<lambda>p. p) (j_resolved (sample_job ''a'' StatusActive)) [fe_file failing_end])))"
    by (simp add: failing_end_def)
  have r: "row_of (jobs_of retrying_daemon) ''a'' = Some (sample_job ''a'' StatusActive)" by (simp add: row_of_def)
  have m: "marshal_ok (j_options (sample_job ''a'' StatusActive))" by simp
  show ?thesis
    using failed_webdav_job_pauses [of "\<lambda>_. [failing_end]" "\<lambda>_. None" "\<lambda>p. p" "sample_job ''a'' StatusActive" "[fe_file failing_end]",
      OF a retrying_simps(2) r m retrying_simps(3)] by blast
qed

text \<open>A job that completes has no file that failed, and recorded every one it downloaded.\<close>

lemma download_recorded:
  "list_all (\<lambda>fe. fe_err fe = None) ends \<Longrightarrow>
   df_first (download_webdav_files place ends d) = df_first d \<and> df_canceled (download_webdav_files place ends d) = df_canceled d \<and>
   df_recorded (download_webdav_files place ends d) = df_recorded d @ map (place \<circ> en_path \<circ> fe_file) ends \<and>
   df_cumulative (download_webdav_files place ends d) = df_cumulative d + sum_list (map fe_written ends)"
proof (induction ends arbitrary: d)
  case (Cons fe ends)
  then have "dav_file_end place fe d = d\<lparr>df_cumulative := df_cumulative d + fe_written fe,
      df_recorded := df_recorded d @ [place (en_path (fe_file fe))]\<rparr>"
    by (simp add: dav_file_end_def Let_def)
  with Cons.IH [of "dav_file_end place fe d"] Cons.prems show ?case by (simp add: download_webdav_files_def)
qed (simp add: download_webdav_files_def)

end
