(* ===== verification/RequestHeaders.thy ===== *)
theory RequestHeaders
  imports GoQuote
begin

text \<open>
  \<^verbatim>\<open>internal/reqhdr/reqhdr.go\<close>: a job's extra headers and the cookies of a Netscape cookies file,
  and what they do to a request. The map of headers is a list with distinct names; the URL of a
  request is its scheme, host name and escaped path, as \<^verbatim>\<open>net/url\<close> takes them apart. The lemmas say
  that no header can bring a line break into a request, and which sites a cookie goes to.
\<close>

section \<open>Headers\<close>

definition token_byte :: "char \<Rightarrow> bool" where
  "token_byte c \<longleftrightarrow>
     (let n = (of_char c :: nat)
      in 48 \<le> n \<and> n \<le> 57 \<or> 65 \<le> n \<and> n \<le> 90 \<or> 97 \<le> n \<and> n \<le> 122 \<or>
         c \<in> set ''!#$%&*+-.^_`|~'' \<or> n = 39)"

definition upper_byte :: "char \<Rightarrow> char" where
  "upper_byte c = (let n = (of_char c :: nat) in if 97 \<le> n \<and> n \<le> 122 then char_of (n - 32) else c)"

fun canonical_bytes :: "bool \<Rightarrow> string \<Rightarrow> string" where
  "canonical_bytes upper [] = []"
| "canonical_bytes upper (c # s) =
     (if upper then upper_byte c else lower_byte c) # canonical_bytes (c = CHR ''-'') s"

text \<open>\<^verbatim>\<open>http.CanonicalHeaderKey\<close>: a name with a byte no header name has is left alone.\<close>

definition canonical_header_key :: "string \<Rightarrow> string" where
  "canonical_header_key name = (if list_all token_byte name then canonical_bytes True name else name)"

definition header_error :: "string \<Rightarrow> string \<Rightarrow> gerror" where
  "header_error h why = ErrMsg (''invalid header '' @ go_quote h @ '': '' @ why)"

definition parse_header :: "string \<Rightarrow> (string \<times> string) result" where
  "parse_header h =
     (case cut (CHR '':'') h of
        (name, val, ok) \<Rightarrow>
          let name = trim_space name
          in if \<not> ok \<or> name = [] \<or> list_ex (\<lambda>c. c \<in> {CHR 0x20, CHR 0x09, CHR 0x0D, CHR 0x0A}) name
             then Inl (header_error h (''expected '' @ go_quote ''Name: value''))
             else if list_ex (\<lambda>c. c \<in> {CHR 0x0D, CHR 0x0A}) val
             then Inl (header_error h ''value contains a line break'')
             else Inr (canonical_header_key name, trim_space val))"

type_synonym headers = "(string \<times> string list) list"

text \<open>\<^verbatim>\<open>http.Header.Add\<close>.\<close>

definition header_add :: "string \<Rightarrow> string \<Rightarrow> headers \<Rightarrow> headers" where
  "header_add name val hs =
     AList.update name ((case map_of hs name of Some vs \<Rightarrow> vs | None \<Rightarrow> []) @ [val]) hs"

section \<open>Cookies\<close>

record cookie =
  c_domain :: string
  c_subdomains :: bool
  c_path :: string
  c_secure :: bool
  c_expires :: int
  c_name :: string
  c_value :: string

text \<open>\<^verbatim>\<open>pathMatches\<close>. The byte after the prefix is there: the paths are not equal.\<close>

definition path_matches :: "string \<Rightarrow> string \<Rightarrow> bool" where
  "path_matches req cookie_path \<longleftrightarrow>
     cookie_path = [] \<or> cookie_path = ''/'' \<or> req = cookie_path \<or>
     has_prefix req cookie_path \<and> (has_suffix cookie_path ''/'' \<or> req ! length cookie_path = CHR ''/'')"

record url =
  u_scheme :: string
  u_host :: string
  u_path :: string

definition cookie_applies :: "url \<Rightarrow> int \<Rightarrow> cookie \<Rightarrow> bool" where
  "cookie_applies u now c \<longleftrightarrow>
     (let host = to_lower (u_host u); p = (if u_path u = [] then ''/'' else u_path u)
      in \<not> (c_expires c \<noteq> 0 \<and> c_expires c < now) \<and> \<not> (c_secure c \<and> u_scheme u \<noteq> ''https'') \<and>
         (host = c_domain c \<or> c_subdomains c \<and> has_suffix host (''.'' @ c_domain c)) \<and>
         path_matches p (c_path c))"

definition cookies_for :: "cookie list \<Rightarrow> url \<Rightarrow> int \<Rightarrow> string list" where
  "cookies_for cs u now = map (\<lambda>c. c_name c @ ''='' @ c_value c) (filter (cookie_applies u now) cs)"

text \<open>\<^verbatim>\<open>bufio.Scanner\<close>'s lines: the part after the last line break is one if it is not empty. The
  carriage return the scanner drops goes with those the code trims.\<close>

definition scan_lines :: "string \<Rightarrow> string list" where
  "scan_lines s = (let ls = split_on (CHR 0x0A) s in if last ls = [] then butlast ls else ls)"

definition max_line :: nat where "max_line = 1048576"

definition trim_cr :: "string \<Rightarrow> string" where
  "trim_cr s = rev (dropWhile (\<lambda>c. c = CHR 0x0D) (rev s))"

text \<open>One line: \<open>Inr None\<close> for one to pass over. A number that does not parse is what \<^verbatim>\<open>ParseInt\<close>
  returns beside its error: 0, or the end of the range.\<close>

definition parse_expires :: "string \<Rightarrow> int" where
  "parse_expires s =
     (case atoi s of Some n \<Rightarrow> n
      | None \<Rightarrow>
          let neg = (s \<noteq> [] \<and> hd s = CHR ''-'');
              ds = (if s \<noteq> [] \<and> (hd s = CHR ''-'' \<or> hd s = CHR ''+'') then tl s else s)
          in if ds \<noteq> [] \<and> list_all (\<lambda>c. digit_val c \<noteq> None) ds then (if neg then int64_min else int64_max) else 0)"

definition parse_cookie_line :: "string \<Rightarrow> cookie option option" where
  "parse_cookie_line l =
     (let l = trim_prefix (trim_cr l) ''#HttpOnly_''
      in if trim_space l = [] \<or> has_prefix l ''#'' then Some None
         else let fs = split_on (CHR 0x09) l
         in if length fs < 7 then None
            else let dom_lower = to_lower (trim_space (fs ! 0))
            in Some (Some
              \<lparr>c_domain = trim_prefix dom_lower ''.'',
               c_subdomains = equal_fold (fs ! 1) ''TRUE'' \<or> has_prefix dom_lower ''.'',
               c_path = fs ! 2, c_secure = equal_fold (fs ! 3) ''TRUE'',
               c_expires = parse_expires (trim_space (fs ! 4)), c_name = fs ! 5,
               c_value = join_with [CHR 0x09] (drop 6 fs)\<rparr>))"

definition cookie_line_error :: "string \<Rightarrow> nat \<Rightarrow> gerror" where
  "cookie_line_error file n =
     ErrMsg (''cookies file '' @ file @ '' line '' @ itoa (int n) @
       '': expected 7 tab-separated fields (Netscape cookies.txt format)'')"

fun load_lines :: "string \<Rightarrow> nat \<Rightarrow> string list \<Rightarrow> cookie list result" where
  "load_lines file n [] = Inr []"
| "load_lines file n (l # ls) =
     (if max_line \<le> length l then Inl (ErrMsg ''reading cookies file: bufio.Scanner: token too long'')
      else case parse_cookie_line l of
          None \<Rightarrow> Inl (cookie_line_error file (Suc n))
        | Some oc \<Rightarrow>
            (case load_lines file (Suc n) ls of
               Inl e \<Rightarrow> Inl e
             | Inr cs \<Rightarrow> Inr (case oc of None \<Rightarrow> cs | Some c \<Rightarrow> c # cs)))"

definition load_cookies :: "string \<Rightarrow> string result \<Rightarrow> cookie list result" where
  "load_cookies file content =
     (case content of
        Inl e \<Rightarrow> Inl (ErrMsg (''reading cookies file: '' @ err_string e))
      | Inr s \<Rightarrow> load_lines file 0 (scan_lines s))"

section \<open>A set of headers and cookies\<close>

record header_set =
  hs_header :: headers
  hs_cookies :: "cookie list"

fun build_headers :: "string list \<Rightarrow> headers \<Rightarrow> headers result" where
  "build_headers [] hs = Inr hs"
| "build_headers (h # rest) hs =
     (case parse_header h of Inl e \<Rightarrow> Inl e | Inr (name, val) \<Rightarrow> build_headers rest (header_add name val hs))"

text \<open>\<^verbatim>\<open>Build\<close>: \<open>content\<close> is what reading the cookies file gives.\<close>

definition build_set :: "string list \<Rightarrow> string \<Rightarrow> string result \<Rightarrow> header_set option result" where
  "build_set hdrs file content =
     (if hdrs = [] \<and> file = [] then Inr None
      else case build_headers hdrs [] of
          Inl e \<Rightarrow> Inl e
        | Inr hs \<Rightarrow>
            if file = [] then Inr (Some \<lparr>hs_header = hs, hs_cookies = []\<rparr>)
            else (case load_cookies file content of
                Inl e \<Rightarrow> Inl e
              | Inr cs \<Rightarrow> Inr (Some \<lparr>hs_header = hs, hs_cookies = cs\<rparr>)))"

record http_request =
  hr_url :: url
  hr_host :: string
  hr_header :: headers

definition header_get :: "string \<Rightarrow> headers \<Rightarrow> string" where
  "header_get name hs = (case map_of hs name of Some (v # _) \<Rightarrow> v | _ \<Rightarrow> [])"

fun apply_headers :: "headers \<Rightarrow> http_request \<Rightarrow> http_request" where
  "apply_headers [] r = r"
| "apply_headers ((name, vs) # hs) r =
     apply_headers hs
       (if name = ''Range'' then r
        else if name = ''Host'' then r\<lparr>hr_host := last vs\<rparr>
        else r\<lparr>hr_header := AList.update name vs (hr_header r)\<rparr>)"

definition apply_set :: "header_set option \<Rightarrow> int \<Rightarrow> http_request \<Rightarrow> http_request" where
  "apply_set s now r =
     (case s of
        None \<Rightarrow> r
      | Some s \<Rightarrow>
          let r = apply_headers (hs_header s) r; pairs = cookies_for (hs_cookies s) (hr_url r) now
          in if pairs = [] then r
             else let all = join_with ''; '' pairs; existing = header_get ''Cookie'' (hr_header r)
             in r\<lparr>hr_header := AList.update ''Cookie'' [if existing \<noteq> [] then existing @ ''; '' @ all else all] (hr_header r)\<rparr>)"

section \<open>What a request can get\<close>

definition line_break :: "char \<Rightarrow> bool" where
  "line_break c \<longleftrightarrow> c = CHR 0x0D \<or> c = CHR 0x0A"

definition name_ok :: "string \<Rightarrow> bool" where
  "name_ok n \<longleftrightarrow> n \<noteq> [] \<and> (\<forall>c\<in>set n. \<not> line_break c \<and> c \<noteq> CHR 0x20 \<and> c \<noteq> CHR 0x09)"

definition headers_ok :: "headers \<Rightarrow> bool" where
  "headers_ok hs \<longleftrightarrow> (\<forall>(n, vs)\<in>set hs. name_ok n \<and> vs \<noteq> [] \<and> (\<forall>v\<in>set vs. \<forall>c\<in>set v. \<not> line_break c))"

lemma case_bytes: "token_byte c \<Longrightarrow> \<not> line_break (upper_byte c) \<and> upper_byte c \<noteq> CHR 0x20 \<and> upper_byte c \<noteq> CHR 0x09 \<and>
   \<not> line_break (lower_byte c) \<and> lower_byte c \<noteq> CHR 0x20 \<and> lower_byte c \<noteq> CHR 0x09"
proof -
  assume t: "token_byte c"
  have g: "32 < (of_char c :: nat)" using t by (auto simp: token_byte_def Let_def)
  have "32 < (of_char (upper_byte c) :: nat)" "32 < (of_char (lower_byte c) :: nat)"
    using g nat_of_char_less_256 [of c] by (auto simp: upper_byte_def lower_byte_def Let_def of_char_of)
  then show ?thesis by (auto simp: line_break_def)
qed

lemma canonical_ok: "name_ok n \<Longrightarrow> name_ok (canonical_header_key n)"
proof -
  have "list_all token_byte n \<Longrightarrow> \<forall>c\<in>set (canonical_bytes u n). \<not> line_break c \<and> c \<noteq> CHR 0x20 \<and> c \<noteq> CHR 0x09" for u
    by (induction n arbitrary: u) (auto dest: case_bytes)
  moreover have "n \<noteq> [] \<Longrightarrow> canonical_bytes True n \<noteq> []" by (cases n) simp_all
  ultimately show "name_ok n \<Longrightarrow> name_ok (canonical_header_key n)"
    by (simp add: name_ok_def canonical_header_key_def)
qed

lemma parse_header_ok:
  assumes "parse_header h = Inr (n, v)"
  shows "name_ok n \<and> (\<forall>c\<in>set v. \<not> line_break c)"
proof -
  obtain name val ok where c: "cut (CHR '':'') h = (name, val, ok)" by (cases "cut (CHR '':'') h")
  have p: "name_ok (trim_space name)" "\<forall>c\<in>set val. \<not> line_break c" "n = canonical_header_key (trim_space name)" "v = trim_space val"
    using assms c by (auto simp: parse_header_def Let_def name_ok_def line_break_def list_ex_iff split: if_splits)
  then show ?thesis using canonical_ok set_trim_space [of val] by auto
qed

lemma headers_ok_update:
  assumes "headers_ok hs" and "name_ok n" and "vs \<noteq> []" and "\<forall>v\<in>set vs. \<forall>c\<in>set v. \<not> line_break c"
  shows "headers_ok (AList.update n vs hs)"
  using assms unfolding headers_ok_def
proof (induction hs)
  case (Cons h hs)
  then show ?case by (cases h) auto
qed simp

lemma header_add_ok:
  assumes "headers_ok hs" and "name_ok n" and "\<forall>c\<in>set v. \<not> line_break c"
  shows "headers_ok (header_add n v hs)"
proof -
  have "\<forall>w\<in>set ((case map_of hs n of Some vs \<Rightarrow> vs | None \<Rightarrow> []) @ [v]). \<forall>c\<in>set w. \<not> line_break c"
  proof (cases "map_of hs n")
    case (Some vs)
    from map_of_SomeD [OF this] assms(1) have "\<forall>v\<in>set vs. \<forall>c\<in>set v. \<not> line_break c" by (auto simp: headers_ok_def)
    with Some assms(3) show ?thesis by auto
  qed (use assms(3) in simp)
  then show ?thesis unfolding header_add_def by (intro headers_ok_update assms) auto
qed

lemma build_headers_ok: "build_headers hdrs hs = Inr hs' \<Longrightarrow> headers_ok hs \<Longrightarrow> headers_ok hs'"
proof (induction hdrs hs rule: build_headers.induct)
  case (2 h rest hs)
  then obtain n v where p: "parse_header h = Inr (n, v)" "build_headers rest (header_add n v hs) = Inr hs'"
    by (auto split: sum.splits)
  with 2 parse_header_ok [OF p(1)] header_add_ok [of hs n v] show ?case by auto
qed simp

lemma apply_headers_ok:
  "headers_ok hs \<Longrightarrow> headers_ok (hr_header r) \<Longrightarrow> headers_ok (hr_header (apply_headers hs r)) \<and>
   ((\<forall>c\<in>set (hr_host r). \<not> line_break c) \<longrightarrow> (\<forall>c\<in>set (hr_host (apply_headers hs r)). \<not> line_break c))"
proof (induction hs r rule: apply_headers.induct)
  case (2 n vs hs r)
  have n: "name_ok n" "vs \<noteq> []" "\<forall>v\<in>set vs. \<forall>c\<in>set v. \<not> line_break c" "headers_ok hs" using 2(2) by (auto simp: headers_ok_def)
  let ?r = "if n = ''Range'' then r else if n = ''Host'' then r\<lparr>hr_host := last vs\<rparr> else r\<lparr>hr_header := AList.update n vs (hr_header r)\<rparr>"
  have "headers_ok (hr_header ?r)" using n 2(3) headers_ok_update by auto
  moreover have "(\<forall>c\<in>set (hr_host r). \<not> line_break c) \<longrightarrow> (\<forall>c\<in>set (hr_host ?r). \<not> line_break c)" using n by auto
  moreover have "apply_headers ((n, vs) # hs) r = apply_headers hs ?r" by (simp only: apply_headers.simps)
  ultimately show ?case using 2(1) [OF n(4)] by metis
qed simp

text \<open>C38: whatever lines a job's headers are, a set that is built from them brings no line break into a
  request, in a name, in a value or in the host: nobody can smuggle a second header, or a second
  request, through one.\<close>

theorem headers_bring_no_line_break:
  assumes "build_set hdrs file content = Inr (Some s)" and "headers_ok (hr_header r)" and "list_all (\<lambda>c. \<not> line_break c) (hr_host r)"
  shows "headers_ok (hr_header (apply_headers (hs_header s) r)) \<and>
    list_all (\<lambda>c. \<not> line_break c) (hr_host (apply_headers (hs_header s) r))"
proof -
  have "build_headers hdrs [] = Inr (hs_header s)"
    using assms(1) by (auto simp: build_set_def split: if_splits sum.splits)
  then have "headers_ok (hs_header s)" by (rule build_headers_ok) (simp add: headers_ok_def)
  with apply_headers_ok [of "hs_header s" r] assms(2,3) show ?thesis by (simp add: list_all_iff)
qed

definition plain_request :: http_request where
  "plain_request = \<lparr>hr_url = \<lparr>u_scheme = ''https'', u_host = ''a.example'', u_path = ''/f''\<rparr>, hr_host = ''a.example'', hr_header = []\<rparr>"

theorem headers_bring_no_line_break_witness:
  "headers_ok (hr_header (apply_headers [(''X-Key'', [''v''])] plain_request)) \<and>
   list_all (\<lambda>c. \<not> line_break c) (hr_host (apply_headers [(''X-Key'', [''v''])] plain_request))"
proof -
  have b: "build_set [''x-key: v''] [] (Inl ErrEOF) = Inr (Some \<lparr>hs_header = [(''X-Key'', [''v''])], hs_cookies = []\<rparr>)" by code_simp
  have "headers_ok (hr_header plain_request)" "list_all (\<lambda>c. \<not> line_break c) (hr_host plain_request)"
    by (simp_all add: plain_request_def headers_ok_def line_break_def)
  from headers_bring_no_line_break [OF b this] show ?thesis by simp
qed

section \<open>Where a cookie goes\<close>

text \<open>\<^verbatim>\<open>pathMatches\<close> is RFC 6265's rule: the same path, or one below the cookie's.\<close>

lemma path_matches_rfc:
  "path_matches req cp \<longleftrightarrow> cp = [] \<or> cp = ''/'' \<or> req = cp \<or>
     (\<exists>rest. req = cp @ rest \<and> (has_suffix cp ''/'' \<or> has_prefix rest ''/''))"
proof -
  have "has_prefix req cp \<and> (has_suffix cp ''/'' \<or> req ! length cp = CHR ''/'') \<longleftrightarrow>
      (\<exists>rest. req = cp @ rest \<and> (has_suffix cp ''/'' \<or> has_prefix rest ''/''))" if "req \<noteq> cp"
  proof
    assume l: "has_prefix req cp \<and> (has_suffix cp ''/'' \<or> req ! length cp = CHR ''/'')"
    then obtain rest where r: "req = cp @ rest" by (auto simp: has_prefix_iff)
    with that have "rest \<noteq> []" by auto
    with r l show "\<exists>rest. req = cp @ rest \<and> (has_suffix cp ''/'' \<or> has_prefix rest ''/'')"
      by (cases rest) auto
  next
    assume "\<exists>rest. req = cp @ rest \<and> (has_suffix cp ''/'' \<or> has_prefix rest ''/'')"
    then obtain rest where r: "req = cp @ rest" "has_suffix cp ''/'' \<or> has_prefix rest ''/''" by blast
    then show "has_prefix req cp \<and> (has_suffix cp ''/'' \<or> req ! length cp = CHR ''/'')"
      using that by (cases rest) auto
  qed
  then show ?thesis unfolding path_matches_def by blast
qed

text \<open>C39: what a request is sent of a cookies file are the cookies of its own site: of the host itself, or
  of a domain the host is under at a dot, none that is secure over plain http, and none that is over.\<close>

theorem cookies_stay_with_their_site:
  assumes "pair \<in> set (cookies_for cs u now)"
  shows "\<exists>c\<in>set cs. pair = c_name c @ ''='' @ c_value c \<and>
    (to_lower (u_host u) = c_domain c \<or> c_subdomains c \<and> (\<exists>sub. to_lower (u_host u) = sub @ ''.'' @ c_domain c)) \<and>
    (c_secure c \<longrightarrow> u_scheme u = ''https'') \<and> (c_expires c = 0 \<or> now \<le> c_expires c)"
proof -
  obtain c where c: "c \<in> set cs" "cookie_applies u now c" "pair = c_name c @ ''='' @ c_value c"
    using assms by (auto simp: cookies_for_def)
  then show ?thesis by (intro bexI [of _ c]) (auto simp: cookie_applies_def Let_def has_suffix_iff)
qed

definition sample_cookies :: "cookie list" where
  "sample_cookies =
     [\<lparr>c_domain = ''a.example'', c_subdomains = False, c_path = ''/'', c_secure = False, c_expires = 0, c_name = ''s'', c_value = ''1''\<rparr>,
      \<lparr>c_domain = ''example'', c_subdomains = True, c_path = ''/'', c_secure = True, c_expires = 9, c_name = ''t'', c_value = ''2''\<rparr>,
      \<lparr>c_domain = ''b.example'', c_subdomains = True, c_path = ''/'', c_secure = False, c_expires = 0, c_name = ''u'', c_value = ''3''\<rparr>]"

theorem cookies_stay_with_their_site_witness:
  "cookies_for sample_cookies (hr_url plain_request) 5 = [''s=1'', ''t=2''] \<and>
   (\<exists>c\<in>set sample_cookies. ''t=2'' = c_name c @ ''='' @ c_value c)"
proof -
  have p: "cookies_for sample_cookies (hr_url plain_request) 5 = [''s=1'', ''t=2'']" by code_simp
  then have "''t=2'' \<in> set (cookies_for sample_cookies (hr_url plain_request) 5)" by simp
  from cookies_stay_with_their_site [OF this] p show ?thesis by blast
qed

end
