(* ===== verification/UrlName.thy ===== *)
theory UrlName
  imports GoPath RequestHeaders
begin

text \<open>
  \<^verbatim>\<open>internal/urlname/urlname.go\<close> and \<^verbatim>\<open>internal/jobreq/jobreq.go\<close>: what a downloaded file is called
  and where it goes. What the server answers, Go's MIME tables (\<^verbatim>\<open>mime.ParseMediaType\<close>,
  \<^verbatim>\<open>mime.ExtensionsByType\<close>, \<^verbatim>\<open>http.DetectContentType\<close>) and the folders of the system are
  arguments. The lemmas say that a name is one path element whatever the server sends, and that
  the links of a batch get different files.
\<close>

section \<open>Names\<close>

text \<open>\<^verbatim>\<open>filepath.Ext\<close>: from the last dot of the last element.\<close>

definition path_ext :: "string \<Rightarrow> string" where
  "path_ext p =
     (let b = rev (takeWhile (\<lambda>c. c \<noteq> CHR ''/'') (rev p))
      in case last_index (CHR ''.'') b of None \<Rightarrow> [] | Some i \<Rightarrow> drop i b)"

definition usable_base :: "string \<Rightarrow> string option" where
  "usable_base p = (let b = path_base p in if b = [] \<or> b = ''.'' \<or> b = ''/'' then None else Some b)"

definition sanitize_filename :: "string \<Rightarrow> string" where
  "sanitize_filename name =
     (let b = path_base (trim_space name) in if b = [] \<or> b = ''.'' \<or> b = ''/'' then [] else b)"

text \<open>\<^verbatim>\<open>url.QueryUnescape\<close>.\<close>

fun query_unescape :: "string \<Rightarrow> string option" where
  "query_unescape [] = Some []"
| "query_unescape (c # s) =
     (if c = CHR ''%''
      then (case s of
              a # b # t \<Rightarrow>
                (case (hex_digit_val a, hex_digit_val b) of
                   (Some x, Some y) \<Rightarrow> map_option ((#) (char_of (16 * x + y))) (query_unescape t)
                 | _ \<Rightarrow> None)
            | _ \<Rightarrow> None)
      else map_option ((#) (if c = CHR ''+'' then CHR '' '' else c)) (query_unescape s))"

text \<open>The part after two single quotes, all of it without them.\<close>

fun after_quotes :: "string \<Rightarrow> string option" where
  "after_quotes (a # b # s) = (if of_char a = (39 :: nat) \<and> of_char b = (39 :: nat) then Some s else after_quotes (b # s))"
| "after_quotes _ = None"

definition decode_rfc5987 :: "string \<Rightarrow> string" where
  "decode_rfc5987 v =
     (let raw = (case after_quotes v of Some r \<Rightarrow> r | None \<Rightarrow> v)
      in case query_unescape raw of Some d \<Rightarrow> d | None \<Rightarrow> raw)"

text \<open>\<^verbatim>\<open>filenameFromContentDisposition\<close>: \<open>params\<close> is what \<^verbatim>\<open>mime.ParseMediaType\<close> returns.\<close>

definition filename_from_disposition :: "(string \<Rightarrow> (string \<times> string) list option) \<Rightarrow> string \<Rightarrow> string" where
  "filename_from_disposition media cd =
     (case media cd of
        None \<Rightarrow> []
      | Some params \<Rightarrow>
          let star = (case map_of params ''filename*'' of Some v \<Rightarrow> sanitize_filename (decode_rfc5987 v) | None \<Rightarrow> [])
          in if star \<noteq> [] then star
             else case map_of params ''filename'' of Some v \<Rightarrow> sanitize_filename v | None \<Rightarrow> [])"

definition common_ext_by_type :: "(string \<times> string) list" where
  "common_ext_by_type =
     [(''video/mp4'', ''.mp4''), (''video/webm'', ''.webm''), (''video/x-matroska'', ''.mkv''),
      (''video/quicktime'', ''.mov''), (''video/x-msvideo'', ''.avi''), (''audio/mpeg'', ''.mp3''),
      (''audio/mp4'', ''.m4a''), (''audio/ogg'', ''.ogg''), (''audio/wav'', ''.wav''), (''audio/x-wav'', ''.wav''),
      (''audio/flac'', ''.flac''), (''image/jpeg'', ''.jpg''), (''image/png'', ''.png''), (''image/gif'', ''.gif''),
      (''image/webp'', ''.webp''), (''application/zip'', ''.zip''), (''application/x-7z-compressed'', ''.7z''),
      (''application/x-rar-compressed'', ''.rar''), (''application/x-tar'', ''.tar''), (''application/gzip'', ''.gz''),
      (''application/x-gzip'', ''.gz''), (''application/pdf'', ''.pdf''), (''application/json'', ''.json''),
      (''text/plain'', ''.txt''), (''text/html'', ''.html''), (''application/octet-stream'', []),
      (''audio/wave'', ''.wav''), (''audio/aiff'', ''.aiff''), (''audio/midi'', ''.mid''), (''application/ogg'', ''.ogg''),
      (''video/avi'', ''.avi''), (''image/bmp'', ''.bmp''), (''font/woff'', ''.woff''), (''font/woff2'', ''.woff2''),
      (''application/wasm'', ''.wasm''), (''video/mp2t'', ''.ts''), (''audio/x-m4a'', ''.m4a''),
      (''application/x-mpegurl'', ''.m3u8''), (''application/vnd.apple.mpegurl'', ''.m3u8'')]"

definition ext_by_content_type :: "(string \<Rightarrow> string list) \<Rightarrow> string \<Rightarrow> string" where
  "ext_by_content_type exts content_type =
     (let ct = to_lower (trim_space (fst (cut (CHR '';'') content_type)))
      in case map_of common_ext_by_type ct of
           Some e \<Rightarrow> e
         | None \<Rightarrow> (case exts ct of e # _ \<Rightarrow> e | [] \<Rightarrow> []))"

section \<open>Asking the server\<close>

text \<open>What a probe request gets: its status, the two headers, the path of the URL it ended at, and the
  first 512 bytes of the body.\<close>

record probe_reply =
  pb_status :: int
  pb_disposition :: string
  pb_type :: string
  pb_path :: "string option"
  pb_body :: string

text \<open>The functions of Go's \<^verbatim>\<open>mime\<close> and \<^verbatim>\<open>net/http\<close> the code calls.\<close>

record mime_tables =
  mt_media :: "string \<Rightarrow> (string \<times> string) list option"
  mt_exts :: "string \<Rightarrow> string list"
  mt_detect :: "string \<Rightarrow> string"

definition sniff_ext :: "mime_tables \<Rightarrow> string \<Rightarrow> string" where
  "sniff_ext mt body = (if body = [] then [] else ext_by_content_type (mt_exts mt) (mt_detect mt body))"

text \<open>\<open>heads\<close> and \<open>gets\<close> are the answers to HEAD and to the ranged GET (\<open>None\<close>: an error).\<close>

definition probe_filename :: "mime_tables \<Rightarrow> probe_reply option \<Rightarrow> probe_reply option \<Rightarrow> (string \<times> string) option" where
  "probe_filename mt heads gets =
     (let used_get = (case heads of None \<Rightarrow> True | Some r \<Rightarrow> 400 \<le> pb_status r);
          resp = (if used_get then gets else heads)
      in case resp of
           None \<Rightarrow> None
         | Some r \<Rightarrow>
             if 400 \<le> pb_status r then None
             else
               let name = (if pb_disposition r \<noteq> [] then filename_from_disposition (mt_media mt) (pb_disposition r) else []);
                   name = (if name \<noteq> [] then name
                     else case pb_path r of None \<Rightarrow> [] | Some p \<Rightarrow> (case usable_base p of Some b \<Rightarrow> b | None \<Rightarrow> []));
                   ext = (if pb_type r \<noteq> [] then ext_by_content_type (mt_exts mt) (pb_type r) else []);
                   ext = (if ext \<noteq> [] then ext
                     else if used_get then sniff_ext mt (pb_body r)
                     else case gets of
                         Some g \<Rightarrow> if pb_status g < 400 then sniff_ext mt (pb_body g) else []
                       | None \<Rightarrow> [])
               in Some (name, ext))"

text \<open>\<^verbatim>\<open>FromURL\<close>: \<open>link_path\<close> is the path of the link, \<open>None\<close> if it does not parse.\<close>

definition from_url :: "mime_tables \<Rightarrow> string option \<Rightarrow> probe_reply option \<Rightarrow> probe_reply option \<Rightarrow> string" where
  "from_url mt link_path heads gets =
     (let base = (case link_path of
            None \<Rightarrow> ''download''
          | Some p \<Rightarrow> (case usable_base p of Some b \<Rightarrow> b | None \<Rightarrow> ''download''))
      in if path_ext base \<noteq> [] then base
         else case probe_filename mt heads gets of
             None \<Rightarrow> base
           | Some (name, ext) \<Rightarrow>
               let base = (if name \<noteq> [] then name else base)
               in if ext \<noteq> [] \<and> path_ext base = [] then base @ ext else base)"

section \<open>Destinations\<close>

definition numbered :: "string \<Rightarrow> string \<Rightarrow> nat \<Rightarrow> string" where
  "numbered stem ext n = stem @ '' ('' @ nat_digits n @ '')'' @ ext"

lemma numbered_inj: "numbered stem ext m = numbered stem ext n \<Longrightarrow> m = n"
proof -
  assume "numbered stem ext m = numbered stem ext n"
  then have "nat_digits m = nat_digits n" by (simp add: numbered_def)
  then show "m = n" by (metis option.inject parse_nat_digits)
qed

text \<open>The loop of \<^verbatim>\<open>UniqueName\<close>, which ends because only finitely many names are taken.\<close>

function unique_loop :: "string \<Rightarrow> string \<Rightarrow> string list \<Rightarrow> nat \<Rightarrow> string \<Rightarrow> string" where
  "unique_loop stem ext taken n cand =
     (if cand \<in> set taken then unique_loop stem ext taken (n + 1) (numbered stem ext n) else cand)"
  by pat_completeness auto
termination
proof (relation "measure (\<lambda>(stem, ext, taken, n, cand).
    card {m. n \<le> m \<and> numbered stem ext m \<in> set taken} + (if cand \<in> set taken then 1 else 0))", goal_cases)
  case 1
  show ?case by simp
next
  case (2 stem ext taken n cand)
  let ?S = "\<lambda>n. {m. n \<le> m \<and> numbered stem ext m \<in> set taken}"
  have fin: "finite (?S n)"
  proof (rule finite_subset)
    show "?S n \<subseteq> numbered stem ext -` set taken" by auto
    show "finite (numbered stem ext -` set taken)"
      by (rule finite_vimageI) (auto intro: injI numbered_inj)
  qed
  have "?S n = (if numbered stem ext n \<in> set taken then insert n (?S (n + 1)) else ?S (n + 1))"
    by (auto simp: Suc_le_eq le_less)
  moreover have "finite (?S (n + 1))" by (rule finite_subset [OF _ fin]) auto
  ultimately have "card (?S n) = card (?S (n + 1)) + (if numbered stem ext n \<in> set taken then 1 else 0)" by auto
  with 2 show ?case by simp
qed

declare unique_loop.simps [simp del]

definition name_parts :: "string \<Rightarrow> string \<times> string" where
  "name_parts name =
     (case last_index (CHR ''.'') name of
        Some i \<Rightarrow> if 0 < i then (take i name, drop i name) else (name, [])
      | None \<Rightarrow> (name, []))"

definition unique_name :: "string \<Rightarrow> string list \<Rightarrow> string \<times> string list" where
  "unique_name name taken =
     (case name_parts name of
        (stem, ext) \<Rightarrow> let c = unique_loop stem ext taken 2 name in (c, c # taken))"

text \<open>\<^verbatim>\<open>OutputPath\<close>: \<open>downloads\<close> is \<^verbatim>\<open>paths.DownloadsDir\<close>, \<open>cwd\<close> is what \<^verbatim>\<open>os.Getwd\<close> answers.\<close>

definition resolve_output :: "string option \<Rightarrow> string \<Rightarrow> string result" where
  "resolve_output cwd output =
     (if output = [] then Inr []
      else case path_abs cwd output of Some p \<Rightarrow> Inr p | None \<Rightarrow> Inl (ErrMsg ''getwd: no such file or directory''))"

definition output_path :: "string result \<Rightarrow> string option \<Rightarrow> string \<Rightarrow> string \<Rightarrow> string result" where
  "output_path downloads cwd output name =
     (if output \<noteq> [] then resolve_output cwd output
      else case downloads of Inl e \<Rightarrow> Inl e | Inr d \<Rightarrow> resolve_output cwd (path_join [d, name]))"

fun batch_names :: "string list \<Rightarrow> string list \<Rightarrow> string list" where
  "batch_names taken [] = []"
| "batch_names taken (n # ns) = (case unique_name n taken of (c, taken) \<Rightarrow> c # batch_names taken ns)"

text \<open>\<^verbatim>\<open>URLOutputs\<close>: \<open>mkdir\<close> is the error of making the directory.\<close>

definition url_outputs ::
  "string result \<Rightarrow> string option \<Rightarrow> gerror option \<Rightarrow> string list \<Rightarrow> string \<Rightarrow> (string \<Rightarrow> string) \<Rightarrow> string list result" where
  "url_outputs downloads cwd mkdir links output name_of =
     (if length links = 1
      then (case output_path downloads cwd output (name_of (hd links)) of Inl e \<Rightarrow> Inl e | Inr p \<Rightarrow> Inr [p])
      else case (if output \<noteq> [] then Inr output else downloads) of
          Inl e \<Rightarrow> Inl e
        | Inr dir \<Rightarrow>
            (case resolve_output cwd dir of
               Inl e \<Rightarrow> Inl e
             | Inr dir \<Rightarrow>
                 (case mkdir of
                    Some e \<Rightarrow> Inl e
                  | None \<Rightarrow> Inr (map (\<lambda>n. path_join [dir, n]) (batch_names [] (map name_of links))))))"

section \<open>A name is one element\<close>

definition one_element :: "string \<Rightarrow> bool" where
  "one_element n \<longleftrightarrow> n \<noteq> [] \<and> n \<noteq> ''.'' \<and> CHR ''/'' \<notin> set n"

lemma usable_base_one: "usable_base p = Some b \<Longrightarrow> one_element b"
  using path_base_no_slash [of p] by (auto simp: usable_base_def one_element_def Let_def split: if_splits)

lemma sanitize_one: "sanitize_filename n \<noteq> [] \<Longrightarrow> one_element (sanitize_filename n)"
  using path_base_no_slash [of "trim_space n"] by (auto simp: sanitize_filename_def one_element_def Let_def split: if_splits)

lemma disposition_one: "filename_from_disposition media cd \<noteq> [] \<Longrightarrow> one_element (filename_from_disposition media cd)"
  using sanitize_one by (auto simp: filename_from_disposition_def Let_def split: option.splits if_splits)

lemma common_ext_no_slash: "map_of common_ext_by_type ct = Some e \<Longrightarrow> CHR ''/'' \<notin> set e"
proof -
  have "list_all (\<lambda>(_, e). CHR ''/'' \<notin> set e) common_ext_by_type" by code_simp
  then show "map_of common_ext_by_type ct = Some e \<Longrightarrow> CHR ''/'' \<notin> set e"
    by (auto simp: list_all_iff dest!: map_of_SomeD)
qed

lemma ext_no_slash:
  assumes "\<And>ct e. e \<in> set (exts ct) \<Longrightarrow> CHR ''/'' \<notin> set e"
  shows "CHR ''/'' \<notin> set (ext_by_content_type exts ct)"
proof -
  let ?ct = "to_lower (trim_space (fst (cut (CHR '';'') ct)))"
  show ?thesis
  proof (cases "map_of common_ext_by_type ?ct")
    case None
    then show ?thesis using assms [of "hd (exts ?ct)" ?ct] by (cases "exts ?ct") (simp_all add: ext_by_content_type_def)
  next
    case (Some e)
    then show ?thesis using common_ext_no_slash by (simp add: ext_by_content_type_def)
  qed
qed

lemma probe_parts:
  assumes "probe_filename mt heads gets = Some (name, ext)" and "\<And>ct e. e \<in> set (mt_exts mt ct) \<Longrightarrow> CHR ''/'' \<notin> set e"
  shows "(name \<noteq> [] \<longrightarrow> one_element name) \<and> CHR ''/'' \<notin> set ext"
proof -
  have "CHR ''/'' \<notin> set (sniff_ext mt b)" for b using ext_no_slash [OF assms(2)] by (simp add: sniff_ext_def)
  then show ?thesis
    using assms(1) ext_no_slash [OF assms(2)] disposition_one usable_base_one
    by (auto simp: probe_filename_def Let_def split: option.splits if_splits)
qed

lemma one_element_ext: "one_element b \<Longrightarrow> ext \<noteq> [] \<Longrightarrow> CHR ''/'' \<notin> set ext \<Longrightarrow> one_element (b @ ext)"
  by (cases b) (auto simp: one_element_def)

text \<open>whatever the link and whatever the server answers, the name a download gets is one path element:
  it has no slash and is not the directory itself. The hypothesis is what \<^verbatim>\<open>mime.ExtensionsByType\<close>
  documents: an extension starts with a dot and is one.\<close>

theorem url_name_is_one_element:
  assumes "\<And>ct e. e \<in> set (mt_exts mt ct) \<Longrightarrow> CHR ''/'' \<notin> set e"
  shows "one_element (from_url mt link_path heads gets)"
proof -
  define base where "base = (case link_path of None \<Rightarrow> ''download''
    | Some p \<Rightarrow> (case usable_base p of Some b \<Rightarrow> b | None \<Rightarrow> ''download''))"
  have b: "one_element base"
    using usable_base_one by (auto simp: base_def one_element_def split: option.splits)
  show ?thesis
  proof (cases "path_ext base \<noteq> [] \<or> probe_filename mt heads gets = None")
    case True
    with b show ?thesis by (auto simp: from_url_def base_def [symmetric])
  next
    case False
    then obtain name ext where p: "probe_filename mt heads gets = Some (name, ext)" by auto
    have "(name \<noteq> [] \<longrightarrow> one_element name) \<and> CHR ''/'' \<notin> set ext" by (rule probe_parts [OF p]) (rule assms)
    with False p b show ?thesis by (auto simp: from_url_def base_def [symmetric] Let_def intro: one_element_ext)
  qed
qed

definition no_tables :: mime_tables where
  "no_tables = \<lparr>mt_media = (\<lambda>_. Some [(''filename'', ''../../etc/passwd'')]), mt_exts = (\<lambda>_. []), mt_detect = (\<lambda>_. [])\<rparr>"

theorem url_name_is_one_element_witness:
  "from_url no_tables (Some ''/dld/7f'') (Some \<lparr>pb_status = 200, pb_disposition = ''attachment'', pb_type = ''video/mp4'',
     pb_path = None, pb_body = []\<rparr>) None = ''passwd.mp4'' \<and> one_element ''passwd.mp4''"
proof -
  let ?r = "\<lparr>pb_status = 200, pb_disposition = ''attachment'', pb_type = ''video/mp4'', pb_path = None, pb_body = []\<rparr>"
  have "from_url no_tables (Some ''/dld/7f'') (Some ?r) None = ''passwd.mp4''" by code_simp
  moreover have "one_element (from_url no_tables (Some ''/dld/7f'') (Some ?r) None)"
    by (rule url_name_is_one_element) (simp add: no_tables_def)
  ultimately show ?thesis by simp
qed

text \<open>It can be \<open>..\<close>, though: a link or a header that ends so names the parent of the folder.\<close>

lemma dotdot_is_a_name:
  "from_url no_tables (Some ''/a/..'') None None = ''..'' \<and> sanitize_filename ''x/..'' = ''..'' \<and>
   path_join [''/home/u/dl'', ''..''] = ''/home/u''"
  by code_simp

section \<open>A batch has different files\<close>

lemma unique_loop_free: "unique_loop stem ext taken n cand \<notin> set taken"
  by (induction stem ext taken n cand rule: unique_loop.induct) (subst unique_loop.simps, simp)

lemma unique_loop_form:
  "unique_loop stem ext taken n cand = cand \<or> (\<exists>m. unique_loop stem ext taken n cand = numbered stem ext m)"
proof (induction stem ext taken n cand rule: unique_loop.induct)
  case (1 stem ext taken n cand)
  then show ?case by (subst (1 2) unique_loop.simps) auto
qed

lemma unique_name_free: "unique_name n taken = (c, t) \<Longrightarrow> c \<notin> set taken \<and> t = c # taken"
  using unique_loop_free by (auto simp: unique_name_def Let_def split: prod.splits)

lemma batch_names_fresh: "distinct (batch_names taken ns) \<and> set (batch_names taken ns) \<inter> set taken = {}"
proof (induction taken ns rule: batch_names.induct)
  case (2 taken n ns)
  obtain c t where u: "unique_name n taken = (c, t)" by fastforce
  from unique_name_free [OF u] 2 [OF u [symmetric]] show ?case by (auto simp: u)
qed simp

definition file_name :: "string \<Rightarrow> bool" where
  "file_name n \<longleftrightarrow> one_element n \<and> n \<noteq> dotdot"

lemma name_parts_append: "name_parts name = (stem, ext) \<Longrightarrow> name = stem @ ext"
  by (auto simp: name_parts_def split: option.splits if_splits)

lemma numbered_file:
  assumes "CHR ''/'' \<notin> set stem" and "CHR ''/'' \<notin> set ext"
  shows "file_name (numbered stem ext m)"
proof -
  have "CHR ''/'' \<notin> set (nat_digits m)" by (rule nat_digits_free) simp
  moreover have "CHR ''('' \<in> set (numbered stem ext m)" by (simp add: numbered_def)
  then have "numbered stem ext m \<noteq> ''.''" "numbered stem ext m \<noteq> dotdot" by (auto simp: dotdot_def)
  ultimately show ?thesis using assms by (auto simp: file_name_def one_element_def numbered_def)
qed

lemma unique_name_file:
  assumes "file_name n" and "unique_name n taken = (c, t)"
  shows "file_name c"
proof -
  obtain stem ext where p: "name_parts n = (stem, ext)" by fastforce
  have "CHR ''/'' \<notin> set stem" "CHR ''/'' \<notin> set ext"
    using assms(1) name_parts_append [OF p] by (auto simp: file_name_def one_element_def)
  with numbered_file unique_loop_form [of stem ext taken 2 n] assms p show ?thesis
    by (auto simp: unique_name_def Let_def)
qed

lemma batch_names_files: "list_all file_name ns \<Longrightarrow> list_all file_name (batch_names taken ns)"
proof (induction taken ns rule: batch_names.induct)
  case (2 taken n ns)
  obtain c t where u: "unique_name n taken = (c, t)" by fastforce
  from unique_name_file [OF _ u] 2 u show ?case by auto
qed simp

lemma join_name:
  assumes "rooted dir" and "file_name n"
  shows "path_join [dir, n] = show_path True (clean_elems True (path_elems dir) @ [n])"
proof -
  have n: "n \<noteq> []" "n \<noteq> ''.''" "CHR ''/'' \<notin> set n" "n \<noteq> dotdot" using assms(2) by (auto simp: file_name_def one_element_def)
  obtain q where d: "dir = CHR ''/'' # q" using assms(1) by (auto simp: rooted_def split: list.splits)
  have j: "path_join [dir, n] = path_clean (join_with ''/'' [dir, n])" by (simp add: path_join_def d)
  have "path_elems n = [n]" using n by (simp add: path_elems_def split_on_free)
  then have "path_elems (join_with ''/'' [dir, n]) = path_elems dir @ [n]"
    using path_elems_join [of dir n] by simp
  moreover have "rooted (join_with ''/'' [dir, n])" by (simp add: d rooted_def)
  moreover have "clean_elems True (path_elems dir @ [n]) = clean_elems True (path_elems dir) @ [n]"
    using n(4) by (simp add: clean_elems_def push_elem_def)
  ultimately show ?thesis by (simp add: j path_clean_def)
qed

lemma show_path_last: "CHR ''/'' \<notin> set m \<Longrightarrow> CHR ''/'' \<notin> set n \<Longrightarrow>
   show_path True (es @ [m]) = show_path True (es @ [n]) \<Longrightarrow> m = n"
  using join_with_append [of es "[m]" "''/''"] join_with_append [of es "[n]" "''/''"]
  by (cases "es = []") (simp_all add: show_path_def)

text \<open>the links of a batch are written to different files, each directly in the folder, however many
  of them end in the same name; no link is left out.\<close>

theorem batch_files_apart:
  assumes "url_outputs downloads cwd None links output name_of = Inr outs" and "length links \<noteq> 1"
    and "rooted output" and "list_all file_name (map name_of links)"
  shows "distinct outs \<and> length outs = length links \<and>
    list_all (\<lambda>p. \<exists>n. file_name n \<and> p = show_path True (clean_elems True (path_elems output) @ [n])) outs"
proof -
  have ne: "output \<noteq> []" using assms(3) by (auto simp: rooted_def)
  let ?ns = "batch_names [] (map name_of links)"
  have outs: "outs = map (\<lambda>n. path_join [path_clean output, n]) ?ns"
    using assms(1-3) ne by (simp add: url_outputs_def resolve_output_def path_abs_def)
  have r: "rooted (path_clean output)" using assms(3) by simp
  have el: "clean_elems True (path_elems (path_clean output)) = clean_elems True (path_elems output)"
    using rooted_clean_elems [OF assms(3)] clean_elems_plain [OF clean_rooted_no_dotdot] by simp
  have files: "list_all file_name ?ns" using batch_names_files assms(4) by blast
  have len: "length (batch_names t ms) = length ms" for t ms
    by (induction t ms rule: batch_names.induct) (auto split: prod.splits)
  have "inj_on (\<lambda>n. path_join [path_clean output, n]) (set ?ns)"
  proof (rule inj_onI)
    fix m n assume m: "m \<in> set ?ns" "n \<in> set ?ns" "path_join [path_clean output, m] = path_join [path_clean output, n]"
    then have f: "file_name m" "file_name n" using files by (auto simp: list_all_iff)
    show "m = n"
      using m(3) f join_name [OF r] show_path_last [of m n] by (auto simp: file_name_def one_element_def)
  qed
  then have "distinct outs" using batch_names_fresh [of "[]" "map name_of links"] by (simp add: outs distinct_map)
  moreover have "list_all (\<lambda>p. \<exists>n. file_name n \<and> p = show_path True (clean_elems True (path_elems output) @ [n])) outs"
    using files join_name [OF r] el by (auto simp: outs list_all_iff)
  ultimately show ?thesis by (simp add: outs len)
qed

theorem batch_files_apart_witness:
  "url_outputs (Inl ErrEOF) None None [''u/a.txt'', ''v/a.txt'', ''w/b''] ''/dl'' path_base = Inr [''/dl/a.txt'', ''/dl/a (2).txt'', ''/dl/b''] \<and>
   distinct [''/dl/a.txt'', ''/dl/a (2).txt'', ''/dl/b'']"
proof -
  let ?links = "[''u/a.txt'', ''v/a.txt'', ''w/b'']"
  have o: "url_outputs (Inl ErrEOF) None None ?links ''/dl'' path_base = Inr [''/dl/a.txt'', ''/dl/a (2).txt'', ''/dl/b'']" by code_simp
  have "length ?links \<noteq> 1" "rooted ''/dl''" "list_all file_name (map path_base ?links)" by code_simp+
  from batch_files_apart [OF o this] o show ?thesis by blast
qed

end
