(* ===== verification/UrlJob.thy ===== *)
theory UrlJob
  imports DownloaderProps UrlName Outcomes
begin

text \<open>
  The worker of a URL job (\<^verbatim>\<open>internal/daemon/start_url.go\<close>): the headers are built, the downloader
  runs, and its progress and its end go to the daemon. And the saved connections of
  \<^verbatim>\<open>internal/connections/connections.go\<close>. The lemmas put the downloader's checksum together with
  what the job's row says.
\<close>

section \<open>The worker\<close>

definition url_options :: "job \<Rightarrow> options" where
  "url_options j =
     \<lparr>op_url = j_source j, op_concurrency = j_concurrency j, op_start = j_resume_offset j, op_sha256 = j_sha256 j\<rparr>"

text \<open>A single stream checkpoints its offset with the count.\<close>

definition url_report :: "job \<Rightarrow> int \<times> int \<Rightarrow> daemon \<Rightarrow> daemon" where
  "url_report j p d =
     report_progress (j_id j) (fst p) (snd p) (if j_concurrency j \<le> 1 then Some (fst p) else None) d"

text \<open>\<open>built\<close> is what \<^verbatim>\<open>reqhdr.Build\<close> returns, \<open>goes\<close> the download (\<open>run\<close>), \<open>reports\<close> its progress.\<close>

definition url_work ::
  "job \<Rightarrow> header_set option result \<Rightarrow> (options \<Rightarrow> dl_result \<times> gerror option \<times> files) \<Rightarrow> (int \<times> int) list \<Rightarrow>
   daemon \<Rightarrow> daemon \<times> worker_exit" where
  "url_work j built goes reports d =
     (case built of
        Inl e \<Rightarrow> (d, Finished (j_bytes_done j) False (Some e))
      | Inr _ \<Rightarrow>
          (case goes (url_options j) of
             (res, err, _) \<Rightarrow> (fold (url_report j) reports d, Finished (dr_bytes res) (dr_completed res) err)))"

lemma run_checksum:
  assumes "run opt probed chunked answer digest fs = (res, None, fs')" and "dr_completed res" and "op_sha256 opt \<noteq> []"
  shows "\<exists>f. fs_out fs' = Some f \<and> digest f = to_lower (trim_space (op_sha256 opt))"
proof -
  let ?opt = "opt\<lparr>op_concurrency := max 1 (op_concurrency opt)\<rparr>"
  obtain p where "check_result ?opt digest p = (res, None, fs')"
    using assms(1) by (auto simp: run_def Let_def split: sum.splits prod.splits)
  then show ?thesis
    using assms(2,3)
    by (cases p) (auto simp: check_result_def verify_checksum_def no_result_def Let_def split: if_splits option.splits)
qed

lemma check_completed: "check_result opt digest (r, e, fs) = (res, err, fs') \<Longrightarrow> (dr_completed r \<longrightarrow> e = None) \<Longrightarrow>
   dr_completed res \<longrightarrow> err = None"
  by (auto simp: check_result_def no_result_def split: if_splits option.splits)

lemma single_loop_completed: "single_loop w f evs = (r, e, f') \<Longrightarrow> dr_completed r \<longrightarrow> e = None"
  by (induction w f evs rule: single_loop.induct) (auto simp: Let_def split: if_splits option.splits)

lemma run_single_completed: "run_single opt ranges answer fs = (r, e, fs') \<Longrightarrow> dr_completed r \<longrightarrow> e = None"
  by (auto simp: run_single_def Let_def dest: single_loop_completed split: reply.splits if_splits prod.splits)

lemma run_completed:
  assumes "run opt probed chunked answer digest fs = (res, err, fs')"
    and "\<And>tot fs r e fs''. chunked tot fs = (r, e, fs'') \<Longrightarrow> dr_completed r \<Longrightarrow> e = None"
  shows "dr_completed res \<longrightarrow> err = None"
proof (cases probed)
  case (Inl e)
  with assms(1) show ?thesis by (auto simp: run_def no_result_def)
next
  case (Inr p)
  let ?opt = "opt\<lparr>op_concurrency := max 1 (op_concurrency opt)\<rparr>"
  obtain ranges tot where p: "p = (ranges, tot)" by fastforce
  define q where "q = (if 1 < op_concurrency ?opt \<and> ranges \<and> 0 < tot
      then (case chunked tot fs of
          (res, err, fs) \<Rightarrow>
            if err = Some ErrRangeIgnored
            then run_single (?opt\<lparr>op_start := 0\<rparr>) False answer (fs\<lparr>fs_side := None\<rparr>) else (res, err, fs))
      else run_single ?opt ranges answer fs)"
  obtain r e fs2 where q: "q = (r, e, fs2)" by (cases q)
  have "dr_completed r \<longrightarrow> e = None"
    using q run_single_completed assms(2) unfolding q_def by (auto split: if_splits prod.splits)
  moreover have "check_result ?opt digest q = (res, err, fs')"
    using assms(1) by (simp add: run_def Inr p Let_def q_def)
  ultimately show ?thesis using check_completed q by metis
qed

text \<open>C6: a URL job with an expected checksum whose row ends as completed left a file with that checksum,
  whatever server, disk and interleaving the download met. The hypothesis on \<open>chunked\<close> is what
  \<open>finish_transfer\<close> does: it reports completion only without an error.\<close>

theorem completed_url_job_is_verified:
  assumes "st_faults (d_store (fold (url_report j) reports d)) = []"
    and "row_of (jobs_of (fold (url_report j) reports d)) (j_id j) = Some r" and "marshal_ok (j_options r)"
    and "d_timers (fold (url_report j) reports d) = Some m"
    and "run (url_options j) probed chunked answer digest fs = (res, err, fs')"
    and "\<And>tot fs r e fs''. chunked tot fs = (r, e, fs'') \<Longrightarrow> dr_completed r \<Longrightarrow> e = None"
    and "url_work j (Inr hdr) (\<lambda>opt. run opt probed chunked answer digest fs) reports d = (d', ex)"
    and "map_option j_status (row_of (jobs_of (worker_outcome (j_id j) ex d')) (j_id j)) = Some StatusCompleted"
    and "j_sha256 j \<noteq> []"
  shows "\<exists>f. fs_out fs' = Some f \<and> digest f = to_lower (trim_space (j_sha256 j))"
proof -
  have w: "d' = fold (url_report j) reports d" "ex = Finished (dr_bytes res) (dr_completed res) err"
    using assms(5,7) by (auto simp: url_work_def)
  have "dr_completed res"
    using assms(8) finish_job_row [OF assms(1-4), of "dr_bytes res" "dr_completed res" err]
    by (auto simp: w worker_outcome_def split: if_splits)
  moreover have "dr_completed res \<longrightarrow> err = None" by (rule run_completed [OF assms(5)]) (rule assms(6))
  ultimately show ?thesis using run_checksum [of "url_options j"] assms(5,9) by (auto simp: url_options_def)
qed

definition checked_job :: job where
  "checked_job = (sample_job ''a'' StatusActive)\<lparr>j_sha256 := ''AB''\<rparr>"

theorem completed_url_job_is_verified_witness:
  "\<exists>f. f = ''ab'' \<and> to_lower (trim_space (j_sha256 checked_job)) = ''ab'' \<and>
    run (url_options checked_job) (Inr (False, 2)) (\<lambda>_ fs. (no_result, None, fs)) (\<lambda>_. Reply 200 [] [plain_event ''ab''])
      (\<lambda>bs. bs) \<lparr>fs_out = None, fs_side = None\<rparr> = (\<lparr>dr_bytes = 2, dr_completed = True\<rparr>, None, \<lparr>fs_out = Some f, fs_side = None\<rparr>)"
proof -
  let ?fs = "\<lparr>fs_out = Some ''ab'', fs_side = None\<rparr>"
  let ?run = "\<lambda>opt. run opt (Inr (False, 2)) (\<lambda>_ fs. (no_result, None, fs)) (\<lambda>_. Reply 200 [] [plain_event ''ab''])
      (\<lambda>bs. bs) \<lparr>fs_out = None, fs_side = None\<rparr>"
  have r: "?run (url_options checked_job) = (\<lparr>dr_bytes = 2, dr_completed = True\<rparr>, None, ?fs)" by code_simp
  have m: "marshal_ok (j_options (sample_job ''a'' StatusActive))" by simp
  have row: "row_of (jobs_of retrying_daemon) ''a'' = Some (sample_job ''a'' StatusActive)" by (simp add: row_of_def)
  have i: "j_id checked_job = ''a''" "j_sha256 checked_job \<noteq> []" by (simp_all add: checked_job_def)
  have w: "url_work checked_job (Inr None) ?run [] retrying_daemon = (retrying_daemon, Finished 2 True None)"
    by (simp add: url_work_def r)
  have "\<exists>r'. row_of (jobs_of (finish_job ''a'' 2 True None retrying_daemon)) ''a'' = Some r' \<and> j_status r' = StatusCompleted"
    using finish_job_row [OF retrying_simps(2) row m retrying_simps(3), of 2 True None] by auto
  then have st: "map_option j_status (row_of (jobs_of (worker_outcome (j_id checked_job) (Finished 2 True None) retrying_daemon)) (j_id checked_job)) = Some StatusCompleted"
    by (auto simp: worker_outcome_def i(1))
  have "\<exists>f. fs_out ?fs = Some f \<and> (\<lambda>bs. bs) f = to_lower (trim_space (j_sha256 checked_job))"
    by (rule completed_url_job_is_verified [OF _ _ m _ r _ w st i(2)])
      (simp_all add: retrying_simps row i(1) no_result_def)
  with r show ?thesis by (intro exI [of _ "''ab''"]) simp
qed

section \<open>Connections\<close>

record conn =
  cn_name :: string
  cn_type :: string
  cn_url :: string
  cn_user :: string
  cn_pass :: string
  cn_insecure :: bool
  cn_created :: int

definition conn_get :: "string \<Rightarrow> conn list \<Rightarrow> conn result" where
  "conn_get name cs =
     (case find (\<lambda>c. cn_name c = name) cs of
        Some c \<Rightarrow> Inr c
      | None \<Rightarrow> Inl (ErrMsg (''connection '' @ go_quote name @ '' not found (see '' @ [CHR 0x22] @ ''godl connection list'' @ [CHR 0x22] @ '')'')))"

fun conn_put :: "int \<Rightarrow> conn \<Rightarrow> conn list \<Rightarrow> conn list" where
  "conn_put now c [] = [c\<lparr>cn_created := now\<rparr>]"
| "conn_put now c (e # es) =
     (if cn_name e = cn_name c then c\<lparr>cn_created := cn_created e\<rparr> # es else e # conn_put now c es)"

fun conn_remove :: "string \<Rightarrow> conn list \<Rightarrow> conn list result" where
  "conn_remove name [] = Inl (ErrMsg (''connection '' @ go_quote name @ '' not found''))"
| "conn_remove name (e # es) =
     (if cn_name e = name then Inr es
      else case conn_remove name es of Inl x \<Rightarrow> Inl x | Inr rest \<Rightarrow> Inr (e # rest))"

definition conn_names :: "conn list \<Rightarrow> string list" where
  "conn_names cs = map cn_name cs"

text \<open>A saved connection is found under its name, with its first creation time; the others are as they
  were; and names stay unique.\<close>

lemma conn_get_put:
  "conn_get n (conn_put now c cs) =
     (if n = cn_name c
      then Inr (c\<lparr>cn_created := (case find (\<lambda>e. cn_name e = n) cs of Some e \<Rightarrow> cn_created e | None \<Rightarrow> now)\<rparr>)
      else conn_get n cs)"
  by (induction cs) (auto simp: conn_get_def)

lemma conn_put_names: "set (conn_names (conn_put now c cs)) = insert (cn_name c) (set (conn_names cs)) \<and>
   (distinct (conn_names cs) \<longrightarrow> distinct (conn_names (conn_put now c cs)))"
  by (induction cs) (auto simp: conn_names_def)

lemma conn_remove_gone:
  assumes "distinct (conn_names cs)" and "conn_remove name cs = Inr cs'"
  shows "set (conn_names cs') = set (conn_names cs) - {name} \<and> distinct (conn_names cs')"
  using assms
proof (induction cs arbitrary: cs')
  case Nil
  then show ?case by simp
next
  case (Cons e cs)
  show ?case
  proof (cases "cn_name e = name")
    case True
    then show ?thesis using Cons.prems by (auto simp: conn_names_def)
  next
    case False
    then obtain r where r: "conn_remove name cs = Inr r" "cs' = e # r"
      using Cons.prems(2) by (auto split: sum.splits)
    have "distinct (conn_names cs)" using Cons.prems(1) by (simp add: conn_names_def)
    from Cons.IH[OF this r(1)] show ?thesis
      using False Cons.prems(1) r(2) by (simp add: conn_names_def insert_Diff_if)
  qed
qed

end
