(* ===== verification/Social.thy ===== *)
theory Social
  imports RequestHeaders Outcomes
begin

text \<open>
  \<^verbatim>\<open>internal/daemon/start_social.go\<close>: the job that runs yt-dlp. Its command line, the lines it
  writes (cut out of the chunks the pipe delivers), what a line does to the daemon, and how the
  job ends. The program itself is an argument: what it wrote and how it exited; so are the
  arguments other packages add. The lemmas say that the lines do not depend on the chunks, and
  that a job completes only with a file on the disk.
\<close>

section \<open>The command line\<close>

fun header_args :: "string list \<Rightarrow> string list" where
  "header_args [] = []"
| "header_args (h # hs) =
     (case parse_header h of
        Inr (name, val) \<Rightarrow> [''--add-headers'', name @ '':'' @ val] @ header_args hs
      | Inl _ \<Rightarrow> header_args hs)"

definition ytdlp_auth_args :: "job_options \<Rightarrow> string list" where
  "ytdlp_auth_args opts =
     header_args (o_headers opts) @
     (if o_cookies_file opts \<noteq> [] then [''--cookies'', o_cookies_file opts] else []) @
     (if o_cookies_from_browser opts \<noteq> [] then [''--cookies-from-browser'', o_cookies_from_browser opts] else [])"

definition godl_progress_prefix :: string where "godl_progress_prefix = ''GODLPROGRESS ''"
definition godl_file_prefix :: string where "godl_file_prefix = ''GODLFILE ''"

text \<open>\<open>js\<close> are the arguments of \<^verbatim>\<open>jsruntime.Args\<close>, \<open>ffmpeg\<close> is the directory of \<^verbatim>\<open>ffmpeg.Ensure\<close>.\<close>

definition ytdlp_args :: "string list \<Rightarrow> string option \<Rightarrow> daemon \<Rightarrow> job \<Rightarrow> string list" where
  "ytdlp_args js ffmpeg d j =
     [''--newline'', ''-P'', j_output j,
      ''--progress-template'', ''download:'' @ godl_progress_prefix @
        ''%(progress.status)s|%(progress.downloaded_bytes)s|%(progress.total_bytes)s|%(progress.total_bytes_estimate)s'',
      ''--progress-template'', ''postprocess:'' @ godl_file_prefix @ ''%(info.filepath)s''] @
     (if j_format j \<noteq> [] then [''-f'', j_format j] else []) @
     ytdlp_auth_args (j_options j) @ js @
     (let effective = min_positive_rate (j_limit_rate j) (d_bps d)
      in if 0 < effective then [''--limit-rate'', itoa effective] else []) @
     (case ffmpeg of Some dir \<Rightarrow> [''--ffmpeg-location'', dir] | None \<Rightarrow> [])"

definition social_command :: "string list \<Rightarrow> string option \<Rightarrow> daemon \<Rightarrow> job \<Rightarrow> string list" where
  "social_command js ffmpeg d j = ytdlp_args js ffmpeg d j @ [j_source j]"

section \<open>Lines\<close>

text \<open>\<^verbatim>\<open>lineWriter\<close>: the lines a write completes, and what is left in the buffer.\<close>

function line_loop :: "string \<Rightarrow> string list \<times> string" where
  "line_loop buf =
     (case cut (CHR 0x0A) buf of
        (l, rest, found) \<Rightarrow>
          if \<not> found then ([], buf)
          else let l = trim_cr l; (ls, left) = line_loop rest in (if l \<noteq> [] then l # ls else ls, left))"
  by pat_completeness auto
termination
proof (relation "measure length", goal_cases)
  case (2 buf l p rest found)
  then have "buf = l @ CHR 0x0A # rest" by (auto dest!: cut_parts [OF sym])
  then show ?case by simp
qed simp

declare line_loop.simps [simp del]

definition line_write :: "string \<Rightarrow> string \<Rightarrow> string list \<times> string" where
  "line_write buf p = line_loop (buf @ p)"

definition line_flush :: "string \<Rightarrow> string list" where
  "line_flush buf = (if buf \<noteq> [] then [buf] else [])"

fun line_writes :: "string \<Rightarrow> string list \<Rightarrow> string list" where
  "line_writes buf [] = line_flush buf"
| "line_writes buf (p # ps) = (case line_write buf p of (ls, left) \<Rightarrow> ls @ line_writes left ps)"

definition parse_godl_progress :: "string \<Rightarrow> (int \<times> int) option" where
  "parse_godl_progress line =
     (if \<not> has_prefix line godl_progress_prefix then None
      else let fs = split_on (CHR ''|'') (trim_prefix line godl_progress_prefix)
      in if length fs \<noteq> 4 then None
         else
           let tot = (case atoi (fs ! 2) of Some t \<Rightarrow> t | None \<Rightarrow> (case atoi (fs ! 3) of Some t \<Rightarrow> t | None \<Rightarrow> 0))
           in case atoi (fs ! 1) of
                Some n \<Rightarrow> Some (n, tot)
              | None \<Rightarrow> if fs ! 0 = ''finished'' \<and> 0 < tot then Some (tot, tot) else None)"

definition parse_godl_file :: "string \<Rightarrow> string option" where
  "parse_godl_file line =
     (if has_prefix line godl_file_prefix then Some (trim_prefix line godl_file_prefix) else None)"

section \<open>The worker\<close>

definition social_line :: "string \<Rightarrow> string \<Rightarrow> daemon \<Rightarrow> daemon" where
  "social_line i line d =
     (case parse_godl_progress line of
        Some (n, tot) \<Rightarrow> report_progress i n tot None d
      | None \<Rightarrow>
          (case parse_godl_file line of
             Some p \<Rightarrow> do_store (append_resolved_path i p) d
           | None \<Rightarrow> d))"

text \<open>\<^verbatim>\<open>socialOutputSize\<close>: \<open>stat\<close> is the size of a file that is there and not a directory.\<close>

definition social_output_size :: "(string \<Rightarrow> int option) \<Rightarrow> string \<Rightarrow> daemon \<Rightarrow> int result \<times> daemon" where
  "social_output_size stat i d =
     (case on_store (get_job i) d of
        (Inl e, d) \<Rightarrow> (Inl e, d)
      | (Inr j, d) \<Rightarrow>
          (if j_resolved j = [] then Inl (ErrMsg ''yt-dlp finished without saving a file'')
           else if list_ex (\<lambda>p. stat p \<noteq> None) (j_resolved j)
           then Inr (wrap64 (sum_list (map (\<lambda>p. case stat p of Some n \<Rightarrow> n | None \<Rightarrow> 0) (j_resolved j))))
           else Inl (ErrMsg (''yt-dlp reported saving '' @ path_base (hd (j_resolved j)) @ '', but it isn'' @ [CHR 0x27] @ ''t there'')), d))"

text \<open>\<open>ensured\<close> is the error of finding yt-dlp, \<open>chunks\<close> what it wrote, \<open>exited\<close> its error and \<open>canceled\<close>
  the job's context then.\<close>

definition social_work ::
  "(string \<Rightarrow> int option) \<Rightarrow> string \<Rightarrow> gerror option \<Rightarrow> string list \<Rightarrow> gerror option \<Rightarrow> bool \<Rightarrow> daemon \<Rightarrow> daemon \<times> worker_exit" where
  "social_work stat i ensured chunks exited canceled d =
     (case ensured of
        Some e \<Rightarrow> (d, Finished 0 False (Some e))
      | None \<Rightarrow>
          let d = fold (social_line i) (line_writes [] chunks) d;
              final = (case get_runtime i d of Some rt \<Rightarrow> rt_bytes_done rt | None \<Rightarrow> 0)
          in case exited of
               Some e \<Rightarrow> (d, Finished final False (Some (if canceled then ErrCanceled else e)))
             | None \<Rightarrow>
                 (case social_output_size stat i d of
                    (Inl e, d) \<Rightarrow> (d, Finished final False (Some e))
                  | (Inr n, d) \<Rightarrow> (do_store (update_progress i n n None) d, Finished n True None)))"

section \<open>Chunks do not matter\<close>

lemma line_loop_none: "CHR 0x0A \<notin> set buf \<Longrightarrow> line_loop buf = ([], buf)"
  by (subst line_loop.simps) (simp add: cut_not_found)

lemma line_loop_line: "CHR 0x0A \<notin> set l \<Longrightarrow> line_loop (l @ CHR 0x0A # rest) =
   (if trim_cr l \<noteq> [] then trim_cr l # fst (line_loop rest) else fst (line_loop rest), snd (line_loop rest))"
  by (subst line_loop.simps) (simp add: cut_found Let_def split: prod.splits)

lemma line_cases:
  obtains "CHR 0x0A \<notin> set buf" | l rest where "buf = l @ CHR 0x0A # rest" "CHR 0x0A \<notin> set l"
  by (metis split_list_first)

lemma line_loop_append:
  "line_loop (b @ p) = (fst (line_loop b) @ fst (line_loop (snd (line_loop b) @ p)), snd (line_loop (snd (line_loop b) @ p)))"
proof (induction b rule: measure_induct_rule [of length])
  case (less b)
  show ?case
  proof (cases b rule: line_cases)
    case 1
    then show ?thesis by (simp add: line_loop_none)
  next
    case (2 l rest)
    with less [of rest] show ?thesis by (simp add: line_loop_line)
  qed
qed

lemma line_left_free: "CHR 0x0A \<notin> set (snd (line_loop b))"
proof (induction b rule: measure_induct_rule [of length])
  case (less b)
  show ?case
  proof (cases b rule: line_cases)
    case (2 l rest)
    with less [of rest] show ?thesis by (simp add: line_loop_line)
  qed (simp add: line_loop_none)
qed

lemma line_writes_pending: "CHR 0x0A \<notin> set buf \<Longrightarrow>
   line_writes buf ps = fst (line_loop (buf @ concat ps)) @ line_flush (snd (line_loop (buf @ concat ps)))"
proof (induction ps arbitrary: buf)
  case Nil
  then show ?case by (simp add: line_loop_none)
next
  case (Cons p ps)
  from Cons.IH [OF line_left_free [of "buf @ p"]] line_loop_append [of "buf @ p" "concat ps"] show ?case
    by (cases "line_loop (buf @ p)") (simp add: line_write_def)
qed

text \<open>the lines a job sees do not depend on how the pipe cut up what the program wrote: writing it in
  any chunks gives the lines of writing it at once, and nothing is lost between two chunks.\<close>

theorem lines_independent_of_chunks:
  "line_writes [] ps = line_writes [] [concat ps]"
  using line_writes_pending [of "[]" ps] line_writes_pending [of "[]" "[concat ps]"] by simp

section \<open>What a job that completes has\<close>

lemma get_job_row: "on_store (get_job i) d = (Inr j, d') \<Longrightarrow> row_of (jobs_of d) i = Some j"
  by (auto simp: on_store_def get_job_def exec_def next_fault_def split: prod.splits list.splits if_splits option.splits)

text \<open>a job completes only when the row names a file that is on the disk, and its size is the size of
  those files, whatever yt-dlp reported or exited with.\<close>

theorem social_completes_with_file:
  assumes "social_work stat i ensured chunks exited canceled d = (d', Finished n True e)"
  shows "\<exists>r. row_of (jobs_of (fold (social_line i) (line_writes [] chunks) d)) i = Some r \<and>
    list_ex (\<lambda>p. stat p \<noteq> None) (j_resolved r) \<and> exited = None \<and> e = None \<and>
    n = wrap64 (sum_list (map (\<lambda>p. case stat p of Some n \<Rightarrow> n | None \<Rightarrow> 0) (j_resolved r)))"
proof -
  let ?d = "fold (social_line i) (line_writes [] chunks) d"
  obtain d2 where o: "social_output_size stat i ?d = (Inr n, d2)" "exited = None" "e = None"
    using assms by (auto simp: social_work_def Let_def split: option.splits sum.splits prod.splits)
  then obtain j d1 where g: "on_store (get_job i) ?d = (Inr j, d1)"
    by (auto simp: social_output_size_def split: sum.splits prod.splits)
  with o show ?thesis using get_job_row [OF g] by (auto simp: social_output_size_def split: if_splits)
qed

definition social_row :: job where
  "social_row = (sample_job ''s'' StatusActive)\<lparr>j_type := JobSocial, j_resolved := [''/dl/v.mp4'']\<rparr>"

definition social_daemon :: daemon where
  "social_daemon = sample_daemon 0 [social_row] []"

theorem social_completes_with_file_witness:
  "snd (social_work (\<lambda>p. if p = ''/dl/v.mp4'' then Some 7 else None) ''s'' None [''[dow'', ''nload]''] None False social_daemon) =
     Finished 7 True None \<and>
   (\<exists>r. row_of (jobs_of social_daemon) ''s'' = Some r \<and> list_ex (\<lambda>p. p = ''/dl/v.mp4'') (j_resolved r))"
proof -
  let ?stat = "\<lambda>p. if p = ''/dl/v.mp4'' then Some 7 else None"
  have l: "line_writes [] [''[dow'', ''nload]''] = [''[download]'']" by code_simp
  have f: "fold (social_line ''s'') (line_writes [] [''[dow'', ''nload]'']) social_daemon = social_daemon"
    unfolding l by (simp add: social_line_def parse_godl_progress_def parse_godl_file_def godl_progress_prefix_def godl_file_prefix_def)
  have g: "on_store (get_job ''s'') social_daemon = (Inr social_row, social_daemon)"
    by (simp add: on_store_def social_daemon_def get_job_total row_of_def social_row_def)
  have w: "\<exists>d'. social_work ?stat ''s'' None [''[dow'', ''nload]''] None False social_daemon = (d', Finished 7 True None)"
    unfolding social_work_def f using g by (simp add: social_output_size_def social_row_def wrap64_def Let_def)
  then obtain d' where d': "social_work ?stat ''s'' None [''[dow'', ''nload]''] None False social_daemon = (d', Finished 7 True None)" by blast
  from social_completes_with_file [OF d'] d' show ?thesis
    unfolding f by (auto simp: list_ex_iff split: if_splits)
qed

text \<open>The source is the last argument of the command line, and no argument ends the options before it:
  yt-dlp takes a source that starts with a dash for an option.\<close>

lemma source_can_be_an_option:
  "social_command [] None d (j\<lparr>j_source := ''--exec=id'', j_format := [], j_options := empty_options\<rparr>) ! (length
     (social_command [] None d (j\<lparr>j_source := ''--exec=id'', j_format := [], j_options := empty_options\<rparr>)) - 1) = ''--exec=id''"
  by (simp add: social_command_def)

end
