(* ===== verification/TorBox.thy ===== *)
theory TorBox
  imports WebDavPaths GoQuote Outcomes
begin

text \<open>
  Torrents through TorBox: what its answers mean (\<^verbatim>\<open>internal/torbox/torbox.go\<close>), and the worker of
  \<^verbatim>\<open>internal/daemon/start_torbox.go\<close>: waiting until TorBox has the torrent, the files with their
  numbers and places, and fetching them. The service is an argument: each call carries what it
  answered. The lemmas say that the wait gives up, that no file leaves the output directory, that
  what a purge would delete is one name, and that the progress counts add up.
\<close>

section \<open>Answers\<close>

text \<open>A refusal of the API (status, code, detail), or any other error.\<close>

datatype tb_error = ApiError int string string | TbOther gerror

record tb_file =
  bf_id :: int
  bf_name :: string
  bf_short :: string
  bf_size :: int

record tb_torrent =
  bt_id :: int
  bt_hash :: string
  bt_name :: string
  bt_state :: string
  bt_finished :: bool
  bt_present :: bool
  bt_files :: "tb_file list"

text \<open>\<open>text\<close> is \<^verbatim>\<open>http.StatusText\<close>.\<close>

definition tb_error_string :: "(int \<Rightarrow> string) \<Rightarrow> tb_error \<Rightarrow> string" where
  "tb_error_string text e =
     (case e of
        TbOther g \<Rightarrow> err_string g
      | ApiError status code detail \<Rightarrow>
          ''TorBox: '' @ (if detail \<noteq> [] then detail else if code \<noteq> [] then code else text status))"

definition tb_failed :: "tb_torrent \<Rightarrow> bool" where
  "tb_failed t \<longleftrightarrow>
     (let s = to_lower (bt_state t) in contains_str s ''error'' \<or> contains_str s ''failed'' \<or> s = ''missingfiles'')"

definition tb_ready :: "tb_torrent \<Rightarrow> bool" where
  "tb_ready t \<longleftrightarrow> bt_finished t \<and> bt_present t"

definition tb_unauthorized :: "tb_error \<Rightarrow> bool" where
  "tb_unauthorized e =
     (case e of
        ApiError status code _ \<Rightarrow>
          status = 401 \<or> status = 403 \<or> code = ''AUTH_ERROR'' \<or> code = ''BAD_TOKEN'' \<or> code = ''NO_AUTH''
      | TbOther _ \<Rightarrow> False)"

text \<open>\<^verbatim>\<open>Client.do\<close>, once the body is read: its status line and the envelope in the body, \<open>None\<close> if it
  does not parse (success, error code, detail, data). The data is \<open>None\<close> when it is null.\<close>

definition tb_do :: "int \<Rightarrow> string \<Rightarrow> (bool \<times> string \<times> string \<times> 'a option) option \<Rightarrow> tb_error + 'a option" where
  "tb_do status text env =
     (case env of
        None \<Rightarrow> if 400 \<le> status then Inl (ApiError status [] [])
                else Inl (TbOther (ErrMsg (''TorBox: unexpected answer ('' @ text @ '')'')))
      | Some (success, code, detail, data) \<Rightarrow>
          if 400 \<le> status \<or> \<not> success then Inl (ApiError status code detail) else Inr data)"

text \<open>\<^verbatim>\<open>Torrent\<close>, \<^verbatim>\<open>FindByHash\<close> and \<^verbatim>\<open>Link\<close>, given what \<^verbatim>\<open>do\<close> returned.\<close>

definition tb_get_torrent :: "tb_error + tb_torrent option \<Rightarrow> tb_error + tb_torrent" where
  "tb_get_torrent r =
     (case r of
        Inl e \<Rightarrow> Inl e
      | Inr (Some t) \<Rightarrow>
          if bt_id t = 0 then Inl (ApiError 404 [] ''that torrent is no longer in your TorBox account'') else Inr t
      | Inr None \<Rightarrow> Inl (ApiError 404 [] ''that torrent is no longer in your TorBox account''))"

definition tb_find_by_hash :: "string \<Rightarrow> tb_error + tb_torrent list option \<Rightarrow> tb_error + tb_torrent option" where
  "tb_find_by_hash hash r =
     (case r of
        Inl e \<Rightarrow> Inl e
      | Inr ts \<Rightarrow> Inr (find (\<lambda>t. equal_fold (bt_hash t) hash) (case ts of Some ts \<Rightarrow> ts | None \<Rightarrow> [])))"

definition tb_link :: "tb_error + string option \<Rightarrow> tb_error + string" where
  "tb_link r =
     (case r of
        Inl e \<Rightarrow> Inl e
      | Inr l \<Rightarrow>
          let l = (case l of Some s \<Rightarrow> s | None \<Rightarrow> [])
          in if \<not> has_prefix l ''https://'' \<and> \<not> has_prefix l ''http://''
             then Inl (TbOther (ErrMsg ''TorBox: no download link for that file'')) else Inr l)"

section \<open>Waiting for TorBox\<close>

definition torbox_max_failures :: nat where "torbox_max_failures = 15"

text \<open>Where \<^verbatim>\<open>torboxWaitReady\<close> is: at the top of its loop, waiting in TorBox's queue for the torrent of a
  hash, or returned. \<open>tw_saved\<close> is the id written to the job's row.\<close>

datatype tb_outcome = TbReady tb_torrent | TbStopped tb_error | TbCanceled
datatype tb_place = TbTop | TbQueued string | TbReturned tb_outcome

record tb_wait =
  tw_id :: int
  tw_failures :: nat
  tw_readded :: bool
  tw_place :: tb_place
  tw_saved :: "int option"

definition tb_wait_start :: "int \<Rightarrow> tb_wait" where
  "tb_wait_start i = \<lparr>tw_id = i, tw_failures = 0, tw_readded = False, tw_place = TbTop, tw_saved = None\<rparr>"

definition tb_return :: "tb_outcome \<Rightarrow> tb_wait \<Rightarrow> tb_wait" where
  "tb_return r w = w\<lparr>tw_place := TbReturned r\<rparr>"

text \<open>\<^verbatim>\<open>retryable\<close>: the error to give up with, or none.\<close>

definition tb_key_error :: "(int \<Rightarrow> string) \<Rightarrow> tb_error \<Rightarrow> tb_error" where
  "tb_key_error text e = TbOther (ErrMsg (tb_error_string text e @ '' '' @ [CHR 0xE2, CHR 0x80, CHR 0x94] @ '' check the TorBox API key in Settings''))"

definition tb_retryable :: "(int \<Rightarrow> string) \<Rightarrow> tb_error \<Rightarrow> tb_wait \<Rightarrow> tb_error option \<times> tb_wait" where
  "tb_retryable text e w =
     (if tb_unauthorized e then (Some (tb_key_error text e), w)
      else
        let w = w\<lparr>tw_failures := tw_failures w + 1\<rparr>
        in if torbox_max_failures \<le> tw_failures w then (Some e, w) else (None, w))"

text \<open>A sleep ends by itself or by the context.\<close>

definition tb_sleep :: "bool \<Rightarrow> tb_wait \<Rightarrow> tb_wait" where
  "tb_sleep slept w = (if slept then w else tb_return TbCanceled w)"

text \<open>The calls, with what they answered, whether the context was canceled then, and whether the sleep
  that follows runs to its end.\<close>

datatype tb_call =
    CallAdd "tb_error + (int \<times> string)" bool bool
  | CallFind bool "tb_error + tb_torrent option"
  | CallTorrent "tb_error + tb_torrent" bool bool

text \<open>The id is there: it is saved, and the loop goes on with it.\<close>

definition tb_have_id :: "int \<Rightarrow> tb_wait \<Rightarrow> tb_wait" where
  "tb_have_id i w = w\<lparr>tw_id := i, tw_saved := Some i, tw_place := TbTop\<rparr>"

definition tb_refused :: "tb_error \<Rightarrow> bool" where
  "tb_refused e = (case e of ApiError status _ _ \<Rightarrow> status < 500 \<and> status \<noteq> 429 | TbOther _ \<Rightarrow> False)"

definition tb_added :: "(int \<Rightarrow> string) \<Rightarrow> tb_error + (int \<times> string) \<Rightarrow> bool \<Rightarrow> bool \<Rightarrow> tb_wait \<Rightarrow> tb_wait" where
  "tb_added text r canceled slept w =
     (case r of
        Inl e \<Rightarrow>
          if canceled then tb_return TbCanceled w
          else if tb_refused e then tb_return (TbStopped e) w
          else (case tb_retryable text e w of
              (Some f, w) \<Rightarrow> tb_return (TbStopped f) w
            | (None, w) \<Rightarrow> tb_sleep slept w)
      | Inr (i, hash) \<Rightarrow> if i \<noteq> 0 then tb_have_id i w else w\<lparr>tw_place := TbQueued hash\<rparr>)"

text \<open>One round in the queue: the sleep comes first.\<close>

definition tb_found :: "(int \<Rightarrow> string) \<Rightarrow> string \<Rightarrow> bool \<Rightarrow> tb_error + tb_torrent option \<Rightarrow> tb_wait \<Rightarrow> tb_wait" where
  "tb_found text hash slept r w =
     (if \<not> slept then tb_return TbCanceled w
      else if hash = [] then tb_return (TbStopped (TbOther (ErrMsg ''TorBox queued the torrent but didn't say which it was''))) w
      else case r of
          Inl e \<Rightarrow>
            (case tb_retryable text e w of
               (Some f, w) \<Rightarrow> tb_return (TbStopped f) w
             | (None, w) \<Rightarrow> w)
        | Inr None \<Rightarrow> w
        | Inr (Some t) \<Rightarrow> if bt_id t \<noteq> 0 then tb_have_id (bt_id t) w else w)"

definition tb_polled :: "(int \<Rightarrow> string) \<Rightarrow> tb_error + tb_torrent \<Rightarrow> bool \<Rightarrow> bool \<Rightarrow> tb_wait \<Rightarrow> tb_wait" where
  "tb_polled text r canceled slept w =
     (case r of
        Inl e \<Rightarrow>
          if canceled then tb_return TbCanceled w
          else if (case e of ApiError status _ _ \<Rightarrow> status = 404 | TbOther _ \<Rightarrow> False) \<and> \<not> tw_readded w
          then w\<lparr>tw_id := 0, tw_readded := True\<rparr>
          else (case tb_retryable text e w of
              (Some f, w) \<Rightarrow> tb_return (TbStopped f) w
            | (None, w) \<Rightarrow> tb_sleep slept w)
      | Inr t \<Rightarrow>
          let w = w\<lparr>tw_failures := 0\<rparr>
          in if tb_failed t
             then tb_return (TbStopped (TbOther (ErrMsg (''TorBox couldn'' @ [CHR 0x27] @ ''t download this torrent ('' @ bt_state t @ '')'')))) w
             else if tb_ready t \<and> bt_files t \<noteq> [] then tb_return (TbReady t) w
             else tb_sleep slept w)"

text \<open>The loop makes one call at a time; a call it does not make where it is changes nothing.\<close>

definition tb_wait_step :: "(int \<Rightarrow> string) \<Rightarrow> tb_call \<Rightarrow> tb_wait \<Rightarrow> tb_wait" where
  "tb_wait_step text c w =
     (case (tw_place w, c) of
        (TbTop, CallAdd r canceled slept) \<Rightarrow> if tw_id w = 0 then tb_added text r canceled slept w else w
      | (TbTop, CallTorrent r canceled slept) \<Rightarrow> if tw_id w \<noteq> 0 then tb_polled text r canceled slept w else w
      | (TbQueued hash, CallFind slept r) \<Rightarrow> tb_found text hash slept r w
      | _ \<Rightarrow> w)"

section \<open>Files\<close>

record tbx_file =
  tf_index :: int
  tf_id :: int
  tf_path :: string
  tf_local :: string
  tf_length :: int
  tf_selected :: bool
  tf_done :: int

text \<open>The name cleaned from the root, without its leading slash.\<close>

definition tb_clean_name :: "string \<Rightarrow> string" where
  "tb_clean_name name = trim_prefix (path_clean (''/'' @ name)) ''/''"

definition torbox_display_path :: "string \<Rightarrow> tb_file \<Rightarrow> string" where
  "torbox_display_path torrent_name f =
     (let name = tb_clean_name (bf_name f)
      in if has_prefix name (torrent_name @ ''/'') \<and> torrent_name \<noteq> []
         then drop (length torrent_name + 1) name else name)"

definition torbox_local_path :: "string option \<Rightarrow> string \<Rightarrow> tb_file \<Rightarrow> string" where
  "torbox_local_path cwd output f =
     (let rel = tb_clean_name (bf_name f);
          rel = (if rel = [] \<or> rel = ''.'' then path_base (bf_short f) else rel);
          joined = path_join [output, rel]
      in case (path_abs cwd output, path_abs cwd joined) of
           (Some out_abs, Some joined_abs) \<Rightarrow>
             if joined_abs \<noteq> out_abs \<and> \<not> has_prefix joined_abs (out_abs @ ''/'')
             then path_join [output, path_base (bf_name f)] else joined
         | _ \<Rightarrow> path_join [output, path_base (bf_name f)])"

text \<open>\<^verbatim>\<open>torboxTopName\<close>: the torrent has a file.\<close>

definition torbox_top_name :: "tb_torrent \<Rightarrow> tbx_file list \<Rightarrow> string" where
  "torbox_top_name t files =
     (case cut (CHR ''/'') (tb_clean_name (bf_name (hd (bt_files t)))) of
        (first, _, found) \<Rightarrow> if found then first else path_base (tf_local (hd files)))"

text \<open>\<^verbatim>\<open>torboxMapIndices\<close>: \<open>meta\<close> is what \<^verbatim>\<open>ListFiles\<close> answers. A later file of the same path counts.\<close>

definition torbox_map_indices :: "(string \<times> int) list option \<Rightarrow> tbx_file list \<Rightarrow> tbx_file list" where
  "torbox_map_indices meta files =
     (case meta of
        None \<Rightarrow> files
      | Some ms \<Rightarrow>
          if length ms \<noteq> length files then files
          else let by_path = map_of (rev ms) in
            if list_all (\<lambda>f. by_path (tf_path f) \<noteq> None) files
            then sort_key tf_index (map (\<lambda>f. f\<lparr>tf_index := the (by_path (tf_path f))\<rparr>) files) else files)"

text \<open>\<^verbatim>\<open>torboxFileList\<close>; the ids of a torrent's files are distinct.\<close>

definition number_files :: "string option \<Rightarrow> string \<Rightarrow> string \<Rightarrow> tb_file list \<Rightarrow> tbx_file list" where
  "number_files cwd torrent_name output fs =
     map (\<lambda>(i, f). \<lparr>tf_index = int i, tf_id = bf_id f, tf_path = torbox_display_path torrent_name f,
         tf_local = torbox_local_path cwd output f, tf_length = bf_size f, tf_selected = False, tf_done = 0\<rparr>)
       (enumerate 0 fs)"

definition torbox_file_list ::
  "string option \<Rightarrow> tb_torrent \<Rightarrow> string \<Rightarrow> selection \<Rightarrow> (string \<times> int) list option \<Rightarrow> tbx_file list" where
  "torbox_file_list cwd t output sel meta =
     (let files = number_files cwd (bt_name t) output (sort_key bf_id (bt_files t));
          files = (if uses_indices sel then torbox_map_indices meta files else files)
      in map (\<lambda>f. f\<lparr>tf_selected := sel_match sel (tf_index f + 1) (tf_path f)\<rparr>) files)"

text \<open>\<^verbatim>\<open>torboxFileComplete\<close>: \<open>stat\<close> is the size of a file that is there.\<close>

definition torbox_file_complete :: "(string \<Rightarrow> int option) \<Rightarrow> tbx_file \<Rightarrow> bool" where
  "torbox_file_complete stat f \<longleftrightarrow>
     stat (tf_local f) = Some (tf_length f) \<and> stat (tf_local f @ ''.godl-progress.json'') = None"

section \<open>Fetching\<close>

definition tb_gerror :: "(int \<Rightarrow> string) \<Rightarrow> tb_error \<Rightarrow> gerror" where
  "tb_gerror text e = (case e of TbOther g \<Rightarrow> g | ApiError _ _ _ \<Rightarrow> ErrMsg (tb_error_string text e))"

text \<open>One attempt: whether the wait before it was cut off, the link, the counts its progress reports
  gave, and what the downloader returned. The last field of each part is the context then.\<close>

record tb_attempt =
  ta_cut_off :: bool
  ta_link :: "tb_error + string"
  ta_link_ctx :: bool
  ta_progress :: "int list"
  ta_bytes :: int
  ta_completed :: bool
  ta_err :: "gerror option"
  ta_ctx :: bool

text \<open>The counts of the file and of the job, which a report moves together.\<close>

definition tb_count :: "int \<Rightarrow> int \<times> int \<Rightarrow> int \<times> int" where
  "tb_count n c = (n, snd c + (n - fst c))"

definition tb_run_counts :: "tb_attempt \<Rightarrow> int \<times> int \<Rightarrow> int \<times> int" where
  "tb_run_counts a c =
     (let c = fold tb_count (ta_progress a) c
      in if 0 < ta_bytes a \<and> ta_bytes a - fst c \<noteq> 0 then tb_count (ta_bytes a) c else c)"

function fetch_attempts ::
  "(int \<Rightarrow> string) \<Rightarrow> (nat \<Rightarrow> tb_attempt) \<Rightarrow> nat \<Rightarrow> gerror option \<Rightarrow> int \<times> int \<Rightarrow> gerror option \<times> int \<times> int" where
  "fetch_attempts text attempts n last_err c =
     (if 3 \<le> n then (last_err, c)
      else let a = attempts n in
        if 0 < n \<and> ta_cut_off a then (Some ErrCanceled, c)
        else case ta_link a of
            Inl e \<Rightarrow>
              if tb_unauthorized e \<or> ta_link_ctx a then (Some (tb_gerror text e), c)
              else fetch_attempts text attempts (n + 1) (Some (tb_gerror text e)) c
          | Inr _ \<Rightarrow>
              let c = tb_run_counts a c
              in if ta_err a = None \<and> ta_completed a then (None, c)
                 else if ta_ctx a then (Some ErrCanceled, c)
                 else fetch_attempts text attempts (n + 1)
                   (Some (case ta_err a of Some e \<Rightarrow> e | None \<Rightarrow> ErrMsg ''the download ended early'')) c)"
  by pat_completeness auto
termination by (relation "measure (\<lambda>(text, attempts, n, last_err, c). 3 - n)") auto

declare fetch_attempts.simps [simp del]

definition torbox_fetch_file ::
  "(int \<Rightarrow> string) \<Rightarrow> gerror option \<Rightarrow> (nat \<Rightarrow> tb_attempt) \<Rightarrow> int \<times> int \<Rightarrow> gerror option \<times> int \<times> int" where
  "torbox_fetch_file text mkdir attempts c =
     (case mkdir of Some e \<Rightarrow> (Some e, c) | None \<Rightarrow> fetch_attempts text attempts 0 None c)"

text \<open>\<^verbatim>\<open>torboxDownload\<close>: its goroutines end in some order, each with its file, its error and the job's
  context then. The first failure cancels a context of its own.\<close>

fun torbox_ends :: "(string \<times> gerror option \<times> bool) list \<Rightarrow> gerror option \<Rightarrow> gerror option" where
  "torbox_ends [] first = first"
| "torbox_ends ((p, err, canceled) # ends) first =
     torbox_ends ends
       (case err of
          Some e \<Rightarrow>
            if \<not> canceled \<and> first = None
            then Some (if e = ErrCanceled then ErrCanceled else ErrMsg (''downloading '' @ p @ '' from TorBox: '' @ err_string e))
            else first
        | None \<Rightarrow> first)"

section \<open>The worker\<close>

definition torbox_stop :: "bool \<Rightarrow> int \<Rightarrow> gerror \<Rightarrow> worker_exit" where
  "torbox_stop canceled bytes e = Finished bytes False (Some (if canceled then ErrCanceled else e))"

text \<open>Up to the files: the end of a job that does not get to them, or the torrent, its files and the total
  of the chosen ones. \<open>waited\<close> is what \<^verbatim>\<open>torboxWaitReady\<close> returned.\<close>

definition torbox_begin ::
  "(int \<Rightarrow> string) \<Rightarrow> settings \<Rightarrow> job \<Rightarrow> tb_outcome \<Rightarrow> string option \<Rightarrow> (string \<times> int) list option \<Rightarrow> bool \<Rightarrow>
   worker_exit + (tb_torrent \<times> tbx_file list \<times> int)" where
  "torbox_begin text cfg j waited cwd meta canceled =
     (let stop = (\<lambda>e. Inl (torbox_stop canceled (j_bytes_done j) e))
      in if \<not> torbox_ready cfg
         then stop (ErrMsg (''TorBox isn'' @ [CHR 0x27] @ ''t set up '' @ [CHR 0xE2, CHR 0x80, CHR 0x94] @
           '' add your TorBox API key in Settings, or retry this torrent without TorBox''))
         else case parse_selection (o_torrent_files (j_options j)) of
             Inl e \<Rightarrow> stop e
           | Inr sel \<Rightarrow>
               (case waited of
                  TbStopped e \<Rightarrow> stop (tb_gerror text e)
                | TbCanceled \<Rightarrow> stop ErrCanceled
                | TbReady t \<Rightarrow>
                    let files = torbox_file_list cwd t (j_output j) sel meta; chosen = filter tf_selected files
                    in if chosen = []
                       then stop (ErrMsg (''--files '' @ go_quote (o_torrent_files (j_options j)) @
                         '' matched none of the torrent'' @ [CHR 0x27] @ ''s '' @ itoa (int (length files)) @ '' file(s)''))
                       else Inr (t, files, sum_list (map tf_length chosen))))"

definition torbox_record :: "string \<Rightarrow> tb_torrent \<Rightarrow> tbx_file list \<Rightarrow> daemon \<Rightarrow> daemon" where
  "torbox_record i t files d =
     (case on_store (get_job i) d of
        (Inl _, d) \<Rightarrow> d
      | (Inr job, d) \<Rightarrow>
          let job = job\<lparr>j_info_hash := to_lower (bt_hash t)\<rparr>;
              job = (if files \<noteq> [] then job\<lparr>j_resolved := [torbox_top_name t files]\<rparr> else job)
          in do_store (update_job job) d)"

text \<open>The files still to fetch, and the bytes that are there.\<close>

definition torbox_pending :: "(string \<Rightarrow> int option) \<Rightarrow> tbx_file list \<Rightarrow> tbx_file list \<times> int" where
  "torbox_pending stat files =
     (let chosen = filter tf_selected files
      in (filter (\<lambda>f. \<not> torbox_file_complete stat f) chosen,
          sum_list (map tf_length (filter (torbox_file_complete stat) chosen))))"

definition torbox_free :: "string \<Rightarrow> settings \<Rightarrow> bool \<Rightarrow> daemon \<Rightarrow> daemon" where
  "torbox_free i cfg gone d =
     (if s_torbox_keep cfg \<or> \<not> gone then d
      else case on_store (get_job i) d of
          (Inl _, d) \<Rightarrow> d
        | (Inr job, d) \<Rightarrow> do_store (update_job (job\<lparr>j_options := (j_options job)\<lparr>o_torbox_id := 0\<rparr>\<rparr>)) d)"

text \<open>How the job ends once its files have: \<open>first\<close> is what \<^verbatim>\<open>torboxDownload\<close> returned, \<open>gone\<close> whether
  TorBox deleted the torrent.\<close>

definition torbox_exit :: "string \<Rightarrow> settings \<Rightarrow> bool \<Rightarrow> int \<Rightarrow> gerror option \<Rightarrow> bool \<Rightarrow> daemon \<Rightarrow> daemon \<times> worker_exit" where
  "torbox_exit i cfg canceled final first gone d =
     (case first of
        Some e \<Rightarrow> (d, torbox_stop canceled final e)
      | None \<Rightarrow>
          if canceled then (d, torbox_stop canceled final ErrCanceled)
          else (torbox_free i cfg gone d, Finished final True None))"

section \<open>The wait gives up\<close>

definition tb_returned :: "tb_wait \<Rightarrow> bool" where
  "tb_returned w \<longleftrightarrow> (case tw_place w of TbReturned _ \<Rightarrow> True | _ \<Rightarrow> False)"

text \<open>A call that fails: an error of the API or the network. A torrent that is gone counts as one only if
  it has been added again already.\<close>

definition tb_call_fails :: "tb_call \<Rightarrow> bool" where
  "tb_call_fails c =
     (case c of
        CallAdd r _ _ \<Rightarrow> (case r of Inl _ \<Rightarrow> True | Inr _ \<Rightarrow> False)
      | CallFind _ r \<Rightarrow> (case r of Inl _ \<Rightarrow> True | Inr _ \<Rightarrow> False)
      | CallTorrent r _ _ \<Rightarrow> (case r of Inl _ \<Rightarrow> True | Inr _ \<Rightarrow> False))"

definition tb_fits :: "tb_wait \<Rightarrow> tb_call \<Rightarrow> bool" where
  "tb_fits w c =
     (case (tw_place w, c) of
        (TbTop, CallAdd _ _ _) \<Rightarrow> tw_id w = 0
      | (TbTop, CallTorrent _ _ _) \<Rightarrow> tw_id w \<noteq> 0
      | (TbQueued _, CallFind _ _) \<Rightarrow> True
      | _ \<Rightarrow> False)"

text \<open>What is left of the patience: failures to go, and one torrent that may be gone.\<close>

definition tb_patience :: "tb_wait \<Rightarrow> nat" where
  "tb_patience w = (torbox_max_failures - tw_failures w) + (if tw_readded w then 0 else 1)"

lemma retryable_cases:
  assumes "tb_retryable text e w = (r, w')"
  shows "(r \<noteq> None \<or> tw_failures w' = tw_failures w + 1 \<and> tw_failures w' < torbox_max_failures) \<and>
    tw_readded w' = tw_readded w \<and> tw_place w' = tw_place w \<and> tw_id w' = tw_id w"
  using assms by (auto simp: tb_retryable_def Let_def split: if_splits)

lemma tb_return_simps [simp]: "tb_returned (tb_return r w)" "tw_failures (tb_return r w) = tw_failures w"
  "tw_readded (tb_return r w) = tw_readded w"
  by (simp_all add: tb_returned_def tb_return_def)

lemma failing_call_step:
  assumes "tb_fits w c" and "tb_call_fails c" and "tw_failures w < torbox_max_failures"
  shows "tb_returned (tb_wait_step text c w) \<or>
    tb_patience (tb_wait_step text c w) < tb_patience w \<and> tw_failures (tb_wait_step text c w) < torbox_max_failures"
proof -
  have retry: "tb_returned (case tb_retryable text e w of (Some f, w) \<Rightarrow> tb_return (TbStopped f) w | (None, w) \<Rightarrow> tb_sleep b w) \<or>
      tb_patience (case tb_retryable text e w of (Some f, w) \<Rightarrow> tb_return (TbStopped f) w | (None, w) \<Rightarrow> tb_sleep b w) < tb_patience w \<and>
      tw_failures (case tb_retryable text e w of (Some f, w) \<Rightarrow> tb_return (TbStopped f) w | (None, w) \<Rightarrow> tb_sleep b w) < torbox_max_failures"
    for e b
  proof (cases "tb_retryable text e w")
    case (Pair r w')
    with retryable_cases [OF Pair] show ?thesis
      by (cases r) (auto simp: tb_sleep_def tb_patience_def)
  qed
  from assms(1) show ?thesis
  proof (cases "tw_place w")
    case TbTop
    show ?thesis
    proof (cases c)
      case (CallAdd r canceled slept)
      with assms TbTop retry show ?thesis
        by (auto simp: tb_fits_def tb_call_fails_def tb_wait_step_def tb_added_def split: sum.splits)
    next
      case (CallTorrent r canceled slept)
      with assms TbTop obtain e where e: "r = Inl e" "tw_id w \<noteq> 0" by (auto simp: tb_fits_def tb_call_fails_def split: sum.splits)
      show ?thesis
      proof (cases "(case e of ApiError status _ _ \<Rightarrow> status = 404 | TbOther _ \<Rightarrow> False) \<and> \<not> tw_readded w")
        case True
        with CallTorrent TbTop e assms(3) show ?thesis
          by (auto simp: tb_wait_step_def tb_polled_def tb_patience_def)
      next
        case False
        with CallTorrent TbTop e retry [of slept e] show ?thesis
          by (auto simp: tb_wait_step_def tb_polled_def simp del: de_Morgan_conj)
      qed
    qed (use assms(1) TbTop in \<open>simp add: tb_fits_def\<close>)
  next
    case (TbQueued hash)
    with assms(1) obtain slept r where c: "c = CallFind slept r" by (cases c) (auto simp: tb_fits_def)
    with assms(2) obtain e where e: "r = Inl e" by (auto simp: tb_call_fails_def split: sum.splits)
    have "tb_sleep True v = v" for v by (simp add: tb_sleep_def)
    with TbQueued c e retry [of True e] show ?thesis
      by (auto simp: tb_wait_step_def tb_found_def split: prod.splits option.splits)
  qed (simp add: tb_fits_def)
qed

fun tb_calls :: "(int \<Rightarrow> string) \<Rightarrow> tb_call list \<Rightarrow> tb_wait \<Rightarrow> tb_wait" where
  "tb_calls text [] w = w"
| "tb_calls text (c # cs) w = (if tb_returned w then w else tb_calls text cs (tb_wait_step text c w))"

fun tb_fitting :: "(int \<Rightarrow> string) \<Rightarrow> tb_call list \<Rightarrow> tb_wait \<Rightarrow> bool" where
  "tb_fitting text [] w = True"
| "tb_fitting text (c # cs) w \<longleftrightarrow> tb_returned w \<or> tb_fits w c \<and> tb_fitting text cs (tb_wait_step text c w)"

lemma calls_returned: "tb_returned w \<Longrightarrow> tb_calls text cs w = w"
  by (cases cs) simp_all

lemma failing_calls_end:
  "tb_fitting text cs w \<Longrightarrow> list_all tb_call_fails cs \<Longrightarrow> tw_failures w < torbox_max_failures \<Longrightarrow> tb_patience w \<le> length cs \<Longrightarrow>
   tb_returned (tb_calls text cs w)"
proof (induction cs arbitrary: w)
  case Nil
  then show ?case by (simp add: tb_patience_def)
next
  case (Cons c cs)
  show ?case
  proof (cases "tb_returned w")
    case False
    with Cons.prems have "tb_fits w c" "tb_call_fails c" "tb_fitting text cs (tb_wait_step text c w)" by auto
    with failing_call_step [of w c "text"] Cons.prems have
      "tb_returned (tb_wait_step text c w) \<or> tb_patience (tb_wait_step text c w) \<le> length cs \<and> tw_failures (tb_wait_step text c w) < torbox_max_failures"
      by auto
    with Cons False show ?thesis by (auto simp: calls_returned)
  qed simp
qed

text \<open>C25: when every call to TorBox fails, whatever the failures are, the wait is over after at most
  sixteen of them: fifteen in a row, and one torrent that is gone and is added again.\<close>

theorem torbox_wait_gives_up:
  assumes "tb_fitting text cs (tb_wait_start i)" and "list_all tb_call_fails cs" and "16 \<le> length cs"
  shows "tb_returned (tb_calls text cs (tb_wait_start i))"
  by (rule failing_calls_end) (use assms in \<open>simp_all add: tb_wait_start_def tb_patience_def torbox_max_failures_def\<close>)

definition dead_network :: "tb_call list" where
  "dead_network = replicate 16 (CallTorrent (Inl (TbOther (ErrMsg ''timeout''))) False True)"

theorem torbox_wait_gives_up_witness:
  "tb_returned (tb_calls (\<lambda>_. []) dead_network (tb_wait_start 7)) \<and>
   tw_place (tb_calls (\<lambda>_. []) dead_network (tb_wait_start 7)) = TbReturned (TbStopped (TbOther (ErrMsg ''timeout'')))"
proof -
  have f: "tb_fitting (\<lambda>_. []) dead_network (tb_wait_start 7)" by code_simp
  have "list_all tb_call_fails dead_network" "16 \<le> length dead_network" by code_simp+
  from torbox_wait_gives_up [OF f this]
  have "tb_returned (tb_calls (\<lambda>_. []) dead_network (tb_wait_start 7))" .
  moreover have "tw_place (tb_calls (\<lambda>_. []) dead_network (tb_wait_start 7)) = TbReturned (TbStopped (TbOther (ErrMsg ''timeout'')))"
    by code_simp
  ultimately show ?thesis by blast
qed

section \<open>Places\<close>

lemma tb_clean_name_join:
  "tb_clean_name name = join_with ''/'' (clean_elems True (path_elems name)) \<and> plain_elems (clean_elems True (path_elems name))"
proof -
  have "path_clean (''/'' @ name) = show_path True (clean_elems True (path_elems name))"
    by (simp add: path_clean_def rooted_def)
  moreover have "plain_elems (clean_elems True (path_elems name))"
    using clean_elems_in path_elems_plain clean_rooted_no_dotdot by (auto simp: plain_elems_def list_all_iff)
  ultimately show ?thesis by (simp add: tb_clean_name_def show_path_def trim_prefix_def)
qed

text \<open>a file of a torrent is written to the output directory or below it, whatever names TorBox
  reports, unless the name it falls back to is \<open>..\<close>.\<close>

theorem torbox_local_path_confined:
  assumes "rooted output" and "path_clean output \<noteq> ''/''" and "path_base (bf_name f) \<noteq> dotdot"
  shows "below (path_clean output) (torbox_local_path cwd output f)"
proof -
  note b = base_below [OF assms]
  have abs: "path_abs cwd output = Some (path_clean output)"
    "path_abs cwd (path_join (output # ps)) = Some (path_join (output # ps))" for ps
    using assms(1) rooted_join clean_join_fix by (simp_all add: path_abs_def)
  show ?thesis using b by (auto simp: torbox_local_path_def Let_def abs below_def)
qed

definition evil_file :: tb_file where
  "evil_file = \<lparr>bf_id = 1, bf_name = ''Show/../../../../etc/cron.d/x'', bf_short = ''x'', bf_size = 1\<rparr>"

theorem torbox_local_path_confined_witness:
  "torbox_local_path None ''/home/u/dl'' evil_file = ''/home/u/dl/etc/cron.d/x'' \<and> below (path_clean ''/home/u/dl'') ''/home/u/dl/etc/cron.d/x''"
proof -
  have p: "torbox_local_path None ''/home/u/dl'' evil_file = ''/home/u/dl/etc/cron.d/x''" by code_simp
  have "rooted ''/home/u/dl''" "path_clean ''/home/u/dl'' \<noteq> ''/''" "path_base (bf_name evil_file) \<noteq> dotdot" by code_simp+
  from torbox_local_path_confined [OF this, of None] p show ?thesis by simp
qed

text \<open>A file whose name stays in the torrent goes to its place in it.\<close>

lemma torbox_local_path_tree:
  assumes "rooted output" and "path_clean output \<noteq> ''/''" and "clean_elems True (path_elems (bf_name f)) \<noteq> []"
  shows "torbox_local_path cwd output f =
    show_path True (clean_elems True (path_elems output) @ clean_elems True (path_elems (bf_name f)))"
proof -
  let ?es = "clean_elems True (path_elems (bf_name f))"
  have n: "tb_clean_name (bf_name f) = join_with ''/'' ?es" "plain_elems ?es" using tb_clean_name_join by blast+
  have ne: "join_with ''/'' ?es \<noteq> []" using join_with_ends [OF assms(3) n(2)] by simp
  have dot: "join_with ''/'' ?es \<noteq> ''.''"
  proof
    assume "join_with ''/'' ?es = ''.''"
    then have "path_elems ''.'' = ?es" using plain_elems_fix [OF n(2)] by metis
    with assms(3) show False by (simp add: path_elems_def)
  qed
  have j: "path_join [output, join_with ''/'' ?es] = show_path True (clean_elems True (path_elems output) @ ?es)"
    using rooted_join_elems [OF assms(1), of "[join_with ''/'' ?es]"] plain_elems_fix [OF n(2)] clean_append_plain [OF n(2)] by simp
  have c: "path_clean output = show_path True (clean_elems True (path_elems output))"
    using assms(1) by (simp add: path_clean_def)
  have out: "clean_elems True (path_elems output) \<noteq> []" using assms(2) c by (auto simp: show_path_def)
  have abs: "path_abs cwd output = Some (path_clean output)"
    "path_abs cwd (path_join (output # ps)) = Some (path_join (output # ps))" for ps
    using assms(1) rooted_join clean_join_fix by (simp_all add: path_abs_def)
  have aj: "path_abs cwd (show_path True (clean_elems True (path_elems output) @ ?es)) =
      Some (show_path True (clean_elems True (path_elems output) @ ?es))"
    using abs(2) [of "[join_with ''/'' ?es]"] j by simp
  show ?thesis
    unfolding torbox_local_path_def Let_def n(1) using ne dot below_show [OF out, of ?es]
    by (auto simp: abs(1) aj j c below_def)
qed

text \<open>What a purge deletes of such a torrent is one name.\<close>

lemma torbox_top_is_one_element:
  assumes "cut (CHR ''/'') (tb_clean_name (bf_name (hd (bt_files t)))) = (top_name, rest, True)"
  shows "torbox_top_name t files = top_name \<and> top_name \<noteq> [] \<and> top_name \<noteq> ''.'' \<and> top_name \<noteq> dotdot \<and> CHR ''/'' \<notin> set top_name"
proof -
  let ?es = "clean_elems True (path_elems (bf_name (hd (bt_files t))))"
  have n: "tb_clean_name (bf_name (hd (bt_files t))) = join_with ''/'' ?es" "plain_elems ?es" using tb_clean_name_join by blast+
  have parts: "join_with ''/'' ?es = top_name @ CHR ''/'' # rest" "CHR ''/'' \<notin> set top_name"
    using cut_parts cut_before_free assms n(1) by metis+
  then have "?es \<noteq> []" by auto
  then have "split_on (CHR ''/'') (join_with ''/'' ?es) = ?es"
    by (rule split_join) (use n(2) in \<open>auto simp: plain_elems_def list_all_iff\<close>)
  with parts have "?es = top_name # split_on (CHR ''/'') rest" using split_on_append [OF parts(2), of rest] by simp
  with n(2) have "plain_elems (top_name # split_on (CHR ''/'') rest)" by metis
  then show ?thesis using assms by (simp add: torbox_top_name_def)
qed

section \<open>Numbers\<close>

text \<open>files chosen by number are numbered as the torrent's own metadata numbers them, whenever the
  two lists have the same files, and none is lost or doubled; otherwise they keep TorBox's order.\<close>

theorem torbox_numbers_follow_metadata:
  assumes "length ms = length files" and "list_all (\<lambda>f. map_of (rev ms) (tf_path f) \<noteq> None) files"
  shows "sorted (map tf_index (torbox_map_indices (Some ms) files)) \<and>
    mset (map tf_id (torbox_map_indices (Some ms) files)) = mset (map tf_id files) \<and>
    list_all (\<lambda>f. map_of (rev ms) (tf_path f) = Some (tf_index f)) (torbox_map_indices (Some ms) files)"
proof -
  let ?xs = "map (\<lambda>f. f\<lparr>tf_index := the (map_of (rev ms) (tf_path f))\<rparr>) files"
  have ids: "map tf_id ?xs = map tf_id files" by (simp add: comp_def)
  have "mset (map tf_id (sort_key tf_index ?xs)) = mset (map tf_id ?xs)" by (simp only: mset_map mset_sort)
  then have "mset (map tf_id (sort_key tf_index ?xs)) = mset (map tf_id files)" unfolding ids .
  moreover have "torbox_map_indices (Some ms) files = sort_key tf_index ?xs"
    using assms by (simp add: torbox_map_indices_def)
  ultimately show ?thesis using assms(2) by (auto simp: list_all_iff)
qed

definition tb_numbered :: "int \<Rightarrow> int \<Rightarrow> string \<Rightarrow> tbx_file" where
  "tb_numbered k i p = \<lparr>tf_index = k, tf_id = i, tf_path = p, tf_local = p, tf_length = 1, tf_selected = False, tf_done = 0\<rparr>"

theorem torbox_numbers_follow_metadata_witness:
  "torbox_map_indices (Some [(''b'', 0), (''a'', 1)]) [tb_numbered 0 5 ''a'', tb_numbered 1 6 ''b''] = [tb_numbered 0 6 ''b'', tb_numbered 1 5 ''a''] \<and>
   sorted (map tf_index (torbox_map_indices (Some [(''b'', 0), (''a'', 1)]) [tb_numbered 0 5 ''a'', tb_numbered 1 6 ''b'']))"
proof -
  have "torbox_map_indices (Some [(''b'', 0), (''a'', 1)]) [tb_numbered 0 5 ''a'', tb_numbered 1 6 ''b''] = [tb_numbered 0 6 ''b'', tb_numbered 1 5 ''a'']"
    by code_simp
  moreover have "length [(''b'', 0 :: int), (''a'', 1)] = length [tb_numbered 0 5 ''a'', tb_numbered 1 6 ''b'']"
    "list_all (\<lambda>f. map_of (rev [(''b'', 0 :: int), (''a'', 1)]) (tf_path f) \<noteq> None) [tb_numbered 0 5 ''a'', tb_numbered 1 6 ''b'']"
    by (simp_all add: tb_numbered_def)
  ultimately show ?thesis using torbox_numbers_follow_metadata by blast
qed

section \<open>Counts\<close>

lemma tb_count_diff [simp]: "snd (tb_count n c) - fst (tb_count n c) = snd c - fst c"
  by (simp add: tb_count_def)

lemma fold_count_diff: "snd (fold tb_count ns c) - fst (fold tb_count ns c) = snd c - fst c"
  by (induction ns arbitrary: c) simp_all

lemma run_counts_diff: "snd (tb_run_counts a c) - fst (tb_run_counts a c) = snd c - fst c"
  using fold_count_diff [of "ta_progress a" c] by (simp add: tb_run_counts_def Let_def)

lemma fetch_diff:
  "fetch_attempts text attempts n last_err c = (e, c') \<Longrightarrow> snd c' - fst c' = snd c - fst c"
proof (induction "text" attempts n last_err c arbitrary: e c' rule: fetch_attempts.induct)
  case (1 t attempts n last_err c)
  note IH = 1(1,2)
  show ?case
  proof (cases "3 \<le> n \<or> 0 < n \<and> ta_cut_off (attempts n)")
    case True
    with 1(3) show ?thesis by (subst (asm) fetch_attempts.simps) (auto split: if_splits)
  next
    case False
    then have n: "\<not> 3 \<le> n" "\<not> (0 < n \<and> ta_cut_off (attempts n))" by auto
    show ?thesis
    proof (cases "ta_link (attempts n)")
      case (Inl x)
      with 1(1) [OF n(1) refl n(2) Inl] 1(3) n show ?thesis
        by (subst (asm) (2) fetch_attempts.simps) (auto simp: Let_def split: if_splits)
    next
      case (Inr l)
      let ?c = "tb_run_counts (attempts n) c"
      note d = run_counts_diff [of "attempts n" c]
      from Inr n 1(3) consider "c' = ?c" | "\<not> (ta_err (attempts n) = None \<and> ta_completed (attempts n))" "\<not> ta_ctx (attempts n)"
        "fetch_attempts t attempts (n + 1) (Some (case ta_err (attempts n) of Some e \<Rightarrow> e | None \<Rightarrow> ErrMsg ''the download ended early'')) ?c = (e, c')"
        by (subst (asm) fetch_attempts.simps) (auto simp: Let_def split: if_splits)
      then show ?thesis
      proof cases
        case 1
        with d show ?thesis by simp
      next
        case 2
        with IH(2) [OF n(1) refl n(2) Inr refl] d show ?thesis by simp
      qed
    qed
  qed
qed

text \<open>the job's count moves with its files': over all the attempts at a file, whatever each of them
  reported and however it ended, the job's total grows by exactly what the file's own count does.\<close>

theorem torbox_counts_add_up:
  assumes "torbox_fetch_file text mkdir attempts (n, cum) = (e, n', cum')"
  shows "cum' - cum = n' - n"
proof (cases mkdir)
  case None
  with assms fetch_diff [of "text" attempts 0 None "(n, cum)" e "(n', cum')"] show ?thesis by (simp add: torbox_fetch_file_def)
next
  case (Some x)
  with assms show ?thesis by (simp add: torbox_fetch_file_def)
qed

definition second_try :: "nat \<Rightarrow> tb_attempt" where
  "second_try n = \<lparr>ta_cut_off = False, ta_link = Inr ''https://t/1'', ta_link_ctx = False, ta_progress = (if n = 0 then [3, 5] else [5, 8]),
     ta_bytes = (if n = 0 then 4 else 9), ta_completed = (n = 1), ta_err = (if n = 0 then Some ErrEOF else None), ta_ctx = False\<rparr>"

theorem torbox_counts_add_up_witness:
  "torbox_fetch_file (\<lambda>_. []) None second_try (0, 100) = (None, 9, 109) \<and> (109 :: int) - 100 = 9 - 0"
proof -
  have f: "torbox_fetch_file (\<lambda>_. []) None second_try (0, 100) = (None, 9, 109)" by code_simp
  from torbox_counts_add_up [OF f] f show ?thesis by simp
qed

end
