(* ===== verification/Relay.thy ===== *)
theory Relay
  imports RequestHeaders
begin

text \<open>
  \<^verbatim>\<open>internal/webui/relay.go\<close>: a loopback server that reads a site in pieces for a player that reads
  one long stream. The site is an argument: its answer to the n-th request of a stream, given the
  headers of the request. What a piece's copy wrote to the player, and whether the copy failed or
  the player went away, is part of the answer. The loop may go on for ever, so it is a partial
  function. The lemmas say that the pieces make up the stream, and what a site can do to that.
\<close>

section \<open>Ranges\<close>

definition relay_parse_range :: "string \<Rightarrow> int \<times> int \<times> bool" where
  "relay_parse_range h =
     (let whole = (0, -1, False); spec = trim_prefix h ''bytes=''
      in if \<not> has_prefix h ''bytes='' \<or> list_ex (\<lambda>c. c = CHR '','') spec then whole
         else case cut (CHR ''-'') spec of
           (a, b, found) \<Rightarrow>
             if \<not> found then whole
             else case atoi a of
               None \<Rightarrow> whole
             | Some s \<Rightarrow>
                 if s < 0 then whole
                 else if b = [] then (s, -1, True)
                 else case atoi b of
                   None \<Rightarrow> whole
                 | Some e \<Rightarrow> if e < s then whole else (s, e, True))"

definition parse_content_range :: "string \<Rightarrow> (int \<times> int \<times> int) option" where
  "parse_content_range h =
     (if \<not> has_prefix h ''bytes '' then None
      else case cut (CHR ''/'') (trim_prefix h ''bytes '') of
        (rng, tot, found) \<Rightarrow>
          (case cut (CHR ''-'') rng of
             (a, b, found2) \<Rightarrow>
               if \<not> found \<or> \<not> found2 then None
               else case (atoi a, atoi b, atoi tot) of
                 (Some s, Some e, Some t) \<Rightarrow> Some (s, e, t)
               | _ \<Rightarrow> None))"

section \<open>Pieces\<close>

text \<open>\<open>tg_length\<close> is the size of the stream once a site has told it; 0 before.\<close>

record relay_target =
  tg_url :: string
  tg_header :: headers
  tg_ua :: string
  tg_chunk :: int
  tg_created :: int
  tg_length :: int

text \<open>\<open>rp_broken\<close>: copying the body failed, or the player is gone.\<close>

record site_reply =
  rp_status :: int
  rp_text :: string
  rp_range :: string
  rp_length :: int
  rp_type :: string
  rp_body :: string
  rp_broken :: bool

definition piece_last :: "int \<Rightarrow> int \<Rightarrow> int \<Rightarrow> int" where
  "piece_last chunk pos e =
     (let l = wrap64 (pos + chunk - 1) in if 0 \<le> e \<and> e < l then e else l)"

definition piece_request :: "relay_target \<Rightarrow> int \<Rightarrow> int \<Rightarrow> headers" where
  "piece_request tg pos e =
     (let hs = fold (\<lambda>(name, vals) hs. AList.update name vals hs) (tg_header tg) [];
          hs = (if tg_ua tg \<noteq> [] then AList.update ''User-Agent'' [tg_ua tg] hs else hs)
      in AList.update ''Range'' [''bytes='' @ itoa pos @ ''-'' @ itoa (piece_last (tg_chunk tg) pos e)] hs)"

type_synonym site = "nat \<Rightarrow> headers \<Rightarrow> site_reply result"

definition fetch_piece :: "relay_target \<Rightarrow> int \<Rightarrow> site_reply result \<Rightarrow> site_reply result \<times> relay_target" where
  "fetch_piece tg pos answer =
     (case answer of
        Inl e \<Rightarrow> (Inl e, tg)
      | Inr r \<Rightarrow>
          if rp_status r = 206 then
            (Inr r, case parse_content_range (rp_range r) of Some (_, _, t) \<Rightarrow> tg\<lparr>tg_length := t\<rparr> | None \<Rightarrow> tg)
          else if rp_status r = 200 then
            (Inr r, if 0 < rp_length r \<and> pos = 0 then tg\<lparr>tg_length := rp_length r\<rparr> else tg)
          else if rp_status r = 416 then (Inl (ErrMsg ''past the end of the stream''), tg)
          else (Inl (ErrMsg (''the site answered '' @ rp_text r)), tg))"

text \<open>The copying loop: \<open>body\<close> is the piece at hand, \<open>out\<close> what the player has got.\<close>

partial_function (option) relay_loop ::
  "site \<Rightarrow> int \<Rightarrow> int \<Rightarrow> nat \<Rightarrow> int \<Rightarrow> site_reply \<Rightarrow> string \<Rightarrow> relay_target \<Rightarrow> (string \<times> relay_target) option" where
  "relay_loop site len e n pos body out tg =
     (let out = out @ rp_body body; pos = wrap64 (pos + int (length (rp_body body)))
      in if rp_broken body \<or> len \<le> 0 \<or> e < pos then Some (out, tg)
         else case fetch_piece tg pos (site n (piece_request tg pos e)) of
           (Inl _, tg) \<Rightarrow> Some (out, tg)
         | (Inr nxt, tg) \<Rightarrow> relay_loop site len e (Suc n) pos nxt out tg)"

section \<open>The answer\<close>

record relay_response =
  rs_status :: int
  rs_header :: headers
  rs_body :: string

definition relay_stream :: "site \<Rightarrow> relay_target \<Rightarrow> string \<Rightarrow> string \<Rightarrow> (relay_response \<times> relay_target) option" where
  "relay_stream site tg meth rng =
     (case relay_parse_range rng of
        (s, e, ranged) \<Rightarrow>
          let (s, e) = (if meth = ''HEAD'' then (0, -1) else (s, e))
          in case fetch_piece tg s (site 0 (piece_request tg s e)) of
               (Inl err, tg) \<Rightarrow> Some (\<lparr>rs_status = 502, rs_header = [], rs_body = err_string err @ [CHR 0x0A]\<rparr>, tg)
             | (Inr first, tg) \<Rightarrow>
                 let len = tg_length tg;
                     e = (if e < 0 \<or> 0 < len \<and> len \<le> e then len - 1 else e);
                     part = (ranged \<and> 0 < len);
                     hs = [(''Accept-Ranges'', [''bytes''])] @
                          (if rp_type first \<noteq> [] then [(''Content-Type'', [rp_type first])] else []) @
                          (if 0 < len then [(''Content-Length'', [itoa (wrap64 (e - s + 1))])] else []) @
                          (if part then [(''Content-Range'', [''bytes '' @ itoa s @ ''-'' @ itoa e @ ''/'' @ itoa len])] else []);
                     st = (if part then 206 else 200)
                 in if meth = ''HEAD'' then Some (\<lparr>rs_status = st, rs_header = hs, rs_body = []\<rparr>, tg)
                    else case relay_loop site len e 1 s first [] tg of
                      None \<Rightarrow> None
                    | Some (out, tg) \<Rightarrow> Some (\<lparr>rs_status = st, rs_header = hs, rs_body = out\<rparr>, tg))"

section \<open>Targets\<close>

text \<open>\<open>rl_up\<close>: the server runs. Times are nanoseconds.\<close>

record relay =
  rl_up :: bool
  rl_addr :: string
  rl_targets :: "(string \<times> relay_target) list"

definition link_ttl :: int where "link_ttl = 12 * 3600 * 1000000000"

text \<open>\<open>listened\<close> is what \<^verbatim>\<open>net.Listen\<close> returns, \<open>tok\<close> the random token.\<close>

definition relay_url ::
  "string result \<Rightarrow> int \<Rightarrow> string \<Rightarrow> string \<Rightarrow> string \<Rightarrow> headers \<Rightarrow> string \<Rightarrow> int \<Rightarrow> relay \<Rightarrow> string result \<times> relay" where
  "relay_url listened now tok target name hdr ua chunk r =
     (case (if rl_up r then Inr r
            else case listened of
              Inl e \<Rightarrow> Inl (ErrMsg (''starting the stream relay: '' @ err_string e))
            | Inr a \<Rightarrow> Inr \<lparr>rl_up = True, rl_addr = a, rl_targets = []\<rparr>) of
        Inl e \<Rightarrow> (Inl e, r)
      | Inr r \<Rightarrow>
          let kept = filter (\<lambda>(_, t). \<not> link_ttl < now - tg_created t) (rl_targets r);
              tg = \<lparr>tg_url = target, tg_header = hdr, tg_ua = ua, tg_chunk = chunk, tg_created = now, tg_length = 0\<rparr>
          in (Inr (''http://'' @ rl_addr r @ ''/'' @ tok @ ''/'' @ name), r\<lparr>rl_targets := AList.update tok tg kept\<rparr>))"

definition relay_close :: "relay \<Rightarrow> relay" where
  "relay_close r = r\<lparr>rl_up := False\<rparr>"

definition relay_token :: "string \<Rightarrow> string" where
  "relay_token p = fst (cut (CHR ''/'') (trim_prefix p ''/''))"

definition relay_serve :: "site \<Rightarrow> string \<Rightarrow> string \<Rightarrow> string \<Rightarrow> relay \<Rightarrow> (relay_response \<times> relay) option" where
  "relay_serve site meth p rng r =
     (case map_of (rl_targets r) (relay_token p) of
        None \<Rightarrow> Some (\<lparr>rs_status = 404, rs_header = [], rs_body = ''404 page not found'' @ [CHR 0x0A]\<rparr>, r)
      | Some tg \<Rightarrow>
          (case relay_stream site tg meth rng of
             None \<Rightarrow> None
           | Some (resp, tg) \<Rightarrow> Some (resp, r\<lparr>rl_targets := AList.update (relay_token p) tg (rl_targets r)\<rparr>)))"

end
