(* ===== verification/RelayProps.thy ===== *)
theory RelayProps
  imports Relay
begin

text \<open>
  What the relay gives a player. \<open>slice a b C\<close> are the bytes of \<open>C\<close> from \<open>a\<close> to \<open>b\<close>, both included.
\<close>

definition slice :: "int \<Rightarrow> int \<Rightarrow> string \<Rightarrow> string" where
  "slice a b C = take (nat (b - a + 1)) (drop (nat a) C)"

lemma slice_append:
  assumes "0 \<le> a" and "a \<le> q + 1" and "q \<le> e"
  shows "slice a q C @ slice (q + 1) e C = slice a e C"
proof -
  have "nat (e - a + 1) = nat (q - a + 1) + nat (e - (q + 1) + 1)" using assms by simp
  moreover have "drop (nat (q + 1)) C = drop (nat (q - a + 1)) (drop (nat a) C)" using assms by (simp add: nat_add_distrib [symmetric])
  ultimately show ?thesis by (simp only: slice_def take_add)
qed

lemma slice_length: "0 \<le> a \<Longrightarrow> a \<le> b + 1 \<Longrightarrow> b < int (length C) \<Longrightarrow> int (length (slice a b C)) = b - a + 1"
  by (simp add: slice_def)

lemma slice_all: "slice 0 (int (length C) - 1) C = C"
  by (simp add: slice_def)

section \<open>Reading back ranges\<close>

lemma itoa_nonneg: "0 \<le> i \<Longrightarrow> itoa i = nat_digits (nat i)"
  by (simp add: itoa_def)

lemma itoa_free: "0 \<le> i \<Longrightarrow> \<not> (48 \<le> (of_char c :: nat) \<and> (of_char c :: nat) \<le> 57) \<Longrightarrow> c \<notin> set (itoa i)"
  by (simp add: itoa_nonneg nat_digits_free)

lemma itoa_marks [simp]:
  "0 \<le> i \<Longrightarrow> CHR ''-'' \<notin> set (itoa i)" "0 \<le> i \<Longrightarrow> CHR ''/'' \<notin> set (itoa i)" "0 \<le> i \<Longrightarrow> CHR '','' \<notin> set (itoa i)"
  by (rule itoa_free; simp)+

lemma relay_parse_range_shown:
  assumes "0 \<le> a" and "a \<le> b" and "in_int64 b"
  shows "relay_parse_range (''bytes='' @ itoa a @ ''-'' @ itoa b) = (a, b, True)"
proof -
  have a: "in_int64 a" using assms by (simp add: in_int64_def int64_min_def)
  have c: "cut (CHR ''-'') (itoa a @ CHR ''-'' # itoa b) = (itoa a, itoa b, True)"
    by (rule cut_found) (simp add: assms)
  have "\<not> list_ex (\<lambda>c. c = CHR '','') (itoa a @ ''-'' @ itoa b)"
    using itoa_marks(3) [of a] itoa_marks(3) [of b] assms by (auto simp: list_ex_iff)
  then show ?thesis
    using assms a c by (simp add: relay_parse_range_def trim_prefix_def)
qed

lemma relay_parse_range_open:
  assumes "0 \<le> a" and "in_int64 a"
  shows "relay_parse_range (''bytes='' @ itoa a @ ''-'') = (a, -1, True)"
proof -
  have c: "cut (CHR ''-'') (itoa a @ [CHR ''-'']) = (itoa a, [], True)"
    by (rule cut_found) (simp add: assms)
  have "\<not> list_ex (\<lambda>c. c = CHR '','') (itoa a @ ''-'')"
    using itoa_marks(3) [of a] assms by (auto simp: list_ex_iff)
  then show ?thesis using assms c by (simp add: relay_parse_range_def trim_prefix_def)
qed

lemma parse_content_range_shown:
  assumes "0 \<le> a" and "a \<le> b" and "b < t" and "in_int64 t"
  shows "parse_content_range (''bytes '' @ itoa a @ ''-'' @ itoa b @ ''/'' @ itoa t) = Some (a, b, t)"
proof -
  have i: "in_int64 a" "in_int64 b" using assms by (simp_all add: in_int64_def int64_min_def int64_max_def)
  have "cut (CHR ''/'') ((itoa a @ ''-'' @ itoa b) @ CHR ''/'' # itoa t) = (itoa a @ ''-'' @ itoa b, itoa t, True)"
    by (rule cut_found) (use assms in simp)
  moreover have "cut (CHR ''-'') (itoa a @ CHR ''-'' # itoa b) = (itoa a, itoa b, True)"
    by (rule cut_found) (simp add: assms)
  ultimately show ?thesis using i assms by (simp add: parse_content_range_def trim_prefix_def)
qed

lemma relay_parse_range_cases:
  "relay_parse_range h = (a, b, r) \<Longrightarrow> 0 \<le> a \<and> (b = -1 \<or> a \<le> b) \<and> (\<not> r \<longrightarrow> a = 0 \<and> b = -1) \<and> in_int64 a \<and> in_int64 b"
  by (auto simp: relay_parse_range_def Let_def in_int64_def int64_min_def int64_max_def dest: atoi_range
      split: if_splits prod.splits option.splits)

section \<open>An honest site\<close>

text \<open>It has the content and answers ranges, whatever else it says.\<close>

definition honest_piece :: "string \<Rightarrow> int \<Rightarrow> int \<Rightarrow> site_reply \<Rightarrow> bool" where
  "honest_piece C pos l r \<longleftrightarrow>
     rp_status r = 206 \<and> rp_range r = ''bytes '' @ itoa pos @ ''-'' @ itoa l @ ''/'' @ itoa (int (length C)) \<and>
     rp_body r = slice pos l C \<and> \<not> rp_broken r"

definition honest :: "string \<Rightarrow> site \<Rightarrow> relay_target \<Rightarrow> bool" where
  "honest C site tg \<longleftrightarrow>
     (\<forall>n pos e. 0 \<le> pos \<longrightarrow> pos < int (length C) \<longrightarrow> pos \<le> piece_last (tg_chunk tg) pos e \<longrightarrow>
        (\<exists>r. site n (piece_request tg pos e) = Inr r \<and>
             honest_piece C pos (min (piece_last (tg_chunk tg) pos e) (int (length C) - 1)) r))"

lemma piece_request_length [simp]: "piece_request (tg\<lparr>tg_length := x\<rparr>) = piece_request tg"
  by (cases tg) (simp add: fun_eq_iff piece_request_def Let_def)

lemma honest_length [simp]: "honest C site (tg\<lparr>tg_length := x\<rparr>) = honest C site tg"
  by (simp add: honest_def)

lemma piece_last_bounds:
  assumes "0 \<le> pos" and "0 < chunk" and "pos < n" and "chunk + n \<le> int64_max" and "e < 0 \<or> pos \<le> e"
  shows "pos \<le> piece_last chunk pos e" and "0 \<le> e \<Longrightarrow> piece_last chunk pos e \<le> e"
proof -
  have "wrap64 (pos + chunk - 1) = pos + chunk - 1"
    using assms by (intro wrap64_id) (simp add: in_int64_def int64_min_def)
  then show "pos \<le> piece_last chunk pos e" and "0 \<le> e \<Longrightarrow> piece_last chunk pos e \<le> e"
    using assms by (auto simp: piece_last_def Let_def)
qed

lemma fetch_honest:
  assumes "honest_piece C pos l r" and "0 \<le> pos" and "pos \<le> l" and "l < int (length C)" and "in_int64 (int (length C))"
  shows "fetch_piece tg pos (Inr r) = (Inr r, tg\<lparr>tg_length := int (length C)\<rparr>)"
  using assms parse_content_range_shown [of pos l "int (length C)"]
  by (simp add: fetch_piece_def honest_piece_def)

lemma relay_loop_rest:
  assumes "honest C site tg" and "0 < tg_chunk tg" and "tg_chunk tg + int (length C) \<le> int64_max"
    and "tg_length tg = int (length C)" and "0 \<le> pos" and "pos \<le> q" and "q \<le> e" and "e < int (length C)"
    and "rp_body body = slice pos q C" and "\<not> rp_broken body"
  shows "relay_loop site (int (length C)) e n pos body out tg = Some (out @ slice pos e C, tg)"
  using assms(5-)
proof (induction "nat (e - q)" arbitrary: n pos q body out rule: less_induct)
  case less
  let ?len = "int (length C)" and ?l = "min (piece_last (tg_chunk tg) (q + 1) e) (int (length C) - 1)"
  have lb: "int (length (rp_body body)) = q - pos + 1" using less.prems by (simp add: slice_length)
  have i64: "in_int64 ?len" using assms(2,3) by (simp add: in_int64_def int64_min_def)
  have "in_int64 (q + 1)" using less.prems i64 by (simp add: in_int64_def int64_min_def)
  then have pos': "wrap64 (pos + int (length (slice pos q C))) = q + 1" using lb less.prems(5) by simp
  have len0: "0 < ?len" using less.prems by linarith
  show ?case
  proof (cases "e < q + 1")
    case True
    then have "q = e" using less.prems by simp
    then show ?thesis using less.prems True by (subst relay_loop.simps) (simp add: pos' Let_def)
  next
    case False
    have pl: "q + 1 \<le> piece_last (tg_chunk tg) (q + 1) e" "piece_last (tg_chunk tg) (q + 1) e \<le> e"
      using piece_last_bounds [of "q + 1" "tg_chunk tg" ?len e] assms(2,3) less.prems False by auto
    then have l: "q + 1 \<le> ?l" "?l \<le> e" "?l < ?len" using less.prems False by auto
    have "0 \<le> q + 1" "q + 1 < ?len" using less.prems False by simp_all
    then obtain r where r: "site n (piece_request tg (q + 1) e) = Inr r" "honest_piece C (q + 1) ?l r"
      using assms(1) pl unfolding honest_def by blast
    have f: "fetch_piece tg (q + 1) (Inr r) = (Inr r, tg)"
      using fetch_honest [OF r(2) _ l(1,3) i64] less.prems(1,2) assms(4) [symmetric] by simp
    have "relay_loop site ?len e (Suc n) (q + 1) r (out @ slice pos q C) tg = Some ((out @ slice pos q C) @ slice (q + 1) e C, tg)"
    proof (rule less.hyps [OF _ _ l(1,2)])
      show "nat (e - ?l) < nat (e - q)" using l False by simp
    qed (use less.prems r(2) in \<open>auto simp: honest_piece_def\<close>)
    then show ?thesis
      using less.prems False len0 slice_append [of pos q e C] by (subst relay_loop.simps) (simp add: pos' r(1) f Let_def)
  qed
qed

text \<open>C18: a player gets the bytes it asked for, in whatever pieces they were fetched: for every range of
  a stream whose site answers ranges, the relay's answer is the whole range, with its length.\<close>

theorem relay_gives_the_range:
  assumes "honest C site tg" and "0 < tg_chunk tg" and "tg_chunk tg + int (length C) \<le> int64_max"
    and "relay_parse_range rng = (a, b, ranged)" and "a < int (length C)"
    and "e = (if b < 0 \<or> int (length C) \<le> b then int (length C) - 1 else b)"
  shows "\<exists>hs. relay_stream site tg ''GET'' rng =
      Some (\<lparr>rs_status = (if ranged then 206 else 200), rs_header = hs, rs_body = slice a e C\<rparr>, tg\<lparr>tg_length := int (length C)\<rparr>) \<and>
    map_of hs ''Content-Length'' = Some [itoa (int (length (slice a e C)))] \<and>
    (ranged \<longrightarrow> map_of hs ''Content-Range'' = Some [''bytes '' @ itoa a @ ''-'' @ itoa e @ ''/'' @ itoa (int (length C))])"
proof -
  let ?len = "int (length C)" and ?l = "min (piece_last (tg_chunk tg) a b) (int (length C) - 1)"
  note c = relay_parse_range_cases [OF assms(4)]
  have i64: "in_int64 ?len" using assms(2,3) by (simp add: in_int64_def int64_min_def)
  have e: "a \<le> e" "e < ?len" using assms(5,6) c by auto
  have "0 \<le> a" using c by simp
  have pl: "a \<le> piece_last (tg_chunk tg) a b"
    using piece_last_bounds(1) [of a "tg_chunk tg" ?len b] assms(2,3,5) c by auto
  then obtain r where r: "site 0 (piece_request tg a b) = Inr r" "honest_piece C a ?l r"
    using assms(1,5) \<open>0 \<le> a\<close> unfolding honest_def by blast
  have l: "a \<le> ?l" "?l \<le> e" "?l < ?len"
    using pl piece_last_bounds(2) [of a "tg_chunk tg" ?len b] assms(2,3,5,6) c by auto
  let ?tg = "tg\<lparr>tg_length := ?len\<rparr>"
  have f: "fetch_piece tg a (Inr r) = (Inr r, ?tg)"
    using fetch_honest [OF r(2) _ l(1,3) i64] c by simp
  have "relay_loop site ?len e 1 a r [] ?tg = Some ([] @ slice a e C, ?tg)"
    by (rule relay_loop_rest [where q = ?l]) (use assms(1-3) c l e r(2) in \<open>auto simp: honest_piece_def\<close>)
  moreover have "wrap64 (e - a + 1) = int (length (slice a e C))"
    using e c i64 by (simp add: slice_length in_int64_def int64_min_def)
  ultimately show ?thesis
    using assms(5,6) c r(1) f e by (auto simp: relay_stream_def assms(4) Let_def)
qed

text \<open>A site that answers ranges of \<open>C\<close>.\<close>

definition serves_ranges :: "string \<Rightarrow> site" where
  "serves_ranges C n hs =
     (case relay_parse_range (header_get ''Range'' hs) of
        (a, b, _) \<Rightarrow>
          let l = min b (int (length C) - 1)
          in Inr \<lparr>rp_status = 206, rp_text = ''206 Partial Content'',
               rp_range = ''bytes '' @ itoa a @ ''-'' @ itoa l @ ''/'' @ itoa (int (length C)),
               rp_length = l - a + 1, rp_type = ''video/mp4'', rp_body = slice a l C, rp_broken = False\<rparr>)"

definition sample_target :: "int \<Rightarrow> relay_target" where
  "sample_target chunk =
     \<lparr>tg_url = ''https://site/v'', tg_header = [], tg_ua = ''agent'', tg_chunk = chunk, tg_created = 0, tg_length = 0\<rparr>"

lemma serves_ranges_honest:
  assumes "int (length C) \<le> int64_max" 
  shows "honest C (serves_ranges C) tg"
proof (unfold honest_def, intro allI impI)
  fix n pos e
  let ?l = "piece_last (tg_chunk tg) pos e"
  assume pos: "(0::int) \<le> pos" "pos < int (length C)" "pos \<le> ?l"
  have "in_int64 (wrap64 (pos + tg_chunk tg - 1))" by (rule wrap64_range)
  then have "in_int64 ?l" using pos by (auto simp: piece_last_def Let_def in_int64_def int64_min_def)
  then have "relay_parse_range (''bytes='' @ itoa pos @ ''-'' @ itoa ?l) = (pos, ?l, True)"
    using pos by (intro relay_parse_range_shown)
  then show "\<exists>r. serves_ranges C n (piece_request tg pos e) = Inr r \<and> honest_piece C pos (min ?l (int (length C) - 1)) r"
    by (simp add: serves_ranges_def honest_piece_def header_get_def piece_request_def Let_def)
qed

theorem relay_gives_the_range_witness:
  "slice 1 6 ''abcdefgh'' = ''bcdefg'' \<and>
   (\<exists>hs. relay_stream (serves_ranges ''abcdefgh'') (sample_target 3) ''GET'' ''bytes=1-6'' =
      Some (\<lparr>rs_status = 206, rs_header = hs, rs_body = ''bcdefg''\<rparr>, (sample_target 3)\<lparr>tg_length := 8\<rparr>))"
proof -
  have h: "honest ''abcdefgh'' (serves_ranges ''abcdefgh'') (sample_target 3)"
    by (rule serves_ranges_honest) (simp add: int64_max_def)
  have r: "relay_parse_range ''bytes=1-6'' = (1, 6, True)"
    by code_simp
  have s: "slice 1 6 ''abcdefgh'' = ''bcdefg''" by (simp add: slice_def)
  show ?thesis
    using relay_gives_the_range [OF h _ _ r, of 6] s by (auto simp: sample_target_def int64_max_def)
qed

section \<open>Sites that are not honest\<close>

text \<open>A site that answers one range, and then the whole file, spoils the stream: the whole file is
  taken for the next piece.\<close>

definition forgets_ranges :: "string \<Rightarrow> site" where
  "forgets_ranges C n hs =
     (if n = 0 then serves_ranges C n hs
      else Inr \<lparr>rp_status = 200, rp_text = ''200 OK'', rp_range = [], rp_length = int (length C), rp_type = [],
             rp_body = C, rp_broken = False\<rparr>)"

lemma full_answer_in_the_middle:
  "map_option (rs_body \<circ> fst) (relay_stream (forgets_ranges ''abcdef'') (sample_target 3) ''GET'' []) = Some ''abcabcdef''"
proof -
  let ?S = "forgets_ranges ''abcdef''" and ?t = "sample_target 3"
  have p: "relay_parse_range [] = (0, -1, False)" by code_simp
  have f: "fetch_piece ?t 0 (?S 0 (piece_request ?t 0 (-1))) =
      (Inr \<lparr>rp_status = 206, rp_text = ''206 Partial Content'', rp_range = ''bytes 0-2/6'', rp_length = 3,
            rp_type = ''video/mp4'', rp_body = ''abc'', rp_broken = False\<rparr>, ?t\<lparr>tg_length := 6\<rparr>)" by code_simp
  have g: "fetch_piece (?t\<lparr>tg_length := 6\<rparr>) 3 (?S (Suc 0) (piece_request ?t 3 5)) =
      (Inr \<lparr>rp_status = 200, rp_text = ''200 OK'', rp_range = [], rp_length = 6,
            rp_type = [], rp_body = ''abcdef'', rp_broken = False\<rparr>, ?t\<lparr>tg_length := 6\<rparr>)" by code_simp
  have w: "wrap64 3 = 3" "wrap64 9 = 9" by (simp_all add: wrap64_def)
  have "relay_loop ?S 6 5 1 0 \<lparr>rp_status = 206, rp_text = ''206 Partial Content'', rp_range = ''bytes 0-2/6'', rp_length = 3,
            rp_type = ''video/mp4'', rp_body = ''abc'', rp_broken = False\<rparr> [] (?t\<lparr>tg_length := 6\<rparr>) = Some (''abcabcdef'', ?t\<lparr>tg_length := 6\<rparr>)"
    by (subst relay_loop.simps) (subst relay_loop.simps, simp add: g w Let_def)
  then show ?thesis by (simp add: relay_stream_def p f Let_def)
qed

text \<open>A site that does not tell the size cuts the stream after one piece, and what a player asked for
  from the middle comes as if it were the beginning.\<close>

definition hides_the_size :: "string \<Rightarrow> site" where
  "hides_the_size C n hs = map_sum id (\<lambda>r. r\<lparr>rp_range := ''bytes 0-0/*''\<rparr>) (serves_ranges C n hs)"

lemma unknown_size_is_cut:
  "relay_stream (hides_the_size ''abcdefgh'') (sample_target 3) ''GET'' ''bytes=2-7'' =
     Some (\<lparr>rs_status = 200, rs_header = [(''Accept-Ranges'', [''bytes'']), (''Content-Type'', [''video/mp4''])],
            rs_body = ''cde''\<rparr>, sample_target 3)"
proof -
  let ?S = "hides_the_size ''abcdefgh''" and ?t = "sample_target 3"
  have p: "relay_parse_range ''bytes=2-7'' = (2, 7, True)" by code_simp
  have f: "fetch_piece ?t 2 (?S 0 (piece_request ?t 2 7)) =
      (Inr \<lparr>rp_status = 206, rp_text = ''206 Partial Content'', rp_range = ''bytes 0-0/*'', rp_length = 3,
            rp_type = ''video/mp4'', rp_body = ''cde'', rp_broken = False\<rparr>, ?t)" by code_simp
  show ?thesis
    by (simp add: relay_stream_def p f Let_def, subst relay_loop.simps) (simp add: sample_target_def)
qed

text \<open>A site that answers with empty pieces is asked again without end.\<close>

definition empty_piece :: "int \<Rightarrow> site_reply" where
  "empty_piece n = \<lparr>rp_status = 206, rp_text = ''206 Partial Content'', rp_range = ''bytes 0-0/'' @ itoa n, rp_length = 0,
     rp_type = [], rp_body = [], rp_broken = False\<rparr>"

lemma empty_pieces_never_end:
  assumes "0 < len" and "in_int64 len" and "0 \<le> pos" and "pos \<le> e" and "in_int64 pos" and "tg_length tg = len"
  shows "relay_loop (\<lambda>_ _. Inr (empty_piece len)) len e n pos (empty_piece len) out tg = None"
proof -
  have z: "itoa 0 = ''0''" by code_simp
  have pc: "parse_content_range (''bytes 0-0/'' @ itoa len) = Some (0, 0, len)"
    using parse_content_range_shown [of 0 0 len] assms z by simp
  have f: "fetch_piece tg pos (Inr (empty_piece len)) = (Inr (empty_piece len), tg)"
    using pc assms(6) by (simp add: fetch_piece_def empty_piece_def)
  let ?S = "\<lambda>(_ :: nat) (_ :: headers). Inr (empty_piece len) :: site_reply result"
  let ?P = "\<lambda>site l e' (n' :: nat) pos' body (out' :: string) tg' (y :: string \<times> relay_target).
    site = ?S \<and> l = len \<and> e' = e \<and> pos' = pos \<and> body = empty_piece len \<and> tg' = tg \<longrightarrow> False"
  have "?P ?S len e n pos (empty_piece len) out tg y" if "relay_loop ?S len e n pos (empty_piece len) out tg = Some y" for y
    using that
  proof (rule relay_loop.raw_induct [where P = ?P, rotated])
    fix rec :: "site \<Rightarrow> int \<Rightarrow> int \<Rightarrow> nat \<Rightarrow> int \<Rightarrow> site_reply \<Rightarrow> string \<Rightarrow> relay_target \<Rightarrow> (string \<times> relay_target) option"
      and site :: site and l e' n' pos' and body :: site_reply and out' and tg' :: relay_target and y
    assume h: "\<And>site l e' n' pos' body out' tg' y. rec site l e' n' pos' body out' tg' = Some y \<Longrightarrow>
          ?P site l e' n' pos' body out' tg' y"
      and r: "(let out = out' @ rp_body body; pos = wrap64 (pos' + int (length (rp_body body)))
         in if rp_broken body \<or> l \<le> 0 \<or> e' < pos then Some (out, tg')
            else case fetch_piece tg' pos (site n' (piece_request tg' pos e')) of
              (Inl _, tg) \<Rightarrow> Some (out, tg) | (Inr nxt, tg) \<Rightarrow> rec site l e' (Suc n') pos nxt out tg) = Some y"
    show "?P site l e' n' pos' body out' tg' y"
    proof
      assume "site = ?S \<and> l = len \<and> e' = e \<and> pos' = pos \<and> body = empty_piece len \<and> tg' = tg"
      then have "rec ?S len e (Suc n') pos (empty_piece len) out' tg = Some y"
        using r assms f by (auto simp: empty_piece_def Let_def)
      from h [OF this] show False by simp
    qed
  qed
  then show ?thesis by (metis not_None_eq)
qed

end
