(* ===== verification/Broadcast.thy ===== *)
theory Broadcast
  imports GoStrings
begin

text \<open>
  \<^verbatim>\<open>internal/webui/events.go\<close>: the feed of the web page. Any number of open tabs subscribe to one
  \<^verbatim>\<open>Broadcaster\<close>, whose goroutine produces a payload on every tick. A channel holds one payload. The
  functions are the critical sections under the mutex; the goroutine produces outside of it, so a
  step relation interleaves them. What \<^verbatim>\<open>produce\<close> returns is an argument of the steps.
\<close>

section \<open>Channels of one payload\<close>

text \<open>Sending to a full channel would block: \<open>None\<close>.\<close>

definition chan_send :: "string \<Rightarrow> string option \<Rightarrow> string option option" where
  "chan_send p c = (case c of None \<Rightarrow> Some (Some p) | Some _ \<Rightarrow> None)"

definition chan_drop :: "string option \<Rightarrow> string option" where
  "chan_drop c = None"

section \<open>The broadcaster\<close>

text \<open>Channels and goroutines are numbered. A goroutine waits for its tick, or has produced a payload it
  is about to publish, or has returned.\<close>

datatype runner = Ticking | Holding string | Stopped

record broadcaster =
  b_subs :: "(nat \<times> string option) list"
  b_last :: string
  b_runners :: "(nat \<times> runner) list"
  b_open :: "nat list"
  b_stop :: nat
  b_blocked :: bool

definition new_broadcaster :: broadcaster where
  "new_broadcaster = \<lparr>b_subs = [], b_last = [], b_runners = [], b_open = [], b_stop = 0, b_blocked = False\<rparr>"

text \<open>\<^verbatim>\<open>Subscribe\<close> makes the channel \<open>ch\<close>; \<open>now\<close> is what \<^verbatim>\<open>produce\<close> returns, and \<open>g\<close> the number of the
  goroutine's stop channel.\<close>

definition bc_start :: "string \<Rightarrow> nat \<Rightarrow> broadcaster \<Rightarrow> broadcaster" where
  "bc_start now g b =
     (if length (b_subs b) = 1
      then b\<lparr>b_last := now, b_stop := g, b_open := g # b_open b, b_runners := AList.update g Ticking (b_runners b)\<rparr>
      else b)"

definition bc_offer :: "nat \<Rightarrow> string \<Rightarrow> broadcaster \<Rightarrow> broadcaster" where
  "bc_offer ch p b =
     (case map_of (b_subs b) ch of
        None \<Rightarrow> b
      | Some c \<Rightarrow> (case chan_send p c of
            None \<Rightarrow> b\<lparr>b_blocked := True\<rparr>
          | Some c \<Rightarrow> b\<lparr>b_subs := AList.update ch c (b_subs b)\<rparr>))"

definition bc_subscribe :: "string \<Rightarrow> nat \<Rightarrow> nat \<Rightarrow> broadcaster \<Rightarrow> broadcaster" where
  "bc_subscribe now g ch b =
     (let b = bc_start now g (b\<lparr>b_subs := AList.update ch None (b_subs b)\<rparr>) in bc_offer ch (b_last b) b)"

definition bc_cancel :: "nat \<Rightarrow> broadcaster \<Rightarrow> broadcaster" where
  "bc_cancel ch b =
     (if map_of (b_subs b) ch = None then b
      else
        let b = b\<lparr>b_subs := AList.delete ch (b_subs b)\<rparr>
        in if b_subs b = [] then b\<lparr>b_open := removeAll (b_stop b) (b_open b)\<rparr> else b)"

text \<open>Publishing: every channel is emptied, and then sent to.\<close>

definition bc_publish_one :: "string \<Rightarrow> nat \<Rightarrow> broadcaster \<Rightarrow> broadcaster" where
  "bc_publish_one p ch b =
     bc_offer ch p (b\<lparr>b_subs := map (\<lambda>(k, c). if k = ch then (k, chan_drop c) else (k, c)) (b_subs b)\<rparr>)"

definition bc_publish :: "string \<Rightarrow> broadcaster \<Rightarrow> broadcaster" where
  "bc_publish p b =
     (if p = b_last b then b else fold (bc_publish_one p) (map fst (b_subs b)) (b\<lparr>b_last := p\<rparr>))"

definition set_runner :: "nat \<Rightarrow> runner \<Rightarrow> broadcaster \<Rightarrow> broadcaster" where
  "set_runner g r b = b\<lparr>b_runners := AList.update g r (b_runners b)\<rparr>"

section \<open>Steps\<close>

text \<open>\<open>s_seen\<close> is the payload each subscriber read last. A tick may come before the goroutine sees that
  it was stopped.\<close>

record feed =
  f_bc :: broadcaster
  f_seen :: "nat \<Rightarrow> string option"

definition fresh_sub :: "nat \<Rightarrow> nat \<Rightarrow> feed \<Rightarrow> bool" where
  "fresh_sub ch g f \<longleftrightarrow> ch \<notin> keys_of (b_subs (f_bc f)) \<and> f_seen f ch = None \<and> g \<notin> keys_of (b_runners (f_bc f))"

inductive feed_step :: "feed \<Rightarrow> feed \<Rightarrow> bool" where
  subscribe: "fresh_sub ch g f \<Longrightarrow> feed_step f (f\<lparr>f_bc := bc_subscribe now g ch (f_bc f)\<rparr>)"
| cancel: "feed_step f (f\<lparr>f_bc := bc_cancel ch (f_bc f)\<rparr>)"
| tick: "map_of (b_runners (f_bc f)) g = Some Ticking \<Longrightarrow> feed_step f (f\<lparr>f_bc := set_runner g (Holding p) (f_bc f)\<rparr>)"
| stopped: "map_of (b_runners (f_bc f)) g = Some Ticking \<Longrightarrow> g \<notin> set (b_open (f_bc f)) \<Longrightarrow>
    feed_step f (f\<lparr>f_bc := set_runner g Stopped (f_bc f)\<rparr>)"
| publish: "map_of (b_runners (f_bc f)) g = Some (Holding p) \<Longrightarrow>
    feed_step f (f\<lparr>f_bc := set_runner g Ticking (bc_publish p (f_bc f))\<rparr>)"
| receive: "map_of (b_subs (f_bc f)) ch = Some (Some p) \<Longrightarrow>
    feed_step f (f\<lparr>f_bc := (f_bc f)\<lparr>b_subs := AList.update ch None (b_subs (f_bc f))\<rparr>, f_seen := (f_seen f)(ch := Some p)\<rparr>)"

definition feed_start :: feed where
  "feed_start = \<lparr>f_bc = new_broadcaster, f_seen = (\<lambda>_. None)\<rparr>"

section \<open>Server-sent events\<close>

text \<open>\<^verbatim>\<open>ServeEvents\<close>: what the loop writes when a payload or the keep-alive comes.\<close>

definition sse_frame :: "string option \<Rightarrow> string" where
  "sse_frame p = (case p of Some p \<Rightarrow> ''data: '' @ p @ [CHR 0x0A, CHR 0x0A] | None \<Rightarrow> '': keep-alive'' @ [CHR 0x0A, CHR 0x0A])"

definition serve_events :: "string option list \<Rightarrow> string" where
  "serve_events ps = concat (map sse_frame ps)"

section \<open>Every tab has the latest payload\<close>

definition chan_ok :: "string \<Rightarrow> string option \<Rightarrow> string option \<Rightarrow> bool" where
  "chan_ok latest seen c \<longleftrightarrow> c = Some latest \<or> c = None \<and> seen = Some latest"

lemma chan_ok_simps [simp]: "chan_ok latest seen (Some p) \<longleftrightarrow> p = latest" "chan_ok latest seen None \<longleftrightarrow> seen = Some latest"
  by (simp_all add: chan_ok_def)

definition running :: "runner option \<Rightarrow> bool" where
  "running r \<longleftrightarrow> r \<noteq> None \<and> r \<noteq> Some Stopped"

lemma running_simps [simp]: "running (Some Ticking)" "running (Some (Holding p))" "\<not> running None" "\<not> running (Some Stopped)"
  by (simp_all add: running_def)

definition feed_inv :: "feed \<Rightarrow> bool" where
  "feed_inv f \<longleftrightarrow>
     (let b = f_bc f
      in wf_map (b_subs b) \<and> \<not> b_blocked b \<and>
         (\<forall>ch c. map_of (b_subs b) ch = Some c \<longrightarrow> chan_ok (b_last b) (f_seen f ch) c) \<and>
         b_open b = (if b_subs b = [] then [] else [b_stop b]) \<and>
         (b_subs b \<noteq> [] \<longrightarrow> running (map_of (b_runners b) (b_stop b))))"

lemma keys_empty: "b_subs b = [] \<longleftrightarrow> keys_of (b_subs b) = {}"
  by (auto simp: keys_of_def)

lemma map_of_dropped:
  "map_of (map (\<lambda>(k, c). if k = ch then (k, chan_drop c) else (k, c)) xs) k' =
     (if k' = ch then map_option (\<lambda>_. None) (map_of xs ch) else map_of xs k')"
  by (induction xs) (auto simp: chan_drop_def)

lemma keys_dropped: "map fst (map (\<lambda>(k, c). if k = ch then (k, chan_drop c) else (k, c)) xs) = map fst xs"
  by (induction xs) auto

lemma publish_one:
  assumes "ch \<in> keys_of (b_subs b)"
  shows "\<exists>subs. bc_publish_one p ch b = b\<lparr>b_subs := subs\<rparr> \<and> map_of subs = (map_of (b_subs b))(ch \<mapsto> Some p) \<and>
    (wf_map (b_subs b) \<longrightarrow> wf_map subs)"
proof -
  obtain c where "map_of (b_subs b) ch = Some c" using assms keys_of_map_of [of ch "b_subs b"] by auto
  moreover have "wf_map (b_subs b) \<Longrightarrow> wf_map (map (\<lambda>(k, c). if k = ch then (k, chan_drop c) else (k, c)) (b_subs b))"
    unfolding wf_map_def keys_dropped .
  ultimately show ?thesis
    by (auto simp: bc_publish_one_def bc_offer_def chan_send_def map_of_dropped fun_eq_iff
        intro!: exI [of _ "AList.update ch (Some p) (map (\<lambda>(k, c). if k = ch then (k, chan_drop c) else (k, c)) (b_subs b))"])
qed

lemma publish_fold:
  assumes "set ks \<subseteq> keys_of (b_subs b)"
  shows "\<exists>subs. fold (bc_publish_one p) ks b = b\<lparr>b_subs := subs\<rparr> \<and>
    (\<forall>k. map_of subs k = (if k \<in> set ks then Some (Some p) else map_of (b_subs b) k)) \<and> (wf_map (b_subs b) \<longrightarrow> wf_map subs)"
  using assms
proof (induction ks arbitrary: b)
  case Nil
  then show ?case by (auto intro!: exI [of _ "b_subs b"])
next
  case (Cons k ks)
  obtain subs where s: "bc_publish_one p k b = b\<lparr>b_subs := subs\<rparr>" "map_of subs = (map_of (b_subs b))(k \<mapsto> Some p)"
      "wf_map (b_subs b) \<longrightarrow> wf_map subs"
    using publish_one [of k b p] Cons.prems by auto
  have "set ks \<subseteq> keys_of (b_subs (b\<lparr>b_subs := subs\<rparr>))"
    using Cons.prems s(2) by (auto simp: keys_of_map_of subset_eq)
  from Cons.IH [OF this] show ?case using s by auto
qed

lemma bc_publish_subs:
  "\<exists>subs. bc_publish p b = b\<lparr>b_last := p, b_subs := subs\<rparr> \<and> (wf_map (b_subs b) \<longrightarrow> wf_map subs) \<and>
    (\<forall>k. map_of subs k = (if p \<noteq> b_last b \<and> k \<in> keys_of (b_subs b) then Some (Some p) else map_of (b_subs b) k))"
proof (cases "p = b_last b")
  case True
  then show ?thesis by (auto simp: bc_publish_def intro!: exI [of _ "b_subs b"])
next
  case False
  have "set (map fst (b_subs b)) = keys_of (b_subs b)" by (simp add: keys_of_def)
  then show ?thesis
    using publish_fold [of "map fst (b_subs b)" "b\<lparr>b_last := p\<rparr>" p] False by (auto simp: bc_publish_def)
qed

lemma keys_of_cong: "(\<forall>k. map_of xs k = None \<longleftrightarrow> map_of ys k = None) \<Longrightarrow> keys_of xs = keys_of ys"
  by (auto simp: keys_of_map_of set_eq_iff)

lemma publish_inv:
  assumes "feed_inv f" and "map_of (b_runners (f_bc f)) g = Some (Holding p)"
  shows "feed_inv (f\<lparr>f_bc := set_runner g Ticking (bc_publish p (f_bc f))\<rparr>)"
proof -
  let ?b = "f_bc f"
  obtain subs where s: "bc_publish p ?b = ?b\<lparr>b_last := p, b_subs := subs\<rparr>" "wf_map (b_subs ?b) \<longrightarrow> wf_map subs"
      "\<And>k. map_of subs k = (if p \<noteq> b_last ?b \<and> k \<in> keys_of (b_subs ?b) then Some (Some p) else map_of (b_subs ?b) k)"
    using bc_publish_subs by metis
  have "keys_of subs = keys_of (b_subs ?b)"
    by (rule keys_of_cong) (auto simp: s(3) keys_of_map_of)
  then have e: "subs = [] \<longleftrightarrow> b_subs ?b = []" by (auto simp: keys_of_def)
  show ?thesis
    using assms s(2,3) e by (auto simp: feed_inv_def Let_def s(1) set_runner_def keys_of_map_of split: if_splits option.splits)
qed

lemma bc_subscribe_eq:
  assumes "ch \<notin> keys_of (b_subs b)"
  shows "bc_subscribe now g ch b =
    (if b_subs b = []
     then b\<lparr>b_last := now, b_stop := g, b_open := g # b_open b, b_runners := AList.update g Ticking (b_runners b), b_subs := [(ch, Some now)]\<rparr>
     else b\<lparr>b_subs := AList.update ch (Some (b_last b)) (AList.update ch None (b_subs b))\<rparr>)"
proof (cases "b_subs b = []")
  case True
  then show ?thesis by (cases b) (simp add: bc_subscribe_def bc_start_def bc_offer_def chan_send_def Let_def)
next
  case False
  then have "length (AList.update ch None (b_subs b)) \<noteq> 1" using assms by (simp add: length_update)
  then show ?thesis using False by (simp add: bc_subscribe_def bc_start_def bc_offer_def chan_send_def Let_def)
qed

lemma start_inv:
  assumes "feed_inv f" and "fresh_sub ch g f"
  shows "feed_inv (f\<lparr>f_bc := bc_subscribe now g ch (f_bc f)\<rparr>)"
proof (cases "b_subs (f_bc f) = []")
  case True
  then show ?thesis using assms by (simp add: fresh_sub_def bc_subscribe_eq feed_inv_def Let_def wf_map_def)
next
  case False
  then show ?thesis using assms by (simp add: fresh_sub_def bc_subscribe_eq feed_inv_def Let_def)
qed

lemma cancel_inv:
  assumes "feed_inv f"
  shows "feed_inv (f\<lparr>f_bc := bc_cancel ch (f_bc f)\<rparr>)"
  using assms by (auto simp: feed_inv_def Let_def bc_cancel_def split: if_splits option.splits)

lemma feed_inv_step: "feed_step f f' \<Longrightarrow> feed_inv f \<Longrightarrow> feed_inv f'"
proof (induction rule: feed_step.induct)
  case (subscribe ch g f now)
  then show ?case by (rule start_inv [rotated])
next
  case (cancel f ch)
  then show ?case by (rule cancel_inv)
next
  case (tick f g p)
  then show ?case by (auto simp: feed_inv_def Let_def set_runner_def)
next
  case (stopped f g)
  then show ?case by (auto simp: feed_inv_def Let_def set_runner_def split: if_splits)
next
  case (publish f g p)
  then show ?case by (intro publish_inv)
next
  case (receive f ch p)
  then have "b_subs (f_bc f) \<noteq> []" and "chan_ok (b_last (f_bc f)) (f_seen f ch) (Some p)"
    unfolding feed_inv_def Let_def by (fastforce, metis)
  then show ?case using receive by (simp add: feed_inv_def Let_def)
qed

lemma feed_inv_start: "feed_inv feed_start"
  by (simp add: feed_inv_def feed_start_def new_broadcaster_def)

lemma feed_inv_reachable: "feed_step\<^sup>*\<^sup>* feed_start f \<Longrightarrow> feed_inv f"
  by (induction rule: rtranclp_induct) (auto intro: feed_inv_start feed_inv_step)

text \<open>C10: however subscriptions, ticks and reads interleave, a tab always has the feed's current payload:
  it is waiting in its channel, or it is what the tab read last; no send ever blocks, which would
  freeze every tab; and exactly one goroutine has leave to go on while there are tabs, none otherwise.\<close>

theorem feed_is_current:
  assumes "feed_step\<^sup>*\<^sup>* feed_start f" and "map_of (b_subs (f_bc f)) ch = Some c"
  shows "(c = Some (b_last (f_bc f)) \<or> c = None \<and> f_seen f ch = Some (b_last (f_bc f))) \<and> \<not> b_blocked (f_bc f) \<and>
    b_open (f_bc f) = [b_stop (f_bc f)] \<and> running (map_of (b_runners (f_bc f)) (b_stop (f_bc f)))"
proof -
  have "b_subs (f_bc f) \<noteq> []" using assms(2) by auto
  with feed_inv_reachable [OF assms(1)] assms(2) show ?thesis
    unfolding feed_inv_def Let_def chan_ok_def by simp
qed

section \<open>A stale payload\<close>

definition one_tab :: feed where
  "one_tab = feed_start\<lparr>f_bc := bc_subscribe ''1'' 0 0 new_broadcaster\<rparr>"

definition tab_reopened :: feed where
  "tab_reopened = one_tab\<lparr>f_bc := bc_subscribe ''2'' 1 1 (bc_cancel 0 (set_runner 0 (Holding ''1'') (f_bc one_tab)))\<rparr>"

definition tab_read :: feed where
  "tab_read = tab_reopened\<lparr>f_bc := (f_bc tab_reopened)\<lparr>b_subs := AList.update 1 None (b_subs (f_bc tab_reopened))\<rparr>,
     f_seen := (f_seen tab_reopened)(1 := Some ''2'')\<rparr>"

definition tab_stale :: feed where
  "tab_stale = tab_read\<lparr>f_bc := set_runner 0 Ticking (bc_publish ''1'' (f_bc tab_read))\<rparr>"

lemmas tab_defs = one_tab_def tab_reopened_def tab_read_def tab_stale_def feed_start_def new_broadcaster_def
  bc_subscribe_def bc_start_def bc_offer_def chan_send_def set_runner_def bc_cancel_def bc_publish_def bc_publish_one_def
  chan_drop_def Let_def

lemma one_tab_reachable: "feed_step\<^sup>*\<^sup>* feed_start one_tab"
  using feed_step.subscribe [of 0 0 feed_start "''1''"] by (auto simp: one_tab_def feed_start_def fresh_sub_def new_broadcaster_def keys_of_def)

text \<open>The goroutine of the last tab has produced a payload when the tab is closed; a new tab gets a newer
  one, reads it, and is then sent the old one.\<close>

lemma reopened_tab_goes_back:
  "feed_step\<^sup>*\<^sup>* feed_start tab_stale \<and> f_seen tab_stale 1 = Some ''2'' \<and> map_of (b_subs (f_bc tab_stale)) 1 = Some (Some ''1'')"
proof -
  let ?a = "one_tab\<lparr>f_bc := set_runner 0 (Holding ''1'') (f_bc one_tab)\<rparr>"
  let ?b = "?a\<lparr>f_bc := bc_cancel 0 (f_bc ?a)\<rparr>"
  have "feed_step one_tab ?a" by (rule feed_step.tick) (simp add: tab_defs)
  moreover have "feed_step ?a ?b" by (rule feed_step.cancel)
  moreover have "fresh_sub 1 1 ?b" by (simp add: fresh_sub_def tab_defs keys_of_def)
  then have "feed_step ?b tab_reopened"
    using feed_step.subscribe [of 1 1 ?b "''2''"] by (simp add: tab_reopened_def)
  moreover have "map_of (b_subs (f_bc tab_reopened)) 1 = Some (Some ''2'')" by (simp add: tab_defs)
  then have "feed_step tab_reopened tab_read" unfolding tab_read_def by (rule feed_step.receive)
  moreover have "map_of (b_runners (f_bc tab_read)) 0 = Some (Holding ''1'')" by (simp add: tab_defs)
  then have "feed_step tab_read tab_stale" unfolding tab_stale_def by (rule feed_step.publish)
  ultimately have "feed_step\<^sup>*\<^sup>* feed_start tab_stale"
    using one_tab_reachable by (meson rtranclp.rtrancl_into_rtrancl)
  then show ?thesis by (simp add: tab_defs)
qed

theorem feed_is_current_witness:
  "map_of (b_subs (f_bc tab_stale)) 1 = Some (Some ''1'') \<and> b_last (f_bc tab_stale) = ''1'' \<and>
   b_open (f_bc tab_stale) = [b_stop (f_bc tab_stale)]"
  using feed_is_current [of tab_stale 1 "Some ''1''"] reopened_tab_goes_back by (simp add: tab_defs)

section \<open>Frames\<close>

text \<open>What a browser reads of the stream: the data of every frame.\<close>

definition sse_data :: "string \<Rightarrow> string list" where
  "sse_data s = map (\<lambda>l. trim_prefix l ''data: '') (filter (\<lambda>l. has_prefix l ''data: '') (split_on (CHR 0x0A) s))"

lemma sse_data_frames:
  assumes "list_all (\<lambda>p. case p of Some p \<Rightarrow> CHR 0x0A \<notin> set p | None \<Rightarrow> True) ps"
  shows "sse_data (serve_events ps) = map the (filter (\<lambda>p. p \<noteq> None) ps)"
  using assms
proof (induction ps)
  case Nil
  then show ?case by (simp add: sse_data_def serve_events_def)
next
  case (Cons p ps)
  have split: "split_on (CHR 0x0A) (l @ [CHR 0x0A, CHR 0x0A] @ r) = l # [] # split_on (CHR 0x0A) r"
    if "CHR 0x0A \<notin> set l" for l r
    using split_on_append [OF that, of "CHR 0x0A # r"] split_on_append [of "CHR 0x0A" "[]" r] by simp
  show ?case
  proof (cases p)
    case None
    then show ?thesis
      using Cons split [of "'': keep-alive''" "serve_events ps"] by (simp add: sse_data_def serve_events_def sse_frame_def)
  next
    case (Some q)
    then show ?thesis
      using Cons split [of "''data: '' @ q" "serve_events ps"]
      by (simp add: sse_data_def serve_events_def sse_frame_def trim_prefix_def)
  qed
qed

end
