(* ===== verification/GoSort.thy ===== *)
theory GoSort
  imports GoStrings "HOL-Library.Multiset" "HOL-Library.List_Lexorder" "HOL-Library.Char_ord"
begin

text \<open>
  Sorting with a \<^verbatim>\<open>less\<close> function, as \<^verbatim>\<open>sort.SliceStable\<close> does it; where no two elements are
  equivalent \<^verbatim>\<open>sort.Slice\<close> does the same. Strings are compared byte by byte. The locale
  \<open>weak_order\<close> is what the documentation of \<^verbatim>\<open>sort\<close> asks of a \<^verbatim>\<open>less\<close> function; every order of the
  code is an interpretation of it, and gets from it that sorting keeps the elements, that nothing
  comes after something it should be before, and that equivalent elements keep their order.
\<close>

fun insert_by :: "('a \<Rightarrow> 'a \<Rightarrow> bool) \<Rightarrow> 'a \<Rightarrow> 'a list \<Rightarrow> 'a list" where
  "insert_by lt x [] = [x]"
| "insert_by lt x (y # ys) = (if lt y x then y # insert_by lt x ys else x # y # ys)"

fun sort_by :: "('a \<Rightarrow> 'a \<Rightarrow> bool) \<Rightarrow> 'a list \<Rightarrow> 'a list" where
  "sort_by lt [] = []"
| "sort_by lt (x # xs) = insert_by lt x (sort_by lt xs)"

lemma mset_insert_by: "mset (insert_by lt x ys) = add_mset x (mset ys)"
  by (induction ys) auto

lemma mset_sort_by [simp]: "mset (sort_by lt xs) = mset xs"
  by (induction xs) (auto simp: mset_insert_by)

lemma set_sort_by [simp]: "set (sort_by lt xs) = set xs"
  by (metis mset_sort_by set_mset_mset)

lemma length_sort_by [simp]: "length (sort_by lt xs) = length xs"
  by (metis mset_sort_by size_mset)

text \<open>Walking over a list and keeping what is better than the best so far.\<close>

fun best_from :: "('a \<Rightarrow> 'a \<Rightarrow> bool) \<Rightarrow> 'a \<Rightarrow> 'a list \<Rightarrow> 'a" where
  "best_from better b [] = b"
| "best_from better b (x # xs) = best_from better (if better x b then x else b) xs"

fun best_of :: "('a \<Rightarrow> 'a \<Rightarrow> bool) \<Rightarrow> 'a list \<Rightarrow> 'a option" where
  "best_of better [] = None"
| "best_of better (x # xs) = Some (best_from better x xs)"

section \<open>The contract of a \<open>less\<close> function\<close>

locale weak_order =
  fixes lt :: "'a \<Rightarrow> 'a \<Rightarrow> bool"
  assumes not_both: "lt x y \<Longrightarrow> \<not> lt y x"
    and between: "lt x z \<Longrightarrow> lt x y \<or> lt y z"
begin

lemma not_self: "\<not> lt x x"
  using not_both by blast

lemma chained: "lt x y \<Longrightarrow> lt y z \<Longrightarrow> lt x z"
  using not_both between by blast

lemma insert_by_ordered:
  "sorted_wrt (\<lambda>a b. \<not> lt b a) ys \<Longrightarrow> sorted_wrt (\<lambda>a b. \<not> lt b a) (insert_by lt x ys)"
proof (induction ys)
  case Nil
  then show ?case by simp
next
  case (Cons y ys)
  have "set (insert_by lt x ys) = insert x (set ys)"
    by (metis mset_insert_by set_mset_add_mset_insert set_mset_mset)
  then show ?case using Cons not_both between by auto blast
qed

lemma sort_ordered: "sorted_wrt (\<lambda>a b. \<not> lt b a) (sort_by lt xs)"
  by (induction xs) (auto intro: insert_by_ordered)

text \<open>Stability: the elements equivalent to \<open>z\<close> are in the order they were in.\<close>

lemma insert_by_stable:
  assumes "sorted_wrt (\<lambda>a b. \<not> lt b a) ys"
  shows "filter (\<lambda>a. \<not> lt a z \<and> \<not> lt z a) (insert_by lt x ys) = filter (\<lambda>a. \<not> lt a z \<and> \<not> lt z a) (x # ys)"
  using assms
proof (induction ys)
  case Nil
  then show ?case by simp
next
  case (Cons y ys)
  have "\<not> (\<not> lt x z \<and> \<not> lt z x \<and> \<not> lt y z \<and> \<not> lt z y)" if "lt y x"
    using between [OF that, of z] by blast
  then show ?case using Cons by auto
qed

lemma sort_stable:
  "filter (\<lambda>a. \<not> lt a z \<and> \<not> lt z a) (sort_by lt xs) = filter (\<lambda>a. \<not> lt a z \<and> \<not> lt z a) xs"
  by (induction xs) (auto simp: insert_by_stable [OF sort_ordered])

text \<open>An ordered list of different elements no two of which are equivalent is the only one.\<close>

lemma ordered_unique:
  assumes "sorted_wrt (\<lambda>a b. \<not> lt b a) xs" and "sorted_wrt (\<lambda>a b. \<not> lt b a) ys" and "mset xs = mset ys"
    and "\<And>a b. a \<in> set xs \<Longrightarrow> b \<in> set xs \<Longrightarrow> a \<noteq> b \<Longrightarrow> lt a b \<or> lt b a"
  shows "xs = ys"
  using assms
proof (induction xs arbitrary: ys)
  case Nil
  then show ?case by simp
next
  case (Cons x xs)
  obtain y ys' where y: "ys = y # ys'" using Cons.prems(3) by (cases ys) auto
  have sets: "set (x # xs) = set (y # ys')" using Cons.prems(3) y by (metis set_mset_mset)
  have "x = y"
  proof (rule ccontr)
    assume "x \<noteq> y"
    then have "x \<in> set ys'" "y \<in> set xs" using sets by auto
    then have "\<not> lt x y" "\<not> lt y x" using Cons.prems(1,2) y by auto
    then show False using Cons.prems(4) [of x y] \<open>x \<noteq> y\<close> \<open>y \<in> set xs\<close> by auto
  qed
  moreover have "xs = ys'" by (rule Cons.IH) (use Cons.prems y calculation in auto)
  ultimately show ?case using y by simp
qed

lemma sort_permutation:
  assumes "mset xs = mset ys" and "\<And>a b. a \<in> set xs \<Longrightarrow> b \<in> set xs \<Longrightarrow> a \<noteq> b \<Longrightarrow> lt a b \<or> lt b a"
  shows "sort_by lt xs = sort_by lt ys"
  by (rule ordered_unique) (use assms sort_ordered in auto)

lemma sort_again:
  assumes "sorted_wrt (\<lambda>a b. \<not> lt b a) xs"
  shows "sort_by lt xs = xs"
  using assms
proof (induction xs)
  case (Cons x xs)
  then show ?case by (cases xs) auto
qed simp

text \<open>The best element, when \<open>less\<close> says \<open>better\<close>.\<close>

lemma best_from_best:
  "best_from lt b xs \<in> insert b (set xs) \<and> \<not> lt b (best_from lt b xs) \<and> (\<forall>x\<in>set xs. \<not> lt x (best_from lt b xs))"
proof (induction xs arbitrary: b)
  case Nil
  then show ?case by (simp add: not_self)
next
  case (Cons x xs)
  show ?case
  proof (cases "lt x b")
    case True
    then show ?thesis using Cons.IH [of x] chained [of x b "best_from lt x xs"] by auto
  next
    case False
    then show ?thesis using Cons.IH [of b] between [of x "best_from lt b xs" b] by auto
  qed
qed

lemma best_of_best: "best_of lt xs = Some r \<Longrightarrow> r \<in> set xs \<and> (\<forall>x\<in>set xs. \<not> lt x r)"
  using best_from_best by (cases xs) auto

end

lemma best_of_None [simp]: "best_of better xs = None \<longleftrightarrow> xs = []"
  by (cases xs) auto

text \<open>The reverse of an order is one, and so is an order on a key, and one after another.\<close>

lemma weak_order_flip: "weak_order lt \<Longrightarrow> weak_order (\<lambda>a b. lt b a)"
  unfolding weak_order_def by blast

lemma weak_order_key: "weak_order lt \<Longrightarrow> weak_order (\<lambda>a b. lt (f a) (f b))"
  unfolding weak_order_def by blast

lemma weak_order_linorder: "weak_order ((<) :: 'a :: linorder \<Rightarrow> 'a \<Rightarrow> bool)"
  by unfold_locales auto

lemma weak_order_then:
  assumes "weak_order first" and "weak_order second"
  shows "weak_order (\<lambda>a b. first a b \<or> \<not> first b a \<and> second a b)"
  using assms unfolding weak_order_def by (intro conjI allI impI) blast+

text \<open>Truth values: false before true.\<close>

lemma weak_order_bool: "weak_order (\<lambda>a b. \<not> a \<and> b)"
  by unfold_locales auto

end
