(* ===== verification/MediaLink.thy ===== *)
theory MediaLink
  imports GoSort RequestHeaders GoFloat
begin

text \<open>
  \<^verbatim>\<open>internal/webui/link.go\<close> and the types of \<^verbatim>\<open>media.go\<close>: which of the streams yt-dlp found for a link
  the player uses. Numbers that come out of JSON are rationals. The order in which a Go map is
  ranged over is an argument. The two orders by which streams are compared are interpretations of
  \<open>weak_order\<close>.
\<close>

section \<open>Sources\<close>

record audio_input =
  ai_url :: string
  ai_language :: string
  ai_title :: string
  ai_codec :: string

record sub_input =
  si_url :: string
  si_language :: string
  si_title :: string

record media_source =
  src_name :: string
  src_path :: string
  src_url :: string
  src_header :: headers
  src_ua :: string
  src_audio :: "audio_input list"
  src_subs :: "sub_input list"
  src_remote :: bool
  src_chunk :: int

record video =
  v_codec :: string
  v_width :: int
  v_height :: int
  v_mime :: string

record track =
  tk_index :: int
  tk_language :: string
  tk_title :: string
  tk_codec :: string
  tk_channels :: int
  tk_text :: bool

record media_info =
  mi_name :: string
  mi_duration :: float64
  mi_video :: "video option"
  mi_audio :: "track list"
  mi_subs :: "track list"
  mi_direct :: bool

definition empty_source :: media_source where
  "empty_source = \<lparr>src_name = [], src_path = [], src_url = [], src_header = [], src_ua = [], src_audio = [],
     src_subs = [], src_remote = False, src_chunk = 0\<rparr>"

section \<open>What yt-dlp says\<close>

record ytdlp_format =
  yf_url :: string
  yf_vcodec :: string
  yf_acodec :: string
  yf_height :: int
  yf_width :: int
  yf_tbr :: rat
  yf_abr :: rat
  yf_protocol :: string
  yf_language :: string
  yf_pref :: int
  yf_note :: string
  yf_headers :: "(string \<times> string) list"
  yf_chunk :: int

record ytdlp_sub =
  ys_ext :: string
  ys_url :: string
  ys_name :: string

record ytdlp_info =
  yi_title :: string
  yi_duration :: rat
  yi_formats :: "ytdlp_format list"
  yi_subtitles :: "(string \<times> ytdlp_sub list) list"

definition has_codec :: "string \<Rightarrow> bool" where
  "has_codec c \<longleftrightarrow> c \<noteq> [] \<and> c \<noteq> ''none''"

definition plain_http :: "ytdlp_format \<Rightarrow> bool" where
  "plain_http f \<longleftrightarrow> yf_protocol f = ''https'' \<or> yf_protocol f = ''http''"

definition is_aac :: "string \<Rightarrow> bool" where
  "is_aac c \<longleftrightarrow> c = ''aac'' \<or> has_prefix c ''mp4a''"

section \<open>Sound\<close>

definition audio_better :: "ytdlp_format \<Rightarrow> ytdlp_format \<Rightarrow> bool" where
  "audio_better a b =
     (if is_aac (yf_acodec a) \<noteq> is_aac (yf_acodec b) then is_aac (yf_acodec a) else yf_abr b < yf_abr a)"

definition audio_only :: "ytdlp_format \<Rightarrow> bool" where
  "audio_only f \<longleftrightarrow> yf_url f \<noteq> [] \<and> \<not> has_codec (yf_vcodec f) \<and> has_codec (yf_acodec f) \<and> plain_http f"

definition keep_best :: "ytdlp_format \<Rightarrow> (string \<times> ytdlp_format) list \<Rightarrow> (string \<times> ytdlp_format) list" where
  "keep_best f best =
     (if \<not> audio_only f then best
      else case map_of best (yf_language f) of
          None \<Rightarrow> AList.update (yf_language f) f best
        | Some cur \<Rightarrow> if audio_better f cur then AList.update (yf_language f) f best else best)"

definition audio_before :: "ytdlp_format \<Rightarrow> ytdlp_format \<Rightarrow> bool" where
  "audio_before a b = (if yf_pref a \<noteq> yf_pref b then yf_pref b < yf_pref a else yf_language a < yf_language b)"

text \<open>\<open>ranged\<close> is the order the map of the best is ranged over.\<close>

definition pick_audio :: "(ytdlp_format list \<Rightarrow> ytdlp_format list) \<Rightarrow> ytdlp_format list \<Rightarrow> ytdlp_format list" where
  "pick_audio ranged formats = sort_by audio_before (ranged (map snd (fold keep_best formats [])))"

section \<open>Picture\<close>

definition video_better :: "ytdlp_format \<Rightarrow> ytdlp_format \<Rightarrow> bool" where
  "video_better a b =
     (if plain_http a \<noteq> plain_http b then plain_http a
      else if yf_height a \<noteq> yf_height b then yf_height b < yf_height a
      else if has_prefix (yf_vcodec a) ''avc'' \<noteq> has_prefix (yf_vcodec b) ''avc'' then has_prefix (yf_vcodec a) ''avc''
      else yf_tbr b < yf_tbr a)"

definition video_fits :: "int \<Rightarrow> ytdlp_format \<Rightarrow> bool" where
  "video_fits max_height f \<longleftrightarrow>
     yf_url f \<noteq> [] \<and> has_codec (yf_vcodec f) \<and> \<not> (0 < max_height \<and> max_height < yf_height f)"

definition pick_one :: "int \<Rightarrow> (ytdlp_format \<Rightarrow> bool) \<Rightarrow> ytdlp_format list \<Rightarrow> ytdlp_format option" where
  "pick_one max_height want formats = best_of video_better (filter (\<lambda>f. video_fits max_height f \<and> want f) formats)"

definition pick_video ::
  "(ytdlp_format list \<Rightarrow> ytdlp_format list) \<Rightarrow> int \<Rightarrow> ytdlp_format list \<Rightarrow> (ytdlp_format \<times> bool) option" where
  "pick_video ranged max_height formats =
     (let separate = pick_audio ranged formats \<noteq> [];
          silent = (\<lambda>f. \<not> has_codec (yf_acodec f))
      in case (if separate then pick_one max_height (\<lambda>f. silent f \<and> plain_http f) formats else None) of
           Some v \<Rightarrow> Some (v, True)
         | None \<Rightarrow>
             (case pick_one max_height (\<lambda>f. \<not> silent f) formats of
                Some v \<Rightarrow> Some (v, False)
              | None \<Rightarrow>
                  (case (if separate then pick_one max_height silent formats else None) of
                     Some v \<Rightarrow> Some (v, True)
                   | None \<Rightarrow> None)))"

section \<open>Names of codecs\<close>

definition ffmpeg_codec_name :: "string \<Rightarrow> string" where
  "ffmpeg_codec_name tag =
     (if has_prefix tag ''avc'' then ''h264''
      else if has_prefix tag ''hev'' \<or> has_prefix tag ''hvc'' then ''hevc''
      else if has_prefix tag ''vp09'' \<or> has_prefix tag ''vp9'' then ''vp9''
      else if has_prefix tag ''av01'' then ''av1'' else tag)"

definition mp4_mime :: "string \<Rightarrow> string" where
  "mp4_mime c = ''video/mp4; codecs='' @ [CHR 0x22] @ c @ [CHR 0x22]"

definition video_mime_from_tag :: "string \<Rightarrow> string" where
  "video_mime_from_tag tag =
     (let n = ffmpeg_codec_name tag
      in if n = ''h264'' \<or> n = ''av1'' then mp4_mime tag
         else if n = ''hevc'' then mp4_mime (replace_first ''hev1'' ''hvc1'' tag)
         else if n = ''vp9'' then (if has_prefix tag ''vp09'' then mp4_mime tag else mp4_mime ''vp09.00.10.08'')
         else [])"

section \<open>The source of a link\<close>

definition agent_of :: "ytdlp_format \<Rightarrow> string" where
  "agent_of f = (case map_of (yf_headers f) ''User-Agent'' of Some v \<Rightarrow> v | None \<Rightarrow> [])"

definition link_track :: "int \<Rightarrow> string \<Rightarrow> string \<Rightarrow> string \<Rightarrow> bool \<Rightarrow> track" where
  "link_track i lang title codec txt =
     \<lparr>tk_index = i, tk_language = lang, tk_title = title, tk_codec = codec, tk_channels = 0, tk_text = txt\<rparr>"

text \<open>Subtitles: per language, in the order of the names, the first WebVTT file with an address.\<close>

definition vtt_of :: "ytdlp_sub list \<Rightarrow> ytdlp_sub option" where
  "vtt_of subs = find (\<lambda>s. ys_ext s = ''vtt'' \<and> ys_url s \<noteq> []) subs"

definition link_subs :: "(string \<times> ytdlp_sub list) list \<Rightarrow> sub_input list" where
  "link_subs subtitles =
     concat (map (\<lambda>lang.
       (case vtt_of (case map_of subtitles lang of Some s \<Rightarrow> s | None \<Rightarrow> []) of
          None \<Rightarrow> []
        | Some s \<Rightarrow> [\<lparr>si_url = ys_url s, si_language = lang, si_title = ys_name s\<rparr>]))
       (sort_by (<) (map fst subtitles)))"

definition sub_tracks :: "sub_input list \<Rightarrow> track list" where
  "sub_tracks subs =
     map (\<lambda>(i, s). link_track (int i) (si_language s) (si_title s) ''webvtt'' True) (enumerate 0 subs)"

definition audio_of_format :: "ytdlp_format \<Rightarrow> audio_input" where
  "audio_of_format a =
     \<lparr>ai_url = yf_url a, ai_language = yf_language a, ai_title = yf_note a, ai_codec = yf_acodec a\<rparr>"

definition audio_tracks :: "audio_input list \<Rightarrow> track list" where
  "audio_tracks as =
     map (\<lambda>(i, a). link_track (int i) (ai_language a) (ai_title a) (ai_codec a) False) (enumerate 0 as)"

definition source_from_ytdlp ::
  "(ytdlp_format list \<Rightarrow> ytdlp_format list) \<Rightarrow> ytdlp_info \<Rightarrow> int \<Rightarrow> (media_source \<times> media_info) result" where
  "source_from_ytdlp ranged y max_height =
     (let name = (if yi_title y = [] then ''video'' else yi_title y);
          src = empty_source\<lparr>src_name := name, src_remote := True\<rparr>;
          info = \<lparr>mi_name = name, mi_duration = FFin (yi_duration y), mi_video = None, mi_audio = [], mi_subs = [], mi_direct = False\<rparr>
      in case pick_video ranged max_height (yi_formats y) of
           None \<Rightarrow>
             (case pick_audio ranged (yi_formats y) of
                [] \<Rightarrow> Inl (ErrMsg ''yt-dlp found nothing playable at that link'')
              | f # _ \<Rightarrow>
                  Inr (src\<lparr>src_url := yf_url f, src_ua := agent_of f, src_chunk := yf_chunk f\<rparr>,
                       info\<lparr>mi_audio := [link_track 0 (yf_language f) (yf_note f) (yf_acodec f) False]\<rparr>))
         | Some (v, split) \<Rightarrow>
             let audio = (if split then map audio_of_format (pick_audio ranged (yi_formats y)) else []);
                 subs = link_subs (yi_subtitles y);
                 tracks = (if audio = [] \<and> has_codec (yf_acodec v) then [link_track 0 (yf_language v) [] (yf_acodec v) False]
                           else audio_tracks audio)
             in Inr (src\<lparr>src_url := yf_url v, src_ua := agent_of v, src_chunk := yf_chunk v, src_audio := audio, src_subs := subs\<rparr>,
                     info\<lparr>mi_video := Some \<lparr>v_codec = ffmpeg_codec_name (yf_vcodec v), v_width = yf_width v,
                             v_height = yf_height v, v_mime = video_mime_from_tag (yf_vcodec v)\<rparr>,
                          mi_audio := tracks, mi_subs := sub_tracks subs\<rparr>))"

section \<open>The orders\<close>

interpretation audio_rank: weak_order audio_better
  by unfold_locales (auto simp: audio_better_def split: if_splits)

interpretation audio_order: weak_order audio_before
  by unfold_locales (auto simp: audio_before_def split: if_splits)

interpretation video_rank: weak_order video_better
  by unfold_locales (auto simp: video_better_def split: if_splits)

text \<open>The map has one stream for each language, and no stream of the language is better.\<close>

definition best_map :: "ytdlp_format list \<Rightarrow> (string \<times> ytdlp_format) list \<Rightarrow> bool" where
  "best_map fs m \<longleftrightarrow> wf_map m \<and> keys_of m = yf_language ` {f \<in> set fs. audio_only f} \<and>
     (\<forall>l f. map_of m l = Some f \<longrightarrow> f \<in> set fs \<and> audio_only f \<and> yf_language f = l \<and>
        (\<forall>g\<in>set fs. audio_only g \<longrightarrow> yf_language g = l \<longrightarrow> \<not> audio_better g f))"

lemma keep_best_map: "best_map fs m \<Longrightarrow> best_map (fs @ [f]) (keep_best f m)"
proof (cases "audio_only f")
  case False
  then show "best_map fs m \<Longrightarrow> ?thesis" by (auto simp: keep_best_def best_map_def)
next
  case True
  assume m: "best_map fs m"
  show ?thesis
  proof (cases "map_of m (yf_language f)")
    case None
    then have "yf_language f \<notin> keys_of m" by (simp add: keys_of_map_of)
    then have "yf_language f \<notin> yf_language ` {f \<in> set fs. audio_only f}" using m by (simp add: best_map_def)
    then have "\<And>g. g \<in> set fs \<Longrightarrow> audio_only g \<Longrightarrow> yf_language g \<noteq> yf_language f"
      by (metis (mono_tags, lifting) imageI mem_Collect_eq)
    with m True None show ?thesis
      by (auto simp: keep_best_def best_map_def audio_rank.not_self split: if_splits)
  next
    case (Some cur)
    have k: "yf_language f \<in> keys_of m" using Some by (simp add: keys_of_map_of)
    have better: "\<not> audio_better g f" if "audio_better f cur" "g \<in> set fs" "audio_only g" "yf_language g = yf_language f" for g
      using m Some that audio_rank.chained unfolding best_map_def by blast
    show ?thesis
    proof (cases "audio_better f cur")
      case True
      then show ?thesis using m Some k \<open>audio_only f\<close> better
        by (auto simp: keep_best_def best_map_def audio_rank.not_self insert_absorb split: if_splits)
    next
      case False
      then show ?thesis using m Some k \<open>audio_only f\<close> by (auto simp: keep_best_def best_map_def)
    qed
  qed
qed

lemma best_map_fold: "best_map fs (fold keep_best fs [])"
proof (induction fs rule: rev_induct)
  case Nil
  show ?case by (simp add: best_map_def keys_of_def)
next
  case (snoc f fs)
  then show ?case by (simp add: keep_best_map)
qed

lemma best_pair: "(l, f) \<in> set (fold keep_best fs []) \<Longrightarrow> yf_language f = l \<and> map_of (fold keep_best fs []) l = Some f"
  using best_map_fold [of fs] unfolding best_map_def wf_map_def by (blast intro: map_of_is_SomeI)

lemma best_entry: "f \<in> set (map snd (fold keep_best fs [])) \<Longrightarrow> map_of (fold keep_best fs []) (yf_language f) = Some f"
  using best_pair by fastforce

lemma best_keys: "yf_language ` set (map snd (fold keep_best fs [])) = keys_of (fold keep_best fs [])"
proof -
  have "map (yf_language \<circ> snd) (fold keep_best fs []) = map fst (fold keep_best fs [])"
    by (rule map_cong) (auto dest: best_pair)
  then have "(yf_language \<circ> snd) ` set (fold keep_best fs []) = fst ` set (fold keep_best fs [])"
    by (metis list.set_map)
  then show ?thesis by (simp add: keys_of_def image_comp)
qed

text \<open>the sound tracks of a link do not depend on the order a map is ranged over: there is one for
  each language, no other stream of the language is better, and the original language comes first.\<close>

theorem pick_audio_any_order:
  assumes "\<And>xs. mset (ranged xs) = mset xs"
  shows "pick_audio ranged fs = pick_audio (\<lambda>xs. xs) fs \<and>
    yf_language ` set (pick_audio ranged fs) = yf_language ` {f \<in> set fs. audio_only f} \<and>
    inj_on yf_language (set (pick_audio ranged fs)) \<and>
    (\<forall>f\<in>set (pick_audio ranged fs). f \<in> set fs \<and> (\<forall>g\<in>set fs. audio_only g \<and> yf_language g = yf_language f \<longrightarrow> \<not> audio_better g f)) \<and>
    sorted_wrt (\<lambda>a b. yf_pref b \<le> yf_pref a) (pick_audio ranged fs)"
proof -
  let ?m = "fold keep_best fs []"
  have sets: "set (pick_audio ranged fs) = set (map snd ?m)"
    unfolding pick_audio_def by (metis assms set_mset_mset set_sort_by)
  have m: "best_map fs ?m" by (rule best_map_fold)
  have one: "f = g" if "f \<in> set (map snd ?m)" "g \<in> set (map snd ?m)" "yf_language f = yf_language g" for f g
    using best_entry [OF that(1)] best_entry [OF that(2)] that(3) by (metis option.inject)
  have "pick_audio ranged fs = pick_audio (\<lambda>xs. xs) fs"
    unfolding pick_audio_def
  proof (rule audio_order.sort_permutation)
    show "mset (ranged (map snd ?m)) = mset (map snd ?m)" by (rule assms)
    fix a b assume ab: "a \<in> set (ranged (map snd ?m))" "b \<in> set (ranged (map snd ?m))" "a \<noteq> b"
    have "set (ranged (map snd ?m)) = set (map snd ?m)" by (metis assms set_mset_mset)
    then have "yf_language a \<noteq> yf_language b" using one ab by auto
    then show "audio_before a b \<or> audio_before b a" by (auto simp: audio_before_def)
  qed
  moreover have "yf_language ` set (map snd ?m) = yf_language ` {f \<in> set fs. audio_only f}"
    using m best_keys [of fs] by (simp add: best_map_def)
  moreover have "f \<in> set fs \<and> (\<forall>g\<in>set fs. audio_only g \<and> yf_language g = yf_language f \<longrightarrow> \<not> audio_better g f)"
    if "f \<in> set (map snd ?m)" for f
    using best_entry [OF that] m unfolding best_map_def by blast
  moreover have "sorted_wrt (\<lambda>a b. yf_pref b \<le> yf_pref a) (pick_audio ranged fs)"
    unfolding pick_audio_def
    by (rule sorted_wrt_mono_rel [OF _ audio_order.sort_ordered]) (auto simp: audio_before_def split: if_splits)
  ultimately show ?thesis using one sets unfolding inj_on_def by auto
qed

definition sample_sound :: "string \<Rightarrow> int \<Rightarrow> ytdlp_format" where
  "sample_sound lang pref = \<lparr>yf_url = ''https://a/'' @ lang, yf_vcodec = ''none'', yf_acodec = ''opus'', yf_height = 0, yf_width = 0,
     yf_tbr = 0, yf_abr = 96, yf_protocol = ''https'', yf_language = lang, yf_pref = pref, yf_note = [], yf_headers = [], yf_chunk = 0\<rparr>"

theorem pick_audio_any_order_witness:
  "pick_audio rev [sample_sound ''de'' (-1), sample_sound ''en'' 10] =
   pick_audio (\<lambda>xs. xs) [sample_sound ''de'' (-1), sample_sound ''en'' 10]"
proof -
  have "\<And>xs :: ytdlp_format list. mset (rev xs) = mset xs" by simp
  from pick_audio_any_order [OF this] show ?thesis by (rule conjunct1)
qed

section \<open>The picture\<close>

lemma pick_one_best:
  "pick_one h want fs = Some v \<Longrightarrow> v \<in> set fs \<and> video_fits h v \<and> want v \<and> (\<forall>f\<in>set fs. video_fits h f \<and> want f \<longrightarrow> \<not> video_better f v)"
  unfolding pick_one_def using video_rank.best_of_best [of "filter (\<lambda>f. video_fits h f \<and> want f) fs" v] by auto

lemma pick_one_none: "pick_one h want fs = None \<longleftrightarrow> (\<forall>f\<in>set fs. \<not> (video_fits h f \<and> want f))"
  by (auto simp: pick_one_def filter_empty_conv)

text \<open>the picture a link is played with fits the height asked for, no stream of its kind is better, and
  it comes with sound whenever the link has any: either it carries sound itself, or there are
  separate sound tracks to play with it.\<close>

theorem pick_video_is_best:
  assumes "pick_video ranged h fs = Some (v, split)"
  shows "v \<in> set fs \<and> video_fits h v \<and> (split \<longleftrightarrow> \<not> has_codec (yf_acodec v)) \<and> (split \<longrightarrow> pick_audio ranged fs \<noteq> []) \<and>
    (\<forall>f\<in>set fs. video_fits h f \<and> has_codec (yf_acodec f) = has_codec (yf_acodec v) \<and> plain_http f = plain_http v \<longrightarrow> \<not> video_better f v)"
  using assms by (auto simp: pick_video_def Let_def split: option.splits if_splits dest!: pick_one_best)

definition sample_picture :: "int \<Rightarrow> string \<Rightarrow> ytdlp_format" where
  "sample_picture h codec = (sample_sound ''p'' 0)\<lparr>yf_vcodec := codec, yf_acodec := ''none'', yf_height := h\<rparr>"

theorem pick_video_is_best_witness:
  "pick_video (\<lambda>xs. xs) 720 [sample_picture 1080 ''avc1'', sample_picture 720 ''vp9'', sample_picture 720 ''avc1'', sample_sound ''en'' 0] =
     Some (sample_picture 720 ''avc1'', True) \<and> video_fits 720 (sample_picture 720 ''avc1'')"
proof -
  have p: "pick_video (\<lambda>xs. xs) 720 [sample_picture 1080 ''avc1'', sample_picture 720 ''vp9'', sample_picture 720 ''avc1'', sample_sound ''en'' 0] =
     Some (sample_picture 720 ''avc1'', True)"
    by code_simp
  with pick_video_is_best [OF p] show ?thesis by blast
qed

section \<open>Tracks and inputs\<close>

text \<open>The tracks the page is told of are those the source has, numbered in order: a choice the page can
  make is one the player can play. A link with a picture and separate sounds has a track for each.\<close>

lemma link_tracks_match:
  assumes "source_from_ytdlp ranged y h = Inr (src, info)"
  shows "map tk_index (mi_audio info) = map int [0..<length (mi_audio info)] \<and>
    map tk_index (mi_subs info) = map int [0..<length (src_subs src)] \<and> list_all tk_text (mi_subs info) \<and>
    (src_audio src \<noteq> [] \<longrightarrow> length (mi_audio info) = length (src_audio src) \<and>
       map tk_codec (mi_audio info) = map ai_codec (src_audio src)) \<and>
    (src_audio src = [] \<longrightarrow> length (mi_audio info) \<le> 1) \<and> src_remote src \<and> src_path src = [] \<and> src_header src = []"
proof -
  have idx: "map tk_index (audio_tracks as) = map int [0..<length as]"
      "map tk_codec (audio_tracks as) = map ai_codec as" "length (audio_tracks as) = length as" for as
    by (auto simp: audio_tracks_def link_track_def enumerate_eq_zip case_prod_unfold comp_def intro: nth_equalityI)
  have sub: "map tk_index (sub_tracks ss) = map int [0..<length ss]" "list_all tk_text (sub_tracks ss)" for ss
    by (auto simp: sub_tracks_def link_track_def enumerate_eq_zip case_prod_unfold comp_def list_all_iff intro: nth_equalityI)
  show ?thesis
    using assms idx sub
    by (auto simp: source_from_ytdlp_def Let_def empty_source_def link_track_def audio_tracks_def split: option.splits list.splits prod.splits if_splits)
qed

definition sample_link :: ytdlp_info where
  "sample_link = \<lparr>yi_title = ''T'', yi_duration = 60, yi_formats = [sample_picture 720 ''avc1'', sample_sound ''en'' 0],
     yi_subtitles = [(''en'', [\<lparr>ys_ext = ''vtt'', ys_url = ''https://s'', ys_name = ''English''\<rparr>])]\<rparr>"

end
