(* ===== verification/Media.thy ===== *)
theory Media
  imports MediaLink UrlName
begin

text \<open>
  \<^verbatim>\<open>internal/webui/media.go\<close>: what ffprobe says of a source, and the command lines of ffmpeg and
  ffprobe. What they print is an argument; their JSON is taken apart already. A stream's disposition
  and tags are Go maps, where a missing key reads as zero or the empty string.
\<close>

section \<open>Arguments\<close>

text \<open>\<^verbatim>\<open>strconv.FormatFloat\<close> with three decimals: the exact value, ties to even.\<close>

definition fixed3 :: "rat \<Rightarrow> string" where
  "fixed3 x =
     (let t = nat (round_half_even (1000 * x)); f = t mod 1000
      in nat_digits (t div 1000) @ ''.'' @ [digit_char (f div 100), digit_char (f div 10 mod 10), digit_char (f mod 10)])"

fun show_fixed3 :: "float64 \<Rightarrow> string" where
  "show_fixed3 (FFin x) = (if x < 0 then ''-'' @ fixed3 (- x) else fixed3 x)"
| "show_fixed3 FNaN = ''NaN''"
| "show_fixed3 (FInf s) = (if s then ''-Inf'' else ''+Inf'')"

definition crlf :: string where "crlf = [CHR 0x0D, CHR 0x0A]"

definition header_lines :: "headers \<Rightarrow> string" where
  "header_lines h =
     concat (map (\<lambda>name. concat (map (\<lambda>v. name @ '': '' @ v @ crlf) (case map_of h name of Some vs \<Rightarrow> vs | None \<Rightarrow> [])))
       (sort_by (<) (map fst h)))"

text \<open>Everything before \<^verbatim>\<open>-i\<close>, and with it.\<close>

definition input_options :: "media_source \<Rightarrow> float64 \<Rightarrow> string list" where
  "input_options src seek =
     (if src_path src = [] then
        (if src_ua src \<noteq> [] then [''-user_agent'', src_ua src] else []) @
        (let h = header_lines (src_header src) in if h \<noteq> [] then [''-headers'', h] else []) @
        [''-reconnect'', ''1'', ''-reconnect_streamed'', ''1'', ''-reconnect_delay_max'', ''5'']
      else []) @
     (if f64_less (FFin 0) seek then [''-ss'', show_fixed3 seek] else [])"

definition input_args :: "media_source \<Rightarrow> string \<Rightarrow> float64 \<Rightarrow> string list" where
  "input_args src inp seek = input_options src seek @ [''-i'', inp]"

definition src_input :: "media_source \<Rightarrow> string" where
  "src_input s = (if src_path s \<noteq> [] then src_path s else src_url s)"

definition probe_args :: "media_source \<Rightarrow> string list" where
  "probe_args src =
     (let inp = input_args src (src_input src) (FFin 0)
      in [''-v'', ''error'', ''-print_format'', ''json'', ''-show_format'', ''-show_streams''] @
         take (length inp - 2) inp @ [src_input src])"

section \<open>What ffprobe says\<close>

record probe_stream =
  ps_type :: string
  ps_codec :: string
  ps_profile :: string
  ps_level :: int
  ps_width :: int
  ps_height :: int
  ps_pix :: string
  ps_channels :: int
  ps_tags :: "(string \<times> string) list"
  ps_disposition :: "(string \<times> int) list"

record probe_output =
  po_duration :: string
  po_streams :: "probe_stream list"

definition tag_of :: "string \<Rightarrow> probe_stream \<Rightarrow> string" where
  "tag_of k s = (case map_of (ps_tags s) k of Some v \<Rightarrow> v | None \<Rightarrow> [])"

definition text_sub_codecs :: "string list" where
  "text_sub_codecs = [''subrip'', ''srt'', ''ass'', ''ssa'', ''webvtt'', ''mov_text'', ''text'']"

definition direct_exts :: "string list" where
  "direct_exts = [''.mp4'', ''.m4v'', ''.webm'', ''.mp3'', ''.m4a'', ''.ogg'', ''.opus'', ''.flac'', ''.wav'']"

definition direct_audio_codecs :: "string list" where
  "direct_audio_codecs = [''aac'', ''mp3'', ''opus'', ''vorbis'', ''flac'', ''pcm_s16le'', ''pcm_s24le'']"

definition direct_playable :: "string \<Rightarrow> media_info \<Rightarrow> bool" where
  "direct_playable name info \<longleftrightarrow>
     to_lower (path_ext name) \<in> set direct_exts \<and>
     (case mi_audio info of [] \<Rightarrow> True | [t] \<Rightarrow> tk_codec t \<in> set direct_audio_codecs | _ \<Rightarrow> False)"

definition h264_profiles :: "(string \<times> nat) list" where
  "h264_profiles =
     [(''Constrained Baseline'', 0x42), (''Baseline'', 0x42), (''Main'', 0x4d), (''Extended'', 0x58),
      (''High'', 0x64), (''High 10'', 0x6e), (''High 4:2:2'', 0x7a), (''High 4:4:4 Predictive'', 0xf4)]"

text \<open>\<^verbatim>\<open>%02x\<close> of a number that is not negative.\<close>

fun hex_nat :: "nat \<Rightarrow> string" where
  "hex_nat n = (if n < 16 then [hex_digit n] else hex_nat (n div 16) @ [hex_digit (n mod 16)])"

declare hex_nat.simps [simp del]

definition hex_two :: "nat \<Rightarrow> string" where
  "hex_two n = (if n < 16 then CHR ''0'' # hex_nat n else hex_nat n)"

definition video_mime :: "string \<Rightarrow> string \<Rightarrow> int \<Rightarrow> string \<Rightarrow> string" where
  "video_mime codec profile level pix =
     (let ten = contains_str pix ''10''
      in if codec = ''h264'' then
           mp4_mime (''avc1.'' @ hex_two (case map_of h264_profiles profile of Some n \<Rightarrow> n | None \<Rightarrow> 0x64) @ ''00'' @
             hex_two (nat (if level \<le> 0 then 40 else level)))
         else if codec = ''hevc'' then
           let l = itoa (if level \<le> 0 then 120 else level)
           in if ten \<or> contains_str profile ''10'' then mp4_mime (''hvc1.2.4.L'' @ l @ ''.B0'')
              else mp4_mime (''hvc1.1.6.L'' @ l @ ''.B0'')
         else if codec = ''vp9'' then mp4_mime (if ten then ''vp09.02.10.10'' else ''vp09.00.10.08'')
         else if codec = ''av1'' then mp4_mime (if ten then ''av01.0.08M.10'' else ''av01.0.08M.08'')
         else [])"

definition probe_one :: "probe_stream \<Rightarrow> media_info \<Rightarrow> media_info" where
  "probe_one s info =
     (if ps_type s = ''video'' then
        (if map_of (ps_disposition s) ''attached_pic'' = Some 1 \<or> mi_video info \<noteq> None then info
         else info\<lparr>mi_video := Some \<lparr>v_codec = ps_codec s, v_width = ps_width s, v_height = ps_height s,
                v_mime = video_mime (ps_codec s) (ps_profile s) (ps_level s) (ps_pix s)\<rparr>\<rparr>)
      else if ps_type s = ''audio'' then
        info\<lparr>mi_audio := mi_audio info @ [\<lparr>tk_index = int (length (mi_audio info)), tk_language = tag_of ''language'' s,
          tk_title = tag_of ''title'' s, tk_codec = ps_codec s, tk_channels = ps_channels s, tk_text = False\<rparr>]\<rparr>
      else if ps_type s = ''subtitle'' then
        info\<lparr>mi_subs := mi_subs info @ [\<lparr>tk_index = int (length (mi_subs info)), tk_language = tag_of ''language'' s,
          tk_title = tag_of ''title'' s, tk_codec = ps_codec s, tk_channels = 0,
          tk_text = (ps_codec s \<in> set text_sub_codecs)\<rparr>]\<rparr>
      else info)"

text \<open>A duration that does not parse is the value \<^verbatim>\<open>ParseFloat\<close> returns beside its error: 0 for one
  that is no number (out of range it is an infinity, which \<open>parse_float\<close> leaves out).\<close>

definition info_from_probe :: "string \<Rightarrow> probe_output \<Rightarrow> media_info" where
  "info_from_probe name p =
     (let info = fold probe_one (po_streams p)
            \<lparr>mi_name = name, mi_duration = (case parse_float (po_duration p) of Some f \<Rightarrow> f | None \<Rightarrow> FFin 0),
             mi_video = None, mi_audio = [], mi_subs = [], mi_direct = False\<rparr>
      in info\<lparr>mi_direct := direct_playable name info\<rparr>)"

section \<open>What ffmpeg is asked for\<close>

definition quiet_args :: "string list" where
  "quiet_args = [''-hide_banner'', ''-loglevel'', ''error'', ''-nostdin'']"

definition audio_choice :: "int \<Rightarrow> nat \<Rightarrow> nat" where
  "audio_choice audio n = (if audio < 0 \<or> int n \<le> audio then 0 else nat audio)"

text \<open>The sound: a further input, what to map, and its codec.\<close>

definition stream_sound :: "media_source \<Rightarrow> media_info \<Rightarrow> int \<Rightarrow> float64 \<Rightarrow> string list \<times> string \<times> string" where
  "stream_sound src info audio seek =
     (if src_audio src \<noteq> [] then
        let a = src_audio src ! audio_choice audio (length (src_audio src))
        in (input_args src (ai_url a) seek, ''1:a:0'', ai_codec a)
      else if mi_audio info \<noteq> [] then
        let k = audio_choice audio (length (mi_audio info))
        in ([], ''0:a:'' @ itoa (int k), tk_codec (mi_audio info ! k))
      else ([], [], []))"

definition stream_args :: "media_source \<Rightarrow> media_info \<Rightarrow> int \<Rightarrow> float64 \<Rightarrow> string list" where
  "stream_args src info audio seek =
     (case stream_sound src info audio seek of
        (extra, amap, codec) \<Rightarrow>
          quiet_args @ input_args src (src_input src) seek @ extra @
          (case mi_video info of
             None \<Rightarrow> []
           | Some v \<Rightarrow> [''-map'', ''0:v:0'', ''-c:v'', ''copy''] @ (if v_codec v = ''hevc'' then [''-tag:v'', ''hvc1''] else [])) @
          (if amap = [] then []
           else [''-map'', amap] @ (if is_aac codec then [''-c:a'', ''copy''] else [''-c:a'', ''aac'', ''-b:a'', ''160k'', ''-ac'', ''2''])) @
          [''-sn'', ''-dn'', ''-map_metadata'', ''-1'', ''-map_chapters'', ''-1'',
           ''-movflags'', ''frag_keyframe+empty_moov+default_base_moof'', ''-f'', ''mp4'', ''pipe:1''])"

definition remux_all_args :: "media_source \<Rightarrow> string list" where
  "remux_all_args src =
     quiet_args @ input_args src (src_input src) (FFin 0) @
     concat (map (\<lambda>a. input_args src (ai_url a) (FFin 0)) (src_audio src)) @
     [''-map'', ''0:v:0?''] @ (if src_audio src = [] then [''-map'', ''0:a?''] else []) @
     concat (map (\<lambda>(i, a). [''-map'', itoa (int i + 1) @ '':a:0''] @
         (if ai_language a \<noteq> [] then [''-metadata:s:a:'' @ itoa (int i), ''language='' @ ai_language a] else []))
       (enumerate 0 (src_audio src))) @
     [''-c'', ''copy'', ''-f'', ''matroska'', ''pipe:1'']"

definition subs_args :: "media_source \<Rightarrow> int \<Rightarrow> string list" where
  "subs_args src n =
     quiet_args @ input_args src (src_input src) (FFin 0) @ [''-map'', ''0:s:'' @ itoa n, ''-f'', ''webvtt'', ''pipe:1'']"

definition keyframe_args :: "media_source \<Rightarrow> float64 \<Rightarrow> string list" where
  "keyframe_args src t =
     (let inp = input_args src (src_input src) (FFin 0)
      in [''-v'', ''error'', ''-select_streams'', ''v:0'', ''-read_intervals'', show_fixed3 t @ ''%+#1'',
          ''-show_entries'', ''packet=pts_time'', ''-of'', ''csv=p=0''] @ take (length inp - 2) inp @ [src_input src])"

text \<open>\<^verbatim>\<open>lastLine\<close>, and the error of a command: \<open>stderr\<close> is there if it ran and failed.\<close>

definition last_line :: "string \<Rightarrow> string" where
  "last_line s = trim_space (last (split_on (CHR 0x0A) (trim_space s)))"

definition cmd_error :: "string option \<Rightarrow> gerror \<Rightarrow> gerror" where
  "cmd_error stderr e =
     (case stderr of
        None \<Rightarrow> e
      | Some s \<Rightarrow> if last_line s \<noteq> [] then ErrMsg (last_line s) else e)"

section \<open>Tracks\<close>

text \<open>The tracks of a file are numbered as ffmpeg numbers them, and only the first picture that is no
  cover counts.\<close>

lemma probe_one_tracks:
  "map tk_index (mi_audio info) = map int [0..<length (mi_audio info)] \<Longrightarrow>
   map tk_index (mi_subs info) = map int [0..<length (mi_subs info)] \<Longrightarrow>
   map tk_index (mi_audio (probe_one s info)) = map int [0..<length (mi_audio (probe_one s info))] \<and>
   map tk_index (mi_subs (probe_one s info)) = map int [0..<length (mi_subs (probe_one s info))]"
  by (simp add: probe_one_def)

lemma probe_fold_tracks:
  "map tk_index (mi_audio info) = map int [0..<length (mi_audio info)] \<Longrightarrow>
   map tk_index (mi_subs info) = map int [0..<length (mi_subs info)] \<Longrightarrow>
   map tk_index (mi_audio (fold probe_one ss info)) = map int [0..<length (mi_audio (fold probe_one ss info))] \<and>
   map tk_index (mi_subs (fold probe_one ss info)) = map int [0..<length (mi_subs (fold probe_one ss info))]"
proof (induction ss arbitrary: info)
  case (Cons s ss)
  then show ?case using probe_one_tracks [of info s] by simp
qed simp

lemma probe_tracks_numbered:
  "map tk_index (mi_audio (info_from_probe name p)) = map int [0..<length (mi_audio (info_from_probe name p))] \<and>
   map tk_index (mi_subs (info_from_probe name p)) = map int [0..<length (mi_subs (info_from_probe name p))]"
  unfolding info_from_probe_def Let_def using probe_fold_tracks by simp

text \<open>Whatever track a page asks for, the one that is played is there.\<close>

lemma audio_choice_there: "0 < n \<Longrightarrow> audio_choice audio n < n"
  by (auto simp: audio_choice_def)

lemma stream_sound_there:
  assumes "stream_sound src info audio seek = (extra, amap, codec)" and "amap \<noteq> []"
  shows "(\<exists>a\<in>set (src_audio src). amap = ''1:a:0'' \<and> extra = input_args src (ai_url a) seek \<and> codec = ai_codec a) \<or>
    extra = [] \<and> (\<exists>k < length (mi_audio info). amap = ''0:a:'' @ itoa (int k) \<and> codec = tk_codec (mi_audio info ! k))"
  using assms audio_choice_there [of "length (src_audio src)" audio] audio_choice_there [of "length (mi_audio info)" audio]
  by (auto simp: stream_sound_def Let_def split: if_splits)

text \<open>The credentials of a source go into the options of its own inputs only, and a file gets none.\<close>

lemma file_gets_no_headers: "src_path src \<noteq> [] \<Longrightarrow> ''-headers'' \<notin> set (input_options src (FFin 0))"
  by (simp add: input_options_def)

end
