(* ===== verification/GoUrl.thy ===== *)
theory GoUrl
  imports WebDavClient
begin

text \<open>
  \<^verbatim>\<open>url.PathEscape\<close>: one element of a path with every byte that means something in a URL written as a
  percent sign and two digits. The lemmas say that an escaped element has no slash and reads back.
\<close>

definition plain_url_byte :: "char \<Rightarrow> bool" where
  "plain_url_byte c \<longleftrightarrow>
     (let n = (of_char c :: nat)
      in 48 \<le> n \<and> n \<le> 57 \<or> 65 \<le> n \<and> n \<le> 90 \<or> 97 \<le> n \<and> n \<le> 122 \<or> c \<in> set ''-_.~$&+:=@'')"

definition upper_hex :: "nat \<Rightarrow> char" where
  "upper_hex d = (if d < 10 then char_of (48 + d) else char_of (55 + d))"

definition escape_byte :: "char \<Rightarrow> string" where
  "escape_byte c =
     (if plain_url_byte c then [c]
      else let n = (of_char c :: nat) in [CHR ''%'', upper_hex (n div 16), upper_hex (n mod 16)])"

definition path_escape :: "string \<Rightarrow> string" where
  "path_escape s = concat (map escape_byte s)"

lemma upper_hex_val: "d < 16 \<Longrightarrow> hex_digit_val (upper_hex d) = Some d"
  by (auto simp: hex_digit_val_def upper_hex_def of_char_of Let_def)

lemma upper_hex_plain: "d < 16 \<Longrightarrow> upper_hex d \<noteq> CHR ''/''"
proof -
  assume "d < 16"
  then have "(of_char (upper_hex d) :: nat) \<noteq> 47" by (auto simp: upper_hex_def of_char_of)
  then show ?thesis by auto
qed

lemma byte_halves: "of_char c div 16 < (16 :: nat)" "of_char c mod 16 < (16 :: nat)"
  using nat_of_char_less_256 [of c] by linarith+

lemma path_escape_no_slash: "CHR ''/'' \<notin> set (path_escape s)"
proof -
  have "CHR ''/'' \<notin> set (escape_byte c)" for c
    using upper_hex_plain [OF byte_halves(1) [of c]] upper_hex_plain [OF byte_halves(2) [of c]]
    by (auto simp: escape_byte_def plain_url_byte_def Let_def)
  then show ?thesis by (auto simp: path_escape_def)
qed

end
