(* ===== verification/Player.thy ===== *)
theory Player
  imports Media Relay Slots GoUrl
begin

text \<open>
  \<^verbatim>\<open>internal/webui/player.go\<close>: the player of the web page. It keeps sessions (the least recently used
  are dropped), links for other programs, and three slots for ffmpeg. What a link or a file turns out
  to contain, random numbers and the clock (nanoseconds) are arguments. The pool of slots is an
  interpretation of \<open>slot_pool\<close>.
\<close>

section \<open>State\<close>

record session =
  ss_src :: media_source
  ss_info :: media_info
  ss_used :: int
  ss_via :: "media_source option"

record ext_link =
  el_session :: string
  el_expires :: int

record player =
  pl_sessions :: "(string \<times> session) list"
  pl_links :: "(string \<times> ext_link) list"
  pl_streams :: "nat list"
  pl_relay :: relay

definition max_streams :: int where "max_streams = 3"
definition max_sessions :: nat where "max_sessions = 64"

definition new_player :: player where
  "new_player = \<lparr>pl_sessions = [], pl_links = [], pl_streams = [], pl_relay = \<lparr>rl_up = False, rl_addr = [], rl_targets = []\<rparr>\<rparr>"

section \<open>Sessions\<close>

text \<open>The session used longest ago, if one was used before now.\<close>

definition oldest_session :: "int \<Rightarrow> (string \<times> session) list \<Rightarrow> string option" where
  "oldest_session now ss =
     map_option fst (best_of (\<lambda>a b. ss_used (snd a) < ss_used (snd b)) (filter (\<lambda>p. ss_used (snd p) < now) ss))"

lemma use_order: "weak_order (\<lambda>a b. ss_used (snd a) < ss_used (snd b))"
  by unfold_locales auto

interpretation use_rank: weak_order "\<lambda>a b. ss_used (snd a) < ss_used (snd b)"
  by (rule use_order)

lemma oldest_session_in:
  "oldest_session now ss = Some k \<Longrightarrow>
   \<exists>s. (k, s) \<in> set ss \<and> ss_used s < now \<and> (\<forall>p\<in>set ss. ss_used s \<le> ss_used (snd p))"
proof -
  assume "oldest_session now ss = Some k"
  then obtain s where "best_of (\<lambda>a b. ss_used (snd a) < ss_used (snd b)) (filter (\<lambda>p. ss_used (snd p) < now) ss) = Some (k, s)"
    by (auto simp: oldest_session_def)
  from use_rank.best_of_best [OF this] show ?thesis by (force simp: not_less)
qed

function evict_sessions :: "int \<Rightarrow> (string \<times> session) list \<Rightarrow> (string \<times> session) list" where
  "evict_sessions now ss =
     (if length ss < max_sessions then ss
      else case oldest_session now ss of
          None \<Rightarrow> ss
        | Some k \<Rightarrow> evict_sessions now (AList.delete k ss))"
  by pat_completeness auto
termination
proof (relation "measure (\<lambda>(now, ss). length ss)")
  fix now ss k
  assume "oldest_session now ss = Some k"
  then have "\<exists>p\<in>set ss. fst p = k" using oldest_session_in by force
  then have "length (filter (\<lambda>p. fst p \<noteq> k) ss) < length ss"
    by (auto intro: length_filter_less)
  moreover have "AList.delete k ss = filter (\<lambda>p. fst p \<noteq> k) ss" by (auto simp: AList.delete_eq case_prod_unfold intro!: filter_cong)
  ultimately show "((now, AList.delete k ss), now, ss) \<in> measure (\<lambda>(now, ss). length ss)" by simp
qed simp

declare evict_sessions.simps [simp del]

definition evict :: "int \<Rightarrow> player \<Rightarrow> player" where
  "evict now p =
     p\<lparr>pl_links := filter (\<lambda>(_, l). \<not> el_expires l < now) (pl_links p), pl_sessions := evict_sessions now (pl_sessions p)\<rparr>"

definition use_session :: "int \<Rightarrow> string \<Rightarrow> player \<Rightarrow> session option \<times> player" where
  "use_session now i p =
     (case map_of (pl_sessions p) i of
        None \<Rightarrow> (None, p)
      | Some s \<Rightarrow>
          let s = s\<lparr>ss_used := now\<rparr> in (Some s, p\<lparr>pl_sessions := AList.update i s (pl_sessions p)\<rparr>))"

section \<open>Opening\<close>

record open_request =
  or_kind :: string
  or_link :: string
  or_quality :: int
  or_cookies :: string

definition letter :: "char \<Rightarrow> bool" where
  "letter c \<longleftrightarrow> (let n = (of_char c :: nat) in 65 \<le> n \<and> n \<le> 90 \<or> 97 \<le> n \<and> n \<le> 122)"

definition profile_char :: "char \<Rightarrow> bool" where
  "profile_char c \<longleftrightarrow> letter c \<or> digit_val c \<noteq> None \<or> c \<in> {CHR ''_'', CHR '' '', CHR ''.'', CHR ''-''}"

text \<open>\<^verbatim>\<open>browserRe\<close>: letters, perhaps a plus and letters, then at most two parts that start with a colon.
  No two neighbours can match the same byte, so reading ahead is never undone.\<close>

definition browser_ok :: "string \<Rightarrow> bool" where
  "browser_ok c =
     (let r = dropWhile letter c;
          k = (if r \<noteq> [] \<and> hd r = CHR ''+'' then tl r else []);
          r = (if k \<noteq> [] \<and> letter (hd k) then dropWhile letter k else r);
          ps = split_on (CHR '':'') r
      in takeWhile letter c \<noteq> [] \<and> hd ps = [] \<and> length ps \<le> 3 \<and> list_all (list_all profile_char) ps)"

definition bad_browser :: "string \<Rightarrow> gerror" where
  "bad_browser c = ErrMsg (go_quote c @ '' isn'' @ [CHR 0x27] @ ''t a browser name like firefox or chrome'')"

definition link_extra :: "string list \<Rightarrow> open_request \<Rightarrow> string list result" where
  "link_extra js r =
     (let c = trim_space (or_cookies r)
      in if c = [] then Inr js
         else if \<not> browser_ok c then Inl (bad_browser c)
         else Inr (js @ [''--cookies-from-browser'', c]))"

text \<open>\<open>scheme\<close> is what \<^verbatim>\<open>url.Parse\<close> makes of a link.\<close>

definition link_command :: "(string \<Rightarrow> string option) \<Rightarrow> string list \<Rightarrow> open_request \<Rightarrow> string list result" where
  "link_command scheme extra r =
     (let link = trim_space (or_link r)
      in if scheme link = Some ''http'' \<or> scheme link = Some ''https''
         then Inr ([''-J'', ''--no-playlist'', ''--no-warnings''] @ extra @ [link])
         else Inl (ErrMsg (''that doesn'' @ [CHR 0x27] @ ''t look like a web link'')))"

text \<open>The environment of an open: whether ffprobe and yt-dlp are there, the arguments for JavaScript, what
  yt-dlp answers to a command line, and what resolving and probing a file gives.\<close>

record open_env =
  oe_tool :: "gerror option"
  oe_ytdlp :: "gerror option"
  oe_js :: "string list"
  oe_scheme :: "string \<Rightarrow> string option"
  oe_answer :: "string list \<Rightarrow> ytdlp_info result"
  oe_ranged :: "ytdlp_format list \<Rightarrow> ytdlp_format list"
  oe_file :: "open_request \<Rightarrow> (media_source \<times> media_info) result"

definition open_media :: "open_env \<Rightarrow> open_request \<Rightarrow> (int \<times> gerror) + (media_source \<times> media_info)" where
  "open_media env r =
     (case oe_tool env of
        Some e \<Rightarrow> Inl (502, e)
      | None \<Rightarrow>
          if or_kind r \<noteq> ''link'' then (case oe_file env r of Inl e \<Rightarrow> Inl (502, e) | Inr x \<Rightarrow> Inr x)
          else case oe_ytdlp env of
            Some e \<Rightarrow> Inl (502, ErrMsg (''getting yt-dlp: '' @ err_string e))
          | None \<Rightarrow>
              (case link_extra (oe_js env) r of
                 Inl e \<Rightarrow> Inl (400, e)
               | Inr extra \<Rightarrow>
                   (case link_command (oe_scheme env) extra r of
                      Inl e \<Rightarrow> Inl (502, e)
                    | Inr args \<Rightarrow>
                        (case oe_answer env args of
                           Inl e \<Rightarrow> Inl (502, e)
                         | Inr y \<Rightarrow>
                             (case source_from_ytdlp (oe_ranged env) y (or_quality r) of
                                Inl e \<Rightarrow> Inl (502, e) | Inr x \<Rightarrow> Inr x)))))"

definition handle_open ::
  "open_env \<Rightarrow> int \<Rightarrow> string \<Rightarrow> open_request \<Rightarrow> player \<Rightarrow> ((int \<times> gerror) + (string \<times> media_info)) \<times> player" where
  "handle_open env now i r p =
     (case open_media env r of
        Inl e \<Rightarrow> (Inl e, p)
      | Inr (src, info) \<Rightarrow>
          let p = evict now p; s = \<lparr>ss_src = src, ss_info = info, ss_used = now, ss_via = None\<rparr>
          in (Inr (i, info), p\<lparr>pl_sessions := AList.update i s (pl_sessions p)\<rparr>))"

section \<open>Slots\<close>

definition take_stream :: "nat \<Rightarrow> player \<Rightarrow> bool \<times> player" where
  "take_stream k p =
     (if k \<notin> set (pl_streams p) \<and> int (length (pl_streams p)) < max_streams
      then (True, p\<lparr>pl_streams := k # pl_streams p\<rparr>) else (False, p))"

definition end_stream :: "nat \<Rightarrow> player \<Rightarrow> player" where
  "end_stream k p = p\<lparr>pl_streams := removeAll k (pl_streams p)\<rparr>"

text \<open>\<^verbatim>\<open>pipe\<close>: \<open>tool\<close> is the error of finding ffmpeg, \<open>slot\<close> whether \<^verbatim>\<open>acquire\<close> got one, \<open>started\<close> the error
  of starting it, \<open>out\<close> and \<open>stderr\<close> what it wrote, and \<open>read\<close> the error of reading nothing.\<close>

definition limited_write :: "nat \<Rightarrow> string list \<Rightarrow> string" where
  "limited_write n bs = take n (concat bs)"

definition pipe_answer ::
  "gerror option \<Rightarrow> bool \<Rightarrow> gerror option \<Rightarrow> string \<Rightarrow> string list \<Rightarrow> string \<Rightarrow> (int \<times> gerror) + string" where
  "pipe_answer tool slot started out stderr read =
     (case tool of
        Some e \<Rightarrow> Inl (502, e)
      | None \<Rightarrow>
          if \<not> slot then Inl (503, ErrMsg (''too many videos are playing at once '' @ [CHR 0xE2, CHR 0x80, CHR 0x94] @ '' close one and try again''))
          else case started of
            Some e \<Rightarrow> Inl (502, ErrMsg (''starting ffmpeg: '' @ err_string e))
          | None \<Rightarrow>
              if out = [] then
                let msg = trim_space (limited_write 4096 stderr)
                in Inl (502, ErrMsg (''ffmpeg couldn'' @ [CHR 0x27] @ ''t read this: '' @ last_line (if msg = [] then read else msg)))
              else Inr out)"

section \<open>Through the relay\<close>

text \<open>\<^verbatim>\<open>input\<close>: the addresses of a slow site are replaced by addresses of the relay. \<open>toks\<close> are the random
  tokens, one for each.\<close>

fun relay_audio :: "string result \<Rightarrow> int \<Rightarrow> string list \<Rightarrow> media_source \<Rightarrow> audio_input list \<Rightarrow> relay \<Rightarrow> audio_input list result \<times> relay" where
  "relay_audio listened now toks src [] r = (Inr [], r)"
| "relay_audio listened now toks src (a # as) r =
     (case relay_url listened now (hd toks) (ai_url a) ''audio'' (src_header src) (src_ua src) (src_chunk src) r of
        (Inl e, r) \<Rightarrow> (Inl e, r)
      | (Inr u, r) \<Rightarrow>
          (case relay_audio listened now (tl toks) src as r of
             (Inl e, r) \<Rightarrow> (Inl e, r)
           | (Inr as, r) \<Rightarrow> (Inr (a\<lparr>ai_url := u\<rparr> # as), r)))"

definition player_input :: "string result \<Rightarrow> int \<Rightarrow> string list \<Rightarrow> string \<Rightarrow> session \<Rightarrow> player \<Rightarrow> media_source result \<times> player" where
  "player_input listened now toks i s p =
     (if src_chunk (ss_src s) \<le> 0 then (Inr (ss_src s), p)
      else case ss_via s of
        Some v \<Rightarrow> (Inr v, p)
      | None \<Rightarrow>
          let src = ss_src s
          in (case relay_url listened now (hd toks) (src_url src) ''video'' (src_header src) (src_ua src) (src_chunk src) (pl_relay p) of
                (Inl e, r) \<Rightarrow> (Inl e, p\<lparr>pl_relay := r\<rparr>)
              | (Inr u, r) \<Rightarrow>
                  (case relay_audio listened now (tl toks) src (src_audio src) r of
                     (Inl e, r) \<Rightarrow> (Inl e, p\<lparr>pl_relay := r\<rparr>)
                   | (Inr as, r) \<Rightarrow>
                       let v = src\<lparr>src_url := u, src_audio := as, src_header := [], src_ua := []\<rparr>
                       in (Inr v, p\<lparr>pl_relay := r, pl_sessions := AList.update i (s\<lparr>ss_via := Some v\<rparr>) (pl_sessions p)\<rparr>))))"

section \<open>Handlers\<close>

text \<open>The number that \<^verbatim>\<open>strconv.ParseFloat\<close> returns when its error is ignored: zero for bad syntax,
  infinity for a number too large.\<close>

definition float_value :: "string \<Rightarrow> float64" where
  "float_value s =
     (case parse_float s of
        Some f \<Rightarrow> f
      | None \<Rightarrow>
          let neg = (s \<noteq> [] \<and> hd s = CHR ''-'');
              body = (if s \<noteq> [] \<and> (hd s = CHR ''-'' \<or> hd s = CHR ''+'') then tl s else s)
          in (case read_float body of None \<Rightarrow> FFin 0 | Some x \<Rightarrow> f64_round (if neg then - x else x)))"

definition expired_session :: "int \<times> gerror" where
  "expired_session = (404, ErrMsg (''this player session has expired '' @ [CHR 0xE2, CHR 0x80, CHR 0x94] @ '' reopen the video''))"

text \<open>The stream a request asks for: a session, an audio number and a time. A number that does not parse
  is zero, and so, as far as the choice of a track goes, is one out of range.\<close>

definition handle_stream ::
  "string result \<Rightarrow> string list \<Rightarrow> int \<Rightarrow> string \<Rightarrow> string \<Rightarrow> string \<Rightarrow> player \<Rightarrow> ((int \<times> gerror) + string list) \<times> player" where
  "handle_stream listened toks now i audio t p =
     (case use_session now i p of
        (None, p) \<Rightarrow> (Inl expired_session, p)
      | (Some s, p) \<Rightarrow>
          (case player_input listened now toks i s p of
             (Inl e, p) \<Rightarrow> (Inl (502, e), p)
           | (Inr src, p) \<Rightarrow>
               (Inr (stream_args src (ss_info s) (case atoi audio of Some n \<Rightarrow> n | None \<Rightarrow> 0)
                  (float_value t)), p)))"

text \<open>\<^verbatim>\<open>handleSeek\<close>: \<open>packet\<close> is what ffprobe printed, if it ran.\<close>

definition seek_start :: "session \<Rightarrow> float64 \<Rightarrow> string option \<Rightarrow> float64" where
  "seek_start s t packet =
     (if \<not> f64_less (FFin 0) t then (if f64_le t (FFin 0) then FFin 0 else t)
      else if mi_video (ss_info s) = None then t
      else case packet of
        None \<Rightarrow> t
      | Some out \<Rightarrow>
          (case parse_float (rev (dropWhile (\<lambda>c. c = CHR '','') (rev (trim_space (hd (split_on (CHR 0x0A) out)))))) of
             None \<Rightarrow> t
           | Some k \<Rightarrow> if f64_le (FFin 0) k \<and> f64_le k t then k else t))"

definition handle_seek ::
  "string result \<Rightarrow> string list \<Rightarrow> int \<Rightarrow> string \<Rightarrow> string \<Rightarrow> bool \<Rightarrow> (string list \<Rightarrow> string option) \<Rightarrow> player \<Rightarrow>
   ((int \<times> gerror) + float64) \<times> player" where
  "handle_seek listened toks now i tq tool run p =
     (case use_session now i p of
        (None, p) \<Rightarrow> (Inl expired_session, p)
      | (Some s, p) \<Rightarrow>
          let t = float_value tq
          in if f64_less (FFin 0) t \<and> mi_video (ss_info s) \<noteq> None \<and> tool then
               (case player_input listened now toks i s p of
                  (got, p) \<Rightarrow>
                    let src = (case got of Inr src \<Rightarrow> src | Inl _ \<Rightarrow> ss_src s)
                    in (Inr (seek_start s t (run (keyframe_args src t))), p))
             else (Inr (seek_start s t None), p))"

datatype subs_answer = SubsError int gerror | SubsFetch string | SubsExtract "string list"

definition handle_subs :: "int \<Rightarrow> string \<Rightarrow> string \<Rightarrow> player \<Rightarrow> subs_answer \<times> player" where
  "handle_subs now i track p =
     (case use_session now i p of
        (None, p) \<Rightarrow> (SubsError (fst expired_session) (snd expired_session), p)
      | (Some s, p) \<Rightarrow>
          (case atoi track of
             None \<Rightarrow> (SubsError 404 (ErrMsg ''no such subtitle track''), p)
           | Some n \<Rightarrow>
               if n < 0 \<or> int (length (mi_subs (ss_info s))) \<le> n then (SubsError 404 (ErrMsg ''no such subtitle track''), p)
               else if \<not> tk_text (mi_subs (ss_info s) ! nat n)
               then (SubsError 415 (ErrMsg (''picture-based subtitles can'' @ [CHR 0x27] @ ''t be shown in the browser'')), p)
               else if src_subs (ss_src s) \<noteq> [] then (SubsFetch (si_url (src_subs (ss_src s) ! nat n)), p)
               else (SubsExtract (subs_args (ss_src s) n), p)))"

section \<open>Links for other programs\<close>

definition handle_link :: "int \<Rightarrow> string \<Rightarrow> string \<Rightarrow> player \<Rightarrow> (int \<times> gerror) + (string \<times> string option) \<times> player" where
  "handle_link now tok i p =
     (case use_session now i p of
        (None, p) \<Rightarrow> Inl expired_session
      | (Some s, p) \<Rightarrow>
          let name = path_base (src_name (ss_src s));
              name = (if src_remote (ss_src s) then name @ ''.mkv'' else name);
              base = ''/s/'' @ tok @ ''/'' @ path_escape name
          in Inr ((base, if src_remote (ss_src s) then None else Some (base @ ''?dl=1'')),
                  p\<lparr>pl_links := AList.update tok \<lparr>el_session = i, el_expires = now + link_ttl\<rparr> (pl_links p)\<rparr>))"

datatype ext_answer = ExtExpired | ExtMethod | ExtError gerror | ExtRemux "string list" | ExtOriginal media_source bool

definition ext_token :: "string \<Rightarrow> string" where
  "ext_token p = fst (cut (CHR ''/'') (trim_prefix p ''/s/''))"

definition external_link ::
  "string result \<Rightarrow> string list \<Rightarrow> int \<Rightarrow> string \<Rightarrow> string \<Rightarrow> bool \<Rightarrow> player \<Rightarrow> ext_answer \<times> player" where
  "external_link listened toks now meth pth dl p =
     (case map_of (pl_links p) (ext_token pth) of
        None \<Rightarrow> (ExtExpired, p)
      | Some l \<Rightarrow>
          if \<not> now < el_expires l then (ExtExpired, p)
          else case use_session now (el_session l) p of
            (None, p) \<Rightarrow> (ExtExpired, p)
          | (Some s, p) \<Rightarrow>
              if meth \<noteq> ''GET'' \<and> meth \<noteq> ''HEAD'' then (ExtMethod, p)
              else if src_remote (ss_src s) then
                (case player_input listened now toks (el_session l) s p of
                   (Inl e, p) \<Rightarrow> (ExtError e, p)
                 | (Inr src, p) \<Rightarrow> (ExtRemux (remux_all_args src), p))
              else (ExtOriginal (ss_src s) dl, p))"

text \<open>\<^verbatim>\<open>serveOriginal\<close> of a remote file: the headers of the request to where it lives, and of the answer.
  \<open>by_ext\<close> is \<^verbatim>\<open>mime.TypeByExtension\<close>.\<close>

definition original_request :: "media_source \<Rightarrow> headers \<Rightarrow> headers" where
  "original_request src asked =
     fold (\<lambda>name hs. if header_get name asked \<noteq> [] then AList.update name [header_get name asked] hs else hs)
       [''Range'', ''If-Range'']
       (fold (\<lambda>(name, vals) hs. AList.update name vals hs) (src_header src) [])"

definition original_headers :: "(string \<Rightarrow> string) \<Rightarrow> media_source \<Rightarrow> headers \<Rightarrow> headers" where
  "original_headers by_ext src got =
     (let hs = fold (\<lambda>name hs. if header_get name got \<noteq> [] then AList.update name [header_get name got] hs else hs)
                 [''Content-Type'', ''Content-Length'', ''Content-Range'', ''Accept-Ranges'', ''Last-Modified'', ''ETag''] [];
          ct = by_ext (path_ext (src_name src))
      in if header_get ''Content-Type'' hs \<in> {[], ''application/octet-stream''} \<and> ct \<noteq> []
         then AList.update ''Content-Type'' [ct] hs else hs)"

end
