(* ===== verification/PlayerProps.thy ===== *)
theory PlayerProps
  imports Player
begin

text \<open>
  The player over a whole run: the operations of \<^verbatim>\<open>player.go\<close> as events with the time of each. An
  invariant bounds what it keeps, another ties every session and every link to the request that
  made it.
\<close>

section \<open>Runs\<close>

datatype player_op =
    POpen string open_env open_request
  | PStream string string string "string result" "string list"
  | PSeek string string bool "string list \<Rightarrow> string option" "string result" "string list"
  | PSubs string string
  | PUse string
  | PLink string string
  | PExternal string string bool "string result" "string list"
  | PTake nat
  | PEnd nat

fun player_does :: "int \<Rightarrow> player_op \<Rightarrow> player \<Rightarrow> player" where
  "player_does now (POpen i env r) p = snd (handle_open env now i r p)"
| "player_does now (PStream i audio t listened toks) p = snd (handle_stream listened toks now i audio t p)"
| "player_does now (PSeek i t tool run listened toks) p = snd (handle_seek listened toks now i t tool run p)"
| "player_does now (PSubs i track) p = snd (handle_subs now i track p)"
| "player_does now (PUse i) p = snd (use_session now i p)"
| "player_does now (PLink tok i) p = (case handle_link now tok i p of Inl _ \<Rightarrow> p | Inr (_, p) \<Rightarrow> p)"
| "player_does now (PExternal pth meth dl listened toks) p = snd (external_link listened toks now meth pth dl p)"
| "player_does now (PTake k) p = snd (take_stream k p)"
| "player_does now (PEnd k) p = end_stream k p"

definition player_run :: "(int \<times> player_op) list \<Rightarrow> player" where
  "player_run evs = fold (\<lambda>(now, op) p. player_does now op p) evs new_player"

lemma player_run_snoc [simp]: "player_run (evs @ [(now, op)]) = player_does now op (player_run evs)"
  and player_run_Nil [simp]: "player_run [] = new_player"
  by (simp_all add: player_run_def)

section \<open>Slots\<close>

interpretation player_slots: slot_pool "\<lambda>p. distinct (pl_streams p)" "\<lambda>p. set (pl_streams p)" "\<lambda>p. max_streams"
  take_stream end_stream
  by unfold_locales (auto simp: take_stream_def end_stream_def max_streams_def distinct_card distinct_removeAll split: if_splits)

section \<open>What an operation touches\<close>

definition session_content :: "player \<Rightarrow> string \<Rightarrow> (media_source \<times> media_info) option" where
  "session_content p i = map_option (\<lambda>s. (ss_src s, ss_info s)) (map_of (pl_sessions p) i)"

definition sessions_ok :: "int \<Rightarrow> player \<Rightarrow> bool" where
  "sessions_ok t p \<longleftrightarrow> wf_map (pl_sessions p) \<and> length (pl_sessions p) \<le> max_sessions \<and>
     (\<forall>i s. map_of (pl_sessions p) i = Some s \<longrightarrow> ss_used s \<le> t)"

lemma sessions_ok_mono: "sessions_ok t p \<Longrightarrow> t \<le> t' \<Longrightarrow> sessions_ok t' p"
  unfolding sessions_ok_def by (meson order_trans)

text \<open>What an operation may do that only reads a session: note its use and where it is relayed.\<close>

definition reads_only :: "int \<Rightarrow> player \<Rightarrow> player \<Rightarrow> bool" where
  "reads_only now p p' \<longleftrightarrow> session_content p' = session_content p \<and> pl_links p' = pl_links p \<and> pl_streams p' = pl_streams p \<and>
     (sessions_ok now p \<longrightarrow> sessions_ok now p') \<and> (wf_map (pl_sessions p) \<longrightarrow> wf_map (pl_sessions p'))"

lemma reads_only_refl [simp, intro]: "reads_only now p p"
  by (simp add: reads_only_def)

lemma reads_only_trans: "reads_only now p q \<Longrightarrow> reads_only now q r \<Longrightarrow> reads_only now p r"
  by (simp add: reads_only_def)

lemma reads_only_relay [intro]: "reads_only now p p' \<Longrightarrow> reads_only now p (p'\<lparr>pl_relay := r\<rparr>)"
  by (simp add: reads_only_def session_content_def [abs_def] sessions_ok_def)

lemma reads_only_update:
  assumes "map_of (pl_sessions p) i = Some s" and "ss_src s' = ss_src s" "ss_info s' = ss_info s" "ss_used s' \<le> now"
  shows "reads_only now p (p\<lparr>pl_sessions := AList.update i s' (pl_sessions p)\<rparr>)"
proof -
  from assms(1) have "i \<in> keys_of (pl_sessions p)" by (simp add: keys_of_map_of)
  with assms show ?thesis
    by (auto simp: reads_only_def session_content_def fun_eq_iff sessions_ok_def length_update)
qed

lemma use_session_reads:
  assumes "use_session now i p = (r, p')"
  shows "reads_only now p p'"
    and "r = Some s \<Longrightarrow> map_of (pl_sessions p') i = Some s \<and> ss_used s = now \<and> session_content p i = Some (ss_src s, ss_info s)"
    and "r = None \<Longrightarrow> p' = p \<and> session_content p i = None"
  using assms by (auto simp: use_session_def session_content_def Let_def split: option.splits intro!: reads_only_update)

lemma player_input_reads:
  assumes "player_input listened now toks i s p = (r, p')" "map_of (pl_sessions p) i = Some s" "ss_used s = now"
  shows "reads_only now p p'"
proof -
  have up: "reads_only now p (p\<lparr>pl_relay := x, pl_sessions := AList.update i (s\<lparr>ss_via := v\<rparr>) (pl_sessions p)\<rparr>)" for x v
    using reads_only_update [OF assms(2), of "s\<lparr>ss_via := v\<rparr>" now] assms(3)
    by (simp add: reads_only_def session_content_def [abs_def] sessions_ok_def)
  show ?thesis using assms(1) up
    by (auto simp: player_input_def Let_def split: if_splits option.splits prod.splits sum.splits)
qed

text \<open>What a stream reads is the session's own source; only the addresses and the headers may be the relay's.\<close>

lemma handle_stream_reads: "reads_only now p (snd (handle_stream listened toks now i audio t p))"
proof -
  obtain r p1 where u: "use_session now i p = (r, p1)" by fastforce
  note U = use_session_reads [OF u]
  show ?thesis
  proof (cases r)
    case None
    with u U show ?thesis by (simp add: handle_stream_def)
  next
    case (Some s)
    obtain a p2 where i: "player_input listened now toks i s p1 = (a, p2)" by fastforce
    have "snd (handle_stream listened toks now i audio t p) = p2"
      using u i Some by (auto simp: handle_stream_def split: sum.splits)
    with reads_only_trans [OF U(1) player_input_reads [OF i]] U(2) Some show ?thesis by simp
  qed
qed

lemma handle_seek_reads: "reads_only now p (snd (handle_seek listened toks now i t tool run p))"
proof -
  obtain r p1 where u: "use_session now i p = (r, p1)" by fastforce
  note U = use_session_reads [OF u]
  show ?thesis
  proof (cases r)
    case None
    with u U show ?thesis by (simp add: handle_seek_def)
  next
    case (Some s)
    obtain a p2 where i: "player_input listened now toks i s p1 = (a, p2)" by fastforce
    have "snd (handle_seek listened toks now i t tool run p) \<in> {p1, p2}"
      using u i Some by (auto simp: handle_seek_def Let_def)
    with U(1) reads_only_trans [OF U(1) player_input_reads [OF i]] U(2) Some show ?thesis by auto
  qed
qed

lemma handle_subs_reads: "reads_only now p (snd (handle_subs now i track p))"
proof -
  obtain r p1 where u: "use_session now i p = (r, p1)" by fastforce
  have "snd (handle_subs now i track p) = p1"
    using u by (auto simp: handle_subs_def split: option.splits)
  with use_session_reads(1) [OF u] show ?thesis by simp
qed

lemma external_link_reads:
  assumes "external_link listened toks now meth pth dl p = (a, p')"
  shows "reads_only now p p'"
    and "a \<noteq> ExtExpired \<Longrightarrow> \<exists>l src info. map_of (pl_links p) (ext_token pth) = Some l \<and> now < el_expires l \<and>
      session_content p (el_session l) = Some (src, info) \<and>
      (a = ExtMethod \<or> meth \<in> {''GET'', ''HEAD''} \<and> (if src_remote src then a \<noteq> ExtMethod \<and> (\<forall>s d. a \<noteq> ExtOriginal s d) else a = ExtOriginal src dl))"
proof -
  show "reads_only now p p'"
  proof (cases "map_of (pl_links p) (ext_token pth)")
    case (Some l)
    show ?thesis
    proof (cases "now < el_expires l")
      case True
      obtain r p1 where u: "use_session now (el_session l) p = (r, p1)" by fastforce
      note U = use_session_reads [OF u]
      show ?thesis
      proof (cases r)
        case r: (Some s)
        obtain b p2 where i: "player_input listened now toks (el_session l) s p1 = (b, p2)" by fastforce
        have "p' \<in> {p1, p2}"
          using assms Some True u i r by (auto simp: external_link_def split: if_splits sum.splits)
        with U(1) reads_only_trans [OF U(1) player_input_reads [OF i]] U(2) r show ?thesis by auto
      qed (use assms Some True u U in \<open>simp add: external_link_def\<close>)
    qed (use assms Some in \<open>simp add: external_link_def\<close>)
  qed (use assms in \<open>simp add: external_link_def\<close>)
next
  assume a: "a \<noteq> ExtExpired"
  with assms obtain l where l: "map_of (pl_links p) (ext_token pth) = Some l" "now < el_expires l"
    by (auto simp: external_link_def split: option.splits if_splits)
  obtain r p1 where u: "use_session now (el_session l) p = (r, p1)" by fastforce
  with assms a l obtain s where s: "r = Some s" by (auto simp: external_link_def split: option.splits)
  have "a = ExtMethod \<or> meth \<in> {''GET'', ''HEAD''} \<and> (if src_remote (ss_src s) then a \<noteq> ExtMethod \<and> (\<forall>s d. a \<noteq> ExtOriginal s d) else a = ExtOriginal (ss_src s) dl)"
    using assms l u s by (auto simp: external_link_def split: if_splits sum.splits prod.splits)
  with l use_session_reads(2) [OF u s] show "\<exists>l src info. map_of (pl_links p) (ext_token pth) = Some l \<and> now < el_expires l \<and>
      session_content p (el_session l) = Some (src, info) \<and>
      (a = ExtMethod \<or> meth \<in> {''GET'', ''HEAD''} \<and> (if src_remote src then a \<noteq> ExtMethod \<and> (\<forall>s d. a \<noteq> ExtOriginal s d) else a = ExtOriginal src dl))"
    by blast
qed

section \<open>Eviction\<close>

text \<open>Eviction drops sessions, and only those used before now and no later than any that stays.\<close>

lemma evict_sessions_keeps:
  "wf_map ss \<Longrightarrow> wf_map (evict_sessions now ss) \<and> map_of (evict_sessions now ss) \<subseteq>\<^sub>m map_of ss"
proof (induction now ss rule: evict_sessions.induct)
  case (1 now ss)
  have "wf_map (evict_sessions now (AList.delete k ss)) \<and> map_of (evict_sessions now (AList.delete k ss)) \<subseteq>\<^sub>m map_of ss"
    if "\<not> length ss < max_sessions" "oldest_session now ss = Some k" for k
  proof -
    have "map_of (AList.delete k ss) \<subseteq>\<^sub>m map_of ss" by (auto simp: map_le_def)
    moreover have "wf_map (AList.delete k ss)" using "1.prems" by simp
    ultimately show ?thesis using "1.IH" [OF that] map_le_trans by blast
  qed
  with "1.prems" show ?case by (subst (1 2) evict_sessions.simps) (auto split: option.splits)
qed

lemma evict_sessions_room:
  assumes "wf_map ss" "\<forall>i s. map_of ss i = Some s \<longrightarrow> ss_used s < now"
  shows "length (evict_sessions now ss) < max_sessions"
  using assms
proof (induction now ss rule: evict_sessions.induct)
  case (1 now ss)
  show ?case
  proof (cases "length ss < max_sessions")
    case False
    then have "ss \<noteq> []" by (auto simp: max_sessions_def)
    moreover have "ss_used (snd q) < now" if "q \<in> set ss" for q
      using "1.prems" that by (metis map_of_is_SomeI prod.collapse wf_map_def)
    ultimately have "filter (\<lambda>q. ss_used (snd q) < now) ss \<noteq> []" by (auto simp: filter_empty_conv neq_Nil_conv)
    then have "oldest_session now ss \<noteq> None" by (simp add: oldest_session_def)
    then obtain k where k: "oldest_session now ss = Some k" by blast
    have "length (evict_sessions now (AList.delete k ss)) < max_sessions"
      using False k "1.prems" by (intro "1.IH") (auto split: if_splits)
    with False k show ?thesis by (subst evict_sessions.simps) simp
  qed (subst evict_sessions.simps, simp)
qed

lemma evict_sessions_oldest:
  assumes "wf_map ss" "map_of ss i = Some s" "map_of (evict_sessions now ss) i = None" "map_of (evict_sessions now ss) j = Some s'"
  shows "ss_used s < now \<and> ss_used s \<le> ss_used s'"
  using assms
proof (induction now ss rule: evict_sessions.induct)
  case (1 now ss)
  show ?case
  proof (cases "length ss < max_sessions \<or> oldest_session now ss = None")
    case True
    then have "evict_sessions now ss = ss" by (subst evict_sessions.simps) auto
    with "1.prems" show ?thesis by simp
  next
    case False
    then obtain k where k: "\<not> length ss < max_sessions" "oldest_session now ss = Some k" by auto
    then have e: "evict_sessions now ss = evict_sessions now (AList.delete k ss)" by (subst evict_sessions.simps) simp
    from oldest_session_in [OF k(2)] obtain sk where sk: "(k, sk) \<in> set ss" "ss_used sk < now" "\<forall>q\<in>set ss. ss_used sk \<le> ss_used (snd q)"
      by blast
    show ?thesis
    proof (cases "i = k")
      case True
      with sk "1.prems"(1,2) have "sk = s" by (simp add: wf_map_def)
      moreover have "(j, s') \<in> set ss"
        using "1.prems"(1,4) evict_sessions_keeps [of ss now] by (auto simp: map_le_def dom_def intro: map_of_SomeD)
      ultimately show ?thesis using sk by fastforce
    next
      case False
      then show ?thesis using "1.IH" [OF k] "1.prems" e by auto
    qed
  qed
qed

lemma handle_open_state:
  assumes "handle_open env now i r p = (a, p')"
  shows "p' = p \<or> (\<exists>src info. open_media env r = Inr (src, info) \<and>
     p' = evict now p\<lparr>pl_sessions := AList.update i \<lparr>ss_src = src, ss_info = info, ss_used = now, ss_via = None\<rparr> (pl_sessions (evict now p))\<rparr>)"
  using assms by (auto simp: handle_open_def Let_def split: sum.splits)

lemma handle_link_state:
  assumes "handle_link now tok i p = Inr (a, p')"
  obtains s p1 where "use_session now i p = (Some s, p1)"
    and "p' = p1\<lparr>pl_links := AList.update tok \<lparr>el_session = i, el_expires = now + link_ttl\<rparr> (pl_links p1)\<rparr>"
  using assms by (auto simp: handle_link_def Let_def split: prod.splits option.splits)

section \<open>Bounds\<close>

lemma new_player_ok: "sessions_ok t new_player"
  by (simp add: sessions_ok_def new_player_def max_sessions_def)

lemma handle_open_ok:
  assumes "sessions_ok t p" "t < now"
  shows "sessions_ok now (snd (handle_open env now i r p))"
proof -
  obtain a p' where o: "handle_open env now i r p = (a, p')" by fastforce
  have wf: "wf_map (pl_sessions p)" and old: "\<forall>i s. map_of (pl_sessions p) i = Some s \<longrightarrow> ss_used s < now"
    using assms by (auto simp: sessions_ok_def intro: le_less_trans)
  from evict_sessions_keeps [OF wf] evict_sessions_room [OF wf old] old
  have "length (pl_sessions (evict now p)) < max_sessions" "wf_map (pl_sessions (evict now p))"
    "\<forall>i s. map_of (pl_sessions (evict now p)) i = Some s \<longrightarrow> ss_used s \<le> now"
    by (auto simp: evict_def map_le_def dom_def) force
  then have "sessions_ok now (evict now p\<lparr>pl_sessions := AList.update i s (pl_sessions (evict now p))\<rparr>)" if "ss_used s \<le> now" for s
    using that by (auto simp: sessions_ok_def length_update)
  with handle_open_state [OF o] sessions_ok_mono [OF assms(1)] assms(2) show ?thesis by (auto simp: o)
qed

lemma player_does_ok:
  assumes "sessions_ok t p" "t < now"
  shows "sessions_ok now (player_does now op p)"
proof -
  have now: "sessions_ok now p" using sessions_ok_mono [OF assms(1)] assms(2) by simp
  have reads: "reads_only now p p' \<Longrightarrow> sessions_ok now p'" for p' using now by (simp add: reads_only_def)
  show ?thesis
  proof (cases op)
    case (POpen i env r)
    then show ?thesis using handle_open_ok [OF assms] by simp
  next
    case (PStream i audio tq listened toks)
    then show ?thesis using reads [OF handle_stream_reads] by simp
  next
    case (PSeek i tq tool run listened toks)
    then show ?thesis using reads [OF handle_seek_reads] by simp
  next
    case (PSubs i track)
    then show ?thesis using reads [OF handle_subs_reads] by simp
  next
    case (PUse i)
    then show ?thesis using reads use_session_reads(1) by (cases "use_session now i p") simp
  next
    case (PLink tok i)
    show ?thesis
    proof (cases "handle_link now tok i p")
      case (Inr b)
      obtain a p' where b: "b = (a, p')" by fastforce
      from Inr b obtain s p1 where u: "use_session now i p = (Some s, p1)"
        and p': "p' = p1\<lparr>pl_links := AList.update tok \<lparr>el_session = i, el_expires = now + link_ttl\<rparr> (pl_links p1)\<rparr>"
        by (auto elim: handle_link_state)
      have "sessions_ok now p1" using reads [OF use_session_reads(1) [OF u]] .
      with Inr b p' PLink show ?thesis by (simp add: sessions_ok_def)
    qed (use PLink now in simp)
  next
    case (PExternal pth meth dl listened toks)
    then show ?thesis using reads external_link_reads(1) by (cases "external_link listened toks now meth pth dl p") simp
  next
    case (PTake k)
    then show ?thesis using now by (simp add: take_stream_def sessions_ok_def)
  next
    case (PEnd k)
    then show ?thesis using now by (simp add: end_stream_def sessions_ok_def)
  qed
qed

text \<open>Only the slots' own operations change what is streaming.\<close>

lemma player_does_streams:
  "player_slots.bounded max_streams p \<Longrightarrow> player_slots.bounded max_streams (player_does now op p)"
proof (cases op)
  case (PTake k)
  assume "player_slots.bounded max_streams p"
  with PTake show ?thesis using player_slots.acquire_bounded by (cases "take_stream k p") simp
next
  case (PEnd k)
  assume "player_slots.bounded max_streams p"
  with PEnd show ?thesis using player_slots.release_bounded by simp
next
  case (POpen i env r)
  moreover obtain a p' where "handle_open env now i r p = (a, p')" by fastforce
  moreover assume "player_slots.bounded max_streams p"
  ultimately show ?thesis using handle_open_state by (fastforce simp: player_slots.bounded_def evict_def)
next
  case (PLink tok i)
  assume "player_slots.bounded max_streams p"
  with PLink show ?thesis
    using use_session_reads(1) by (auto simp: player_slots.bounded_def reads_only_def split: sum.splits elim!: handle_link_state)
next
  case (PStream i audio tq listened toks)
  assume "player_slots.bounded max_streams p"
  with PStream show ?thesis using handle_stream_reads by (auto simp: player_slots.bounded_def reads_only_def)
next
  case (PSeek i tq tool run listened toks)
  assume "player_slots.bounded max_streams p"
  with PSeek show ?thesis using handle_seek_reads by (auto simp: player_slots.bounded_def reads_only_def)
next
  case (PSubs i track)
  assume "player_slots.bounded max_streams p"
  with PSubs show ?thesis using handle_subs_reads by (auto simp: player_slots.bounded_def reads_only_def)
next
  case (PUse i)
  assume "player_slots.bounded max_streams p"
  with PUse show ?thesis using use_session_reads(1)
    by (cases "use_session now i p") (auto simp: player_slots.bounded_def reads_only_def)
next
  case (PExternal pth meth dl listened toks)
  assume "player_slots.bounded max_streams p"
  with PExternal show ?thesis using external_link_reads(1)
    by (cases "external_link listened toks now meth pth dl p") (auto simp: player_slots.bounded_def reads_only_def)
qed

lemma player_run_ok:
  "sorted_wrt (<) (map fst evs) \<Longrightarrow>
   player_slots.bounded max_streams (player_run evs) \<and>
   (evs \<noteq> [] \<longrightarrow> sessions_ok (fst (last evs)) (player_run evs)) \<and> (evs = [] \<longrightarrow> (\<forall>t. sessions_ok t (player_run evs)))"
proof (induction evs rule: rev_induct)
  case Nil
  then show ?case by (simp add: new_player_ok player_slots.bounded_def) (simp add: new_player_def max_streams_def)
next
  case (snoc e evs)
  obtain now op where e: "e = (now, op)" by fastforce
  from snoc.prems e have lt: "evs \<noteq> [] \<Longrightarrow> fst (last evs) < now" and sorted: "sorted_wrt (<) (map fst evs)"
    by (auto simp: sorted_wrt_append)
  obtain t where "sessions_ok t (player_run evs)" "t < now"
    using snoc.IH [OF sorted] lt by (cases "evs = []") (auto intro: that [of "now - 1"] that)
  then have "sessions_ok now (player_does now op (player_run evs))" by (rule player_does_ok)
  with snoc.IH [OF sorted] show ?case by (simp add: e player_does_streams)
qed

text \<open>C34: 
  C1: However the page is used, as long as the clock moves, the player holds at most 64 sessions and runs
  at most three ffmpegs, each of them once.
\<close>
theorem player_stays_bounded:
  assumes "sorted_wrt (<) (map fst evs)"
  shows "length (pl_sessions (player_run evs)) \<le> 64 \<and> length (pl_streams (player_run evs)) \<le> 3 \<and>
    distinct (pl_streams (player_run evs)) \<and> distinct (map fst (pl_sessions (player_run evs)))"
proof -
  from player_run_ok [OF assms] have "player_slots.bounded max_streams (player_run evs)"
    and "\<exists>t. sessions_ok t (player_run evs)" by (cases "evs = []"; blast)+
  moreover from this(1) have "distinct (pl_streams (player_run evs))" "length (pl_streams (player_run evs)) \<le> 3"
    unfolding player_slots.bounded_def by (auto simp: distinct_card max_streams_def)
  ultimately show ?thesis by (auto simp: sessions_ok_def max_sessions_def wf_map_def)
qed

section \<open>Links\<close>

text \<open>Where everything the player holds comes from.\<close>

definition opened_as :: "(int \<times> player_op) list \<Rightarrow> string \<Rightarrow> media_source \<times> media_info \<Rightarrow> bool" where
  "opened_as evs i x \<longleftrightarrow> (\<exists>t env r. (t, POpen i env r) \<in> set evs \<and> open_media env r = Inr x)"

definition comes_from :: "(int \<times> player_op) list \<Rightarrow> player \<Rightarrow> bool" where
  "comes_from evs p \<longleftrightarrow> wf_map (pl_sessions p) \<and> wf_map (pl_links p) \<and>
     (\<forall>i x. session_content p i = Some x \<longrightarrow> opened_as evs i x) \<and>
     (\<forall>tok l. map_of (pl_links p) tok = Some l \<longrightarrow> (el_expires l - link_ttl, PLink tok (el_session l)) \<in> set evs)"

lemma comes_from_mono: "comes_from evs p \<Longrightarrow> comes_from (evs @ xs) p"
  by (fastforce simp: comes_from_def opened_as_def)

lemma comes_from_reads: "comes_from evs p \<Longrightarrow> reads_only now p p' \<Longrightarrow> comes_from (evs @ xs) p'"
  using comes_from_mono by (simp add: comes_from_def reads_only_def)

lemma evict_comes_from:
  assumes "comes_from evs p"
  shows "comes_from evs (evict now p)"
proof -
  from assms have wf: "wf_map (pl_sessions p)" "wf_map (pl_links p)" by (simp_all add: comes_from_def)
  show ?thesis unfolding comes_from_def
  proof (intro conjI allI impI)
    show "wf_map (pl_sessions (evict now p))" using evict_sessions_keeps [OF wf(1)] by (simp add: evict_def)
    show "wf_map (pl_links (evict now p))"
      using wf(2) by (auto simp: evict_def wf_map_def intro: distinct_map_filter)
    fix i x
    assume "session_content (evict now p) i = Some x"
    then have "session_content p i = Some x"
      using evict_sessions_keeps [OF wf(1), of now] by (auto simp: session_content_def evict_def map_le_def dom_def)
    with assms(1) show "opened_as evs i x" unfolding comes_from_def by blast
  next
    fix tok l
    assume "map_of (pl_links (evict now p)) tok = Some l"
    then have "(tok, l) \<in> set (pl_links p)" by (auto simp: evict_def dest: map_of_SomeD)
    with wf(2) have "map_of (pl_links p) tok = Some l" by (simp add: wf_map_def)
    with assms(1) show "(el_expires l - link_ttl, PLink tok (el_session l)) \<in> set evs" by (simp add: comes_from_def)
  qed
qed

lemma player_run_comes_from: "comes_from evs (player_run evs)"
proof (induction evs rule: rev_induct)
  case Nil
  then show ?case by (simp add: comes_from_def session_content_def new_player_def)
next
  case (snoc e evs)
  obtain now op where e: "e = (now, op)" by fastforce
  let ?p = "player_run evs"
  have reads: "comes_from (evs @ [e]) p'" if "reads_only now ?p p'" for p'
    using comes_from_reads [OF snoc that] .
  have same: "comes_from (evs @ [e]) p'" if "session_content p' = session_content ?p" "pl_links p' = pl_links ?p" "pl_sessions p' = pl_sessions ?p" for p'
    using comes_from_mono [OF snoc, of "[e]"] that unfolding comes_from_def by simp
  show ?case
  proof (cases op)
    case (POpen i env r)
    obtain a p' where o: "handle_open env now i r ?p = (a, p')" by fastforce
    have ev: "comes_from (evs @ [e]) (evict now ?p)" using comes_from_mono [OF evict_comes_from [OF snoc]] .
    from handle_open_state [OF o] have "comes_from (evs @ [e]) p'"
    proof (elim disjE exE conjE)
      fix src info
      assume media: "open_media env r = Inr (src, info)"
        and p': "p' = evict now ?p\<lparr>pl_sessions := AList.update i \<lparr>ss_src = src, ss_info = info, ss_used = now, ss_via = None\<rparr> (pl_sessions (evict now ?p))\<rparr>"
      from media have "opened_as (evs @ [e]) i (src, info)" by (auto simp: opened_as_def e POpen)
      with ev show ?thesis unfolding p' by (simp add: comes_from_def session_content_def)
    qed (simp add: comes_from_mono [OF snoc])
    with o show ?thesis by (simp add: e POpen)
  next
    case (PLink tok i)
    show ?thesis
    proof (cases "handle_link now tok i ?p")
      case (Inr b)
      obtain a p' where b: "b = (a, p')" by fastforce
      from Inr b obtain s p1 where u: "use_session now i ?p = (Some s, p1)"
        and p': "p' = p1\<lparr>pl_links := AList.update tok \<lparr>el_session = i, el_expires = now + link_ttl\<rparr> (pl_links p1)\<rparr>"
        by (auto elim: handle_link_state)
      have "comes_from (evs @ [e]) p1" using reads [OF use_session_reads(1) [OF u]] .
      then have "comes_from (evs @ [e]) p'" by (auto simp: p' comes_from_def session_content_def e PLink)
      with Inr b show ?thesis by (simp add: e PLink)
    qed (use comes_from_mono [OF snoc] in \<open>simp add: e PLink\<close>)
  next
    case (PUse i)
    then show ?thesis using reads use_session_reads(1) by (cases "use_session now i ?p") (simp add: e)
  next
    case (PExternal pth meth dl listened toks)
    then show ?thesis using reads external_link_reads(1) by (cases "external_link listened toks now meth pth dl ?p") (simp add: e)
  next
    case (PStream i audio tq listened toks)
    show ?thesis using reads [OF handle_stream_reads] by (simp add: e PStream)
  next
    case (PSeek i tq tool run listened toks)
    show ?thesis using reads [OF handle_seek_reads] by (simp add: e PSeek)
  next
    case (PSubs i track)
    show ?thesis using reads [OF handle_subs_reads] by (simp add: e PSubs)
  next
    case (PTake k)
    have "comes_from (evs @ [e]) (snd (take_stream k ?p))" by (rule same) (auto simp: take_stream_def session_content_def)
    then show ?thesis by (simp add: e PTake)
  next
    case (PEnd k)
    have "comes_from (evs @ [e]) (end_stream k ?p)" by (rule same) (auto simp: end_stream_def session_content_def)
    then show ?thesis by (simp add: e PEnd)
  qed
qed


text \<open>
  C1: A link made for a session opens it: the address it is given, and any other name in it, is answered
  for twelve hours with the session's own source, the file itself or a remux of the site's stream.
\<close>
theorem made_link_opens_session:
  assumes "handle_link t tok i p = Inr ((base, dlbase), p')" and "CHR ''/'' \<notin> set tok" and "t \<le> now" "now < t + link_ttl"
  shows "\<exists>s name. map_of (pl_sessions p) i = Some s \<and> base = ''/s/'' @ tok @ ''/'' @ name \<and> CHR ''/'' \<notin> set name \<and>
    (\<forall>rest. \<not> src_remote (ss_src s) \<longrightarrow>
       fst (external_link listened toks now ''GET'' (''/s/'' @ tok @ ''/'' @ rest) dl p') = ExtOriginal (ss_src s) dl) \<and>
    (\<forall>rest. src_remote (ss_src s) \<longrightarrow> src_chunk (ss_src s) \<le> 0 \<longrightarrow>
       fst (external_link listened toks now ''GET'' (''/s/'' @ tok @ ''/'' @ rest) dl p') = ExtRemux (remux_all_args (ss_src s)))"
proof -
  from assms(1) obtain s p1 where u: "use_session t i p = (Some s, p1)"
    and p': "p' = p1\<lparr>pl_links := AList.update tok \<lparr>el_session = i, el_expires = t + link_ttl\<rparr> (pl_links p1)\<rparr>"
    by (auto elim: handle_link_state)
  from u obtain s0 where s0: "map_of (pl_sessions p) i = Some s0" "s = s0\<lparr>ss_used := t\<rparr>"
    by (auto simp: use_session_def Let_def split: option.splits)
  have tok: "ext_token (''/s/'' @ tok @ ''/'' @ rest) = tok" for rest
    using cut_found [OF assms(2), of rest] by (simp add: ext_token_def trim_prefix_def)
  have "\<exists>name. base = ''/s/'' @ tok @ ''/'' @ path_escape name"
    using assms(1) u by (auto simp: handle_link_def Let_def)
  moreover have "map_of (pl_sessions p') i = Some s" using use_session_reads(2) [OF u] by (simp add: p')
  then have "fst (external_link listened toks now ''GET'' q dl p') =
      (if src_remote (ss_src s) then ExtRemux (remux_all_args (ss_src s)) else ExtOriginal (ss_src s) dl)"
    if "ext_token q = tok" "src_remote (ss_src s) \<longrightarrow> src_chunk (ss_src s) \<le> 0" for q
    using that s0 assms(4) by (simp add: external_link_def p' use_session_def player_input_def Let_def)
  note this [OF tok]
  ultimately show ?thesis
    using s0 path_escape_no_slash by (intro exI [of _ s0]) auto
qed

text \<open>
  C1: What the page may choose exists: in every run, the subtitle a request is sent on to is one of the
  session's own, so no request ends in an index out of range. A resolved file is assumed to bring no
  subtitle addresses of its own, which only a site does.
\<close>
theorem subtitle_choice_exists:
  assumes "\<And>t i env r src info. (t, POpen i env r) \<in> set evs \<Longrightarrow> oe_file env r = Inr (src, info) \<Longrightarrow> src_subs src = []"
    and "handle_subs now i track (player_run evs) = (SubsFetch u, p')"
  shows "\<exists>src info n. session_content (player_run evs) i = Some (src, info) \<and> n < length (src_subs src) \<and>
    n < length (mi_subs info) \<and> tk_index (mi_subs info ! n) = int n \<and> atoi track = Some (int n) \<and> u = si_url (src_subs src ! n)"
proof -
  obtain r p1 where us: "use_session now i (player_run evs) = (r, p1)" by fastforce
  with assms(2) obtain s n where s: "r = Some s" "atoi track = Some n" "0 \<le> n" "n < int (length (mi_subs (ss_info s)))"
    "src_subs (ss_src s) \<noteq> []" "u = si_url (src_subs (ss_src s) ! nat n)"
    by (auto simp: handle_subs_def split: option.splits if_splits)
  have c: "session_content (player_run evs) i = Some (ss_src s, ss_info s)" using use_session_reads(2) [OF us s(1)] by simp
  with player_run_comes_from [of evs] have "opened_as evs i (ss_src s, ss_info s)" unfolding comes_from_def by blast
  then obtain t env r where "(t, POpen i env r) \<in> set evs" and media: "open_media env r = Inr (ss_src s, ss_info s)"
    by (auto simp: opened_as_def)
  then have "oe_file env r \<noteq> Inr (ss_src s, ss_info s)" using assms(1) s(5) by blast
  with media obtain y where "source_from_ytdlp (oe_ranged env) y (or_quality r) = Inr (ss_src s, ss_info s)"
    by (auto simp: open_media_def split: option.splits sum.splits if_splits)
  from link_tracks_match [OF this] have m: "map tk_index (mi_subs (ss_info s)) = map int [0..<length (src_subs (ss_src s))]" by simp
  then have len: "length (mi_subs (ss_info s)) = length (src_subs (ss_src s))" by (metis length_map length_upt minus_nat.diff_0)
  have "tk_index (mi_subs (ss_info s) ! nat n) = map tk_index (mi_subs (ss_info s)) ! nat n" using s by simp
  also have "\<dots> = int (nat n)" unfolding m using s len by simp
  finally show ?thesis using c s len by (intro exI [of _ "ss_src s"] exI [of _ "ss_info s"] exI [of _ "nat n"]) auto
qed

section \<open>Examples\<close>

definition sample_file :: media_source where
  "sample_file = empty_source\<lparr>src_name := ''a/film.mkv'', src_path := ''/home/film.mkv''\<rparr>"

definition sample_env :: open_env where
  "sample_env = \<lparr>oe_tool = None, oe_ytdlp = None, oe_js = [], oe_scheme = (\<lambda>_. Some ''https''),
     oe_answer = (\<lambda>_. Inr sample_link), oe_ranged = (\<lambda>xs. xs),
     oe_file = (\<lambda>_. Inr (sample_file, \<lparr>mi_name = ''film'', mi_duration = FFin 60, mi_video = None, mi_audio = [], mi_subs = [], mi_direct = False\<rparr>))\<rparr>"

definition sample_run :: "(int \<times> player_op) list" where
  "sample_run = [(1, POpen ''v'' sample_env \<lparr>or_kind = ''job'', or_link = [], or_quality = 0, or_cookies = []\<rparr>),
     (2, POpen ''w'' sample_env \<lparr>or_kind = ''link'', or_link = ''https://s/v'', or_quality = 0, or_cookies = []\<rparr>),
     (3, PLink ''tok'' ''v''), (4, PTake 1), (5, PTake 2)]"

theorem player_stays_bounded_witness:
  "length (pl_sessions (player_run sample_run)) \<le> 64 \<and> pl_streams (player_run sample_run) = [2, 1] \<and> distinct (pl_streams (player_run sample_run))"
proof -
  have "pl_streams (player_run sample_run) = [2, 1]" by code_simp
  with player_stays_bounded [of sample_run] show ?thesis by (simp add: sample_run_def)
qed


theorem made_link_opens_session_witness:
  "\<exists>base dlbase p'. handle_link 6 ''t'' ''v'' (player_run sample_run) = Inr ((base, dlbase), p') \<and>
     fst (external_link (Inl ErrEOF) [] 7 ''GET'' ''/s/t/x'' True p') = ExtOriginal sample_file True"
proof -
  obtain s where s: "map_of (pl_sessions (player_run sample_run)) ''v'' = Some s" "ss_src s = sample_file"
  proof -
    have "map_option ss_src (map_of (pl_sessions (player_run sample_run)) ''v'') = Some sample_file" by code_simp
    then show ?thesis using that by auto
  qed
  obtain base dlbase p' where h: "handle_link 6 ''t'' ''v'' (player_run sample_run) = Inr ((base, dlbase), p')"
  proof -
    have "\<not> isl (handle_link 6 ''t'' ''v'' (player_run sample_run))" by code_simp
    then show ?thesis using that by (cases "handle_link 6 ''t'' ''v'' (player_run sample_run)") auto
  qed
  have "\<not> src_remote sample_file" by code_simp
  with made_link_opens_session [OF h, of 7 "Inl ErrEOF" "[]" True] s show ?thesis
    using h by (auto simp: link_ttl_def)
qed

theorem subtitle_choice_exists_witness:
  "\<exists>u p'. handle_subs 6 ''w'' ''0'' (player_run sample_run) = (SubsFetch u, p') \<and>
     (\<exists>src info. session_content (player_run sample_run) ''w'' = Some (src, info) \<and> 0 < length (src_subs src) \<and> u = si_url (src_subs src ! 0))"
proof -
  let ?r = "handle_subs 6 ''w'' ''0'' (player_run sample_run)"
  have "case fst ?r of SubsFetch _ \<Rightarrow> True | _ \<Rightarrow> False" by code_simp
  then obtain u p' where r: "?r = (SubsFetch u, p')" by (cases ?r) (auto split: subs_answer.splits)
  have "atoi ''0'' = Some 0" by code_simp
  moreover have "src_subs src = []" if "(t, POpen i env r) \<in> set sample_run" "oe_file env r = Inr (src, info)" for t i env r src info
    using that by (auto simp: sample_run_def sample_env_def sample_file_def empty_source_def)
  ultimately show ?thesis using subtitle_choice_exists [OF _ r] r by fastforce
qed

section \<open>Addresses of the relay\<close>

text \<open>A session goes on using the addresses it first got from the relay, but the relay forgets an address
  twelve hours after it was made, as soon as it makes another: from then on the session, however busy, plays
  nothing.\<close>

definition slow_session :: session where
  "slow_session = \<lparr>ss_src = empty_source\<lparr>src_url := ''https://s/v'', src_remote := True, src_chunk := 10\<rparr>,
     ss_info = \<lparr>mi_name = [], mi_duration = FFin 0, mi_video = None, mi_audio = [], mi_subs = [], mi_direct = False\<rparr>, ss_used = 0, ss_via = None\<rparr>"

definition slow_player :: player where
  "slow_player = new_player\<lparr>pl_sessions := [(''v'', slow_session), (''w'', slow_session)]\<rparr>"

lemma busy_session_loses_its_stream:
  "let p = snd (handle_stream (Inr ''127.0.0.1:9'') [''a''] 0 ''v'' ''0'' ''0'' slow_player);
       p = snd (handle_stream (Inr ''127.0.0.1:9'') [''b''] (link_ttl + 1) ''w'' ''0'' ''0'' p);
       p' = snd (handle_stream (Inr ''127.0.0.1:9'') [''c''] (link_ttl + 2) ''v'' ''0'' ''0'' p)
   in map_option (\<lambda>s. map_option src_url (ss_via s)) (map_of (pl_sessions p') ''v'') = Some (Some ''http://127.0.0.1:9/a/video'') \<and>
      (\<forall>site. map_option (\<lambda>x. rs_status (fst x)) (relay_serve site ''GET'' ''/a/video'' [] (pl_relay p')) = Some 404)"
proof -
  let ?p = "snd (handle_stream (Inr ''127.0.0.1:9'') [''c''] (link_ttl + 2) ''v'' ''0'' ''0''
     (snd (handle_stream (Inr ''127.0.0.1:9'') [''b''] (link_ttl + 1) ''w'' ''0'' ''0''
       (snd (handle_stream (Inr ''127.0.0.1:9'') [''a''] 0 ''v'' ''0'' ''0'' slow_player)))))"
  have "map_option (\<lambda>s. map_option src_url (ss_via s)) (map_of (pl_sessions ?p) ''v'') = Some (Some ''http://127.0.0.1:9/a/video'')"
    by code_simp
  moreover have "map fst (rl_targets (pl_relay ?p)) = [''b'']" by code_simp
  then have "map_of (rl_targets (pl_relay ?p)) ''a'' = None" by (auto simp: map_of_eq_None_iff image_iff)
  moreover have "relay_token ''/a/video'' = ''a''" by code_simp
  ultimately show ?thesis by (simp add: Let_def relay_serve_def)
qed

end
