(* ===== verification/JobFiles.thy ===== *)
theory JobFiles
  imports TorBox GoUrl UrlName GoSort
begin

text \<open>
  What a job is made of: \<^verbatim>\<open>internal/daemon/stream.go\<close> (playing a torrent while it downloads),
  \<^verbatim>\<open>jobfiles.go\<close> (the files of a job, with how far along each is), \<^verbatim>\<open>torrentChoice\<close> of
  \<^verbatim>\<open>torrentselect.go\<close> and the descriptions of a TorBox job in \<^verbatim>\<open>start_torbox.go\<close>. What lies on the disk is
  an argument. \<^verbatim>\<open>sort.Slice\<close> leaves the order of equal elements open; the model keeps them in order.
\<close>

section \<open>Paths\<close>

text \<open>\<^verbatim>\<open>filepath.Dir\<close> and \<^verbatim>\<open>filepath.Rel\<close>.\<close>

definition path_dir :: "string \<Rightarrow> string" where
  "path_dir p = path_clean (case last_index (CHR ''/'') p of None \<Rightarrow> [] | Some i \<Rightarrow> take (Suc i) p)"

fun strip_common :: "string list \<Rightarrow> string list \<Rightarrow> string list \<times> string list" where
  "strip_common (b # bs) (t # ts) = (if b = t then strip_common bs ts else (b # bs, t # ts))"
| "strip_common bs ts = (bs, ts)"

definition path_rel :: "string \<Rightarrow> string \<Rightarrow> string option" where
  "path_rel base targ =
     (let b = path_clean base; t = path_clean targ
      in if b = t then Some ''.''
         else if rooted b \<noteq> rooted t then None
         else case strip_common (path_elems b) (path_elems t) of
             (bs, ts) \<Rightarrow>
               if bs \<noteq> [] \<and> hd bs = dotdot then None
               else Some (join_with ''/'' (map (\<lambda>_. dotdot) bs @ ts)))"

section \<open>Files\<close>

record torrent_file =
  jf_index :: int
  jf_path :: string
  jf_length :: int
  jf_done :: int
  jf_skipped :: bool

text \<open>The files of a running torrent; \<open>selected\<close> is parallel to them.\<close>

definition torrent_files :: "file_info list \<Rightarrow> bool list \<Rightarrow> torrent_file list" where
  "torrent_files infos selected =
     map (\<lambda>(i, f). \<lparr>jf_index = fi_index f, jf_path = fi_path f, jf_length = fi_length f, jf_done = fi_done f,
         jf_skipped = (i < length selected \<and> \<not> selected ! i)\<rparr>) (enumerate 0 infos)"

definition torbox_runtime_files :: "tbx_file list option \<Rightarrow> torrent_file list option" where
  "torbox_runtime_files fs =
     map_option (map (\<lambda>f. \<lparr>jf_index = tf_index f, jf_path = tf_path f, jf_length = tf_length f, jf_done = tf_done f,
       jf_skipped = (\<not> tf_selected f)\<rparr>)) fs"

definition max_job_files :: nat where "max_job_files = 5000"

definition cap_files :: "torrent_file list \<Rightarrow> string \<Rightarrow> torrent_file list \<times> string" where
  "cap_files files note =
     (if max_job_files < length files
      then (take max_job_files files,
            (if note \<noteq> [] then note @ '' '' else note) @
            ''Showing the first '' @ itoa (int max_job_files) @ '' of '' @ itoa (int (length files)) @ '' files.'')
      else (files, note))"

definition webdav_display_path :: "string \<Rightarrow> string \<Rightarrow> bool \<Rightarrow> string" where
  "webdav_display_path rt file_path root_is_dir =
     (if \<not> root_is_dir then path_base file_path
      else let trimmed = trim_suffix rt ''/'';
               rel = trim_prefix (trim_prefix file_path trimmed) ''/'';
               name = path_base trimmed
           in if name \<noteq> ''/'' \<and> name \<noteq> ''.'' then name @ ''/'' @ rel else rel)"

section \<open>On disk\<close>

text \<open>\<open>walk\<close> is what \<^verbatim>\<open>filepath.WalkDir\<close> finds below a root that is not a directory, in its order, with the
  size of each if it can be told.\<close>

definition job_finished :: "job \<Rightarrow> bool" where
  "job_finished job \<longleftrightarrow> j_status job = StatusCompleted \<or> j_status job = StatusSeeding"

definition disk_roots :: "job \<Rightarrow> string list" where
  "disk_roots job =
     (case j_type job of
        JobURL \<Rightarrow> [j_output job]
      | JobTorrent \<Rightarrow> map (\<lambda>p. path_join [j_output job, p]) (j_resolved job)
      | JobSocial \<Rightarrow> j_resolved job
      | JobWebDAV \<Rightarrow>
          if j_status job = StatusCompleted then j_resolved job
          else (case split_webdav_source (j_source job) of
              None \<Rightarrow> j_resolved job
            | Some (_, remote) \<Rightarrow>
                let name = path_base (trim_suffix remote ''/'')
                in if name \<noteq> ''/'' then [path_join [j_output job, name]] else j_resolved job))"

definition disk_name :: "job \<Rightarrow> string \<Rightarrow> string" where
  "disk_name job p =
     (if j_type job = JobURL then path_base p
      else case path_rel (j_output job) p of
          Some r \<Rightarrow> if has_prefix r dotdot then path_base p else r
        | None \<Rightarrow> path_base p)"

fun walked_files :: "job \<Rightarrow> string list \<Rightarrow> (string \<times> int option) list \<Rightarrow> torrent_file list" where
  "walked_files job seen [] = []"
| "walked_files job seen ((p, sz) # rest) =
     (if p \<in> set seen \<or> has_suffix p ''.godl-progress.json'' then walked_files job seen rest
      else case sz of
          None \<Rightarrow> walked_files job seen rest
        | Some n \<Rightarrow>
            \<lparr>jf_index = 0, jf_path = disk_name job p,
             jf_length = (if job_finished job \<or> j_type job = JobWebDAV \<and> p \<in> set (j_resolved job) then n else 0),
             jf_done = n, jf_skipped = False\<rparr> # walked_files job (p # seen) rest)"

definition files_on_disk :: "(string \<Rightarrow> (string \<times> int option) list) \<Rightarrow> job \<Rightarrow> torrent_file list" where
  "files_on_disk walk job =
     map (\<lambda>(i, f). f\<lparr>jf_index := int i\<rparr>)
       (enumerate 0 (sort_by (\<lambda>a b. jf_path a < jf_path b) (walked_files job [] (concat (map walk (disk_roots job))))))"

section \<open>The files of a job\<close>

definition disk_note :: "job \<Rightarrow> torrent_file list \<Rightarrow> string" where
  "disk_note job files =
     (if job_finished job then []
      else if j_type job = JobTorrent \<and> opt_torbox (j_options job) \<and> j_status job = StatusActive
      then ''TorBox is downloading this torrent; the file list appears once it'' @ [CHR 0x27] @ ''s ready.''
      else if j_type job = JobTorrent \<and> files \<noteq> []
      then ''Showing what'' @ [CHR 0x27] @ ''s on disk so far. Resume the torrent to see every file and its progress.''
      else if j_type job = JobTorrent then ''The file list arrives once the torrent is running and has its metadata.''
      else if j_type job = JobWebDAV \<and> files \<noteq> []
      then ''Showing what'' @ [CHR 0x27] @ ''s downloaded so far. Resume the job to see every file on the server.''
      else if files = [] then ''Nothing has been saved yet.'' else [])"

text \<open>A file of a listing, and how much of it there is: \<open>stat\<close> is the size of a local file.\<close>

definition dav_file :: "string option \<Rightarrow> (string \<Rightarrow> int option) \<Rightarrow> string \<Rightarrow> string \<Rightarrow> bool \<Rightarrow> nat \<times> entry \<Rightarrow> torrent_file" where
  "dav_file cwd stat output rt root_is_dir x =
     (case x of (i, f) \<Rightarrow>
        \<lparr>jf_index = int i, jf_path = webdav_display_path rt (en_path f) root_is_dir, jf_length = en_size f,
         jf_done = (case stat (webdav_local_path cwd output rt (en_path f) root_is_dir) of
             None \<Rightarrow> 0
           | Some n \<Rightarrow> if 0 < en_size f \<and> en_size f < n then en_size f else n),
         jf_skipped = False\<rparr>)"

text \<open>The environment: what a running TorBox job published, the listing a running WebDAV job walked
  (with its root and whether that is a folder), the disk.\<close>

record job_files_env =
  je_torbox :: "tbx_file list option"
  je_dav :: "(entry list \<times> string \<times> bool) option"
  je_cwd :: "string option"
  je_stat :: "string \<Rightarrow> int option"
  je_walk :: "string \<Rightarrow> (string \<times> int option) list"

definition job_file_list :: "job_files_env \<Rightarrow> string \<Rightarrow> daemon \<Rightarrow> (torrent_file list \<times> string) result \<times> daemon" where
  "job_file_list env i d =
     (case on_store (get_job i) d of
        (Inl _, d) \<Rightarrow> (Inl (not_found i), d)
      | (Inr job, d) \<Rightarrow>
          (Inr (let tor = j_type job = JobTorrent;
                    tb = (if tor \<and> opt_torbox (j_options job) \<and> get_runtime i d \<noteq> None then torbox_runtime_files (je_torbox env) else None)
                in case tb of
                     Some tf \<Rightarrow> cap_files tf []
                   | None \<Rightarrow>
                       (case (if tor then tm_files i (d_tm d) else None) of
                          Some (infos, selected) \<Rightarrow> cap_files (torrent_files infos selected) []
                        | None \<Rightarrow>
                            (case (if j_type job = JobWebDAV \<and> get_runtime i d \<noteq> None then je_dav env else None) of
                               Some (remote, rt, isdir) \<Rightarrow>
                                 cap_files (map (dav_file (je_cwd env) (je_stat env) (j_output job) rt isdir) (enumerate 0 remote)) []
                             | None \<Rightarrow>
                                 let files = files_on_disk (je_walk env) job in cap_files files (disk_note job files)))), d))"

text \<open>\<^verbatim>\<open>CmdJobFiles\<close>: \<open>Live\<close> tells that the list is a running torrent's whole one.\<close>

definition list_is_live :: "job_files_env \<Rightarrow> string \<Rightarrow> torrent_file list \<Rightarrow> daemon \<Rightarrow> bool" where
  "list_is_live env i files d =
     (let live = (case tm_files i (d_tm d) of Some (infos, _) \<Rightarrow> length infos = length files | None \<Rightarrow> False)
      in case (if get_runtime i d \<noteq> None then torbox_runtime_files (je_torbox env) else None) of
           Some tf \<Rightarrow> length tf = length files | None \<Rightarrow> live)"

section \<open>Choosing among a torrent's files\<close>

text \<open>\<open>account\<close> is TorBox's answer about the torrent, \<open>meta\<close> what its metadata numbers the files
  (both if they are asked), \<open>listed\<close> what \<^verbatim>\<open>ListFiles\<close> returns.\<close>

definition torbox_choice ::
  "job_files_env \<Rightarrow> tb_torrent result \<Rightarrow> (string \<times> int) list option \<Rightarrow> job \<Rightarrow> daemon \<Rightarrow> (string \<times> torrent_file list) option" where
  "torbox_choice env account meta job d =
     (case (if get_runtime (j_id job) d \<noteq> None then torbox_runtime_files (je_torbox env) else None) of
        Some tf \<Rightarrow> Some (case j_resolved job of [] \<Rightarrow> [] | p # _ \<Rightarrow> p, tf)
      | None \<Rightarrow>
          if o_torbox_id (j_options job) = 0 \<or> \<not> torbox_ready (d_settings d) then None
          else case account of
            Inl _ \<Rightarrow> None
          | Inr t \<Rightarrow>
              if bt_files t = [] then None
              else (case parse_selection (o_torrent_files (j_options job)) of
                  Inl _ \<Rightarrow> None
                | Inr sel \<Rightarrow>
                    Some (bt_name t, map (\<lambda>f. \<lparr>jf_index = tf_index f, jf_path = tf_path f, jf_length = tf_length f, jf_done = 0,
                       jf_skipped = (\<not> tf_selected f)\<rparr>) (torbox_file_list (je_cwd env) t (j_output job) sel meta))))"

definition torrent_choice ::
  "job_files_env \<Rightarrow> tb_torrent result \<Rightarrow> (string \<times> int) list option \<Rightarrow> (string \<times> file_info list) result \<Rightarrow> string \<Rightarrow> daemon \<Rightarrow>
   (string \<times> torrent_file list) result \<times> daemon" where
  "torrent_choice env account meta listed i d =
     (case on_store (get_job i) d of
        (Inl _, d) \<Rightarrow> (Inl (not_found i), d)
      | (Inr job, d) \<Rightarrow>
          (if j_type job \<noteq> JobTorrent
           then Inl (ErrMsg (''job '' @ i @ '' is a '' @ type_string (j_type job) @ '' job, not a torrent''))
           else case (if opt_torbox (j_options job) then torbox_choice env account meta job d else None) of
               Some x \<Rightarrow> Inr x
             | None \<Rightarrow>
                 (case tm_files i (d_tm d) of
                    Some (infos, selected) \<Rightarrow>
                      Inr (case j_resolved job of [] \<Rightarrow> [] | p # _ \<Rightarrow> path_base p, torrent_files infos selected)
                  | None \<Rightarrow>
                      (case listed of
                         Inl e \<Rightarrow> Inl e
                       | Inr (name, infos) \<Rightarrow>
                           (case parse_selection (o_torrent_files (j_options job)) of
                              Inl e \<Rightarrow> Inl e
                            | Inr sel \<Rightarrow>
                                Inr (name, map (\<lambda>f. \<lparr>jf_index = fi_index f, jf_path = fi_path f, jf_length = fi_length f, jf_done = 0,
                                  jf_skipped = (\<not> sel_match sel (fi_index f + 1) (fi_path f))\<rparr>) infos)))), d))"

text \<open>\<^verbatim>\<open>torboxPhase\<close>, with the torrent's progress, speed and seeds. A separating dot is two bytes.\<close>

definition show_fixed0 :: "float64 \<Rightarrow> string" where
  "show_fixed0 x =
     (case x of
        FFin q \<Rightarrow> (if q < 0 then ''-'' @ itoa (round_half_even (- q)) else itoa (round_half_even q))
      | FNaN \<Rightarrow> ''NaN''
      | FInf s \<Rightarrow> if s then ''-Inf'' else ''+Inf'')"

definition mid_dot :: string where "mid_dot = [CHR '' '', CHR 0xC2, CHR 0xB7, CHR '' '']"

definition torbox_phase :: "float64 \<Rightarrow> float64 \<Rightarrow> int \<Rightarrow> tb_torrent \<Rightarrow> string" where
  "torbox_phase progress speed seeds t =
     (let state = to_lower (bt_state t); pct = show_fixed0 (f64_mul progress (FFin 100)) @ ''%''
      in if bt_finished t then ''TorBox: finishing up''
         else if contains_str state ''meta'' then ''TorBox: getting the torrent'' @ [CHR 0x27] @ ''s details from peers''
         else if contains_str state ''stalled'' then ''TorBox: '' @ pct @ mid_dot @ ''stalled, waiting for peers''
         else if contains_str state ''queued'' then ''TorBox: queued''
         else if contains_str state ''check'' then ''TorBox: checking''
         else join_with mid_dot
           ([''TorBox: downloading '' @ pct] @
            (if f64_less (FFin 0) speed then [format_bytes (f64_to_int64 speed) @ ''/s''] else []) @
            (if 0 < seeds then [itoa seeds @ '' seeds''] else [])))"

section \<open>Playing a torrent\<close>

definition streamable_exts :: "string list" where
  "streamable_exts =
     [''.mkv'', ''.mp4'', ''.m4v'', ''.webm'', ''.avi'', ''.mov'', ''.wmv'', ''.flv'', ''.ts'', ''.m2ts'',
      ''.mpg'', ''.mpeg'', ''.ogv'', ''.mp3'', ''.flac'', ''.m4a'', ''.aac'', ''.ogg'', ''.opus'', ''.wav'']"

definition streamable :: "string \<Rightarrow> bool" where
  "streamable p \<longleftrightarrow> to_lower (path_ext p) \<in> set streamable_exts"

text \<open>The loop of \<^verbatim>\<open>pickStreamFile\<close>: the largest file so far and the largest media file, by index.\<close>

definition longer :: "torrent_file list \<Rightarrow> nat \<Rightarrow> nat option \<Rightarrow> nat option" where
  "longer files i best =
     (case best of
        None \<Rightarrow> Some i
      | Some b \<Rightarrow> if jf_length (files ! b) < jf_length (files ! i) then Some i else best)"

definition pick_step :: "torrent_file list \<Rightarrow> bool list \<Rightarrow> nat \<Rightarrow> nat option \<times> nat option \<Rightarrow> nat option \<times> nat option" where
  "pick_step files selected i acc =
     (case acc of (best, media) \<Rightarrow>
        if i < length selected \<and> \<not> selected ! i then (best, media)
        else (longer files i best, if streamable (jf_path (files ! i)) then longer files i media else media))"

definition pick_stream_file :: "torrent_file list \<Rightarrow> bool list \<Rightarrow> int" where
  "pick_stream_file files selected =
     (case fold (pick_step files selected) [0..<length files] (None, None) of
        (_, Some m) \<Rightarrow> int m
      | (Some b, None) \<Rightarrow> int b
      | (None, None) \<Rightarrow> - 1)"

record stream_server =
  sv_addr :: string
  sv_token :: string

definition ensure_stream_server ::
  "string result \<Rightarrow> string result \<Rightarrow> stream_server option \<Rightarrow> stream_server result \<times> stream_server option" where
  "ensure_stream_server rnd listened sv =
     (case sv of
        Some s \<Rightarrow> (Inr s, sv)
      | None \<Rightarrow>
          (case rnd of
             Inl e \<Rightarrow> (Inl e, sv)
           | Inr tok \<Rightarrow>
               (case listened of
                  Inl e \<Rightarrow> (Inl (ErrMsg (''starting the torrent stream server: '' @ err_string e)), sv)
                | Inr a \<Rightarrow> let s = \<lparr>sv_addr = a, sv_token = tok\<rparr> in (Inr s, Some s))))"

text \<open>\<^verbatim>\<open>streamTorrent\<close>: an error, or the address and the path on the server, which are one URL; the files
  come along.\<close>

definition stream_path :: "stream_server \<Rightarrow> string \<Rightarrow> int \<Rightarrow> torrent_file list \<Rightarrow> string" where
  "stream_path sv i k files =
     ''/'' @ sv_token sv @ ''/'' @ path_escape i @ ''/'' @ itoa k @ ''/'' @ path_escape (path_base (jf_path (files ! nat k)))"

definition stream_torrent ::
  "string result \<Rightarrow> string result \<Rightarrow> string \<Rightarrow> int \<Rightarrow> daemon \<Rightarrow> stream_server option \<Rightarrow>
   (string \<times> torrent_file list) result \<times> daemon \<times> stream_server option" where
  "stream_torrent rnd listened i k d sv =
     (case on_store (get_job i) d of
        (Inl _, d) \<Rightarrow> (Inl (not_found i), d, sv)
      | (Inr job, d) \<Rightarrow>
          if j_type job \<noteq> JobTorrent
          then (Inl (ErrMsg (''job '' @ i @ '' is a '' @ type_string (j_type job) @ '' job, not a torrent'')), d, sv)
          else if opt_torbox (j_options job)
          then (Inl (ErrMsg ''this torrent comes through TorBox; it can be played once it has downloaded''), d, sv)
          else case tm_files i (d_tm d) of
            None \<Rightarrow>
              (Inl (ErrMsg (if j_status job = StatusActive \<or> j_status job = StatusQueued
                  then ''job '' @ i @ '' is still fetching the torrent'' @ [CHR 0x27] @ ''s metadata '' @ [CHR 0xE2, CHR 0x80, CHR 0x94] @ '' try again in a moment''
                  else ''job '' @ i @ '' is '' @ status_string (j_status job) @ ''; resume it to stream it'')), d, sv)
          | Some (infos, selected) \<Rightarrow>
              let files = torrent_files infos [];
                  k = (if k < 0 then pick_stream_file files selected else k)
              in if k < 0 \<or> int (length files) \<le> k
                 then (Inl (ErrMsg (''job '' @ i @ '' has no file #'' @ itoa (k + 1) @ '' (it has '' @ itoa (int (length files)) @ '')'')), d, sv)
                 else (case ensure_stream_server rnd listened sv of
                     (Inl e, sv) \<Rightarrow> (Inl e, d, sv)
                   | (Inr s, sv) \<Rightarrow> (Inr (''http://'' @ sv_addr s @ stream_path s i k files, files), d, sv)))"

definition stream_readahead :: "int \<Rightarrow> int" where
  "stream_readahead len = min (max (go_div len 100) 8388608) 67108864"

text \<open>The handler, on the decoded path of a request.\<close>

datatype stream_answer = StreamMethod | StreamNotFound | StreamNoJob | StreamServe tfile int

definition serve_stream :: "string \<Rightarrow> string \<Rightarrow> stream_server \<Rightarrow> daemon \<Rightarrow> stream_answer" where
  "serve_stream meth pth sv d =
     (if meth \<noteq> ''GET'' \<and> meth \<noteq> ''HEAD'' then StreamMethod
      else let parts = split_on (CHR ''/'') (trim_prefix pth ''/'')
           in if length parts < 3 \<or> parts ! 0 \<noteq> sv_token sv then StreamNotFound
              else case atoi (parts ! 2) of
                None \<Rightarrow> StreamNotFound
              | Some k \<Rightarrow>
                  (case tm_file (parts ! 1) k (d_tm d) of
                     None \<Rightarrow> StreamNoJob
                   | Some f \<Rightarrow> StreamServe f (stream_readahead (tfile.tf_length f))))"

end
