(* ===== verification/JobFilesProps.thy ===== *)
theory JobFilesProps
  imports JobFiles
begin

text \<open>
  The file a player gets is the one the address names, whatever is in the names; the default file is the
  largest media file that is wanted; and a listing is never longer than its cap.
\<close>

section \<open>Escaping\<close>

lemma hex_digits_value:
  "hex_digit_val (upper_hex (of_char c div 16)) = Some (of_char c div 16)"
  "hex_digit_val (upper_hex (of_char c mod 16)) = Some (of_char c mod 16)"
  using upper_hex_val byte_halves by auto

lemma unescape_byte: "path_unescape (escape_byte c @ t) = map_option ((#) c) (path_unescape t)"
proof (cases "plain_url_byte c")
  case True
  moreover from this have "c \<noteq> CHR ''%''" by (auto simp: plain_url_byte_def Let_def)
  ultimately show ?thesis by (simp add: escape_byte_def)
next
  case False
  have "char_of (16 * (of_char c div 16) + of_char c mod 16 :: nat) = c"
    by (simp only: mult_div_mod_eq char_of_char)
  with False show ?thesis by (simp add: escape_byte_def Let_def hex_digits_value)
qed

lemma unescape_escape: "path_unescape (path_escape s @ t) = map_option ((@) s) (path_unescape t)"
  by (induction s) (simp_all add: path_escape_def unescape_byte option.map_comp comp_def option.map_ident)

lemma unescape_plain_append: "CHR ''%'' \<notin> set p \<Longrightarrow> path_unescape (p @ t) = map_option ((@) p) (path_unescape t)"
proof (induction p)
  case Nil
  show ?case by (cases "path_unescape t") auto
next
  case (Cons c p)
  then show ?case by (cases "path_unescape t") auto
qed

section \<open>The default file\<close>

definition wanted_file :: "bool list \<Rightarrow> nat \<Rightarrow> bool" where
  "wanted_file selected i \<longleftrightarrow> \<not> (i < length selected \<and> \<not> selected ! i)"

text \<open>The first longest of some files.\<close>

definition longest_in :: "torrent_file list \<Rightarrow> (nat \<Rightarrow> bool) \<Rightarrow> nat option \<Rightarrow> nat \<Rightarrow> bool" where
  "longest_in files P r n \<longleftrightarrow>
     (case r of
        None \<Rightarrow> \<forall>i<n. \<not> P i
      | Some b \<Rightarrow> b < n \<and> P b \<and> (\<forall>i<n. P i \<longrightarrow> jf_length (files ! i) \<le> jf_length (files ! b)))"

lemma longer_step:
  "longest_in files P r n \<Longrightarrow> longest_in files P (if P n then longer files n r else r) (Suc n)"
  by (fastforce simp: longest_in_def longer_def less_Suc_eq split: option.splits if_splits)

lemma pick_step_wanted:
  "pick_step files selected n (b, m) =
     (if wanted_file selected n then longer files n b else b,
      if wanted_file selected n \<and> streamable (jf_path (files ! n)) then longer files n m else m)"
  by (simp add: pick_step_def wanted_file_def)

lemma pick_fold:
  "\<exists>b m. fold (pick_step files selected) [0..<n] (None, None) = (b, m) \<and>
     longest_in files (wanted_file selected) b n \<and>
     longest_in files (\<lambda>i. wanted_file selected i \<and> streamable (jf_path (files ! i))) m n"
proof (induction n)
  case 0
  show ?case by (simp add: longest_in_def)
next
  case (Suc n)
  then obtain b m where f: "fold (pick_step files selected) [0..<n] (None, None) = (b, m)"
    "longest_in files (wanted_file selected) b n"
    "longest_in files (\<lambda>i. wanted_file selected i \<and> streamable (jf_path (files ! i))) m n" by blast
  have "fold (pick_step files selected) [0..<Suc n] (None, None) = pick_step files selected n (b, m)" by (simp add: f(1))
  then show ?case using longer_step [OF f(2)] longer_step [OF f(3)] unfolding pick_step_wanted by blast
qed

lemma pick_stream_file_best:
  defines "media \<equiv> (\<lambda>files selected i. wanted_file selected i \<and> streamable (jf_path (files ! i)))"
  assumes "pick_stream_file files selected = k"
  shows "k = - 1 \<and> (\<forall>i < length files. \<not> wanted_file selected i) \<or>
    (\<exists>b < length files. k = int b \<and> wanted_file selected b \<and>
       (if \<exists>i < length files. media files selected i
        then media files selected b \<and> (\<forall>i < length files. media files selected i \<longrightarrow> jf_length (files ! i) \<le> jf_length (files ! b))
        else \<forall>i < length files. wanted_file selected i \<longrightarrow> jf_length (files ! i) \<le> jf_length (files ! b)))"
proof -
  from pick_fold [of files selected "length files"] obtain b m where f: "fold (pick_step files selected) [0..<length files] (None, None) = (b, m)"
    "longest_in files (wanted_file selected) b (length files)"
    "longest_in files (media files selected) m (length files)" unfolding media_def by blast
  from assms(2) f(1) have k: "k = (case m of Some m \<Rightarrow> int m | None \<Rightarrow> (case b of Some b \<Rightarrow> int b | None \<Rightarrow> - 1))"
    by (auto simp: pick_stream_file_def split: option.splits)
  show ?thesis
  proof (cases m)
    case (Some x)
    with f(3) k show ?thesis by (intro disjI2 exI [of _ x]) (auto simp: longest_in_def media_def)
  next
    case None
    with f(2,3) k show ?thesis by (cases b) (auto simp: longest_in_def)
  qed
qed

section \<open>Addresses\<close>

lemma tm_files_file:
  assumes "tm_files i m = Some (infos, selected)" and "k < length infos"
  shows "\<exists>f. tm_file i (int k) m = Some f \<and> fi_path (infos ! k) = tfile.tf_path f \<and> fi_length (infos ! k) = tfile.tf_length f"
  using assms by (auto simp: tm_files_def tm_file_def file_infos_def split: option.splits if_splits)

lemma on_store_tm [simp]: "on_store f d = (r, d') \<Longrightarrow> d_tm d' = d_tm d"
  by (auto simp: on_store_def split: prod.splits)

lemma stream_torrent_answer:
  assumes "stream_torrent rnd listened i k d sv = (Inr (u, files), d', Some s)"
  shows "\<exists>infos selected j. tm_files i (d_tm d') = Some (infos, selected) \<and> files = torrent_files infos [] \<and>
    0 \<le> j \<and> j < int (length files) \<and> (0 \<le> k \<longrightarrow> j = k) \<and> u = ''http://'' @ sv_addr s @ stream_path s i j files"
proof -
  obtain r d1 where g: "on_store (get_job i) d = (r, d1)" by fastforce
  with assms obtain job where r: "r = Inr job" by (cases r) (simp_all add: stream_torrent_def)
  show ?thesis
  proof (cases "j_type job = JobTorrent \<and> \<not> opt_torbox (j_options job)")
    case True
    show ?thesis
    proof (cases "tm_files i (d_tm d1)")
      case (Some x)
      obtain infos selected where x: "x = (infos, selected)" by fastforce
      define fs where "fs = torrent_files infos []"
      define j where "j = (if k < 0 then pick_stream_file fs selected else k)"
      obtain e sv' where en: "ensure_stream_server rnd listened sv = (e, sv')" by fastforce
      have "\<exists>msg. stream_torrent rnd listened i k d sv =
          (if j < 0 \<or> int (length fs) \<le> j then (Inl (ErrMsg msg), d1, sv)
           else (case ensure_stream_server rnd listened sv of
               (Inl e, sv) \<Rightarrow> (Inl e, d1, sv)
             | (Inr s, sv) \<Rightarrow> (Inr (''http://'' @ sv_addr s @ stream_path s i j fs, fs), d1, sv)))"
        unfolding fs_def j_def using g r True Some x by (auto simp: stream_torrent_def Let_def)
      then have range: "\<not> (j < 0 \<or> int (length fs) \<le> j)"
        and ans: "(case (e, sv') of
               (Inl e, sv) \<Rightarrow> (Inl e, d1, sv)
             | (Inr s, sv) \<Rightarrow> (Inr (''http://'' @ sv_addr s @ stream_path s i j fs, fs), d1, sv)) = (Inr (u, files), d', Some s)"
        using assms en by (auto split: if_splits)
      from ans obtain s' where "e = Inr s'" and eq: "(''http://'' @ sv_addr s' @ stream_path s' i j fs, fs) = (u, files)"
        and d: "d1 = d'" "sv' = Some s"
        by (cases e) auto
      moreover from this d en have "s' = s"
        by (auto simp: ensure_stream_server_def Let_def split: option.splits sum.splits)
      ultimately show ?thesis using Some x range by (intro exI [of _ infos] exI [of _ selected] exI [of _ j]) (auto simp: fs_def j_def)
    qed (use assms g r True in \<open>simp add: stream_torrent_def\<close>)
  qed (use assms g r in \<open>simp add: stream_torrent_def split: if_splits\<close>)
qed

text \<open>
  C1: A player that opens the address it is given gets the file the address was made for: the names in it
  survive the escaping, the token is the server's, and the length sets how far to read ahead, never
  less than 8 MiB nor more than 64.
\<close>
theorem stream_address_opens_file:
  assumes "stream_torrent rnd listened i k d sv = (Inr (u, files), d', Some s)"
    and "CHR ''/'' \<notin> set (sv_token s)" and "CHR ''%'' \<notin> set (sv_token s)" and "CHR ''/'' \<notin> set i"
    and "int (length files) < 2 ^ 63"
  shows "\<exists>j f q. j < length files \<and> (0 \<le> k \<longrightarrow> int j = k) \<and> u = ''http://'' @ sv_addr s @ stream_path s i (int j) files \<and>
    path_unescape (stream_path s i (int j) files) = Some q \<and>
    serve_stream ''GET'' q s d' = StreamServe f (stream_readahead (tfile.tf_length f)) \<and>
    tfile.tf_path f = jf_path (files ! j) \<and> tfile.tf_length f = jf_length (files ! j) \<and>
    8388608 \<le> stream_readahead (tfile.tf_length f) \<and> stream_readahead (tfile.tf_length f) \<le> 67108864"
proof -
  from stream_torrent_answer [OF assms(1)] obtain infos selected k' where t: "tm_files i (d_tm d') = Some (infos, selected)"
    and files: "files = torrent_files infos []"
    and k': "0 \<le> k'" "k' < int (length files)" "0 \<le> k \<longrightarrow> k' = k" "u = ''http://'' @ sv_addr s @ stream_path s i k' files"
    by blast
  define j where "j = nat k'"
  with k' have j: "j < length files" "0 \<le> k \<longrightarrow> int j = k" and u: "u = ''http://'' @ sv_addr s @ stream_path s i (int j) files"
    by auto
  let ?b = "path_base (jf_path (files ! j))"
  let ?q = "''/'' @ sv_token s @ ''/'' @ i @ ''/'' @ itoa (int j) @ ''/'' @ ?b"
  have digits: "itoa (int j) = nat_digits j" by (simp add: itoa_def)
  have free: "CHR ''%'' \<notin> set (nat_digits j)" "CHR ''/'' \<notin> set (nat_digits j)" by (intro nat_digits_free; simp)+
  have "path_unescape (path_escape ?b) = Some ?b" using unescape_escape [of ?b "[]"] by simp
  then have q: "path_unescape (stream_path s i (int j) files) = Some ?q"
    using assms(3) free
    by (simp add: stream_path_def digits unescape_plain_append unescape_escape)
  have parts: "split_on (CHR ''/'') (trim_prefix ?q ''/'') = sv_token s # i # nat_digits j # split_on (CHR ''/'') ?b"
    using assms(2,4) free by (simp add: trim_prefix_def digits split_on_append)
  have len: "length files = length infos" and path: "jf_path (files ! j) = fi_path (infos ! j)" and size: "jf_length (files ! j) = fi_length (infos ! j)"
    using j(1) by (auto simp: files torrent_files_def enumerate_eq_zip)
  from tm_files_file [OF t, of j] j(1) len obtain f where f: "tm_file i (int j) (d_tm d') = Some f"
    "fi_path (infos ! j) = tfile.tf_path f" "fi_length (infos ! j) = tfile.tf_length f" by auto
  have "atoi (nat_digits j) = Some (int j)"
    using atoi_itoa [of "int j"] j(1) assms(5) by (simp add: digits in_int64_def int64_max_def int64_min_def)
  then have "serve_stream ''GET'' ?q s d' = StreamServe f (stream_readahead (tfile.tf_length f))"
    using f(1) parts by (simp add: serve_stream_def Let_def)
  moreover have "8388608 \<le> stream_readahead n \<and> stream_readahead n \<le> 67108864" for n
    by (simp add: stream_readahead_def)
  ultimately show ?thesis using j u q f path size by (intro exI [of _ j] exI [of _ f] exI [of _ ?q]) simp
qed

definition streaming_daemon :: daemon where
  "streaming_daemon = (sample_daemon 0 [(sample_job ''a'' StatusActive)\<lparr>j_type := JobTorrent\<rparr>] [])\<lparr>
     d_tm := new_manager\<lparr>tm_active := [(''a'', \<lparr>tor_info = True, tor_name = ''t'',
       tor_files = [\<lparr>tfile.tf_path = ''t/notes 1.txt'', tf_length = 5, tf_done = 0, tf_priority = True\<rparr>,
                    \<lparr>tfile.tf_path = ''t/50%.mkv'', tf_length = 3, tf_done = 0, tf_priority = True\<rparr>],
       tor_completed = 0, tor_length = 8, tor_hash = ''h'', tor_uploaded = 0\<rparr>)]\<rparr>\<rparr>"

theorem stream_address_opens_file_witness:
  "\<exists>u files d' s q f. stream_torrent (Inr ''tok'') (Inr ''127.0.0.1:9'') ''a'' 1 streaming_daemon None = (Inr (u, files), d', Some s) \<and>
     path_unescape (stream_path s ''a'' 1 files) = Some q \<and> serve_stream ''GET'' q s d' = StreamServe f 8388608 \<and> tfile.tf_path f = ''t/50%.mkv''"
proof -
  let ?r = "stream_torrent (Inr ''tok'') (Inr ''127.0.0.1:9'') ''a'' 1 streaming_daemon None"
  have "(case ?r of (Inr (u, files), _, Some s) \<Rightarrow>
      u = ''http://127.0.0.1:9/tok/a/1/50%25.mkv'' \<and> map jf_path files = [''t/notes 1.txt'', ''t/50%.mkv''] \<and> sv_token s = ''tok'' \<and> map jf_length files = [5, 3] | _ \<Rightarrow> False)"
    by code_simp
  then obtain u files d' s where r: "?r = (Inr (u, files), d', Some s)"
    and s: "map jf_path files = [''t/notes 1.txt'', ''t/50%.mkv'']" "sv_token s = ''tok''" and len: "map jf_length files = [5, 3]"
    by (cases ?r) (auto split: sum.splits option.splits)
  from s(1) have l: "length files = 2" "jf_path (files ! 1) = ''t/50%.mkv''" by (auto simp: map_eq_Cons_conv)
  have free: "CHR ''/'' \<notin> set (sv_token s)" "CHR ''%'' \<notin> set (sv_token s)" "CHR ''/'' \<notin> set ''a''" by (simp_all add: s(2))
  from l(1) have small: "int (length files) < 2 ^ 63" by simp
  obtain j f q where f: "0 \<le> (1 :: int) \<longrightarrow> int j = 1" "path_unescape (stream_path s ''a'' (int j) files) = Some q"
    "serve_stream ''GET'' q s d' = StreamServe f (stream_readahead (tfile.tf_length f))" "tfile.tf_path f = jf_path (files ! j)"
    "tfile.tf_length f = jf_length (files ! j)"
    using stream_address_opens_file [OF r free small] by blast
  have "map jf_length files = [5, 3]" using len by simp
  with l f have "stream_readahead (tfile.tf_length f) = 8388608" by (auto simp: map_eq_Cons_conv stream_readahead_def go_div_def)
  with r f l show ?thesis by auto
qed

section \<open>Listings\<close>

lemma cap_files_short: "length (fst (cap_files fs note)) \<le> 5000"
  by (simp add: cap_files_def max_job_files_def)

lemma job_file_list_short:
  "job_file_list env i d = (Inr (files, note), d') \<Longrightarrow> length files \<le> 5000"
  using cap_files_short by (auto simp: job_file_list_def Let_def split: sum.splits option.splits prod.splits if_splits) (metis fst_conv)+

text \<open>No part of a file on the server counts twice: a local file longer than it is done, not more.\<close>

lemma dav_file_done: "0 \<le> en_size f \<Longrightarrow> (\<And>p n. stat p = Some n \<Longrightarrow> 0 \<le> n) \<Longrightarrow>
  0 \<le> jf_done (dav_file cwd stat out rt isdir (i, f)) \<and> (0 < en_size f \<longrightarrow> jf_done (dav_file cwd stat out rt isdir (i, f)) \<le> en_size f)"
  by (auto simp: dav_file_def split: option.splits)

text \<open>A job for a whole server has the output folder itself as its place on disk, so while it is paused its
  list is everything in that folder, whoever put it there: \<^verbatim>\<open>path.Base\<close> of nothing is a dot, which the
  code does not expect.\<close>

lemma paused_root_job_lists_output:
  assumes "j_type job = JobWebDAV" "j_status job \<noteq> StatusCompleted" "j_source job = ''nas:/''" "j_output job = ''/home/u/Downloads''"
  shows "disk_roots job = [''/home/u/Downloads'']"
proof -
  have "split_webdav_source ''nas:/'' = Some (''nas'', ''/'')" by code_simp
  moreover have "path_base (trim_suffix ''/'' ''/'') = ''.''" by code_simp
  moreover have "path_join [''/home/u/Downloads'', ''.''] = ''/home/u/Downloads''" by code_simp
  ultimately show ?thesis using assms by (simp add: disk_roots_def)
qed

end
