(* ===== verification/WebApi.thy ===== *)
theory WebApi
  imports JobFiles Social UrlJob Media
begin

text \<open>
  \<^verbatim>\<open>internal/daemon/webapi.go\<close>: what the web page asks of the daemon, each as a function of the request
  and the daemon; every change goes through \<open>do_request\<close>, the function the socket uses. Names of
  files and folders, the disk and the network are arguments. \<^verbatim>\<open>strings.ToLower\<close> is that of ASCII.
\<close>

section \<open>Settings\<close>

record web_settings =
  ws_max_concurrent :: int
  ws_default_rate_limit :: string
  ws_global_rate_limit :: string
  ws_auto_retry :: bool
  ws_auto_retry_max :: int
  ws_notify :: bool
  ws_show_tray :: bool
  ws_webui :: bool
  ws_webui_port :: int
  ws_webui_network :: bool
  ws_webui_username :: string
  ws_webui_password :: string
  ws_webui_password_set :: bool
  ws_torbox_key :: string
  ws_torbox_key_set :: bool
  ws_torbox_key_clear :: bool
  ws_torbox_default :: bool
  ws_torbox_keep :: bool

definition web_settings_of :: "settings \<Rightarrow> web_settings" where
  "web_settings_of s =
     \<lparr>ws_max_concurrent = s_max_concurrent s, ws_default_rate_limit = s_default_rate_limit s,
      ws_global_rate_limit = s_global_rate_limit s, ws_auto_retry = s_auto_retry s,
      ws_auto_retry_max = s_auto_retry_max s, ws_notify = s_notify s, ws_show_tray = s_show_tray s,
      ws_webui = s_webui s, ws_webui_port = (if s_webui_port s = 0 then default_webui_port else s_webui_port s),
      ws_webui_network = s_webui_network s, ws_webui_username = s_webui_username s,
      ws_webui_password = [], ws_webui_password_set = (s_webui_password s \<noteq> []),
      ws_torbox_key = [], ws_torbox_key_set = (s_torbox_key s \<noteq> []), ws_torbox_key_clear = False,
      ws_torbox_default = s_torbox_default s, ws_torbox_keep = s_torbox_keep s\<rparr>"

text \<open>What a form asks for; \<open>cur\<close> are the settings in force.\<close>

definition put_settings :: "settings \<Rightarrow> web_settings \<Rightarrow> settings" where
  "put_settings cur form =
     \<lparr>s_max_concurrent = ws_max_concurrent form, s_default_rate_limit = trim_space (ws_default_rate_limit form),
      s_global_rate_limit = trim_space (ws_global_rate_limit form), s_auto_retry = ws_auto_retry form,
      s_auto_retry_max = ws_auto_retry_max form, s_notify = ws_notify form, s_webui = ws_webui form,
      s_webui_port = ws_webui_port form, s_webui_network = ws_webui_network form,
      s_webui_username = trim_space (ws_webui_username form),
      s_webui_password = (if ws_webui_password form \<noteq> [] then ws_webui_password form else s_webui_password cur),
      s_webui_https = s_webui_https cur,
      s_torbox_key = (if ws_torbox_key_clear form then []
         else if trim_space (ws_torbox_key form) \<noteq> [] then ws_torbox_key form else s_torbox_key cur),
      s_torbox_default = ws_torbox_default form, s_torbox_keep = ws_torbox_keep form, s_show_tray = ws_show_tray form\<rparr>"

definition web_put_settings :: "network \<Rightarrow> web_settings \<Rightarrow> daemon \<Rightarrow> ((int \<times> string) + web_settings) \<times> daemon" where
  "web_put_settings nw form d =
     (case do_request nw (SetSettings (Some (put_settings (d_settings d) form))) d of
        (RespSettings s, d) \<Rightarrow> (Inr (web_settings_of s), d)
      | (RespError e, d) \<Rightarrow> (Inl (400, e), d)
      | (_, d) \<Rightarrow> (Inl (400, []), d))"

section \<open>Durations\<close>

text \<open>\<^verbatim>\<open>time.ParseDuration\<close>, in nanoseconds.\<close>

definition duration_units :: "(string \<times> nat) list" where
  "duration_units =
     [(''ns'', 1), (''us'', 1000), ([CHR 0xC2, CHR 0xB5, CHR ''s''], 1000), ([CHR 0xCE, CHR 0xBC, CHR ''s''], 1000),
      (''ms'', 1000000), (''s'', 1000000000), (''m'', 60000000000), (''h'', 3600000000000)]"

fun leading_int :: "nat \<Rightarrow> string \<Rightarrow> (nat \<times> string) option" where
  "leading_int x [] = Some (x, [])"
| "leading_int x (c # s) =
     (case digit_val c of
        None \<Rightarrow> Some (x, c # s)
      | Some v \<Rightarrow> if 2 ^ 63 div 10 < x \<or> 2 ^ 63 < 10 * x + v then None else leading_int (10 * x + v) s)"

text \<open>The digits after the point and their scale; those past what fits are skipped.\<close>

fun leading_fraction :: "nat \<Rightarrow> nat \<Rightarrow> bool \<Rightarrow> string \<Rightarrow> nat \<times> nat \<times> string" where
  "leading_fraction x scale over [] = (x, scale, [])"
| "leading_fraction x scale over (c # s) =
     (case digit_val c of
        None \<Rightarrow> (x, scale, c # s)
      | Some v \<Rightarrow>
          if over \<or> (2 ^ 63 - 1) div 10 < x \<or> 2 ^ 63 < 10 * x + v then leading_fraction x scale True s
          else leading_fraction (10 * x + v) (10 * scale) over s)"

definition unit_byte :: "char \<Rightarrow> bool" where
  "unit_byte c \<longleftrightarrow> c \<noteq> CHR ''.'' \<and> digit_val c = None"

text \<open>One number with its unit, and the rest.\<close>

definition duration_part :: "string \<Rightarrow> (nat \<times> string) option" where
  "duration_part s =
     (case leading_int 0 s of
        None \<Rightarrow> None
      | Some (v, r) \<Rightarrow>
          let pre = (length r \<noteq> length s);
              (post, f, scale, r) =
                (case r of
                   c # r' \<Rightarrow> if c = CHR ''.'' then (case leading_fraction 0 1 False r' of
                       (f, scale, r'') \<Rightarrow> (length r'' \<noteq> length r', f, scale, r'')) else (False, 0, 1, r)
                 | [] \<Rightarrow> (False, 0, 1, r))
          in if \<not> pre \<and> \<not> post then None
             else case map_of duration_units (takeWhile unit_byte r) of
                 None \<Rightarrow> None
               | Some u \<Rightarrow>
                   if 2 ^ 63 div u < v then None
                   else let v = v * u + (if 0 < f then nat (f64_to_int64 (f64_mul (f64_of_int (int f)) (f64_div (f64_of_int (int u)) (f64_of_int (int scale))))) else 0)
                        in if 2 ^ 63 < v then None else Some (v, dropWhile unit_byte r))"

text \<open>A part takes at least a byte, so as many rounds as there are bytes are enough.\<close>

fun duration_parts :: "nat \<Rightarrow> nat \<Rightarrow> string \<Rightarrow> nat option" where
  "duration_parts fuel d [] = Some d"
| "duration_parts 0 d (c # s) = None"
| "duration_parts (Suc fuel) d (c # s) =
     (if unit_byte c then None
      else case duration_part (c # s) of
          None \<Rightarrow> None
        | Some (v, r) \<Rightarrow> if 2 ^ 63 < d + v then None else duration_parts fuel (d + v) r)"

definition parse_duration :: "string \<Rightarrow> int option" where
  "parse_duration s =
     (let neg = (s \<noteq> [] \<and> hd s = CHR ''-'');
          r = (if s \<noteq> [] \<and> (hd s = CHR ''-'' \<or> hd s = CHR ''+'') then tl s else s)
      in if r = ''0'' then Some 0
         else if r = [] then None
         else case duration_parts (length r) 0 r of
             None \<Rightarrow> None
           | Some v \<Rightarrow> if neg then Some (- int v) else if 2 ^ 63 - 1 < v then None else Some (int v))"

section \<open>New downloads\<close>

record add_form =
  af_type :: string
  af_links :: "string list"
  af_output :: string
  af_rate :: string
  af_concurrency :: int
  af_sha256 :: string
  af_headers :: "string list"
  af_cookie :: string
  af_cookies_file :: string
  af_preset :: string
  af_format :: string
  af_cookies_browser :: string
  af_torrent_files :: string
  af_seed_ratio :: float64
  af_seed_time :: string
  af_via :: string

text \<open>The environment: the Downloads folder, the working directory, reading a cookies file, making a
  folder, and what a link is called when it is asked for with some headers.\<close>

record add_env =
  ae_downloads :: "string result"
  ae_cwd :: "string option"
  ae_read :: "string \<Rightarrow> string result"
  ae_mkdir :: "string \<Rightarrow> gerror option"
  ae_name :: "header_set option \<Rightarrow> string \<Rightarrow> string"

definition form_links :: "string list \<Rightarrow> string list" where
  "form_links ls = filter (\<lambda>l. l \<noteq> [] \<and> \<not> has_prefix l ''#'') (map trim_space ls)"

definition form_headers :: "add_form \<Rightarrow> string list" where
  "form_headers f =
     filter (\<lambda>h. h \<noteq> []) (map trim_space (af_headers f)) @
     (let c = trim_space (af_cookie f) in if c \<noteq> [] then [''Cookie: '' @ c] else [])"

definition form_limit :: "add_form \<Rightarrow> int result" where
  "form_limit f = (let r = trim_space (af_rate f) in if r = [] then Inr 0 else parse_rate r)"

text \<open>The headers and cookies of a form, for the kinds of download that send any.\<close>

definition form_options :: "add_env \<Rightarrow> add_form \<Rightarrow> job_options result" where
  "form_options env f =
     (if af_type f \<noteq> ''url'' \<and> af_type f \<noteq> ''social'' then Inr empty_options
      else let hs = form_headers f
           in case build_headers hs [] of
                Inl e \<Rightarrow> Inl e
              | Inr _ \<Rightarrow>
                  let file = trim_space (af_cookies_file f)
                  in if file = [] then Inr (empty_options\<lparr>o_headers := hs\<rparr>)
                     else (case resolve_output (ae_cwd env) file of
                         Inl e \<Rightarrow> Inl e
                       | Inr file \<Rightarrow>
                           (case build_set [] file (ae_read env file) of
                              Inl e \<Rightarrow> Inl e
                            | Inr _ \<Rightarrow> Inr (empty_options\<lparr>o_headers := hs, o_cookies_file := file\<rparr>))))"

definition sha256_ok :: "string \<Rightarrow> bool" where
  "sha256_ok s \<longleftrightarrow> length s = 64 \<and> list_all (\<lambda>c. hex_digit_val c \<noteq> None) s"

text \<open>Making the folder of a batch.\<close>

definition batch_mkdir :: "add_env \<Rightarrow> string \<Rightarrow> gerror option" where
  "batch_mkdir env out =
     (case (if out \<noteq> [] then Inr out else ae_downloads env) of
        Inl _ \<Rightarrow> None
      | Inr dir \<Rightarrow> (case resolve_output (ae_cwd env) dir of Inl _ \<Rightarrow> None | Inr p \<Rightarrow> ae_mkdir env p))"

definition url_requests :: "add_env \<Rightarrow> add_form \<Rightarrow> string list \<Rightarrow> int \<Rightarrow> job_options \<Rightarrow> request list result" where
  "url_requests env f links limit opts =
     (let sha = trim_space (af_sha256 f)
      in if sha \<noteq> [] \<and> \<not> sha256_ok sha then Inl (ErrMsg ''the checksum must be 64 hexadecimal characters'')
         else if sha \<noteq> [] \<and> 1 < length links then Inl (ErrMsg ''a checksum belongs to one file; start that link by itself'')
         else case build_set (o_headers opts) (o_cookies_file opts) (ae_read env (o_cookies_file opts)) of
             Inl e \<Rightarrow> Inl e
           | Inr hdr \<Rightarrow>
               (case url_outputs (ae_downloads env) (ae_cwd env)
                   (batch_mkdir env (trim_space (af_output f))) links (trim_space (af_output f)) (ae_name env hdr) of
                  Inl e \<Rightarrow> Inl e
                | Inr outs \<Rightarrow>
                    Inr (map (\<lambda>(link, out). AddURL link out (if af_concurrency f < 1 then 4 else af_concurrency f) limit (to_lower sha) opts)
                      (zip links outs))))"

definition presets :: "(string \<times> string) list" where
  "presets =
     [(''best'', []), (''1080p'', ''bv*[height<=1080]+ba/b[height<=1080]''), (''720p'', ''bv*[height<=720]+ba/b[height<=720]''),
      (''480p'', ''bv*[height<=480]+ba/b[height<=480]''), (''worst'', ''worst''), (''audio'', ''bestaudio/best'')]"

definition social_requests :: "add_env \<Rightarrow> add_form \<Rightarrow> string list \<Rightarrow> int \<Rightarrow> job_options \<Rightarrow> request list result" where
  "social_requests env f links limit opts =
     (let fmt = trim_space (af_format f)
      in case (if af_preset f \<noteq> [] \<and> fmt = [] then map_of presets (af_preset f) else Some fmt) of
           None \<Rightarrow> Inl (ErrMsg (''unknown quality '' @ go_quote (af_preset f)))
         | Some fmt \<Rightarrow>
             (case output_path (ae_downloads env) (ae_cwd env) (trim_space (af_output f)) [] of
                Inl e \<Rightarrow> Inl e
              | Inr out \<Rightarrow>
                  (case ae_mkdir env out of
                     Some e \<Rightarrow> Inl e
                   | None \<Rightarrow>
                       Inr (map (\<lambda>link. AddSocial link out fmt limit (opts\<lparr>o_cookies_from_browser := trim_space (af_cookies_browser f)\<rparr>)) links))))"

definition seed_seconds :: "string \<Rightarrow> int result" where
  "seed_seconds t =
     (let st = trim_space t
      in if st = [] then Inr 0
         else case parse_duration st of
             Some n \<Rightarrow> if n < 0 then Inl (ErrMsg (''seed time '' @ go_quote st @ '' isn'' @ [CHR 0x27] @ ''t a duration '' @
                 [CHR 0xE2, CHR 0x80, CHR 0x94] @ '' write it like 30m or 2h''))
               else Inr (f64_to_int64 (duration_seconds n))
           | None \<Rightarrow> Inl (ErrMsg (''seed time '' @ go_quote st @ '' isn'' @ [CHR 0x27] @ ''t a duration '' @
                 [CHR 0xE2, CHR 0x80, CHR 0x94] @ '' write it like 30m or 2h'')))"

fun torrent_sources :: "string option \<Rightarrow> string list \<Rightarrow> string list result" where
  "torrent_sources cwd [] = Inr []"
| "torrent_sources cwd (l # ls) =
     (case (if has_prefix l ''magnet:'' then Inr l else resolve_output cwd l) of
        Inl e \<Rightarrow> Inl e
      | Inr l \<Rightarrow> (case torrent_sources cwd ls of Inl e \<Rightarrow> Inl e | Inr ls \<Rightarrow> Inr (l # ls)))"

definition torrent_requests :: "add_env \<Rightarrow> add_form \<Rightarrow> string list \<Rightarrow> int \<Rightarrow> request list result" where
  "torrent_requests env f links limit =
     (case parse_selection (af_torrent_files f) of
        Inl e \<Rightarrow> Inl e
      | Inr _ \<Rightarrow>
          if f64_less (af_seed_ratio f) (FFin 0) then Inl (ErrMsg (''the seed ratio can'' @ [CHR 0x27] @ ''t be negative''))
          else case seed_seconds (af_seed_time f) of
              Inl e \<Rightarrow> Inl e
            | Inr secs \<Rightarrow>
                (case output_path (ae_downloads env) (ae_cwd env) (trim_space (af_output f)) [] of
                   Inl e \<Rightarrow> Inl e
                 | Inr out \<Rightarrow>
                     (case torrent_sources (ae_cwd env) links of
                        Inl e \<Rightarrow> Inl e
                      | Inr srcs \<Rightarrow>
                          Inr (map (\<lambda>src. AddTorrent src out limit
                            (empty_options\<lparr>o_torrent_files := af_torrent_files f, o_seed_ratio := af_seed_ratio f,
                               o_seed_time_sec := secs, o_via := af_via f\<rparr>)) srcs))))"

definition build_add_requests :: "add_env \<Rightarrow> add_form \<Rightarrow> request list result" where
  "build_add_requests env f =
     (let links = form_links (af_links f)
      in if links = [] then Inl (ErrMsg ''paste at least one link'')
         else case form_limit f of
             Inl e \<Rightarrow> Inl e
           | Inr limit \<Rightarrow>
               (case form_options env f of
                  Inl e \<Rightarrow> Inl e
                | Inr opts \<Rightarrow>
                    if af_type f = ''url'' then url_requests env f links limit opts
                    else if af_type f = ''social'' then social_requests env f links limit opts
                    else if af_type f = ''torrent'' then torrent_requests env f links limit
                    else Inl (ErrMsg (''unknown download type '' @ go_quote (af_type f)))))"

fun request_source :: "request \<Rightarrow> string" where
  "request_source (AddURL src _ _ _ _ _) = src"
| "request_source (AddTorrent src _ _ _) = src"
| "request_source (AddWebDAV src _ _) = src"
| "request_source (AddSocial src _ _ _ _) = src"
| "request_source _ = []"

text \<open>The loop of \<^verbatim>\<open>webAddJobs\<close>: the jobs started and the failures, in order. A request that is granted
  without a job would be read through a nil pointer: \<open>None\<close>.\<close>

fun add_jobs ::
  "network \<Rightarrow> request list \<Rightarrow> string list \<times> (string \<times> string) list \<Rightarrow> daemon \<Rightarrow> (string list \<times> (string \<times> string) list) option \<times> daemon" where
  "add_jobs nw [] acc d = (Some acc, d)"
| "add_jobs nw (r # rs) (begun, failed) d =
     (case do_request nw r d of
        (RespError e, d) \<Rightarrow> add_jobs nw rs (begun, failed @ [(request_source r, e)]) d
      | (RespJob (Some v), d) \<Rightarrow>
          if j_status (jv_job v) = StatusFailed
          then add_jobs nw rs (begun, failed @ [(request_source r, j_error (jv_job v))]) d
          else add_jobs nw rs (begun @ [j_id (jv_job v)], failed) d
      | (_, d) \<Rightarrow> (None, d))"

definition web_add_jobs ::
  "network \<Rightarrow> add_env \<Rightarrow> add_form \<Rightarrow> daemon \<Rightarrow> (string + (string list \<times> (string \<times> string) list) option) \<times> daemon" where
  "web_add_jobs nw env f d =
     (case build_add_requests env f of
        Inl e \<Rightarrow> (Inl (err_string e), d)
      | Inr rs \<Rightarrow> (case add_jobs nw rs ([], []) d of (x, d) \<Rightarrow> (Inr x, d)))"

section \<open>Actions on jobs\<close>

text \<open>The command of an action; \<open>ex\<close> tells how the job's worker, if it has one, ends.\<close>

definition action_request :: "string \<Rightarrow> bool \<Rightarrow> (string \<Rightarrow> worker_exit option) \<Rightarrow> string \<Rightarrow> request option" where
  "action_request act purge ex i =
     (if act = ''pause'' then Some (Pause i (ex i))
      else if act = ''resume'' then Some (Resume i)
      else if act = ''retry'' then Some (Retry i)
      else if act = ''cancel'' then Some (Cancel i (ex i))
      else if act = ''remove'' then Some (Remove i purge (ex i))
      else None)"

fun act_on :: "network \<Rightarrow> (string \<Rightarrow> request option) \<Rightarrow> string list \<Rightarrow> nat \<times> (string \<times> string) list \<Rightarrow> daemon \<Rightarrow> (nat \<times> (string \<times> string) list) \<times> daemon" where
  "act_on nw cmd [] acc d = (acc, d)"
| "act_on nw cmd (i # is) (n, failed) d =
     (case cmd i of
        None \<Rightarrow> ((n, failed), d)
      | Some r \<Rightarrow>
          (case do_request nw r d of
             (RespError e, d) \<Rightarrow> act_on nw cmd is (n, failed @ [(i, e)]) d
           | (_, d) \<Rightarrow> act_on nw cmd is (Suc n, failed) d))"

definition web_jobs_action ::
  "network \<Rightarrow> string list \<Rightarrow> string \<Rightarrow> bool \<Rightarrow> (string \<Rightarrow> worker_exit option) \<Rightarrow> daemon \<Rightarrow> (string + nat \<times> (string \<times> string) list) \<times> daemon" where
  "web_jobs_action nw ids act purge ex d =
     (if action_request act purge ex [] = None then (Inl (''unknown action '' @ go_quote act), d)
      else case act_on nw (action_request act purge ex) ids (0, []) d of (x, d) \<Rightarrow> (Inr x, d))"

section \<open>Torrents\<close>

text \<open>The source a request for a torrent's files goes out with.\<close>

definition torrent_source :: "string option \<Rightarrow> string \<Rightarrow> string result" where
  "torrent_source cwd src =
     (let s = trim_space src
      in if s = [] then Inl (ErrMsg ''paste a magnet link or a .torrent path first'')
         else if has_prefix s ''magnet:'' then Inr s else resolve_output cwd s)"

definition max_torrent_upload :: int where "max_torrent_upload = 16777216"

definition safe_name_byte :: "char \<Rightarrow> bool" where
  "safe_name_byte c \<longleftrightarrow>
     (let n = (of_char c :: nat)
      in 65 \<le> n \<and> n \<le> 90 \<or> 97 \<le> n \<and> n \<le> 122 \<or> 48 \<le> n \<and> n \<le> 57 \<or> c \<in> {CHR ''.'', CHR ''_'', CHR ''-''})"

text \<open>\<^verbatim>\<open>unsafeNameRe.ReplaceAllString(s, "_")\<close>: one underscore for a run.\<close>

function safe_runs :: "string \<Rightarrow> string" where
  "safe_runs [] = []"
| "safe_runs (c # s) =
     (if safe_name_byte c then c # safe_runs s else CHR ''_'' # safe_runs (dropWhile (\<lambda>x. \<not> safe_name_byte x) s))"
  by pat_completeness auto
termination
  by (relation "measure length") (auto simp: less_Suc_eq_le length_dropWhile_le)

definition trim_set :: "char set \<Rightarrow> string \<Rightarrow> string" where
  "trim_set cs s = rev (dropWhile (\<lambda>c. c \<in> cs) (rev (dropWhile (\<lambda>c. c \<in> cs) s)))"

definition upload_name :: "string \<Rightarrow> string" where
  "upload_name asked =
     (let n = trim_suffix (trim_set {CHR ''.'', CHR ''_''} (safe_runs (path_base asked))) ''.torrent''
      in if n = [] then ''upload'' else n)"

definition uploads_dir :: "string \<Rightarrow> string" where
  "uploads_dir data_dir = path_join [data_dir, ''uploads'']"

text \<open>\<open>rnd\<close> is what the random bytes read in hexadecimal, \<open>mkdir\<close> and \<open>wrote\<close> the errors of the two calls.\<close>

definition web_torrent_upload ::
  "string \<Rightarrow> string \<Rightarrow> gerror option \<Rightarrow> gerror option \<Rightarrow> string \<Rightarrow> string \<Rightarrow> (int \<times> gerror) + string" where
  "web_torrent_upload data_dir rnd mkdir wrote asked data =
     (if data = [] \<or> max_torrent_upload < int (length data)
      then Inl (400, ErrMsg (''that isn'' @ [CHR 0x27] @ ''t a .torrent file (it'' @ [CHR 0x27] @ ''s empty or larger than 16 MB)''))
      else if hd data \<noteq> CHR ''d'' then Inl (400, ErrMsg (''that isn'' @ [CHR 0x27] @ ''t a .torrent file''))
      else case mkdir of
        Some e \<Rightarrow> Inl (500, e)
      | None \<Rightarrow>
          (case wrote of
             Some e \<Rightarrow> Inl (500, e)
           | None \<Rightarrow> Inr (path_join [uploads_dir data_dir, rnd @ ''-'' @ upload_name asked @ ''.torrent''])))"

section \<open>Connections and WebDAV\<close>

definition conn_name_ok :: "string \<Rightarrow> bool" where
  "conn_name_ok n \<longleftrightarrow> n \<noteq> [] \<and> list_all (\<lambda>c. safe_name_byte c \<and> c \<noteq> CHR ''.'') n"

text \<open>\<open>stored\<close> is the error of reading or writing the file of connections.\<close>

definition web_add_connection :: "gerror option \<Rightarrow> int \<Rightarrow> string \<Rightarrow> string \<Rightarrow> string \<Rightarrow> string \<Rightarrow> bool \<Rightarrow> conn list \<Rightarrow> ((int \<times> gerror) + conn list)" where
  "web_add_connection stored now name u user pass insecure cs =
     (let name = trim_space name; u = trim_space u
      in if \<not> conn_name_ok name then Inl (400, ErrMsg ''the name may contain only letters, digits, - and _'')
         else if \<not> has_prefix u ''http://'' \<and> \<not> has_prefix u ''https://''
         then Inl (400, ErrMsg ''the address must start with http:// or https://'')
         else case stored of
             Some e \<Rightarrow> Inl (500, e)
           | None \<Rightarrow> Inr (conn_put now \<lparr>cn_name = name, cn_type = ''webdav'', cn_url = u, cn_user = trim_space user, cn_pass = pass,
               cn_insecure = insecure, cn_created = 0\<rparr> cs))"

definition entry_before :: "entry \<Rightarrow> entry \<Rightarrow> bool" where
  "entry_before a b \<longleftrightarrow>
     (if en_is_dir a \<noteq> en_is_dir b then en_is_dir a else to_lower (en_path a) < to_lower (en_path b))"

record web_entry =
  we_path :: string
  we_name :: string
  we_dir :: bool
  we_size :: int
  we_modified :: int

definition web_webdav_list :: "entry list \<Rightarrow> web_entry list" where
  "web_webdav_list es =
     map (\<lambda>e. \<lparr>we_path = en_path e, we_name = path_base (trim_suffix (en_path e) ''/''), we_dir = en_is_dir e, we_size = en_size e,
         we_modified = (case en_mod e of None \<Rightarrow> 0 | Some t \<Rightarrow> t)\<rparr>) (sort_by entry_before es)"

definition web_webdav_download ::
  "network \<Rightarrow> add_env \<Rightarrow> conn list \<Rightarrow> string \<Rightarrow> string list \<Rightarrow> string \<Rightarrow> daemon \<Rightarrow>
   ((int \<times> gerror) + (string list \<times> (string \<times> string) list) option) \<times> daemon" where
  "web_webdav_download nw env cs name paths out d =
     (case conn_get name cs of
        Inl e \<Rightarrow> (Inl (404, e), d)
      | Inr _ \<Rightarrow>
          (case output_path (ae_downloads env) (ae_cwd env) (trim_space out) [] of
             Inl e \<Rightarrow> (Inl (400, e), d)
           | Inr out \<Rightarrow>
               (case fold (\<lambda>p (acc, d). case acc of None \<Rightarrow> (None, d) | Some (begun, failed) \<Rightarrow>
                      (case do_request nw (AddWebDAV (join_webdav_source name p) out 0) d of
                         (RespError e, d) \<Rightarrow> (Some (begun, failed @ [(p, e)]), d)
                       | (RespJob (Some v), d) \<Rightarrow> (Some (begun @ [j_id (jv_job v)], failed), d)
                       | (_, d) \<Rightarrow> (None, d))) paths (Some ([], []), d) of
                  (x, d) \<Rightarrow> (Inr x, d))))"

section \<open>What can be played\<close>

record playable =
  pf_file :: int
  pf_name :: string
  pf_size :: int
  pf_path :: string

definition play_roots :: "job \<Rightarrow> string list" where
  "play_roots job =
     (case j_type job of
        JobURL \<Rightarrow> [j_output job]
      | JobTorrent \<Rightarrow> map (\<lambda>p. path_join [j_output job, p]) (j_resolved job)
      | _ \<Rightarrow> j_resolved job)"

definition play_name :: "string \<Rightarrow> string \<Rightarrow> string" where
  "play_name rt p = (case path_rel (path_dir rt) p of Some r \<Rightarrow> r | None \<Rightarrow> path_base p)"

definition disk_playables :: "(string \<Rightarrow> (string \<times> int option) list) \<Rightarrow> job \<Rightarrow> playable list" where
  "disk_playables walk job =
     (let found = concat (map (\<lambda>rt. List.map_filter (\<lambda>(p, sz). map_option (\<lambda>n. (play_name rt p, n, p)) sz) (walk rt)) (play_roots job))
      in map (\<lambda>(i, name, n, p). \<lparr>pf_file = int i + 1, pf_name = name, pf_size = n, pf_path = p\<rparr>)
           (enumerate 0 (sort_by (\<lambda>a b. fst a < fst b) found)))"

text \<open>The playable files, and whether the job is still running.\<close>

definition job_files ::
  "string result \<Rightarrow> string result \<Rightarrow> (string \<Rightarrow> (string \<times> int option) list) \<Rightarrow> string \<Rightarrow> daemon \<Rightarrow> stream_server option \<Rightarrow>
   (playable list \<times> bool) result \<times> daemon \<times> stream_server option" where
  "job_files rnd listened walk i d sv =
     (case on_store (get_job i) d of
        (Inl _, d) \<Rightarrow> (Inl (not_found i), d, sv)
      | (Inr job, d) \<Rightarrow>
          if \<not> job_finished job then
            (if j_type job \<noteq> JobTorrent
             then (Inl (ErrMsg (''this download hasn'' @ [CHR 0x27] @ ''t finished yet '' @ [CHR 0xE2, CHR 0x80, CHR 0x94] @
                 '' it can be played once it has'')), d, sv)
             else case stream_torrent rnd listened i (- 1) d sv of
                 (Inl e, d, sv) \<Rightarrow> (Inl e, d, sv)
               | (Inr (_, tfiles), d, sv) \<Rightarrow>
                   let selected = (case tm_files i (d_tm d) of Some (_, sel) \<Rightarrow> sel | None \<Rightarrow> [])
                   in (Inr (map (\<lambda>(_, f). \<lparr>pf_file = jf_index f + 1, pf_name = jf_path f, pf_size = jf_length f, pf_path = []\<rparr>)
                         (filter (\<lambda>(i, _). \<not> (i < length selected \<and> \<not> selected ! i)) (enumerate 0 tfiles)), True), d, sv))
          else let files = disk_playables walk job
               in if files = [] then (Inl (ErrMsg ''the downloaded file is no longer where godl saved it''), d, sv)
                  else (Inr (files, False), d, sv))"

definition media_files :: "playable list \<Rightarrow> playable list" where
  "media_files files = (let media = filter (\<lambda>f. streamable (pf_name f)) files in if media = [] then files else media)"

text \<open>The loops of \<^verbatim>\<open>resolveMedia\<close>: the file of a number, or the last of the largest.\<close>

definition no_playable :: playable where
  "no_playable = \<lparr>pf_file = 0, pf_name = [], pf_size = 0, pf_path = []\<rparr>"

definition pick_playable :: "int \<Rightarrow> playable list \<Rightarrow> playable" where
  "pick_playable n files =
     (if 0 < n then fold (\<lambda>f pick. if pf_file f = n then f else pick) files no_playable
      else fold (\<lambda>f pick. if pf_size pick \<le> pf_size f then f else pick) (media_files files) no_playable)"

text \<open>\<^verbatim>\<open>AuthHeader\<close>, with the encoding of \<^verbatim>\<open>base64.StdEncoding\<close>.\<close>

definition base64_char :: "nat \<Rightarrow> char" where
  "base64_char n =
     (if n < 26 then char_of (65 + n) else if n < 52 then char_of (71 + n) else if n < 62 then char_of (n - 4)
      else if n = 62 then CHR ''+'' else CHR ''/'')"

fun base64 :: "string \<Rightarrow> string" where
  "base64 [] = []"
| "base64 [a] = (let n = of_char a * 65536 :: nat in [base64_char (n div 262144), base64_char (n div 4096 mod 64), CHR ''='', CHR ''=''])"
| "base64 [a, b] =
     (let n = of_char a * 65536 + of_char b * 256 :: nat
      in [base64_char (n div 262144), base64_char (n div 4096 mod 64), base64_char (n div 64 mod 64), CHR ''=''])"
| "base64 (a # b # c # s) =
     (let n = of_char a * 65536 + of_char b * 256 + of_char c :: nat
      in base64_char (n div 262144) # base64_char (n div 4096 mod 64) # base64_char (n div 64 mod 64) # base64_char (n mod 64) # base64 s)"

definition auth_header :: "string \<Rightarrow> string \<Rightarrow> string" where
  "auth_header user pass = (if user = [] \<and> pass = [] then [] else ''Basic '' @ base64 (user @ '':'' @ pass))"

text \<open>What to play: \<open>client\<close> is what \<^verbatim>\<open>webdav.New\<close> makes of a saved address, with \<^verbatim>\<open>URLFor\<close>.\<close>

record media_request =
  mr_kind :: string
  mr_job :: string
  mr_file :: int
  mr_conn :: string
  mr_path :: string

definition resolve_media ::
  "string result \<Rightarrow> string result \<Rightarrow> (string \<Rightarrow> (string \<times> int option) list) \<Rightarrow> conn list \<Rightarrow> (string \<Rightarrow> (string \<Rightarrow> string) result) \<Rightarrow>
   media_request \<Rightarrow> daemon \<Rightarrow> stream_server option \<Rightarrow> media_source result \<times> daemon \<times> stream_server option" where
  "resolve_media rnd listened walk cs client r d sv =
     (if mr_kind r = ''job'' then
        (case job_files rnd listened walk (mr_job r) d sv of
           (Inl e, d, sv) \<Rightarrow> (Inl e, d, sv)
         | (Inr (files, running), d, sv) \<Rightarrow>
             let pick = pick_playable (mr_file r) files
             in if 0 < mr_file r \<and> pf_file pick = 0
                then (Inl (ErrMsg (''that job has no file #'' @ itoa (mr_file r))), d, sv)
                else if \<not> running
                then (Inr (empty_source\<lparr>src_name := path_base (pf_name pick), src_path := pf_path pick\<rparr>), d, sv)
                else (case stream_torrent rnd listened (mr_job r) (pf_file pick - 1) d sv of
                    (Inl e, d, sv) \<Rightarrow> (Inl e, d, sv)
                  | (Inr (u, _), d, sv) \<Rightarrow> (Inr (empty_source\<lparr>src_name := path_base (pf_name pick), src_url := u\<rparr>), d, sv)))
      else if mr_kind r = ''webdav'' then
        (case conn_get (mr_conn r) cs of
           Inl e \<Rightarrow> (Inl e, d, sv)
         | Inr c \<Rightarrow>
             (case client (cn_url c) of
                Inl e \<Rightarrow> (Inl e, d, sv)
              | Inr url_for \<Rightarrow>
                  let auth = auth_header (cn_user c) (cn_pass c)
                  in (Inr (empty_source\<lparr>src_name := path_base (mr_path r), src_url := url_for (mr_path r),
                        src_header := (if auth \<noteq> [] then [(''Authorization'', [auth])] else [])\<rparr>), d, sv)))
      else (Inl (ErrMsg (''unknown thing to play: '' @ go_quote (mr_kind r))), d, sv))"

section \<open>Asking TorBox\<close>

text \<open>\<^verbatim>\<open>webTorBoxCached\<close>: \<open>hash_of\<close> is \<^verbatim>\<open>torrentmgr.InfoHashOf\<close>, \<open>ask\<close> the account.\<close>

definition web_torbox_cached ::
  "string option \<Rightarrow> (string \<Rightarrow> string result) \<Rightarrow> (string \<Rightarrow> string list result) \<Rightarrow> string \<Rightarrow> daemon \<Rightarrow> (int \<times> gerror) + bool" where
  "web_torbox_cached cwd hash_of ask src d =
     (if \<not> torbox_ready (d_settings d) then Inl (400, ErrMsg (''TorBox isn'' @ [CHR 0x27] @ ''t set up''))
      else let s = trim_space src
           in case (if has_prefix s ''magnet:'' then Inr s else resolve_output cwd s) of
                Inl e \<Rightarrow> Inl (400, e)
              | Inr s \<Rightarrow>
                  (case hash_of s of
                     Inl e \<Rightarrow> Inl (400, e)
                   | Inr h \<Rightarrow> (case ask h of Inl e \<Rightarrow> Inl (502, e) | Inr hs \<Rightarrow> Inr (h \<in> set hs))))"

section \<open>The live feed\<close>

text \<open>A job as the page sees it: nothing of its headers and cookies.\<close>

record web_job =
  wj_id :: string
  wj_type :: string
  wj_status :: string
  wj_source :: string
  wj_output :: string
  wj_done :: int
  wj_total :: int
  wj_speed :: float64
  wj_eta :: int
  wj_upload :: float64
  wj_ratio :: float64
  wj_error :: string
  wj_created :: int
  wj_via :: string
  wj_phase :: string

definition web_job_of :: "job_view \<Rightarrow> web_job" where
  "web_job_of v =
     (let j = jv_job v
      in \<lparr>wj_id = j_id j, wj_type = type_string (j_type j), wj_status = status_string (j_status j), wj_source = j_source j,
          wj_output = j_output j, wj_done = j_bytes_done j, wj_total = j_bytes_total j, wj_speed = jv_speed v, wj_eta = jv_eta v,
          wj_upload = jv_upload v, wj_ratio = jv_ratio v, wj_error = j_error j, wj_created = j_created j,
          wj_via = o_via (j_options j), wj_phase = jv_phase v\<rparr>)"

definition web_jobs :: "daemon \<Rightarrow> web_job list \<times> daemon" where
  "web_jobs d = (case snapshot d of (vs, d) \<Rightarrow> (map web_job_of vs, d))"

end
