(* ===== verification/WebApiProps.thy ===== *)
theory WebApiProps
  imports WebApi
begin

text \<open>
  What the page's requests guarantee: saving the settings as they were shown changes nothing, a secret
  never comes back, an upload stays in its folder, every link becomes one request that has passed the
  form's checks, and only the files of the job that was named can be played.
\<close>

section \<open>Settings\<close>

text \<open>What is shown depends only on whether the secrets are set.\<close>

lemma settings_show_no_secret:
  "(s_webui_password s = []) = (p = []) \<Longrightarrow> (s_torbox_key s = []) = (k = []) \<Longrightarrow>
   web_settings_of (s\<lparr>s_webui_password := p, s_torbox_key := k, s_webui_https := h\<rparr>) = web_settings_of s"
  by (simp add: web_settings_of_def)

lemma jobs_show_no_secret:
  "web_job_of (v\<lparr>jv_job := (jv_job v)\<lparr>j_options := (j_options (jv_job v))\<lparr>o_headers := hs, o_cookies_file := f\<rparr>\<rparr>\<rparr>) = web_job_of v"
  by (simp add: web_job_of_def Let_def)



section \<open>Uploads\<close>

lemma safe_runs_safe: "c \<in> set (safe_runs s) \<Longrightarrow> safe_name_byte c"
  by (induction s rule: safe_runs.induct) (auto simp: safe_name_byte_def split: if_splits)

lemma set_trim_set: "set (trim_set cs s) \<subseteq> set s"
proof -
  have d: "set (dropWhile P xs) \<subseteq> set xs" for P and xs :: string by (auto dest: set_dropWhileD)
  show ?thesis using d [of "\<lambda>c. c \<in> cs" "rev (dropWhile (\<lambda>c. c \<in> cs) s)"] d [of "\<lambda>c. c \<in> cs" s]
    by (simp add: trim_set_def)
qed

lemma slash_unsafe: "\<not> safe_name_byte (CHR ''/'')"
  by code_simp

lemma upload_name_safe: "c \<in> set (upload_name asked) \<Longrightarrow> safe_name_byte c" and upload_name_nonempty: "upload_name asked \<noteq> []"
proof -
  let ?n = "trim_suffix (trim_set {CHR ''.'', CHR ''_''} (safe_runs (path_base asked))) ''.torrent''"
  have up: "list_all safe_name_byte ''upload''" by code_simp
  have "set ?n \<subseteq> set (safe_runs (path_base asked))"
    using subset_trans [OF set_take_subset set_trim_set] set_trim_set by (simp add: trim_suffix_def)
  moreover assume "c \<in> set (upload_name asked)"
  ultimately show "safe_name_byte c"
    using safe_runs_safe up by (auto simp: upload_name_def Let_def list_all_iff split: if_splits)
qed (simp add: upload_name_def Let_def)

lemma join_plain:
  assumes "rooted dir" and "n \<noteq> []" "n \<noteq> ''.''" "n \<noteq> dotdot" "CHR ''/'' \<notin> set n"
  shows "path_join [dir, n] = show_path True (clean_elems True (path_elems dir) @ [n])"
  using assms by (simp add: rooted_join_elems path_elems_name clean_elems_append1)

lemma show_path_snoc: "es \<noteq> [] \<Longrightarrow> show_path True (es @ [n]) = show_path True es @ ''/'' @ n"
  using join_with_append [of es "[n]" "''/''"] by (simp add: show_path_def)

text \<open>C35: 
  C1: Whatever name the browser gives a torrent it uploads, the file is stored directly in the uploads
  folder, under a name that starts with random digits, has letters, digits, dots, dashes and underscores
  only, and ends in \<open>.torrent\<close>.
\<close>
theorem upload_stays_in_folder:
  assumes "web_torrent_upload data_dir rnd mkdir wrote asked data = Inr p" and "rooted data_dir"
    and "list_all safe_name_byte rnd" and "rnd \<noteq> []"
  shows "\<exists>n. p = uploads_dir data_dir @ ''/'' @ n \<and> has_prefix n (rnd @ ''-'') \<and> has_suffix n ''.torrent'' \<and>
    list_all safe_name_byte n \<and> length data \<le> 16777216"
proof -
  let ?n = "rnd @ ''-'' @ upload_name asked @ ''.torrent''"
  have p: "p = path_join [uploads_dir data_dir, ?n]" "length data \<le> 16777216"
    using assms(1) by (auto simp: web_torrent_upload_def max_torrent_upload_def split: if_splits option.splits)
  have safe: "list_all safe_name_byte ?n"
    using assms(3) upload_name_safe by (auto simp: list_all_iff) (simp_all add: safe_name_byte_def)
  then have "CHR ''/'' \<notin> set ?n" using slash_unsafe unfolding list_all_iff by blast
  moreover have "4 < length ?n" by simp
  then have "?n \<noteq> ''.''" "?n \<noteq> dotdot" by (auto simp: dotdot_def simp del: length_append)
  moreover have r: "rooted (uploads_dir data_dir)" unfolding uploads_dir_def using rooted_join [OF assms(2)] .
  ultimately have "p = show_path True (clean_elems True (path_elems (uploads_dir data_dir)) @ [?n])"
    unfolding p(1) by (intro join_plain) auto
  moreover have up: "uploads_dir data_dir = show_path True (clean_elems True (path_elems data_dir) @ [''uploads''])"
    unfolding uploads_dir_def by (rule join_plain [OF assms(2)]) (simp_all add: dotdot_def)
  moreover have "clean_elems True (path_elems (uploads_dir data_dir)) = clean_elems True (path_elems data_dir) @ [''uploads'']"
  proof -
    have "path_clean (uploads_dir data_dir) = uploads_dir data_dir" unfolding uploads_dir_def by (rule clean_join_fix [OF assms(2)])
    with rooted_clean_elems [OF r] have "clean_elems True (path_elems (uploads_dir data_dir)) = path_elems (uploads_dir data_dir)" by simp
    also have "\<dots> = clean_elems True (path_elems data_dir) @ [''uploads'']"
      unfolding up using clean_elems_in path_elems_plain
      by (simp add: show_path_def) (subst join_plain_elems; fastforce)
    finally show ?thesis .
  qed
  ultimately have "p = show_path True ((clean_elems True (path_elems data_dir) @ [''uploads'']) @ [?n])" by simp
  then have "p = uploads_dir data_dir @ ''/'' @ ?n"
    using show_path_snoc [of "clean_elems True (path_elems data_dir) @ [''uploads'']" ?n] up by simp
  with p(2) safe show ?thesis
    using has_prefix_append [of "rnd @ ''-''" "upload_name asked @ ''.torrent''"] has_suffix_append [of "rnd @ ''-'' @ upload_name asked" "''.torrent''"]
    by (intro exI [of _ ?n]) simp
qed

theorem upload_stays_in_folder_witness:
  "\<exists>n. web_torrent_upload ''/home/u/.godl'' ''0af1'' None None ''../../etc/pa ss?.torrent'' ''d1:ae'' = Inr (''/home/u/.godl/uploads/'' @ n) \<and>
     list_all safe_name_byte n"
proof -
  have u: "uploads_dir ''/home/u/.godl'' = ''/home/u/.godl/uploads''" by code_simp
  have r: "web_torrent_upload ''/home/u/.godl'' ''0af1'' None None ''../../etc/pa ss?.torrent'' ''d1:ae'' =
      Inr ''/home/u/.godl/uploads/0af1-pa_ss_.torrent''" by code_simp
  have "rooted ''/home/u/.godl''" "list_all safe_name_byte ''0af1''" by code_simp+
  from upload_stays_in_folder [OF r this] obtain n where
    n: "''/home/u/.godl/uploads/0af1-pa_ss_.torrent'' = uploads_dir ''/home/u/.godl'' @ ''/'' @ n" "list_all safe_name_byte n" by blast
  have "web_torrent_upload ''/home/u/.godl'' ''0af1'' None None ''../../etc/pa ss?.torrent'' ''d1:ae'' = Inr (''/home/u/.godl/uploads'' @ ''/'' @ n)"
    by (simp only: r n(1) u)
  with n(2) show ?thesis by (intro exI [of _ n]) simp
qed

section \<open>New downloads\<close>

text \<open>What a request made from a form is known to be.\<close>

definition request_checked :: "add_env \<Rightarrow> add_form \<Rightarrow> request \<Rightarrow> bool" where
  "request_checked env f r =
     (case r of
        AddURL src out conc limit sha opts \<Rightarrow>
          af_type f = ''url'' \<and> src \<in> set (form_links (af_links f)) \<and> 1 \<le> conc \<and>
          (sha = [] \<or> sha256_ok (to_lower sha) \<and> to_lower sha = sha \<and> length (form_links (af_links f)) = 1) \<and>
          is_ok (build_set (o_headers opts) (o_cookies_file opts) (ae_read env (o_cookies_file opts)))
      | AddSocial src out fmt limit opts \<Rightarrow>
          af_type f = ''social'' \<and> src \<in> set (form_links (af_links f)) \<and> is_ok (build_headers (o_headers opts) [])
      | AddTorrent src out limit opts \<Rightarrow>
          af_type f = ''torrent'' \<and> is_ok (parse_selection (o_torrent_files opts)) \<and> \<not> f64_less (o_seed_ratio opts) (FFin 0)
      | _ \<Rightarrow> False)"

lemma hex_digit_lower: "hex_digit_val c \<noteq> None \<Longrightarrow> hex_digit_val (lower_byte c) \<noteq> None"
  by (auto simp: hex_digit_val_def lower_byte_def Let_def of_char_of split: if_splits)

lemma sha256_lower: "sha256_ok s \<Longrightarrow> sha256_ok (to_lower s)"
  using hex_digit_lower by (auto simp: sha256_ok_def to_lower_def list_all_iff)

lemma form_options_headers:
  "form_options env f = Inr opts \<Longrightarrow> is_ok (build_headers (o_headers opts) [])"
  by (auto simp: form_options_def Let_def empty_options_def split: if_splits sum.splits)

lemma url_outputs_length:
  "url_outputs dl cwd mk links out nm = Inr outs \<Longrightarrow> length outs = length links"
proof -
  have b: "length (batch_names t ns) = length ns" for t ns
    by (induction t ns rule: batch_names.induct) (auto split: prod.splits)
  assume "url_outputs dl cwd mk links out nm = Inr outs"
  then show ?thesis by (auto simp: url_outputs_def b split: if_splits sum.splits option.splits)
qed

lemma url_requests_checked:
  assumes "url_requests env f (form_links (af_links f)) limit opts = Inr rs" "af_type f = ''url''" "form_links (af_links f) \<noteq> []"
  shows "map request_source rs = form_links (af_links f) \<and> list_all (request_checked env f) rs"
proof -
  let ?links = "form_links (af_links f)"
  let ?sha = "trim_space (af_sha256 f)"
  have ok: "\<not> (?sha \<noteq> [] \<and> \<not> sha256_ok ?sha)" and one: "\<not> (?sha \<noteq> [] \<and> 1 < length ?links)"
    using assms(1) by (auto simp: url_requests_def Let_def split: if_splits)
  have "length ?links \<noteq> 0" using assms(3) by simp
  with ok one have sha: "?sha = [] \<or> sha256_ok ?sha \<and> length ?links = 1" by linarith
  note eq = assms(1) [unfolded url_requests_def Let_def if_not_P [OF ok] if_not_P [OF one]]
  then obtain hdr where hdr: "build_set (o_headers opts) (o_cookies_file opts) (ae_read env (o_cookies_file opts)) = Inr hdr"
    by (cases "build_set (o_headers opts) (o_cookies_file opts) (ae_read env (o_cookies_file opts))") auto
  with eq obtain outs where u: "url_outputs (ae_downloads env) (ae_cwd env) (batch_mkdir env (trim_space (af_output f))) ?links (trim_space (af_output f)) (ae_name env hdr) = Inr outs"
    and rs: "rs = map (\<lambda>(link, out). AddURL link out (if af_concurrency f < 1 then 4 else af_concurrency f) limit (to_lower ?sha) opts) (zip ?links outs)"
    by (cases "url_outputs (ae_downloads env) (ae_cwd env) (batch_mkdir env (trim_space (af_output f))) ?links (trim_space (af_output f)) (ae_name env hdr)") auto
  note outs = url_outputs_length [OF u]
  have empty: "to_lower [] = []" by (simp add: to_lower_def)
  have "request_checked env f (AddURL l out (if af_concurrency f < 1 then 4 else af_concurrency f) limit (to_lower ?sha) opts)"
    if "l \<in> set ?links" for l out
    using sha hdr that assms(2) sha256_lower [of ?sha] empty by (auto simp: request_checked_def)
  then show ?thesis using outs by (auto simp: rs case_prod_unfold comp_def list_all_iff dest: set_zip_leftD)
qed

lemma torrent_sources_length: "torrent_sources cwd ls = Inr ss \<Longrightarrow> length ss = length ls"
  by (induction ls arbitrary: ss) (auto split: sum.splits)

text \<open>
  C1: A form that is accepted becomes exactly one request for each link in it that is not a comment, in
  their order, and each has passed the checks: a checksum belongs to one link and is 64 digits, the headers
  and cookies parse, the choice of a torrent's files parses, its ratio is not negative. So a form is
  accepted whole or not at all.
\<close>
theorem form_becomes_requests:
  assumes "build_add_requests env f = Inr rs"
  shows "length rs = length (form_links (af_links f)) \<and> rs \<noteq> [] \<and> list_all (request_checked env f) rs \<and>
    (af_type f \<noteq> ''torrent'' \<longrightarrow> map request_source rs = form_links (af_links f))"
proof -
  let ?links = "form_links (af_links f)"
  have ne: "?links \<noteq> []" using assms by (auto simp: build_add_requests_def Let_def)
  from assms ne obtain limit where l: "form_limit f = Inr limit" by (cases "form_limit f") (auto simp: build_add_requests_def Let_def)
  from assms ne l obtain opts where o: "form_options env f = Inr opts"
    by (cases "form_options env f") (auto simp: build_add_requests_def Let_def)
  note eq = assms [unfolded build_add_requests_def Let_def if_not_P [OF ne] l o sum.case]
  consider "af_type f = ''url''" | "af_type f = ''social''" | "af_type f = ''torrent''"
    using eq by (auto split: if_splits)
  then show ?thesis
  proof cases
    case 1
    with eq have "url_requests env f ?links limit opts = Inr rs" by simp
    from url_requests_checked [OF this 1 ne] ne show ?thesis by (metis length_map list.size(3) length_0_conv)
  next
    case 2
    with eq have s: "social_requests env f ?links limit opts = Inr rs" by simp
    obtain fmt out where rs: "rs = map (\<lambda>link. AddSocial link out fmt limit (opts\<lparr>o_cookies_from_browser := trim_space (af_cookies_browser f)\<rparr>)) ?links"
      using s by (auto simp: social_requests_def Let_def split: option.splits sum.splits if_splits)
    then show ?thesis using ne 2 form_options_headers [OF o] by (simp add: list_all_iff request_checked_def comp_def)
  next
    case 3
    with eq have t: "torrent_requests env f ?links limit = Inr rs" by simp
    then obtain out secs srcs where src: "torrent_sources (ae_cwd env) ?links = Inr srcs" "is_ok (parse_selection (af_torrent_files f))"
      "\<not> f64_less (af_seed_ratio f) (FFin 0)"
      and rs: "rs = map (\<lambda>src. AddTorrent src out limit (empty_options\<lparr>o_torrent_files := af_torrent_files f, o_seed_ratio := af_seed_ratio f,
                 o_seed_time_sec := secs, o_via := af_via f\<rparr>)) srcs"
      by (auto simp: torrent_requests_def split: sum.splits if_splits)
    then show ?thesis using ne 3 torrent_sources_length [OF src(1)] by (auto simp: list_all_iff request_checked_def)
  qed
qed

definition sample_form :: add_form where
  "sample_form = \<lparr>af_type = ''url'', af_links = [''# later'', '' https://a/x.bin '', ''https://b/x.bin'', []], af_output = ''/dl'', af_rate = [],
     af_concurrency = 0, af_sha256 = [], af_headers = [''X-Key: 1''], af_cookie = ''s=1'', af_cookies_file = [], af_preset = [], af_format = [],
     af_cookies_browser = [], af_torrent_files = [], af_seed_ratio = FFin 0, af_seed_time = [], af_via = []\<rparr>"

definition sample_add_env :: add_env where
  "sample_add_env = \<lparr>ae_downloads = Inr ''/home/u/Downloads'', ae_cwd = None, ae_read = (\<lambda>_. Inl ErrEOF), ae_mkdir = (\<lambda>_. None),
     ae_name = (\<lambda>_ _. ''x.bin'')\<rparr>"

theorem form_becomes_requests_witness:
  "\<exists>rs. build_add_requests sample_add_env sample_form = Inr rs \<and> map request_source rs = [''https://a/x.bin'', ''https://b/x.bin''] \<and>
     list_all (request_checked sample_add_env sample_form) rs"
proof -
  have l: "form_links (af_links sample_form) = [''https://a/x.bin'', ''https://b/x.bin'']" by code_simp
  have "is_ok (build_add_requests sample_add_env sample_form)" by code_simp
  then obtain rs where r: "build_add_requests sample_add_env sample_form = Inr rs" by (auto simp: is_ok_Inr)
  have "af_type sample_form \<noteq> ''torrent''" by code_simp
  with form_becomes_requests [OF r] r l show ?thesis by (intro exI [of _ rs]) simp
qed

section \<open>Playing\<close>

lemma fold_pick_in: "fold (\<lambda>f pick. if Q f pick then f else pick) fs x \<in> insert x (set fs)"
  by (induction fs arbitrary: x) auto

lemma media_files_in: "set (media_files files) \<subseteq> set files" and media_files_empty: "media_files files = [] \<longleftrightarrow> files = []"
  by (auto simp: media_files_def Let_def filter_empty_conv)

lemma pick_playable_in:
  assumes "files \<noteq> []" and "\<And>f. f \<in> set files \<Longrightarrow> 0 \<le> pf_size f" and "0 < n \<Longrightarrow> pf_file (pick_playable n files) \<noteq> 0"
  shows "pick_playable n files \<in> set files"
proof (cases "0 < n")
  case True
  with assms(3) have "pick_playable n files \<noteq> no_playable" by (auto simp: no_playable_def)
  then show ?thesis using True fold_pick_in [of "\<lambda>f _. pf_file f = n" files no_playable] by (auto simp: pick_playable_def)
next
  case False
  obtain f fs where m: "media_files files = f # fs" using assms(1) media_files_empty [of files] by (cases "media_files files") auto
  then have "f \<in> set files" "set fs \<subseteq> set files" using media_files_in [of files] by auto
  moreover have "pick_playable n files = fold (\<lambda>f pick. if pf_size pick \<le> pf_size f then f else pick) fs f"
    using False m assms(2) [OF \<open>f \<in> set files\<close>] by (simp add: pick_playable_def no_playable_def)
  ultimately show ?thesis using fold_pick_in [of "\<lambda>f pick. pf_size pick \<le> pf_size f" fs f] by auto
qed

lemma disk_playables_found:
  assumes "f \<in> set (disk_playables walk job)"
  shows "\<exists>rt\<in>set (play_roots job). (pf_path f, Some (pf_size f)) \<in> set (walk rt)"
  using assms
  by (fastforce simp: disk_playables_def Let_def enumerate_eq_zip List.map_filter_def dest: set_zip_rightD split: option.splits)

lemma job_files_what:
  assumes "job_files rnd listened walk i d sv = (Inr (files, running), d', sv')"
  shows "\<exists>job d1. on_store (get_job i) d = (Inr job, d1) \<and> running = (\<not> job_finished job) \<and>
    (running \<longrightarrow> j_type job = JobTorrent) \<and> (\<not> running \<longrightarrow> files = disk_playables walk job \<and> files \<noteq> [])"
proof -
  obtain r d1 where g: "on_store (get_job i) d = (r, d1)" by fastforce
  with assms obtain job where r: "r = Inr job" by (cases r) (simp_all add: job_files_def)
  show ?thesis
  proof (cases "job_finished job")
    case True
    with assms g r show ?thesis by (auto simp: job_files_def Let_def split: if_splits)
  next
    case False
    with assms g r have t: "j_type job = JobTorrent" by (simp add: job_files_def split: if_splits)
    obtain y d2 sv2 where "stream_torrent rnd listened i (- 1) d1 sv = (y, d2, sv2)" by (metis prod_cases3)
    with assms g r False t have running by (cases y) (auto simp: job_files_def Let_def)
    with t False g r show ?thesis by auto
  qed
qed

text \<open>
  C1: All a page can play of a job is what the job has: a finished job's file that lies where the job was
  saved, or one that a running torrent's own stream server hands out; it brings no headers and no
  subtitle addresses. Sizes on disk are not negative.
\<close>
theorem played_file_is_the_jobs:
  assumes "resolve_media rnd listened walk cs client r d sv = (Inr src, d', sv')" and "mr_kind r = ''job''"
    and "\<And>rt p n. (p, Some n) \<in> set (walk rt) \<Longrightarrow> 0 \<le> n"
  shows "\<exists>job d1. on_store (get_job (mr_job r)) d = (Inr job, d1) \<and> src_header src = [] \<and> src_subs src = [] \<and> \<not> src_remote src \<and>
    (if job_finished job then src_url src = [] \<and> (\<exists>rt\<in>set (play_roots job). \<exists>n. (src_path src, Some n) \<in> set (walk rt))
     else j_type job = JobTorrent \<and> src_path src = [])"
proof -
  obtain x d2 sv2 where j: "job_files rnd listened walk (mr_job r) d sv = (x, d2, sv2)" by (metis prod_cases3)
  with assms(1,2) obtain files running where x: "x = Inr (files, running)" by (cases x) (auto simp: resolve_media_def)
  from job_files_what [OF j [unfolded x]] obtain job d1 where job: "on_store (get_job (mr_job r)) d = (Inr job, d1)"
    "running = (\<not> job_finished job)" "running \<longrightarrow> j_type job = JobTorrent" "\<not> running \<longrightarrow> files = disk_playables walk job \<and> files \<noteq> []"
    by blast
  let ?pick = "pick_playable (mr_file r) files"
  have some: "0 < mr_file r \<Longrightarrow> pf_file ?pick \<noteq> 0" using assms(1,2) j x by (auto simp: resolve_media_def Let_def)
  show ?thesis
  proof (cases running)
    case True
    then have "src_path src = [] \<and> src_header src = [] \<and> src_subs src = [] \<and> \<not> src_remote src"
      using assms(1,2) j x some by (auto simp: resolve_media_def Let_def empty_source_def split: if_splits sum.splits prod.splits)
    with True job show ?thesis by auto
  next
    case False
    then have src: "src = empty_source\<lparr>src_name := path_base (pf_name ?pick), src_path := pf_path ?pick\<rparr>"
      using assms(1,2) j x some by (auto simp: resolve_media_def Let_def split: if_splits)
    have "?pick \<in> set files"
      using job(4) False disk_playables_found assms(3) some by (intro pick_playable_in) fastforce+
    with job(4) False obtain rt where "rt \<in> set (play_roots job)" "(pf_path ?pick, Some (pf_size ?pick)) \<in> set (walk rt)"
      using disk_playables_found by blast
    then show ?thesis using job(1,2) False by (auto simp: src empty_source_def)
  qed
qed

section \<open>WebDAV\<close>

lemma entry_order: "weak_order entry_before"
proof -
  have k: "weak_order (\<lambda>a b. to_lower (en_path a) < to_lower (en_path b))"
    using weak_order_key [OF weak_order_linorder, of "\<lambda>e. to_lower (en_path e)"] .
  have d: "weak_order (\<lambda>a b. \<not> \<not> en_is_dir a \<and> \<not> en_is_dir b)"
    using weak_order_key [OF weak_order_bool, of "\<lambda>e. \<not> en_is_dir e"] .
  from weak_order_then [OF d k] show ?thesis
    by (rule back_subst [of weak_order]) (auto simp: entry_before_def fun_eq_iff)
qed

interpretation entry_rank: weak_order entry_before
  by (rule entry_order)

text \<open>The page lists all entries of a folder, folders first and then by name.\<close>

lemma web_list_ordered:
  "mset (map we_path (web_webdav_list es)) = mset (map en_path es)" and
  "sorted_wrt (\<lambda>a b. we_dir b \<longrightarrow> we_dir a) (web_webdav_list es)"
proof -
  show "mset (map we_path (web_webdav_list es)) = mset (map en_path es)"
    by (simp add: web_webdav_list_def comp_def)
  have "sorted_wrt (\<lambda>a b. \<not> entry_before b a) (sort_by entry_before es)" by (rule entry_rank.sort_ordered)
  then have "sorted_wrt (\<lambda>a b. en_is_dir b \<longrightarrow> en_is_dir a) (sort_by entry_before es)"
    by (rule sorted_wrt_mono_rel [rotated]) (auto simp: entry_before_def split: if_splits)
  then show "sorted_wrt (\<lambda>a b. we_dir b \<longrightarrow> we_dir a) (web_webdav_list es)" by (simp add: web_webdav_list_def sorted_wrt_map)
qed

text \<open>A connection made on the page can be found again by the jobs that name it.\<close>

lemma web_connection_found:
  assumes "web_add_connection None now name u user pass insecure cs = Inr cs'" and "has_prefix p ''/''"
  shows "split_webdav_source (join_webdav_source (trim_space name) p) = Some (trim_space name, p)" and "is_ok (conn_get (trim_space name) cs')"
proof -
  have n: "conn_name_ok (trim_space name)" and cs': "\<exists>c. cn_name c = trim_space name \<and> cs' = conn_put now c cs"
    using assms(1) by (auto simp: web_add_connection_def Let_def split: if_splits) (metis conn.select_convs(1))+
  have "\<not> safe_name_byte (CHR '':'')" by code_simp
  with n have "CHR '':'' \<notin> set (trim_space name)" "trim_space name \<noteq> []" by (auto simp: conn_name_ok_def list_all_iff)
  then show "split_webdav_source (join_webdav_source (trim_space name) p) = Some (trim_space name, p)"
    using split_join_source assms(2) by blast
  from cs' show "is_ok (conn_get (trim_space name) cs')" by (auto simp: conn_get_put)
qed

definition finished_daemon :: daemon where
  "finished_daemon = sample_daemon 0 [(sample_job ''a'' StatusCompleted)\<lparr>j_type := JobTorrent, j_output := ''/dl'', j_resolved := [''show'']\<rparr>] []"

definition sample_walk :: "string \<Rightarrow> (string \<times> int option) list" where
  "sample_walk rt = (if rt = ''/dl/show'' then [(''/dl/show/a.nfo'', Some 9), (''/dl/show/b.mkv'', Some 7)] else [])"

theorem played_file_is_the_jobs_witness:
  "\<exists>src d' sv'. resolve_media (Inr ''t'') (Inr ''a'') sample_walk [] (\<lambda>_. Inl ErrEOF)
      \<lparr>mr_kind = ''job'', mr_job = ''a'', mr_file = 0, mr_conn = [], mr_path = []\<rparr> finished_daemon None = (Inr src, d', sv') \<and>
     src_path src = ''/dl/show/b.mkv'' \<and> (\<exists>rt n. (src_path src, Some n) \<in> set (sample_walk rt))"
proof -
  let ?q = "\<lparr>mr_kind = ''job'', mr_job = ''a'', mr_file = 0, mr_conn = [], mr_path = []\<rparr>"
  let ?r = "resolve_media (Inr ''t'') (Inr ''a'') sample_walk [] (\<lambda>_. Inl ErrEOF) ?q finished_daemon None"
  have "(case fst ?r of Inr src \<Rightarrow> src_path src = ''/dl/show/b.mkv'' | Inl _ \<Rightarrow> False)" by code_simp
  then obtain src d' sv' where r: "?r = (Inr src, d', sv')" and p: "src_path src = ''/dl/show/b.mkv''"
    by (cases ?r) (auto split: sum.splits)
  have k: "mr_kind ?q = ''job''" by simp
  have walk: "(p, Some n) \<in> set (sample_walk rt) \<Longrightarrow> 0 \<le> n" for rt p n by (auto simp: sample_walk_def split: if_splits)
  have "\<exists>job d1. on_store (get_job (mr_job ?q)) finished_daemon = (Inr job, d1) \<and> src_header src = [] \<and> src_subs src = [] \<and> \<not> src_remote src \<and>
    (if job_finished job then src_url src = [] \<and> (\<exists>rt\<in>set (play_roots job). \<exists>n. (src_path src, Some n) \<in> set (sample_walk rt))
     else j_type job = JobTorrent \<and> src_path src = [])"
    by (rule played_file_is_the_jobs [OF r k]) (rule walk)
  then obtain job where
    "if job_finished job then src_url src = [] \<and> (\<exists>rt\<in>set (play_roots job). \<exists>n. (src_path src, Some n) \<in> set (sample_walk rt))
     else j_type job = JobTorrent \<and> src_path src = []" by blast
  with p have "\<exists>rt n. (src_path src, Some n) \<in> set (sample_walk rt)" by (auto split: if_splits)
  with r p show ?thesis by blast
qed

end
