(* ===== verification/Browse.thy ===== *)
theory Browse
  imports GoSort UrlJob WebDavPaths
begin

text \<open>
  The WebDAV browser of the terminal interface: \<^verbatim>\<open>tui/browse.go\<close>, \<^verbatim>\<open>tui/connform.go\<close>, the replies it waits
  for in \<^verbatim>\<open>tui/update.go\<close> and the order of a folder in \<^verbatim>\<open>tui/sort.go\<close>. A key is its name; the text input
  of the library is an argument, what it holds after a key. A browser that is opened gets a number of
  its own, which stands for its address: replies carry it.
\<close>

section \<open>The order of a folder\<close>

datatype entry_sort = EntryByName | EntryBySize | EntryByModified

fun next_sort :: "entry_sort \<Rightarrow> entry_sort" where
  "next_sort EntryByName = EntryBySize"
| "next_sort EntryBySize = EntryByModified"
| "next_sort EntryByModified = EntryByName"

text \<open>A time that is not known is the zero time, before every other.\<close>

fun mod_after :: "int option \<Rightarrow> int option \<Rightarrow> bool" where
  "mod_after (Some a) (Some b) = (b < a)"
| "mod_after (Some a) None = True"
| "mod_after None b = False"

definition entry_less :: "entry_sort \<Rightarrow> entry \<Rightarrow> entry \<Rightarrow> bool" where
  "entry_less by a b =
     (let name = to_lower (en_path a) < to_lower (en_path b)
      in case by of
           EntryByName \<Rightarrow> name
         | EntryBySize \<Rightarrow> if en_size a \<noteq> en_size b then en_size b < en_size a else name
         | EntryByModified \<Rightarrow> if en_mod a \<noteq> en_mod b then mod_after (en_mod a) (en_mod b) else name)"

definition entry_order :: "entry_sort \<Rightarrow> bool \<Rightarrow> entry \<Rightarrow> entry \<Rightarrow> bool" where
  "entry_order by reverse a b =
     (if en_is_dir a \<noteq> en_is_dir b then en_is_dir a
      else if reverse then entry_less by b a else entry_less by a b)"

definition sort_entries :: "entry_sort \<Rightarrow> bool \<Rightarrow> entry list \<Rightarrow> entry list" where
  "sort_entries by reverse es = sort_by (entry_order by reverse) es"

section \<open>State\<close>

record conn_form =
  cf_cursor :: nat
  cf_editing :: bool
  cf_input :: string
  cf_name :: string
  cf_url :: string
  cf_user :: string
  cf_pass :: string
  cf_insecure :: bool
  cf_err :: string

definition new_conn_form :: conn_form where
  "new_conn_form = \<lparr>cf_cursor = 0, cf_editing = False, cf_input = [], cf_name = [], cf_url = [], cf_user = [], cf_pass = [],
     cf_insecure = False, cf_err = []\<rparr>"

record browser =
  br_id :: nat
  br_browsing :: bool
  br_conns :: "conn list"
  br_conn_index :: int
  br_form :: "conn_form option"
  br_confirm :: string
  br_msg :: string
  br_conn :: string
  br_output :: string
  br_path :: string
  br_entries :: "entry list"
  br_cursor :: nat
  br_selected :: "string list"
  br_cache :: "(string \<times> entry list) list"
  br_loading :: bool
  br_pending :: string
  br_err :: string
  br_searching :: bool
  br_query :: string
  br_input :: string
  br_sort :: entry_sort
  br_rev :: bool

definition new_browser :: "nat \<Rightarrow> conn list \<Rightarrow> browser" where
  "new_browser n cs =
     \<lparr>br_id = n, br_browsing = False, br_conns = cs, br_conn_index = 0, br_form = None, br_confirm = [], br_msg = [],
      br_conn = [], br_output = [], br_path = [], br_entries = [], br_cursor = 0, br_selected = [], br_cache = [],
      br_loading = False, br_pending = [], br_err = [], br_searching = False, br_query = [], br_input = [],
      br_sort = EntryByName, br_rev = False\<rparr>"

text \<open>The part of the dashboard the browser works on: itself, the status line, the saved connections, and
  how many browsers have been opened.\<close>

record browse_tui =
  bt_browse :: "browser option"
  bt_status :: string
  bt_saved :: "conn list"
  bt_opened :: nat

datatype browse_cmd = BNone | BList nat string | BDownload string string "string list" | BPlay string

text \<open>What a key meets: the text input after it, the errors of reading and of writing the connections,
  the time, the error of \<^verbatim>\<open>webdav.New\<close>, and the Downloads folder.\<close>

record browse_env =
  be_edit :: "string \<Rightarrow> string \<Rightarrow> string"
  be_read :: "gerror option"
  be_write :: "gerror option"
  be_time :: int
  be_client :: "conn \<Rightarrow> gerror option"
  be_downloads :: "string result"

section \<open>What is shown\<close>

definition entry_name :: "entry \<Rightarrow> string" where
  "entry_name e = path_base (trim_suffix (en_path e) ''/'')"

definition visible_entries :: "browser \<Rightarrow> entry list" where
  "visible_entries b =
     sort_entries (br_sort b) (br_rev b)
       (if br_query b = [] then br_entries b
        else filter (\<lambda>e. contains_str (to_lower (entry_name e)) (to_lower (br_query b))) (br_entries b))"

definition current_entry :: "browser \<Rightarrow> entry option" where
  "current_entry b =
     (if br_loading b \<or> length (visible_entries b) \<le> br_cursor b then None else Some (visible_entries b ! br_cursor b))"

text \<open>The rows of a long folder that fit, scrolled to the cursor.\<close>

definition browse_window :: "nat \<Rightarrow> nat \<Rightarrow> nat \<Rightarrow> nat \<times> nat" where
  "browse_window cursor rows n =
     (let s = (if rows \<le> cursor then cursor - rows + 1 else 0) in (s, min (s + rows) n))"

definition browse_visible :: "int \<Rightarrow> int \<Rightarrow> int \<Rightarrow> int \<Rightarrow> int" where
  "browse_visible height head foot position = (if height \<le> 0 then 15 else max (height - head - foot - position - 1) 5)"

definition browse_shows_dates :: "int \<Rightarrow> bool" where
  "browse_shows_dates width \<longleftrightarrow> width \<le> 0 \<or> 60 \<le> width"

definition browse_name_width :: "int \<Rightarrow> int" where
  "browse_name_width width =
     (if width \<le> 0 then 40 else max (width - (2 + 4 + 1 + 10 + (if browse_shows_dates width then 11 else 0))) 12)"

section \<open>The form of a new connection\<close>

definition form_value :: "conn_form \<Rightarrow> string" where
  "form_value f =
     (if cf_cursor f = 0 then cf_name f else if cf_cursor f = 1 then cf_url f else if cf_cursor f = 2 then cf_user f
      else if cf_cursor f = 3 then cf_pass f else [])"

definition form_set :: "string \<Rightarrow> conn_form \<Rightarrow> conn_form" where
  "form_set v f =
     (if cf_cursor f = 0 then f\<lparr>cf_name := v\<rparr> else if cf_cursor f = 1 then f\<lparr>cf_url := v\<rparr>
      else if cf_cursor f = 2 then f\<lparr>cf_user := v\<rparr> else if cf_cursor f = 3 then f\<lparr>cf_pass := v\<rparr> else f)"

definition name_byte :: "char \<Rightarrow> bool" where
  "name_byte c \<longleftrightarrow>
     (let n = (of_char c :: nat) in 65 \<le> n \<and> n \<le> 90 \<or> 97 \<le> n \<and> n \<le> 122 \<or> 48 \<le> n \<and> n \<le> 57 \<or> c = CHR ''_'' \<or> c = CHR ''-'')"

definition form_error :: "conn_form \<Rightarrow> string" where
  "form_error f =
     (let name = trim_space (cf_name f); u = trim_space (cf_url f)
      in if name = [] then ''name is required''
         else if \<not> list_all name_byte name then ''name must contain only letters, digits, - and _''
         else if u = [] then ''URL is required''
         else if \<not> has_prefix u ''http://'' \<and> \<not> has_prefix u ''https://'' then ''URL must start with http:// or https://''
         else [])"

text \<open>The connection of a name, the last if there are several; \<open>n\<close> is the index of the first.\<close>

fun last_named :: "string \<Rightarrow> conn list \<Rightarrow> int \<Rightarrow> int \<Rightarrow> int" where
  "last_named name [] n k = k"
| "last_named name (c # cs) n k = last_named name cs (n + 1) (if cn_name c = name then n else k)"

definition close_browser :: "string \<Rightarrow> browse_tui \<Rightarrow> browse_tui" where
  "close_browser msg t = t\<lparr>bt_browse := None, bt_status := msg\<rparr>"

definition submit_form :: "browse_env \<Rightarrow> conn_form \<Rightarrow> browser \<Rightarrow> browse_tui \<Rightarrow> browse_tui" where
  "submit_form env f b t =
     (let name = trim_space (cf_name f);
          failed = (\<lambda>e. t\<lparr>bt_browse := Some (b\<lparr>br_form := Some (f\<lparr>cf_err := e\<rparr>)\<rparr>)\<rparr>)
      in if form_error f \<noteq> [] then failed (form_error f)
         else case be_write env of
           Some e \<Rightarrow> failed (err_string e)
         | None \<Rightarrow>
             let cs = conn_put (be_time env) \<lparr>cn_name = name, cn_type = ''webdav'', cn_url = trim_space (cf_url f), cn_user = trim_space (cf_user f),
                        cn_pass = cf_pass f, cn_insecure = cf_insecure f, cn_created = 0\<rparr> (bt_saved t);
                 t = t\<lparr>bt_saved := cs\<rparr>
             in (case be_read env of
                   Some e \<Rightarrow> close_browser (''error: '' @ err_string e) t
                 | None \<Rightarrow>
                     t\<lparr>bt_browse := Some (b\<lparr>br_conns := cs, br_form := None, br_conn_index := last_named name cs 0 (br_conn_index b),
                         br_msg := ''saved connection '' @ go_quote name\<rparr>)\<rparr>))"

definition form_key :: "browse_env \<Rightarrow> string \<Rightarrow> conn_form \<Rightarrow> browser \<Rightarrow> browse_tui \<Rightarrow> browse_tui" where
  "form_key env k f b t =
     (let show = (\<lambda>f. t\<lparr>bt_browse := Some (b\<lparr>br_form := Some f\<rparr>)\<rparr>)
      in if cf_editing f then
           (if k = ''esc'' then show (f\<lparr>cf_editing := False\<rparr>)
            else if k = ''enter'' then show ((form_set (cf_input f) f)\<lparr>cf_editing := False\<rparr>)
            else show (f\<lparr>cf_input := be_edit env (cf_input f) k\<rparr>))
         else if k = ''esc'' then t\<lparr>bt_browse := Some (b\<lparr>br_form := None\<rparr>)\<rparr>
         else if k = ''up'' \<or> k = ''k'' then
           (if 0 < cf_cursor f then show (f\<lparr>cf_cursor := cf_cursor f - 1, cf_err := []\<rparr>) else show f)
         else if k = ''down'' \<or> k = ''j'' then
           (if cf_cursor f < 5 then show (f\<lparr>cf_cursor := cf_cursor f + 1, cf_err := []\<rparr>) else show f)
         else if k = ''enter'' \<or> k = '' '' then
           (if cf_cursor f = 4 then show (f\<lparr>cf_insecure := (\<not> cf_insecure f)\<rparr>)
            else if cf_cursor f = 5 then submit_form env f b t
            else show (f\<lparr>cf_input := form_value f, cf_editing := True, cf_err := []\<rparr>))
         else show f)"

section \<open>Picking a connection\<close>

definition resolve_remove_conn :: "browse_env \<Rightarrow> string \<Rightarrow> browser \<Rightarrow> browse_tui \<Rightarrow> browse_tui" where
  "resolve_remove_conn env k b t =
     (let name = br_confirm b; b = b\<lparr>br_confirm := []\<rparr>;
          say = (\<lambda>m t. t\<lparr>bt_browse := Some (b\<lparr>br_msg := m\<rparr>)\<rparr>)
      in if k \<noteq> ''y'' \<and> k \<noteq> ''Y'' then say ''remove canceled'' t
         else case (case be_write env of Some e \<Rightarrow> Inl e | None \<Rightarrow> conn_remove name (bt_saved t)) of
             Inl e \<Rightarrow> say (''error: '' @ err_string e) t
           | Inr cs \<Rightarrow>
               let t = t\<lparr>bt_saved := cs\<rparr>
               in (case be_read env of
                     Some e \<Rightarrow> close_browser (''error: '' @ err_string e) t
                   | None \<Rightarrow>
                       t\<lparr>bt_browse := Some (b\<lparr>br_conns := cs,
                           br_conn_index := (if int (length cs) \<le> br_conn_index b \<and> 0 < br_conn_index b then int (length cs) - 1 else br_conn_index b),
                           br_msg := ''removed connection '' @ go_quote name\<rparr>)\<rparr>))"

definition connect :: "browse_env \<Rightarrow> browser \<Rightarrow> browse_tui \<Rightarrow> browse_tui \<times> browse_cmd" where
  "connect env b t =
     (if br_conns b = [] then (t\<lparr>bt_browse := Some b\<rparr>, BNone)
      else let c = br_conns b ! nat (br_conn_index b)
           in case be_client env c of
                Some e \<Rightarrow> (close_browser (''error: '' @ err_string e) t, BNone)
              | None \<Rightarrow>
                  (case be_downloads env of
                     Inl e \<Rightarrow> (close_browser (''error: '' @ err_string e) t, BNone)
                   | Inr dir \<Rightarrow>
                       (t\<lparr>bt_browse := Some (b\<lparr>br_conn := cn_name c, br_output := dir, br_selected := [], br_cache := [],
                           br_browsing := True, br_loading := True, br_pending := ''/''\<rparr>)\<rparr>, BList (br_id b) ''/'')))"

definition pick_conn_key :: "browse_env \<Rightarrow> string \<Rightarrow> browser \<Rightarrow> browse_tui \<Rightarrow> browse_tui \<times> browse_cmd" where
  "pick_conn_key env k b t =
     (case br_form b of
        Some f \<Rightarrow> (form_key env k f b t, BNone)
      | None \<Rightarrow>
          if br_confirm b \<noteq> [] then (resolve_remove_conn env k b t, BNone)
          else let b = b\<lparr>br_msg := []\<rparr>; show = (\<lambda>b. (t\<lparr>bt_browse := Some b\<rparr>, BNone))
               in if k = ''up'' \<or> k = ''k'' then show (if 0 < br_conn_index b then b\<lparr>br_conn_index := br_conn_index b - 1\<rparr> else b)
                  else if k = ''down'' \<or> k = ''j'' then
                    show (if br_conn_index b < int (length (br_conns b)) - 1 then b\<lparr>br_conn_index := br_conn_index b + 1\<rparr> else b)
                  else if k = ''a'' then show (b\<lparr>br_form := Some new_conn_form\<rparr>)
                  else if k = ''d'' \<or> k = ''x'' then
                    show (if br_conns b \<noteq> [] then b\<lparr>br_confirm := cn_name (br_conns b ! nat (br_conn_index b))\<rparr> else b)
                  else if k = ''enter'' then connect env b t
                  else if k = ''esc'' then (t\<lparr>bt_browse := None\<rparr>, BNone)
                  else show b)"

section \<open>Browsing\<close>

definition open_dir :: "string \<Rightarrow> browser \<Rightarrow> browse_tui \<Rightarrow> browse_tui \<times> browse_cmd" where
  "open_dir target b t =
     (let b = b\<lparr>br_searching := False, br_query := []\<rparr>
      in case map_of (br_cache b) target of
           Some es \<Rightarrow> (t\<lparr>bt_browse := Some (b\<lparr>br_path := target, br_entries := es, br_cursor := 0, br_err := []\<rparr>)\<rparr>, BNone)
         | None \<Rightarrow> (t\<lparr>bt_browse := Some (b\<lparr>br_loading := True, br_pending := target\<rparr>)\<rparr>, BList (br_id b) target))"

definition search_key :: "browse_env \<Rightarrow> string \<Rightarrow> browser \<Rightarrow> browse_tui \<Rightarrow> browse_tui" where
  "search_key env k b t =
     (let b = b\<lparr>br_cursor := 0\<rparr>;
          b = (if k = ''esc'' then b\<lparr>br_searching := False, br_query := []\<rparr>
               else if k = ''enter'' then b\<lparr>br_searching := False\<rparr>
               else let v = be_edit env (br_input b) k in b\<lparr>br_input := v, br_query := v\<rparr>)
      in t\<lparr>bt_browse := Some b\<rparr>)"

text \<open>A new order keeps the cursor on the entry it is on.\<close>

fun index_of_path :: "string \<Rightarrow> entry list \<Rightarrow> nat option" where
  "index_of_path p [] = None"
| "index_of_path p (e # es) = (if en_path e = p then Some 0 else map_option Suc (index_of_path p es))"

definition resort :: "browser \<Rightarrow> browser \<Rightarrow> browser" where
  "resort b b' =
     (case current_entry b of
        None \<Rightarrow> b'
      | Some e \<Rightarrow> (case index_of_path (en_path e) (visible_entries b') of None \<Rightarrow> b' | Some i \<Rightarrow> b'\<lparr>br_cursor := i\<rparr>))"

text \<open>\<^verbatim>\<open>path.Dir\<close> of the path without its last slash.\<close>

definition parent_dir :: "string \<Rightarrow> string" where
  "parent_dir p =
     (let q = trim_suffix p ''/''
      in path_clean (case last_index (CHR ''/'') q of None \<Rightarrow> [] | Some i \<Rightarrow> take (Suc i) q))"

definition start_downloads :: "string list \<Rightarrow> browser \<Rightarrow> browse_tui \<Rightarrow> browse_tui \<times> browse_cmd" where
  "start_downloads targets b t = (close_browser ''starting...'' t, BDownload (br_conn b) (br_output b) targets)"

definition download_targets :: "browser \<Rightarrow> string list" where
  "download_targets b =
     (if br_selected b \<noteq> [] then sort_by (<) (br_selected b)
      else case current_entry b of Some e \<Rightarrow> [en_path e] | None \<Rightarrow> [])"

definition browsing_key :: "string \<Rightarrow> browser \<Rightarrow> browse_tui \<Rightarrow> browse_tui \<times> browse_cmd" where
  "browsing_key k b t =
     (let show = (\<lambda>b. (t\<lparr>bt_browse := Some b\<rparr>, BNone)); cur = current_entry b
      in if k = ''esc'' then (t\<lparr>bt_browse := None\<rparr>, BNone)
         else if k = ''t'' then show (resort b (b\<lparr>br_sort := next_sort (br_sort b)\<rparr>))
         else if k = ''T'' then show (resort b (b\<lparr>br_rev := (\<not> br_rev b)\<rparr>))
         else if k = ''/'' then show (if br_loading b then b else b\<lparr>br_input := br_query b, br_searching := True\<rparr>)
         else if k = ''up'' \<or> k = ''k'' then show (b\<lparr>br_cursor := br_cursor b - 1\<rparr>)
         else if k = ''down'' \<or> k = ''j'' then
           show (if br_cursor b + 1 < length (visible_entries b) then b\<lparr>br_cursor := br_cursor b + 1\<rparr> else b)
         else if k = ''left'' \<or> k = ''h'' \<or> k = ''backspace'' then
           (if \<not> br_loading b \<and> br_path b \<noteq> ''/'' then open_dir (parent_dir (br_path b)) b t else show b)
         else if k = ''enter'' then
           (case cur of Some e \<Rightarrow> if en_is_dir e then open_dir (en_path e) b t else show b | None \<Rightarrow> show b)
         else if k = '' '' then
           (case cur of
              Some e \<Rightarrow> show (b\<lparr>br_selected := (if en_path e \<in> set (br_selected b) then removeAll (en_path e) (br_selected b) else en_path e # br_selected b)\<rparr>)
            | None \<Rightarrow> show b)
         else if k = ''d'' then (if download_targets b = [] then show b else start_downloads (download_targets b) b t)
         else if k = ''o'' then
           (case cur of
              Some e \<Rightarrow> if en_is_dir e then show b else (close_browser ''starting player...'' t, BPlay (en_path e))
            | None \<Rightarrow> show b)
         else if k = ''D'' then (if br_loading b then show b else start_downloads [br_path b] b t)
         else show b)"

definition browse_key :: "browse_env \<Rightarrow> string \<Rightarrow> browse_tui \<Rightarrow> browse_tui \<times> browse_cmd" where
  "browse_key env k t =
     (case bt_browse t of
        None \<Rightarrow> (t, BNone)
      | Some b \<Rightarrow>
          if \<not> br_browsing b then pick_conn_key env k b t
          else if br_searching b then (search_key env k b t, BNone)
          else browsing_key k b t)"

definition open_browser :: "browse_env \<Rightarrow> browse_tui \<Rightarrow> browse_tui" where
  "open_browser env t =
     (case be_read env of
        Some e \<Rightarrow> t\<lparr>bt_status := ''error: '' @ err_string e\<rparr>
      | None \<Rightarrow> t\<lparr>bt_browse := Some (new_browser (bt_opened t) (bt_saved t)), bt_opened := Suc (bt_opened t)\<rparr>)"

section \<open>Replies\<close>

text \<open>\<^verbatim>\<open>listWebDAVDir\<close>: the reply to a request, of the browser that made it.\<close>

datatype list_reply = Listed nat string "entry list" | ListFailed nat string gerror

definition list_order :: "entry \<Rightarrow> entry \<Rightarrow> bool" where
  "list_order a b \<longleftrightarrow> (if en_is_dir a \<noteq> en_is_dir b then en_is_dir a else en_path a < en_path b)"

definition list_webdav_dir :: "(string \<Rightarrow> entry list result) \<Rightarrow> nat \<Rightarrow> string \<Rightarrow> list_reply" where
  "list_webdav_dir server n dir =
     (case server dir of Inl e \<Rightarrow> ListFailed n dir e | Inr es \<Rightarrow> Listed n dir (sort_by list_order es))"

definition awaited :: "nat \<Rightarrow> string \<Rightarrow> browser \<Rightarrow> bool" where
  "awaited n p b \<longleftrightarrow> br_id b = n \<and> br_loading b \<and> br_pending b = p"

fun browse_reply :: "list_reply \<Rightarrow> browse_tui \<Rightarrow> browse_tui" where
  "browse_reply (Listed n p es) t =
     (case bt_browse t of
        None \<Rightarrow> t
      | Some b \<Rightarrow>
          if awaited n p b
          then t\<lparr>bt_browse := Some (b\<lparr>br_loading := False, br_err := [], br_path := p, br_entries := es, br_cursor := 0,
                   br_cache := AList.update p es (br_cache b)\<rparr>)\<rparr>
          else t)"
| "browse_reply (ListFailed n p e) t =
     (case bt_browse t of
        None \<Rightarrow> t
      | Some b \<Rightarrow> if awaited n p b then t\<lparr>bt_browse := Some (b\<lparr>br_loading := False, br_err := err_string e\<rparr>)\<rparr> else t)"

text \<open>\<^verbatim>\<open>startWebDAVDownloads\<close>: \<open>running\<close> is the error of reaching the daemon, \<open>call\<close> what it answers to a request.\<close>

definition start_webdav_downloads ::
  "gerror option \<Rightarrow> string result \<Rightarrow> (string \<Rightarrow> string \<Rightarrow> gerror option) \<Rightarrow> string \<Rightarrow> string list \<Rightarrow> nat \<times> string \<times> gerror option" where
  "start_webdav_downloads running output call conn targets =
     (case running of
        Some e \<Rightarrow> (0, [], Some e)
      | None \<Rightarrow>
          (case output of
             Inl e \<Rightarrow> (0, [], Some e)
           | Inr out \<Rightarrow>
               let answers = map (\<lambda>p. call (join_webdav_source conn p) out) targets;
                   errs = List.map_filter (\<lambda>x. x) answers
               in (length (filter (\<lambda>a. a = None) answers), out, (case errs of [] \<Rightarrow> None | e # _ \<Rightarrow> Some e))))"

definition started_status :: "string result \<Rightarrow> nat \<Rightarrow> string \<Rightarrow> gerror option \<Rightarrow> string" where
  "started_status home n output e =
     (case e of
        Some x \<Rightarrow>
          if 0 < n then ''started '' @ itoa (int n) @ '' download(s), then: '' @ err_string x else ''error: '' @ err_string x
      | None \<Rightarrow> ''Started '' @ itoa (int n) @ '' download(s) -> '' @ shorten_home home output @ ''. Track them with '' @
          [CHR 0x22] @ ''godl status'' @ [CHR 0x22, CHR ''/'', CHR 0x22] @ ''godl list'' @ [CHR 0x22, CHR ''.''])"

end
