(* ===== verification/BrowseProps.thy ===== *)
theory BrowseProps
  imports Browse
begin

text \<open>
  The browser over a run of keys and replies, in any order: what it shows is what the server answered
  for the folder it names, what it queues or plays is something it has listed, the cursor is on a row that is
  there, and a late reply changes nothing.
\<close>

section \<open>Orders\<close>

lemma mod_after_order: "weak_order mod_after"
proof
  fix a b c :: "int option"
  show "mod_after a b \<Longrightarrow> \<not> mod_after b a" by (cases a; cases b) auto
  show "mod_after a c \<Longrightarrow> mod_after a b \<or> mod_after b c" by (cases a; cases b; cases c) auto
qed

lemma name_order: "weak_order (\<lambda>a b. to_lower (en_path a) < to_lower (en_path b))"
  using weak_order_key [OF weak_order_linorder, of "\<lambda>e. to_lower (en_path e)"] .

lemma entry_less_order: "weak_order (entry_less srt)"
proof (cases srt)
  case EntryByName
  then have "entry_less srt = (\<lambda>a b. to_lower (en_path a) < to_lower (en_path b))"
    by (simp add: entry_less_def fun_eq_iff)
  with name_order show ?thesis by simp
next
  case EntryBySize
  have "weak_order (\<lambda>a b. en_size b < en_size a)" by unfold_locales auto
  from weak_order_then [OF this name_order] show ?thesis
    by (rule back_subst [of weak_order]) (auto simp: EntryBySize entry_less_def fun_eq_iff)
next
  case EntryByModified
  have d: "a \<noteq> b \<Longrightarrow> mod_after b a \<longleftrightarrow> \<not> mod_after a b" for a b by (cases a; cases b) auto
  have s: "\<not> mod_after a a" for a by (cases a) auto
  have e: "(mod_after x y \<or> \<not> mod_after y x \<and> nm) \<longleftrightarrow> (if x \<noteq> y then mod_after x y else nm)" for x y nm
    using d [of x y] s [of x] by auto
  from weak_order_then [OF weak_order_key [OF mod_after_order, of en_mod] name_order] show ?thesis
    by (rule back_subst [of weak_order]) (simp add: e EntryByModified entry_less_def fun_eq_iff)
qed

lemma entry_order_weak: "weak_order (entry_order srt reverse)"
proof -
  have d: "weak_order (\<lambda>a b. \<not> \<not> en_is_dir a \<and> \<not> en_is_dir b)"
    using weak_order_key [OF weak_order_bool, of "\<lambda>e. \<not> en_is_dir e"] .
  have l: "weak_order (if reverse then \<lambda>a b. entry_less srt b a else entry_less srt)"
    using entry_less_order weak_order_flip by auto
  from weak_order_then [OF d l] show ?thesis
    by (rule back_subst [of weak_order]) (auto simp: entry_order_def fun_eq_iff)
qed

interpretation folder_order: weak_order "entry_order srt reverse"
  by (rule entry_order_weak)

lemma sort_entries_length [simp]: "length (sort_entries srt reverse es) = length es"
  and set_sort_entries [simp]: "set (sort_entries srt reverse es) = set es"
  by (simp_all add: sort_entries_def)

section \<open>Runs\<close>

datatype browse_event = BOpen browse_env | BKey browse_env string | BReply list_reply

fun browse_does :: "browse_event \<Rightarrow> browse_tui \<Rightarrow> browse_tui \<times> browse_cmd" where
  "browse_does (BOpen env) t = (if bt_browse t = None then open_browser env t else t, BNone)"
| "browse_does (BKey env k) t = browse_key env k t"
| "browse_does (BReply r) t = (browse_reply r t, BNone)"

definition browse_run :: "conn list \<Rightarrow> browse_event list \<Rightarrow> browse_tui" where
  "browse_run cs evs = fold (\<lambda>ev t. fst (browse_does ev t)) evs \<lparr>bt_browse = None, bt_status = [], bt_saved = cs, bt_opened = 0\<rparr>"

lemma browse_run_snoc [simp]: "browse_run cs (evs @ [ev]) = fst (browse_does ev (browse_run cs evs))"
  by (simp add: browse_run_def)

text \<open>What a browser knows comes from replies to it, and its cursors are on rows that are there.\<close>

definition listed_in :: "list_reply set \<Rightarrow> nat \<Rightarrow> string \<Rightarrow> bool" where
  "listed_in R n p \<longleftrightarrow> (\<exists>dir es. Listed n dir es \<in> R \<and> p \<in> en_path ` set es)"

definition knows :: "list_reply set \<Rightarrow> browser \<Rightarrow> bool" where
  "knows R b \<longleftrightarrow>
     (\<forall>p es. map_of (br_cache b) p = Some es \<longrightarrow> Listed (br_id b) p es \<in> R) \<and>
     (br_path b = [] \<and> br_entries b = [] \<or> Listed (br_id b) (br_path b) (br_entries b) \<in> R) \<and>
     (\<forall>p\<in>set (br_selected b). listed_in R (br_id b) p)"

definition on_rows :: "browser \<Rightarrow> bool" where
  "on_rows b \<longleftrightarrow>
     (br_cursor b = 0 \<or> br_cursor b < length (visible_entries b)) \<and> 
     (br_conns b \<noteq> [] \<longrightarrow> 0 \<le> br_conn_index b \<and> br_conn_index b < int (length (br_conns b))) \<and> (br_confirm b \<noteq> [] \<longrightarrow> br_conns b \<noteq> [])"

definition sound_tui :: "list_reply set \<Rightarrow> browse_tui \<Rightarrow> bool" where
  "sound_tui R t \<longleftrightarrow> (case bt_browse t of None \<Rightarrow> True | Some b \<Rightarrow> knows R b \<and> on_rows b)"

lemma knows_mono: "knows R b \<Longrightarrow> R \<subseteq> S \<Longrightarrow> knows S b"
  unfolding knows_def listed_in_def by blast

lemma sound_mono: "sound_tui R t \<Longrightarrow> R \<subseteq> S \<Longrightarrow> sound_tui S t"
  using knows_mono by (auto simp: sound_tui_def split: option.splits)

lemma visible_length_sort [simp]:
  "length (visible_entries (b\<lparr>br_sort := x\<rparr>)) = length (visible_entries b)"
  "length (visible_entries (b\<lparr>br_rev := y\<rparr>)) = length (visible_entries b)"
  by (simp_all add: visible_entries_def)

lemma visible_in: "set (visible_entries b) \<subseteq> set (br_entries b)"
  by (auto simp: visible_entries_def)

lemma current_listed:
  assumes "knows R b" "current_entry b = Some e"
  shows "listed_in R (br_id b) (en_path e)"
proof -
  have "e \<in> set (visible_entries b)" using assms(2) by (auto simp: current_entry_def split: if_splits)
  with visible_in have e: "e \<in> set (br_entries b)" by blast
  with assms(1) show ?thesis unfolding knows_def listed_in_def by fastforce
qed

lemma index_of_path_there: "index_of_path p es = Some i \<Longrightarrow> i < length es"
  by (induction es arbitrary: i) (auto split: if_splits)

text \<open>The visible rows depend on the order, the search and the entries only.\<close>

lemma visible_same:
  "br_entries b' = br_entries b \<Longrightarrow> br_query b' = br_query b \<Longrightarrow> br_sort b' = br_sort b \<Longrightarrow> br_rev b' = br_rev b \<Longrightarrow>
   visible_entries b' = visible_entries b"
  by (simp add: visible_entries_def)

lemma on_rows_resort:
  assumes "on_rows b" "br_conn_index b' = br_conn_index b" "br_conns b' = br_conns b" "br_confirm b' = br_confirm b" "br_cursor b' = br_cursor b"
    and "length (visible_entries b') = length (visible_entries b)"
  shows "on_rows (resort b b')"
proof -
  have same: "visible_entries (b'\<lparr>br_cursor := i\<rparr>) = visible_entries b'" for i by (rule visible_same) simp_all
  have "on_rows b'" using assms by (simp add: on_rows_def)
  moreover have "on_rows (b'\<lparr>br_cursor := i\<rparr>)" if "index_of_path p (visible_entries b') = Some i" for p i
    using index_of_path_there [OF that] assms by (simp add: on_rows_def same)
  ultimately show ?thesis by (auto simp: resort_def split: option.splits)
qed

lemma knows_resort: "knows R b' \<Longrightarrow> knows R (resort b b')"
  by (auto simp: resort_def knows_def split: option.splits)

section \<open>Every step is sound\<close>

definition sound :: "list_reply set \<Rightarrow> browser \<Rightarrow> bool" where
  "sound R b \<longleftrightarrow> knows R b \<and> on_rows b"

lemma sound_tui_iff: "sound_tui R t \<longleftrightarrow> (\<forall>b. bt_browse t = Some b \<longrightarrow> sound R b)"
  by (auto simp: sound_tui_def sound_def split: option.splits)

text \<open>A change of anything but what was listed, the rows and the connections.\<close>

lemma sound_same:
  assumes "sound R b" and "br_id b' = br_id b" "br_cache b' = br_cache b" "br_path b' = br_path b" "br_entries b' = br_entries b"
    "br_selected b' = br_selected b" "visible_entries b' = visible_entries b" "br_cursor b' = br_cursor b \<or> br_cursor b' = 0"
    and "br_conns b' \<noteq> [] \<Longrightarrow> 0 \<le> br_conn_index b' \<and> br_conn_index b' < int (length (br_conns b'))"
    and "br_confirm b' \<noteq> [] \<Longrightarrow> br_conns b' \<noteq> []"
  shows "sound R b'"
  using assms by (auto simp: sound_def knows_def on_rows_def)

lemma last_named_or: "last_named name cs n k = k \<or> n \<le> last_named name cs n k \<and> last_named name cs n k < n + int (length cs)"
proof (induction cs arbitrary: n k)
  case (Cons c cs)
  from Cons [of "n + 1" "if cn_name c = name then n else k"] show ?case by (cases "cn_name c = name") auto
qed simp

lemma last_named_range:
  "name \<in> cn_name ` set cs \<Longrightarrow> n \<le> last_named name cs n k \<and> last_named name cs n k < n + int (length cs)"
proof (induction cs arbitrary: n k)
  case (Cons c cs)
  show ?case
  proof (cases "cn_name c = name")
    case True
    then show ?thesis using last_named_or [of name cs "n + 1" n] by auto
  next
    case False
    with Cons.prems have "name \<in> cn_name ` set cs" by auto
    from Cons.IH [OF this, of "n + 1" k] False show ?thesis by auto
  qed
qed simp

lemma last_named_put:
  "cn_name c = name \<Longrightarrow> 0 \<le> last_named name (conn_put now c old) 0 k"
  "cn_name c = name \<Longrightarrow> last_named name (conn_put now c old) 0 k < int (length (conn_put now c old))"
proof -
  have "cn_name c \<in> cn_name ` set (conn_put now c old)" using conn_put_names [of now c old] by (auto simp: conn_names_def)
  from last_named_range [OF this, of 0 k]
  show "cn_name c = name \<Longrightarrow> 0 \<le> last_named name (conn_put now c old) 0 k"
    "cn_name c = name \<Longrightarrow> last_named name (conn_put now c old) 0 k < int (length (conn_put now c old))" by auto
qed

lemma sound_form:
  assumes "sound R b" shows "sound R (b\<lparr>br_form := x\<rparr>)"
  using assms visible_same [of "b\<lparr>br_form := x\<rparr>" b] by (simp add: sound_def knows_def on_rows_def)

lemma conn_put_some: "conn_put now c cs \<noteq> []"
  by (cases cs) simp_all

lemma submit_form_sound:
  assumes "sound R b"
  shows "sound_tui R (submit_form env f b t)"
proof -
  let ?c = "\<lparr>cn_name = trim_space (cf_name f), cn_type = ''webdav'', cn_url = trim_space (cf_url f), cn_user = trim_space (cf_user f),
                        cn_pass = cf_pass f, cn_insecure = cf_insecure f, cn_created = 0\<rparr>"
  have "sound R (b\<lparr>br_conns := conn_put (be_time env) ?c (bt_saved t), br_form := None,
      br_conn_index := last_named (trim_space (cf_name f)) (conn_put (be_time env) ?c (bt_saved t)) 0 (br_conn_index b), br_msg := m\<rparr>)" for m
    using last_named_put [of ?c "trim_space (cf_name f)"] conn_put_some
    by (intro sound_same [OF assms] visible_same) simp_all
  then show ?thesis
    by (simp add: submit_form_def Let_def sound_tui_iff close_browser_def sound_form [OF assms] split: option.splits)
qed

lemma form_key_sound:
  assumes "sound R b"
  shows "sound_tui R (form_key env k f b t)"
  using submit_form_sound [OF assms] sound_form [OF assms]
  by (simp add: form_key_def Let_def) (simp add: sound_tui_iff)

lemma resolve_remove_sound:
  assumes "sound R b" and "br_confirm b \<noteq> []"
  shows "sound_tui R (resolve_remove_conn env k b t)"
proof -
  have i: "0 \<le> br_conn_index b" using assms by (auto simp: sound_def on_rows_def)
  have keep: "sound R (b\<lparr>br_confirm := [], br_msg := m\<rparr>)" for m
    using assms by (intro sound_same [OF assms(1)] visible_same) (auto simp: sound_def on_rows_def)
  have removed: "sound R (b\<lparr>br_confirm := [], br_conns := cs, br_conn_index := j, br_msg := m\<rparr>)"
    if "cs \<noteq> [] \<Longrightarrow> 0 \<le> j \<and> j < int (length cs)" for cs m j
    using that by (intro sound_same [OF assms(1)] visible_same) auto
  have range: "cs \<noteq> [] \<Longrightarrow> 0 \<le> (if int (length cs) \<le> br_conn_index b \<and> 0 < br_conn_index b then int (length cs) - 1 else br_conn_index b) \<and>
      (if int (length cs) \<le> br_conn_index b \<and> 0 < br_conn_index b then int (length cs) - 1 else br_conn_index b) < int (length cs)" for cs
    using i by (cases cs) auto
  note R = removed [OF range]
  show ?thesis
  proof (cases "k \<noteq> ''y'' \<and> k \<noteq> ''Y''")
    case True
    then show ?thesis by (simp add: resolve_remove_conn_def Let_def sound_tui_iff keep)
  next
    case False
    show ?thesis
    proof (cases "case be_write env of Some e \<Rightarrow> Inl e | None \<Rightarrow> conn_remove (br_confirm b) (bt_saved t)")
      case (Inl e)
      show ?thesis unfolding resolve_remove_conn_def Let_def if_not_P [OF False] Inl by (simp add: sound_tui_iff keep)
    next
      case (Inr cs)
      show ?thesis unfolding resolve_remove_conn_def Let_def if_not_P [OF False] Inr
        by (cases "be_read env") (simp_all add: sound_tui_iff close_browser_def R del: if_split cong: if_cong)
    qed
  qed
qed

lemma connect_sound:
  assumes "sound R b"
  shows "sound_tui R (fst (connect env b t))"
proof -
  have "sound R (b\<lparr>br_conn := c, br_output := dir, br_selected := [], br_cache := [], br_browsing := True, br_loading := True, br_pending := p\<rparr>)" for c dir p
    using assms visible_same [of "b\<lparr>br_conn := c, br_output := dir, br_selected := [], br_cache := [], br_browsing := True, br_loading := True, br_pending := p\<rparr>" b]
    by (simp add: sound_def knows_def on_rows_def)
  with assms show ?thesis
    by (simp add: connect_def Let_def sound_tui_iff close_browser_def split: option.splits sum.splits)
qed

lemma pick_conn_key_sound:
  assumes "sound R b"
  shows "sound_tui R (fst (pick_conn_key env k b t))"
proof (cases "br_form b")
  case (Some f)
  then show ?thesis using form_key_sound [OF assms] by (simp add: pick_conn_key_def)
next
  case None
  show ?thesis
  proof (cases "br_confirm b = []")
    case False
    with None show ?thesis using resolve_remove_sound [OF assms] by (simp add: pick_conn_key_def)
  next
    case True
    let ?b = "b\<lparr>br_msg := []\<rparr>"
    have rows: "br_conns b \<noteq> [] \<Longrightarrow> 0 \<le> br_conn_index b \<and> br_conn_index b < int (length (br_conns b))"
      using assms by (simp add: sound_def on_rows_def)
    have b: "sound R (?b\<lparr>br_form := f\<rparr>)" "sound R ?b" for f
      using rows True by (intro sound_same [OF assms] visible_same; simp)+
    have moved: "sound R (?b\<lparr>br_conn_index := i\<rparr>)" if "br_conns b \<noteq> [] \<Longrightarrow> 0 \<le> i \<and> i < int (length (br_conns b))" for i
      using that True by (intro sound_same [OF assms] visible_same) simp_all
    have asked: "sound R (?b\<lparr>br_confirm := nm\<rparr>)" if "br_conns b \<noteq> []" for nm
      using that rows by (intro sound_same [OF assms] visible_same) simp_all
    have m1: "sound R (?b\<lparr>br_conn_index := br_conn_index b - 1\<rparr>)" if "0 < br_conn_index b"
      by (rule moved) (use rows that in force)
    have m2: "sound R (?b\<lparr>br_conn_index := br_conn_index b + 1\<rparr>)" if "br_conn_index b < int (length (br_conns b)) - 1"
      by (rule moved) (use rows that in force)
    have up: "sound R (if 0 < br_conn_index ?b then ?b\<lparr>br_conn_index := br_conn_index ?b - 1\<rparr> else ?b)"
      using b(2) m1 by simp
    have down: "sound R (if br_conn_index ?b < int (length (br_conns ?b)) - 1 then ?b\<lparr>br_conn_index := br_conn_index ?b + 1\<rparr> else ?b)"
      using b(2) m2 by simp
    have del: "sound R (if br_conns ?b \<noteq> [] then ?b\<lparr>br_confirm := cn_name (br_conns ?b ! nat (br_conn_index ?b))\<rparr> else ?b)"
      using asked b by auto
    have show_b: "sound_tui R (fst (t\<lparr>bt_browse := Some b'\<rparr>, BNone))" if "sound R b'" for b' using that by (simp add: sound_tui_iff)
    show ?thesis
      unfolding pick_conn_key_def None True Let_def option.case
      using up down del b connect_sound [OF b(2)] by (simp add: sound_tui_iff del: if_split split: if_split_asm)
  qed
qed

lemma sound_rows: "sound R b \<Longrightarrow> br_conns b \<noteq> [] \<Longrightarrow> 0 \<le> br_conn_index b \<and> br_conn_index b < int (length (br_conns b))"
  "sound R b \<Longrightarrow> br_confirm b \<noteq> [] \<Longrightarrow> br_conns b \<noteq> []"
  by (simp_all add: sound_def on_rows_def)

lemma open_dir_sound:
  assumes "sound R b" and "br_cursor b = 0 \<or> br_cursor b < length (br_entries b)"
  shows "sound_tui R (fst (open_dir p b t))"
proof (cases "map_of (br_cache b) p")
  case (Some es)
  with assms(1) have "Listed (br_id b) p es \<in> R" by (auto simp: sound_def knows_def)
  with Some assms(1) show ?thesis by (simp add: open_dir_def Let_def sound_tui_iff sound_def knows_def on_rows_def)
next
  case None
  with assms show ?thesis by (simp add: open_dir_def Let_def sound_tui_iff sound_def knows_def on_rows_def visible_entries_def)
qed

lemma cursor_in_entries: "on_rows b \<Longrightarrow> br_cursor b = 0 \<or> br_cursor b < length (br_entries b)"
proof -
  have "length (visible_entries b) \<le> length (br_entries b)" by (simp add: visible_entries_def)
  then show "on_rows b \<Longrightarrow> ?thesis" by (auto simp: on_rows_def)
qed

lemma search_key_sound:
  assumes "sound R b"
  shows "sound_tui R (search_key env k b t)"
  using assms by (simp add: search_key_def Let_def sound_tui_iff sound_def knows_def on_rows_def)

lemma selected_sound:
  assumes "sound R b" "current_entry b = Some e"
  shows "sound R (b\<lparr>br_selected := (if en_path e \<in> set (br_selected b) then removeAll (en_path e) (br_selected b) else en_path e # br_selected b)\<rparr>)"
proof -
  let ?s = "if en_path e \<in> set (br_selected b) then removeAll (en_path e) (br_selected b) else en_path e # br_selected b"
  have k: "knows R b" using assms(1) by (simp add: sound_def)
  have "\<forall>p\<in>set ?s. listed_in R (br_id b) p"
    using k current_listed [OF k assms(2)] by (auto simp: knows_def)
  moreover have "visible_entries (b\<lparr>br_selected := ?s\<rparr>) = visible_entries b" by (rule visible_same) simp_all
  ultimately show ?thesis using assms(1) by (simp add: sound_def knows_def on_rows_def del: set_append)
qed

lemma browsing_key_sound:
  assumes "sound R b"
  shows "sound_tui R (fst (browsing_key k b t))"
proof -
  have k: "knows R b" and rows: "on_rows b" using assms by (simp_all add: sound_def)
  have cur: "br_cursor b = 0 \<or> br_cursor b < length (visible_entries b)" using rows by (simp add: on_rows_def)
  have S: "sound_tui R (t\<lparr>bt_browse := Some b'\<rparr>)" if "sound R b'" for b' using that by (simp add: sound_tui_iff)
  have t: "sound R (resort b (b\<lparr>br_sort := x\<rparr>))" "sound R (resort b (b\<lparr>br_rev := y\<rparr>))" for x y
    using k rows by (auto simp: sound_def intro!: knows_resort on_rows_resort) (simp_all add: knows_def)
  have same: "visible_entries (b\<lparr>br_input := i, br_searching := s\<rparr>) = visible_entries b"
    "visible_entries (b\<lparr>br_cursor := n\<rparr>) = visible_entries b" for i s n
    by (rule visible_same; simp)+
  have q: "sound R (b\<lparr>br_input := i, br_searching := s\<rparr>)" for i s
    using k rows by (simp add: sound_def on_rows_def same) (simp add: knows_def)
  have m: "sound R (b\<lparr>br_cursor := n\<rparr>)" if "n = 0 \<or> n < length (visible_entries b)" for n
    using that k rows by (simp add: sound_def on_rows_def same) (simp add: knows_def)
  have up: "sound R (b\<lparr>br_cursor := br_cursor b - 1\<rparr>)" using cur by (intro m) auto
  have dn: "sound R (if br_cursor b + 1 < length (visible_entries b) then b\<lparr>br_cursor := br_cursor b + 1\<rparr> else b)"
    using m [of "br_cursor b + 1"] assms by simp
  note od = open_dir_sound [OF assms cursor_in_entries [OF rows]]
  show ?thesis
    unfolding browsing_key_def Let_def
    using S [OF t(1)] S [OF t(2)] S [OF q] S [OF up] S [OF dn] S [OF assms] od S [OF selected_sound [OF assms]]
    by (simp add: start_downloads_def close_browser_def del: if_split split: if_split_asm option.splits) (auto simp: sound_tui_iff)
qed

lemma browse_key_sound: "sound_tui R t \<Longrightarrow> sound_tui R (fst (browse_key env k t))"
  using pick_conn_key_sound search_key_sound browsing_key_sound
  by (auto simp: browse_key_def sound_tui_iff [of R t] split: option.splits)

lemma browse_reply_sound:
  assumes "sound_tui R t"
  shows "sound_tui (insert r R) (browse_reply r t)"
proof -
  have s: "sound_tui (insert r R) t" using assms by (rule sound_mono) blast
  show ?thesis
  proof (cases "bt_browse t")
    case (Some b)
    with s have b: "knows (insert r R) b" "on_rows b" by (simp_all add: sound_tui_def)
    show ?thesis
    proof (cases r)
      case (Listed n p es)
      show ?thesis
      proof (cases "awaited n p b")
        case True
        then have "br_id b = n" by (simp add: awaited_def)
        with b have "knows (insert r R) (b\<lparr>br_loading := False, br_err := [], br_path := p, br_entries := es, br_cursor := 0,
            br_cache := AList.update p es (br_cache b)\<rparr>)" by (auto simp: knows_def Listed)
        with True Some b(2) show ?thesis by (simp add: Listed sound_tui_def on_rows_def)
      qed (use s Some in \<open>simp add: Listed\<close>)
    next
      case (ListFailed n p e)
      have v: "visible_entries (b\<lparr>br_loading := False, br_err := x\<rparr>) = visible_entries b" for x by (rule visible_same) simp_all
      have "knows (insert r R) (b\<lparr>br_loading := False, br_err := x\<rparr>)" "on_rows (b\<lparr>br_loading := False, br_err := x\<rparr>)" for x
        using b by (simp_all add: knows_def on_rows_def v)
      with s Some show ?thesis by (simp add: ListFailed sound_tui_def)
    qed
  qed (use s in \<open>cases r; simp\<close>)
qed

definition replies :: "browse_event list \<Rightarrow> list_reply set" where
  "replies evs = {r. BReply r \<in> set evs}"

lemma browse_run_sound: "sound_tui (replies evs) (browse_run cs evs)"
proof (induction evs rule: rev_induct)
  case Nil
  show ?case by (simp add: browse_run_def sound_tui_def)
next
  case (snoc ev evs)
  have m: "replies evs \<subseteq> replies (evs @ [ev])" by (auto simp: replies_def)
  show ?case
  proof (cases ev)
    case (BOpen env)
    have "sound R (new_browser n c)" for R n c by (simp add: sound_def knows_def on_rows_def new_browser_def)
    then have "sound_tui (replies evs) (fst (browse_does ev (browse_run cs evs)))"
      using snoc by (auto simp: BOpen open_browser_def sound_tui_iff split: option.splits)
    then show ?thesis using sound_mono m by simp
  next
    case (BKey env k)
    then show ?thesis using sound_mono [OF browse_key_sound [OF snoc] m] by simp
  next
    case (BReply r)
    have "insert r (replies evs) = replies (evs @ [ev])" by (auto simp: BReply replies_def)
    then show ?thesis using browse_reply_sound [OF snoc, of r] by (simp add: BReply)
  qed
qed

text \<open>C21: 
  C1: Whatever keys are pressed and in whatever order replies come, late ones and those to a browser that
  was closed among them, the folder a browser shows is one the server listed for this browser under this
  very name, the rows shown are rows of that listing, and the cursor is on one of them.
\<close>
theorem browser_shows_its_folder:
  assumes "bt_browse (browse_run cs evs) = Some b" and "br_path b \<noteq> []"
  shows "BReply (Listed (br_id b) (br_path b) (br_entries b)) \<in> set evs \<and> set (visible_entries b) \<subseteq> set (br_entries b) \<and>
    (visible_entries b = [] \<or> br_cursor b < length (visible_entries b))"
proof -
  from browse_run_sound [of evs cs] assms(1) have "knows (replies evs) b" "on_rows b" by (simp_all add: sound_tui_def)
  with assms(2) have "Listed (br_id b) (br_path b) (br_entries b) \<in> replies evs"
    "br_cursor b = 0 \<or> br_cursor b < length (visible_entries b)" by (auto simp: knows_def on_rows_def)
  then show ?thesis using visible_in by (auto simp: replies_def)
qed

fun command_listed :: "list_reply set \<Rightarrow> browser \<Rightarrow> browse_cmd \<Rightarrow> bool" where
  "command_listed R b (BDownload conn out ps) =
     (conn = br_conn b \<and> out = br_output b \<and> (ps = [br_path b] \<or> (\<forall>p\<in>set ps. listed_in R (br_id b) p)))"
| "command_listed R b (BPlay p) = listed_in R (br_id b) p"
| "command_listed R b _ = True"

lemma browsing_key_command:
  assumes "knows R b"
  shows "command_listed R b (snd (browsing_key k b t))"
proof -
  have d: "\<forall>p\<in>set (download_targets b). listed_in R (br_id b) p"
    using assms current_listed [OF assms] by (auto simp: download_targets_def knows_def split: if_splits option.splits)
  have o: "command_listed R b (snd (open_dir q b t))" for q
    by (auto simp: open_dir_def Let_def split: option.splits)
  show ?thesis
    unfolding browsing_key_def Let_def using d o current_listed [OF assms]
    by (simp add: start_downloads_def split: option.splits)
qed

lemma pick_conn_key_command: "snd (pick_conn_key env k b t) \<in> {BNone, BList (br_id b) ''/''}"
  by (auto simp: pick_conn_key_def Let_def connect_def split: option.splits sum.splits)

text \<open>
  C1: What the browser hands to the daemon or to a player was listed to it: every path queued by a key is one
  the server listed to this browser, in this folder or one selected earlier, or the folder it is in; it
  goes to the connection that is open and the folder shown; and a player gets a path that was listed.
\<close>
theorem browser_queues_what_was_listed:
  assumes "bt_browse (browse_run cs evs) = Some b" and "browse_key env k (browse_run cs evs) = (t', c)"
  shows "(\<forall>conn out ps. c = BDownload conn out ps \<longrightarrow> conn = br_conn b \<and> out = br_output b \<and>
      (ps = [br_path b] \<or> (\<forall>p\<in>set ps. \<exists>dir es. BReply (Listed (br_id b) dir es) \<in> set evs \<and> p \<in> en_path ` set es))) \<and>
    (\<forall>p. c = BPlay p \<longrightarrow> (\<exists>dir es. BReply (Listed (br_id b) dir es) \<in> set evs \<and> p \<in> en_path ` set es))"
proof -
  from browse_run_sound [of evs cs] assms(1) have kn: "knows (replies evs) b" by (simp add: sound_tui_def)
  have l: "listed_in (replies evs) n p \<longleftrightarrow> (\<exists>dir es. BReply (Listed n dir es) \<in> set evs \<and> p \<in> en_path ` set es)" for n p
    by (auto simp: listed_in_def replies_def)
  show ?thesis
  proof (cases "br_browsing b \<and> \<not> br_searching b")
    case True
    with assms have "browsing_key k b (browse_run cs evs) = (t', c)" by (simp add: browse_key_def)
    with browsing_key_command [OF kn, of k "browse_run cs evs"] have "command_listed (replies evs) b c" by simp
    then show ?thesis unfolding l [symmetric] by (cases c) auto
  next
    case False
    with assms have "c \<in> {BNone, BList (br_id b) ''/''}"
      using pick_conn_key_command [of env k b "browse_run cs evs"] by (auto simp: browse_key_def split: if_splits)
    then show ?thesis by auto
  qed
qed

section \<open>Examples\<close>

definition plain_env :: browse_env where
  "plain_env = \<lparr>be_edit = (\<lambda>v k. v @ k), be_read = None, be_write = None, be_time = 0, be_client = (\<lambda>_. None), be_downloads = Inr ''/dl''\<rparr>"

definition nas :: conn where
  "nas = \<lparr>cn_name = ''nas'', cn_type = ''webdav'', cn_url = ''https://nas'', cn_user = [], cn_pass = [], cn_insecure = False, cn_created = 0\<rparr>"

definition file_entry :: "string \<Rightarrow> bool \<Rightarrow> entry" where
  "file_entry p dir = \<lparr>en_path = p, en_is_dir = dir, en_size = 1, en_mod = None\<rparr>"

text \<open>The root is listed, a folder is entered, and a reply to the first browser comes late to the second.\<close>

definition sample_browse :: "browse_event list" where
  "sample_browse = [BOpen plain_env, BKey plain_env ''enter'', BKey plain_env ''esc'', BOpen plain_env, BKey plain_env ''enter'',
     BReply (Listed 0 ''/'' [file_entry ''/old'' False]), BReply (Listed 1 ''/'' [file_entry ''/a'' True, file_entry ''/b'' False])]"

theorem browser_shows_its_folder_witness:
  "\<exists>b. bt_browse (browse_run [nas] sample_browse) = Some b \<and> br_path b = ''/'' \<and> BReply (Listed (br_id b) ''/'' (br_entries b)) \<in> set sample_browse \<and>
     map en_path (br_entries b) = [''/a'', ''/b'']"
proof -
  have "(case bt_browse (browse_run [nas] sample_browse) of Some b \<Rightarrow> br_path b = ''/'' \<and> map en_path (br_entries b) = [''/a'', ''/b''] | None \<Rightarrow> False)"
    by code_simp
  then obtain b where b: "bt_browse (browse_run [nas] sample_browse) = Some b" "br_path b = ''/''" "map en_path (br_entries b) = [''/a'', ''/b'']"
    by (auto split: option.splits)
  from b(2) have "br_path b \<noteq> []" by simp
  from browser_shows_its_folder [OF b(1) this] b show ?thesis by auto
qed

theorem browser_queues_what_was_listed_witness:
  "\<exists>b. bt_browse (browse_run [nas] sample_browse) = Some b \<and>
     snd (browse_key plain_env ''d'' (browse_run [nas] sample_browse)) = BDownload (br_conn b) (br_output b) [''/a''] \<and>
     (''/a'' = br_path b \<or> (\<exists>dir es. BReply (Listed (br_id b) dir es) \<in> set sample_browse \<and> ''/a'' \<in> en_path ` set es))"
proof -
  let ?t = "browse_run [nas] sample_browse"
  have "(case bt_browse ?t of Some b \<Rightarrow> br_conn b = ''nas'' \<and> br_output b = ''/dl'' | None \<Rightarrow> False)" by code_simp
  then obtain b where b: "bt_browse ?t = Some b" "br_conn b = ''nas''" "br_output b = ''/dl''" by (auto split: option.splits)
  have "snd (browse_key plain_env ''d'' ?t) = BDownload ''nas'' ''/dl'' [''/a'']" by code_simp
  then obtain t' where k: "browse_key plain_env ''d'' ?t = (t', BDownload ''nas'' ''/dl'' [''/a''])" by (cases "browse_key plain_env ''d'' ?t") simp
  from browser_queues_what_was_listed [OF b(1) k] b k show ?thesis by auto
qed

section \<open>Where the code differs from what it says\<close>

text \<open>The filter line says that esc clears the filter; esc closes the browser.\<close>

lemma esc_does_not_clear_filter:
  "br_browsing b \<Longrightarrow> \<not> br_searching b \<Longrightarrow> bt_browse t = Some b \<Longrightarrow> bt_browse (fst (browse_key env ''esc'' t)) = None"
  by (simp add: browse_key_def browsing_key_def)

text \<open>After a folder could not be listed the error is shown in place of the rows, but the keys still act on
  the rows of the folder before: a download is queued of an entry that is not on the screen. If it was the
  root that failed, the key for the whole folder queues an empty path.\<close>

definition failed_folder :: "browse_event list" where
  "failed_folder = sample_browse @ [BKey plain_env ''enter'', BReply (ListFailed 1 ''/a'' ErrEOF)]"

definition failed_root :: "browse_event list" where
  "failed_root = [BOpen plain_env, BKey plain_env ''enter'', BReply (ListFailed 0 ''/'' ErrEOF)]"

lemma hidden_rows_are_queued:
  "map_option br_err (bt_browse (browse_run [nas] failed_folder)) = Some ''EOF''"
  "snd (browse_key plain_env ''d'' (browse_run [nas] failed_folder)) = BDownload ''nas'' ''/dl'' [''/a'']"
  by code_simp+

lemma failed_root_queues_nothing_named:
  "snd (browse_key plain_env ''D'' (browse_run [nas] failed_root)) = BDownload ''nas'' ''/dl'' [[]]"
  "split_webdav_source (join_webdav_source ''nas'' []) = None"
  by code_simp+

text \<open>A listing in rows: the window shows the cursor.\<close>

lemma browse_window_shows_cursor:
  "cursor < n \<Longrightarrow> 0 < rows \<Longrightarrow> fst (browse_window cursor rows n) \<le> cursor \<and> cursor < snd (browse_window cursor rows n) \<and>
     snd (browse_window cursor rows n) \<le> n \<and> snd (browse_window cursor rows n) - fst (browse_window cursor rows n) \<le> rows"
  by (auto simp: browse_window_def Let_def)

end
