(* ===== verification/Client.thy ===== *)
theory Client
  imports Server GoSort GoQuote "HOL-Library.Sublist"
begin

text \<open>
  \<^verbatim>\<open>internal/daemon/client.go\<close> and the connections of \<^verbatim>\<open>dispatch.go\<close>: how a command finds, replaces or
  starts the daemon, and how it follows a job or the list of jobs. What the socket answers, the process
  calls and the clock are arguments. The log lines of a social job go through a channel of 64 messages
  for each client.
\<close>

section \<open>Versions\<close>

text \<open>The number \<^verbatim>\<open>strconv.Atoi\<close> returns when its error is ignored.\<close>

definition atoi_value :: "string \<Rightarrow> int" where
  "atoi_value s =
     (case atoi s of
        Some i \<Rightarrow> i
      | None \<Rightarrow>
          let neg = (s \<noteq> [] \<and> hd s = CHR ''-'');
              ds = (if s \<noteq> [] \<and> (hd s = CHR ''-'' \<or> hd s = CHR ''+'') then tl s else s)
          in if ds = [] \<or> parse_digits 0 ds = None then 0 else if neg then int64_min else int64_max)"

definition version_parts :: "string \<Rightarrow> int list" where
  "version_parts v = map atoi_value (split_on (CHR ''.'') v)"

fun parts_less :: "int list \<Rightarrow> int list \<Rightarrow> bool" where
  "parts_less [] [] = False"
| "parts_less (x # xs) [] = (if x \<noteq> 0 then x < 0 else parts_less xs [])"
| "parts_less [] (y # ys) = (if y \<noteq> 0 then 0 < y else parts_less [] ys)"
| "parts_less (x # xs) (y # ys) = (if x \<noteq> y then x < y else parts_less xs ys)"

definition older_version :: "string \<Rightarrow> string \<Rightarrow> bool" where
  "older_version a b = (if a = [] then b \<noteq> [] else parts_less (version_parts a) (version_parts b))"

definition or_unknown :: "string \<Rightarrow> string" where
  "or_unknown ver = (if ver = [] then ''an older version'' else ver)"

section \<open>Finding the daemon\<close>

text \<open>\<open>ce_pings n\<close> is the version the n-th ping gets, \<open>Some []\<close> from a daemon too old to say, \<open>None\<close> if none
  answers. \<open>ce_shutdown\<close>: the daemon agrees to shut down. \<open>ce_peer\<close>: its process, as the socket tells.
  \<open>ce_prepare\<close>: the error of finding the program or opening the log.\<close>

datatype client_act = AskShutdown | Kill int | Spawn

record client_env =
  ce_sock :: "gerror option"
  ce_pings :: "nat \<Rightarrow> string option"
  ce_shutdown :: bool
  ce_peer :: "int result"
  ce_find :: "gerror option"
  ce_kill :: "gerror option"
  ce_prepare :: "gerror option"
  ce_start :: "gerror option"
  ce_log :: string

text \<open>Pings are 100 ms apart: until one is answered, or until one is not.\<close>

fun await_ping :: "(nat \<Rightarrow> string option) \<Rightarrow> bool \<Rightarrow> nat \<Rightarrow> nat \<Rightarrow> bool \<times> nat" where
  "await_ping pings up n 0 = (False, n)"
| "await_ping pings up n (Suc k) = (if (pings n \<noteq> None) = up then (True, Suc n) else await_ping pings up (Suc n) k)"

definition stop_daemon :: "client_env \<Rightarrow> string \<Rightarrow> nat \<Rightarrow> gerror option \<times> client_act list \<times> nat" where
  "stop_daemon env ver n =
     (let asks = (if ver \<noteq> [] then [AskShutdown] else []);
          gone = (\<lambda>acts. case await_ping (ce_pings env) False n 100 of
              (ok, n) \<Rightarrow> (if ok then None else Some (ErrMsg (''the old daemon didn'' @ [CHR 0x27] @ ''t stop'')), acts, n))
      in if ver \<noteq> [] \<and> ce_shutdown env then gone asks
         else case ce_peer env of
           Inl e \<Rightarrow>
             (Some (ErrMsg (err_string e @ '' '' @ [CHR 0xE2, CHR 0x80, CHR 0x94] @
                '' stop the old '' @ go_quote ''godl __daemon'' @ '' process yourself, then run godl again'')), asks, n)
         | Inr pid \<Rightarrow>
             (case ce_find env of
                Some e \<Rightarrow> (Some e, asks, n)
              | None \<Rightarrow>
                  (case ce_kill env of
                     Some e \<Rightarrow> (Some e, asks @ [Kill pid], n)
                   | None \<Rightarrow> gone (asks @ [Kill pid]))))"

definition start_daemon :: "client_env \<Rightarrow> client_act list \<Rightarrow> nat \<Rightarrow> gerror option \<times> client_act list \<times> nat" where
  "start_daemon env acts n =
     (case ce_prepare env of
        Some e \<Rightarrow> (Some e, acts, n)
      | None \<Rightarrow>
          (case ce_start env of
             Some e \<Rightarrow> (Some (ErrMsg (''starting godl daemon: '' @ err_string e)), acts, n)
           | None \<Rightarrow>
               (case await_ping (ce_pings env) True n 50 of
                  (ok, n) \<Rightarrow>
                    (if ok then None
                     else Some (ErrMsg (''timed out waiting for godl daemon to start (see '' @ ce_log env @ '')'')),
                     acts @ [Spawn], n))))"

definition ensure_from :: "client_env \<Rightarrow> string \<Rightarrow> nat \<Rightarrow> gerror option \<times> client_act list \<times> nat" where
  "ensure_from env me n =
     (case ce_sock env of
        Some e \<Rightarrow> (Some e, [], n)
      | None \<Rightarrow>
          (case ce_pings env n of
             None \<Rightarrow> start_daemon env [] (Suc n)
           | Some ver \<Rightarrow>
               if \<not> older_version ver me then (None, [], Suc n)
               else case stop_daemon env ver (Suc n) of
                   (Some e, acts, n) \<Rightarrow>
                     (Some (ErrMsg (''godl was updated to '' @ me @ '' but its background daemon is still '' @ or_unknown ver @
                        '' and couldn'' @ [CHR 0x27] @ ''t be restarted: '' @ err_string e)), acts, n)
                 | (None, acts, n) \<Rightarrow> start_daemon env acts n))"

definition ensure_running :: "client_env \<Rightarrow> string \<Rightarrow> gerror option \<times> client_act list \<times> nat" where
  "ensure_running env me = ensure_from env me 0"

definition running_daemon :: "client_env \<Rightarrow> bool" where
  "running_daemon env \<longleftrightarrow> ce_sock env = None \<and> ce_pings env 0 \<noteq> None"

text \<open>\<^verbatim>\<open>Stop\<close>: whether a daemon was stopped, or the error.\<close>

definition stop_running :: "client_env \<Rightarrow> bool result \<times> client_act list \<times> nat" where
  "stop_running env =
     (case ce_sock env of
        Some e \<Rightarrow> (Inl e, [], 0)
      | None \<Rightarrow>
          (case ce_pings env 0 of
             None \<Rightarrow> (Inr False, [], 1)
           | Some ver \<Rightarrow>
               (case stop_daemon env ver 1 of
                  (Some e, acts, n) \<Rightarrow> (Inl e, acts, n)
                | (None, acts, n) \<Rightarrow> (Inr True, acts, n))))"

definition restart :: "client_env \<Rightarrow> string \<Rightarrow> gerror option \<times> client_act list \<times> nat" where
  "restart env me =
     (case ce_sock env of
        Some e \<Rightarrow> (Some e, [], 0)
      | None \<Rightarrow>
          (case (case ce_pings env 0 of None \<Rightarrow> (None, [], 1) | Some ver \<Rightarrow> stop_daemon env ver 1) of
             (Some e, acts, n) \<Rightarrow> (Some e, acts, n)
           | (None, acts, n) \<Rightarrow> (case ensure_from env me n of (e, more_acts, n) \<Rightarrow> (e, acts @ more_acts, n))))"

text \<open>The tray of a starting daemon: \<open>exe\<close> is the program, \<open>no_tray\<close> the variable that forbids it.\<close>

definition spawns_tray :: "string \<Rightarrow> string result \<Rightarrow> bool" where
  "spawns_tray no_tray exe \<longleftrightarrow>
     no_tray = [] \<and> (case exe of Inl _ \<Rightarrow> False | Inr e \<Rightarrow> \<not> has_suffix e ''.test'' \<and> \<not> contains_str e ''/go-build'')"

section \<open>Log lines\<close>

record log_msg =
  lm_job :: string
  lm_line :: string
  lm_done :: bool

definition log_buffer :: nat where "log_buffer = 64"

text \<open>Sending never blocks: what does not fit is dropped.\<close>

definition offer_log :: "log_msg \<Rightarrow> log_msg list \<Rightarrow> log_msg list" where
  "offer_log m ch = (if length ch < log_buffer then ch @ [m] else ch)"

type_synonym log_subs = "(nat \<times> log_msg list) list"

definition publish_log :: "string \<Rightarrow> string \<Rightarrow> bool \<Rightarrow> log_subs \<Rightarrow> log_subs" where
  "publish_log i line fin subs = map (\<lambda>(k, ch). (k, offer_log \<lparr>lm_job = i, lm_line = line, lm_done = fin\<rparr> ch)) subs"

definition subscribe_logs :: "nat \<Rightarrow> log_subs \<Rightarrow> log_subs" where
  "subscribe_logs k subs = AList.update k [] subs"

definition unsubscribe_logs :: "nat \<Rightarrow> log_subs \<Rightarrow> log_subs" where
  "unsubscribe_logs k subs = AList.delete k subs"

datatype log_reply = LogLine string | LogEnd

text \<open>One round of \<^verbatim>\<open>pumpLogs\<close>: what it writes for a message, and whether it returns after it.\<close>

definition pump_step :: "string \<Rightarrow> log_msg \<Rightarrow> log_reply option \<times> bool" where
  "pump_step i m =
     (if lm_job m \<noteq> i then (None, False)
      else if lm_done m then (Some LogEnd, True)
      else (Some (LogLine (lm_line m)), False))"

text \<open>The reading loop of \<^verbatim>\<open>StreamSocial\<close>, over the messages that come before the connection ends: \<open>None\<close> is
  a line that does not parse or is no log line. The second component says whether the end was seen.\<close>

fun read_logs :: "log_reply option list \<Rightarrow> string list \<times> bool" where
  "read_logs [] = ([], False)"
| "read_logs (None # rs) = read_logs rs"
| "read_logs (Some LogEnd # rs) = ([], True)"
| "read_logs (Some (LogLine l) # rs) = (case read_logs rs of (ls, e) \<Rightarrow> (l # ls, e))"

section \<open>Connections\<close>

datatype conn_line = NoLine | BadLine string | SubscribeLine | RequestLine request

datatype conn_answer = ConnClosed | ConnReply response | ConnLogs response string | ConnSnapshots

definition dispatch :: "network \<Rightarrow> request \<Rightarrow> daemon \<Rightarrow> conn_answer \<times> daemon" where
  "dispatch nw r d =
     (case do_request nw r d of
        (resp, d) \<Rightarrow>
          (case r of
             AddSocial _ _ _ _ _ \<Rightarrow> (case resp of RespJob (Some v) \<Rightarrow> ConnLogs resp (j_id (jv_job v)) | _ \<Rightarrow> ConnReply resp)
           | _ \<Rightarrow> ConnReply resp, d))"

fun handle_conn :: "network \<Rightarrow> conn_line \<Rightarrow> daemon \<Rightarrow> conn_answer \<times> daemon" where
  "handle_conn nw NoLine d = (ConnClosed, d)"
| "handle_conn nw (BadLine e) d = (ConnReply (RespError (''bad request: '' @ e)), d)"
| "handle_conn nw SubscribeLine d = (ConnSnapshots, d)"
| "handle_conn nw (RequestLine r) d = dispatch nw r d"

definition call_result :: "response \<Rightarrow> response result" where
  "call_result r = (case r of RespError e \<Rightarrow> Inl (ErrMsg e) | _ \<Rightarrow> Inr r)"

text \<open>\<^verbatim>\<open>streamSnapshots\<close>: the payload of every tick, and whether writing it succeeds; what is written.\<close>

fun stream_from :: "string \<Rightarrow> (string \<times> bool) list \<Rightarrow> string list" where
  "stream_from sent [] = []"
| "stream_from sent ((p, ok) # ps) =
     (if p = sent then stream_from sent ps else if ok then p # stream_from p ps else [])"

definition stream_snapshots :: "(string \<times> bool) list \<Rightarrow> string list" where
  "stream_snapshots ps = stream_from [] ps"

text \<open>\<^verbatim>\<open>subscribeOnce\<close>: the lines read before the connection ends, \<open>None\<close> for one that does not parse. It
  passes on every snapshot, and says whether there was one.\<close>

definition subscribe_once :: "'a option list \<Rightarrow> 'a list \<times> bool" where
  "subscribe_once ls = (let js = concat (map (\<lambda>l. case l of None \<Rightarrow> [] | Some j \<Rightarrow> [j]) ls) in (js, js \<noteq> []))"

definition min_backoff :: int where "min_backoff = 500"
definition max_backoff :: int where "max_backoff = 5000"

text \<open>\<^verbatim>\<open>SubscribeRetrying\<close>: the pause, in milliseconds, after each connection.\<close>

fun retry_pauses :: "int \<Rightarrow> bool list \<Rightarrow> int list" where
  "retry_pauses b [] = []"
| "retry_pauses b (got # gs) =
     (let b = (if got then min_backoff else b) in b # retry_pauses (min (b * 2) max_backoff) gs)"

end
