(* ===== verification/ClientProps.thy ===== *)
theory ClientProps
  imports Client
begin

text \<open>
  What a command may rely on when it talks to the daemon: installs of different versions do not keep
  replacing each other's daemon, the lines of a job come in order, and a client of the list of jobs has
  the latest.
\<close>

section \<open>Versions\<close>

interpretation part_order: weak_order parts_less
proof
  fix xs ys zs :: "int list"
  show "parts_less xs ys \<Longrightarrow> \<not> parts_less ys xs"
    by (induction xs ys rule: parts_less.induct) (auto split: if_splits)
  show "parts_less xs zs \<Longrightarrow> parts_less xs ys \<or> parts_less ys zs"
  proof (induction xs zs arbitrary: ys rule: parts_less.induct)
    case (2 x xs) then show ?case by (cases ys) (auto split: if_splits)
  next
    case (3 z zs) then show ?case by (cases ys) (auto split: if_splits)
  next
    case (4 x xs z zs) then show ?case by (cases ys) (auto split: if_splits)
  qed simp
qed

definition proper_version :: "string \<Rightarrow> bool" where
  "proper_version v \<longleftrightarrow> v \<noteq> [] \<and> list_all (\<lambda>x. 0 \<le> x) (version_parts v)"

lemma older_proper: "proper_version a \<Longrightarrow> older_version a b \<longleftrightarrow> parts_less (version_parts a) (version_parts b)"
  by (simp add: proper_version_def older_version_def)

lemma not_older_self: "\<not> older_version v v"
  using part_order.not_self by (simp add: older_version_def)

lemma older_trans: "older_version a b \<Longrightarrow> older_version b c \<Longrightarrow> proper_version b \<Longrightarrow> proper_version c \<Longrightarrow> older_version a c"
  using part_order.chained by (auto simp: older_version_def proper_version_def split: if_splits)

lemma older_not_both: "older_version a b \<Longrightarrow> proper_version b \<Longrightarrow> \<not> older_version b a \<or> a = []"
  using part_order.not_both by (auto simp: older_version_def proper_version_def split: if_splits)

section \<open>Installs of different versions\<close>

lemma ensure_left_alone:
  assumes "ce_sock env = None" and "ce_pings env 0 = Some v" and "\<not> older_version v me"
  shows "ensure_running env me = (None, [], 1)"
  using assms by (simp add: ensure_running_def ensure_from_def)

lemma stop_daemon_acts: "stop_daemon env v n = (e, acts, m) \<Longrightarrow> Spawn \<notin> set acts"
  by (auto simp: stop_daemon_def Let_def split: if_splits option.splits sum.splits prod.splits)

lemma start_daemon_ok: "start_daemon env acts n = (None, acts', m) \<Longrightarrow> acts' = acts @ [Spawn]"
  by (auto simp: start_daemon_def split: if_splits option.splits prod.splits)

lemma ensure_acts:
  assumes "ensure_running env me = (None, acts, n)" and "ce_pings env 0 = Some v"
  shows "Spawn \<in> set acts \<longleftrightarrow> older_version v me"
proof -
  have s: "ce_sock env = None" using assms(1) by (auto simp: ensure_running_def ensure_from_def split: option.splits)
  show ?thesis
  proof (cases "older_version v me")
    case True
    then obtain sacts k where "stop_daemon env v 1 = (None, sacts, k)" "start_daemon env sacts k = (None, acts, n)"
      using assms s by (auto simp: ensure_running_def ensure_from_def split: prod.splits option.splits)
    then show ?thesis using True start_daemon_ok [of env sacts k acts n] by simp
  next
    case False
    then show ?thesis using assms s ensure_left_alone [of env v me] by simp
  qed
qed

text \<open>Commands of any installs, one after the other, each of which succeeds; the daemon that is there is the
  one that was there, or one of the command's own version if the command spawned it.\<close>

fun commands_of :: "string \<Rightarrow> (client_env \<times> string) list \<Rightarrow> bool" where
  "commands_of v [] = True"
| "commands_of v ((env, me) # cs) =
     (ce_pings env 0 = Some v \<and> fst (ensure_running env me) = None \<and>
      commands_of (if Spawn \<in> set (fst (snd (ensure_running env me))) then me else v) cs)"

definition spawned :: "(client_env \<times> string) list \<Rightarrow> string list" where
  "spawned cs = map snd (filter (\<lambda>(env, me). Spawn \<in> set (fst (snd (ensure_running env me)))) cs)"

lemma spawned_newer:
  "commands_of v cs \<Longrightarrow> list_all (proper_version \<circ> snd) cs \<Longrightarrow>
   sorted_wrt older_version (spawned cs) \<and> list_all (older_version v) (spawned cs) \<and>
   list_all proper_version (spawned cs) \<and> set (spawned cs) \<subseteq> snd ` set cs"
proof (induction cs arbitrary: v)
  case (Cons c cs)
  obtain env me where c: "c = (env, me)" by fastforce
  obtain acts n where e: "ensure_running env me = (None, acts, n)"
    using Cons.prems c by (cases "ensure_running env me") auto
  have o: "Spawn \<in> set acts \<longleftrightarrow> older_version v me" using ensure_acts [OF e] Cons.prems c by auto
  show ?case
  proof (cases "Spawn \<in> set acts")
    case True
    have "commands_of me cs" "list_all (proper_version \<circ> snd) cs" "proper_version me"
      using Cons.prems c e True by (simp_all add: comp_def)
    have sp: "spawned ((env, me) # cs) = me # spawned cs" using True by (simp add: c e spawned_def)
    note IH = Cons.IH [OF \<open>commands_of me cs\<close> \<open>list_all (proper_version \<circ> snd) cs\<close>]
    then have ih: "sorted_wrt older_version (spawned cs)" "list_all (older_version me) (spawned cs)"
      "list_all proper_version (spawned cs)" "set (spawned cs) \<subseteq> snd ` set cs" by simp_all
    have "older_version v me" using o True by simp
    with ih \<open>proper_version me\<close> have "list_all (older_version v) (spawned cs)"
      by (auto simp: list_all_iff intro: older_trans)
    with ih \<open>proper_version me\<close> \<open>older_version v me\<close> show ?thesis by (auto simp: sp c list_all_iff)
  next
    case False
    then have "commands_of v cs" using Cons.prems c e by simp
    with Cons.IH [of v] Cons.prems False show ?thesis by (auto simp: c e spawned_def)
  qed
qed (simp add: spawned_def)

lemma sorted_older_distinct: "sorted_wrt older_version vs \<Longrightarrow> distinct vs"
  by (induction vs) (auto simp: not_older_self)

text \<open>C13: 
  C1: Installs of different versions do not keep restarting each other's daemon: whatever commands of
  whatever versions follow one another, the daemon is replaced at most once for each version there is,
  each time by a newer one, and one that is the same or newer is never touched.
\<close>
theorem installs_do_not_fight:
  assumes "commands_of v cs" and "list_all (proper_version \<circ> snd) cs"
  shows "length (spawned cs) \<le> card (snd ` set cs) \<and> sorted_wrt older_version (v # spawned cs) \<and>
    (\<forall>env me. (env, me) \<in> set cs \<and> ce_sock env = None \<and> \<not> older_version (the (ce_pings env 0)) me \<and> ce_pings env 0 \<noteq> None \<longrightarrow>
       ensure_running env me = (None, [], 1))"
proof -
  from spawned_newer [OF assms] have s: "sorted_wrt older_version (spawned cs)" "list_all (older_version v) (spawned cs)"
    "set (spawned cs) \<subseteq> snd ` set cs" by auto
  have "length (spawned cs) = card (set (spawned cs))" using sorted_older_distinct [OF s(1)] by (simp add: distinct_card)
  also have "\<dots> \<le> card (snd ` set cs)" using s(3) by (intro card_mono) auto
  finally show ?thesis using s ensure_left_alone by (auto simp: list_all_iff)
qed

definition daemon_at :: "string \<Rightarrow> string \<Rightarrow> client_env" where
  "daemon_at old new =
     \<lparr>ce_sock = None, ce_pings = (\<lambda>n. if n = 0 then Some old else if n = 1 then None else Some new), ce_shutdown = True,
      ce_peer = Inr 7, ce_find = None, ce_kill = None, ce_prepare = None, ce_start = None, ce_log = ''log''\<rparr>"

theorem installs_do_not_fight_witness:
  "spawned [(daemon_at ''1.9'' ''1.10'', ''1.10''), (daemon_at ''1.10'' [], ''1.9''), (daemon_at ''1.10'' [], ''1.10'')] = [''1.10''] \<and>
   length (spawned [(daemon_at ''1.9'' ''1.10'', ''1.10''), (daemon_at ''1.10'' [], ''1.9''), (daemon_at ''1.10'' [], ''1.10'')]) \<le> 2"
proof -
  let ?cs = "[(daemon_at ''1.9'' ''1.10'', ''1.10''), (daemon_at ''1.10'' [], ''1.9''), (daemon_at ''1.10'' [], ''1.10'')]"
  have o: "older_version ''1.9'' ''1.10''" "\<not> older_version ''1.10'' ''1.9''" "\<not> older_version ''1.10'' ''1.10''" by code_simp+
  have p: "proper_version ''1.10''" "proper_version ''1.9''" by code_simp+
  have a: "await_ping (ce_pings (daemon_at old new)) False 1 100 = (True, 2)" "await_ping (ce_pings (daemon_at old new)) True 2 50 = (True, 3)" for old new
    by (simp_all add: daemon_at_def eval_nat_numeral)
  have e: "ensure_running (daemon_at ''1.9'' ''1.10'') ''1.10'' = (None, [AskShutdown, Spawn], 3)"
    using o a [of "''1.9''" "''1.10''"] unfolding ensure_running_def ensure_from_def stop_daemon_def start_daemon_def
    by (simp add: daemon_at_def)
  have l: "ensure_running (daemon_at ''1.10'' []) me = (None, [], 1)" if "\<not> older_version ''1.10'' me" for me
    using that by (intro ensure_left_alone) (simp_all add: daemon_at_def)
  have s: "spawned ?cs = [''1.10'']" using e l o by (simp add: spawned_def)
  have "commands_of ''1.9'' ?cs" using e l o by (simp add: daemon_at_def)
  from installs_do_not_fight [OF this] p have "length (spawned ?cs) \<le> card (snd ` set ?cs)" by simp
  also have "\<dots> = 2" by (simp add: insert_commute)
  finally show ?thesis using s by simp
qed

text \<open>Looking for the daemon ends: no more than 151 pings.\<close>

lemma await_ping_bound: "await_ping pings up n k = (ok, m) \<Longrightarrow> m \<le> n + k"
  by (induction pings up n k rule: await_ping.induct) (auto split: if_splits)

lemma stop_daemon_bound: "stop_daemon env v n = (e, acts, m) \<Longrightarrow> m \<le> n + 100"
  by (auto simp: stop_daemon_def Let_def split: if_splits option.splits sum.splits prod.splits dest: await_ping_bound)

lemma start_daemon_bound: "start_daemon env acts n = (e, acts', m) \<Longrightarrow> m \<le> n + 50"
  by (auto simp: start_daemon_def split: if_splits option.splits prod.splits dest: await_ping_bound)

lemma ensure_running_bound: "snd (snd (ensure_running env me)) \<le> 151"
proof -
  obtain e acts m where r: "ensure_running env me = (e, acts, m)" by (metis prod_cases3)
  then have "m \<le> 151"
    by (auto simp: ensure_running_def ensure_from_def split: option.splits if_splits prod.splits
        dest!: stop_daemon_bound start_daemon_bound)
  with r show ?thesis by simp
qed

lemma retry_pauses_range:
  "min_backoff \<le> b \<Longrightarrow> b \<le> max_backoff \<Longrightarrow> list_all (\<lambda>p. 500 \<le> p \<and> p \<le> 5000) (retry_pauses b gs)"
  by (induction b gs rule: retry_pauses.induct) (auto simp: min_backoff_def max_backoff_def Let_def)

section \<open>The log of a job\<close>

text \<open>What happens at the daemon: a client subscribes for a job, a line is published, a client's goroutine
  takes a message, or finds its client gone.\<close>

datatype log_event = LogSub nat string | LogPub string string bool | LogPump nat | LogGone nat

record log_conn =
  lc_job :: string
  lc_sent :: "log_reply list"

record log_feed =
  lf_subs :: log_subs
  lf_conns :: "(nat \<times> log_conn) list"

fun log_does :: "log_event \<Rightarrow> log_feed \<Rightarrow> log_feed" where
  "log_does (LogSub k i) f =
     f\<lparr>lf_subs := subscribe_logs k (lf_subs f), lf_conns := AList.update k \<lparr>lc_job = i, lc_sent = []\<rparr> (lf_conns f)\<rparr>"
| "log_does (LogPub i line fin) f = f\<lparr>lf_subs := publish_log i line fin (lf_subs f)\<rparr>"
| "log_does (LogPump k) f =
     (case (map_of (lf_subs f) k, map_of (lf_conns f) k) of
        (Some (m # ch), Some c) \<Rightarrow>
          (case pump_step (lc_job c) m of
             (r, stop) \<Rightarrow>
               f\<lparr>lf_subs := (if stop then unsubscribe_logs k (lf_subs f) else AList.update k ch (lf_subs f)),
                 lf_conns := AList.update k (c\<lparr>lc_sent := lc_sent c @ (case r of None \<Rightarrow> [] | Some r \<Rightarrow> [r])\<rparr>) (lf_conns f)\<rparr>)
      | _ \<Rightarrow> f)"
| "log_does (LogGone k) f = f\<lparr>lf_subs := unsubscribe_logs k (lf_subs f)\<rparr>"

definition log_run :: "log_event list \<Rightarrow> log_feed" where
  "log_run evs = fold log_does evs \<lparr>lf_subs = [], lf_conns = []\<rparr>"

definition published :: "log_event list \<Rightarrow> log_msg list" where
  "published evs =
     concat (map (\<lambda>e. case e of LogPub i l fin \<Rightarrow> [\<lparr>lm_job = i, lm_line = l, lm_done = fin\<rparr>] | _ \<Rightarrow> []) evs)"

definition job_lines :: "string \<Rightarrow> log_msg list \<Rightarrow> string list" where
  "job_lines i ms = map lm_line (takeWhile (\<lambda>m. \<not> lm_done m) (filter (\<lambda>m. lm_job m = i) ms))"

definition job_over :: "string \<Rightarrow> log_msg list \<Rightarrow> bool" where
  "job_over i ms \<longleftrightarrow> (\<exists>m\<in>set ms. lm_job m = i \<and> lm_done m)"

definition replies_to :: "string \<Rightarrow> log_msg list \<Rightarrow> log_reply list" where
  "replies_to i ms = concat (map (\<lambda>m. case fst (pump_step i m) of None \<Rightarrow> [] | Some r \<Rightarrow> [r]) ms)"

lemma read_replies: "read_logs (map Some (replies_to i ms)) = (job_lines i ms, job_over i ms)"
  by (induction ms) (auto simp: replies_to_def job_lines_def job_over_def pump_step_def)

lemma job_lines_over: "job_over i ms \<Longrightarrow> job_lines i (ms @ ns) = job_lines i ms \<and> job_over i (ms @ ns)"
  by (auto simp: job_lines_def job_over_def intro: takeWhile_append1)

lemma subseq_front: "subseq (xs @ ys) zs \<Longrightarrow> subseq xs zs"
  by (rule subseq_order.trans [of xs "xs @ ys" zs]) (simp_all add: prefix_imp_subseq)

lemma publish_log_lookup:
  "map_of (publish_log i l fin subs) k = map_option (offer_log \<lparr>lm_job = i, lm_line = l, lm_done = fin\<rparr>) (map_of subs k)"
  by (induction subs) (auto simp: publish_log_def)

text \<open>What a client has been sent, with \<open>ms\<close> the messages its goroutine took, and what waits in its channel.\<close>

definition log_state :: "nat \<Rightarrow> string \<Rightarrow> log_event list \<Rightarrow> log_msg list \<Rightarrow> log_feed \<Rightarrow> bool" where
  "log_state k i post ms f \<longleftrightarrow>
     map_option lc_job (map_of (lf_conns f) k) = Some i \<and>
     map_option lc_sent (map_of (lf_conns f) k) = Some (replies_to i ms) \<and>
     (case map_of (lf_subs f) k of
        Some ch \<Rightarrow> subseq (ms @ ch) (published post) \<and> (length (published post) \<le> log_buffer \<longrightarrow> ms @ ch = published post)
      | None \<Rightarrow> subseq ms (published post) \<and>
          (length (published post) \<le> log_buffer \<longrightarrow> LogGone k \<notin> set post \<longrightarrow>
             job_over i ms \<and> (\<exists>ns. published post = ms @ ns)))"

lemma published_snoc: "published (post @ [e]) = published post @ published [e]"
  by (simp add: published_def)

lemma published_one [simp]: "published [LogSub k i] = []" "published [LogPump k] = []" "published [LogGone k] = []"
  by (simp_all add: published_def)

lemma log_state_step:
  assumes "log_state k i post ms f" and "\<forall>j. e \<noteq> LogSub k j"
  shows "\<exists>ms'. log_state k i (post @ [e]) ms' (log_does e f)"
proof (cases e)
  case (LogSub k' j)
  then have "log_state k i (post @ [e]) ms (log_does e f)"
    using assms by (auto simp: log_state_def published_snoc published_def subscribe_logs_def map_of_update split: option.splits)
  then show ?thesis ..
next
  case (LogGone k')
  then have "log_state k i (post @ [e]) ms (log_does e f)"
    using assms(1)
    by (cases "k' = k") (auto simp: log_state_def published_snoc unsubscribe_logs_def map_of_delete
        split: option.splits intro: subseq_front)
  then show ?thesis ..
next
  case (LogPub j l fin)
  let ?m = "\<lparr>lm_job = j, lm_line = l, lm_done = fin\<rparr>"
  have p: "published (post @ [e]) = published post @ [?m]" by (simp add: LogPub published_def)
  have "log_state k i (post @ [e]) ms (log_does e f)"
  proof (cases "map_of (lf_subs f) k")
    case None
    then show ?thesis using assms(1) by (auto simp: log_state_def LogPub p [unfolded LogPub] publish_log_lookup)
  next
    case (Some ch)
    have sub: "subseq (ms @ ch) (published post)" and ex: "length (published post) \<le> log_buffer \<longrightarrow> ms @ ch = published post"
      using assms(1) Some by (simp_all add: log_state_def)
    have "subseq (ms @ offer_log ?m ch) (published post @ [?m])"
      using sub by (auto simp: offer_log_def subseq_append_iff list_emb_append_mono simp flip: append_assoc)
    moreover have "ms @ offer_log ?m ch = published post @ [?m]" if "length (published post @ [?m]) \<le> log_buffer"
    proof -
      from that ex have "ms @ ch = published post" by simp
      moreover from this [symmetric] that have "length ch < log_buffer" by simp
      ultimately show ?thesis by (simp add: offer_log_def)
    qed
    ultimately show ?thesis using assms(1) Some p by (simp add: log_state_def LogPub publish_log_lookup)
  qed
  then show ?thesis ..
next
  case (LogPump k')
  have p: "published (post @ [e]) = published post" by (simp add: LogPump published_def)
  show ?thesis
  proof (cases "k' = k \<and> (\<exists>m ch. map_of (lf_subs f) k = Some (m # ch))")
    case False
    then have "map_of (lf_subs (log_does e f)) k = map_of (lf_subs f) k" "map_of (lf_conns (log_does e f)) k = map_of (lf_conns f) k"
      by (auto simp: LogPump map_of_update map_of_delete unsubscribe_logs_def split: option.splits list.splits prod.splits)
    moreover have "LogGone k \<notin> set (post @ [e]) \<longleftrightarrow> LogGone k \<notin> set post" by (simp add: LogPump)
    ultimately have "log_state k i (post @ [e]) ms (log_does e f)"
      using assms(1) unfolding log_state_def p by (simp only:)
    then show ?thesis ..
  next
    case True
    then obtain m ch where ch: "k' = k" "map_of (lf_subs f) k = Some (m # ch)" by blast
    obtain c where c: "map_of (lf_conns f) k = Some c" "lc_job c = i" "lc_sent c = replies_to i ms"
      using assms(1) by (auto simp: log_state_def)
    obtain r stop where r: "pump_step i m = (r, stop)" by fastforce
    have sent: "replies_to i (ms @ [m]) = lc_sent c @ (case r of None \<Rightarrow> [] | Some r \<Rightarrow> [r])"
      using r c by (simp add: replies_to_def)
    have sub: "subseq ((ms @ [m]) @ ch) (published post)"
      and ex: "length (published post) \<le> log_buffer \<longrightarrow> (ms @ [m]) @ ch = published post"
      using assms(1) ch by (simp_all add: log_state_def)
    have over: "job_over i (ms @ [m])" if stop using that r by (auto simp: pump_step_def job_over_def split: if_splits)
    have "subseq (ms @ [m]) (published post)" using sub by (rule subseq_front)
    moreover have "\<exists>ns. published post = (ms @ [m]) @ ns" if "length (published post) \<le> log_buffer"
      using ex that by metis
    ultimately have "log_state k i (post @ [e]) (ms @ [m]) (log_does e f)"
      using sub ex over
      unfolding log_state_def p using ch c r sent
      by (cases stop) (auto simp: LogPump map_of_update map_of_delete unsubscribe_logs_def)
    then show ?thesis ..
  qed
qed

lemma log_run_state:
  "\<forall>j. LogSub k j \<notin> set post \<Longrightarrow> \<exists>ms. log_state k i post ms (log_run (pre @ LogSub k i # post))"
proof (induction post rule: rev_induct)
  case Nil
  have "log_state k i [] [] (log_run (pre @ [LogSub k i]))"
    by (simp add: log_run_def log_state_def published_def replies_to_def subscribe_logs_def map_of_update)
  then show ?case ..
next
  case (snoc e post)
  then obtain ms where "log_state k i post ms (log_run (pre @ LogSub k i # post))" by auto
  from log_state_step [OF this, of e] snoc.prems show ?case by (auto simp: log_run_def)
qed

text \<open>
  C1: A command that follows a job is shown lines of that job only, in the order they were published, and
  none twice; if no more than 64 lines were published since it subscribed, it is shown, once its goroutine
  has caught up, every line up to the end of the job, and learns of the end.
\<close>
theorem log_lines_in_order:
  assumes "\<forall>j. LogSub k j \<notin> set post" and "f = log_run (pre @ LogSub k i # post)"
  shows "\<exists>c ms. map_of (lf_conns f) k = Some c \<and> subseq ms (published post) \<and>
    read_logs (map Some (lc_sent c)) = (job_lines i ms, job_over i ms) \<and>
    (length (published post) \<le> 64 \<and> LogGone k \<notin> set post \<and> map_of (lf_subs f) k \<in> {None, Some []} \<longrightarrow>
       read_logs (map Some (lc_sent c)) = (job_lines i (published post), job_over i (published post)))"
proof -
  from log_run_state [OF assms(1), of i pre] obtain ms where s: "log_state k i post ms f" using assms(2) by blast
  then obtain c where c: "map_of (lf_conns f) k = Some c" "lc_sent c = replies_to i ms" by (auto simp: log_state_def)
  have r: "read_logs (map Some (lc_sent c)) = (job_lines i ms, job_over i ms)" using c(2) read_replies by simp
  have "subseq ms (published post)"
    using s by (auto simp: log_state_def split: option.splits intro: subseq_front)
  moreover have "job_lines i ms = job_lines i (published post) \<and> job_over i ms = job_over i (published post)"
    if "length (published post) \<le> 64" "LogGone k \<notin> set post" "map_of (lf_subs f) k \<in> {None, Some []}"
    using s that job_lines_over by (auto simp: log_state_def log_buffer_def)
  ultimately show ?thesis using c(1) r by auto
qed

definition sample_log :: "log_event list" where
  "sample_log =
     [LogPub ''a'' ''one'' False, LogPub ''b'' ''other'' False, LogPump 1, LogPub ''a'' ''two'' False, LogPub ''a'' [] True,
      LogPump 1, LogPump 1, LogPump 1]"

theorem log_lines_in_order_witness:
  "map_option (\<lambda>c. read_logs (map Some (lc_sent c))) (map_of (lf_conns (log_run ([] @ LogSub 1 ''a'' # sample_log))) 1) =
     Some ([''one'', ''two''], True)"
proof -
  let ?f = "log_run ([] @ LogSub 1 ''a'' # sample_log)"
  have n: "\<forall>j. LogSub 1 j \<notin> set sample_log" "LogGone 1 \<notin> set sample_log" by (simp_all add: sample_log_def)
  have p: "length (published sample_log) \<le> 64" "job_lines ''a'' (published sample_log) = [''one'', ''two'']"
    "job_over ''a'' (published sample_log)" "map_of (lf_subs ?f) 1 = None" by code_simp+
  from log_lines_in_order [OF n(1) refl, of "[]" "''a''"] p n(2) show ?thesis by auto
qed

text \<open>The message that ends a job can carry its error, which is not sent on; and when the channel is full the
  end itself is lost, after which the client waits for ever.\<close>

lemma error_of_the_end_is_dropped:
  "pump_step i \<lparr>lm_job = i, lm_line = ''error: exit status 1'', lm_done = True\<rparr> = (Some LogEnd, True)"
  by (simp add: pump_step_def)

lemma full_channel_loses_the_end:
  assumes "map_of subs k = Some ch" and "length ch = log_buffer" and "\<not> job_over i ch"
  shows "map_of (publish_log i l True subs) k = Some ch \<and> \<not> snd (read_logs (map Some (replies_to i ch)))"
  using assms by (simp add: publish_log_lookup offer_log_def read_replies)

section \<open>The list of jobs\<close>

text \<open>As long as writing works, a subscriber is sent each state of the list once, until it changes.\<close>

lemma stream_from_remdups: "stream_from p (map (\<lambda>q. (q, True)) ps) = tl (remdups_adj (p # ps))"
  by (induction ps arbitrary: p) (simp_all add: remdups_adj_Cons split: list.splits)

lemma stream_snapshots_remdups:
  assumes "\<forall>p\<in>set ps. p \<noteq> []"
  shows "stream_snapshots (map (\<lambda>q. (q, True)) ps) = remdups_adj ps"
  using assms by (cases ps) (simp_all add: stream_snapshots_def stream_from_remdups remdups_adj_Cons split: list.splits)

end
