(* ===== verification/FileServer.thy ===== *)
theory FileServer
  imports WebAccess WebApi
begin

text \<open>
  \<^verbatim>\<open>internal/fileserver\<close>: sharing a folder over HTTP, and how the daemon starts and stops a share. What
  is on the disk, which ports are free and what \<^verbatim>\<open>net/http\<close> read of a request are arguments. Serving
  \<^verbatim>\<open>/dav/\<close> is left to the WebDAV package; the model says what it is handed.
\<close>

section \<open>Paths below the folder\<close>

text \<open>\<^verbatim>\<open>filepath.IsLocal\<close>.\<close>

definition is_local :: "string \<Rightarrow> bool" where
  "is_local p \<longleftrightarrow>
     \<not> rooted p \<and> p \<noteq> [] \<and>
     (let dots = list_ex (\<lambda>e. e = ''.'' \<or> e = dotdot) (split_on (CHR ''/'') p);
          q = (if dots then path_clean p else p)
      in q \<noteq> dotdot \<and> \<not> has_prefix q ''../'')"

definition resolve_under_root :: "string option \<Rightarrow> string \<Rightarrow> string \<Rightarrow> string result" where
  "resolve_under_root cwd base rel =
     (case path_abs cwd base of
        None \<Rightarrow> Inl (ErrMsg ''getwd: no such file or directory'')
      | Some a \<Rightarrow>
          if rel = [] then Inr a
          else if \<not> is_local rel then Inl (ErrMsg ''path escapes served directory'')
          else Inr (path_join [a, rel]))"

section \<open>The page of a folder\<close>

text \<open>\<open>di_size\<close> is \<open>None\<close> when the entry cannot be read.\<close>

record dir_item =
  di_name :: string
  di_dir :: bool
  di_size :: "int option"

record browse_row =
  bw_name :: string
  bw_rel :: string
  bw_dav :: string
  bw_dir :: bool
  bw_parent :: bool
  bw_size :: string

record browse_page =
  pg_title :: string
  pg_dir :: string
  pg_crumbs :: "(string \<times> string) list"
  pg_rows :: "browse_row list"

definition dir_before :: "dir_item \<Rightarrow> dir_item \<Rightarrow> bool" where
  "dir_before a b = (if di_dir a \<noteq> di_dir b then di_dir a else di_name a < di_name b)"

definition browse_crumbs :: "string \<Rightarrow> (string \<times> string) list" where
  "browse_crumbs dir =
     (if dir = [] then []
      else let ps = split_on (CHR ''/'') dir
           in map (\<lambda>(i, p). (p, join_with ''/'' (take (i + 1) ps))) (enumerate 0 ps))"

definition parent_row :: "string \<Rightarrow> browse_row list" where
  "parent_row dir =
     (if dir = [] then []
      else [\<lparr>bw_name = dotdot, bw_rel = join_with ''/'' (butlast (split_on (CHR ''/'') dir)), bw_dav = [], bw_dir = True,
             bw_parent = True, bw_size = []\<rparr>])"

definition entry_row :: "string \<Rightarrow> dir_item \<Rightarrow> browse_row" where
  "entry_row dir e =
     (let rel = (if dir = [] then di_name e else dir @ ''/'' @ di_name e)
      in \<lparr>bw_name = di_name e, bw_rel = rel, bw_dav = ''/'' @ rel, bw_dir = di_dir e, bw_parent = False,
          bw_size = (if di_dir e then ''-'' else case di_size e of Some n \<Rightarrow> format_bytes n | None \<Rightarrow> [])\<rparr>)"

definition browse_page_of :: "string \<Rightarrow> dir_item list \<Rightarrow> browse_page" where
  "browse_page_of dir es =
     \<lparr>pg_title = ''godl '' @ [CHR 0xE2, CHR 0x80, CHR 0x94] @ '' /'' @ dir, pg_dir = dir, pg_crumbs = browse_crumbs dir,
      pg_rows = parent_row dir @ map (entry_row dir) (sort_by dir_before es)\<rparr>"

section \<open>Archives\<close>

text \<open>What \<^verbatim>\<open>WalkDir\<close> comes across: a folder, a file with its content or the error of reading it, or an
  error of its own.\<close>

datatype zip_node = ZDir string | ZFile string "string result" | ZErr gerror

fun add_to_zip :: "string \<Rightarrow> zip_node list \<Rightarrow> (string \<times> string) list \<Rightarrow> bool \<times> (string \<times> string) list" where
  "add_to_zip base [] out = (True, out)"
| "add_to_zip base (ZErr _ # ns) out = (False, out)"
| "add_to_zip base (ZDir _ # ns) out = add_to_zip base ns out"
| "add_to_zip base (ZFile p c # ns) out =
     (case path_rel base p of
        None \<Rightarrow> (False, out)
      | Some rel \<Rightarrow>
          if rel \<in> fst ` set out then add_to_zip base ns out
          else case c of Inl _ \<Rightarrow> (False, out) | Inr bytes \<Rightarrow> add_to_zip base ns (out @ [(rel, bytes)]))"

text \<open>The files of an archive, and whether it is complete.\<close>

fun zip_selected ::
  "(string \<Rightarrow> zip_node list) \<Rightarrow> string option \<Rightarrow> string \<Rightarrow> string list \<Rightarrow> (string \<times> string) list \<Rightarrow> bool \<times> (string \<times> string) list" where
  "zip_selected walk cwd base [] out = (True, out)"
| "zip_selected walk cwd base (rel # rels) out =
     (case resolve_under_root cwd base (trim_set {CHR ''/''} rel) of
        Inl _ \<Rightarrow> zip_selected walk cwd base rels out
      | Inr a \<Rightarrow>
          (case add_to_zip base (walk a) out of
             (False, out) \<Rightarrow> (False, out)
           | (True, out) \<Rightarrow> zip_selected walk cwd base rels out))"

section \<open>The handler\<close>

record share_config =
  sc_root :: string
  sc_username :: string
  sc_password :: string
  sc_read_only :: bool

record share_request =
  sq_auth :: "(string \<times> string) option"
  sq_method :: string
  sq_path :: string
  sq_dir :: string
  sq_form :: "string list option"

record share_disk =
  sd_readdir :: "string \<Rightarrow> dir_item list result"
  sd_walk :: "string \<Rightarrow> zip_node list"

datatype share_answer =
    SaUnauthorized
  | SaRedirect string
  | SaNotFound
  | SaMethod
  | SaReadOnly
  | SaBad string
  | SaMissing gerror
  | SaDav string
  | SaPage browse_page
  | SaZip bool "(string \<times> string) list"

definition basic_auth_ok :: "string \<Rightarrow> string \<Rightarrow> share_request \<Rightarrow> bool" where
  "basic_auth_ok user pw r \<longleftrightarrow> sq_auth r = Some (user, pw)"

definition read_only_methods :: "string list" where
  "read_only_methods = [''GET'', ''HEAD'', ''OPTIONS'', ''PROPFIND'']"

definition method_allowed :: "bool \<Rightarrow> string \<Rightarrow> bool" where
  "method_allowed read_only meth \<longleftrightarrow> \<not> read_only \<or> meth \<in> set read_only_methods"

definition browse_handler :: "share_disk \<Rightarrow> string option \<Rightarrow> string \<Rightarrow> share_request \<Rightarrow> share_answer" where
  "browse_handler disk cwd base r =
     (if sq_path r \<noteq> ''/'' then SaNotFound
      else if sq_method r \<noteq> ''GET'' \<and> sq_method r \<noteq> ''HEAD'' then SaMethod
      else let dir = trim_set {CHR ''/''} (sq_dir r)
           in case resolve_under_root cwd base dir of
             Inl e \<Rightarrow> SaBad (err_string e)
           | Inr a \<Rightarrow> (case sd_readdir disk a of Inl e \<Rightarrow> SaMissing e | Inr es \<Rightarrow> SaPage (browse_page_of dir es)))"

definition zip_handler :: "share_disk \<Rightarrow> string option \<Rightarrow> string \<Rightarrow> share_request \<Rightarrow> share_answer" where
  "zip_handler disk cwd base r =
     (if sq_method r \<noteq> ''POST'' then SaMethod
      else case sq_form r of
        None \<Rightarrow> SaBad ''bad form''
      | Some [] \<Rightarrow> SaBad ''no files selected''
      | Some rels \<Rightarrow> (case zip_selected (sd_walk disk) cwd base rels [] of (ok, out) \<Rightarrow> SaZip ok out))"

text \<open>\<^verbatim>\<open>http.ServeMux\<close>: a path that is not clean is sent to the clean one, \<^verbatim>\<open>/dav\<close> to \<^verbatim>\<open>/dav/\<close>.\<close>

definition mux_clean :: "string \<Rightarrow> string" where
  "mux_clean p =
     (let q = (if rooted p then p else CHR ''/'' # p); c = path_clean q
      in if last q = CHR ''/'' \<and> c \<noteq> ''/'' then c @ ''/'' else c)"

definition share_mux :: "share_disk \<Rightarrow> string option \<Rightarrow> share_config \<Rightarrow> share_request \<Rightarrow> share_answer" where
  "share_mux disk cwd cfg r =
     (if sq_method r \<noteq> ''CONNECT'' \<and> mux_clean (sq_path r) \<noteq> sq_path r then SaRedirect (mux_clean (sq_path r))
      else if sq_path r = ''/dav'' then SaRedirect ''/dav/''
      else if has_prefix (sq_path r) ''/dav/'' then
        (if method_allowed (sc_read_only cfg) (sq_method r) then SaDav (trim_prefix (sq_path r) ''/dav'') else SaReadOnly)
      else if sq_path r = ''/zip'' then zip_handler disk cwd (sc_root cfg) r
      else browse_handler disk cwd (sc_root cfg) r)"

definition share_handle :: "share_disk \<Rightarrow> string option \<Rightarrow> share_config \<Rightarrow> share_request \<Rightarrow> share_answer" where
  "share_handle disk cwd cfg r =
     (if (sc_username cfg \<noteq> [] \<or> sc_password cfg \<noteq> []) \<and> \<not> basic_auth_ok (sc_username cfg) (sc_password cfg) r
      then SaUnauthorized else share_mux disk cwd cfg r)"

section \<open>Addresses\<close>

text \<open>\<^verbatim>\<open>net.ParseIP\<close> as eight groups; a dotted address as Go keeps it, in the last two.\<close>

definition v4_groups :: "string \<Rightarrow> int list" where
  "v4_groups s =
     (case map (\<lambda>f. int (the (parse_digits 0 f))) (split_on (CHR ''.'') s) of
        [a, b, c, d] \<Rightarrow> [256 * a + b, 256 * c + d]
      | _ \<Rightarrow> [])"

definition v6_groups :: "string \<Rightarrow> int list" where
  "v6_groups s =
     concat (map (\<lambda>g. if CHR ''.'' \<in> set g then v4_groups g
                      else if g = [] then [] else [fold (\<lambda>c n. 16 * n + int (the (hex_digit_val c))) g 0]) (split_on (CHR '':'') s))"

fun split_double :: "string \<Rightarrow> string \<times> string option" where
  "split_double (a # b # s) =
     (if a = CHR '':'' \<and> b = CHR '':'' then ([], Some s) else case split_double (b # s) of (l, r) \<Rightarrow> (a # l, r))"
| "split_double s = (s, None)"

definition ip_groups :: "string \<Rightarrow> int list option" where
  "ip_groups s =
     (if \<not> parse_ip s then None
      else if CHR '':'' \<notin> set s then Some ([0, 0, 0, 0, 0, 65535] @ v4_groups s)
      else case split_double s of
          (l, None) \<Rightarrow> Some (v6_groups l)
        | (l, Some r) \<Rightarrow>
            (let ls = v6_groups l; rs = v6_groups r in Some (ls @ replicate (8 - length ls - length rs) 0 @ rs)))"

definition v4_in :: "int list \<Rightarrow> int list option" where
  "v4_in gs = (if take 6 gs = [0, 0, 0, 0, 0, 65535] then Some (drop 6 gs) else None)"

definition is_loopback_host :: "string \<Rightarrow> bool" where
  "is_loopback_host host \<longleftrightarrow>
     host = ''localhost'' \<or>
     (case ip_groups host of
        None \<Rightarrow> False
      | Some gs \<Rightarrow> (case v4_in gs of Some v \<Rightarrow> hd v div 256 = 127 | None \<Rightarrow> gs = [0, 0, 0, 0, 0, 0, 0, 1]))"

definition is_unspecified_host :: "string \<Rightarrow> bool" where
  "is_unspecified_host host \<longleftrightarrow>
     ip_groups host = Some [0, 0, 0, 0, 0, 65535, 0, 0] \<or> ip_groups host = Some (replicate 8 0)"

text \<open>An interface: whether it is up, whether it is the loopback, and its addresses, \<open>None\<close> for one that is
  not IPv4.\<close>

record net_iface =
  if_up :: bool
  if_loopback :: bool
  if_addrs :: "(nat \<times> nat \<times> nat \<times> nat) option list option"

definition show_v4 :: "nat \<times> nat \<times> nat \<times> nat \<Rightarrow> string" where
  "show_v4 v = (case v of (a, b, c, d) \<Rightarrow> join_with ''.'' (map nat_digits [a, b, c, d]))"

definition reachable_ips :: "net_iface list option \<Rightarrow> string list" where
  "reachable_ips ifaces =
     (case ifaces of
        None \<Rightarrow> []
      | Some is \<Rightarrow>
          sort_by (<) (concat (map (\<lambda>i.
            if \<not> if_up i \<or> if_loopback i then []
            else case if_addrs i of
                None \<Rightarrow> []
              | Some vs \<Rightarrow>
                  concat (map (\<lambda>v. case v of
                      None \<Rightarrow> []
                    | Some (a, b, c, d) \<Rightarrow> if a = 127 \<or> a = 169 \<and> b = 254 then [] else [show_v4 (a, b, c, d)]) vs)) is)))"

definition banner_addrs :: "net_iface list option \<Rightarrow> string \<Rightarrow> string list" where
  "banner_addrs ifaces host = (if \<not> is_unspecified_host host then [host] else ''127.0.0.1'' # reachable_ips ifaces)"

text \<open>\<^verbatim>\<open>net.JoinHostPort\<close>.\<close>

definition join_host_port :: "string \<Rightarrow> int \<Rightarrow> string" where
  "join_host_port host port =
     (if CHR '':'' \<in> set host then ''['' @ host @ '']:'' @ itoa port else host @ '':'' @ itoa port)"

section \<open>Starting a share\<close>

definition max_port_attempts :: nat where "max_port_attempts = 20"

text \<open>\<open>bind p\<close> is what listening on port \<open>p\<close> gives, the port bound or an error.\<close>

fun listen_from :: "(int \<Rightarrow> int result) \<Rightarrow> int \<Rightarrow> nat \<Rightarrow> nat \<Rightarrow> gerror option \<Rightarrow> int result" where
  "listen_from bind port i 0 err =
     Inl (ErrMsg (''no free port found starting at '' @ itoa port @ '' after '' @ itoa (int i) @ '' attempts: '' @
       (case err of Some e \<Rightarrow> err_string e | None \<Rightarrow> ''%!w(<nil>)'')))"
| "listen_from bind port i (Suc n) err =
     (case bind (if port = 0 then 0 else port + int i) of
        Inr p \<Rightarrow> Inr p
      | Inl e \<Rightarrow>
          if port = 0 \<or> \<not> contains_str (err_string e) ''address already in use'' then Inl e
          else listen_from bind port (Suc i) n (Some e))"

definition listen_with_fallback :: "(int \<Rightarrow> int result) \<Rightarrow> int \<Rightarrow> nat \<Rightarrow> int result" where
  "listen_with_fallback bind port n = listen_from bind port 0 n None"

record run_config =
  rc_share :: share_config
  rc_host :: string
  rc_port :: int
  rc_self_signed :: bool
  rc_insecure :: bool

record running_share =
  rs_share :: share_config
  rs_host :: string
  rs_port :: int
  rs_tls :: bool
  rs_write :: bool
  rs_username :: string

text \<open>\<open>is_dir\<close> says whether a path is a folder, \<open>cert\<close> is the error of making a certificate.\<close>

definition share_refusal :: "string option \<Rightarrow> (string \<Rightarrow> bool) \<Rightarrow> run_config \<Rightarrow> gerror option" where
  "share_refusal cwd is_dir cfg =
     (case path_abs cwd (sc_root (rc_share cfg)) of
        None \<Rightarrow> Some (ErrMsg ''getwd: no such file or directory'')
      | Some a \<Rightarrow>
          if \<not> is_dir a then Some (ErrMsg (sc_root (rc_share cfg) @ '' is not a directory''))
          else if rc_host cfg = [] then Some (ErrMsg ''host is required'')
          else if rc_port cfg < 0 \<or> 65535 < rc_port cfg then Some (ErrMsg ''port must be between 0 and 65535'')
          else if \<not> (sc_username (rc_share cfg) \<noteq> [] \<and> sc_password (rc_share cfg) \<noteq> []) \<and>
            \<not> is_loopback_host (rc_host cfg) \<and> \<not> rc_insecure cfg
          then Some (ErrMsg (''refusing to share '' @ a @ '' on '' @ rc_host cfg @ '' without a username and password '' @
                 [CHR 0xE2, CHR 0x80, CHR 0x94] @ '' anyone who can reach this address could download everything under it''))
          else None)"

definition start_share :: "string option \<Rightarrow> (string \<Rightarrow> bool) \<Rightarrow> (int \<Rightarrow> int result) \<Rightarrow> gerror option \<Rightarrow> run_config \<Rightarrow> running_share result" where
  "start_share cwd is_dir bind cert cfg =
     (case share_refusal cwd is_dir cfg of
        Some e \<Rightarrow> Inl e
      | None \<Rightarrow>
          (case listen_with_fallback bind (rc_port cfg) max_port_attempts of
             Inl e \<Rightarrow> Inl e
           | Inr port \<Rightarrow>
               (case (if rc_self_signed cfg then cert else None) of
                  Some e \<Rightarrow> Inl (ErrMsg (''generating self-signed certificate: '' @ err_string e))
                | None \<Rightarrow>
                    Inr \<lparr>rs_share = (rc_share cfg)\<lparr>sc_root := the (path_abs cwd (sc_root (rc_share cfg)))\<rparr>,
                      rs_host = rc_host cfg, rs_port = port, rs_tls = rc_self_signed cfg,
                      rs_write = (\<not> sc_read_only (rc_share cfg)), rs_username = sc_username (rc_share cfg)\<rparr>)))"

definition share_urls :: "net_iface list option \<Rightarrow> running_share \<Rightarrow> string list" where
  "share_urls ifaces s =
     map (\<lambda>a. (if rs_tls s then ''https'' else ''http'') @ ''://'' @ join_host_port a (rs_port s) @ ''/'') (banner_addrs ifaces (rs_host s))"

section \<open>The share of the daemon\<close>

definition daemon_start_share :: "running_share result \<Rightarrow> running_share option \<Rightarrow> gerror option \<times> running_share option" where
  "daemon_start_share begun share =
     (case share of
        Some s \<Rightarrow>
          (Some (ErrMsg (''already sharing '' @ sc_root (rs_share s) @ '' '' @ [CHR 0xE2, CHR 0x80, CHR 0x94] @ '' stop that first'')), share)
      | None \<Rightarrow> (case begun of Inl e \<Rightarrow> (Some e, None) | Inr s \<Rightarrow> (None, Some s)))"

definition daemon_stop_share :: "running_share option \<Rightarrow> running_share option" where
  "daemon_stop_share share = None"

record share_form =
  sf_dir :: string
  sf_host :: string
  sf_port :: int
  sf_username :: string
  sf_password :: string
  sf_write :: bool
  sf_self_signed :: bool
  sf_insecure :: bool

definition share_form_config :: "string result \<Rightarrow> string option \<Rightarrow> share_form \<Rightarrow> run_config result" where
  "share_form_config downloads cwd f =
     (case (if trim_space (sf_dir f) = [] then downloads else Inr (trim_space (sf_dir f))) of
        Inl e \<Rightarrow> Inl e
      | Inr dir \<Rightarrow>
          (case resolve_output cwd dir of
             Inl e \<Rightarrow> Inl e
           | Inr dir \<Rightarrow>
               Inr \<lparr>rc_share = \<lparr>sc_root = dir, sc_username = trim_space (sf_username f), sc_password = sf_password f,
                    sc_read_only = (\<not> sf_write f)\<rparr>,
                  rc_host = (let h = trim_space (sf_host f) in if h = [] then ''0.0.0.0'' else h),
                  rc_port = (if sf_port f = 0 then 8080 else sf_port f), rc_self_signed = sf_self_signed f,
                  rc_insecure = sf_insecure f\<rparr>))"

definition web_share_start ::
  "string result \<Rightarrow> string option \<Rightarrow> (string \<Rightarrow> bool) \<Rightarrow> (int \<Rightarrow> int result) \<Rightarrow> gerror option \<Rightarrow> share_form \<Rightarrow>
   running_share option \<Rightarrow> ((int \<times> gerror) option) \<times> running_share option" where
  "web_share_start downloads cwd is_dir bind cert f share =
     (case share_form_config downloads cwd f of
        Inl e \<Rightarrow> (Some (400, e), share)
      | Inr cfg \<Rightarrow>
          (case daemon_start_share (start_share cwd is_dir bind cert cfg) share of
             (Some e, share) \<Rightarrow> (Some (400, e), share)
           | (None, share) \<Rightarrow> (None, share)))"

end
