(* ===== verification/FileServerProps.thy ===== *)
theory FileServerProps
  imports FileServer
begin

text \<open>
  What a shared folder gives away: nothing that is not below it, nothing without the credentials when it
  can be reached from other machines, and no change when it is read-only.
\<close>

section \<open>Below the folder\<close>

lemma fold_push_keeps_dotdot: "dotdot \<in> set st \<Longrightarrow> dotdot \<in> set (fold (push_elem False) es st)"
proof (induction es arbitrary: st)
  case (Cons e es)
  have "dotdot \<in> set (push_elem False e st)"
    using Cons.prems by (cases st) (auto simp: push_elem_def)
  then show ?case using Cons.IH by simp
qed simp

lemma fold_push_last: "dotdot \<in> set st \<longrightarrow> last st = dotdot \<Longrightarrow>
  dotdot \<in> set (fold (push_elem False) es st) \<longrightarrow> last (fold (push_elem False) es st) = dotdot"
proof (induction es arbitrary: st)
  case (Cons e es)
  have "dotdot \<in> set (push_elem False e st) \<longrightarrow> last (push_elem False e st) = dotdot"
    using Cons.prems by (cases st) (auto simp: push_elem_def)
  then show ?case using Cons.IH by simp
qed simp

text \<open>A relative path that never leaves where it starts is added to what is there.\<close>

lemma fold_push_relative:
  "dotdot \<notin> set (fold (push_elem False) es st) \<Longrightarrow>
   fold (push_elem True) es (st @ below_it) = fold (push_elem False) es st @ below_it"
proof (induction es arbitrary: st)
  case (Cons e es)
  have "dotdot \<notin> set (push_elem False e st)" using Cons.prems fold_push_keeps_dotdot by auto
  then have "push_elem True e (st @ below_it) = push_elem False e st @ below_it"
    by (cases st) (auto simp: push_elem_def split: if_splits)
  then show ?case using Cons by simp
qed simp

lemma local_no_dotdot:
  assumes "is_local p"
  shows "dotdot \<notin> set (clean_elems False (path_elems p))"
proof
  assume d: "dotdot \<in> set (clean_elems False (path_elems p))"
  have nr: "\<not> rooted p" using assms by (simp add: is_local_def)
  have "dotdot \<in> set (path_elems p)" using d fold_push_plain [of "path_elems p" False "[]"] by (cases "dotdot \<in> set (path_elems p)") (auto simp: clean_elems_def)
  then have dots: "list_ex (\<lambda>e. e = ''.'' \<or> e = dotdot) (split_on (CHR ''/'') p)"
    by (auto simp: path_elems_def list_ex_iff)
  let ?es = "clean_elems False (path_elems p)"
  have "hd ?es = dotdot" and ne: "?es \<noteq> []"
    using d fold_push_last [of "[]" "path_elems p"] by (auto simp: clean_elems_def hd_rev)
  then obtain fs where es: "?es = dotdot # fs" by (cases ?es) auto
  then have "path_clean p = dotdot @ (if fs = [] then [] else ''/'' @ join_with ''/'' fs)"
    using nr by (cases fs) (simp_all add: path_clean_def show_path_def)
  then have "path_clean p = dotdot \<or> has_prefix (path_clean p) ''../''"
    by (auto simp: dotdot_def split: if_splits)
  with assms dots show False by (simp add: is_local_def Let_def)
qed

lemma local_join:
  assumes "rooted a" and "is_local p"
  shows "path_join [a, p] = show_path True (clean_elems True (path_elems a) @ clean_elems False (path_elems p))"
proof -
  have "clean_elems True (path_elems a @ path_elems p) = clean_elems True (path_elems a) @ clean_elems False (path_elems p)"
    using local_no_dotdot [OF assms(2)] fold_push_relative [of "path_elems p" "[]" "fold (push_elem True) (path_elems a) []"]
    by (simp add: clean_elems_def)
  then show ?thesis using rooted_join_elems [OF assms(1), of "[p]"] by simp
qed

lemma resolve_below:
  assumes "rooted base" and "path_clean base \<noteq> ''/''" and "resolve_under_root cwd base rel = Inr p"
  shows "below (path_clean base) p"
proof -
  have a: "path_abs cwd base = Some (path_clean base)" using assms(1) by (simp add: path_abs_def)
  have ne: "clean_elems True (path_elems base) \<noteq> []" using assms(1,2) by (auto simp: path_clean_def show_path_def)
  show ?thesis
  proof (cases "rel = []")
    case True
    then show ?thesis using assms(3) a by (simp add: resolve_under_root_def below_def)
  next
    case False
    then have "is_local rel" "p = path_join [path_clean base, rel]"
      using assms(3) a by (auto simp: resolve_under_root_def split: if_splits)
    then have "p = show_path True (clean_elems True (path_elems base) @ clean_elems False (path_elems rel))"
      using local_join [of "path_clean base" rel] assms(1)
      by (simp add: rooted_clean_elems clean_elems_plain clean_rooted_no_dotdot)
    moreover have "path_clean base = show_path True (clean_elems True (path_elems base))"
      using assms(1) by (simp add: path_clean_def)
    ultimately show ?thesis using below_show [OF ne] by simp
  qed
qed

section \<open>What an answer depends on\<close>

definition same_below :: "string \<Rightarrow> share_disk \<Rightarrow> share_disk \<Rightarrow> bool" where
  "same_below dir disk disk' \<longleftrightarrow>
     (\<forall>p. below dir p \<longrightarrow> sd_readdir disk p = sd_readdir disk' p \<and> sd_walk disk p = sd_walk disk' p)"

lemma zip_selected_below:
  assumes "rooted base" and "path_clean base \<noteq> ''/''" and "\<And>p. below (path_clean base) p \<Longrightarrow> walk p = walk' p"
  shows "zip_selected walk cwd base rels out = zip_selected walk' cwd base rels out"
proof (induction rels arbitrary: out)
  case (Cons rel rels)
  then show ?case
    using resolve_below [OF assms(1,2)] assms(3)
    by (auto split: sum.splits prod.splits bool.splits)
qed simp

text \<open>C11: 
  C1: Nothing outside of the shared folder is given away: for every request, whatever path it names, the
  answer is the same on any two disks that agree below the folder, so it cannot depend on anything else.
  What links below the folder point to counts as being there.
\<close>
theorem share_shows_its_folder_only:
  assumes "rooted (sc_root cfg)" and "path_clean (sc_root cfg) \<noteq> ''/''" and "same_below (path_clean (sc_root cfg)) disk disk'"
  shows "share_handle disk cwd cfg r = share_handle disk' cwd cfg r"
proof -
  have "browse_handler disk cwd (sc_root cfg) r = browse_handler disk' cwd (sc_root cfg) r"
    using resolve_below [OF assms(1,2)] assms(3)
    by (auto simp: browse_handler_def same_below_def Let_def split: sum.splits)
  moreover have "zip_handler disk cwd (sc_root cfg) r = zip_handler disk' cwd (sc_root cfg) r"
    using zip_selected_below [OF assms(1,2), of "sd_walk disk" "sd_walk disk'"] assms(3)
    by (simp add: zip_handler_def same_below_def del: zip_selected.simps split: option.splits list.splits)
  ultimately show ?thesis by (simp add: share_handle_def share_mux_def)
qed

definition sample_share :: share_config where
  "sample_share = \<lparr>sc_root = ''/srv/pub'', sc_username = [], sc_password = [], sc_read_only = True\<rparr>"

definition sample_disk :: "string \<Rightarrow> share_disk" where
  "sample_disk secret =
     \<lparr>sd_readdir = (\<lambda>p. if p = ''/srv/pub'' then Inr [\<lparr>di_name = ''a'', di_dir = False, di_size = Some 3\<rparr>]
                       else if p = ''/srv/secret'' then Inr [\<lparr>di_name = secret, di_dir = False, di_size = Some 1\<rparr>] else Inl ErrEOF),
      sd_walk = (\<lambda>p. [])\<rparr>"

definition sneaky :: share_request where
  "sneaky = \<lparr>sq_auth = None, sq_method = ''GET'', sq_path = ''/'', sq_dir = ''x/../../secret'', sq_form = None\<rparr>"

theorem share_shows_its_folder_only_witness:
  "share_handle (sample_disk ''one'') None sample_share sneaky = share_handle (sample_disk ''two'') None sample_share sneaky \<and>
   share_handle (sample_disk ''one'') None sample_share sneaky = SaBad ''path escapes served directory'' \<and>
   sd_readdir (sample_disk ''one'') ''/srv/secret'' \<noteq> sd_readdir (sample_disk ''two'') ''/srv/secret''"
proof -
  have b: "\<not> below ''/srv/pub'' ''/srv/secret''" by code_simp
  have "same_below ''/srv/pub'' (sample_disk ''one'') (sample_disk ''two'')"
    using b by (auto simp: same_below_def sample_disk_def)
  moreover have "rooted (sc_root sample_share)" "path_clean (sc_root sample_share) = ''/srv/pub''" by code_simp+
  ultimately have "share_handle (sample_disk ''one'') None sample_share sneaky = share_handle (sample_disk ''two'') None sample_share sneaky"
    using share_shows_its_folder_only [of sample_share "sample_disk ''one''" "sample_disk ''two''" None sneaky] by simp
  moreover have "share_handle (sample_disk ''one'') None sample_share sneaky = SaBad ''path escapes served directory''" by code_simp
  moreover have "sd_readdir (sample_disk ''one'') ''/srv/secret'' \<noteq> sd_readdir (sample_disk ''two'') ''/srv/secret''" by code_simp
  ultimately show ?thesis by blast
qed

section \<open>Credentials\<close>

lemma start_share_checked:
  assumes "start_share cwd is_dir bind cert cfg = Inr s"
  shows "share_refusal cwd is_dir cfg = None" and "rs_host s = rc_host cfg"
    and "rs_share s = (rc_share cfg)\<lparr>sc_root := sc_root (rs_share s)\<rparr>"
  using assms by (auto simp: start_share_def split: option.splits sum.splits)

text \<open>C12: 
  C1: A share that other machines can reach answers nothing without the user name and password it was given,
  both of which are set, unless it was started with the flag that waives them; and a read-only share
  hands on only methods that cannot change a file.
\<close>
theorem open_share_wants_credentials:
  assumes "start_share cwd is_dir bind cert cfg = Inr s" and "\<not> is_loopback_host (rs_host s)" and "\<not> rc_insecure cfg"
    and "share_handle disk cwd (rs_share s) r = a" and "a \<noteq> SaUnauthorized"
  shows "sq_auth r = Some (sc_username (rc_share cfg), sc_password (rc_share cfg)) \<and>
    sc_username (rc_share cfg) \<noteq> [] \<and> sc_password (rc_share cfg) \<noteq> [] \<and>
    (\<forall>p. a = SaDav p \<and> sc_read_only (rc_share cfg) \<longrightarrow> sq_method r \<in> {''GET'', ''HEAD'', ''OPTIONS'', ''PROPFIND''})"
proof -
  from start_share_checked [OF assms(1)] have n: "share_refusal cwd is_dir cfg = None" "rs_host s = rc_host cfg"
    "sc_username (rs_share s) = sc_username (rc_share cfg)" "sc_password (rs_share s) = sc_password (rc_share cfg)"
    "sc_read_only (rs_share s) = sc_read_only (rc_share cfg)"
    by (simp_all, (metis share_config.select_convs share_config.surjective share_config.update_convs)+)
  from n(1,2) assms(2,3) have "sc_username (rc_share cfg) \<noteq> []" "sc_password (rc_share cfg) \<noteq> []"
    by (auto simp: share_refusal_def split: option.splits if_splits)
  moreover from this assms(4,5) n have "sq_auth r = Some (sc_username (rc_share cfg), sc_password (rc_share cfg))"
    by (auto simp: share_handle_def basic_auth_ok_def split: if_splits)
  moreover have "sq_method r \<in> {''GET'', ''HEAD'', ''OPTIONS'', ''PROPFIND''}" if "a = SaDav p" "sc_read_only (rc_share cfg)" for p
    using that assms(4) n
    by (auto simp: share_handle_def share_mux_def method_allowed_def read_only_methods_def zip_handler_def browse_handler_def Let_def
        split: if_splits option.splits list.splits sum.splits prod.splits)
  ultimately show ?thesis by blast
qed

definition lan_share :: run_config where
  "lan_share = \<lparr>rc_share = sample_share\<lparr>sc_username := ''u'', sc_password := ''p''\<rparr>, rc_host = ''0.0.0.0'', rc_port = 8080,
     rc_self_signed = False, rc_insecure = False\<rparr>"

definition dav_get :: share_request where
  "dav_get = \<lparr>sq_auth = Some (''u'', ''p''), sq_method = ''GET'', sq_path = ''/dav/a'', sq_dir = [], sq_form = None\<rparr>"

theorem open_share_wants_credentials_witness:
  "map_sum id (\<lambda>s. share_handle (sample_disk []) None (rs_share s) dav_get) (start_share None (\<lambda>_. True) Inr None lan_share) = Inr (SaDav ''/a'') \<and>
   sq_auth dav_get = Some (sc_username (rc_share lan_share), sc_password (rc_share lan_share))"
proof -
  obtain s where s: "start_share None (\<lambda>_. True) Inr None lan_share = Inr s"
    "share_handle (sample_disk []) None (rs_share s) dav_get = SaDav ''/a''" "rs_host s = ''0.0.0.0''"
  proof -
    have "case start_share None (\<lambda>_. True) Inr None lan_share of Inl _ \<Rightarrow> False
        | Inr s \<Rightarrow> share_handle (sample_disk []) None (rs_share s) dav_get = SaDav ''/a'' \<and> rs_host s = ''0.0.0.0''" by code_simp
    then show thesis using that by (auto split: sum.splits)
  qed
  have l: "\<not> is_loopback_host ''0.0.0.0''" "\<not> rc_insecure lan_share" by code_simp+
  from open_share_wants_credentials [OF s(1) _ _ s(2)] s l show ?thesis by simp
qed

text \<open>The port that is bound is one of the twenty from the one asked for on, when binding gives what it is asked for.\<close>

lemma listen_from_port:
  "listen_from bind port i n err = Inr p \<Longrightarrow> (\<And>q p. bind q = Inr p \<Longrightarrow> q \<noteq> 0 \<Longrightarrow> p = q) \<Longrightarrow> 0 < port \<Longrightarrow>
   port + int i \<le> p \<and> p < port + int i + int n"
proof (induction n arbitrary: i err)
  case (Suc n)
  show ?case
  proof (cases "bind (port + int i)")
    case (Inl e)
    then have "listen_from bind port (Suc i) n (Some e) = Inr p" using Suc.prems(1,3) by (auto split: if_splits)
    from Suc.IH [OF this Suc.prems(2,3)] show ?thesis by simp
  next
    case (Inr q)
    then show ?thesis using Suc.prems(1) Suc.prems(2) [OF Inr] Suc.prems(3) by auto
  qed
qed simp

text \<open>\<^verbatim>\<open>New\<close> says that credentials are asked for if both are set; they are if either is.\<close>

lemma one_credential_is_enough_to_ask:
  "sc_username cfg \<noteq> [] \<Longrightarrow> sq_auth r = None \<Longrightarrow> share_handle disk cwd cfg r = SaUnauthorized"
  by (simp add: share_handle_def basic_auth_ok_def)

section \<open>Archives\<close>

text \<open>No name comes twice in an archive, however the selections overlap.\<close>

lemma add_to_zip_distinct: "distinct (map fst out) \<Longrightarrow> add_to_zip base ns out = (ok, out') \<Longrightarrow> distinct (map fst out')"
  by (induction base ns out rule: add_to_zip.induct) (auto split: option.splits if_splits sum.splits)

lemma zip_selected_distinct:
  "distinct (map fst out) \<Longrightarrow> zip_selected walk cwd base rels out = (ok, out') \<Longrightarrow> distinct (map fst out')"
proof (induction rels arbitrary: out)
  case (Cons rel rels)
  show ?case
  proof (cases "resolve_under_root cwd base (trim_set {CHR ''/''} rel)")
    case (Inl e)
    then show ?thesis using Cons by simp
  next
    case (Inr a)
    obtain ok1 out1 where z: "add_to_zip base (walk a) out = (ok1, out1)" by fastforce
    from add_to_zip_distinct [OF Cons.prems(1) z] Cons.IH [of out1] Cons.prems(2) Inr z show ?thesis
      by (cases ok1) auto
  qed
qed simp

text \<open>The order of a folder.\<close>

interpretation dir_order: weak_order dir_before
  by unfold_locales (auto simp: dir_before_def split: if_splits)

lemma page_has_every_entry:
  "bw_name ` set (pg_rows (browse_page_of dir es)) = (if dir = [] then {} else {dotdot}) \<union> di_name ` set es"
  by (auto simp: browse_page_of_def parent_row_def entry_row_def Let_def image_iff)

lemma page_folders_first: "sorted_wrt (\<lambda>a b. \<not> dir_before b a) (sort_by dir_before es)"
  by (rule dir_order.sort_ordered)

end
