(* ===== verification/Tools.thy ===== *)
theory Tools
  imports JobFiles
begin

text \<open>
  \<^verbatim>\<open>internal/ghrelease\<close>, \<^verbatim>\<open>internal/ytdlp\<close>, \<^verbatim>\<open>internal/ffmpeg\<close>, \<^verbatim>\<open>internal/jsruntime\<close> and
  \<^verbatim>\<open>internal/selfupdate\<close>: the programs godl downloads, and itself. What GitHub answers, SHA-256, the
  contents of an archive, the programs on the path and the failures of the disk are arguments. Files are
  their contents; times are nanoseconds. Progress lines are left out.
\<close>

section \<open>Releases\<close>

record gh_release =
  gr_tag :: string
  gr_assets :: "(string \<times> string) list"

definition asset_digest :: "gh_release result \<Rightarrow> string \<Rightarrow> string result" where
  "asset_digest rel name =
     (case rel of
        Inl e \<Rightarrow> Inl e
      | Inr r \<Rightarrow>
          (case map_of (gr_assets r) name of
             None \<Rightarrow> Inl (ErrMsg (''asset '' @ name @ '' not found in release metadata''))
           | Some d \<Rightarrow>
               let h = trim_prefix d ''sha256:''
               in if \<not> has_prefix d ''sha256:'' \<or> length h \<noteq> 64
                  then Inl (ErrMsg (''release metadata for '' @ name @ '' has no sha256 digest''))
                  else Inr h))"

definition tag_name :: "gh_release result \<Rightarrow> string result" where
  "tag_name rel =
     (case rel of
        Inl e \<Rightarrow> Inl e
      | Inr r \<Rightarrow> if gr_tag r = [] then Inl (ErrMsg ''release metadata has no tag_name'') else Inr (gr_tag r))"

definition verify_digest :: "string \<Rightarrow> string \<Rightarrow> gerror option" where
  "verify_digest got want =
     (if equal_fold got want then None
      else Some (ErrMsg (''sha256 mismatch: downloaded file doesn'' @ [CHR 0x27] @ ''t match GitHub'' @ [CHR 0x27] @
        ''s published digest (got '' @ got @ '', want '' @ want @ '') '' @ [CHR 0xE2, CHR 0x80, CHR 0x94] @ '' refusing to use it'')))"

section \<open>Downloads\<close>

text \<open>\<open>hf_end\<close> is the error of copying the body, \<open>hf_body\<close> what was copied.\<close>

record http_file =
  hf_status :: int
  hf_text :: string
  hf_body :: string
  hf_end :: "gerror option"

record io_faults =
  io_open :: "gerror option"
  io_close :: "gerror option"
  io_chmod :: "gerror option"
  io_rename :: "gerror option"

type_synonym files = "(string \<times> string) list"

definition first_error :: "gerror option list \<Rightarrow> gerror option" where
  "first_error es = (case filter (\<lambda>e. e \<noteq> None) es of [] \<Rightarrow> None | e # _ \<Rightarrow> e)"

definition download_verified ::
  "(string \<Rightarrow> string) \<Rightarrow> http_file result \<Rightarrow> io_faults \<Rightarrow> string \<Rightarrow> string \<Rightarrow> string \<Rightarrow> files \<Rightarrow> gerror option \<times> files" where
  "download_verified sha resp io dest suffix want fs =
     (case resp of
        Inl e \<Rightarrow> (Some e, fs)
      | Inr r \<Rightarrow>
          if hf_status r \<noteq> 200 then (Some (ErrMsg (''unexpected status: '' @ hf_text r)), fs)
          else case io_open io of
            Some e \<Rightarrow> (Some e, fs)
          | None \<Rightarrow>
              let tmp = dest @ suffix; fs = AList.update tmp (hf_body r) fs
              in case first_error [hf_end r, io_close io, verify_digest (sha (hf_body r)) want, io_chmod io] of
                   Some e \<Rightarrow> (Some e, AList.delete tmp fs)
                 | None \<Rightarrow>
                     (case io_rename io of
                        Some e \<Rightarrow> (Some e, fs)
                      | None \<Rightarrow> (None, AList.update dest (hf_body r) (AList.delete tmp fs))))"

section \<open>The machine\<close>

text \<open>
  A member of an archive is its name and either the error of opening it, or the bytes read from it with the
  error reading ended with. \<open>te_unpack\<close> is what reading an archive gives: its members, and the error it
  ends with. \<open>te_root\<close> is whether godl runs as root.
\<close>

type_synonym member = "string \<times> (string \<times> gerror option) result"

record tool_env =
  te_os :: string
  te_arch :: string
  te_now :: int
  te_look :: "string \<Rightarrow> string option"
  te_data :: "string result"
  te_mkdir :: "gerror option"
  te_release :: "string \<Rightarrow> gh_release result"
  te_fetch :: "string \<Rightarrow> http_file result"
  te_io :: io_faults
  te_temp :: "gerror option"
  te_notes :: bool
  te_sha :: "string \<Rightarrow> string"
  te_unpack :: "string \<Rightarrow> member list \<times> gerror option"
  te_root :: bool

record tools =
  ts_files :: files
  ts_checked :: "(string \<times> int) list"

text \<open>Errors of writing a stamp are ignored.\<close>

definition write_stamp :: "tool_env \<Rightarrow> string \<Rightarrow> tools \<Rightarrow> tools" where
  "write_stamp env p ts = (if te_notes env then ts\<lparr>ts_checked := AList.update p (te_now env) (ts_checked ts)\<rparr> else ts)"

definition is_stale :: "tool_env \<Rightarrow> string \<Rightarrow> int \<Rightarrow> tools \<Rightarrow> bool" where
  "is_stale env p window ts = (case map_of (ts_checked ts) p of None \<Rightarrow> True | Some t \<Rightarrow> window \<le> te_now env - t)"

definition bin_dir :: "string \<Rightarrow> string" where
  "bin_dir data = path_join [data, ''bin'']"

definition in_bin :: "string \<Rightarrow> string \<Rightarrow> string" where
  "in_bin bin name = path_join [bin, name]"

definition installed :: "string \<Rightarrow> tools \<Rightarrow> bool" where
  "installed p ts \<longleftrightarrow> map_of (ts_files ts) p \<noteq> None"

definition wrap_error :: "string \<Rightarrow> gerror \<Rightarrow> gerror" where
  "wrap_error s e = ErrMsg (s @ '': '' @ err_string e)"

section \<open>yt-dlp\<close>

definition ytdlp_api :: string where "ytdlp_api = ''https://api.github.com/repos/yt-dlp/yt-dlp/releases/latest''"
definition ytdlp_base :: string where "ytdlp_base = ''https://github.com/yt-dlp/yt-dlp/releases/latest/download/''"
definition ytdlp_stale_after :: int where "ytdlp_stale_after = 24 * 3600 * 1000000000"

definition ytdlp_asset :: "tool_env \<Rightarrow> string result" where
  "ytdlp_asset env =
     (if te_os env = ''linux'' then Inr (if te_arch env = ''arm64'' then ''yt-dlp_linux_aarch64'' else ''yt-dlp_linux'')
      else if te_os env = ''darwin'' then Inr ''yt-dlp_macos''
      else if te_os env = ''windows'' then Inr ''yt-dlp.exe''
      else Inl (ErrMsg (''no prebuilt yt-dlp binary for '' @ te_os env @ ''/'' @ te_arch env)))"

definition ytdlp_local :: "tool_env \<Rightarrow> string" where
  "ytdlp_local env = (if te_os env = ''windows'' then ''yt-dlp.exe'' else ''yt-dlp'')"

definition ytdlp_fetch :: "tool_env \<Rightarrow> string \<Rightarrow> string \<Rightarrow> string \<Rightarrow> tools \<Rightarrow> gerror option \<times> tools" where
  "ytdlp_fetch env asset p want ts =
     (case download_verified (te_sha env) (te_fetch env (ytdlp_base @ asset)) (te_io env) p ''.part'' want (ts_files ts) of
        (e, fs) \<Rightarrow> (e, ts\<lparr>ts_files := fs\<rparr>))"

definition ytdlp_check :: "tool_env \<Rightarrow> string \<Rightarrow> tools \<Rightarrow> bool result \<times> tools" where
  "ytdlp_check env p ts =
     (case ytdlp_asset env of
        Inl e \<Rightarrow> (Inl e, ts)
      | Inr asset \<Rightarrow>
          (case asset_digest (te_release env ytdlp_api) asset of
             Inl e \<Rightarrow> (Inl e, ts)
           | Inr latest \<Rightarrow>
               if (case map_of (ts_files ts) p of Some c \<Rightarrow> equal_fold (te_sha env c) latest | None \<Rightarrow> False) then (Inr False, ts)
               else case ytdlp_fetch env asset p latest ts of
                   (Some e, ts) \<Rightarrow> (Inl (wrap_error ''updating yt-dlp'' e), ts)
                 | (None, ts) \<Rightarrow> (Inr True, ts)))"

definition ytdlp_maybe_update :: "tool_env \<Rightarrow> string \<Rightarrow> string \<Rightarrow> tools \<Rightarrow> tools" where
  "ytdlp_maybe_update env bin p ts =
     (let stamp = in_bin bin ''yt-dlp.checked''
      in if \<not> is_stale env stamp ytdlp_stale_after ts then ts else snd (ytdlp_check env p (write_stamp env stamp ts)))"

definition ytdlp_ensure :: "tool_env \<Rightarrow> tools \<Rightarrow> string result \<times> tools" where
  "ytdlp_ensure env ts =
     (case te_data env of
        Inl e \<Rightarrow> (Inl e, ts)
      | Inr data \<Rightarrow>
          let bin = bin_dir data; p = in_bin bin (ytdlp_local env)
          in if installed p ts then (Inr p, ytdlp_maybe_update env bin p ts)
             else case ytdlp_asset env of
               Inl e \<Rightarrow>
                 (case te_look env ''yt-dlp'' of
                    Some q \<Rightarrow> (Inr q, ts)
                  | None \<Rightarrow>
                      (Inl (ErrMsg (''no yt-dlp: '' @ err_string e @
                         '', and none on PATH (install it yourself: https://github.com/yt-dlp/yt-dlp#installation)'')), ts))
             | Inr asset \<Rightarrow>
                 (case te_mkdir env of
                    Some e \<Rightarrow> (Inl e, ts)
                  | None \<Rightarrow>
                      (case asset_digest (te_release env ytdlp_api) asset of
                         Inl e \<Rightarrow> (Inl (wrap_error (''looking up yt-dlp'' @ [CHR 0x27] @ ''s published checksum (refusing to download unverified)'') e), ts)
                       | Inr want \<Rightarrow>
                           (case ytdlp_fetch env asset p want ts of
                              (Some e, ts) \<Rightarrow> (Inl (wrap_error ''downloading yt-dlp'' e), ts)
                            | (None, ts) \<Rightarrow> (Inr p, write_stamp env (in_bin bin ''yt-dlp.checked'') ts)))))"

definition ytdlp_force_update :: "tool_env \<Rightarrow> tools \<Rightarrow> bool result \<times> tools" where
  "ytdlp_force_update env ts =
     (case te_data env of
        Inl e \<Rightarrow> (Inl e, ts)
      | Inr data \<Rightarrow>
          let bin = bin_dir data; p = in_bin bin (ytdlp_local env)
          in if \<not> installed p ts
             then (Inl (ErrMsg ''no managed yt-dlp installed yet (run a social download first to install one)''), ts)
             else ytdlp_check env p (write_stamp env (in_bin bin ''yt-dlp.checked'') ts))"

section \<open>Archives\<close>

definition write_executable :: "io_faults \<Rightarrow> string \<Rightarrow> string \<times> gerror option \<Rightarrow> files \<Rightarrow> gerror option \<times> files" where
  "write_executable io dest c fs =
     (case io_open io of
        Some e \<Rightarrow> (Some e, fs)
      | None \<Rightarrow>
          let tmp = dest @ ''.part''; fs = AList.update tmp (fst c) fs
          in case first_error [snd c, io_close io, io_chmod io] of
               Some e \<Rightarrow> (Some e, AList.delete tmp fs)
             | None \<Rightarrow>
                 (case io_rename io of
                    Some e \<Rightarrow> (Some e, fs)
                  | None \<Rightarrow> (None, AList.update dest (fst c) (AList.delete tmp fs))))"

text \<open>
  Both extractions write the members whose base name is wanted, the first of each. The names that are left
  are printed in the order they were asked for; the code prints them in the order of a map.
\<close>

fun extract_members ::
  "io_faults \<Rightarrow> gerror option \<Rightarrow> string \<Rightarrow> string list \<Rightarrow> member list \<Rightarrow> files \<Rightarrow> gerror option \<times> files" where
  "extract_members io fail bin [] ms fs = (None, fs)"
| "extract_members io fail bin (w # ws) [] fs =
     (Some (case fail of
        Some e \<Rightarrow> e
      | None \<Rightarrow> ErrMsg (''archive missing expected file(s): ['' @ join_with '' '' (w # ws) @ '']'')), fs)"
| "extract_members io fail bin (w # ws) ((n, m) # ms) fs =
     (let b = path_base n
      in if b \<notin> set (w # ws) then extract_members io fail bin (w # ws) ms fs
         else case m of
           Inl e \<Rightarrow> (Some e, fs)
         | Inr c \<Rightarrow>
             (case write_executable io (in_bin bin b) c fs of
                (Some e, fs) \<Rightarrow> (Some e, fs)
              | (None, fs) \<Rightarrow> extract_members io fail bin (remove1 b (w # ws)) ms fs))"

definition extract_tar_xz :: "io_faults \<Rightarrow> member list \<times> gerror option \<Rightarrow> string \<Rightarrow> string list \<Rightarrow> files \<Rightarrow> gerror option \<times> files" where
  "extract_tar_xz io a bin want fs = extract_members io (snd a) bin want (fst a) fs"

text \<open>A zip has its list of members at hand before any is read, so its error comes first.\<close>

definition extract_zip :: "io_faults \<Rightarrow> member list \<times> gerror option \<Rightarrow> string \<Rightarrow> string list \<Rightarrow> files \<Rightarrow> gerror option \<times> files" where
  "extract_zip io a bin want fs =
     (case snd a of Some e \<Rightarrow> (Some e, fs) | None \<Rightarrow> extract_members io None bin want (fst a) fs)"

section \<open>ffmpeg\<close>

definition ffmpeg_api :: string where "ffmpeg_api = ''https://api.github.com/repos/BtbN/FFmpeg-Builds/releases/latest''"
definition ffmpeg_base :: string where "ffmpeg_base = ''https://github.com/BtbN/FFmpeg-Builds/releases/download/latest/''"
definition ffmpeg_stale_after :: int where "ffmpeg_stale_after = 7 * 24 * 3600 * 1000000000"

definition ffmpeg_names :: "tool_env \<Rightarrow> string \<times> string" where
  "ffmpeg_names env = (if te_os env = ''windows'' then (''ffmpeg.exe'', ''ffprobe.exe'') else (''ffmpeg'', ''ffprobe''))"

text \<open>The file, and whether it is a zip.\<close>

definition ffmpeg_asset :: "tool_env \<Rightarrow> (string \<times> bool) result" where
  "ffmpeg_asset env =
     (if te_arch env = ''amd64'' \<and> te_os env = ''linux'' then Inr (''ffmpeg-master-latest-linux64-gpl.tar.xz'', False)
      else if te_arch env = ''amd64'' \<and> te_os env = ''windows'' then Inr (''ffmpeg-master-latest-win64-gpl.zip'', True)
      else Inl (ErrMsg (''no prebuilt ffmpeg for '' @ te_os env @ ''/'' @ te_arch env)))"

definition ffmpeg_system_dir :: "tool_env \<Rightarrow> string option" where
  "ffmpeg_system_dir env =
     (case ffmpeg_names env of
        (ff, fp) \<Rightarrow>
          (case te_look env ff of
             None \<Rightarrow> None
           | Some p \<Rightarrow> (case te_look env fp of None \<Rightarrow> None | Some _ \<Rightarrow> Some (path_dir p))))"

definition install_archive :: "tool_env \<Rightarrow> string \<Rightarrow> string \<times> bool \<Rightarrow> string \<Rightarrow> string list \<Rightarrow> tools \<Rightarrow> gerror option \<times> tools" where
  "install_archive env bin a want_hex want ts =
     (case te_fetch env (ffmpeg_base @ fst a) of
        Inl e \<Rightarrow> (Some (wrap_error ''downloading ffmpeg'' e), ts)
      | Inr r \<Rightarrow>
          if hf_status r \<noteq> 200 then (Some (ErrMsg (''downloading ffmpeg: unexpected status: '' @ hf_text r)), ts)
          else case te_temp env of
            Some e \<Rightarrow> (Some e, ts)
          | None \<Rightarrow>
              (case hf_end r of
                 Some e \<Rightarrow> (Some (wrap_error ''downloading ffmpeg'' e), ts)
               | None \<Rightarrow>
                   (case first_error [io_close (te_io env), verify_digest (te_sha env (hf_body r)) want_hex] of
                      Some e \<Rightarrow> (Some e, ts)
                    | None \<Rightarrow>
                        (case (if snd a then extract_zip else extract_tar_xz) (te_io env) (te_unpack env (hf_body r)) bin want (ts_files ts) of
                           (e, fs) \<Rightarrow> (map_option (wrap_error ''extracting ffmpeg'') e, ts\<lparr>ts_files := fs\<rparr>)))))"

definition write_version :: "tool_env \<Rightarrow> string \<Rightarrow> string \<Rightarrow> tools \<Rightarrow> tools" where
  "write_version env bin v ts =
     (if te_notes env then ts\<lparr>ts_files := AList.update (in_bin bin ''ffmpeg.version'') v (ts_files ts)\<rparr> else ts)"

definition ffmpeg_want :: "tool_env \<Rightarrow> string list" where
  "ffmpeg_want env = [fst (ffmpeg_names env), snd (ffmpeg_names env)]"

definition ffmpeg_check :: "tool_env \<Rightarrow> string \<Rightarrow> tools \<Rightarrow> bool result \<times> tools" where
  "ffmpeg_check env bin ts =
     (case ffmpeg_asset env of
        Inl e \<Rightarrow> (Inl e, ts)
      | Inr a \<Rightarrow>
          (case asset_digest (te_release env ffmpeg_api) (fst a) of
             Inl e \<Rightarrow> (Inl e, ts)
           | Inr latest \<Rightarrow>
               if (case map_of (ts_files ts) (in_bin bin ''ffmpeg.version'') of
                     Some v \<Rightarrow> equal_fold (trim_space v) latest | None \<Rightarrow> False) then (Inr False, ts)
               else case install_archive env bin a latest (ffmpeg_want env) ts of
                   (Some e, ts) \<Rightarrow> (Inl (wrap_error ''updating ffmpeg'' e), ts)
                 | (None, ts) \<Rightarrow> (Inr True, write_version env bin latest ts)))"

definition ffmpeg_maybe_update :: "tool_env \<Rightarrow> string \<Rightarrow> tools \<Rightarrow> tools" where
  "ffmpeg_maybe_update env bin ts =
     (let stamp = in_bin bin ''ffmpeg.checked''
      in if \<not> is_stale env stamp ffmpeg_stale_after ts then ts else snd (ffmpeg_check env bin (write_stamp env stamp ts)))"

definition ffmpeg_ensure :: "tool_env \<Rightarrow> tools \<Rightarrow> string result \<times> tools" where
  "ffmpeg_ensure env ts =
     (case te_data env of
        Inl e \<Rightarrow> (Inl e, ts)
      | Inr data \<Rightarrow>
          let bin = bin_dir data
          in if installed (in_bin bin (fst (ffmpeg_names env))) ts then (Inr bin, ffmpeg_maybe_update env bin ts)
             else case ffmpeg_asset env of
               Inl e \<Rightarrow>
                 (case ffmpeg_system_dir env of
                    Some d \<Rightarrow> (Inr d, ts)
                  | None \<Rightarrow>
                      (Inl (ErrMsg (''no ffmpeg: '' @ err_string e @
                         '', and none on PATH (install it yourself, e.g. via your OS package manager)'')), ts))
             | Inr a \<Rightarrow>
                 (case te_mkdir env of
                    Some e \<Rightarrow> (Inl e, ts)
                  | None \<Rightarrow>
                      (case asset_digest (te_release env ffmpeg_api) (fst a) of
                         Inl e \<Rightarrow> (Inl (wrap_error (''looking up ffmpeg'' @ [CHR 0x27] @ ''s published checksum (refusing to download unverified)'') e), ts)
                       | Inr want \<Rightarrow>
                           (case install_archive env bin a want (ffmpeg_want env) ts of
                              (Some e, ts) \<Rightarrow> (Inl e, ts)
                            | (None, ts) \<Rightarrow>
                                (Inr bin, write_stamp env (in_bin bin ''ffmpeg.checked'') (write_version env bin want ts))))))"

definition ffmpeg_force_update :: "tool_env \<Rightarrow> tools \<Rightarrow> bool result \<times> tools" where
  "ffmpeg_force_update env ts =
     (case te_data env of
        Inl e \<Rightarrow> (Inl e, ts)
      | Inr data \<Rightarrow>
          let bin = bin_dir data
          in if \<not> installed (in_bin bin (fst (ffmpeg_names env))) ts
             then (Inl (ErrMsg ''no managed ffmpeg installed yet (run a social download first to install one)''), ts)
             else ffmpeg_check env bin (write_stamp env (in_bin bin ''ffmpeg.checked'') ts))"

section \<open>A JavaScript runtime\<close>

definition deno_api :: string where "deno_api = ''https://api.github.com/repos/denoland/deno/releases/latest''"
definition deno_base :: string where "deno_base = ''https://github.com/denoland/deno/releases/latest/download/''"

definition deno_name :: "tool_env \<Rightarrow> string" where
  "deno_name env = (if te_os env = ''windows'' then ''deno.exe'' else ''deno'')"

definition deno_targets :: "(string \<times> string) list" where
  "deno_targets =
     [(''linux/amd64'', ''x86_64-unknown-linux-gnu''),
      (''linux/arm64'', ''aarch64-unknown-linux-gnu''),
      (''darwin/amd64'', ''x86_64-apple-darwin''),
      (''darwin/arm64'', ''aarch64-apple-darwin''),
      (''windows/amd64'', ''x86_64-pc-windows-msvc''),
      (''windows/arm64'', ''aarch64-pc-windows-msvc'')]"

definition te_platform :: "tool_env \<Rightarrow> string" where
  "te_platform env = te_os env @ ''/'' @ te_arch env"

definition deno_asset :: "tool_env \<Rightarrow> string result" where
  "deno_asset env =
     (case map_of deno_targets (te_platform env) of
        None \<Rightarrow> Inl (ErrMsg (''no deno build for '' @ te_platform env))
      | Some t \<Rightarrow> Inr (''deno-'' @ t @ ''.zip''))"

text \<open>The file is created with its mode, so nothing is asked of \<open>io_chmod\<close>.\<close>

fun deno_extract :: "tool_env \<Rightarrow> member list \<Rightarrow> string \<Rightarrow> files \<Rightarrow> gerror option \<times> files" where
  "deno_extract env [] dest fs = (Some (ErrMsg (deno_name env @ '' not found in the archive'')), fs)"
| "deno_extract env ((n, m) # ms) dest fs =
     (if path_base n \<noteq> deno_name env then deno_extract env ms dest fs
      else case m of
        Inl e \<Rightarrow> (Some e, fs)
      | Inr c \<Rightarrow> write_executable ((te_io env)\<lparr>io_chmod := None\<rparr>) dest c fs)"

definition deno_install :: "tool_env \<Rightarrow> string \<Rightarrow> tools \<Rightarrow> gerror option \<times> tools" where
  "deno_install env bin ts =
     (case deno_asset env of
        Inl e \<Rightarrow> (Some e, ts)
      | Inr asset \<Rightarrow>
          (case asset_digest (te_release env deno_api) asset of
             Inl e \<Rightarrow> (Some (wrap_error (''looking up deno'' @ [CHR 0x27] @ ''s published checksum (refusing to install unverified)'') e), ts)
           | Inr want \<Rightarrow>
               (case te_fetch env (deno_base @ asset) of
                  Inl e \<Rightarrow> (Some (wrap_error ''downloading deno'' e), ts)
                | Inr r \<Rightarrow>
                    if hf_status r \<noteq> 200 then (Some (ErrMsg (''downloading deno: '' @ hf_text r)), ts)
                    else case te_temp env of
                      Some e \<Rightarrow> (Some e, ts)
                    | None \<Rightarrow>
                        (case first_error [hf_end r, io_close (te_io env)] of
                           Some e \<Rightarrow> (Some (wrap_error ''downloading deno'' e), ts)
                         | None \<Rightarrow>
                             (case verify_digest (te_sha env (hf_body r)) want of
                                Some e \<Rightarrow> (Some e, ts)
                              | None \<Rightarrow>
                                  (case te_unpack env (hf_body r) of
                                     (_, Some e) \<Rightarrow> (Some (wrap_error ''unpacking deno'' e), ts)
                                   | (ms, None) \<Rightarrow>
                                       (case deno_extract env ms (in_bin bin (deno_name env)) (ts_files ts) of
                                          (e, fs) \<Rightarrow> (map_option (wrap_error ''unpacking deno'') e, ts\<lparr>ts_files := fs\<rparr>))))))))"

fun first_runtime :: "tool_env \<Rightarrow> string list \<Rightarrow> (string \<times> string) option" where
  "first_runtime env [] = None"
| "first_runtime env (n # ns) = (case te_look env n of Some p \<Rightarrow> Some (n, p) | None \<Rightarrow> first_runtime env ns)"

definition find_runtime :: "tool_env \<Rightarrow> tools \<Rightarrow> (string \<times> string) result \<times> tools" where
  "find_runtime env ts =
     (case first_runtime env [''deno'', ''node'', ''bun''] of
        Some np \<Rightarrow> (Inr np, ts)
      | None \<Rightarrow>
          (case te_data env of
             Inl e \<Rightarrow> (Inl e, ts)
           | Inr data \<Rightarrow>
               (case te_mkdir env of
                  Some e \<Rightarrow> (Inl e, ts)
                | None \<Rightarrow>
                    let bin = bin_dir data; dest = in_bin bin (deno_name env)
                    in if installed dest ts then (Inr (''deno'', dest), ts)
                       else case deno_install env bin ts of
                           (Some e, ts) \<Rightarrow> (Inl e, ts)
                         | (None, ts) \<Rightarrow> (Inr (''deno'', dest), ts))))"

definition runtime_args :: "tool_env \<Rightarrow> tools \<Rightarrow> string list \<times> tools" where
  "runtime_args env ts =
     (case find_runtime env ts of
        (Inl e, ts) \<Rightarrow> ([], ts)
      | (Inr (name, p), ts) \<Rightarrow> ([''--js-runtimes'', name @ '':'' @ p], ts))"

section \<open>godl itself\<close>

definition self_api :: string where "self_api = ''https://api.github.com/repos/haritejakoduri/godl/releases/latest''"

definition self_base :: "string \<Rightarrow> string" where
  "self_base tag = ''https://github.com/haritejakoduri/godl/releases/download/'' @ tag @ ''/''"

definition raw_assets :: "(string \<times> string) list" where
  "raw_assets =
     [(''linux/amd64'', ''linux-amd64''),
      (''linux/arm64'', ''linux-arm64''),
      (''linux/arm'', ''linux-armv7''),
      (''darwin/amd64'', ''darwin-amd64''),
      (''darwin/arm64'', ''darwin-arm64'')]"

definition self_asset :: "tool_env \<Rightarrow> string \<Rightarrow> string option" where
  "self_asset env ver = map_option (\<lambda>suf. ''godl-'' @ ver @ ''-'' @ suf) (map_of raw_assets (te_platform env))"

definition package_managed :: "tool_env \<Rightarrow> string \<Rightarrow> bool" where
  "package_managed env exe \<longleftrightarrow> te_os env = ''linux'' \<and> exe = ''/usr/bin/godl''"

definition rpm_arches :: "(string \<times> string) list" where
  "rpm_arches = [(''amd64'', ''x86_64''), (''arm64'', ''aarch64'')]"

definition rpm_asset :: "tool_env \<Rightarrow> string \<Rightarrow> string option" where
  "rpm_asset env ver = map_option (\<lambda>a. ''godl-'' @ ver @ ''-1.'' @ a @ ''.rpm'') (map_of rpm_arches (te_arch env))"

text \<open>\<open>rq\<close> is the answer of the package database; \<open>run\<close> the command run with godl's own terminal.\<close>

definition rpm_owned :: "string result \<Rightarrow> bool" where
  "rpm_owned rq \<longleftrightarrow> rq = Inr ''godl''"

definition install_argv :: "tool_env \<Rightarrow> string \<Rightarrow> string list result" where
  "install_argv env p =
     (let argv = (if te_look env ''dnf'' \<noteq> None then [''dnf'', ''install'', ''-y'', p] else [''rpm'', ''-U'', p])
      in if te_root env then Inr argv
         else if te_look env ''sudo'' \<noteq> None then Inr (''sudo'' # argv)
         else if te_look env ''pkexec'' \<noteq> None then Inr (''pkexec'' # argv)
         else Inl (ErrMsg (''installing a package needs root, and neither sudo nor pkexec is available '' @
           [CHR 0xE2, CHR 0x80, CHR 0x94] @ '' re-run \"godl update\" as root'')))"

definition install_rpm :: "tool_env \<Rightarrow> (string list \<Rightarrow> gerror option) \<Rightarrow> string \<Rightarrow> gerror option" where
  "install_rpm env run p =
     (case install_argv env p of
        Inl e \<Rightarrow> Some e
      | Inr argv \<Rightarrow> map_option (wrap_error (join_with '' '' argv)) (run argv))"

datatype update_result = AlreadyLatest | Updated | Unsupported | ManagedInstall

text \<open>\<open>su_given\<close> is the command the package manager was run with, and the content of the package.\<close>

record self_update =
  su_result :: update_result
  su_latest :: string
  su_error :: "gerror option"
  su_files :: files
  su_given :: "(string list \<times> string) option"

definition checksum_error :: "gerror \<Rightarrow> gerror" where
  "checksum_error = wrap_error (''looking up godl'' @ [CHR 0x27] @ ''s published checksum (refusing to update unverified)'')"

definition rpm_given :: "tool_env \<Rightarrow> string \<Rightarrow> files \<Rightarrow> (string list \<times> string) option" where
  "rpm_given env p fs =
     (case install_argv env p of
        Inl _ \<Rightarrow> None
      | Inr argv \<Rightarrow> map_option (\<lambda>c. (argv, c)) (map_of fs p))"

text \<open>\<open>dir\<close> is the throwaway directory, removed at the end.\<close>

definition update_rpm ::
  "tool_env \<Rightarrow> string result \<Rightarrow> (string list \<Rightarrow> gerror option) \<Rightarrow> string \<Rightarrow> string \<Rightarrow> files \<Rightarrow> self_update" where
  "update_rpm env dir run tag latest fs =
     (let give = (\<lambda>res e g. \<lparr>su_result = res, su_latest = latest, su_error = e, su_files = fs, su_given = g\<rparr>);
          fail = (\<lambda>e. give Unsupported (Some (wrap_error ''updating godl'' e)) None)
      in case rpm_asset env latest of
           None \<Rightarrow> give Unsupported None None
         | Some asset \<Rightarrow>
             (case asset_digest (te_release env self_api) asset of
                Inl e \<Rightarrow> give Unsupported (Some (checksum_error e)) None
              | Inr want \<Rightarrow>
                  (case dir of
                     Inl e \<Rightarrow> fail e
                   | Inr d \<Rightarrow>
                       let p = path_join [d, asset]
                       in case download_verified (te_sha env) (te_fetch env (self_base tag @ asset)) (te_io env) p ''.part'' want [] of
                            (Some e, _) \<Rightarrow> fail e
                          | (None, tmp) \<Rightarrow>
                              (case install_rpm env run p of
                                 Some e \<Rightarrow> give Unsupported (Some (wrap_error ''updating godl'' e)) (rpm_given env p tmp)
                               | None \<Rightarrow> give Updated None (rpm_given env p tmp)))))"

text \<open>
  \<open>exe\<close> is the program's own path, its links resolved; \<open>ver\<close> the running version. GitHub is asked twice,
  first for the tag: \<open>rt\<close> is its first answer.
\<close>

definition self_force_update ::
  "tool_env \<Rightarrow> string result \<Rightarrow> string result \<Rightarrow> gh_release result \<Rightarrow> string result \<Rightarrow> (string list \<Rightarrow> gerror option) \<Rightarrow> string \<Rightarrow> files \<Rightarrow> self_update" where
  "self_force_update env exe rq rt dir run ver fs =
     (let give = (\<lambda>res latest e fs. \<lparr>su_result = res, su_latest = latest, su_error = e, su_files = fs, su_given = None\<rparr>)
      in case exe of
           Inl e \<Rightarrow> give Unsupported [] (Some (wrap_error ''locating the running godl binary'' e)) fs
         | Inr p \<Rightarrow>
             if package_managed env p \<and> \<not> rpm_owned rq then give ManagedInstall [] None fs
             else case tag_name rt of
               Inl e \<Rightarrow> give Unsupported [] (Some (wrap_error ''checking the latest godl release'' e)) fs
             | Inr tag \<Rightarrow>
                 let latest = trim_prefix tag ''v''
                 in if latest = ver then give AlreadyLatest latest None fs
                    else if package_managed env p then update_rpm env dir run tag latest fs
                    else case self_asset env latest of
                      None \<Rightarrow> give Unsupported latest None fs
                    | Some asset \<Rightarrow>
                        (case asset_digest (te_release env self_api) asset of
                           Inl e \<Rightarrow> give Unsupported latest (Some (checksum_error e)) fs
                         | Inr want \<Rightarrow>
                             (case download_verified (te_sha env) (te_fetch env (self_base tag @ asset)) (te_io env) p ''.new'' want fs of
                                (Some e, fs) \<Rightarrow> give Unsupported latest (Some (wrap_error ''updating godl'' e)) fs
                              | (None, fs) \<Rightarrow> give Updated latest None fs)))"

end
