(* ===== verification/ToolsProps.thy ===== *)
theory ToolsProps
  imports Tools
begin

text \<open>
  Nothing that was not verified is installed: a download appears under its name only with the digest GitHub
  published, in every run of installs and updates each tool on the disk was published by a release, and
  godl replaces itself, or gives the package manager a package, only so.
\<close>

section \<open>One download\<close>

lemma first_error_None [simp]: "first_error es = None \<longleftrightarrow> (\<forall>e \<in> set es. e = None)"
  by (auto simp: first_error_def filter_empty_conv filter_eq_Cons_iff split: list.splits)

lemma verify_digest_None [simp]: "verify_digest got want = None \<longleftrightarrow> equal_fold got want"
  by (simp add: verify_digest_def)

lemma download_kept:
  assumes "download_verified sha resp io dest suf want fs = (e, fs')" "p \<noteq> dest @ suf" "p \<noteq> dest \<or> e \<noteq> None"
  shows "map_of fs' p = map_of fs p"
  using assms
  by (auto simp: download_verified_def Let_def update_conv' delete_conv' split: sum.splits if_splits option.splits)

lemma download_placed:
  assumes "download_verified sha resp io dest suf want fs = (None, fs')" "suf \<noteq> []"
  shows "\<exists>r. resp = Inr r \<and> hf_status r = 200 \<and> hf_end r = None \<and> equal_fold (sha (hf_body r)) want \<and>
    map_of fs' dest = Some (hf_body r) \<and> map_of fs' (dest @ suf) = None"
  using assms
  by (auto simp: download_verified_def Let_def update_conv' delete_conv' split: sum.splits if_splits option.splits)

text \<open>
  C1: a verified download (\<open>ghrelease.DownloadVerified\<close>) is all or nothing. When it fails, whatever was at the
  destination is as it was; when it succeeds the destination holds the whole body of a 200 answer whose SHA-256
  is the wanted digest, and the temporary file is gone. No other file is touched.
\<close>

theorem download_all_or_nothing:
  assumes "download_verified sha resp io dest suf want fs = (e, fs')" "suf \<noteq> []"
  shows "(e \<noteq> None \<longrightarrow> map_of fs' dest = map_of fs dest) \<and>
    (e = None \<longrightarrow> (case resp of Inl _ \<Rightarrow> False
      | Inr r \<Rightarrow> hf_status r = 200 \<and> hf_end r = None \<and> equal_fold (sha (hf_body r)) want \<and>
                 map_of fs' dest = Some (hf_body r) \<and> map_of fs' (dest @ suf) = None)) \<and>
    (\<forall>p. p \<noteq> dest \<longrightarrow> p \<noteq> dest @ suf \<longrightarrow> map_of fs' p = map_of fs p)"
proof (intro conjI impI allI)
  assume "e \<noteq> None"
  then show "map_of fs' dest = map_of fs dest"
    using assms(2) by (intro download_kept [OF assms(1)]) auto
next
  assume "e = None"
  with assms obtain r where "resp = Inr r" "hf_status r = 200" "hf_end r = None" "equal_fold (sha (hf_body r)) want"
    "map_of fs' dest = Some (hf_body r)" "map_of fs' (dest @ suf) = None"
    using download_placed by blast
  then show "case resp of Inl _ \<Rightarrow> False
      | Inr r \<Rightarrow> hf_status r = 200 \<and> hf_end r = None \<and> equal_fold (sha (hf_body r)) want \<and>
                 map_of fs' dest = Some (hf_body r) \<and> map_of fs' (dest @ suf) = None"
    by simp
next
  fix p
  assume "p \<noteq> dest" "p \<noteq> dest @ suf"
  then show "map_of fs' p = map_of fs p"
    by (intro download_kept [OF assms(1)]) auto
qed

definition io_ok :: io_faults where
  "io_ok = \<lparr>io_open = None, io_close = None, io_chmod = None, io_rename = None\<rparr>"

definition http_ok :: "string \<Rightarrow> http_file" where
  "http_ok b = \<lparr>hf_status = 200, hf_text = ''200 OK'', hf_body = b, hf_end = None\<rparr>"

lemma download_all_or_nothing_witness:
  "map_of (snd (download_verified id (Inr (http_ok ''AB'')) io_ok ''g'' ''.new'' ''ab'' [(''g'', ''old'')])) ''g'' = Some ''AB'' \<and>
   map_of (snd (download_verified id (Inr (http_ok ''AC'')) io_ok ''g'' ''.new'' ''ab'' [(''g'', ''old'')])) ''g'' = Some ''old''"
proof -
  have A: "download_verified id (Inr (http_ok ''AB'')) io_ok ''g'' ''.new'' ''ab'' [(''g'', ''old'')] =
      (None, snd (download_verified id (Inr (http_ok ''AB'')) io_ok ''g'' ''.new'' ''ab'' [(''g'', ''old'')]))"
    by code_simp
  have B: "download_verified id (Inr (http_ok ''AC'')) io_ok ''g'' ''.new'' ''ab'' [(''g'', ''old'')] =
      (verify_digest ''AC'' ''ab'', snd (download_verified id (Inr (http_ok ''AC'')) io_ok ''g'' ''.new'' ''ab'' [(''g'', ''old'')]))"
    by code_simp
  have "verify_digest ''AC'' ''ab'' \<noteq> None" by code_simp
  then show ?thesis
    using download_all_or_nothing [OF A] download_all_or_nothing [OF B] by (simp add: http_ok_def)
qed

section \<open>What a release vouches for\<close>

text \<open>
  \<open>published\<close> is the digest of a file of a release; an archive vouches for what its members read as.
\<close>

definition published :: "tool_env \<Rightarrow> string \<Rightarrow> string \<Rightarrow> string \<Rightarrow> bool" where
  "published env api asset c =
     (case asset_digest (te_release env api) asset of Inl _ \<Rightarrow> False | Inr d \<Rightarrow> equal_fold (te_sha env c) d)"

definition archived :: "tool_env \<Rightarrow> string \<Rightarrow> string \<Rightarrow> string \<Rightarrow> string \<Rightarrow> string \<Rightarrow> bool" where
  "archived env api url asset b c =
     (case te_fetch env (url @ asset) of
        Inl _ \<Rightarrow> False
      | Inr r \<Rightarrow> published env api asset (hf_body r) \<and>
                 list_ex (\<lambda>(n, m). path_base n = b \<and> m = Inr (c, None)) (fst (te_unpack env (hf_body r))))"

definition ytdlp_vouched :: "tool_env \<Rightarrow> string \<Rightarrow> bool" where
  "ytdlp_vouched env c = (case ytdlp_asset env of Inl _ \<Rightarrow> False | Inr a \<Rightarrow> published env ytdlp_api a c)"

definition ffmpeg_vouched :: "tool_env \<Rightarrow> string \<Rightarrow> string \<Rightarrow> bool" where
  "ffmpeg_vouched env b c =
     (case ffmpeg_asset env of Inl _ \<Rightarrow> False | Inr a \<Rightarrow> archived env ffmpeg_api ffmpeg_base (fst a) b c)"

definition deno_vouched :: "tool_env \<Rightarrow> string \<Rightarrow> bool" where
  "deno_vouched env c =
     (case deno_asset env of Inl _ \<Rightarrow> False | Inr a \<Rightarrow> archived env deno_api deno_base a (deno_name env) c)"

text \<open>\<open>vouched\<close>: the file at \<open>p\<close> is a tool under its own name, and a release vouches for its content.\<close>

definition vouched :: "tool_env \<Rightarrow> string \<Rightarrow> string \<Rightarrow> bool" where
  "vouched env p c =
     (case te_data env of
        Inl _ \<Rightarrow> False
      | Inr data \<Rightarrow>
          (p = in_bin (bin_dir data) (ytdlp_local env) \<and> ytdlp_vouched env c) \<or>
          list_ex (\<lambda>b. p = in_bin (bin_dir data) b \<and> ffmpeg_vouched env b c) (ffmpeg_want env) \<or>
          (p = in_bin (bin_dir data) (deno_name env) \<and> deno_vouched env c))"

text \<open>Temporary files, and the note of the version of ffmpeg, are no tools.\<close>

definition no_tool :: "tool_env \<Rightarrow> string \<Rightarrow> bool" where
  "no_tool env p \<longleftrightarrow> has_suffix p ''.part'' \<or>
     (case te_data env of Inl _ \<Rightarrow> False | Inr data \<Rightarrow> p = in_bin (bin_dir data) ''ffmpeg.version'')"

definition only_vouched :: "tool_env \<Rightarrow> tools \<Rightarrow> tools \<Rightarrow> bool" where
  "only_vouched env ts ts' \<longleftrightarrow>
     (\<forall>p c. map_of (ts_files ts') p = Some c \<longrightarrow> map_of (ts_files ts) p = Some c \<or> vouched env p c \<or> no_tool env p)"

lemma only_vouched_refl [simp]: "only_vouched env ts ts"
  by (simp add: only_vouched_def)

lemma only_vouched_trans: "only_vouched env ts ts1 \<Longrightarrow> only_vouched env ts1 ts2 \<Longrightarrow> only_vouched env ts ts2"
  by (meson only_vouched_def)

lemma stamp_files [simp]: "ts_files (write_stamp env p ts) = ts_files ts"
  by (simp add: write_stamp_def)

lemma only_vouched_stamp [simp]:
  "only_vouched env ts (write_stamp env p ts') = only_vouched env ts ts'"
  "only_vouched env (write_stamp env p ts) ts' = only_vouched env ts ts'"
  by (simp_all add: only_vouched_def)

lemma only_vouched_version [simp]:
  "te_data env = Inr data \<Longrightarrow> only_vouched env ts ts' \<Longrightarrow> only_vouched env ts (write_version env (bin_dir data) v ts')"
  by (auto simp: only_vouched_def write_version_def no_tool_def update_conv')

section \<open>yt-dlp\<close>

lemma ytdlp_fetch_only:
  assumes "te_data env = Inr data" "ytdlp_asset env = Inr asset" "asset_digest (te_release env ytdlp_api) asset = Inr want"
    "ytdlp_fetch env asset (in_bin (bin_dir data) (ytdlp_local env)) want ts = (e, ts')"
  shows "only_vouched env ts ts'"
  unfolding only_vouched_def
proof (intro allI impI)
  fix p c
  let ?dest = "in_bin (bin_dir data) (ytdlp_local env)"
  assume c: "map_of (ts_files ts') p = Some c"
  obtain fs where d: "download_verified (te_sha env) (te_fetch env (ytdlp_base @ asset)) (te_io env) ?dest ''.part'' want (ts_files ts) = (e, fs)"
    and fs: "ts_files ts' = fs"
    using assms(4) by (auto simp: ytdlp_fetch_def split: prod.splits)
  consider "p = ?dest @ ''.part''" | "p \<noteq> ?dest @ ''.part''" "p \<noteq> ?dest \<or> e \<noteq> None" | "p = ?dest" "e = None"
    by blast
  then show "map_of (ts_files ts) p = Some c \<or> vouched env p c \<or> no_tool env p"
  proof cases
    case 1
    then show ?thesis by (simp add: no_tool_def has_suffix_def)
  next
    case 2
    then show ?thesis using download_kept [OF d] c fs by simp
  next
    case 3
    obtain r :: http_file where "equal_fold (te_sha env (hf_body r)) want" "map_of fs ?dest = Some (hf_body r)"
      using download_placed [OF d [unfolded 3(2)] list.distinct(2)] by blast
    then have "vouched env p c"
      using 3 c fs assms by (simp add: vouched_def ytdlp_vouched_def published_def)
    then show ?thesis by simp
  qed
qed

lemma ytdlp_check_only:
  assumes "te_data env = Inr data"
  shows "only_vouched env ts (snd (ytdlp_check env (in_bin (bin_dir data) (ytdlp_local env)) ts))"
  using assms by (auto simp: ytdlp_check_def split: sum.splits if_splits prod.splits option.splits intro: ytdlp_fetch_only)

lemma ytdlp_check_stamped:
  assumes "te_data env = Inr data"
  shows "only_vouched env ts (snd (ytdlp_check env (in_bin (bin_dir data) (ytdlp_local env)) (write_stamp env q ts)))"
  using ytdlp_check_only [OF assms, of "write_stamp env q ts"] by simp

lemma ytdlp_ensure_only: "only_vouched env ts (snd (ytdlp_ensure env ts))"
  by (auto simp: ytdlp_ensure_def ytdlp_maybe_update_def Let_def ytdlp_check_stamped
      split: sum.splits if_splits prod.splits option.splits intro: ytdlp_fetch_only)

lemma ytdlp_force_update_only: "only_vouched env ts (snd (ytdlp_force_update env ts))"
  by (auto simp: ytdlp_force_update_def Let_def ytdlp_check_stamped split: sum.splits)

section \<open>Archives\<close>

lemma write_executable_only:
  assumes "write_executable io dest m fs = (e, fs')" "map_of fs' p = Some c"
  shows "map_of fs p = Some c \<or> has_suffix p ''.part'' \<or> p = dest \<and> e = None \<and> m = (c, None)"
  using assms
  by (auto simp: write_executable_def Let_def update_conv' delete_conv' prod_eq_iff
      split: if_splits option.splits)

lemma extract_members_only:
  assumes "extract_members io fail bin ws ms fs = (e, fs')" "map_of fs' p = Some c"
  shows "map_of fs p = Some c \<or> has_suffix p ''.part'' \<or>
    (\<exists>n. (n, Inr (c, None)) \<in> set ms \<and> path_base n \<in> set ws \<and> p = in_bin bin (path_base n))"
  using assms
proof (induction io fail bin ws ms fs arbitrary: e rule: extract_members.induct)
  case (3 io fail bin w ws n m ms fs)
  let ?b = "path_base n"
  show ?case
  proof (cases "?b \<in> set (w # ws) \<and> (\<exists>c. m = Inr c)")
    case False
    then show ?thesis
      using "3.IH"(1) [OF refl] 3(3, 4) by (auto simp: Let_def split: sum.splits if_splits)
  next
    case True
    then obtain c0 where m: "m = Inr c0" and b: "?b \<in> set (w # ws)" by blast
    obtain e1 fs1 where w: "write_executable io (in_bin bin ?b) c0 fs = (e1, fs1)"
      by (cases "write_executable io (in_bin bin ?b) c0 fs")
    have "map_of fs1 p = Some c \<or> has_suffix p ''.part'' \<or>
      (\<exists>n'. (n', Inr (c, None)) \<in> set ms \<and> path_base n' \<in> set (w # ws) \<and> p = in_bin bin (path_base n'))"
    proof (cases e1)
      case None
      then have "extract_members io fail bin (remove1 ?b (w # ws)) ms fs1 = (e, fs')"
        using 3(3) b m w by (auto simp: Let_def simp del: remove1.simps)
      then have "map_of fs1 p = Some c \<or> has_suffix p ''.part'' \<or>
        (\<exists>n'. (n', Inr (c, None)) \<in> set ms \<and> path_base n' \<in> set (remove1 ?b (w # ws)) \<and> p = in_bin bin (path_base n'))"
        using "3.IH"(2) [OF refl _ m w [symmetric, unfolded None]] 3(4) b by simp
      then show ?thesis
        using set_remove1_subset [of ?b "w # ws"] by blast
    next
      case (Some _)
      then show ?thesis using 3(3, 4) m b w by (auto simp: Let_def)
    qed
    then show ?thesis
      using write_executable_only [OF w, of p c] m b by auto
  qed
qed auto

section \<open>ffmpeg\<close>

lemma ffmpeg_install_only:
  assumes "te_data env = Inr data" "ffmpeg_asset env = Inr a"
    "asset_digest (te_release env ffmpeg_api) (fst a) = Inr hex"
    "install_archive env (bin_dir data) a hex (ffmpeg_want env) ts = (e, ts')"
  shows "only_vouched env ts ts'"
proof (cases "ts' = ts")
  case False
  then obtain r fs where r: "te_fetch env (ffmpeg_base @ fst a) = Inr r" "equal_fold (te_sha env (hf_body r)) hex"
    and x: "ts_files ts' = fs" "\<exists>fail e. extract_members (te_io env) fail (bin_dir data) (ffmpeg_want env)
        (fst (te_unpack env (hf_body r))) (ts_files ts) = (e, fs)"
    using assms(4)
    by (auto simp: install_archive_def extract_tar_xz_def extract_zip_def split: sum.splits if_splits option.splits prod.splits)
       blast+
  show ?thesis
    unfolding only_vouched_def
  proof (intro allI impI)
    fix p c
    assume "map_of (ts_files ts') p = Some c"
    with x consider "map_of (ts_files ts) p = Some c" | "has_suffix p ''.part''"
      | n where "(n, Inr (c, None)) \<in> set (fst (te_unpack env (hf_body r)))" "path_base n \<in> set (ffmpeg_want env)"
          "p = in_bin (bin_dir data) (path_base n)"
      using extract_members_only by metis
    then show "map_of (ts_files ts) p = Some c \<or> vouched env p c \<or> no_tool env p"
    proof cases
      case 3
      then have "ffmpeg_vouched env (path_base n) c"
        using r assms(2, 3) by (auto simp: ffmpeg_vouched_def archived_def published_def list_ex_iff)
      then show ?thesis
        using 3 assms(1) by (auto simp: vouched_def list_ex_iff)
    qed (simp_all add: no_tool_def)
  qed
qed simp

lemma ffmpeg_check_only:
  assumes "te_data env = Inr data"
  shows "only_vouched env ts (snd (ffmpeg_check env (bin_dir data) ts))"
  using assms
  by (auto simp: ffmpeg_check_def split: sum.splits if_splits prod.splits option.splits
      intro: ffmpeg_install_only intro!: only_vouched_version)

lemma ffmpeg_check_stamped:
  assumes "te_data env = Inr data"
  shows "only_vouched env ts (snd (ffmpeg_check env (bin_dir data) (write_stamp env q ts)))"
  using ffmpeg_check_only [OF assms, of "write_stamp env q ts"] by simp

lemma ffmpeg_ensure_only: "only_vouched env ts (snd (ffmpeg_ensure env ts))"
  by (auto simp: ffmpeg_ensure_def ffmpeg_maybe_update_def Let_def ffmpeg_check_stamped
      split: sum.splits if_splits prod.splits option.splits
      intro: ffmpeg_install_only intro!: only_vouched_version)

lemma ffmpeg_force_update_only: "only_vouched env ts (snd (ffmpeg_force_update env ts))"
  by (auto simp: ffmpeg_force_update_def Let_def ffmpeg_check_stamped split: sum.splits)

section \<open>deno\<close>

lemma deno_extract_only:
  assumes "deno_extract env ms dest fs = (e, fs')" "map_of fs' p = Some c"
  shows "map_of fs p = Some c \<or> has_suffix p ''.part'' \<or>
    p = dest \<and> (\<exists>n. (n, Inr (c, None)) \<in> set ms \<and> path_base n = deno_name env)"
  using assms
proof (induction env ms dest fs rule: deno_extract.induct)
  case (2 env n m ms dest fs)
  show ?case
  proof (cases "path_base n = deno_name env \<and> (\<exists>c. m = Inr c)")
    case True
    then obtain c0 where "m = Inr c0" by blast
    then show ?thesis
      using True 2(2) write_executable_only [OF _ 2(3)] by fastforce
  next
    case False
    then show ?thesis
      using 2 by (auto split: sum.splits if_splits)
  qed
qed auto

lemma deno_install_only:
  assumes "te_data env = Inr data" "deno_install env (bin_dir data) ts = (e, ts')"
  shows "only_vouched env ts ts'"
proof (cases "ts' = ts")
  case False
  let ?dest = "in_bin (bin_dir data) (deno_name env)"
  from False obtain a hex r fs ms e0 where
      a: "deno_asset env = Inr a" "asset_digest (te_release env deno_api) a = Inr hex"
        "te_fetch env (deno_base @ a) = Inr r" "equal_fold (te_sha env (hf_body r)) hex"
    and x: "ts_files ts' = fs" "te_unpack env (hf_body r) = (ms, None)" "deno_extract env ms ?dest (ts_files ts) = (e0, fs)"
    using assms(2) by (auto simp: deno_install_def split: sum.splits if_splits option.splits prod.splits)
  show ?thesis
    unfolding only_vouched_def
  proof (intro allI impI)
    fix p c
    assume "map_of (ts_files ts') p = Some c"
    with x(1) consider "map_of (ts_files ts) p = Some c" | "has_suffix p ''.part''"
      | n where "p = ?dest" "(n, Inr (c, None)) \<in> set ms" "path_base n = deno_name env"
      using deno_extract_only [OF x(3)] by metis
    then show "map_of (ts_files ts) p = Some c \<or> vouched env p c \<or> no_tool env p"
    proof cases
      case 3
      then have "deno_vouched env c"
        using a x by (auto simp: deno_vouched_def archived_def published_def list_ex_iff)
      then show ?thesis
        using 3 assms(1) by (simp add: vouched_def)
    qed (simp_all add: no_tool_def)
  qed
qed simp

lemma find_runtime_only: "only_vouched env ts (snd (find_runtime env ts))"
  by (auto simp: find_runtime_def Let_def split: sum.splits option.splits prod.splits intro: deno_install_only)

lemma runtime_args_only: "only_vouched env ts (snd (runtime_args env ts))"
  using find_runtime_only [of env ts] by (auto simp: runtime_args_def split: sum.splits prod.splits)

section \<open>Runs\<close>

text \<open>
  \<open>installs\<close>: an operation adds to the disk only what is good for its call. Then so does a run of them.
\<close>

locale installs =
  fixes step :: "'i \<Rightarrow> tools \<Rightarrow> tools"
    and good :: "'i \<Rightarrow> string \<Rightarrow> string \<Rightarrow> bool"
  assumes adds_good:
    "map_of (ts_files (step i ts)) p = Some c \<Longrightarrow> map_of (ts_files ts) p = Some c \<or> good i p c"
begin

lemma run_adds_good:
  "map_of (ts_files (foldl (\<lambda>ts i. step i ts) ts is)) p = Some c \<Longrightarrow>
   map_of (ts_files ts) p = Some c \<or> (\<exists>i \<in> set is. good i p c)"
  by (induction "is" arbitrary: ts) (auto dest: adds_good)

end

text \<open>What calls these: a social job, the player and \<open>godl update\<close>, at any time, on any answers.\<close>

datatype tool_op = UseYtdlp | UseFfmpeg | UseRuntime | UpdateYtdlp | UpdateFfmpeg

fun tool_step :: "tool_env \<times> tool_op \<Rightarrow> tools \<Rightarrow> tools" where
  "tool_step (env, UseYtdlp) ts = snd (ytdlp_ensure env ts)"
| "tool_step (env, UseFfmpeg) ts = snd (ffmpeg_ensure env ts)"
| "tool_step (env, UseRuntime) ts = snd (runtime_args env ts)"
| "tool_step (env, UpdateYtdlp) ts = snd (ytdlp_force_update env ts)"
| "tool_step (env, UpdateFfmpeg) ts = snd (ffmpeg_force_update env ts)"

definition tool_good :: "tool_env \<times> tool_op \<Rightarrow> string \<Rightarrow> string \<Rightarrow> bool" where
  "tool_good i p c \<longleftrightarrow> vouched (fst i) p c \<or> no_tool (fst i) p"

lemma tool_step_only: "only_vouched env ts (tool_step (env, op) ts)"
  by (cases op) (simp_all add: ytdlp_ensure_only ffmpeg_ensure_only runtime_args_only
      ytdlp_force_update_only ffmpeg_force_update_only)

interpretation tool_runs: installs tool_step tool_good
proof unfold_locales
  fix i ts p c
  assume "map_of (ts_files (tool_step i ts)) p = Some c"
  then show "map_of (ts_files ts) p = Some c \<or> tool_good i p c"
    using tool_step_only [of "fst i" ts "snd i"] by (auto simp: only_vouched_def tool_good_def)
qed

text \<open>C16: 
  C1: however the tools are used and updated, in any order and against any answers of GitHub, failures and
  corrupt downloads included, what a run puts on the disk is a tool some release of the run vouches for: yt-dlp
  itself with its published digest, ffmpeg, ffprobe and deno read from an archive with its. The rest are
  temporary files and the note of ffmpeg's version.
\<close>

theorem installed_tools_are_published:
  assumes "map_of (ts_files (foldl (\<lambda>ts i. tool_step i ts) ts run)) p = Some c"
    "\<forall>i \<in> set run. \<not> no_tool (fst i) p"
  shows "map_of (ts_files ts) p = Some c \<or> (\<exists>i \<in> set run. vouched (fst i) p c)"
  using tool_runs.run_adds_good [OF assms(1)] assms(2) by (auto simp: tool_good_def)

definition linux_box :: tool_env where
  "linux_box =
     \<lparr>te_os = ''linux'', te_arch = ''amd64'', te_now = 5, te_look = (\<lambda>_. None), te_data = Inr ''/d'', te_mkdir = None,
      te_release = (\<lambda>_. Inr \<lparr>gr_tag = ''1'', gr_assets =
        [(''yt-dlp_linux'', ''sha256:'' @ replicate 64 CHR ''a''),
         (''deno-x86_64-unknown-linux-gnu.zip'', ''sha256:'' @ replicate 64 CHR ''b'')]\<rparr>),
      te_fetch = (\<lambda>u. Inr (http_ok (if has_suffix u ''.zip'' then ''Z'' else ''Y''))), te_io = io_ok, te_temp = None,
      te_notes = True, te_sha = (\<lambda>b. replicate 64 (if b = ''Z'' then CHR ''b'' else CHR ''a'')),
      te_unpack = (\<lambda>_. ([(''x/deno'', Inr (''D'', None))], None)), te_root = False\<rparr>"

lemma installed_tools_are_published_witness:
  "list_ex (\<lambda>i. vouched (fst i) ''/d/bin/deno'' ''D'') [(linux_box, UseYtdlp), (linux_box, UseRuntime)]"
proof -
  let ?run = "[(linux_box, UseYtdlp), (linux_box, UseRuntime)]"
  have "map_of (ts_files (foldl (\<lambda>ts i. tool_step i ts) \<lparr>ts_files = [], ts_checked = []\<rparr> ?run)) ''/d/bin/deno'' = Some ''D''"
    by code_simp
  moreover have "\<forall>i \<in> set ?run. \<not> no_tool (fst i) ''/d/bin/deno''"
    by code_simp
  ultimately show ?thesis
    using installed_tools_are_published by (fastforce simp: list_ex_iff)
qed

section \<open>An installed tool stays\<close>

lemma ytdlp_fetch_installed:
  assumes "ytdlp_fetch env asset p want ts = (e, ts')" "installed p ts"
  shows "installed p ts'"
proof -
  obtain fs where d: "download_verified (te_sha env) (te_fetch env (ytdlp_base @ asset)) (te_io env) p ''.part'' want (ts_files ts) = (e, fs)"
    and fs: "ts_files ts' = fs"
    using assms(1) by (auto simp: ytdlp_fetch_def split: prod.splits)
  show ?thesis
  proof (cases e)
    case None
    then show ?thesis
      using download_placed [OF d [unfolded None]] fs by (auto simp: installed_def)
  next
    case Some
    then show ?thesis
      using download_kept [OF d, of p] fs assms(2) by (simp add: installed_def)
  qed
qed

lemma ytdlp_check_installed: "installed p ts \<Longrightarrow> installed p (snd (ytdlp_check env p ts))"
  by (auto simp: ytdlp_check_def split: sum.splits if_splits prod.splits option.splits dest: ytdlp_fetch_installed)

lemma ytdlp_fetch_checked: "ytdlp_fetch env asset p want ts = (e, ts') \<Longrightarrow> ts_checked ts' = ts_checked ts"
  by (auto simp: ytdlp_fetch_def split: prod.splits)

lemma ytdlp_check_checked: "ts_checked (snd (ytdlp_check env p ts)) = ts_checked ts"
  by (auto simp: ytdlp_check_def split: sum.splits if_splits prod.splits option.splits dest: ytdlp_fetch_checked)

lemma installed_stamp [simp]: "installed p (write_stamp env q ts) = installed p ts"
  by (simp add: installed_def)

text \<open>
  C1: a failed check never costs an installed yt-dlp: \<open>ytdlp.Ensure\<close> gives godl's own copy and the copy is
  still there, whatever GitHub answers and whatever fails; and when the check was due, it is not made again
  by a call within a day of it, whether it succeeded or not, if its note could be written.
\<close>

theorem installed_ytdlp_stays:
  assumes "te_data env = Inr data" "p = in_bin (bin_dir data) (ytdlp_local env)" "installed p ts"
    "ytdlp_ensure env ts = (r, ts')"
  shows "r = Inr p \<and> installed p ts' \<and>
    (te_notes env \<and> is_stale env (in_bin (bin_dir data) ''yt-dlp.checked'') ytdlp_stale_after ts \<longrightarrow>
     (\<forall>env'. te_data env' = Inr data \<and> te_os env' = te_os env \<and> te_now env' < te_now env + ytdlp_stale_after \<longrightarrow>
        ytdlp_ensure env' ts' = (Inr p, ts')))"
proof -
  let ?s = "in_bin (bin_dir data) ''yt-dlp.checked''"
  have r: "r = Inr p" and ts': "ts' = ytdlp_maybe_update env (bin_dir data) p ts"
    using assms by (auto simp: ytdlp_ensure_def Let_def)
  have i: "installed p ts'"
    using assms(3) by (simp add: ts' ytdlp_maybe_update_def Let_def ytdlp_check_installed)
  have "ytdlp_ensure env' ts' = (Inr p, ts')"
    if "te_notes env" "is_stale env ?s ytdlp_stale_after ts"
      "te_data env' = Inr data" "te_os env' = te_os env" "te_now env' < te_now env + ytdlp_stale_after" for env'
  proof -
    have "map_of (ts_checked ts') ?s = Some (te_now env)"
      using that(1, 2) by (simp add: ts' ytdlp_maybe_update_def Let_def ytdlp_check_checked write_stamp_def update_conv')
    then have "\<not> is_stale env' ?s ytdlp_stale_after ts'"
      using that(5) by (simp add: is_stale_def)
    moreover have "in_bin (bin_dir data) (ytdlp_local env') = p"
      using that(4) assms(2) by (simp add: ytdlp_local_def)
    ultimately show ?thesis
      using i that(3) by (simp add: ytdlp_ensure_def Let_def ytdlp_maybe_update_def)
  qed
  with r i show ?thesis by blast
qed

lemma installed_ytdlp_stays_witness:
  "ytdlp_ensure (linux_box\<lparr>te_now := 10, te_release := (\<lambda>_. Inl ErrEOF)\<rparr>)
     \<lparr>ts_files = [(''/d/bin/yt-dlp'', ''old'')], ts_checked = [(''/d/bin/yt-dlp.checked'', 5)]\<rparr> =
   (Inr ''/d/bin/yt-dlp'', \<lparr>ts_files = [(''/d/bin/yt-dlp'', ''old'')], ts_checked = [(''/d/bin/yt-dlp.checked'', 5)]\<rparr>)"
proof -
  let ?off = "linux_box\<lparr>te_release := (\<lambda>_. Inl ErrEOF)\<rparr>"
  let ?ts = "\<lparr>ts_files = [(''/d/bin/yt-dlp'', ''old'')], ts_checked = []\<rparr>"
  have d: "te_data ?off = Inr ''/d''" by (simp add: linux_box_def)
  have p: "''/d/bin/yt-dlp'' = in_bin (bin_dir ''/d'') (ytdlp_local ?off)" by code_simp
  have i: "installed ''/d/bin/yt-dlp'' ?ts" by (simp add: installed_def)
  have e: "ytdlp_ensure ?off ?ts =
      (Inr ''/d/bin/yt-dlp'', \<lparr>ts_files = [(''/d/bin/yt-dlp'', ''old'')], ts_checked = [(''/d/bin/yt-dlp.checked'', 5)]\<rparr>)"
    by code_simp
  have st: "te_notes ?off \<and> is_stale ?off (in_bin (bin_dir ''/d'') ''yt-dlp.checked'') ytdlp_stale_after ?ts"
    by code_simp
  show ?thesis
    using installed_ytdlp_stays [OF d p i e] st by (simp add: linux_box_def ytdlp_stale_after_def)
qed

section \<open>godl itself\<close>

text \<open>The release vouches for the file of the version its tag names.\<close>

definition self_vouched :: "tool_env \<Rightarrow> gh_release result \<Rightarrow> (tool_env \<Rightarrow> string \<Rightarrow> string option) \<Rightarrow> string \<Rightarrow> string \<Rightarrow> bool" where
  "self_vouched env rt asset ver c =
     (case tag_name rt of
        Inl _ \<Rightarrow> False
      | Inr tag \<Rightarrow>
          trim_prefix tag ''v'' \<noteq> ver \<and>
          (case asset env (trim_prefix tag ''v'') of None \<Rightarrow> False | Some a \<Rightarrow> published env self_api a c))"

lemma update_rpm_files [simp]: "su_files (update_rpm env dir run tag latest fs) = fs"
  by (simp add: update_rpm_def Let_def split: option.split sum.split prod.split)

lemma update_rpm_given:
  assumes "su_given (update_rpm env dir run tag latest fs) = Some (argv, c)"
  shows "\<exists>a. rpm_asset env latest = Some a \<and> published env self_api a c"
proof -
  from assms obtain a hex d tmp where
    a: "rpm_asset env latest = Some a" "asset_digest (te_release env self_api) a = Inr hex"
      "download_verified (te_sha env) (te_fetch env (self_base tag @ a)) (te_io env) (path_join [d, a]) ''.part'' hex [] = (None, tmp)"
      "rpm_given env (path_join [d, a]) tmp = Some (argv, c)"
    by (auto simp: update_rpm_def Let_def split: option.splits sum.splits prod.splits)
  from a(4) have "map_of tmp (path_join [d, a]) = Some c"
    by (auto simp: rpm_given_def split: sum.splits)
  with download_placed [OF a(3) list.distinct(2)] have "equal_fold (te_sha env c) hex"
    by auto
  with a show ?thesis
    by (simp add: published_def)
qed

text \<open>C17: 
  C1: \<open>godl update\<close> replaces godl only by what its release published. A file it leaves on the disk was there
  before, is the temporary file, or is the program itself, updated, with the digest published for the file of
  the other version's tag; a program a package manager owns is never written. The package manager is given a
  package only for a godl it owns, with the digest published for the package of that version.
\<close>

theorem self_update_is_verified:
  "(\<forall>q c. map_of (su_files (self_force_update env exe rq rt dir run ver fs)) q = Some c \<longrightarrow>
      map_of fs q = Some c \<or>
      (case exe of
         Inl _ \<Rightarrow> False
       | Inr p \<Rightarrow> \<not> package_managed env p \<and>
           (q = p @ ''.new'' \<or>
            q = p \<and> su_result (self_force_update env exe rq rt dir run ver fs) = Updated \<and>
            self_vouched env rt self_asset ver c))) \<and>
   (\<forall>argv c. su_given (self_force_update env exe rq rt dir run ver fs) = Some (argv, c) \<longrightarrow>
      (case exe of Inl _ \<Rightarrow> False | Inr p \<Rightarrow> package_managed env p) \<and> rpm_owned rq \<and>
      self_vouched env rt rpm_asset ver c)"
proof (intro conjI allI impI)
  fix q c
  assume c: "map_of (su_files (self_force_update env exe rq rt dir run ver fs)) q = Some c"
  show "map_of fs q = Some c \<or>
      (case exe of
         Inl _ \<Rightarrow> False
       | Inr p \<Rightarrow> \<not> package_managed env p \<and>
           (q = p @ ''.new'' \<or>
            q = p \<and> su_result (self_force_update env exe rq rt dir run ver fs) = Updated \<and>
            self_vouched env rt self_asset ver c))"
  proof (cases "su_files (self_force_update env exe rq rt dir run ver fs) = fs")
    case False
    then obtain p tag a hex e fs' where
      p: "exe = Inr p" "\<not> package_managed env p" "tag_name rt = Inr tag" "trim_prefix tag ''v'' \<noteq> ver"
        "self_asset env (trim_prefix tag ''v'') = Some a" "asset_digest (te_release env self_api) a = Inr hex"
      and d: "download_verified (te_sha env) (te_fetch env (self_base tag @ a)) (te_io env) p ''.new'' hex fs = (e, fs')"
      and u: "su_files (self_force_update env exe rq rt dir run ver fs) = fs'"
        "e = None \<longrightarrow> su_result (self_force_update env exe rq rt dir run ver fs) = Updated"
      by (auto simp: self_force_update_def Let_def split: option.splits sum.splits prod.splits if_splits)
    consider "q = p @ ''.new''" | "q \<noteq> p @ ''.new''" "q \<noteq> p \<or> e \<noteq> None" | "q = p" "e = None"
      by blast
    then show ?thesis
    proof cases
      case 2
      then show ?thesis using download_kept [OF d] c u by simp
    next
      case 3
      then have "self_vouched env rt self_asset ver c"
        using download_placed [OF d [unfolded 3(2)] list.distinct(2)] p c u by (auto simp: self_vouched_def published_def)
      then show ?thesis using 3 p u by simp
    qed (use p in simp)
  qed (use c in simp)
next
  fix argv c
  assume g: "su_given (self_force_update env exe rq rt dir run ver fs) = Some (argv, c)"
  then obtain p tag where p: "exe = Inr p" "package_managed env p" "rpm_owned rq" "tag_name rt = Inr tag" "trim_prefix tag ''v'' \<noteq> ver"
    "su_given (update_rpm env dir run tag (trim_prefix tag ''v'') fs) = Some (argv, c)"
    by (auto simp: self_force_update_def Let_def split: option.splits sum.splits prod.splits if_splits)
  then show "case exe of Inl _ \<Rightarrow> False | Inr p \<Rightarrow> package_managed env p" "rpm_owned rq"
    by simp_all
  show "self_vouched env rt rpm_asset ver c"
    using update_rpm_given [OF p(6)] p(4, 5) by (auto simp: self_vouched_def)
qed

lemma self_update_is_verified_witness:
  "self_vouched (linux_box\<lparr>te_release := (\<lambda>_. Inr \<lparr>gr_tag = ''v2'', gr_assets = [(''godl-2-linux-amd64'', ''sha256:'' @ replicate 64 CHR ''a'')]\<rparr>)\<rparr>)
     (Inr \<lparr>gr_tag = ''v2'', gr_assets = []\<rparr>) self_asset ''1'' ''Y''"
proof -
  let ?env = "linux_box\<lparr>te_release := (\<lambda>_. Inr \<lparr>gr_tag = ''v2'', gr_assets = [(''godl-2-linux-amd64'', ''sha256:'' @ replicate 64 CHR ''a'')]\<rparr>)\<rparr>"
  let ?u = "self_force_update ?env (Inr ''/opt/godl'') (Inl ErrEOF) (Inr \<lparr>gr_tag = ''v2'', gr_assets = []\<rparr>) (Inl ErrEOF) (\<lambda>_. None) ''1''
    [(''/opt/godl'', ''old'')]"
  have "map_of (su_files ?u) ''/opt/godl'' = Some ''Y''"
    by code_simp
  then show ?thesis
    using self_update_is_verified [of ?env "Inr ''/opt/godl''" "Inl ErrEOF" "Inr \<lparr>gr_tag = ''v2'', gr_assets = []\<rparr>" "Inl ErrEOF" "\<lambda>_. None" "''1''"
      "[(''/opt/godl'', ''old'')]"] by fastforce
qed

text \<open>
  "If newer" is not asked: a running godl with a version above the latest release is replaced by it.
\<close>

lemma newer_godl_is_downgraded:
  "su_result (self_force_update (linux_box\<lparr>te_release := (\<lambda>_. Inr \<lparr>gr_tag = ''v2'', gr_assets = [(''godl-2-linux-amd64'', ''sha256:'' @ replicate 64 CHR ''a'')]\<rparr>)\<rparr>)
     (Inr ''/opt/godl'') (Inl ErrEOF) (Inr \<lparr>gr_tag = ''v2'', gr_assets = []\<rparr>) (Inl ErrEOF) (\<lambda>_. None) ''3'' [(''/opt/godl'', ''3'')]) = Updated"
  by code_simp

end
