(* ===== verification/SettingsTab.thy ===== *)
theory SettingsTab
  imports Server
begin

text \<open>
  \<^verbatim>\<open>tui/settings.go\<close>, and the replies of the daemon it waits for (\<^verbatim>\<open>settingsResult\<close> of \<^verbatim>\<open>update.go\<close>): the
  list of settings a key walks over and edits in place. A tab is known by the number it was opened with, which
  stands for its pointer; \<open>edit\<close> is the text input of the library, given the text and a key.
\<close>

section \<open>Fields\<close>

datatype field_kind = SettingsInt | SettingsText | SettingsBool

text \<open>The help texts are left out. \<open>sf_set\<close> is not called for a switch, \<open>sf_toggle\<close> only for one.\<close>

record settings_field =
  sf_label :: string
  sf_kind :: field_kind
  sf_get :: "settings \<Rightarrow> string"
  sf_set :: "string \<Rightarrow> settings \<Rightarrow> settings result"
  sf_toggle :: "settings \<Rightarrow> settings"
  sf_secret :: bool
  sf_limit :: int

definition bool_label :: "bool \<Rightarrow> string" where
  "bool_label b = (if b then ''on'' else ''off'')"

definition int_field ::
  "string \<Rightarrow> (settings \<Rightarrow> string) \<Rightarrow> (int \<Rightarrow> bool) \<Rightarrow> string \<Rightarrow> (int \<Rightarrow> settings \<Rightarrow> settings) \<Rightarrow> settings_field" where
  "int_field label get ok msg put =
     \<lparr>sf_label = label, sf_kind = SettingsInt, sf_get = get,
      sf_set = (\<lambda>v s. case atoi (trim_space v) of
          None \<Rightarrow> Inl (ErrMsg msg) | Some n \<Rightarrow> if ok n then Inr (put n s) else Inl (ErrMsg msg)),
      sf_toggle = id, sf_secret = False, sf_limit = 0\<rparr>"

definition text_field :: "string \<Rightarrow> (settings \<Rightarrow> string) \<Rightarrow> (string \<Rightarrow> settings \<Rightarrow> settings result) \<Rightarrow> settings_field" where
  "text_field label get put =
     \<lparr>sf_label = label, sf_kind = SettingsText, sf_get = get, sf_set = put, sf_toggle = id, sf_secret = False, sf_limit = 0\<rparr>"

definition bool_field :: "string \<Rightarrow> (settings \<Rightarrow> bool) \<Rightarrow> (settings \<Rightarrow> settings) \<Rightarrow> settings_field" where
  "bool_field label get flip =
     \<lparr>sf_label = label, sf_kind = SettingsBool, sf_get = (\<lambda>s. bool_label (get s)), sf_set = (\<lambda>_. Inr),
      sf_toggle = flip, sf_secret = False, sf_limit = 0\<rparr>"

definition put_rate :: "(string \<Rightarrow> settings \<Rightarrow> settings) \<Rightarrow> string \<Rightarrow> settings \<Rightarrow> settings result" where
  "put_rate put v s =
     (let v = trim_space v
      in if v = [] then Inr (put v s) else case parse_rate v of Inl e \<Rightarrow> Inl e | Inr _ \<Rightarrow> Inr (put v s))"

definition put_password :: "string \<Rightarrow> settings \<Rightarrow> settings result" where
  "put_password v s = Inr (if v \<noteq> ''(set)'' then s\<lparr>s_webui_password := v\<rparr> else s)"

definition put_torbox_key :: "string \<Rightarrow> settings \<Rightarrow> settings result" where
  "put_torbox_key v s =
     (let v = trim_space v
      in Inr (if v = [] then s else if v = ''-'' then s\<lparr>s_torbox_key := []\<rparr> else s\<lparr>s_torbox_key := v\<rparr>))"

definition settings_fields :: "settings_field list" where
  "settings_fields =
     [int_field ''Max concurrent downloads'' (\<lambda>s. itoa (s_max_concurrent s)) (\<lambda>n. 0 \<le> n)
        ''must be a whole number, 0 or more'' (\<lambda>n s. s\<lparr>s_max_concurrent := n\<rparr>),
      text_field ''Default rate limit'' s_default_rate_limit (put_rate (\<lambda>v s. s\<lparr>s_default_rate_limit := v\<rparr>)),
      text_field ''Global bandwidth limit'' s_global_rate_limit (put_rate (\<lambda>v s. s\<lparr>s_global_rate_limit := v\<rparr>)),
      bool_field ''Auto-retry on failure'' s_auto_retry (\<lambda>s. s\<lparr>s_auto_retry := (\<not> s_auto_retry s)\<rparr>),
      int_field ''Auto-retry max attempts'' (\<lambda>s. itoa (s_auto_retry_max s)) (\<lambda>n. 1 \<le> n)
        ''must be a whole number, at least 1'' (\<lambda>n s. s\<lparr>s_auto_retry_max := n\<rparr>),
      bool_field ''Notify on completion'' s_notify (\<lambda>s. s\<lparr>s_notify := (\<not> s_notify s)\<rparr>),
      bool_field ''Show tray icon'' s_show_tray (\<lambda>s. s\<lparr>s_show_tray := (\<not> s_show_tray s)\<rparr>),
      bool_field ''Web interface'' s_webui (\<lambda>s. s\<lparr>s_webui := (\<not> s_webui s)\<rparr>),
      int_field ''Web interface port'' (\<lambda>s. itoa (if s_webui_port s = 0 then default_webui_port else s_webui_port s))
        (\<lambda>n. 1 \<le> n \<and> n \<le> 65535) ''must be a port number between 1 and 65535'' (\<lambda>n s. s\<lparr>s_webui_port := n\<rparr>),
      text_field ''Web interface username'' s_webui_username (\<lambda>v s. Inr (s\<lparr>s_webui_username := trim_space v\<rparr>)),
      text_field ''Web interface password'' (\<lambda>s. if s_webui_password s = [] then [] else ''(set)'') put_password,
      bool_field ''Web interface: other devices'' s_webui_network (\<lambda>s. s\<lparr>s_webui_network := (\<not> s_webui_network s)\<rparr>),
      (text_field ''TorBox API key'' (\<lambda>s. if s_torbox_key s = [] then [] else ''(saved)'') put_torbox_key)\<lparr>sf_secret := True, sf_limit := 128\<rparr>,
      bool_field ''Use TorBox for new torrents'' s_torbox_default (\<lambda>s. s\<lparr>s_torbox_default := (\<not> s_torbox_default s)\<rparr>),
      bool_field ''Keep torrents in TorBox'' s_torbox_keep (\<lambda>s. s\<lparr>s_torbox_keep := (\<not> s_torbox_keep s)\<rparr>)]"

section \<open>The tab\<close>

text \<open>What a tab shows before the daemon's settings are in.\<close>

definition zero_settings :: settings where
  "zero_settings =
     \<lparr>s_max_concurrent = 0, s_default_rate_limit = [], s_global_rate_limit = [], s_auto_retry = False, s_auto_retry_max = 0,
      s_notify = False, s_webui = False, s_webui_port = 0, s_webui_network = False, s_webui_username = [],
      s_webui_password = [], s_webui_https = False, s_torbox_key = [], s_torbox_default = False,
      s_torbox_keep = False, s_show_tray = False\<rparr>"

record settings_tab =
  st_id :: nat
  st_loading :: bool
  st_err :: string
  st_saved :: bool
  st_current :: settings
  st_cursor :: nat
  st_editing :: bool
  st_input :: string
  st_limit :: int

definition new_settings_tab :: "nat \<Rightarrow> settings_tab" where
  "new_settings_tab n =
     \<lparr>st_id = n, st_loading = True, st_err = [], st_saved = False, st_current = zero_settings, st_cursor = 0,
      st_editing = False, st_input = [], st_limit = 0\<rparr>"

datatype settings_cmd = SNone | SLoad nat | SSave nat settings

text \<open>A reply of the daemon: to the tab of that number, with the settings or the error.\<close>

datatype settings_reply = SettingsLoaded nat "settings result" | SettingsSaved nat "settings result"

definition reply_settings :: "response result \<Rightarrow> settings result" where
  "reply_settings r =
     (case r of
        Inl e \<Rightarrow> Inl e
      | Inr (RespSettings s) \<Rightarrow> Inr s
      | Inr _ \<Rightarrow> Inl (ErrMsg ''daemon returned no settings''))"

definition load_settings_tab :: "gerror option \<Rightarrow> response result \<Rightarrow> nat \<Rightarrow> settings_reply" where
  "load_settings_tab ensure r n = SettingsLoaded n (case ensure of Some e \<Rightarrow> Inl e | None \<Rightarrow> reply_settings r)"

definition save_settings_tab :: "response result \<Rightarrow> nat \<Rightarrow> settings_reply" where
  "save_settings_tab r n = SettingsSaved n (reply_settings r)"

definition settings_result :: "nat \<Rightarrow> settings result \<Rightarrow> bool \<Rightarrow> settings_tab option \<Rightarrow> settings_tab option" where
  "settings_result n r confirm tab =
     (case tab of
        None \<Rightarrow> None
      | Some t \<Rightarrow>
          if st_id t \<noteq> n then Some t
          else let t = t\<lparr>st_loading := False, st_saved := False\<rparr>
               in (case r of
                     Inl e \<Rightarrow> Some (t\<lparr>st_err := err_string e\<rparr>)
                   | Inr s \<Rightarrow> Some (t\<lparr>st_current := s, st_err := [], st_saved := confirm\<rparr>)))"

fun take_settings :: "settings_reply \<Rightarrow> settings_tab option \<Rightarrow> settings_tab option" where
  "take_settings (SettingsLoaded n r) tab = settings_result n r False tab"
| "take_settings (SettingsSaved n r) tab = settings_result n r True tab"

definition edit_key :: "(string \<Rightarrow> string \<Rightarrow> string) \<Rightarrow> string \<Rightarrow> settings_tab \<Rightarrow> settings_tab option \<times> settings_cmd" where
  "edit_key edit k t =
     (if k = ''esc'' then (Some (t\<lparr>st_editing := False, st_err := []\<rparr>), SNone)
      else if k = ''enter'' then
        (case sf_set (settings_fields ! st_cursor t) (st_input t) (st_current t) of
           Inl e \<Rightarrow> (Some (t\<lparr>st_err := err_string e\<rparr>), SNone)
         | Inr w \<Rightarrow> (Some (t\<lparr>st_editing := False, st_err := [], st_saved := False\<rparr>), SSave (st_id t) w))
      else (Some (t\<lparr>st_input := edit (st_input t) k\<rparr>), SNone))"

definition settings_key :: "(string \<Rightarrow> string \<Rightarrow> string) \<Rightarrow> string \<Rightarrow> settings_tab \<Rightarrow> settings_tab option \<times> settings_cmd" where
  "settings_key edit k t =
     (if st_editing t then edit_key edit k t
      else if k = ''esc'' then (None, SNone)
      else if k = ''up'' \<or> k = ''k'' then
        (Some (if 0 < st_cursor t then t\<lparr>st_cursor := st_cursor t - 1, st_err := [], st_saved := False\<rparr> else t), SNone)
      else if k = ''down'' \<or> k = ''j'' then
        (Some (if st_cursor t + 1 < length settings_fields
               then t\<lparr>st_cursor := st_cursor t + 1, st_err := [], st_saved := False\<rparr> else t), SNone)
      else if k = ''enter'' \<or> k = '' '' then
        (let f = settings_fields ! st_cursor t
         in if sf_kind f = SettingsBool
            then (Some (t\<lparr>st_err := [], st_saved := False\<rparr>), SSave (st_id t) (sf_toggle f (st_current t)))
            else (Some (t\<lparr>st_input := (if sf_secret f then [] else sf_get f (st_current t)),
                          st_limit := (if 0 < sf_limit f then sf_limit f else 32), st_editing := True, st_err := []\<rparr>), SNone))
      else (Some t, SNone))"

text \<open>
  The rows of the tab: whether the cursor is on it, its label and its value. The last line of the tab is an
  error, or that the settings were saved.
\<close>

definition settings_rows :: "settings_tab \<Rightarrow> (bool \<times> string \<times> string) list" where
  "settings_rows t =
     map (\<lambda>(i, f). (i = st_cursor t, sf_label f,
            if i = st_cursor t \<and> st_editing t then st_input t else sf_get f (st_current t)))
         (enumerate 0 settings_fields)"

definition settings_note :: "settings_tab \<Rightarrow> string" where
  "settings_note t = (if st_err t \<noteq> [] then ''error: '' @ st_err t else if st_saved t then ''saved'' else [])"

end
