(* ===== verification/SettingsTabProps.thy ===== *)
theory SettingsTabProps
  imports SettingsTab
begin

text \<open>
  What the Settings tab sends to the daemon: one field changed, of what the daemon last said, and of a shape
  it accepts. Two changes in a row, or one before the settings are in, are where that is not what was meant.
\<close>

lemma settings_fields_length [simp]: "length settings_fields = 15"
  by (simp add: settings_fields_def)

text \<open>\<open>settings_parts\<close>: the settings as the tab's fields see them, and the one no field shows.\<close>

datatype setting = SettingInt int | SettingText string | SettingBool bool

definition settings_parts :: "settings \<Rightarrow> setting list" where
  "settings_parts s =
     [SettingInt (s_max_concurrent s), SettingText (s_default_rate_limit s), SettingText (s_global_rate_limit s),
      SettingBool (s_auto_retry s), SettingInt (s_auto_retry_max s), SettingBool (s_notify s), SettingBool (s_show_tray s),
      SettingBool (s_webui s), SettingInt (s_webui_port s), SettingText (s_webui_username s),
      SettingText (s_webui_password s), SettingBool (s_webui_network s), SettingText (s_torbox_key s),
      SettingBool (s_torbox_default s), SettingBool (s_torbox_keep s), SettingBool (s_webui_https s)]"

definition same_but :: "nat \<Rightarrow> settings \<Rightarrow> settings \<Rightarrow> bool" where
  "same_but i s s' \<longleftrightarrow> list_all (\<lambda>(k, a, b). k = i \<or> a = b) (enumerate 0 (zip (settings_parts s) (settings_parts s')))"

text \<open>What the daemon asks of numbers and rates.\<close>

definition settings_typed :: "settings \<Rightarrow> bool" where
  "settings_typed s \<longleftrightarrow> 0 \<le> s_max_concurrent s \<and> rate_error (s_default_rate_limit s) = None \<and>
     rate_error (s_global_rate_limit s) = None \<and> 1 \<le> s_auto_retry_max s \<and> 0 \<le> s_webui_port s \<and> s_webui_port s \<le> 65535"

lemma settings_error_typed: "settings_error s = None \<Longrightarrow> settings_typed s"
  by (auto simp: settings_error_def settings_typed_def validate_web_settings_def split: if_splits option.splits)

lemma less_15:
  assumes "i < (15::nat)"
  shows "i = 0 \<or> i = 1 \<or> i = 2 \<or> i = 3 \<or> i = 4 \<or> i = 5 \<or> i = 6 \<or> i = 7 \<or> i = 8 \<or> i = 9 \<or> i = 10 \<or> i = 11 \<or>
    i = 12 \<or> i = 13 \<or> i = 14"
  using assms by presburger

lemma put_rate_Inr [simp]:
  "put_rate put v s = Inr w \<longleftrightarrow> w = put (trim_space v) s \<and> rate_error (trim_space v) = None"
  by (auto simp: put_rate_def rate_error_def Let_def split: sum.splits)

lemma int_field_set [simp]:
  "sf_set (int_field l g ok m put) v s = Inr w \<longleftrightarrow> (\<exists>n. atoi (trim_space v) = Some n \<and> ok n \<and> w = put n s)"
  by (auto simp: int_field_def split: option.splits)

lemma text_field_set [simp]: "sf_set (text_field l g put) = put"
  by (simp add: text_field_def)

lemma bool_field_set [simp]: "sf_set (bool_field l g t) v s = Inr s" "sf_toggle (bool_field l g t) = t"
  by (simp_all add: bool_field_def)

lemma other_toggle [simp]: "sf_toggle (int_field l g ok m put) = id" "sf_toggle (text_field l g put') = id"
  by (simp_all add: int_field_def text_field_def)

lemma set_same_but:
  assumes "sf_set (settings_fields ! i) v s = Inr w" "i < 15"
  shows "same_but i s w"
  using assms(1) less_15 [OF assms(2)]
  by (elim disjE)
     (auto simp: settings_fields_def put_password_def put_torbox_key_def Let_def same_but_def settings_parts_def
       enumerate_eq_zip upt_rec split: if_splits)

lemma toggle_same_but:
  assumes "i < 15"
  shows "same_but i s (sf_toggle (settings_fields ! i) s)"
  using less_15 [OF assms]
  by (elim disjE) (auto simp: settings_fields_def same_but_def settings_parts_def enumerate_eq_zip upt_rec)

lemma settings_typed_update [simp]:
  "settings_typed (s\<lparr>s_auto_retry := x0\<rparr>) = settings_typed s"
  "settings_typed (s\<lparr>s_notify := x1\<rparr>) = settings_typed s"
  "settings_typed (s\<lparr>s_show_tray := x2\<rparr>) = settings_typed s"
  "settings_typed (s\<lparr>s_webui := x3\<rparr>) = settings_typed s"
  "settings_typed (s\<lparr>s_webui_username := x4\<rparr>) = settings_typed s"
  "settings_typed (s\<lparr>s_webui_password := x5\<rparr>) = settings_typed s"
  "settings_typed (s\<lparr>s_webui_network := x6\<rparr>) = settings_typed s"
  "settings_typed (s\<lparr>s_torbox_key := x7\<rparr>) = settings_typed s"
  "settings_typed (s\<lparr>s_torbox_default := x8\<rparr>) = settings_typed s"
  "settings_typed (s\<lparr>s_torbox_keep := x9\<rparr>) = settings_typed s"
  "0 \<le> n \<Longrightarrow> settings_typed s \<Longrightarrow> settings_typed (s\<lparr>s_max_concurrent := n\<rparr>)"
  "1 \<le> n \<Longrightarrow> settings_typed s \<Longrightarrow> settings_typed (s\<lparr>s_auto_retry_max := n\<rparr>)"
  "1 \<le> n \<Longrightarrow> n \<le> 65535 \<Longrightarrow> settings_typed s \<Longrightarrow> settings_typed (s\<lparr>s_webui_port := n\<rparr>)"
  "rate_error r = None \<Longrightarrow> settings_typed s \<Longrightarrow> settings_typed (s\<lparr>s_default_rate_limit := r\<rparr>)"
  "rate_error r = None \<Longrightarrow> settings_typed s \<Longrightarrow> settings_typed (s\<lparr>s_global_rate_limit := r\<rparr>)"
  by (simp_all add: settings_typed_def)

lemma put_password_Inr: "put_password v s = Inr w \<Longrightarrow> \<exists>x. w = s\<lparr>s_webui_password := x\<rparr>"
  by (rule exI [of _ "s_webui_password w"]) (simp add: put_password_def split: if_split_asm; elim subst; simp)

lemma put_torbox_key_Inr: "put_torbox_key v s = Inr w \<Longrightarrow> \<exists>x. w = s\<lparr>s_torbox_key := x\<rparr>"
  by (rule exI [of _ "s_torbox_key w"]) (simp add: put_torbox_key_def Let_def split: if_split_asm; elim subst; simp)

lemma set_typed:
  assumes "sf_set (settings_fields ! i) v s = Inr w" "i < 15" "settings_typed s"
  shows "settings_typed w"
proof -
  from assms(1) less_15 [OF assms(2)]
  have "(\<exists>n. 0 \<le> n \<and> w = s\<lparr>s_max_concurrent := n\<rparr>) \<or> (\<exists>r. rate_error r = None \<and> w = s\<lparr>s_default_rate_limit := r\<rparr>) \<or>
    (\<exists>r. rate_error r = None \<and> w = s\<lparr>s_global_rate_limit := r\<rparr>) \<or> (\<exists>n. 1 \<le> n \<and> w = s\<lparr>s_auto_retry_max := n\<rparr>) \<or>
    (\<exists>n. 1 \<le> n \<and> n \<le> 65535 \<and> w = s\<lparr>s_webui_port := n\<rparr>) \<or> (\<exists>x. w = s\<lparr>s_webui_username := x\<rparr>) \<or>
    put_password v s = Inr w \<or> put_torbox_key v s = Inr w \<or> w = s"
    by (elim disjE) (simp_all add: settings_fields_def, blast+)
  then show ?thesis
    using assms(3) by (elim disjE exE conjE) (auto dest!: put_password_Inr put_torbox_key_Inr)
qed

lemma toggle_typed:
  assumes "i < 15" "settings_typed s"
  shows "settings_typed (sf_toggle (settings_fields ! i) s)"
  using less_15 [OF assms(1)] assms(2)
  by (elim disjE) (simp_all add: settings_fields_def)

section \<open>A save\<close>

lemma settings_key_save:
  assumes "settings_key edit k t = (t', SSave n w)"
  shows "n = st_id t \<and>
    (sf_set (settings_fields ! st_cursor t) (st_input t) (st_current t) = Inr w \<or>
     w = sf_toggle (settings_fields ! st_cursor t) (st_current t))"
  using assms by (auto simp: settings_key_def edit_key_def Let_def split: if_splits sum.splits)

lemma settings_key_cursor:
  "st_cursor t < 15 \<Longrightarrow> case fst (settings_key edit k t) of None \<Rightarrow> True
    | Some t' \<Rightarrow> st_cursor t' < 15 \<and> st_id t' = st_id t \<and> st_current t' = st_current t"
  by (simp add: settings_key_def edit_key_def Let_def less_imp_diff_less split: sum.split)

lemma take_settings_cursor:
  "case take_settings r (Some t) of None \<Rightarrow> False | Some t' \<Rightarrow> st_cursor t' = st_cursor t \<and> st_id t' = st_id t"
  by (cases r) (simp_all add: settings_result_def Let_def split: sum.split)

text \<open>The tabs that keys and replies lead to.\<close>

inductive tab_reachable :: "(string \<Rightarrow> string \<Rightarrow> string) \<Rightarrow> nat \<Rightarrow> settings_tab \<Rightarrow> bool" for edit n where
  opened: "tab_reachable edit n (new_settings_tab n)"
| pressed: "tab_reachable edit n t \<Longrightarrow> fst (settings_key edit k t) = Some t' \<Longrightarrow> tab_reachable edit n t'"
| answered: "tab_reachable edit n t \<Longrightarrow> take_settings r (Some t) = Some t' \<Longrightarrow> tab_reachable edit n t'"

lemma tab_reachable_cursor: "tab_reachable edit n t \<Longrightarrow> st_cursor t < 15 \<and> st_id t = n"
proof (induction rule: tab_reachable.induct)
  case opened
  then show ?case by (simp add: new_settings_tab_def)
next
  case (pressed t k t')
  then show ?case using settings_key_cursor [where t = t and edit = edit and k = k] by simp
next
  case (answered t r t')
  then show ?case using take_settings_cursor [where r = r and t = t] by simp
qed



section \<open>Where a change is lost\<close>

text \<open>
  A key is taken while the settings are still being read, and each change is made on what the daemon last
  confirmed: the first save of a hasty tab resets every other setting, and of two quick switches the second
  undoes the first.
\<close>

lemma early_edit_resets_the_rest:
  "snd (settings_key (\<lambda>s _. s) ''enter'' ((new_settings_tab 0)\<lparr>st_cursor := 4, st_editing := True, st_input := ''3''\<rparr>)) =
     SSave 0 (zero_settings\<lparr>s_auto_retry_max := 3\<rparr>) \<and>
   settings_error (zero_settings\<lparr>s_auto_retry_max := 3\<rparr>) = None"
  by code_simp

lemma quick_switch_undoes_the_first:
  fixes t :: settings_tab
  defines "t \<equiv> (new_settings_tab 0)\<lparr>st_current := default_settings, st_loading := False, st_cursor := 5\<rparr>"
  shows "case settings_key (\<lambda>s _. s) ''enter'' t of
      (Some t1, SSave _ w1) \<Rightarrow>
        (case settings_key (\<lambda>s _. s) ''down'' t1 of
           (Some t2, _) \<Rightarrow>
             (case settings_key (\<lambda>s _. s) ''enter'' t2 of
                (_, SSave _ w2) \<Rightarrow> s_notify w1 \<and> \<not> s_notify w2 | _ \<Rightarrow> False)
         | _ \<Rightarrow> False)
    | _ \<Rightarrow> False"
  unfolding t_def by code_simp

end
