(* ===== verification/Details.thy ===== *)
theory Details
  imports JobFiles
begin

text \<open>
  \<^verbatim>\<open>tui/details.go\<close>: the overlay with a job's files, where those of a torrent can be ticked. An overlay is
  known by the number it was opened with, which stands for its pointer. Colours and the layout of a row are
  left out.
\<close>

section \<open>State\<close>

record details =
  dt_id :: nat
  dt_job :: string
  dt_files :: "torrent_file list"
  dt_note :: string
  dt_err :: string
  dt_loaded :: bool
  dt_offset :: int
  dt_settled :: bool
  dt_live :: bool
  dt_choice :: bool
  dt_choosing :: bool
  dt_pick :: "(int \<times> bool) list"
  dt_cursor :: int
  dt_msg :: string

definition new_details :: "nat \<Rightarrow> string \<Rightarrow> details" where
  "new_details n i =
     \<lparr>dt_id = n, dt_job = i, dt_files = [], dt_note = [], dt_err = [], dt_loaded = False, dt_offset = 0,
      dt_settled = False, dt_live = False, dt_choice = False, dt_choosing = False, dt_pick = [], dt_cursor = 0,
      dt_msg = []\<rparr>"

text \<open>
  What is asked for: the list, the list to choose from, the choice, or to be woken in a second. Every answer
  carries the overlay it is for.
\<close>

datatype details_cmd = DNone | DLoad nat string | DChoice nat string | DApply nat string string | DTick nat

datatype details_reply =
    DetailsLoaded nat "(torrent_file list \<times> string \<times> bool) result"
  | DetailsChoice nat "torrent_file list result"
  | DetailsApplied nat "gerror option"
  | DetailsTick nat

definition finished_status :: "job_status \<Rightarrow> bool" where
  "finished_status s \<longleftrightarrow> s = StatusCompleted \<or> s = StatusFailed \<or> s = StatusCanceled"

definition details_job :: "job_view list \<Rightarrow> details \<Rightarrow> job_view option" where
  "details_job jobs st = find (\<lambda>j. j_id (jv_job j) = dt_job st) jobs"

section \<open>Ticks\<close>

definition dt_selectable :: "details \<Rightarrow> bool" where
  "dt_selectable st \<longleftrightarrow> dt_live st \<or> dt_choice st"

definition dt_wants :: "details \<Rightarrow> torrent_file \<Rightarrow> bool" where
  "dt_wants st f = (case map_of (dt_pick st) (jf_index f) of Some v \<Rightarrow> v | None \<Rightarrow> \<not> jf_skipped f)"

definition set_want :: "torrent_file \<Rightarrow> bool \<Rightarrow> details \<Rightarrow> details" where
  "set_want f v st =
     st\<lparr>dt_pick := (if v = (\<not> jf_skipped f) then AList.delete (jf_index f) (dt_pick st)
                    else AList.update (jf_index f) v (dt_pick st))\<rparr>"

definition prune_file :: "torrent_file \<Rightarrow> details \<Rightarrow> details" where
  "prune_file f st = (case map_of (dt_pick st) (jf_index f) of None \<Rightarrow> st | Some v \<Rightarrow> set_want f v st)"

definition prune_pick :: "details \<Rightarrow> details" where
  "prune_pick st =
     (let st = fold prune_file (dt_files st) st
      in st\<lparr>dt_cursor := min (dt_cursor st) (max 0 (int (length (dt_files st)) - 1))\<rparr>)"

definition ticked_file :: "details \<Rightarrow> nat \<Rightarrow> torrent_file \<Rightarrow> bool" where
  "ticked_file st n f \<longleftrightarrow> 0 \<le> jf_index f \<and> jf_index f < int n \<and> dt_wants st f"

definition details_spec :: "details \<Rightarrow> string \<times> nat" where
  "details_spec st =
     (let n = length (dt_files st); fs = filter (ticked_file st n) (dt_files st)
      in (selection_spec (fold (\<lambda>f want. want[nat (jf_index f) := True]) fs (replicate n False)), length fs))"

section \<open>Replies\<close>

definition details_loaded ::
  "job_view list \<Rightarrow> (torrent_file list \<times> string \<times> bool) result \<Rightarrow> details \<Rightarrow> details \<times> details_cmd" where
  "details_loaded jobs r st =
     (let st = st\<lparr>dt_loaded := True\<rparr>;
          st = (case r of
                  Inl e \<Rightarrow> st\<lparr>dt_err := err_string e\<rparr>
                | Inr (files, note, live) \<Rightarrow>
                    if dt_choice st \<and> \<not> live then st
                    else prune_pick (st\<lparr>dt_err := [], dt_files := files, dt_note := note, dt_live := live, dt_choice := False\<rparr>))
      in case details_job jobs st of
           None \<Rightarrow> (st\<lparr>dt_settled := True\<rparr>, DNone)
         | Some j \<Rightarrow> if finished_status (j_status (jv_job j)) then (st\<lparr>dt_settled := True\<rparr>, DNone) else (st, DTick (dt_id st)))"

definition choice_loaded :: "torrent_file list result \<Rightarrow> details \<Rightarrow> details" where
  "choice_loaded r st =
     (let st = st\<lparr>dt_choosing := False\<rparr>
      in case r of
           Inl e \<Rightarrow> st\<lparr>dt_msg := ''couldn'' @ [CHR 0x27] @ ''t list the files: '' @ err_string e\<rparr>
         | Inr files \<Rightarrow>
             prune_pick (st\<lparr>dt_files := files, dt_choice := True, dt_note := [], dt_msg := [], dt_cursor := 0, dt_offset := 0\<rparr>))"

definition details_applied :: "gerror option \<Rightarrow> details \<Rightarrow> details \<times> details_cmd" where
  "details_applied e st =
     (case e of
        Some e \<Rightarrow> (st\<lparr>dt_msg := ''error: '' @ err_string e\<rparr>, DNone)
      | None \<Rightarrow>
          let st = st\<lparr>dt_pick := [], dt_msg := ''applied''\<rparr>
          in if dt_settled st then (st\<lparr>dt_settled := False\<rparr>, DTick (dt_id st)) else (st, DNone))"

definition for_details :: "nat \<Rightarrow> (details \<Rightarrow> details \<times> details_cmd) \<Rightarrow> details option \<Rightarrow> details option \<times> details_cmd" where
  "for_details n f ost =
     (case ost of
        None \<Rightarrow> (None, DNone)
      | Some st \<Rightarrow> if dt_id st \<noteq> n then (Some st, DNone) else map_prod Some id (f st))"

fun take_details :: "job_view list \<Rightarrow> details_reply \<Rightarrow> details option \<Rightarrow> details option \<times> details_cmd" where
  "take_details jobs (DetailsLoaded n r) ost = for_details n (details_loaded jobs r) ost"
| "take_details jobs (DetailsChoice n r) ost = for_details n (\<lambda>st. (choice_loaded r st, DNone)) ost"
| "take_details jobs (DetailsApplied n e) ost = for_details n (details_applied e) ost"
| "take_details jobs (DetailsTick n) ost = for_details n (\<lambda>st. (st, DLoad n (dt_job st))) ost"

section \<open>Keys\<close>

definition details_rows :: "int \<Rightarrow> int" where
  "details_rows height = (if height \<le> 0 then 15 else max 3 (height - 10))"

text \<open>The cursor is kept on the list, and the list scrolled to it.\<close>

definition scroll_to_cursor :: "int \<Rightarrow> details \<Rightarrow> details" where
  "scroll_to_cursor rows st =
     (let st = st\<lparr>dt_cursor := max 0 (dt_cursor st)\<rparr>;
          st = (if dt_cursor st < dt_offset st then st\<lparr>dt_offset := dt_cursor st\<rparr> else st)
      in if dt_offset st + rows \<le> dt_cursor st then st\<lparr>dt_offset := dt_cursor st - rows + 1\<rparr> else st)"

definition apply_ticks :: "details \<Rightarrow> details \<times> details_cmd" where
  "apply_ticks st =
     (if dt_pick st = [] then (st, DNone)
      else case details_spec st of
        (spec, n) \<Rightarrow>
          if n = 0 then (st\<lparr>dt_msg := ''tick at least one file (a ticks all)''\<rparr>, DNone)
          else (st\<lparr>dt_msg := ''applying...''\<rparr>, DApply (dt_id st) (dt_job st) spec))"

definition toggle_tick :: "details \<Rightarrow> details" where
  "toggle_tick st =
     (let n = int (length (dt_files st))
      in if n \<le> 0 then st
         else let f = dt_files st ! nat (dt_cursor st); st = set_want f (\<not> dt_wants st f) st
              in st\<lparr>dt_cursor := min (n - 1) (dt_cursor st + 1)\<rparr>)"

definition pick_move :: "int \<Rightarrow> string \<Rightarrow> details \<Rightarrow> details" where
  "pick_move rows k st =
     (let n = int (length (dt_files st)); c = dt_cursor st
      in if k = ''up'' \<or> k = ''k'' then st\<lparr>dt_cursor := max 0 (c - 1)\<rparr>
         else if k = ''down'' \<or> k = ''j'' then st\<lparr>dt_cursor := min (n - 1) (c + 1)\<rparr>
         else if k = ''pgup'' \<or> k = ''b'' then st\<lparr>dt_cursor := max 0 (c - rows)\<rparr>
         else if k = ''pgdown'' \<or> k = ''f'' then st\<lparr>dt_cursor := min (n - 1) (c + rows)\<rparr>
         else if k = ''home'' \<or> k = ''g'' then st\<lparr>dt_cursor := 0\<rparr>
         else if k = ''end'' \<or> k = ''G'' then st\<lparr>dt_cursor := n - 1\<rparr>
         else if k = '' '' \<or> k = ''x'' then toggle_tick st
         else if k = ''a'' \<or> k = ''n'' then fold (\<lambda>f. set_want f (k = ''a'')) (dt_files st) st
         else if k = ''u'' then st\<lparr>dt_pick := []\<rparr>
         else st)"

definition details_closes :: "string \<Rightarrow> bool" where
  "details_closes k \<longleftrightarrow> k = ''esc'' \<or> k = ''q'' \<or> k = ''i'' \<or> k = ''enter''"

definition pick_key :: "int \<Rightarrow> string \<Rightarrow> details \<Rightarrow> details option \<times> details_cmd" where
  "pick_key height k st =
     (let st = st\<lparr>dt_msg := []\<rparr>; rows = details_rows height
      in if details_closes k then (None, DNone)
         else if k = ''s'' then map_prod Some id (apply_ticks st)
         else (Some (scroll_to_cursor rows (pick_move rows k st)), DNone))"

definition list_move :: "int \<Rightarrow> string \<Rightarrow> details \<Rightarrow> details" where
  "list_move rows k st =
     (let page = max 1 (rows - 1); final = max 0 (int (length (dt_files st)) - rows); off = dt_offset st
      in if k = ''up'' \<or> k = ''k'' then st\<lparr>dt_offset := max 0 (off - 1)\<rparr>
         else if k = ''down'' \<or> k = ''j'' then st\<lparr>dt_offset := min final (off + 1)\<rparr>
         else if k = ''pgup'' \<or> k = ''b'' then st\<lparr>dt_offset := max 0 (off - page)\<rparr>
         else if k = ''pgdown'' \<or> k = ''f'' \<or> k = '' '' then st\<lparr>dt_offset := min final (off + page)\<rparr>
         else if k = ''home'' \<or> k = ''g'' then st\<lparr>dt_offset := 0\<rparr>
         else if k = ''end'' \<or> k = ''G'' then st\<lparr>dt_offset := final\<rparr>
         else st)"

definition details_key :: "job_view list \<Rightarrow> int \<Rightarrow> string \<Rightarrow> details \<Rightarrow> details option \<times> details_cmd" where
  "details_key jobs height k st =
     (if dt_selectable st then pick_key height k st
      else if details_closes k then (None, DNone)
      else if k = ''c'' then
        (case details_job jobs st of
           None \<Rightarrow> (Some st, DNone)
         | Some j \<Rightarrow>
             if j_type (jv_job j) = JobTorrent \<and> \<not> dt_choosing st
             then (Some (st\<lparr>dt_choosing := True, dt_msg := []\<rparr>), DChoice (dt_id st) (dt_job st))
             else (Some st, DNone))
      else (Some (list_move (details_rows height) k st), DNone))"

section \<open>What is shown\<close>

text \<open>The rows on the screen; \<open>None\<close> is the panic of slicing past the end of the list.\<close>

definition details_shown :: "int \<Rightarrow> details \<Rightarrow> torrent_file list option" where
  "details_shown height st =
     (let n = int (length (dt_files st)); e = min n (dt_offset st + details_rows height)
      in if 0 \<le> dt_offset st \<and> dt_offset st \<le> e then Some (take (nat (e - dt_offset st)) (drop (nat (dt_offset st)) (dt_files st)))
         else None)"

definition middle_dot :: string where "middle_dot = [CHR '' '', CHR 0xC2, CHR 0xB7, CHR '' '']"

definition details_summary :: "torrent_file list \<Rightarrow> string" where
  "details_summary files =
     (let kept = filter (\<lambda>f. \<not> jf_skipped f) files;
          tot = wrap64 (sum_list (map (\<lambda>f. max 0 (jf_length f)) kept));
          fin = length (filter (\<lambda>f. 0 < jf_length f \<and> jf_length f \<le> jf_done f) kept);
          skipped = length files - length kept
      in join_with middle_dot
           ([itoa (int (length files)) @ '' file(s)''] @
            (if 0 < tot then [format_bytes tot] else []) @
            (if 1 < length files then [itoa (int fin) @ '' finished''] else []) @
            (if 0 < skipped then [itoa (int skipped) @ '' skipped''] else [])))"

end
