(* ===== verification/DetailsProps.thy ===== *)
theory DetailsProps
  imports Details
begin

text \<open>
  What is ticked in the overlay of a job: a tick is kept only while it differs from what the torrent does, the
  cursor is on a file, and applying sends a choice the daemon reads as the ticks shown. A list that becomes
  shorter under an overlay that was scrolled is not provided for.
\<close>

section \<open>Ticks\<close>

lemma set_want_fields [simp]:
  "dt_files (set_want f v st) = dt_files st" "dt_cursor (set_want f v st) = dt_cursor st"
  "dt_id (set_want f v st) = dt_id st" "dt_job (set_want f v st) = dt_job st" "dt_offset (set_want f v st) = dt_offset st"
  by (simp_all add: set_want_def)

lemma set_want_pick:
  "map_of (dt_pick (set_want f v st)) i =
     (if i = jf_index f then (if v = (\<not> jf_skipped f) then None else Some v) else map_of (dt_pick st) i)"
  by (simp add: set_want_def update_conv' delete_conv')

lemma prune_file_fields [simp]:
  "dt_files (prune_file f st) = dt_files st" "dt_cursor (prune_file f st) = dt_cursor st"
  "dt_id (prune_file f st) = dt_id st" "dt_job (prune_file f st) = dt_job st"
  by (simp_all add: prune_file_def split: option.split)

lemma prune_file_pick:
  "i \<noteq> jf_index f \<Longrightarrow> map_of (dt_pick (prune_file f st)) i = map_of (dt_pick st) i"
  "map_of (dt_pick (prune_file f st)) (jf_index f) \<in> {None, Some (jf_skipped f)}"
  by (auto simp: prune_file_def set_want_pick split: option.split)

lemma fold_prune_fields [simp]:
  "dt_files (fold prune_file fs st) = dt_files st" "dt_cursor (fold prune_file fs st) = dt_cursor st"
  "dt_id (fold prune_file fs st) = dt_id st" "dt_job (fold prune_file fs st) = dt_job st"
  by (induction fs arbitrary: st) simp_all

lemma fold_prune_other: "i \<notin> jf_index ` set fs \<Longrightarrow> map_of (dt_pick (fold prune_file fs st)) i = map_of (dt_pick st) i"
  by (induction fs arbitrary: st) (simp_all add: prune_file_pick)

lemma fold_prune_pick:
  assumes "distinct (map jf_index fs)" "f \<in> set fs"
  shows "map_of (dt_pick (fold prune_file fs st)) (jf_index f) \<in> {None, Some (jf_skipped f)}"
  using assms
proof (induction fs arbitrary: st)
  case (Cons g fs)
  show ?case
  proof (cases "f \<in> set fs")
    case True
    then show ?thesis using Cons by simp
  next
    case False
    then show ?thesis using Cons.prems fold_prune_other [of "jf_index g" fs] prune_file_pick(2) by simp
  qed
qed simp

section \<open>The invariant\<close>

definition ticks_real :: "details \<Rightarrow> bool" where
  "ticks_real st \<longleftrightarrow> (\<forall>f \<in> set (dt_files st). map_of (dt_pick st) (jf_index f) \<in> {None, Some (jf_skipped f)})"

definition cursor_on_list :: "details \<Rightarrow> bool" where
  "cursor_on_list st \<longleftrightarrow> 0 \<le> dt_cursor st \<and> dt_cursor st \<le> max 0 (int (length (dt_files st)) - 1)"

definition details_ok :: "details \<Rightarrow> bool" where
  "details_ok st \<longleftrightarrow> distinct (map jf_index (dt_files st)) \<and> ticks_real st \<and> cursor_on_list st"

lemma details_ok_prune:
  assumes "distinct (map jf_index (dt_files st))" "0 \<le> dt_cursor st"
  shows "details_ok (prune_pick st)"
  using assms fold_prune_pick
  by (auto simp: details_ok_def ticks_real_def cursor_on_list_def prune_pick_def Let_def)

lemma ticks_real_set_want:
  assumes "distinct (map jf_index (dt_files st))" "f \<in> set (dt_files st)" "ticks_real st"
  shows "ticks_real (set_want f v st)"
  using assms by (auto simp: ticks_real_def set_want_pick distinct_map inj_on_def)

lemma fold_set_want:
  assumes "set fs \<subseteq> set (dt_files st)" "distinct (map jf_index (dt_files st))" "ticks_real st"
  shows "ticks_real (fold (\<lambda>f. set_want f v) fs st)"
  using assms by (induction fs arbitrary: st) (simp_all add: ticks_real_set_want)

lemma fold_set_want_fields [simp]:
  "dt_files (fold (\<lambda>f. set_want f v) fs st) = dt_files st" "dt_cursor (fold (\<lambda>f. set_want f v) fs st) = dt_cursor st"
  "dt_id (fold (\<lambda>f. set_want f v) fs st) = dt_id st" "dt_job (fold (\<lambda>f. set_want f v) fs st) = dt_job st"
  by (induction fs arbitrary: st) simp_all

lemma ticks_real_cong [simp]:
  "ticks_real (st\<lparr>dt_cursor := c\<rparr>) = ticks_real st" "ticks_real (st\<lparr>dt_offset := x\<rparr>) = ticks_real st"
  "ticks_real (st\<lparr>dt_msg := m\<rparr>) = ticks_real st" "ticks_real (st\<lparr>dt_pick := []\<rparr>)"
  by (simp_all add: ticks_real_def)

lemma toggle_tick_real:
  assumes "details_ok st"
  shows "ticks_real (toggle_tick st)"
proof (cases "dt_files st = []")
  case False
  then have "dt_files st ! nat (dt_cursor st) \<in> set (dt_files st)"
    using assms by (intro nth_mem) (auto simp: details_ok_def cursor_on_list_def max_def Suc_leI split: if_split_asm)
  then show ?thesis
    using assms by (simp add: toggle_tick_def Let_def details_ok_def ticks_real_set_want)
qed (use assms in \<open>simp add: toggle_tick_def Let_def details_ok_def\<close>)

lemma toggle_tick_fields [simp]:
  "dt_files (toggle_tick st) = dt_files st" "dt_id (toggle_tick st) = dt_id st" "dt_job (toggle_tick st) = dt_job st"
  by (simp_all add: toggle_tick_def Let_def)

lemma pick_move_fields [simp]:
  "dt_files (pick_move rows k st) = dt_files st" "dt_id (pick_move rows k st) = dt_id st" "dt_job (pick_move rows k st) = dt_job st"
  by (simp_all add: pick_move_def Let_def)

lemma pick_move_real: "details_ok st \<Longrightarrow> ticks_real (pick_move rows k st)"
  unfolding pick_move_def Let_def
  by (simp add: toggle_tick_real fold_set_want) (simp add: details_ok_def fold_set_want)

lemma last_bounds:
  fixes n c r x :: int
  shows "min (n - 1) x \<le> max 0 (n - 1)" and "c \<le> max 0 (n - 1) \<Longrightarrow> 0 \<le> r \<Longrightarrow> max 0 (c - r) \<le> max 0 (n - 1)"
  by auto

lemma pick_move_cursor:
  assumes "cursor_on_list st" "0 \<le> rows"
  shows "dt_cursor (pick_move rows k st) \<le> max 0 (int (length (dt_files st)) - 1)"
proof (cases "dt_files st = []")
  case True
  with assms have "dt_cursor st = 0" by (simp add: cursor_on_list_def)
  with True assms(2) show ?thesis
    unfolding pick_move_def toggle_tick_def Let_def by simp
next
  case False
  with assms have "dt_cursor st < int (length (dt_files st))"
    by (simp add: cursor_on_list_def max_def split: if_split_asm)
  with False assms(2) show ?thesis
    unfolding pick_move_def toggle_tick_def Let_def by (simp add: min_less_iff_disj)
qed

lemma scroll_fields [simp]:
  "dt_files (scroll_to_cursor rows st) = dt_files st" "dt_pick (scroll_to_cursor rows st) = dt_pick st"
  "dt_cursor (scroll_to_cursor rows st) = max 0 (dt_cursor st)"
  "dt_id (scroll_to_cursor rows st) = dt_id st" "dt_job (scroll_to_cursor rows st) = dt_job st"
  by (simp_all add: scroll_to_cursor_def Let_def)

lemma scroll_shows_cursor:
  assumes "0 < rows"
  shows "dt_offset (scroll_to_cursor rows st) \<le> dt_cursor (scroll_to_cursor rows st)"
    "dt_cursor (scroll_to_cursor rows st) < dt_offset (scroll_to_cursor rows st) + rows"
  using assms by (auto simp: scroll_to_cursor_def Let_def)

lemma details_rows_pos [simp]: "0 < details_rows height" "0 \<le> details_rows height"
  by (simp_all add: details_rows_def max_def)

section \<open>Reachable overlays\<close>

lemma details_ok_cong [simp]:
  "details_ok (st\<lparr>dt_offset := x\<rparr>) = details_ok st" "details_ok (st\<lparr>dt_msg := m\<rparr>) = details_ok st"
  "details_ok (st\<lparr>dt_choosing := b\<rparr>) = details_ok st" "details_ok (st\<lparr>dt_settled := b\<rparr>) = details_ok st"
  "details_ok (st\<lparr>dt_loaded := b\<rparr>) = details_ok st" "details_ok (st\<lparr>dt_err := m\<rparr>) = details_ok st"
  "details_ok st \<Longrightarrow> details_ok (st\<lparr>dt_pick := []\<rparr>)"
  by (simp_all add: details_ok_def ticks_real_def cursor_on_list_def)

lemma details_ok_scrolled:
  assumes "details_ok st" "0 \<le> rows"
  shows "details_ok (scroll_to_cursor rows (pick_move rows k st))"
  using assms pick_move_real [OF assms(1)] pick_move_cursor [of st rows k]
  by (simp add: details_ok_def ticks_real_def cursor_on_list_def)

lemma details_ok_list_move: "details_ok st \<Longrightarrow> details_ok (list_move rows k st)"
  by (simp add: list_move_def Let_def)

lemma details_ok_apply: "details_ok st \<Longrightarrow> details_ok (fst (apply_ticks st))"
  by (simp add: apply_ticks_def split: prod.split)

lemma details_ok_key:
  "details_ok st \<Longrightarrow> case fst (details_key jobs height k st) of None \<Rightarrow> True | Some st' \<Rightarrow> details_ok st'"
  using details_ok_apply [of "st\<lparr>dt_msg := []\<rparr>"]
  by (simp add: details_key_def pick_key_def Let_def details_ok_scrolled details_ok_list_move split: option.split)

text \<open>Lists name each file by an index of its own.\<close>

definition reply_distinct :: "details_reply \<Rightarrow> bool" where
  "reply_distinct r =
     (case r of
        DetailsLoaded _ (Inr (fs, _, _)) \<Rightarrow> distinct (map jf_index fs)
      | DetailsChoice _ (Inr fs) \<Rightarrow> distinct (map jf_index fs)
      | _ \<Rightarrow> True)"

lemma details_ok_cursor: "details_ok st \<Longrightarrow> 0 \<le> dt_cursor st"
  by (simp add: details_ok_def cursor_on_list_def)

lemma details_ok_take:
  assumes "details_ok st" "reply_distinct r"
  shows "case fst (take_details jobs r (Some st)) of None \<Rightarrow> False | Some st' \<Rightarrow> details_ok st'"
  using assms details_ok_cursor [OF assms(1)]
  by (cases r) (auto simp: for_details_def details_loaded_def choice_loaded_def details_applied_def Let_def reply_distinct_def
      details_ok_prune split: sum.splits option.splits prod.splits)

inductive details_reachable :: "details \<Rightarrow> bool" where
  details_opened: "details_reachable (new_details n i)"
| details_pressed: "details_reachable st \<Longrightarrow> fst (details_key jobs height k st) = Some st' \<Longrightarrow> details_reachable st'"
| details_answered: "details_reachable st \<Longrightarrow> reply_distinct r \<Longrightarrow> fst (take_details jobs r (Some st)) = Some st' \<Longrightarrow>
    details_reachable st'"

lemma details_reachable_ok: "details_reachable st \<Longrightarrow> details_ok st"
proof (induction rule: details_reachable.induct)
  case (details_opened n i)
  then show ?case by (simp add: details_ok_def ticks_real_def cursor_on_list_def new_details_def)
next
  case (details_pressed st jobs height k st')
  then show ?case using details_ok_key [of st jobs height k] by simp
next
  case (details_answered st r jobs st')
  then show ?case using details_ok_take [of st r jobs] by simp
qed

text \<open>
  C1: in the overlay of a job, however it was reached, a file counts as changed exactly while its tick differs from
  what the torrent does with it, so ticking twice leaves nothing to apply; the cursor is on a file of the list,
  if it has any; and every key that moves it while files can be ticked leaves it on the screen.
\<close>

theorem details_stay_on_the_list:
  assumes "details_reachable st"
  shows "(\<forall>f \<in> set (dt_files st). map_of (dt_pick st) (jf_index f) \<noteq> None \<longleftrightarrow> dt_wants st f = jf_skipped f) \<and>
    (dt_files st \<noteq> [] \<longrightarrow> 0 \<le> dt_cursor st \<and> dt_cursor st < int (length (dt_files st))) \<and>
    (dt_selectable st \<longrightarrow> k \<noteq> ''s'' \<longrightarrow>
     (case fst (details_key jobs height k st) of
        None \<Rightarrow> True
      | Some st' \<Rightarrow> dt_offset st' \<le> dt_cursor st' \<and> dt_cursor st' < dt_offset st' + details_rows height))"
proof -
  from details_reachable_ok [OF assms] have ok: "details_ok st" .
  have "map_of (dt_pick st) (jf_index f) \<noteq> None \<longleftrightarrow> dt_wants st f = jf_skipped f" if "f \<in> set (dt_files st)" for f
    using ok that by (auto simp: details_ok_def ticks_real_def dt_wants_def)
  moreover have "dt_files st \<noteq> [] \<longrightarrow> 0 \<le> dt_cursor st \<and> dt_cursor st < int (length (dt_files st))"
    using ok by (auto simp: details_ok_def cursor_on_list_def max_def Suc_leI split: if_split_asm)
  moreover have "dt_selectable st \<longrightarrow> k \<noteq> ''s'' \<longrightarrow>
     (case fst (details_key jobs height k st) of
        None \<Rightarrow> True
      | Some st' \<Rightarrow> dt_offset st' \<le> dt_cursor st' \<and> dt_cursor st' < dt_offset st' + details_rows height)"
    using scroll_shows_cursor [OF details_rows_pos(1)]
    by (simp add: details_key_def pick_key_def Let_def del: scroll_fields)
  ultimately show ?thesis by blast
qed

definition two_files :: "torrent_file list" where
  "two_files =
     [\<lparr>jf_index = 0, jf_path = ''a'', jf_length = 5, jf_done = 0, jf_skipped = False\<rparr>,
      \<lparr>jf_index = 1, jf_path = ''b'', jf_length = 7, jf_done = 0, jf_skipped = True\<rparr>]"

definition two_details :: details where
  "two_details = (new_details 0 ''j'')\<lparr>dt_files := two_files, dt_live := True, dt_loaded := True, dt_settled := True\<rparr>"

lemma two_details_reachable: "details_reachable two_details"
  by (rule details_answered [OF details_opened [of 0 "''j''"], of "DetailsLoaded 0 (Inr (two_files, [], True))" "[]"])
     (simp_all add: reply_distinct_def two_details_def two_files_def new_details_def for_details_def details_loaded_def
       details_job_def prune_pick_def prune_file_def)

definition two_ticked :: details where
  "two_ticked = two_details\<lparr>dt_pick := [(0, False)], dt_cursor := 1\<rparr>"

lemma two_ticked_reachable: "details_reachable two_ticked"
  by (rule details_pressed [OF two_details_reachable, of "[]" 0 "'' ''"]) code_simp

lemma details_stay_on_the_list_witness:
  "map_of (dt_pick two_ticked) 0 \<noteq> None \<and> 0 \<le> dt_cursor two_ticked \<and> dt_cursor two_ticked < 2"
proof -
  have w: "dt_wants two_ticked (hd two_files) = jf_skipped (hd two_files)" by code_simp
  have f: "hd two_files \<in> set (dt_files two_ticked)" "jf_index (hd two_files) = 0" "dt_files two_ticked \<noteq> []"
    "length (dt_files two_ticked) = 2"
    by (simp_all add: two_ticked_def two_details_def two_files_def)
  show ?thesis
    using details_stay_on_the_list [OF two_ticked_reachable, where k = "''x''" and jobs = "[]" and height = 0] w f by auto
qed

section \<open>Applying\<close>

lemma fold_want_length [simp]: "length (fold (\<lambda>f want. want[nat (jf_index f) := True]) fs want) = length want"
  by (induction fs arbitrary: want) simp_all

lemma update_True_nth: "k < length want \<Longrightarrow> want[i := True] ! k = (want ! k \<or> k = i)"
  by (cases "i = k") auto

lemma fold_want_nth:
  "k < length want \<Longrightarrow>
   fold (\<lambda>f want. want[nat (jf_index f) := True]) fs want ! k = (want ! k \<or> (\<exists>f \<in> set fs. nat (jf_index f) = k))"
  by (induction fs arbitrary: want) (auto simp: update_True_nth)

lemma details_spec_selects:
  assumes "distinct (map jf_index (dt_files st))" "\<forall>f \<in> set (dt_files st). 0 \<le> jf_index f \<and> jf_index f < int (length (dt_files st))"
    "in_int64 (int (length (dt_files st)))" "details_spec st = (spec, n)" "0 < n"
  shows "\<exists>sel. parse_selection spec = Inr sel \<and>
    (\<forall>f \<in> set (dt_files st). sel_match sel (jf_index f + 1) (jf_path f) = dt_wants st f) \<and> (\<exists>f \<in> set (dt_files st). dt_wants st f)"
proof -
  let ?fs = "dt_files st"
  let ?ws = "filter (ticked_file st (length ?fs)) ?fs"
  let ?want = "fold (\<lambda>f want. want[nat (jf_index f) := True]) ?ws (replicate (length ?fs) False)"
  have spec: "spec = selection_spec ?want" and n: "n = length ?ws"
    using assms(4) by (simp_all add: details_spec_def Let_def)
  have nth: "?want ! nat (jf_index f) = dt_wants st f" if "f \<in> set ?fs" for f
  proof -
    have lt: "nat (jf_index f) < length ?fs"
      using assms(2) that by force
    have "(\<exists>g \<in> set ?ws. nat (jf_index g) = nat (jf_index f)) \<longleftrightarrow> f \<in> set ?ws"
      using assms(1, 2) that by (auto simp: distinct_map inj_on_def eq_nat_nat_iff)
    then show ?thesis
      using assms(2) that lt by (simp add: fold_want_nth ticked_file_def)
  qed
  from n assms(5) obtain g where g: "g \<in> set ?ws" by (cases ?ws) auto
  then have "nat (jf_index g) < length ?want \<and> ?want ! nat (jf_index g)"
    using nth [of g] by (auto simp: ticked_file_def)
  then have "\<exists>k<length ?want. ?want ! k" by blast
  from selection_spec_roundtrip [OF this] assms(3) obtain sel where
    sel: "parse_selection spec = Inr sel" "\<forall>k<length ?fs. \<forall>path. sel_match sel (int k + 1) path = ?want ! k"
    by (auto simp: spec)
  have "sel_match sel (jf_index f + 1) (jf_path f) = dt_wants st f" if "f \<in> set ?fs" for f
    using sel(2) [rule_format, of "nat (jf_index f)" "jf_path f"] nth [OF that] assms(2) that by fastforce
  with sel(1) g show ?thesis by (auto simp: ticked_file_def)
qed

lemma details_key_apply:
  assumes "details_key jobs height k st = (ost, DApply m i spec)"
  shows "m = dt_id st \<and> i = dt_job st \<and> dt_selectable st \<and> k = ''s'' \<and> dt_pick st \<noteq> [] \<and>
    (\<exists>n. 0 < n \<and> details_spec (st\<lparr>dt_msg := []\<rparr>) = (spec, n))"
  using assms
  by (auto simp: details_key_def pick_key_def apply_ticks_def Let_def split: if_split_asm option.split_asm prod.split_asm)

text \<open>C19: 
  C1: what the overlay sends to be applied is for its own job, and is a choice of at least one file that the daemon
  reads (\<open>parse_selection\<close>) as the ticks shown: a file is selected exactly if it is ticked. The files must be
  numbered as a torrent's whole list is.
\<close>

theorem applied_choice_is_what_is_ticked:
  assumes "details_reachable st" "details_key jobs height k st = (ost, DApply m i spec)"
    "\<forall>f \<in> set (dt_files st). 0 \<le> jf_index f \<and> jf_index f < int (length (dt_files st))"
    "in_int64 (int (length (dt_files st)))"
  shows "m = dt_id st \<and> i = dt_job st \<and>
    (\<exists>sel. parse_selection spec = Inr sel \<and>
      (\<forall>f \<in> set (dt_files st). sel_match sel (jf_index f + 1) (jf_path f) = dt_wants st f) \<and>
      (\<exists>f \<in> set (dt_files st). dt_wants st f))"
proof -
  from details_key_apply [OF assms(2)] obtain n where
    n: "m = dt_id st" "i = dt_job st" "0 < n" "details_spec (st\<lparr>dt_msg := []\<rparr>) = (spec, n)"
    by blast
  have d: "distinct (map jf_index (dt_files st))"
    using details_reachable_ok [OF assms(1)] by (simp add: details_ok_def)
  have w: "dt_wants (st\<lparr>dt_msg := []\<rparr>) f = dt_wants st f" for f by (simp add: dt_wants_def)
  have "\<exists>sel. parse_selection spec = Inr sel \<and>
      (\<forall>f \<in> set (dt_files st). sel_match sel (jf_index f + 1) (jf_path f) = dt_wants (st\<lparr>dt_msg := []\<rparr>) f) \<and>
      (\<exists>f \<in> set (dt_files st). dt_wants (st\<lparr>dt_msg := []\<rparr>) f)"
    using details_spec_selects [of "st\<lparr>dt_msg := []\<rparr>", OF _ _ _ n(4) n(3)] assms(3, 4) d by simp
  then show ?thesis
    using n(1, 2) unfolding w by blast
qed

definition both_ticked :: details where
  "both_ticked = two_details\<lparr>dt_pick := [(1, True)]\<rparr>"

lemma applied_choice_is_what_is_ticked_witness:
  "\<exists>sel. parse_selection [] = Inr sel \<and> sel_match sel 2 ''b''"
proof -
  have r: "details_reachable both_ticked"
    by (rule details_pressed [OF two_details_reachable, of "[]" 0 "''a''"]) code_simp
  have k: "details_key [] 0 ''s'' both_ticked = (Some (both_ticked\<lparr>dt_msg := ''applying...''\<rparr>), DApply 0 ''j'' [])"
    by code_simp
  have fs: "dt_files both_ticked = two_files" "length (dt_files both_ticked) = 2"
    by (simp_all add: both_ticked_def two_details_def two_files_def)
  have ix: "\<forall>f \<in> set (dt_files both_ticked). 0 \<le> jf_index f \<and> jf_index f < int (length (dt_files both_ticked))"
    unfolding fs(1) by (simp add: two_files_def)
  have len: "in_int64 (int (length (dt_files both_ticked)))"
    using fs(2) by (simp add: in_int64_def int64_min_def int64_max_def)
  have b: "two_files ! 1 \<in> set (dt_files both_ticked)" "jf_index (two_files ! 1) + 1 = 2" "jf_path (two_files ! 1) = ''b''"
    unfolding fs(1) by (simp_all add: two_files_def)
  have w: "dt_wants both_ticked (two_files ! 1)" by code_simp
  from applied_choice_is_what_is_ticked [OF r k ix len] obtain sel where
    sel: "parse_selection [] = Inr sel"
    "\<forall>f \<in> set (dt_files both_ticked). sel_match sel (jf_index f + 1) (jf_path f) = dt_wants both_ticked f"
    by blast
  have "sel_match sel 2 ''b''"
    using sel(2) [rule_format, OF b(1)] w unfolding b(2, 3) by blast
  with sel(1) show ?thesis by blast
qed

section \<open>A list that becomes shorter\<close>

text \<open>
  The offset is not kept on the list: a list of fourteen files scrolled to its end, then read again with one (a
  WebDAV job started afresh), is cut past its end when it is drawn.
\<close>

definition many_files :: "torrent_file list" where
  "many_files = map (\<lambda>i. \<lparr>jf_index = i, jf_path = ''f'', jf_length = 1, jf_done = 0, jf_skipped = False\<rparr>)
     [0, 1, 2, 3, 4, 5, 6, 7, 8, 9, 10, 11, 12, 13]"

definition scrolled_then_shorter :: "details option" where
  "scrolled_then_shorter =
     (let st = (new_details 0 ''j'')\<lparr>dt_files := many_files, dt_loaded := True\<rparr>
      in case fst (details_key [] 20 ''end'' st) of
           None \<Rightarrow> None
         | Some st \<Rightarrow> fst (take_details [] (DetailsLoaded 0 (Inr ([hd many_files], [], False))) (Some st)))"

lemma shorter_list_is_cut_past_its_end:
  "case scrolled_then_shorter of None \<Rightarrow> False | Some st \<Rightarrow> details_shown 20 st = None \<and> dt_err st = []"
  by code_simp

end
