(* ===== verification/NewJob.thy ===== *)
theory NewJob
  imports WebApi
begin

text \<open>
  \<^verbatim>\<open>tui/newjob.go\<close>, \<^verbatim>\<open>tui/torrentpick.go\<close> and the requests of \<^verbatim>\<open>tui/actions.go\<close>: the wizard that starts a
  download. A wizard is known by the number it was opened with, a list of a torrent's files by that and a number
  of its own; they stand for pointers. What the text inputs make of a key, the name of a link, the working
  directory and the Downloads folder are in \<open>wizard_env\<close>. A panic is \<open>None\<close>.
\<close>

section \<open>State\<close>

datatype new_job_step = PickType | PickPreset | EnterLink | PickVia | PickFiles | EnterOutput | EnterRate

datatype new_job_kind = KindURL | KindSocial | KindTorrent | KindPlay

definition new_job_types :: "new_job_kind list" where
  "new_job_types = [KindURL, KindSocial, KindTorrent, KindPlay]"

record torrent_pick =
  tp_id :: "nat \<times> nat"
  tp_source :: string
  tp_loading :: bool
  tp_err :: string
  tp_name :: string
  tp_files :: "torrent_file list"
  tp_sel :: "bool list"
  tp_cursor :: int
  tp_offset :: int

record new_job =
  nj_id :: nat
  nj_step :: new_job_step
  nj_type :: nat
  nj_preset :: nat
  nj_input :: string
  nj_output :: string
  nj_rate :: string
  nj_err :: string
  nj_pick :: "torrent_pick option"
  nj_picks :: nat
  nj_ready :: bool
  nj_torbox :: bool

definition new_new_job :: "nat \<Rightarrow> new_job" where
  "new_new_job n =
     \<lparr>nj_id = n, nj_step = PickType, nj_type = 0, nj_preset = 0, nj_input = [], nj_output = [], nj_rate = [], nj_err = [],
      nj_pick = None, nj_picks = 0, nj_ready = False, nj_torbox = False\<rparr>"

record wizard_env =
  we_edit :: "string \<Rightarrow> string \<Rightarrow> string"
  we_cwd :: "string option"
  we_downloads :: "string result"
  we_name :: "string \<Rightarrow> string"

text \<open>What follows: nothing, asking for a torrent's files, playing a link, or starting a job.\<close>

datatype wizard_cmd =
    WNone
  | WList "nat \<times> nat" string
  | WPlay string string
  | WStart new_job_kind string string string int string string

definition nj_kind :: "new_job \<Rightarrow> new_job_kind" where
  "nj_kind nj = new_job_types ! nj_type nj"

definition has_presets :: "new_job_kind \<Rightarrow> bool" where
  "has_presets k \<longleftrightarrow> k = KindSocial \<or> k = KindPlay"

definition selected_format :: "new_job \<Rightarrow> string" where
  "selected_format nj = (if has_presets (nj_kind nj) then snd (presets ! nj_preset nj) else [])"

definition nj_via :: "new_job \<Rightarrow> string" where
  "nj_via nj = (if \<not> nj_ready nj then [] else if nj_torbox nj then ViaTorBox else ViaP2P)"

text \<open>\<^verbatim>\<open>loadNewJobSettings\<close> and its reply: whether TorBox is set up, and whether it is preferred.\<close>

definition load_wizard_settings :: "gerror option \<Rightarrow> response result \<Rightarrow> bool \<times> bool" where
  "load_wizard_settings ens r =
     (case ens of
        Some _ \<Rightarrow> (False, False)
      | None \<Rightarrow> (case r of Inr (RespSettings cfg) \<Rightarrow> (torbox_ready cfg, s_torbox_default cfg) | _ \<Rightarrow> (False, False)))"

definition wizard_settings :: "nat \<Rightarrow> bool \<times> bool \<Rightarrow> new_job option \<Rightarrow> new_job option" where
  "wizard_settings n rp onj =
     (case onj of
        None \<Rightarrow> None
      | Some nj \<Rightarrow> Some (if nj_id nj \<noteq> n then nj else nj\<lparr>nj_ready := fst rp, nj_torbox := (fst rp \<and> snd rp)\<rparr>))"

section \<open>The file picker\<close>

definition new_torrent_pick :: "wizard_env \<Rightarrow> nat \<times> nat \<Rightarrow> string \<Rightarrow> torrent_pick" where
  "new_torrent_pick env i link =
     \<lparr>tp_id = i,
      tp_source = (if has_prefix link ''magnet:'' then link
                   else case resolve_output (we_cwd env) link of Inr a \<Rightarrow> a | Inl _ \<Rightarrow> link),
      tp_loading = True, tp_err = [], tp_name = [], tp_files = [], tp_sel = [], tp_cursor = 0, tp_offset = 0\<rparr>"

definition pick_spec :: "torrent_pick option \<Rightarrow> string" where
  "pick_spec op =
     (case op of None \<Rightarrow> [] | Some p \<Rightarrow> if tp_loading p \<or> tp_sel p = [] then [] else selection_spec (tp_sel p))"

text \<open>How many files are ticked, and their size; \<open>None\<close> is an index past the files.\<close>

definition pick_counts :: "torrent_pick \<Rightarrow> (nat \<times> int) option" where
  "pick_counts p =
     (let is = filter (\<lambda>i. tp_sel p ! i) [0..<length (tp_sel p)]
      in if list_all (\<lambda>i. i < length (tp_files p)) is
         then Some (length is, wrap64 (sum_list (map (\<lambda>i. jf_length (tp_files p ! i)) is))) else None)"

definition pick_rows :: "int \<Rightarrow> int" where
  "pick_rows height = (if height \<le> 0 then 15 else max 3 (height - 8))"

definition advance_to_output :: "new_job \<Rightarrow> new_job" where
  "advance_to_output nj = nj\<lparr>nj_output := [], nj_step := EnterOutput\<rparr>"

definition torrent_files_loaded ::
  "nat \<times> nat \<Rightarrow> (string \<times> torrent_file list) result \<Rightarrow> new_job option \<Rightarrow> new_job option" where
  "torrent_files_loaded i r onj =
     (case onj of
        None \<Rightarrow> None
      | Some nj \<Rightarrow> Some
          (case nj_pick nj of
             None \<Rightarrow> nj
           | Some p \<Rightarrow>
               if tp_id p \<noteq> i \<or> nj_step nj \<noteq> PickFiles \<and> nj_step nj \<noteq> PickVia then nj
               else case r of
                 Inl e \<Rightarrow> nj\<lparr>nj_pick := Some (p\<lparr>tp_loading := False, tp_err := err_string e\<rparr>)\<rparr>
               | Inr (name, files) \<Rightarrow>
                   let nj = nj\<lparr>nj_pick := Some (p\<lparr>tp_loading := False, tp_name := name, tp_files := files,
                                                tp_sel := replicate (length files) True\<rparr>)\<rparr>
                   in if length files \<le> 1 \<and> nj_step nj = PickFiles then advance_to_output nj else nj))"

definition scroll_pick :: "int \<Rightarrow> torrent_pick \<Rightarrow> torrent_pick" where
  "scroll_pick rows p =
     (let p = (if tp_cursor p < tp_offset p then p\<lparr>tp_offset := tp_cursor p\<rparr> else p)
      in if tp_offset p + rows \<le> tp_cursor p then p\<lparr>tp_offset := tp_cursor p - rows + 1\<rparr> else p)"

definition move_pick :: "int \<Rightarrow> string \<Rightarrow> torrent_pick \<Rightarrow> torrent_pick option" where
  "move_pick rows k p =
     (let n = int (length (tp_files p)); c = tp_cursor p
      in if k = ''up'' \<or> k = ''k'' then Some (p\<lparr>tp_cursor := max 0 (c - 1)\<rparr>)
         else if k = ''down'' \<or> k = ''j'' then Some (p\<lparr>tp_cursor := min (n - 1) (c + 1)\<rparr>)
         else if k = ''pgup'' then Some (p\<lparr>tp_cursor := max 0 (c - rows)\<rparr>)
         else if k = ''pgdown'' then Some (p\<lparr>tp_cursor := min (n - 1) (c + rows)\<rparr>)
         else if k = ''home'' \<or> k = ''g'' then Some (p\<lparr>tp_cursor := 0\<rparr>)
         else if k = ''end'' \<or> k = ''G'' then Some (p\<lparr>tp_cursor := n - 1\<rparr>)
         else if k = '' '' \<or> k = ''x'' then
           (if 0 \<le> c \<and> c < int (length (tp_sel p)) then Some (p\<lparr>tp_sel := (tp_sel p)[nat c := \<not> tp_sel p ! nat c]\<rparr>) else None)
         else if k = ''a'' then Some (p\<lparr>tp_sel := replicate (length (tp_sel p)) True\<rparr>)
         else if k = ''n'' then Some (p\<lparr>tp_sel := replicate (length (tp_sel p)) False\<rparr>)
         else Some p)"

definition torrent_pick_key :: "int \<Rightarrow> string \<Rightarrow> new_job \<Rightarrow> new_job option" where
  "torrent_pick_key height k nj =
     (case nj_pick nj of
        None \<Rightarrow> if k = ''esc'' then Some (if nj_ready nj then nj\<lparr>nj_step := PickVia\<rparr> else nj\<lparr>nj_step := EnterLink\<rparr>) else None
      | Some p \<Rightarrow>
          if k = ''esc'' then
            Some (if nj_ready nj then nj\<lparr>nj_step := PickVia\<rparr> else nj\<lparr>nj_pick := None, nj_step := EnterLink\<rparr>)
          else if tp_loading p \<or> tp_err p \<noteq> [] then
            Some (if k = ''enter'' then advance_to_output (nj\<lparr>nj_pick := None\<rparr>) else nj)
          else if k = ''enter'' then
            (case pick_counts p of
               None \<Rightarrow> None
             | Some (n, _) \<Rightarrow>
                 Some (if n = 0 then nj\<lparr>nj_err := ''pick at least one file (a selects all)''\<rparr>
                       else advance_to_output (nj\<lparr>nj_err := []\<rparr>)))
          else map_option (\<lambda>p. nj\<lparr>nj_err := [], nj_pick := Some (scroll_pick (pick_rows height) p)\<rparr>) (move_pick (pick_rows height) k p))"

section \<open>The steps\<close>

definition leave_via :: "new_job \<Rightarrow> new_job" where
  "leave_via nj =
     (if (case nj_pick nj of Some p \<Rightarrow> \<not> tp_loading p \<and> tp_err p = [] \<and> length (tp_files p) \<le> 1 | None \<Rightarrow> False)
      then advance_to_output nj else nj\<lparr>nj_step := PickFiles\<rparr>)"

definition type_key :: "string \<Rightarrow> new_job \<Rightarrow> new_job option" where
  "type_key k nj =
     (if k = ''up'' \<or> k = ''k'' then Some (nj\<lparr>nj_type := nj_type nj - 1\<rparr>)
      else if k = ''down'' \<or> k = ''j'' then Some (if nj_type nj + 1 < length new_job_types then nj\<lparr>nj_type := nj_type nj + 1\<rparr> else nj)
      else if k = ''enter'' then Some (nj\<lparr>nj_step := (if has_presets (nj_kind nj) then PickPreset else EnterLink)\<rparr>)
      else if k = ''esc'' then None
      else Some nj)"

definition preset_key :: "string \<Rightarrow> new_job \<Rightarrow> new_job" where
  "preset_key k nj =
     (if k = ''up'' \<or> k = ''k'' then nj\<lparr>nj_preset := nj_preset nj - 1\<rparr>
      else if k = ''down'' \<or> k = ''j'' then (if nj_preset nj + 1 < length presets then nj\<lparr>nj_preset := nj_preset nj + 1\<rparr> else nj)
      else if k = ''enter'' then nj\<lparr>nj_step := EnterLink\<rparr>
      else if k = ''esc'' then nj\<lparr>nj_step := PickType\<rparr>
      else nj)"

text \<open>The wizard after a key (\<open>None\<close>: closed), the status line if it is set, and what follows.\<close>

type_synonym wizard_result = "new_job option \<times> string option \<times> wizard_cmd"

definition stay :: "new_job \<Rightarrow> wizard_result" where
  "stay nj = (Some nj, None, WNone)"

definition link_key :: "wizard_env \<Rightarrow> string \<Rightarrow> new_job \<Rightarrow> wizard_result" where
  "link_key env k nj =
     (if k = ''esc'' then stay (nj\<lparr>nj_step := (if has_presets (nj_kind nj) then PickPreset else PickType)\<rparr>)
      else if k = ''enter'' then
        (let link = trim_space (nj_input nj)
         in if link = [] then stay nj
            else if nj_kind nj = KindPlay then (None, Some ''opening player...'', WPlay link (selected_format nj))
            else if nj_kind nj = KindTorrent then
              (let i = (nj_id nj, nj_picks nj); p = new_torrent_pick env i link
               in (Some (nj\<lparr>nj_pick := Some p, nj_picks := Suc (nj_picks nj), nj_step := (if nj_ready nj then PickVia else PickFiles)\<rparr>),
                   None, WList i (tp_source p)))
            else stay (advance_to_output nj))
      else stay (nj\<lparr>nj_input := we_edit env (nj_input nj) k\<rparr>))"

definition via_key :: "string \<Rightarrow> new_job \<Rightarrow> new_job" where
  "via_key k nj =
     (if k \<in> {''up'', ''k'', ''down'', ''j'', ''tab'', ''t'', ''v''} then nj\<lparr>nj_torbox := (\<not> nj_torbox nj)\<rparr>
      else if k = ''enter'' then leave_via nj
      else if k = ''esc'' then nj\<lparr>nj_pick := None, nj_step := EnterLink\<rparr>
      else nj)"

definition output_key :: "wizard_env \<Rightarrow> string \<Rightarrow> new_job \<Rightarrow> new_job" where
  "output_key env k nj =
     (if k = ''esc'' then
        (let nj' = nj\<lparr>nj_step := EnterLink\<rparr>;
             nj' = (if nj_ready nj \<and> nj_pick nj \<noteq> None then nj'\<lparr>nj_step := PickVia\<rparr> else nj')
         in if (case nj_pick nj of Some p \<Rightarrow> 1 < length (tp_files p) | None \<Rightarrow> False) then nj'\<lparr>nj_step := PickFiles\<rparr> else nj')
      else if k = ''enter'' then nj\<lparr>nj_rate := [], nj_step := EnterRate\<rparr>
      else nj\<lparr>nj_output := we_edit env (nj_output nj) k\<rparr>)"

definition wizard_rate :: "new_job \<Rightarrow> int result" where
  "wizard_rate nj = (let r = trim_space (nj_rate nj) in if r = [] then Inr 0 else parse_rate r)"

definition rate_key :: "wizard_env \<Rightarrow> string \<Rightarrow> new_job \<Rightarrow> wizard_result" where
  "rate_key env k nj =
     (if k = ''esc'' then stay (nj\<lparr>nj_err := [], nj_step := EnterOutput\<rparr>)
      else if k = ''enter'' then
        (case wizard_rate nj of
           Inl e \<Rightarrow> stay (nj\<lparr>nj_err := err_string e\<rparr>)
         | Inr limit \<Rightarrow>
             (None, Some ''starting...'',
              WStart (nj_kind nj) (trim_space (nj_input nj)) (selected_format nj) (trim_space (nj_output nj)) limit
                (pick_spec (nj_pick nj)) (if nj_kind nj = KindTorrent then nj_via nj else [])))
      else stay (nj\<lparr>nj_err := [], nj_rate := we_edit env (nj_rate nj) k\<rparr>))"

definition new_job_key :: "wizard_env \<Rightarrow> int \<Rightarrow> string \<Rightarrow> new_job \<Rightarrow> wizard_result option" where
  "new_job_key env height k nj =
     (case nj_step nj of
        PickType \<Rightarrow> Some (type_key k nj, None, WNone)
      | PickPreset \<Rightarrow> Some (stay (preset_key k nj))
      | EnterLink \<Rightarrow> Some (link_key env k nj)
      | PickVia \<Rightarrow> Some (stay (via_key k nj))
      | PickFiles \<Rightarrow> map_option stay (torrent_pick_key height k nj)
      | EnterOutput \<Rightarrow> Some (stay (output_key env k nj))
      | EnterRate \<Rightarrow> Some (rate_key env k nj))"

section \<open>The request\<close>

definition build_add_request :: "wizard_env \<Rightarrow> new_job_kind \<Rightarrow> string \<Rightarrow> string \<Rightarrow> string \<Rightarrow> int \<Rightarrow> job_options \<Rightarrow> request result" where
  "build_add_request env kind src output fmt limit opts =
     (let out = (\<lambda>name. output_path (we_downloads env) (we_cwd env) output name)
      in case kind of
           KindURL \<Rightarrow> (case out (we_name env src) of Inl e \<Rightarrow> Inl e | Inr o' \<Rightarrow> Inr (AddURL src o' 4 limit [] opts))
         | KindSocial \<Rightarrow> (case out [] of Inl e \<Rightarrow> Inl e | Inr o' \<Rightarrow> Inr (AddSocial src o' fmt limit opts))
         | KindTorrent \<Rightarrow>
             (case out [] of
                Inl e \<Rightarrow> Inl e
              | Inr o' \<Rightarrow>
                  if has_prefix src ''magnet:'' then Inr (AddTorrent src o' limit opts)
                  else (case resolve_output (we_cwd env) src of Inl e \<Rightarrow> Inl e | Inr a \<Rightarrow> Inr (AddTorrent a o' limit opts)))
         | KindPlay \<Rightarrow> Inl (ErrMsg (''unknown job type '' @ go_quote ''play'')))"

text \<open>\<^verbatim>\<open>startNewJob\<close>: the request it makes, if the daemon runs.\<close>

definition start_new_job :: "wizard_env \<Rightarrow> gerror option \<Rightarrow> wizard_cmd \<Rightarrow> request result option" where
  "start_new_job env ens c =
     (case c of
        WStart kind link fmt output limit files via \<Rightarrow>
          Some (case ens of
             Some e \<Rightarrow> Inl e
           | None \<Rightarrow> build_add_request env kind link output fmt limit (empty_options\<lparr>o_torrent_files := files, o_via := via\<rparr>))
      | _ \<Rightarrow> None)"

end
