(* ===== verification/NewJobProps.thy ===== *)
theory NewJobProps
  imports NewJob
begin

text \<open>
  The wizard of a new download: whatever keys are pressed and whenever its answers come, it does not panic, and
  what it starts is what was asked for.
\<close>

section \<open>The invariant\<close>

text \<open>
  A list of files as it is shown. One whose request is out has none; one that was read has a tick for each file
  and the cursor on one of them.
\<close>

definition pick_ok :: "torrent_pick \<Rightarrow> bool" where
  "pick_ok p \<longleftrightarrow> length (tp_sel p) = length (tp_files p) \<and> 0 \<le> tp_cursor p \<and>
     (if tp_files p = [] then tp_cursor p = 0 else tp_cursor p < int (length (tp_files p))) \<and>
     (tp_loading p \<longrightarrow> tp_files p = [] \<and> tp_err p = [])"

definition read_pick :: "torrent_pick \<Rightarrow> bool" where
  "read_pick p \<longleftrightarrow> \<not> tp_loading p \<and> tp_err p = []"

text \<open>Nothing to choose: the files there are are all ticked.\<close>

definition no_choice :: "torrent_pick \<Rightarrow> bool" where
  "no_choice p \<longleftrightarrow> read_pick p \<and> length (tp_files p) \<le> 1 \<and> list_all id (tp_sel p)"

definition some_choice :: "torrent_pick \<Rightarrow> bool" where
  "some_choice p \<longleftrightarrow> read_pick p \<and> 1 < length (tp_files p) \<and> list_ex id (tp_sel p)"

definition step_ok :: "new_job \<Rightarrow> bool" where
  "step_ok nj \<longleftrightarrow>
     (case nj_step nj of
        PickType \<Rightarrow> (\<forall>p. nj_pick nj = Some p \<longrightarrow> no_choice p)
      | PickPreset \<Rightarrow> (\<forall>p. nj_pick nj = Some p \<longrightarrow> no_choice p)
      | EnterLink \<Rightarrow> (\<forall>p. nj_pick nj = Some p \<longrightarrow> no_choice p)
      | PickVia \<Rightarrow> (\<exists>p. nj_pick nj = Some p \<and> (length (tp_files p) \<le> 1 \<longrightarrow> list_all id (tp_sel p)))
      | PickFiles \<Rightarrow> (\<exists>p. nj_pick nj = Some p \<and> (read_pick p \<longrightarrow> 1 < length (tp_files p)) \<and>
                            (length (tp_files p) \<le> 1 \<longrightarrow> list_all id (tp_sel p)))
      | _ \<Rightarrow> (\<forall>p. nj_pick nj = Some p \<longrightarrow> no_choice p \<or> some_choice p))"

definition link_step :: "new_job_step \<Rightarrow> bool" where
  "link_step s \<longleftrightarrow> s = PickType \<or> s = PickPreset \<or> s = EnterLink"

definition wizard_ok :: "new_job \<Rightarrow> bool" where
  "wizard_ok nj \<longleftrightarrow> nj_type nj < length new_job_types \<and> nj_preset nj < length presets \<and>
     (\<forall>p. nj_pick nj = Some p \<longrightarrow> pick_ok p) \<and> step_ok nj \<and>
     (\<not> link_step (nj_step nj) \<longrightarrow> trim_space (nj_input nj) \<noteq> [] \<and> nj_kind nj \<noteq> KindPlay) \<and>
     (\<forall>p. nj_pick nj = Some p \<longrightarrow> \<not> link_step (nj_step nj) \<longrightarrow> \<not> no_choice p \<longrightarrow> nj_kind nj = KindTorrent)"

lemma types_length [simp]: "length new_job_types = 4"
  by (simp add: new_job_types_def)

lemma presets_length [simp]: "length presets = 6"
  by (simp add: presets_def)

lemma nj_kind_cong [simp]:
  "nj_kind (nj\<lparr>nj_step := s\<rparr>) = nj_kind nj" "nj_kind (nj\<lparr>nj_pick := q\<rparr>) = nj_kind nj" "nj_kind (nj\<lparr>nj_err := e\<rparr>) = nj_kind nj"
  "nj_kind (nj\<lparr>nj_output := t\<rparr>) = nj_kind nj" "nj_kind (nj\<lparr>nj_rate := t\<rparr>) = nj_kind nj" "nj_kind (nj\<lparr>nj_torbox := b\<rparr>) = nj_kind nj"
  "nj_kind (nj\<lparr>nj_ready := b\<rparr>) = nj_kind nj" "nj_kind (nj\<lparr>nj_picks := n\<rparr>) = nj_kind nj" "nj_kind (nj\<lparr>nj_preset := i\<rparr>) = nj_kind nj"
  by (simp_all add: nj_kind_def)

text \<open>Texts, errors and the settings are no part of the invariant; nor is the input, while it may be empty.\<close>

lemma wizard_ok_cong [simp]:
  "wizard_ok (nj\<lparr>nj_err := e\<rparr>) = wizard_ok nj" "wizard_ok (nj\<lparr>nj_output := t\<rparr>) = wizard_ok nj"
  "wizard_ok (nj\<lparr>nj_rate := t\<rparr>) = wizard_ok nj" "wizard_ok (nj\<lparr>nj_torbox := b\<rparr>) = wizard_ok nj"
  "wizard_ok (nj\<lparr>nj_ready := b\<rparr>) = wizard_ok nj" "wizard_ok (nj\<lparr>nj_picks := n\<rparr>) = wizard_ok nj"
  "wizard_ok (nj\<lparr>nj_err := e, nj_step := s\<rparr>) = wizard_ok (nj\<lparr>nj_step := s\<rparr>)"
  "wizard_ok (nj\<lparr>nj_rate := t, nj_step := s\<rparr>) = wizard_ok (nj\<lparr>nj_step := s\<rparr>)"
  "wizard_ok (nj\<lparr>nj_output := t, nj_step := s\<rparr>) = wizard_ok (nj\<lparr>nj_step := s\<rparr>)"
  by (simp_all add: wizard_ok_def step_ok_def cong: new_job_step.case_cong)

lemma type_key_ok:
  assumes "wizard_ok nj" "nj_step nj = PickType"
  shows "case type_key k nj of None \<Rightarrow> True | Some nj' \<Rightarrow> wizard_ok nj'"
  using assms by (simp add: type_key_def wizard_ok_def step_ok_def link_step_def less_imp_diff_less)

lemma preset_key_ok:
  assumes "wizard_ok nj" "nj_step nj = PickPreset"
  shows "wizard_ok (preset_key k nj)"
  using assms by (simp add: preset_key_def wizard_ok_def step_ok_def link_step_def less_imp_diff_less)

lemma new_pick_ok:
  "pick_ok (new_torrent_pick env i link)" "\<not> read_pick (new_torrent_pick env i link)" "\<not> no_choice (new_torrent_pick env i link)"
  "tp_files (new_torrent_pick env i link) = []" "tp_sel (new_torrent_pick env i link) = []"
  by (simp_all add: new_torrent_pick_def pick_ok_def no_choice_def read_pick_def)

lemma link_key_ok:
  assumes "wizard_ok nj" "nj_step nj = EnterLink"
  shows "case fst (link_key env k nj) of None \<Rightarrow> True | Some nj' \<Rightarrow> wizard_ok nj'"
  using assms
  by (simp add: link_key_def stay_def Let_def wizard_ok_def step_ok_def link_step_def advance_to_output_def new_pick_ok nj_kind_def)

lemma leave_via_ok:
  assumes "wizard_ok nj" "nj_step nj = PickVia"
  shows "wizard_ok (leave_via nj)"
  using assms
  by (auto simp: leave_via_def wizard_ok_def step_ok_def link_step_def advance_to_output_def no_choice_def read_pick_def)

lemma via_key_ok:
  assumes "wizard_ok nj" "nj_step nj = PickVia"
  shows "wizard_ok (via_key k nj)"
proof -
  have "wizard_ok (nj\<lparr>nj_pick := None, nj_step := EnterLink\<rparr>)"
    using assms by (simp add: wizard_ok_def step_ok_def link_step_def)
  then show ?thesis
    using assms leave_via_ok [OF assms] by (simp add: via_key_def)
qed

lemma output_key_ok:
  assumes "wizard_ok nj" "nj_step nj = EnterOutput"
  shows "wizard_ok (output_key env k nj)"
proof -
  have "wizard_ok (nj\<lparr>nj_step := EnterRate\<rparr>)"
    using assms by (simp add: wizard_ok_def step_ok_def link_step_def)
  moreover have "wizard_ok (output_key env ''esc'' nj)"
    using assms
    by (auto simp: output_key_def Let_def wizard_ok_def step_ok_def link_step_def no_choice_def some_choice_def split: option.splits)
  ultimately show ?thesis
    using assms(1) by (simp add: output_key_def)
qed

lemma rate_key_ok:
  assumes "wizard_ok nj" "nj_step nj = EnterRate"
  shows "case fst (rate_key env k nj) of None \<Rightarrow> True | Some nj' \<Rightarrow> wizard_ok nj'"
proof -
  have "wizard_ok (nj\<lparr>nj_step := EnterOutput\<rparr>)"
    using assms by (simp add: wizard_ok_def step_ok_def link_step_def)
  then show ?thesis
    using assms(1) by (simp add: rate_key_def stay_def split: sum.split)
qed

section \<open>The list of files\<close>

lemma pick_ok_count:
  assumes "pick_ok p"
  shows "\<exists>n x. pick_counts p = Some (n, x) \<and> (n = 0 \<longleftrightarrow> \<not> list_ex id (tp_sel p))"
  using assms
  by (auto simp: pick_counts_def pick_ok_def Let_def list_all_iff list_ex_iff in_set_conv_nth filter_empty_conv)

lemma scroll_pick_fields [simp]:
  "tp_files (scroll_pick r p) = tp_files p" "tp_sel (scroll_pick r p) = tp_sel p" "tp_cursor (scroll_pick r p) = tp_cursor p"
  "tp_loading (scroll_pick r p) = tp_loading p" "tp_err (scroll_pick r p) = tp_err p"
  by (simp_all add: scroll_pick_def Let_def)

lemma scroll_pick_cong [simp]:
  "pick_ok (scroll_pick r p) = pick_ok p" "read_pick (scroll_pick r p) = read_pick p" "no_choice (scroll_pick r p) = no_choice p"
  by (simp_all add: pick_ok_def read_pick_def no_choice_def)

lemma pick_rows_pos: "0 < pick_rows height"
  by (simp add: pick_rows_def max_def)

lemma move_pick_ok:
  assumes "pick_ok p" "read_pick p" "1 < length (tp_files p)" "0 < r"
  shows "case move_pick r k p of None \<Rightarrow> False
    | Some p' \<Rightarrow> pick_ok p' \<and> read_pick p' \<and> tp_files p' = tp_files p"
proof -
  have ne: "tp_files p \<noteq> []" using assms(3) by auto
  have c: "tp_cursor p < int (length (tp_files p))" "tp_cursor p - 1 < int (length (tp_files p))"
    "tp_cursor p - r < int (length (tp_files p))" "0 \<le> tp_cursor p" "0 \<le> tp_cursor p + 1" "0 \<le> tp_cursor p + r"
    using assms ne by (simp_all add: pick_ok_def)
  show ?thesis
    using assms ne c by (simp add: move_pick_def pick_ok_def read_pick_def Let_def min_less_iff_disj)
qed

lemma torrent_pick_key_ok:
  assumes "wizard_ok nj" "nj_step nj = PickFiles"
  shows "case torrent_pick_key height k nj of None \<Rightarrow> False | Some nj' \<Rightarrow> wizard_ok nj'"
proof -
  from assms obtain p where p: "nj_pick nj = Some p" "pick_ok p" "read_pick p \<longrightarrow> 1 < length (tp_files p)"
    "length (tp_files p) \<le> 1 \<longrightarrow> list_all id (tp_sel p)" and i: "trim_space (nj_input nj) \<noteq> []" "nj_kind nj = KindTorrent"
    by (auto simp: wizard_ok_def step_ok_def link_step_def no_choice_def)
  obtain n x where n: "pick_counts p = Some (n, x)" "n = 0 \<longleftrightarrow> \<not> list_ex id (tp_sel p)"
    using pick_ok_count [OF p(2)] by blast
  have esc: "wizard_ok (nj\<lparr>nj_step := PickVia\<rparr>)" "wizard_ok (nj\<lparr>nj_pick := None, nj_step := EnterLink\<rparr>)"
    "wizard_ok (nj\<lparr>nj_pick := None, nj_step := EnterOutput\<rparr>)" "wizard_ok (nj\<lparr>nj_pick := None, nj_output := [], nj_step := EnterOutput\<rparr>)"
    using assms p i by (simp_all add: wizard_ok_def step_ok_def link_step_def)
  have out: "wizard_ok (nj\<lparr>nj_step := EnterOutput\<rparr>)" "wizard_ok (nj\<lparr>nj_err := [], nj_output := [], nj_step := EnterOutput\<rparr>)"
    if "read_pick p" "n \<noteq> 0"
    using assms p i that n(2) by (simp_all add: wizard_ok_def step_ok_def link_step_def some_choice_def)
  have moved: "case move_pick (pick_rows height) k p of None \<Rightarrow> False
      | Some p' \<Rightarrow> wizard_ok (nj\<lparr>nj_err := [], nj_pick := Some (scroll_pick (pick_rows height) p')\<rparr>)"
    if "read_pick p"
    using move_pick_ok [OF p(2) that, of "pick_rows height" k] p(3) that assms i pick_rows_pos
    by (auto simp: wizard_ok_def step_ok_def link_step_def split: option.splits)
  show ?thesis
    using assms(1) p(1) n esc out moved
    by (auto simp: torrent_pick_key_def advance_to_output_def read_pick_def split: option.splits)
qed

section \<open>Reachable wizards\<close>

lemma new_job_key_ok:
  assumes "wizard_ok nj"
  shows "case new_job_key env height k nj of None \<Rightarrow> False
    | Some res \<Rightarrow> (case fst res of None \<Rightarrow> True | Some nj' \<Rightarrow> wizard_ok nj')"
  using assms type_key_ok [of nj k] preset_key_ok [of nj k] link_key_ok [of nj env k] via_key_ok [of nj k]
    torrent_pick_key_ok [of nj height k] output_key_ok [of nj env k] rate_key_ok [of nj env k]
  by (cases "nj_step nj") (auto simp: new_job_key_def stay_def split: option.splits)

lemma wizard_settings_ok: "wizard_ok nj \<Longrightarrow> wizard_settings n rp (Some nj) = Some nj' \<Longrightarrow> wizard_ok nj'"
  by (auto simp: wizard_settings_def)

text \<open>A list is read once for a picker, and an error has a text.\<close>

definition list_reply_ok :: "nat \<times> nat \<Rightarrow> (string \<times> torrent_file list) result \<Rightarrow> new_job \<Rightarrow> bool" where
  "list_reply_ok i r nj \<longleftrightarrow> (case nj_pick nj of Some p \<Rightarrow> tp_id p = i \<longrightarrow> tp_loading p | None \<Rightarrow> True) \<and>
     (case r of Inl e \<Rightarrow> err_string e \<noteq> [] | Inr _ \<Rightarrow> True)"

lemma files_loaded_ok:
  assumes "wizard_ok nj" "list_reply_ok i r nj" "torrent_files_loaded i r (Some nj) = Some nj'"
  shows "wizard_ok nj'"
proof (cases "\<exists>p. nj_pick nj = Some p \<and> tp_id p = i \<and> (nj_step nj = PickFiles \<or> nj_step nj = PickVia)")
  case False
  then show ?thesis
    using assms by (auto simp: torrent_files_loaded_def split: option.splits)
next
  case True
  then obtain p where p: "nj_pick nj = Some p" "tp_id p = i" "nj_step nj = PickFiles \<or> nj_step nj = PickVia" "tp_loading p"
    using assms(2) by (auto simp: list_reply_ok_def)
  have base: "pick_ok p" "trim_space (nj_input nj) \<noteq> []" "nj_kind nj = KindTorrent" "tp_files p = []" "tp_sel p = []" "tp_cursor p = 0" "tp_err p = []"
    using assms(1) p by (auto simp: wizard_ok_def link_step_def no_choice_def read_pick_def pick_ok_def)
  show ?thesis
  proof (cases r)
    case (Inl e)
    then have "nj' = nj\<lparr>nj_pick := Some (p\<lparr>tp_loading := False, tp_err := err_string e\<rparr>)\<rparr>"
      using assms(3) p by (auto simp: torrent_files_loaded_def)
    then show ?thesis
      using assms(1, 2) Inl p base
      by (auto simp: wizard_ok_def step_ok_def link_step_def pick_ok_def read_pick_def no_choice_def list_reply_ok_def
          split: new_job_step.splits)
  next
    case (Inr nf)
    then obtain name files where nf: "r = Inr (name, files)" by (cases nf) auto
    let ?p = "p\<lparr>tp_loading := False, tp_name := name, tp_files := files, tp_sel := replicate (length files) True\<rparr>"
    have nj': "nj' = (if length files \<le> 1 \<and> nj_step nj = PickFiles then advance_to_output (nj\<lparr>nj_pick := Some ?p\<rparr>) else nj\<lparr>nj_pick := Some ?p\<rparr>)"
      using assms(3) p nf by (auto simp: torrent_files_loaded_def Let_def)
    have ok: "pick_ok ?p" "list_all id (tp_sel ?p)"
      using base by (auto simp: pick_ok_def list_all_iff)
    show ?thesis
      using assms(1) p base ok nj'
      by (auto simp: wizard_ok_def step_ok_def link_step_def advance_to_output_def no_choice_def read_pick_def)
  qed
qed

inductive wizard_reachable :: "wizard_env \<Rightarrow> new_job \<Rightarrow> bool" for env where
  wizard_opened: "wizard_reachable env (new_new_job n)"
| wizard_pressed: "wizard_reachable env nj \<Longrightarrow> new_job_key env height k nj = Some (Some nj', status, c) \<Longrightarrow> wizard_reachable env nj'"
| wizard_told: "wizard_reachable env nj \<Longrightarrow> wizard_settings n rp (Some nj) = Some nj' \<Longrightarrow> wizard_reachable env nj'"
| wizard_listed: "wizard_reachable env nj \<Longrightarrow> list_reply_ok i r nj \<Longrightarrow> torrent_files_loaded i r (Some nj) = Some nj' \<Longrightarrow>
    wizard_reachable env nj'"

lemma wizard_reachable_ok: "wizard_reachable env nj \<Longrightarrow> wizard_ok nj"
proof (induction rule: wizard_reachable.induct)
  case (wizard_opened n)
  then show ?case by (simp add: wizard_ok_def step_ok_def new_new_job_def link_step_def)
next
  case (wizard_pressed nj height k nj' status c)
  then show ?case using new_job_key_ok [of nj env height k] by simp
next
  case (wizard_told nj n rp nj')
  then show ?case using wizard_settings_ok by blast
next
  case (wizard_listed nj i r nj')
  then show ?case using files_loaded_ok by blast
qed

text \<open>
  C1: the wizard never panics: whatever keys were pressed before, in whatever order its answers (whether TorBox is
  set up, the files of a torrent) came, and if they came late, the next key has a result. No index is out of
  range and no list of files is missing where one is used.
\<close>

theorem wizard_never_panics:
  assumes "wizard_reachable env nj"
  shows "new_job_key env height k nj \<noteq> None"
  using new_job_key_ok [OF wizard_reachable_ok [OF assms], of env height k] by (auto split: option.splits)

definition plain_wizard :: wizard_env where
  "plain_wizard = \<lparr>we_edit = (\<lambda>s k. s @ k), we_cwd = Some ''/w'', we_downloads = Inr ''/d'', we_name = (\<lambda>_. ''n'')\<rparr>"

text \<open>A torrent's link is typed, and enter pressed twice while its files are being asked for.\<close>

definition torrent_wizard :: new_job where
  "torrent_wizard =
     (new_new_job 0)\<lparr>nj_type := 2, nj_step := PickFiles, nj_input := ''magnet:x'', nj_picks := 1,
        nj_pick := Some (new_torrent_pick plain_wizard (0, 0) ''magnet:x'')\<rparr>"

lemma torrent_wizard_reachable: "wizard_reachable plain_wizard torrent_wizard"
proof -
  have "wizard_reachable plain_wizard (new_new_job 0)" by (rule wizard_opened)
  then have "wizard_reachable plain_wizard ((new_new_job 0)\<lparr>nj_type := 1\<rparr>)"
    by (rule wizard_pressed [where height = 0 and k = "''j''" and status = None and c = WNone]) code_simp
  then have "wizard_reachable plain_wizard ((new_new_job 0)\<lparr>nj_type := 2\<rparr>)"
    by (rule wizard_pressed [where height = 0 and k = "''j''" and status = None and c = WNone]) code_simp
  then have "wizard_reachable plain_wizard ((new_new_job 0)\<lparr>nj_type := 2, nj_step := EnterLink\<rparr>)"
    by (rule wizard_pressed [where height = 0 and k = "''enter''" and status = None and c = WNone]) code_simp
  then have "wizard_reachable plain_wizard ((new_new_job 0)\<lparr>nj_type := 2, nj_step := EnterLink, nj_input := ''magnet:x''\<rparr>)"
    by (rule wizard_pressed [where height = 0 and k = "''magnet:x''" and status = None and c = WNone]) code_simp
  then show ?thesis
    by (rule wizard_pressed [where height = 0 and k = "''enter''" and status = None and c = "WList (0, 0) ''magnet:x''"]) code_simp
qed

lemma wizard_never_panics_witness: "new_job_key plain_wizard 0 '' '' torrent_wizard \<noteq> None"
  using wizard_never_panics [OF torrent_wizard_reachable] .

section \<open>What is started\<close>

lemma new_job_key_starts:
  assumes "new_job_key env height k nj = Some (res, status, WStart kind link fmt out limit files via)"
  shows "res = None \<and> nj_step nj = EnterRate \<and> kind = nj_kind nj \<and> link = trim_space (nj_input nj) \<and> fmt = selected_format nj \<and>
    out = trim_space (nj_output nj) \<and> wizard_rate nj = Inr limit \<and> files = pick_spec (nj_pick nj) \<and>
    via = (if nj_kind nj = KindTorrent then nj_via nj else [])"
  using assms
  by (auto simp: new_job_key_def rate_key_def link_key_def stay_def Let_def split: new_job_step.splits if_split_asm sum.splits option.splits)

lemma selection_spec_full [simp]: "list_all id sel \<Longrightarrow> selection_spec sel = []"
  by (simp add: selection_spec_def id_def)

lemma parse_empty_selection: "parse_selection [] = Inr None"
proof -
  have "trim_space [] = []" by (rule trim_space_plain) simp
  then show ?thesis by (simp add: parse_selection_def)
qed

lemma pick_spec_choice:
  assumes "pick_ok p" "no_choice p \<or> some_choice p" "in_int64 (int (length (tp_files p)))"
  shows "\<exists>sel. parse_selection (pick_spec (Some p)) = Inr sel \<and>
    (\<forall>i < length (tp_files p). \<forall>path. sel_match sel (int i + 1) path = tp_sel p ! i)"
proof (cases "list_ex id (tp_sel p)")
  case True
  then have "\<exists>i<length (tp_sel p). tp_sel p ! i" by (auto simp: list_ex_iff in_set_conv_nth)
  moreover have "length (tp_sel p) = length (tp_files p)" "\<not> tp_loading p" "tp_sel p \<noteq> []"
    using assms(1, 2) True by (auto simp: pick_ok_def no_choice_def some_choice_def read_pick_def)
  ultimately show ?thesis
    using selection_spec_roundtrip [of "tp_sel p"] assms(3) by (simp add: pick_spec_def)
next
  case False
  then have "tp_sel p = []"
    using assms(2) by (cases "tp_sel p") (auto simp: some_choice_def no_choice_def)
  then show ?thesis
    using assms(1) by (simp add: pick_spec_def pick_ok_def parse_empty_selection sel_match_def)
qed

text \<open>C20: 
  C1: what the wizard starts is what was asked for: never with an empty link; with a rate that is none or parses; a
  choice of files and a way to fetch them only for a torrent; and the choice is one the daemon reads as the ticks
  of the list that was shown, everything if none was.
\<close>

theorem wizard_starts_what_was_asked:
  assumes "wizard_reachable env nj"
    "new_job_key env height k nj = Some (res, status, WStart kind link fmt out limit files via)"
    "case nj_pick nj of Some p \<Rightarrow> in_int64 (int (length (tp_files p))) | None \<Rightarrow> True"
  shows "res = None \<and> kind \<noteq> KindPlay \<and> kind = nj_kind nj \<and> link \<noteq> [] \<and> wizard_rate nj = Inr limit \<and>
    (kind \<noteq> KindTorrent \<longrightarrow> files = [] \<and> via = []) \<and>
    (case nj_pick nj of
       None \<Rightarrow> files = []
     | Some p \<Rightarrow> \<not> tp_loading p \<and> tp_err p = [] \<and> (tp_files p \<noteq> [] \<longrightarrow> list_ex id (tp_sel p)) \<and>
         (\<exists>sel. parse_selection files = Inr sel \<and>
            (\<forall>i < length (tp_files p). \<forall>path. sel_match sel (int i + 1) path = tp_sel p ! i)))"
proof -
  from wizard_reachable_ok [OF assms(1)] have ok: "wizard_ok nj" .
  from new_job_key_starts [OF assms(2)] have
    s: "res = None" "nj_step nj = EnterRate" "kind = nj_kind nj" "link = trim_space (nj_input nj)" "wizard_rate nj = Inr limit"
      "files = pick_spec (nj_pick nj)" "via = (if nj_kind nj = KindTorrent then nj_via nj else [])"
    by blast+
  have k: "kind \<noteq> KindPlay" "link \<noteq> []"
    using ok s by (auto simp: wizard_ok_def link_step_def)
  show ?thesis
  proof (cases "nj_pick nj")
    case None
    then show ?thesis using s k by (simp add: pick_spec_def)
  next
    case (Some p)
    then have p: "pick_ok p" "no_choice p \<or> some_choice p" "no_choice p \<or> kind = KindTorrent"
      using ok s by (auto simp: wizard_ok_def step_ok_def link_step_def)
    have "files = []" if "kind \<noteq> KindTorrent"
      using that p Some s(6) by (simp add: pick_spec_def no_choice_def)
    moreover have "tp_files p \<noteq> [] \<longrightarrow> list_ex id (tp_sel p)"
      using p by (cases "tp_sel p") (auto simp: no_choice_def some_choice_def pick_ok_def)
    moreover have "\<not> tp_loading p \<and> tp_err p = []"
      using p by (auto simp: no_choice_def some_choice_def read_pick_def)
    ultimately show ?thesis
      using s k Some pick_spec_choice [OF p(1, 2)] assms(3) by auto
  qed
qed

definition press :: "string \<Rightarrow> new_job \<Rightarrow> new_job" where
  "press k nj = (case new_job_key plain_wizard 0 k nj of Some (Some nj', _, _) \<Rightarrow> nj' | _ \<Rightarrow> nj)"

lemma press_reachable: "wizard_reachable plain_wizard nj \<Longrightarrow> wizard_reachable plain_wizard (press k nj)"
  by (auto simp: press_def intro: wizard_pressed split: option.split prod.split)

definition pair_of_files :: "torrent_file list" where
  "pair_of_files =
     [\<lparr>jf_index = 0, jf_path = ''a'', jf_length = 5, jf_done = 0, jf_skipped = False\<rparr>,
      \<lparr>jf_index = 1, jf_path = ''b'', jf_length = 7, jf_done = 0, jf_skipped = False\<rparr>]"

definition listed_wizard :: new_job where
  "listed_wizard =
     (case torrent_files_loaded (0, 0) (Inr (''t'', pair_of_files)) (Some torrent_wizard) of Some nj \<Rightarrow> nj | None \<Rightarrow> torrent_wizard)"

lemma listed_wizard_reachable: "wizard_reachable plain_wizard listed_wizard"
proof (rule wizard_listed [OF torrent_wizard_reachable])
  show "list_reply_ok (0, 0) (Inr (''t'', pair_of_files)) torrent_wizard"
    by (simp add: list_reply_ok_def torrent_wizard_def new_torrent_pick_def)
  show "torrent_files_loaded (0, 0) (Inr (''t'', pair_of_files)) (Some torrent_wizard) = Some listed_wizard"
    by (simp add: listed_wizard_def torrent_files_loaded_def)
qed

text \<open>The first file is unticked, and the two steps after the list are left as they are.\<close>

lemma wizard_starts_what_was_asked_witness:
  "\<exists>sel. parse_selection ''2'' = Inr sel \<and> \<not> sel_match sel 1 ''a'' \<and> sel_match sel 2 ''b''"
proof -
  let ?nj = "press ''enter'' (press ''enter'' (press ''x'' listed_wizard))"
  have r: "wizard_reachable plain_wizard ?nj"
    by (intro press_reachable listed_wizard_reachable)
  have k: "new_job_key plain_wizard 0 ''enter'' ?nj = Some (None, Some ''starting...'', WStart KindTorrent ''magnet:x'' [] [] 0 ''2'' [])"
    by code_simp
  have nj: "?nj = torrent_wizard\<lparr>nj_step := EnterRate,
      nj_pick := Some ((new_torrent_pick plain_wizard (0, 0) ''magnet:x'')\<lparr>tp_loading := False, tp_name := ''t'', tp_files := pair_of_files,
        tp_sel := [False, True]\<rparr>)\<rparr>"
    by code_simp
  have len: "length pair_of_files = 2" by (simp add: pair_of_files_def)
  have i: "case nj_pick ?nj of Some p \<Rightarrow> in_int64 (int (length (tp_files p))) | None \<Rightarrow> True"
    unfolding nj by (simp add: len in_int64_def int64_min_def int64_max_def)
  from wizard_starts_what_was_asked [OF r k i] obtain sel where
    sel: "parse_selection ''2'' = Inr sel" "\<forall>i < 2. \<forall>path. sel_match sel (int i + 1) path = [False, True] ! i"
    unfolding nj by (auto simp: len)
  have "sel_match sel (int 0 + 1) ''a'' = [False, True] ! 0" "sel_match sel (int 1 + 1) ''b'' = [False, True] ! 1"
    by (rule sel(2) [rule_format]; simp)+
  then have "\<not> sel_match sel 1 ''a'' \<and> sel_match sel 2 ''b''" by simp
  with sel(1) show ?thesis by blast
qed

end
