(* ===== verification/ServeForm.thy ===== *)
theory ServeForm
  imports FileServerProps
begin

text \<open>
  \<^verbatim>\<open>tui/serve.go\<close>: the form that shares a folder from the terminal interface, and the share it runs while it is
  open. The disk, the ports, the certificate and the interfaces are in \<open>serve_env\<close>; \<open>sv_share\<close> is the server that
  runs, in the second step.
\<close>

record serve_form =
  sv_share :: "running_share option"
  sv_cursor :: nat
  sv_editing :: bool
  sv_input :: string
  sv_dir :: string
  sv_host :: string
  sv_port :: string
  sv_username :: string
  sv_password :: string
  sv_write :: bool
  sv_self_signed :: bool
  sv_insecure :: bool
  sv_err :: string
  sv_banner :: "string list"

record serve_env =
  se_edit :: "string \<Rightarrow> string \<Rightarrow> string"
  se_cwd :: "string option"
  se_downloads :: "string result"
  se_is_dir :: "string \<Rightarrow> bool"
  se_bind :: "string \<Rightarrow> int \<Rightarrow> int result"
  se_cert :: "gerror option"
  se_ifaces :: "net_iface list option"
  se_loopback :: "string \<Rightarrow> bool"

definition new_serve_form :: "serve_env \<Rightarrow> serve_form" where
  "new_serve_form env =
     \<lparr>sv_share = None, sv_cursor = 0, sv_editing = False, sv_input = [],
      sv_dir = (case se_downloads env of Inr d \<Rightarrow> d | Inl _ \<Rightarrow> ''.''), sv_host = ''0.0.0.0'', sv_port = ''8080'',
      sv_username = [], sv_password = [], sv_write = False, sv_self_signed = False, sv_insecure = False, sv_err = [],
      sv_banner = []\<rparr>"

definition serve_value :: "serve_form \<Rightarrow> string" where
  "serve_value s =
     (if sv_cursor s = 0 then sv_dir s else if sv_cursor s = 1 then sv_host s else if sv_cursor s = 2 then sv_port s
      else if sv_cursor s = 3 then sv_username s else if sv_cursor s = 4 then sv_password s else [])"

definition serve_set :: "string \<Rightarrow> serve_form \<Rightarrow> serve_form" where
  "serve_set v s =
     (if sv_cursor s = 0 then s\<lparr>sv_dir := v\<rparr> else if sv_cursor s = 1 then s\<lparr>sv_host := v\<rparr>
      else if sv_cursor s = 2 then s\<lparr>sv_port := v\<rparr> else if sv_cursor s = 3 then s\<lparr>sv_username := v\<rparr>
      else if sv_cursor s = 4 then s\<lparr>sv_password := v\<rparr> else s)"

section \<open>The banner\<close>

text \<open>\<^verbatim>\<open>serveExampleConnectAddr\<close>: \<open>se_loopback\<close> is \<^verbatim>\<open>ParseIP\<close> and \<^verbatim>\<open>IsLoopback\<close> of an address.\<close>

definition example_addr :: "(string \<Rightarrow> bool) \<Rightarrow> string list \<Rightarrow> string" where
  "example_addr loop addrs = (case find (\<lambda>a. \<not> loop a) addrs of Some a \<Rightarrow> a | None \<Rightarrow> hd addrs)"

definition long_dash :: string where "long_dash = [CHR '' '', CHR 0xE2, CHR 0x80, CHR 0x94, CHR '' '']"

definition serve_banner :: "serve_env \<Rightarrow> running_share \<Rightarrow> bool \<Rightarrow> string list" where
  "serve_banner env s has_auth =
     (let scheme = (if rs_tls s then ''https'' else ''http''); host = rs_host s; port = rs_port s;
          addrs = banner_addrs (se_ifaces env) host;
          example = join_host_port (example_addr (se_loopback env) addrs) port
      in [''Serving '' @ sc_root (rs_share s)] @
         (if is_unspecified_host host
          then ''Reachable at (whichever address the other device can actually reach):'' #
               map (\<lambda>ip. let hp = join_host_port ip port
                         in ''  '' @ scheme @ ''://'' @ hp @ ''/   (WebDAV: '' @ scheme @ ''://'' @ hp @ ''/dav/)'') addrs
          else [''Browse:  '' @ scheme @ ''://'' @ join_host_port host port @ ''/'',
                ''WebDAV:  '' @ scheme @ ''://'' @ join_host_port host port @ ''/dav/'']) @
         [if rs_write s then ''Read-write'' @ long_dash @ ''uploads and deletes over WebDAV are allowed.'' else ''Read-only.''] @
         [if has_auth then ''Auth: username '' @ go_quote (rs_username s) @ '' required.''
          else ''No authentication'' @ long_dash @ ''anyone who can reach this address can download everything above.''] @
         (if rs_tls s then [''Self-signed certificate'' @ long_dash @ ''browsers and WebDAV clients will warn until you trust it.''] else []) @
         [''Add as a connection: godl connection add <name> --url '' @ scheme @ ''://'' @ example @ ''/dav/'' @
          (if has_auth then '' --username '' @ rs_username s else [])])"

section \<open>Starting and stopping\<close>

definition serve_has_auth :: "serve_form \<Rightarrow> bool" where
  "serve_has_auth s \<longleftrightarrow> sv_username s \<noteq> [] \<and> sv_password s \<noteq> []"

definition serve_port :: "serve_form \<Rightarrow> int option" where
  "serve_port s = (case atoi (trim_space (sv_port s)) of None \<Rightarrow> None | Some p \<Rightarrow> if p < 0 \<or> 65535 < p then None else Some p)"

text \<open>The checks before anything listens, in their order.\<close>

definition serve_checks :: "serve_env \<Rightarrow> serve_form \<Rightarrow> (string \<times> string \<times> int) result" where
  "serve_checks env s =
     (let dir = trim_space (sv_dir s); host = trim_space (sv_host s)
      in case path_abs (se_cwd env) dir of
           None \<Rightarrow> Inl (ErrMsg ''getwd: no such file or directory'')
         | Some a \<Rightarrow>
             if \<not> se_is_dir env a then Inl (ErrMsg (dir @ '' is not a directory''))
             else if host = [] then Inl (ErrMsg ''host is required'')
             else case serve_port s of
               None \<Rightarrow> Inl (ErrMsg ''port must be a number between 0 and 65535 (0 = let the OS pick a free port)'')
             | Some p \<Rightarrow>
                 if \<not> serve_has_auth s \<and> \<not> is_loopback_host host \<and> \<not> sv_insecure s
                 then Inl (ErrMsg (''refusing to serve on '' @ host @ '' without a username/password'' @ long_dash @
                   ''anyone who can reach this address could download everything under '' @ dir @
                   ''. Set both, use host 127.0.0.1, or turn on '' @ [CHR 0x22] @ ''Insecure: allow no-auth on a reachable host'' @ [CHR 0x22]))
                 else Inr (a, host, p))"

definition serve_begin :: "serve_env \<Rightarrow> serve_form \<Rightarrow> running_share result" where
  "serve_begin env s =
     (case serve_checks env s of
        Inl e \<Rightarrow> Inl e
      | Inr (a, host, p) \<Rightarrow>
          (case listen_with_fallback (se_bind env host) p max_port_attempts of
             Inl e \<Rightarrow> Inl e
           | Inr port \<Rightarrow>
               (case (if sv_self_signed s then se_cert env else None) of
                  Some e \<Rightarrow> Inl (ErrMsg (''generating self-signed certificate: '' @ err_string e))
                | None \<Rightarrow>
                    Inr \<lparr>rs_share = \<lparr>sc_root = a, sc_username = sv_username s, sc_password = sv_password s, sc_read_only = (\<not> sv_write s)\<rparr>,
                      rs_host = host, rs_port = port, rs_tls = sv_self_signed s, rs_write = sv_write s, rs_username = sv_username s\<rparr>)))"

definition start_serve :: "serve_env \<Rightarrow> serve_form \<Rightarrow> serve_form" where
  "start_serve env s =
     (case serve_begin env s of
        Inl e \<Rightarrow> s\<lparr>sv_err := err_string e\<rparr>
      | Inr r \<Rightarrow> s\<lparr>sv_share := Some r, sv_banner := serve_banner env r (serve_has_auth s)\<rparr>)"

section \<open>Keys\<close>

text \<open>The overlay after a key (\<open>None\<close>: closed), and the status line if it is set. The server is closed with the overlay.\<close>

definition stop_serve :: "running_share \<Rightarrow> serve_form option \<times> string option" where
  "stop_serve r = (None, Some (''stopped serving '' @ sc_root (rs_share r)))"

definition serve_form_key :: "serve_env \<Rightarrow> string \<Rightarrow> serve_form \<Rightarrow> serve_form option \<times> string option" where
  "serve_form_key env k s =
     (if sv_editing s then
        (if k = ''esc'' then (Some (s\<lparr>sv_editing := False\<rparr>), None)
         else if k = ''enter'' then (Some ((serve_set (sv_input s) s)\<lparr>sv_editing := False\<rparr>), None)
         else (Some (s\<lparr>sv_input := se_edit env (sv_input s) k\<rparr>), None))
      else if k = ''esc'' then (None, None)
      else if k = ''up'' \<or> k = ''k'' then (Some (if 0 < sv_cursor s then s\<lparr>sv_cursor := sv_cursor s - 1, sv_err := []\<rparr> else s), None)
      else if k = ''down'' \<or> k = ''j'' then (Some (if sv_cursor s < 8 then s\<lparr>sv_cursor := sv_cursor s + 1, sv_err := []\<rparr> else s), None)
      else if k = ''enter'' \<or> k = '' '' then
        (Some (if sv_cursor s = 5 then s\<lparr>sv_write := (\<not> sv_write s)\<rparr>
               else if sv_cursor s = 6 then s\<lparr>sv_self_signed := (\<not> sv_self_signed s)\<rparr>
               else if sv_cursor s = 7 then s\<lparr>sv_insecure := (\<not> sv_insecure s)\<rparr>
               else if sv_cursor s = 8 then start_serve env s
               else s\<lparr>sv_input := serve_value s, sv_editing := True, sv_err := []\<rparr>), None)
      else (Some s, None))"

definition serve_key :: "serve_env \<Rightarrow> string \<Rightarrow> serve_form \<Rightarrow> serve_form option \<times> string option" where
  "serve_key env k s =
     (case sv_share s of
        Some r \<Rightarrow> if k = ''esc'' \<or> k = ''x'' then stop_serve r else (Some s, None)
      | None \<Rightarrow> serve_form_key env k s)"

section \<open>One rule for every front end\<close>

text \<open>The settings of the web interface's share that a form amounts to.\<close>

definition form_config :: "serve_form \<Rightarrow> int \<Rightarrow> run_config" where
  "form_config s p =
     \<lparr>rc_share = \<lparr>sc_root = trim_space (sv_dir s), sc_username = sv_username s, sc_password = sv_password s, sc_read_only = (\<not> sv_write s)\<rparr>,
      rc_host = trim_space (sv_host s), rc_port = p, rc_self_signed = sv_self_signed s, rc_insecure = sv_insecure s\<rparr>"

text \<open>C27: 
  C1: the form shares a folder exactly when, and as, the shared start of \<^verbatim>\<open>internal/fileserver\<close> would for the same
  settings, on every form whose port is a number in range; on any other it shares nothing. The rules on what may
  be reached without a password are the same, although they are written twice.
\<close>

theorem form_starts_what_the_daemon_would:
  "(case serve_begin env s of Inr r \<Rightarrow> Some r | Inl _ \<Rightarrow> None) =
   (case serve_port s of
      None \<Rightarrow> None
    | Some p \<Rightarrow>
        (case start_share (se_cwd env) (se_is_dir env) (se_bind env (trim_space (sv_host s))) (se_cert env) (form_config s p) of
           Inr r \<Rightarrow> Some r | Inl _ \<Rightarrow> None))"
proof (cases "serve_port s")
  case None
  then show ?thesis
    by (simp add: serve_begin_def serve_checks_def Let_def split: option.split)
next
  case (Some p)
  then have "0 \<le> p" "p \<le> 65535"
    by (auto simp: serve_port_def split: option.splits if_splits)
  let ?cfg = "form_config s p" and ?host = "trim_space (sv_host s)"
  have agree: "case share_refusal (se_cwd env) (se_is_dir env) ?cfg of
      Some _ \<Rightarrow> \<exists>e. serve_checks env s = Inl e
    | None \<Rightarrow> (\<exists>a. path_abs (se_cwd env) (trim_space (sv_dir s)) = Some a \<and> serve_checks env s = Inr (a, ?host, p))"
  proof (cases "path_abs (se_cwd env) (trim_space (sv_dir s))")
    case None
    then show ?thesis
      by (simp add: share_refusal_def form_config_def serve_checks_def Let_def del: append.simps)
  next
    case (Some a)
    have p: "\<not> (p < 0 \<or> 65535 < p)" using \<open>0 \<le> p\<close> \<open>p \<le> 65535\<close> by simp
    have r: "share_refusal (se_cwd env) (se_is_dir env) ?cfg = None \<longleftrightarrow>
        se_is_dir env a \<and> ?host \<noteq> [] \<and> (serve_has_auth s \<or> is_loopback_host ?host \<or> sv_insecure s)"
      using Some p unfolding share_refusal_def serve_has_auth_def
      by (cases "se_is_dir env a"; cases "?host = []") (simp_all add: form_config_def)
    have c: "(case serve_checks env s of Inl _ \<Rightarrow> \<not> (se_is_dir env a \<and> ?host \<noteq> [] \<and> (serve_has_auth s \<or> is_loopback_host ?host \<or> sv_insecure s))
        | Inr x \<Rightarrow> x = (a, ?host, p) \<and> se_is_dir env a \<and> ?host \<noteq> [] \<and> (serve_has_auth s \<or> is_loopback_host ?host \<or> sv_insecure s))"
      using Some \<open>serve_port s = Some p\<close> unfolding serve_checks_def Let_def
      by (cases "se_is_dir env a"; cases "?host = []"; cases "serve_has_auth s \<or> is_loopback_host ?host \<or> sv_insecure s") simp_all
    show ?thesis
      using r c Some by (cases "share_refusal (se_cwd env) (se_is_dir env) ?cfg"; cases "serve_checks env s") simp_all
  qed
  show ?thesis
  proof (cases "share_refusal (se_cwd env) (se_is_dir env) ?cfg")
    case None
    with agree obtain a where a: "path_abs (se_cwd env) (trim_space (sv_dir s)) = Some a" "serve_checks env s = Inr (a, ?host, p)"
      by auto
    have cfg: "rc_port ?cfg = p" "rc_self_signed ?cfg = sv_self_signed s" "rc_host ?cfg = ?host"
      "(rc_share ?cfg)\<lparr>sc_root := the (path_abs (se_cwd env) (sc_root (rc_share ?cfg)))\<rparr> =
       \<lparr>sc_root = a, sc_username = sv_username s, sc_password = sv_password s, sc_read_only = (\<not> sv_write s)\<rparr>"
      "sc_read_only (rc_share ?cfg) = (\<not> sv_write s)" "sc_username (rc_share ?cfg) = sv_username s"
      using a(1) by (simp_all add: form_config_def)
    show ?thesis
      using None Some a
      by (cases "listen_with_fallback (se_bind env ?host) p max_port_attempts";
          cases "if sv_self_signed s then se_cert env else None")
         (simp_all add: serve_begin_def start_share_def cfg)
  next
    case (Some e)
    with agree \<open>serve_port s = Some p\<close> show ?thesis
      by (auto simp: serve_begin_def start_share_def)
  qed
qed

section \<open>A name without a password\<close>

text \<open>
  With a user name but no password, on this machine only, the folder is guarded by the name and an empty
  password, while the banner says that there is no authentication.
\<close>

lemma half_credentials_say_no_auth:
  fixes env :: serve_env
  defines "env \<equiv> \<lparr>se_edit = (\<lambda>s k. s @ k), se_cwd = Some ''/w'', se_downloads = Inr ''/d'', se_is_dir = (\<lambda>_. True), se_bind = (\<lambda>_. Inr),
    se_cert = None, se_ifaces = None, se_loopback = (\<lambda>_. False)\<rparr>"
  shows "case serve_key env ''enter'' ((new_serve_form env)\<lparr>sv_cursor := 8, sv_host := ''localhost'', sv_port := ''0'', sv_username := ''u''\<rparr>) of
      (Some s, _) \<Rightarrow>
        (case sv_share s of
           Some r \<Rightarrow> share_handle (sample_disk []) None (rs_share r) (dav_get\<lparr>sq_auth := None\<rparr>) = SaUnauthorized \<and>
             sv_banner s ! 4 = ''No authentication'' @ long_dash @ ''anyone who can reach this address can download everything above.''
         | None \<Rightarrow> False)
    | _ \<Rightarrow> False"
  unfolding env_def by code_simp

end
