(* ===== verification/Dashboard.thy ===== *)
theory Dashboard
  imports Browse SettingsTab Details NewJob ServeForm
begin

text \<open>
  The terminal dashboard: \<^verbatim>\<open>tui/sort.go\<close>, \<^verbatim>\<open>tui/table.go\<close>, \<^verbatim>\<open>tui/update.go\<close>, \<^verbatim>\<open>tui/actions.go\<close> and
  \<^verbatim>\<open>localPlaybackTarget\<close> of \<^verbatim>\<open>tui/play.go\<close>. \<open>tui\<close> is \<^verbatim>\<open>statusModel\<close>, \<open>update\<close> what a message makes of it; what
  follows a message is a \<open>tui_cmd\<close>. The cursor of the table of the library, colours, animation and layout are
  left out or arguments. Overlays are numbered as they are opened.
\<close>

section \<open>Texts\<close>

text \<open>\<^verbatim>\<open>format.Truncate\<close>: the runes of a text, as they are written again.\<close>

function rune_chunks :: "string \<Rightarrow> string list" where
  "rune_chunks s =
     (if s = [] then []
      else case decode_rune s of
        (x, r) \<Rightarrow> (if x = 65533 then [CHR 0xEF, CHR 0xBF, CHR 0xBD] else take (length s - length r) s) # rune_chunks r)"
  by pat_completeness auto
termination
  by (relation "measure length") (auto, metis decode_rune_shorter snd_conv)

definition ellipsis :: string where "ellipsis = [CHR 0xE2, CHR 0x80, CHR 0xA6]"

definition truncate_text :: "string \<Rightarrow> nat \<Rightarrow> string" where
  "truncate_text s n =
     (let r = rune_chunks s
      in if length r \<le> n then s
         else if n \<le> 1 then concat (take n r) else concat (take (n - 1) r) @ ellipsis)"

section \<open>Sorting\<close>

datatype job_sort = SortNewest | SortName | SortStatus | SortProgress | SortSize | SortSpeed | SortTimeLeft

fun next_job_sort :: "job_sort \<Rightarrow> job_sort" where
  "next_job_sort SortNewest = SortName"
| "next_job_sort SortName = SortStatus"
| "next_job_sort SortStatus = SortProgress"
| "next_job_sort SortProgress = SortSize"
| "next_job_sort SortSize = SortSpeed"
| "next_job_sort SortSpeed = SortTimeLeft"
| "next_job_sort SortTimeLeft = SortNewest"

fun job_sort_name :: "job_sort \<Rightarrow> string" where
  "job_sort_name SortNewest = ''newest''"
| "job_sort_name SortName = ''name''"
| "job_sort_name SortStatus = ''status''"
| "job_sort_name SortProgress = ''progress''"
| "job_sort_name SortSize = ''size''"
| "job_sort_name SortSpeed = ''speed''"
| "job_sort_name SortTimeLeft = ''time left''"

fun status_rank :: "job_status \<Rightarrow> int" where
  "status_rank StatusActive = 0"
| "status_rank StatusQueued = 1"
| "status_rank StatusSeeding = 2"
| "status_rank StatusPaused = 3"
| "status_rank StatusFailed = 4"
| "status_rank StatusCanceled = 5"
| "status_rank StatusCompleted = 6"

definition job_name :: "job \<Rightarrow> string" where
  "job_name j =
     (case (if j_type j = JobWebDAV then split_webdav_source (j_source j) else None) of
        Some (_, remote) \<Rightarrow> path_base (trim_suffix remote ''/'')
      | None \<Rightarrow>
          if j_type j = JobURL \<and> j_output j \<noteq> [] then path_base (j_output j)
          else if j_resolved j \<noteq> [] then path_base (hd (j_resolved j)) else j_source j)"

definition job_fraction :: "job \<Rightarrow> float64" where
  "job_fraction j =
     (if j_bytes_total j \<le> 0 then FFin (if j_status j = StatusCompleted then 1 else 0)
      else f64_div (f64_of_int (j_bytes_done j)) (f64_of_int (j_bytes_total j)))"

definition job_less :: "job_sort \<Rightarrow> job_view \<Rightarrow> job_view \<Rightarrow> bool" where
  "job_less srt a b =
     (case srt of
        SortNewest \<Rightarrow> False
      | SortName \<Rightarrow> to_lower (job_name (jv_job a)) < to_lower (job_name (jv_job b))
      | SortStatus \<Rightarrow> status_rank (j_status (jv_job a)) < status_rank (j_status (jv_job b))
      | SortProgress \<Rightarrow> f64_less (job_fraction (jv_job b)) (job_fraction (jv_job a))
      | SortSize \<Rightarrow> j_bytes_total (jv_job b) < j_bytes_total (jv_job a)
      | SortSpeed \<Rightarrow> f64_less (jv_speed b) (jv_speed a)
      | SortTimeLeft \<Rightarrow>
          if (jv_eta a < 0) \<noteq> (jv_eta b < 0) then 0 \<le> jv_eta a else jv_eta a < jv_eta b)"

text \<open>\<^verbatim>\<open>newestFirst\<close> is \<open>rev\<close>.\<close>

definition sort_jobs :: "job_sort \<Rightarrow> bool \<Rightarrow> job_view list \<Rightarrow> job_view list" where
  "sort_jobs srt reverse jobs =
     (if srt = SortNewest then if reverse then jobs else rev jobs
      else sort_by (\<lambda>a b. if reverse then job_less srt b a else job_less srt a b) (rev jobs))"

section \<open>The dashboard\<close>

record tui =
  tu_jobs :: "job_view list"
  tu_raw :: "job_view list"
  tu_err :: "gerror option"
  tu_status :: string
  tu_width :: int
  tu_height :: int
  tu_cursor :: int
  tu_selected :: "string list"
  tu_sort :: job_sort
  tu_reverse :: bool
  tu_confirm :: "(string list \<times> bool) option"
  tu_new :: "new_job option"
  tu_browse :: "browser option"
  tu_settings :: "settings_tab option"
  tu_serve :: "serve_form option"
  tu_details :: "details option"
  tu_saved :: "conn list"
  tu_opened :: nat

definition new_tui :: "conn list \<Rightarrow> tui" where
  "new_tui conns =
     \<lparr>tu_jobs = [], tu_raw = [], tu_err = None, tu_status = [], tu_width = 0, tu_height = 0, tu_cursor = 0, tu_selected = [],
      tu_sort = SortNewest, tu_reverse = False, tu_confirm = None, tu_new = None, tu_browse = None, tu_settings = None,
      tu_serve = None, tu_details = None, tu_saved = conns, tu_opened = 0\<rparr>"

text \<open>
  \<open>ue_set_cursor\<close>, \<open>ue_set_rows\<close> and \<open>ue_table_key\<close> are what the table does to its cursor, given how many rows it has.
\<close>

record tui_env =
  ue_set_cursor :: "nat \<Rightarrow> int \<Rightarrow> int"
  ue_set_rows :: "nat \<Rightarrow> int \<Rightarrow> int"
  ue_table_key :: "string \<Rightarrow> nat \<Rightarrow> int \<Rightarrow> int"
  ue_edit :: "string \<Rightarrow> string \<Rightarrow> string"
  ue_home :: "string result"
  ue_browse :: browse_env
  ue_wizard :: wizard_env
  ue_serve :: serve_env

datatype tui_cmd =
    CNone
  | CQuit
  | CWait
  | CBulk string "string list"
  | CRemove "string list" bool
  | CPlay job_view
  | CWizard wizard_cmd
  | CWizardSettings nat
  | CBrowse browse_cmd
  | CSettings settings_cmd
  | CDetails details_cmd

datatype tui_msg =
    MSize int int
  | MJobs "job_view list"
  | MSubErr gerror
  | MSubEnded
  | MActionDone "gerror option"
  | MPlayed string "gerror option"
  | MBulkDone nat nat nat "gerror option"
  | MListed list_reply
  | MStarted nat string "gerror option"
  | MTorrentFiles "nat \<times> nat" "(string \<times> torrent_file list) result"
  | MWizardSettings nat "bool \<times> bool"
  | MDetails details_reply
  | MSettings settings_reply
  | MKey string

section \<open>The table\<close>

definition view_id :: "job_view \<Rightarrow> string" where
  "view_id v = j_id (jv_job v)"

definition cursor_job :: "tui \<Rightarrow> job_view option" where
  "cursor_job t =
     (if tu_cursor t < 0 \<or> int (length (tu_jobs t)) \<le> tu_cursor t then None else Some (tu_jobs t ! nat (tu_cursor t)))"

definition cursor_job_id :: "tui \<Rightarrow> string" where
  "cursor_job_id t = (case cursor_job t of None \<Rightarrow> [] | Some j \<Rightarrow> view_id j)"

definition prune_selected :: "tui \<Rightarrow> tui" where
  "prune_selected t = t\<lparr>tu_selected := filter (\<lambda>i. i \<in> view_id ` set (tu_jobs t)) (tu_selected t)\<rparr>"

definition action_targets :: "tui \<Rightarrow> string list" where
  "action_targets t =
     (if tu_selected t \<noteq> [] then filter (\<lambda>i. i \<in> set (tu_selected t)) (map view_id (tu_jobs t))
      else case cursor_job t of None \<Rightarrow> [] | Some j \<Rightarrow> [view_id j])"

definition rebuild_rows :: "tui_env \<Rightarrow> tui \<Rightarrow> tui" where
  "rebuild_rows env t = t\<lparr>tu_cursor := ue_set_rows env (length (tu_jobs t)) (tu_cursor t)\<rparr>"

text \<open>The row of the first job of an id, the first row if there is none.\<close>

fun job_row :: "string \<Rightarrow> job_view list \<Rightarrow> nat" where
  "job_row i [] = 0"
| "job_row i (j # js) = (if view_id j = i then 0 else if i \<in> view_id ` set js then Suc (job_row i js) else 0)"

definition apply_jobs :: "tui_env \<Rightarrow> job_view list \<Rightarrow> tui \<Rightarrow> tui" where
  "apply_jobs env jobs t =
     (let prev = cursor_job_id t;
          t = prune_selected (t\<lparr>tu_raw := jobs, tu_jobs := sort_jobs (tu_sort t) (tu_reverse t) jobs, tu_err := None\<rparr>);
          c = (if prev \<noteq> [] then job_row prev (tu_jobs t) else 0)
      in t\<lparr>tu_cursor := ue_set_cursor env (length (tu_jobs t)) (int c)\<rparr>)"

text \<open>The widths of the columns of paths and of sources.\<close>

definition fixed_width :: int where "fixed_width = 3 + 9 + 8 + 19 + (18 + 5) + (6 + 1 + 11) + 10"

definition column_widths :: "int \<Rightarrow> int \<times> int" where
  "column_widths width =
     (let extra = width - fixed_width - 9 * 2 - 16 - 20
      in if 0 < extra then (16 + extra * 2 div 5, 20 + (extra - extra * 2 div 5)) else (16, 20))"

definition selected_job_error :: "tui \<Rightarrow> string" where
  "selected_job_error t =
     (case cursor_job t of
        None \<Rightarrow> []
      | Some v \<Rightarrow>
          if j_status (jv_job v) \<noteq> StatusFailed \<or> j_error (jv_job v) = [] then []
          else view_id v @ '' failed: '' @ j_error (jv_job v))"

definition selected_job_phase :: "tui \<Rightarrow> string" where
  "selected_job_phase t =
     (case cursor_job t of
        None \<Rightarrow> []
      | Some v \<Rightarrow> if j_status (jv_job v) \<noteq> StatusActive \<or> \<not> has_prefix (jv_phase v) ''TorBox'' then [] else jv_phase v)"

text \<open>The messages under the table.\<close>

definition footer_lines :: "tui \<Rightarrow> string list" where
  "footer_lines t =
     (case tu_err t of Some e \<Rightarrow> [''daemon connection error: '' @ err_string e] | None \<Rightarrow> []) @
     (if tu_status t \<noteq> [] then [tu_status t]
      else if selected_job_error t \<noteq> [] then [selected_job_error t]
      else if selected_job_phase t \<noteq> [] then [selected_job_phase t] else [])"

section \<open>Actions\<close>

text \<open>The jobs of a bulk action, one after another: how many there are, how many succeeded and failed, and the first error.\<close>

definition bulk_action :: "(string \<Rightarrow> gerror option) \<Rightarrow> string list \<Rightarrow> nat \<times> nat \<times> nat \<times> gerror option" where
  "bulk_action call ids =
     (let answers = map call ids; errs = filter (\<lambda>a. a \<noteq> None) answers
      in (length ids, length (filter (\<lambda>a. a = None) answers), length errs, case errs of [] \<Rightarrow> None | e # _ \<Rightarrow> e))"

definition error_text :: "gerror option \<Rightarrow> string" where
  "error_text e = (case e of Some e \<Rightarrow> err_string e | None \<Rightarrow> [])"

definition bulk_status :: "nat \<Rightarrow> nat \<Rightarrow> nat \<Rightarrow> gerror option \<Rightarrow> string" where
  "bulk_status n ok failed e =
     (if n \<le> 1 \<and> failed = 0 then []
      else if n \<le> 1 then ''error: '' @ error_text e
      else if failed = 0 then itoa (int ok) @ '' job(s) updated''
      else itoa (int ok) @ '' job(s) updated, '' @ itoa (int failed) @ '' failed: '' @ error_text e)"

definition local_playback_target :: "job \<Rightarrow> string option" where
  "local_playback_target j =
     (if j_status j \<noteq> StatusCompleted \<and> j_status j \<noteq> StatusSeeding then None
      else case j_type j of
        JobURL \<Rightarrow> if j_output j = [] then None else Some (j_output j)
      | JobTorrent \<Rightarrow> (case j_resolved j of [] \<Rightarrow> None | p # _ \<Rightarrow> Some (path_join [j_output j, p]))
      | _ \<Rightarrow> (case j_resolved j of [] \<Rightarrow> None | p # _ \<Rightarrow> Some p))"

section \<open>Keys of the dashboard\<close>

definition resolve_remove :: "string \<Rightarrow> string list \<times> bool \<Rightarrow> tui \<Rightarrow> tui \<times> tui_cmd" where
  "resolve_remove k pending t =
     (if k = ''y'' \<or> k = ''Y''
      then (t\<lparr>tu_confirm := None, tu_status := [], tu_selected := []\<rparr>, CRemove (fst pending) (snd pending))
      else (t\<lparr>tu_confirm := None, tu_status := ''remove canceled''\<rparr>, CNone))"

definition remove_prompt :: "string list \<Rightarrow> bool \<Rightarrow> string" where
  "remove_prompt ids purge =
     (let what = (case ids of [i] \<Rightarrow> i | _ \<Rightarrow> itoa (int (length ids)) @ '' jobs'')
      in if purge then ''Remove '' @ what @ '' AND DELETE the downloaded file(s)? [y/N]''
         else ''Remove '' @ what @ '' from the list (keeps files)? [y/N]'')"

definition prompt_remove :: "bool \<Rightarrow> tui \<Rightarrow> tui" where
  "prompt_remove purge t =
     (let ids = action_targets t
      in if ids = [] then t else t\<lparr>tu_confirm := Some (ids, purge), tu_status := remove_prompt ids purge\<rparr>)"

definition toggle_selected :: "tui_env \<Rightarrow> tui \<Rightarrow> tui" where
  "toggle_selected env t =
     (case cursor_job t of
        None \<Rightarrow> t
      | Some j \<Rightarrow>
          rebuild_rows env (t\<lparr>tu_selected :=
            (if view_id j \<in> set (tu_selected t) then removeAll (view_id j) (tu_selected t) else view_id j # tu_selected t)\<rparr>))"

definition action_of :: "string \<Rightarrow> string option" where
  "action_of k =
     (if k = ''p'' then Some ''pause'' else if k = ''r'' then Some ''resume''
      else if k = ''x'' then Some ''cancel'' else if k = ''R'' then Some ''retry'' else None)"

definition bulk_key :: "tui_env \<Rightarrow> string \<Rightarrow> tui \<Rightarrow> tui \<times> tui_cmd" where
  "bulk_key env api t =
     (let ids = action_targets t
      in if ids = [] then (t, CNone) else (rebuild_rows env (t\<lparr>tu_selected := []\<rparr>), CBulk api ids))"

text \<open>What the browser works on, of the dashboard.\<close>

definition to_browse :: "tui \<Rightarrow> browse_tui" where
  "to_browse t = \<lparr>bt_browse = tu_browse t, bt_status = tu_status t, bt_saved = tu_saved t, bt_opened = tu_opened t\<rparr>"

definition from_browse :: "browse_tui \<Rightarrow> tui \<Rightarrow> tui" where
  "from_browse b t = t\<lparr>tu_browse := bt_browse b, tu_status := bt_status b, tu_saved := bt_saved b, tu_opened := bt_opened b\<rparr>"

definition open_details :: "tui \<Rightarrow> tui \<times> tui_cmd" where
  "open_details t =
     (case cursor_job t of
        None \<Rightarrow> (t, CNone)
      | Some j \<Rightarrow>
          (t\<lparr>tu_details := Some (new_details (tu_opened t) (view_id j)), tu_opened := Suc (tu_opened t)\<rparr>,
           CDetails (DLoad (tu_opened t) (view_id j))))"

definition dashboard_key :: "tui_env \<Rightarrow> string \<Rightarrow> tui \<Rightarrow> tui \<times> tui_cmd" where
  "dashboard_key env k t0 =
     (let t = t0\<lparr>tu_status := []\<rparr>; n = tu_opened t
      in if k = ''q'' then (t, CQuit)
         else if k = ''n'' then (t\<lparr>tu_new := Some (new_new_job n), tu_opened := Suc n\<rparr>, CWizardSettings n)
         else if k = ''w'' then (from_browse (open_browser (ue_browse env) (to_browse t)) t, CNone)
         else if k = ''s'' then (t\<lparr>tu_settings := Some (new_settings_tab n), tu_opened := Suc n\<rparr>, CSettings (SLoad n))
         else if k = ''S'' then (t\<lparr>tu_serve := Some (new_serve_form (ue_serve env))\<rparr>, CNone)
         else if k = ''i'' \<or> k = ''enter'' then open_details t
         else if k = ''t'' then (let t = t\<lparr>tu_sort := next_job_sort (tu_sort t)\<rparr> in (apply_jobs env (tu_raw t) t, CNone))
         else if k = ''T'' then (let t = t\<lparr>tu_reverse := (\<not> tu_reverse t)\<rparr> in (apply_jobs env (tu_raw t) t, CNone))
         else if k = '' '' then (toggle_selected env t, CNone)
         else case action_of k of
           Some api \<Rightarrow> bulk_key env api t
         | None \<Rightarrow>
             if k = ''d'' \<or> k = ''D'' then (prompt_remove (k = ''D'') t, CNone)
             else if k = ''o'' then
               (case cursor_job t of None \<Rightarrow> (t, CNone) | Some j \<Rightarrow> (t\<lparr>tu_status := ''starting player...''\<rparr>, CPlay j))
             else (t\<lparr>tu_cursor := ue_table_key env k (length (tu_jobs t)) (tu_cursor t)\<rparr>, CNone))"

definition set_status :: "string option \<Rightarrow> tui \<Rightarrow> tui" where
  "set_status s t = (case s of None \<Rightarrow> t | Some s \<Rightarrow> t\<lparr>tu_status := s\<rparr>)"

text \<open>A key goes to the overlay that is open; \<open>None\<close> is a panic.\<close>

definition tui_key :: "tui_env \<Rightarrow> string \<Rightarrow> tui \<Rightarrow> (tui \<times> tui_cmd) option" where
  "tui_key env k t =
     (if k = ''ctrl+c'' then Some (t, CQuit)
      else case tu_new t of
        Some nj \<Rightarrow>
          map_option (\<lambda>(res, status, c). (set_status status (t\<lparr>tu_new := res\<rparr>), CWizard c)) (new_job_key (ue_wizard env) (tu_height t) k nj)
      | None \<Rightarrow>
          (case tu_browse t of
             Some _ \<Rightarrow> (case browse_key (ue_browse env) k (to_browse t) of (b, c) \<Rightarrow> Some (from_browse b t, CBrowse c))
           | None \<Rightarrow>
               (case tu_settings t of
                  Some st \<Rightarrow> (case settings_key (ue_edit env) k st of (res, c) \<Rightarrow> Some (t\<lparr>tu_settings := res\<rparr>, CSettings c))
                | None \<Rightarrow>
                    (case tu_serve t of
                       Some s \<Rightarrow> (case serve_key (ue_serve env) k s of (res, status) \<Rightarrow> Some (set_status status (t\<lparr>tu_serve := res\<rparr>), CNone))
                     | None \<Rightarrow>
                         (case tu_details t of
                            Some st \<Rightarrow>
                              (case details_key (tu_jobs t) (tu_height t) k st of (res, c) \<Rightarrow> Some (t\<lparr>tu_details := res\<rparr>, CDetails c))
                          | None \<Rightarrow>
                              (case tu_confirm t of
                                 Some pending \<Rightarrow> Some (resolve_remove k pending t)
                               | None \<Rightarrow> Some (dashboard_key env k t)))))))"

section \<open>Messages\<close>

definition done_status :: "gerror option \<Rightarrow> string" where
  "done_status e = (case e of Some e \<Rightarrow> ''error: '' @ err_string e | None \<Rightarrow> [])"

definition played_status :: "string result \<Rightarrow> string \<Rightarrow> gerror option \<Rightarrow> string" where
  "played_status home target e =
     (case e of Some e \<Rightarrow> ''error: '' @ err_string e | None \<Rightarrow> ''playing '' @ truncate_text (shorten_home home target) 70)"

fun tui_update :: "tui_env \<Rightarrow> tui_msg \<Rightarrow> tui \<Rightarrow> (tui \<times> tui_cmd) option" where
  "tui_update env (MSize w h) t = Some (t\<lparr>tu_width := w, tu_height := h\<rparr>, CNone)"
| "tui_update env (MJobs jobs) t = Some (apply_jobs env jobs t, CWait)"
| "tui_update env (MSubErr e) t = Some (t\<lparr>tu_err := Some e\<rparr>, CWait)"
| "tui_update env MSubEnded t = Some (t, CNone)"
| "tui_update env (MActionDone e) t = Some (t\<lparr>tu_status := done_status e\<rparr>, CNone)"
| "tui_update env (MPlayed target e) t = Some (t\<lparr>tu_status := played_status (ue_home env) target e\<rparr>, CNone)"
| "tui_update env (MBulkDone n ok failed e) t = Some (t\<lparr>tu_status := bulk_status n ok failed e\<rparr>, CNone)"
| "tui_update env (MListed r) t = Some (from_browse (browse_reply r (to_browse t)) t, CNone)"
| "tui_update env (MStarted n out e) t = Some (t\<lparr>tu_status := started_status (ue_home env) n out e\<rparr>, CNone)"
| "tui_update env (MTorrentFiles i r) t = Some (t\<lparr>tu_new := torrent_files_loaded i r (tu_new t)\<rparr>, CNone)"
| "tui_update env (MWizardSettings n rp) t = Some (t\<lparr>tu_new := wizard_settings n rp (tu_new t)\<rparr>, CNone)"
| "tui_update env (MDetails r) t =
     (case take_details (tu_jobs t) r (tu_details t) of (res, c) \<Rightarrow> Some (t\<lparr>tu_details := res\<rparr>, CDetails c))"
| "tui_update env (MSettings r) t = Some (t\<lparr>tu_settings := take_settings r (tu_settings t)\<rparr>, CNone)"
| "tui_update env (MKey k) t = tui_key env k t"

text \<open>\<^verbatim>\<open>View\<close>: the screen that is drawn.\<close>

datatype tui_screen = ScreenNewJob | ScreenBrowse | ScreenSettings | ScreenServe | ScreenDetails | ScreenDashboard

definition screen_of :: "tui \<Rightarrow> tui_screen" where
  "screen_of t =
     (if tu_new t \<noteq> None then ScreenNewJob else if tu_browse t \<noteq> None then ScreenBrowse
      else if tu_settings t \<noteq> None then ScreenSettings else if tu_serve t \<noteq> None then ScreenServe
      else if tu_details t \<noteq> None then ScreenDetails else ScreenDashboard)"

end
