(* ===== verification/DashboardProps.thy ===== *)
theory DashboardProps
  imports Dashboard SettingsTabProps DetailsProps NewJobProps
begin

text \<open>
  The dashboard: jobs are shown in the order chosen, the cursor stays on its job, at most one overlay is open,
  nothing panics, and what is removed is what was asked about.
\<close>

section \<open>Order\<close>

text \<open>Without NaN the comparisons of floats are those of \<open>tame\<close> values.\<close>

definition tame :: "float64 \<Rightarrow> float64" where
  "tame f = (if f = FNaN then FFin 0 else f)"

lemma tame_less_asym: "f64_less (tame x) (tame y) \<Longrightarrow> \<not> f64_less (tame y) (tame x)"
  by (cases "tame x"; cases "tame y") auto

lemma tame_less_between: "f64_less (tame x) (tame z) \<Longrightarrow> f64_less (tame x) (tame y) \<or> f64_less (tame y) (tame z)"
  by (cases x; cases y; cases z) (auto simp: tame_def)

definition tame_job_less :: "job_sort \<Rightarrow> job_view \<Rightarrow> job_view \<Rightarrow> bool" where
  "tame_job_less srt a b =
     (case srt of
        SortProgress \<Rightarrow> f64_less (tame (job_fraction (jv_job b))) (tame (job_fraction (jv_job a)))
      | SortSpeed \<Rightarrow> f64_less (tame (jv_speed b)) (tame (jv_speed a))
      | _ \<Rightarrow> job_less srt a b)"

definition job_order :: "job_sort \<Rightarrow> bool \<Rightarrow> job_view \<Rightarrow> job_view \<Rightarrow> bool" where
  "job_order srt reverse a b = (if reverse then tame_job_less srt b a else tame_job_less srt a b)"

interpretation shown_jobs: weak_order "job_order srt reverse"
proof unfold_locales
  fix x y
  show "job_order srt reverse x y \<Longrightarrow> \<not> job_order srt reverse y x"
    using tame_less_asym
    by (cases srt) (auto simp: job_order_def tame_job_less_def job_less_def split: if_splits)
next
  fix x z y
  show "job_order srt reverse x z \<Longrightarrow> job_order srt reverse x y \<or> job_order srt reverse y z"
    using tame_less_between
    by (cases srt) (auto simp: job_order_def tame_job_less_def job_less_def split: if_splits)
qed

lemma insert_by_cong:
  "(\<And>y. y \<in> set ys \<Longrightarrow> lt y x = lt' y x) \<Longrightarrow> insert_by lt x ys = insert_by lt' x ys"
  by (induction ys) auto

lemma sort_by_cong:
  assumes "\<And>x y. x \<in> set xs \<Longrightarrow> y \<in> set xs \<Longrightarrow> lt x y = lt' x y"
  shows "sort_by lt xs = sort_by lt' xs"
  using assms by (induction xs) (auto intro: insert_by_cong)

definition no_nan :: "job_view \<Rightarrow> bool" where
  "no_nan v \<longleftrightarrow> jv_speed v \<noteq> FNaN \<and> job_fraction (jv_job v) \<noteq> FNaN"

lemma sort_jobs_order:
  assumes "\<forall>v \<in> set jobs. no_nan v" "srt \<noteq> SortNewest"
  shows "sort_jobs srt reverse jobs = sort_by (job_order srt reverse) (rev jobs)"
proof -
  have "sort_by (\<lambda>a b. if reverse then job_less srt b a else job_less srt a b) (rev jobs) = sort_by (job_order srt reverse) (rev jobs)"
    using assms(1)
    by (intro sort_by_cong) (auto simp: job_order_def tame_job_less_def job_less_def no_nan_def tame_def split: job_sort.split)
  then show ?thesis using assms(2) by (simp add: sort_jobs_def)
qed

lemma mset_sort_jobs [simp]: "mset (sort_jobs srt reverse jobs) = mset jobs"
  by (simp add: sort_jobs_def)

lemma set_sort_jobs [simp]: "set (sort_jobs srt reverse jobs) = set jobs"
  by (metis mset_sort_jobs set_mset_mset)

text \<open>C33: 
  C1: the dashboard shows every job of the snapshot once, in the chosen order, or in its reverse; jobs that are equal in
  it keep newest first, in either direction, so rows do not change places from one snapshot to the next. Sorted by
  age they are newest first, or oldest first. (No speed or progress may be NaN.)
\<close>

theorem jobs_are_shown_in_order:
  assumes "\<forall>v \<in> set jobs. no_nan v" and "no_nan z"
  shows "mset (sort_jobs srt reverse jobs) = mset jobs \<and>
    sorted_wrt (\<lambda>a b. \<not> (if reverse then job_less srt a b else job_less srt b a)) (sort_jobs srt reverse jobs) \<and>
    (srt = SortNewest \<longrightarrow> sort_jobs srt reverse jobs = (if reverse then jobs else rev jobs)) \<and>
    (srt \<noteq> SortNewest \<longrightarrow>
     filter (\<lambda>a. \<not> job_less srt a z \<and> \<not> job_less srt z a) (sort_jobs srt reverse jobs) =
     filter (\<lambda>a. \<not> job_less srt a z \<and> \<not> job_less srt z a) (rev jobs))"
proof (cases "srt = SortNewest")
  case True
  then show ?thesis
    by (simp add: sort_jobs_def job_less_def sorted_wrt_iff_nth_less)
next
  case False
  have le: "job_order srt reverse b a = (if reverse then job_less srt a b else job_less srt b a)" if "no_nan a" "no_nan b" for a b
    using that by (auto simp: job_order_def tame_job_less_def job_less_def no_nan_def tame_def split: job_sort.split)
  have s: "sorted_wrt (\<lambda>a b. \<not> job_order srt reverse b a) (sort_jobs srt reverse jobs)"
    unfolding sort_jobs_order [OF assms(1) False] by (rule shown_jobs.sort_ordered)
  have "sorted_wrt (\<lambda>a b. \<not> (if reverse then job_less srt a b else job_less srt b a)) (sort_jobs srt reverse jobs)"
    by (rule sorted_wrt_mono_rel [OF _ s]) (use assms le in auto)
  moreover have "filter (\<lambda>a. \<not> job_less srt a z \<and> \<not> job_less srt z a) (sort_jobs srt reverse jobs) =
     filter (\<lambda>a. \<not> job_less srt a z \<and> \<not> job_less srt z a) (rev jobs)"
  proof -
    have e: "(\<not> job_less srt a z \<and> \<not> job_less srt z a) = (\<not> job_order srt reverse a z \<and> \<not> job_order srt reverse z a)" if "a \<in> set jobs" for a
      using assms that le [of z a] le [of a z] by (auto split: if_splits)
    have "filter (\<lambda>a. \<not> job_less srt a z \<and> \<not> job_less srt z a) (sort_jobs srt reverse jobs) =
        filter (\<lambda>a. \<not> job_order srt reverse a z \<and> \<not> job_order srt reverse z a) (sort_jobs srt reverse jobs)"
      by (rule filter_cong) (auto simp: e)
    also have "\<dots> = filter (\<lambda>a. \<not> job_order srt reverse a z \<and> \<not> job_order srt reverse z a) (rev jobs)"
      unfolding sort_jobs_order [OF assms(1) False] by (rule shown_jobs.sort_stable)
    also have "\<dots> = filter (\<lambda>a. \<not> job_less srt a z \<and> \<not> job_less srt z a) (rev jobs)"
      by (rule filter_cong) (auto simp: e)
    finally show ?thesis .
  qed
  ultimately show ?thesis using False by simp
qed

section \<open>The cursor\<close>

lemma prune_selected_fields [simp]:
  "tu_jobs (prune_selected t) = tu_jobs t" "tu_cursor (prune_selected t) = tu_cursor t" "tu_confirm (prune_selected t) = tu_confirm t"
  by (simp_all add: prune_selected_def)

lemma job_row_hit:
  "i \<in> view_id ` set js \<Longrightarrow> job_row i js < length js \<and> view_id (js ! job_row i js) = i"
  by (induction js) auto

lemma job_row_miss: "i \<notin> view_id ` set js \<Longrightarrow> job_row i js = 0"
  by (cases js) auto

lemma apply_jobs_fields [simp]:
  "tu_jobs (apply_jobs env jobs t) = sort_jobs (tu_sort t) (tu_reverse t) jobs" "tu_raw (apply_jobs env jobs t) = jobs"
  "tu_err (apply_jobs env jobs t) = None" "tu_sort (apply_jobs env jobs t) = tu_sort t"
  "tu_reverse (apply_jobs env jobs t) = tu_reverse t" "tu_confirm (apply_jobs env jobs t) = tu_confirm t"
  "tu_new (apply_jobs env jobs t) = tu_new t" "tu_browse (apply_jobs env jobs t) = tu_browse t"
  "tu_settings (apply_jobs env jobs t) = tu_settings t" "tu_serve (apply_jobs env jobs t) = tu_serve t"
  "tu_details (apply_jobs env jobs t) = tu_details t" "tu_status (apply_jobs env jobs t) = tu_status t"
  "tu_selected (apply_jobs env jobs t) = filter (\<lambda>i. i \<in> view_id ` set jobs) (tu_selected t)"
  by (simp_all add: apply_jobs_def prune_selected_def Let_def)

text \<open>The table puts its cursor on a row it has.\<close>

definition table_ok :: "tui_env \<Rightarrow> bool" where
  "table_ok env \<longleftrightarrow> (\<forall>n c. 0 \<le> c \<longrightarrow> c < int n \<longrightarrow> ue_set_cursor env n c = c)"

text \<open>C32: 
  C1: a snapshot, and a change of the order, leave the cursor on the job it was on, as long as the daemon still has
  it; if it has not, or there was none, it goes to the first row, never to an arbitrary job.
\<close>

theorem cursor_follows_its_job:
  assumes "table_ok env" "jobs \<noteq> []"
  shows "case cursor_job (apply_jobs env jobs t) of
      None \<Rightarrow> False
    | Some j \<Rightarrow>
        if cursor_job_id t \<noteq> [] \<and> cursor_job_id t \<in> view_id ` set jobs then view_id j = cursor_job_id t
        else j = hd (sort_jobs (tu_sort t) (tu_reverse t) jobs)"
proof -
  let ?js = "sort_jobs (tu_sort t) (tu_reverse t) jobs" and ?i = "cursor_job_id t"
  have ne: "?js \<noteq> []" using assms(2) by (metis mset.simps(1) mset_sort_jobs mset_zero_iff)
  define c where "c = (if ?i \<noteq> [] then job_row ?i ?js else 0)"
  have "c < length ?js"
    using ne job_row_hit [of ?i ?js] job_row_miss [of ?i ?js] by (cases "?i \<in> view_id ` set ?js") (auto simp: c_def)
  moreover have "tu_cursor (apply_jobs env jobs t) = ue_set_cursor env (length ?js) (int c)"
    by (simp add: apply_jobs_def c_def Let_def prune_selected_def)
  ultimately have "tu_cursor (apply_jobs env jobs t) = int c"
    using assms(1) by (simp add: table_ok_def)
  then have "cursor_job (apply_jobs env jobs t) = Some (?js ! c)"
    using \<open>c < length ?js\<close> by (simp add: cursor_job_def)
  then show ?thesis
    using ne job_row_hit [of ?i ?js] job_row_miss [of ?i ?js] by (auto simp: c_def hd_conv_nth)
qed

text \<open>Two jobs, the older one under the cursor: it stays there when a third arrives on top.\<close>

definition sample_view :: "string \<Rightarrow> job_status \<Rightarrow> job_view" where
  "sample_view i st =
     \<lparr>jv_job = sample_job i st, jv_speed = FFin 0, jv_eta = -1, jv_upload = FFin 0, jv_ratio = FFin 0, jv_phase = []\<rparr>"

definition plain_tui_env :: tui_env where
  "plain_tui_env =
     \<lparr>ue_set_cursor = (\<lambda>n c. max 0 (min (int n - 1) c)), ue_set_rows = (\<lambda>n c. max 0 (min (int n - 1) c)), ue_table_key = (\<lambda>k n c. c),
      ue_edit = (\<lambda>s k. s @ k), ue_home = Inr ''/h'', 
      ue_browse = \<lparr>be_edit = (\<lambda>s k. s @ k), be_read = None, be_write = None, be_time = 0, be_client = (\<lambda>_. None), be_downloads = Inr ''/d''\<rparr>,
      ue_wizard = plain_wizard,
      ue_serve = \<lparr>se_edit = (\<lambda>s k. s @ k), se_cwd = Some ''/w'', se_downloads = Inr ''/d'', se_is_dir = (\<lambda>_. True),
        se_bind = (\<lambda>_ p. Inr p), se_cert = None, se_ifaces = None, se_loopback = (\<lambda>_. False)\<rparr>\<rparr>"

definition two_jobs :: tui where
  "two_jobs = (new_tui [])\<lparr>tu_jobs := [sample_view ''b'' StatusActive, sample_view ''a'' StatusPaused], tu_cursor := 1\<rparr>"

lemma plain_table_ok: "table_ok plain_tui_env"
  by (simp add: table_ok_def plain_tui_env_def)

lemma jobs_are_shown_in_order_witness:
  "sort_jobs SortStatus False [sample_view ''a'' StatusPaused, sample_view ''b'' StatusActive, sample_view ''c'' StatusActive] =
     [sample_view ''c'' StatusActive, sample_view ''b'' StatusActive, sample_view ''a'' StatusPaused] \<and>
   sorted_wrt (\<lambda>a b. \<not> job_less SortStatus b a)
     (sort_jobs SortStatus False [sample_view ''a'' StatusPaused, sample_view ''b'' StatusActive, sample_view ''c'' StatusActive])"
  using jobs_are_shown_in_order
    [of "[sample_view ''a'' StatusPaused, sample_view ''b'' StatusActive, sample_view ''c'' StatusActive]" "sample_view ''z'' StatusActive"
      SortStatus False]
  by (simp add: no_nan_def sample_view_def sample_job_def job_fraction_def sort_jobs_def job_less_def)

lemma cursor_follows_its_job_witness:
  "cursor_job_id two_jobs = ''a'' \<and>
   cursor_job_id (apply_jobs plain_tui_env
     [sample_view ''a'' StatusPaused, sample_view ''b'' StatusActive, sample_view ''c'' StatusActive] two_jobs) = ''a''"
  using cursor_follows_its_job
    [OF plain_table_ok, of "[sample_view ''a'' StatusPaused, sample_view ''b'' StatusActive, sample_view ''c'' StatusActive]" two_jobs]
  by (simp add: cursor_job_id_def cursor_job_def [of two_jobs] two_jobs_def [THEN arg_cong, of tu_jobs]
      two_jobs_def [THEN arg_cong, of tu_cursor] new_tui_def sample_view_def sample_job_def view_id_def split: option.splits)

section \<open>Overlays\<close>

definition overlays :: "tui \<Rightarrow> nat" where
  "overlays t = of_bool (tu_new t \<noteq> None) + of_bool (tu_browse t \<noteq> None) + of_bool (tu_settings t \<noteq> None) +
     of_bool (tu_serve t \<noteq> None) + of_bool (tu_details t \<noteq> None)"

definition one_overlay :: "tui \<Rightarrow> bool" where
  "one_overlay t \<longleftrightarrow> overlays t \<le> 1 \<and> (\<forall>p. tu_confirm t = Some p \<longrightarrow> overlays t = 0 \<and> fst p \<noteq> [])"

definition marks_shown :: "tui \<Rightarrow> bool" where
  "marks_shown t \<longleftrightarrow> set (tu_selected t) \<subseteq> view_id ` set (tu_jobs t)"

lemma browse_replies_keep:
  "bt_browse (browse_reply r b) = None \<longleftrightarrow> bt_browse b = None"
  by (cases r) (auto split: option.split)

lemma replies_keep:
  "(torrent_files_loaded i r nj = None) = (nj = None)" "(wizard_settings n rp nj = None) = (nj = None)"
  by (simp_all add: torrent_files_loaded_def wizard_settings_def split: option.split)

lemma overlay_replies_keep:
  "(take_settings sr st = None) = (st = None)" "(fst (take_details jobs dr dt) = None) = (dt = None)"
  by (cases sr; simp add: settings_result_def Let_def split: option.split sum.split)
    (cases dr; simp add: for_details_def split: option.split prod.split)

lemma from_browse_fields [simp]:
  "tu_new (from_browse b t) = tu_new t" "tu_browse (from_browse b t) = bt_browse b" "tu_settings (from_browse b t) = tu_settings t"
  "tu_serve (from_browse b t) = tu_serve t" "tu_details (from_browse b t) = tu_details t" "tu_confirm (from_browse b t) = tu_confirm t"
  "tu_jobs (from_browse b t) = tu_jobs t" "tu_selected (from_browse b t) = tu_selected t" "tu_cursor (from_browse b t) = tu_cursor t"
  by (simp_all add: from_browse_def)

lemma set_status_fields [simp]:
  "tu_new (set_status s t) = tu_new t" "tu_browse (set_status s t) = tu_browse t" "tu_settings (set_status s t) = tu_settings t"
  "tu_serve (set_status s t) = tu_serve t" "tu_details (set_status s t) = tu_details t" "tu_confirm (set_status s t) = tu_confirm t"
  "tu_jobs (set_status s t) = tu_jobs t" "tu_selected (set_status s t) = tu_selected t"
  by (simp_all add: set_status_def split: option.split)

lemma bt_browse_to_browse [simp]: "bt_browse (to_browse t) = tu_browse t"
  by (simp add: to_browse_def)

lemma action_targets_status [simp]: "action_targets (t\<lparr>tu_status := s\<rparr>) = action_targets t"
  by (simp add: action_targets_def cursor_job_def)

lemma action_of_cases: "action_of k \<noteq> None \<Longrightarrow> k \<in> {''p'', ''r'', ''x'', ''R''}"
  by (simp add: action_of_def split: if_splits)

lemma marks_after_apply: "marks_shown (apply_jobs env jobs t)"
  by (auto simp: marks_shown_def)

lemma action_targets_shown: "marks_shown t \<Longrightarrow> set (action_targets t) \<subseteq> view_id ` set (tu_jobs t)"
  by (auto simp: action_targets_def cursor_job_def split: if_splits)

lemma overlays_fields [simp]:
  "overlays (t\<lparr>tu_status := s\<rparr>) = overlays t" "overlays (t\<lparr>tu_cursor := c\<rparr>) = overlays t" "overlays (t\<lparr>tu_confirm := p\<rparr>) = overlays t"
  "overlays (t\<lparr>tu_selected := is\<rparr>) = overlays t" "overlays (t\<lparr>tu_sort := srt\<rparr>) = overlays t" "overlays (t\<lparr>tu_reverse := b\<rparr>) = overlays t"
  "overlays (t\<lparr>tu_err := e\<rparr>) = overlays t" "overlays (t\<lparr>tu_width := w, tu_height := h\<rparr>) = overlays t"
  "overlays (apply_jobs env jobs t) = overlays t" "overlays (rebuild_rows env t) = overlays t" "overlays (set_status st t) = overlays t"
  by (simp_all add: overlays_def rebuild_rows_def)

lemma overlays_zero: "overlays t = 0 \<longleftrightarrow>
    tu_new t = None \<and> tu_browse t = None \<and> tu_settings t = None \<and> tu_serve t = None \<and> tu_details t = None"
  by (auto simp: overlays_def)

lemma rebuild_rows_fields [simp]:
  "tu_confirm (rebuild_rows env t) = tu_confirm t" "tu_jobs (rebuild_rows env t) = tu_jobs t" "tu_selected (rebuild_rows env t) = tu_selected t"
  "tu_new (rebuild_rows env t) = tu_new t"
  by (simp_all add: rebuild_rows_def)

lemma toggle_selected_fields [simp]:
  "overlays (toggle_selected env t) = overlays t" "tu_confirm (toggle_selected env t) = tu_confirm t"
  "tu_new (toggle_selected env t) = tu_new t" "tu_jobs (toggle_selected env t) = tu_jobs t"
  by (simp_all add: toggle_selected_def split: option.split)

lemma bulk_key_fields [simp]:
  "overlays (fst (bulk_key env api t)) = overlays t" "tu_confirm (fst (bulk_key env api t)) = tu_confirm t"
  "tu_new (fst (bulk_key env api t)) = tu_new t" "tu_jobs (fst (bulk_key env api t)) = tu_jobs t"
  "set (tu_selected (fst (bulk_key env api t))) \<subseteq> set (tu_selected t)"
  by (auto simp: bulk_key_def Let_def)

lemma prompt_remove_fields [simp]:
  "overlays (prompt_remove purge t) = overlays t" "tu_new (prompt_remove purge t) = tu_new t" "tu_jobs (prompt_remove purge t) = tu_jobs t"
  "tu_selected (prompt_remove purge t) = tu_selected t"
  "tu_confirm (prompt_remove purge t) = (if action_targets t = [] then tu_confirm t else Some (action_targets t, purge))"
  by (simp_all add: prompt_remove_def Let_def)

lemma open_details_fields [simp]:
  "tu_new (fst (open_details t)) = tu_new t" "tu_browse (fst (open_details t)) = tu_browse t" "tu_settings (fst (open_details t)) = tu_settings t"
  "tu_serve (fst (open_details t)) = tu_serve t" "tu_confirm (fst (open_details t)) = tu_confirm t" "tu_jobs (fst (open_details t)) = tu_jobs t"
  "tu_selected (fst (open_details t)) = tu_selected t"
  by (simp_all add: open_details_def split: option.split)

lemma toggle_selected_shown: "marks_shown t \<Longrightarrow> marks_shown (toggle_selected env t)"
  by (auto simp: toggle_selected_def marks_shown_def cursor_job_def split: option.splits if_splits)

text \<open>A key of the dashboard opens one overlay, or arms the removal of the jobs that are acted on, or neither.\<close>

lemma dashboard_key_overlays:
  assumes "overlays t = 0"
  shows "overlays (fst (dashboard_key env k t)) \<le> 1"
proof -
  note none = assms [unfolded overlays_zero]
  have "overlays (fst (open_details t')) \<le> 1" if "overlays t' = 0" for t'
    using that by (simp add: overlays_def)
  moreover have "overlays (from_browse b t') \<le> 1" if "overlays t' = 0" for b t'
    using that by (simp add: overlays_def)
  moreover have "overlays (t\<lparr>tu_status := s, tu_new := x, tu_opened := n\<rparr>) \<le> 1" "overlays (t\<lparr>tu_status := s, tu_settings := y, tu_opened := n\<rparr>) \<le> 1"
    "overlays (t\<lparr>tu_status := s, tu_serve := z\<rparr>) \<le> 1" for s x y z n
    using none by (simp_all add: overlays_def)
  ultimately show ?thesis
    using assms by (simp add: dashboard_key_def Let_def split: option.split)
qed

lemma dashboard_key_confirm:
  assumes "tu_confirm t = None"
  shows "tu_confirm (fst (dashboard_key env k t)) =
      (if (k = ''d'' \<or> k = ''D'') \<and> action_targets t \<noteq> [] then Some (action_targets t, k = ''D'') else None)"
  using assms by (simp add: dashboard_key_def action_of_def Let_def split: option.split)

lemma dashboard_key_armed:
  assumes "overlays t = 0" "k = ''d'' \<or> k = ''D''"
  shows "overlays (fst (dashboard_key env k t)) = 0"
  using assms by (auto simp: dashboard_key_def action_of_def Let_def)

lemma dashboard_key_shown:
  assumes "marks_shown t"
  shows "marks_shown (fst (dashboard_key env k t))"
proof -
  have "marks_shown (fst (bulk_key env api t'))" if "marks_shown t'" for api t'
    using that by (metis bulk_key_fields(4,5) marks_shown_def subset_trans)
  moreover have "marks_shown (t\<lparr>tu_status := s\<rparr>)" for s
    using assms by (simp add: marks_shown_def)
  moreover have "marks_shown (fst (open_details (t\<lparr>tu_status := s\<rparr>)))" "marks_shown (prompt_remove purge (t\<lparr>tu_status := s\<rparr>))"
    "marks_shown (from_browse b (t\<lparr>tu_status := s\<rparr>))" for s purge b
    using assms by (simp_all add: marks_shown_def)
  moreover have "marks_shown (t\<lparr>tu_status := s, tu_new := x, tu_opened := n\<rparr>)" "marks_shown (t\<lparr>tu_status := s, tu_settings := y, tu_opened := n\<rparr>)"
    "marks_shown (t\<lparr>tu_status := s, tu_serve := z\<rparr>)" "marks_shown (t\<lparr>tu_status := s, tu_cursor := c\<rparr>)" for s x y z n c
    using assms by (simp_all add: marks_shown_def)
  ultimately show ?thesis
    by (simp add: dashboard_key_def Let_def marks_after_apply toggle_selected_shown split: option.split)
qed

section \<open>Keys and messages\<close>

lemma overlays_replaced:
  "overlays t \<le> 1 \<Longrightarrow> tu_new t \<noteq> None \<Longrightarrow> overlays (t\<lparr>tu_new := x1\<rparr>) \<le> 1"
  "overlays t \<le> 1 \<Longrightarrow> tu_browse t \<noteq> None \<Longrightarrow> overlays (from_browse b t) \<le> 1"
  "overlays t \<le> 1 \<Longrightarrow> tu_settings t \<noteq> None \<Longrightarrow> overlays (t\<lparr>tu_settings := x2\<rparr>) \<le> 1"
  "overlays t \<le> 1 \<Longrightarrow> tu_serve t \<noteq> None \<Longrightarrow> overlays (t\<lparr>tu_serve := x3\<rparr>) \<le> 1"
  "overlays t \<le> 1 \<Longrightarrow> tu_details t \<noteq> None \<Longrightarrow> overlays (t\<lparr>tu_details := x4\<rparr>) \<le> 1"
  by (auto simp: overlays_def of_bool_def split: if_splits)

lemma overlays_kept:
  "(x1 = None) = (tu_new t = None) \<Longrightarrow> overlays (t\<lparr>tu_new := x1\<rparr>) = overlays t"
  "(bt_browse b = None) = (tu_browse t = None) \<Longrightarrow> overlays (from_browse b t) = overlays t"
  "(x2 = None) = (tu_settings t = None) \<Longrightarrow> overlays (t\<lparr>tu_settings := x2\<rparr>) = overlays t"
  "(x4 = None) = (tu_details t = None) \<Longrightarrow> overlays (t\<lparr>tu_details := x4\<rparr>) = overlays t"
  by (simp_all add: overlays_def)

text \<open>
  What a key makes of the dashboard: it ends the program; it goes to an overlay, and neither the jobs, the marks
  nor a confirmation change; it answers a confirmation; or it is the dashboard's.
\<close>

lemma tui_key_steps:
  assumes "tui_key env k t = Some (t', c)" "overlays t \<le> 1"
  shows "k = ''ctrl+c'' \<and> t' = t \<and> c = CQuit \<or>
    overlays t = 1 \<and> overlays t' \<le> 1 \<and> tu_confirm t' = tu_confirm t \<and> tu_jobs t' = tu_jobs t \<and> tu_selected t' = tu_selected t \<and>
      (\<forall>ids purge. c \<noteq> CRemove ids purge) \<or>
    k \<noteq> ''ctrl+c'' \<and> overlays t = 0 \<and> (\<exists>pending. tu_confirm t = Some pending \<and> (t', c) = resolve_remove k pending t) \<or>
    k \<noteq> ''ctrl+c'' \<and> overlays t = 0 \<and> tu_confirm t = None \<and> (t', c) = dashboard_key env k t"
proof -
  have one: "overlays t = 1" if "\<not> (tu_new t = None \<and> tu_browse t = None \<and> tu_settings t = None \<and> tu_serve t = None \<and> tu_details t = None)"
    using that assms(2) overlays_zero [of t] by linarith
  have "\<not> (tu_new t = None \<and> tu_browse t = None \<and> tu_settings t = None \<and> tu_serve t = None \<and> tu_details t = None) \<Longrightarrow> k \<noteq> ''ctrl+c'' \<Longrightarrow>
     overlays t' \<le> 1 \<and> tu_confirm t' = tu_confirm t \<and> tu_jobs t' = tu_jobs t \<and> tu_selected t' = tu_selected t \<and> (\<forall>ids purge. c \<noteq> CRemove ids purge)"
    using assms overlays_replaced [OF assms(2)]
    by (auto simp: tui_key_def split: option.splits prod.splits)
  then show ?thesis
    using assms(1) one overlays_zero [of t]
    by (cases "tu_new t = None \<and> tu_browse t = None \<and> tu_settings t = None \<and> tu_serve t = None \<and> tu_details t = None"; cases "k = ''ctrl+c''")
      (auto simp: tui_key_def split: option.splits)
qed

lemma dashboard_key_removes_nothing: "snd (dashboard_key env k t) \<noteq> CRemove ids purge"
  by (simp add: dashboard_key_def bulk_key_def open_details_def Let_def split: option.split)

lemma tui_key_keeps:
  assumes "tui_key env k t = Some (t', c)" "one_overlay t" "marks_shown t"
  shows "one_overlay t' \<and> marks_shown t'"
proof -
  have le: "overlays t \<le> 1" using assms(2) by (simp add: one_overlay_def)
  from tui_key_steps [OF assms(1) le] consider
      "t' = t"
    | "overlays t = 1" "overlays t' \<le> 1" "tu_confirm t' = tu_confirm t" "tu_jobs t' = tu_jobs t" "tu_selected t' = tu_selected t"
    | pending where "overlays t = 0" "(t', c) = resolve_remove k pending t"
    | "overlays t = 0" "tu_confirm t = None" "(t', c) = dashboard_key env k t"
    by metis
  then show ?thesis
  proof cases
    case 3
    then show ?thesis
      using assms(3) by (auto simp: resolve_remove_def one_overlay_def marks_shown_def split: if_splits)
  next
    case 4
    then have t': "t' = fst (dashboard_key env k t)" by (metis fst_conv)
    then show ?thesis
      using dashboard_key_overlays [OF 4(1), of env k] dashboard_key_confirm [OF 4(2), of env k] dashboard_key_armed [OF 4(1), of k env]
        dashboard_key_shown [OF assms(3), of env k]
      by (auto simp: one_overlay_def split: if_splits)
  qed (use assms in \<open>auto simp: one_overlay_def marks_shown_def\<close>)
qed

lemma tui_update_keeps:
  assumes "tui_update env msg t = Some (t', c)" "one_overlay t" "marks_shown t"
  shows "one_overlay t' \<and> marks_shown t'"
proof (cases msg)
  case (MKey k)
  then show ?thesis using assms tui_key_keeps by simp
next
  case (MJobs jobs)
  then show ?thesis using assms by (auto simp: one_overlay_def marks_after_apply)
next
  case (MDetails r)
  then have "t' = t\<lparr>tu_details := fst (take_details (tu_jobs t) r (tu_details t))\<rparr>"
    using assms(1) by (auto split: prod.splits)
  then show ?thesis using assms(2, 3) by (simp add: one_overlay_def marks_shown_def overlays_kept overlay_replies_keep)
qed (use assms in \<open>auto simp: one_overlay_def marks_shown_def overlays_kept browse_replies_keep replies_keep overlay_replies_keep
      split: prod.splits\<close>)

section \<open>Reachable dashboards\<close>

definition msg_ok :: "tui_msg \<Rightarrow> tui \<Rightarrow> bool" where
  "msg_ok msg t \<longleftrightarrow>
     (case msg of
        MTorrentFiles i r \<Rightarrow> (\<forall>nj. tu_new t = Some nj \<longrightarrow> list_reply_ok i r nj)
      | MDetails r \<Rightarrow> reply_distinct r
      | _ \<Rightarrow> True)"

inductive tui_reachable :: "tui_env \<Rightarrow> tui \<Rightarrow> bool" for env where
  tui_launched: "tui_reachable env (new_tui conns)"
| tui_stepped: "tui_reachable env t \<Longrightarrow> msg_ok msg t \<Longrightarrow> tui_update env msg t = Some (t', c) \<Longrightarrow> tui_reachable env t'"

text \<open>An overlay that is open is one its own keys and answers lead to.\<close>

definition overlays_fine :: "tui_env \<Rightarrow> tui \<Rightarrow> bool" where
  "overlays_fine env t \<longleftrightarrow>
     (\<forall>nj. tu_new t = Some nj \<longrightarrow> wizard_reachable (ue_wizard env) nj) \<and>
     (\<forall>st. tu_settings t = Some st \<longrightarrow> (\<exists>n. tab_reachable (ue_edit env) n st)) \<and>
     (\<forall>st. tu_details t = Some st \<longrightarrow> details_reachable st)"

lemma dashboard_key_new:
  assumes "tu_new t = None"
  shows "tu_new (fst (dashboard_key env k t)) = (if k = ''n'' then Some (new_new_job (tu_opened t)) else None)"
  using assms by (simp add: dashboard_key_def Let_def split: option.split)

lemma dashboard_key_settings:
  assumes "tu_settings t = None"
  shows "tu_settings (fst (dashboard_key env k t)) = (if k = ''s'' then Some (new_settings_tab (tu_opened t)) else None)"
  using assms by (simp add: dashboard_key_def bulk_key_def prompt_remove_def toggle_selected_def rebuild_rows_def Let_def split: option.split)

lemma dashboard_key_details:
  assumes "tu_details t = None"
  shows "\<forall>st. tu_details (fst (dashboard_key env k t)) = Some st \<longrightarrow> details_reachable st"
  using assms details_opened
  by (simp add: dashboard_key_def bulk_key_def prompt_remove_def toggle_selected_def rebuild_rows_def open_details_def Let_def split: option.split)

lemma dashboard_key_fine:
  assumes "overlays t = 0"
  shows "overlays_fine env (fst (dashboard_key env k t))"
proof -
  have none: "tu_new t = None" "tu_settings t = None" "tu_details t = None"
    using assms by (simp_all add: overlays_zero)
  show ?thesis
    using dashboard_key_new [OF none(1), of env k] dashboard_key_settings [OF none(2), of env k] dashboard_key_details [OF none(3), of env k]
      wizard_opened [of "ue_wizard env" "tu_opened t"] tab_reachable.opened [of "ue_edit env" "tu_opened t"]
    by (auto simp: overlays_fine_def)
qed

lemma tui_key_fine:
  assumes "tui_key env k t = Some (t', c)" "overlays_fine env t"
  shows "overlays_fine env t'"
proof -
  consider "k = ''ctrl+c''" | nj where "k \<noteq> ''ctrl+c''" "tu_new t = Some nj" | "k \<noteq> ''ctrl+c''" "tu_new t = None" "tu_browse t \<noteq> None"
    | st where "k \<noteq> ''ctrl+c''" "tu_new t = None" "tu_browse t = None" "tu_settings t = Some st"
    | "k \<noteq> ''ctrl+c''" "tu_new t = None" "tu_browse t = None" "tu_settings t = None" "tu_serve t \<noteq> None"
    | st where "k \<noteq> ''ctrl+c''" "tu_new t = None" "tu_browse t = None" "tu_settings t = None" "tu_serve t = None" "tu_details t = Some st"
    | "overlays t = 0" "\<exists>pending. resolve_remove k pending t = (t', c)"
    | "overlays t = 0" "(t', c) = dashboard_key env k t"
    using assms(1) by (auto simp: tui_key_def overlays_zero split: option.splits if_split_asm)
  then show ?thesis
  proof cases
    case 2
    then show ?thesis
      using assms wizard_pressed [of "ue_wizard env" nj "tu_height t" k] by (auto simp: tui_key_def overlays_fine_def)
  next
    case 4
    obtain n where "tab_reachable (ue_edit env) n st" using 4 assms(2) by (auto simp: overlays_fine_def)
    then have "fst (settings_key (ue_edit env) k st) = Some st' \<Longrightarrow> tab_reachable (ue_edit env) n st'" for st'
      by (rule tab_reachable.pressed)
    then show ?thesis
      using 4 assms by (auto simp: tui_key_def overlays_fine_def split: prod.splits)
  next
    case 6
    then show ?thesis
      using assms details_pressed [of st "tu_jobs t" "tu_height t" k] by (auto simp: tui_key_def overlays_fine_def split: prod.splits)
  next
    case 7
    then show ?thesis by (auto simp: resolve_remove_def overlays_fine_def overlays_zero split: if_splits)
  next
    case 8
    then show ?thesis using dashboard_key_fine by (metis fst_conv)
  qed (use assms in \<open>auto simp: tui_key_def overlays_fine_def split: prod.splits\<close>)
qed

lemma tui_update_fine:
  assumes "tui_update env msg t = Some (t', c)" "msg_ok msg t" "overlays_fine env t"
  shows "overlays_fine env t'"
proof (cases msg)
  case (MKey k)
  then show ?thesis using assms tui_key_fine by simp
next
  case (MTorrentFiles i r)
  then have t': "t' = t\<lparr>tu_new := torrent_files_loaded i r (tu_new t)\<rparr>" using assms(1) by simp
  have "wizard_reachable (ue_wizard env) nj'" if ready: "torrent_files_loaded i r (tu_new t) = Some nj'" for nj'
  proof -
    obtain nj where nj: "tu_new t = Some nj" using ready replies_keep(1) [of i r "tu_new t"] by auto
    then show ?thesis
      using assms(2, 3) MTorrentFiles ready wizard_listed [of "ue_wizard env" nj i r nj'] by (auto simp: overlays_fine_def msg_ok_def)
  qed
  then show ?thesis using assms(3) t' by (simp add: overlays_fine_def)
next
  case (MWizardSettings n rp)
  then have t': "t' = t\<lparr>tu_new := wizard_settings n rp (tu_new t)\<rparr>" using assms(1) by simp
  have "wizard_reachable (ue_wizard env) nj'" if ready: "wizard_settings n rp (tu_new t) = Some nj'" for nj'
  proof -
    obtain nj where nj: "tu_new t = Some nj" using ready replies_keep(2) [of n rp "tu_new t"] by auto
    then show ?thesis using assms(3) ready wizard_told [of "ue_wizard env" nj n rp nj'] by (auto simp: overlays_fine_def)
  qed
  then show ?thesis using assms(3) t' by (simp add: overlays_fine_def)
next
  case (MSettings r)
  then have t': "t' = t\<lparr>tu_settings := take_settings r (tu_settings t)\<rparr>" using assms(1) by simp
  have "\<exists>n. tab_reachable (ue_edit env) n st'" if ready: "take_settings r (tu_settings t) = Some st'" for st'
  proof -
    obtain st where st: "tu_settings t = Some st" using ready overlay_replies_keep(1) [of r "tu_settings t"] by auto
    then obtain n where "tab_reachable (ue_edit env) n st" using assms(3) by (auto simp: overlays_fine_def)
    then show ?thesis using ready st tab_reachable.answered by metis
  qed
  then show ?thesis using assms(3) t' by (simp add: overlays_fine_def)
next
  case (MDetails r)
  then have t': "t' = t\<lparr>tu_details := fst (take_details (tu_jobs t) r (tu_details t))\<rparr>"
    using assms(1) by (auto split: prod.splits)
  have "details_reachable st'" if ready: "fst (take_details (tu_jobs t) r (tu_details t)) = Some st'" for st'
  proof -
    obtain st where st: "tu_details t = Some st" using ready overlay_replies_keep(2) [of "tu_jobs t" r "tu_details t"] by auto
    then show ?thesis
      using assms(2, 3) MDetails ready details_answered [of st r "tu_jobs t" st'] by (auto simp: overlays_fine_def msg_ok_def)
  qed
  then show ?thesis using assms(3) t' by (simp add: overlays_fine_def)
qed (use assms in \<open>auto simp: overlays_fine_def\<close>)

lemma tui_reachable_ok: "tui_reachable env t \<Longrightarrow> one_overlay t \<and> marks_shown t \<and> overlays_fine env t"
proof (induction rule: tui_reachable.induct)
  case (tui_launched conns)
  then show ?case by (simp add: one_overlay_def overlays_def marks_shown_def overlays_fine_def new_tui_def)
next
  case (tui_stepped t msg t' c)
  then show ?case using tui_update_keeps tui_update_fine by blast
qed

lemma tui_update_runs: "overlays_fine env t \<Longrightarrow> tui_update env msg t \<noteq> None"
proof (cases msg)
  case (MKey k)
  assume "overlays_fine env t"
  then have "tu_new t = Some nj \<Longrightarrow> new_job_key (ue_wizard env) (tu_height t) k nj \<noteq> None" for nj
    using new_job_key_ok [OF wizard_reachable_ok, of "ue_wizard env" nj "ue_wizard env" "tu_height t" k]
    by (auto simp: overlays_fine_def split: option.splits)
  then show ?thesis
    unfolding MKey by (auto simp: tui_key_def split: option.split prod.split)
qed (auto split: prod.split)

text \<open>C14: 
  C1: at every moment of a session, whatever keys were pressed and whatever answers came, and whenever they came, at
  most one overlay is open; a question about removal is pending only on the dashboard itself and is about some job;
  every marked job is one that is listed, so no action reaches a job that is not shown. The next message is
  handled: the wizard does not panic, and the Settings tab and the job's files have their cursor on a row they have.
\<close>

theorem dashboard_holds_together:
  assumes "tui_reachable env t"
  shows "overlays t \<le> 1 \<and>
    (tu_confirm t \<noteq> None \<longrightarrow> screen_of t = ScreenDashboard \<and> fst (the (tu_confirm t)) \<noteq> []) \<and>
    set (action_targets t) \<subseteq> view_id ` set (tu_jobs t) \<and>
    (tu_selected t \<noteq> [] \<longrightarrow> set (action_targets t) = set (tu_selected t)) \<and>
    tui_update env msg t \<noteq> None \<and>
    (\<forall>st. tu_settings t = Some st \<longrightarrow> st_cursor st < length settings_fields) \<and>
    (\<forall>st. tu_details t = Some st \<longrightarrow> dt_files st \<noteq> [] \<longrightarrow> 0 \<le> dt_cursor st \<and> dt_cursor st < int (length (dt_files st)))"
proof -
  have ok: "one_overlay t" "marks_shown t" "overlays_fine env t"
    using tui_reachable_ok [OF assms] by auto
  have "tu_selected t \<noteq> [] \<Longrightarrow> set (action_targets t) = set (tu_selected t)"
    using ok(2) by (auto simp: action_targets_def marks_shown_def)
  moreover have "st_cursor st < length settings_fields" if "tu_settings t = Some st" for st
    using ok(3) that tab_reachable_cursor by (auto simp: overlays_fine_def)
  moreover have "0 \<le> dt_cursor st \<and> dt_cursor st < int (length (dt_files st))" if "tu_details t = Some st" "dt_files st \<noteq> []" for st
  proof -
    have "details_ok st" using ok(3) that(1) details_reachable_ok by (auto simp: overlays_fine_def)
    then show ?thesis using that(2) by (auto simp: details_ok_def cursor_on_list_def max_def Suc_leI split: if_split_asm)
  qed
  ultimately show ?thesis
    using ok action_targets_shown tui_update_runs [of env t msg]
    by (auto simp: one_overlay_def screen_of_def overlays_zero)
qed

section \<open>What is removed\<close>

text \<open>A session: its messages one after another, and what followed each.\<close>

fun tui_run :: "tui_env \<Rightarrow> tui_msg list \<Rightarrow> tui \<Rightarrow> (tui \<times> tui_cmd list) option" where
  "tui_run env [] t = Some (t, [])"
| "tui_run env (m # ms) t =
     (case tui_update env m t of
        None \<Rightarrow> None
      | Some (t', c) \<Rightarrow> map_option (map_prod id ((#) c)) (tui_run env ms t'))"

lemma tui_run_append:
  "tui_run env (ms @ ns) t =
     (case tui_run env ms t of None \<Rightarrow> None | Some (t', cs) \<Rightarrow> map_option (map_prod id ((@) cs)) (tui_run env ns t'))"
  by (induction ms arbitrary: t)
    (auto simp: option.map_comp prod.map_comp comp_def map_option_case split: option.split prod.split)

lemma tui_run_ok:
  "tui_run env ms t = Some (t', cs) \<Longrightarrow> one_overlay t \<Longrightarrow> marks_shown t \<Longrightarrow> one_overlay t' \<and> marks_shown t'"
proof (induction ms arbitrary: t cs)
  case (Cons m ms)
  from Cons.prems(1) obtain s c cs' where step: "tui_update env m t = Some (s, c)" and rest: "tui_run env ms s = Some (t', cs')"
    by (auto split: option.splits prod.splits)
  have "one_overlay s" "marks_shown s"
    using tui_update_keeps [OF step Cons.prems(2, 3)] by auto
  with rest show ?case by (rule Cons.IH)
qed simp

lemma tui_run_last:
  assumes "tui_run env (ms @ [m]) t = Some (t', cs)"
  obtains s cs' c where "tui_run env ms t = Some (s, cs')" "tui_update env m s = Some (t', c)" "cs = cs' @ [c]"
  using assms by (auto simp: tui_run_append split: option.splits prod.splits)

text \<open>The question that is pending, and when it was asked: no key has been pressed since, except to quit.\<close>

definition asked_about :: "tui_env \<Rightarrow> tui \<Rightarrow> tui_msg list \<Rightarrow> string list \<times> bool \<Rightarrow> bool" where
  "asked_about env t0 ms p \<longleftrightarrow>
     (\<exists>before k after s cs. ms = before @ MKey k # after \<and> (k = ''d'' \<or> k = ''D'') \<and> tui_run env before t0 = Some (s, cs) \<and>
        screen_of s = ScreenDashboard \<and> p = (action_targets s, k = ''D'') \<and> fst p \<noteq> [] \<and>
        (\<forall>m \<in> set after. \<forall>k'. m = MKey k' \<longrightarrow> k' = ''ctrl+c''))"

lemma asked_later:
  "asked_about env t0 ms p \<Longrightarrow> (\<And>k. m = MKey k \<Longrightarrow> k = ''ctrl+c'') \<Longrightarrow> asked_about env t0 (ms @ [m]) p"
  unfolding asked_about_def by (elim exE conjE, rule exI, rule exI, rule_tac x = "after @ [m]" in exI) auto

lemma tui_update_confirm:
  assumes "tui_update env m t = Some (t', c)" "one_overlay t" "tu_confirm t' = Some p"
  shows "tu_confirm t = Some p \<and> (\<forall>k. m = MKey k \<longrightarrow> k = ''ctrl+c'') \<or>
    (\<exists>k. m = MKey k \<and> (k = ''d'' \<or> k = ''D'') \<and> overlays t = 0 \<and> p = (action_targets t, k = ''D'') \<and> fst p \<noteq> [])"
proof (cases "\<exists>k. m = MKey k")
  case True
  then obtain k where k: "m = MKey k" by blast
  have le: "overlays t \<le> 1" using assms(2) by (simp add: one_overlay_def)
  have none: "overlays t = 1 \<Longrightarrow> tu_confirm t = None"
    using assms(2) by (cases "tu_confirm t") (auto simp: one_overlay_def)
  have "tui_key env k t = Some (t', c)" using assms(1) k by simp
  from tui_key_steps [OF this le] consider
      "k = ''ctrl+c''" "t' = t"
    | "overlays t = 1" "tu_confirm t' = tu_confirm t"
    | pending where "(t', c) = resolve_remove k pending t"
    | "overlays t = 0" "tu_confirm t = None" "(t', c) = dashboard_key env k t"
    by metis
  then show ?thesis
  proof cases
    case 4
    then have "t' = fst (dashboard_key env k t)" by (metis fst_conv)
    then show ?thesis
      using dashboard_key_confirm [OF 4(2), of env k] assms(3) 4(1) k by (auto split: if_splits)
  qed (use assms(3) k none in \<open>auto simp: resolve_remove_def split: if_splits\<close>)
next
  case False
  then have "tu_confirm t' = tu_confirm t"
    using assms(1) by (cases m) (auto split: prod.splits)
  then show ?thesis using False assms(3) by auto
qed

lemma pending_was_asked:
  assumes "one_overlay t0" "marks_shown t0" "tu_confirm t0 = None"
  shows "tui_run env ms t0 = Some (t, cs) \<Longrightarrow> tu_confirm t = Some p \<Longrightarrow> asked_about env t0 ms p"
proof (induction ms arbitrary: t cs rule: rev_induct)
  case Nil
  then show ?case using assms(3) by simp
next
  case (snoc m ms)
  obtain s cs' c where run: "tui_run env ms t0 = Some (s, cs')" and step: "tui_update env m s = Some (t, c)"
    using snoc.prems(1) by (rule tui_run_last)
  have one: "one_overlay s" using tui_run_ok [OF run assms(1, 2)] by simp
  show ?case
    using tui_update_confirm [OF step one snoc.prems(2)]
  proof
    assume "tu_confirm s = Some p \<and> (\<forall>k. m = MKey k \<longrightarrow> k = ''ctrl+c'')"
    then show ?thesis using snoc.IH [OF run] asked_later by blast
  next
    assume "\<exists>k. m = MKey k \<and> (k = ''d'' \<or> k = ''D'') \<and> overlays s = 0 \<and> p = (action_targets s, k = ''D'') \<and> fst p \<noteq> []"
    then obtain k where "m = MKey k" "k = ''d'' \<or> k = ''D''" "overlays s = 0" "p = (action_targets s, k = ''D'')" "fst p \<noteq> []"
      by blast
    then show ?thesis
      using run unfolding asked_about_def
      by (intro exI [of _ ms] exI [of _ k] exI [of _ "[]"] exI [of _ s] exI [of _ cs']) (simp add: screen_of_def overlays_zero)
  qed
qed

lemma removal_is_answered:
  assumes "tui_update env m t = Some (t', CRemove ids purge)" "one_overlay t"
  shows "(m = MKey ''y'' \<or> m = MKey ''Y'') \<and> tu_confirm t = Some (ids, purge)"
proof (cases "\<exists>k. m = MKey k")
  case True
  then obtain k where k: "m = MKey k" by blast
  have le: "overlays t \<le> 1" using assms(2) by (simp add: one_overlay_def)
  have "tui_key env k t = Some (t', CRemove ids purge)" using assms(1) k by simp
  from tui_key_steps [OF this le] consider
      pending where "tu_confirm t = Some pending" "(t', CRemove ids purge) = resolve_remove k pending t"
    | "(t', CRemove ids purge) = dashboard_key env k t"
    by (metis tui_cmd.distinct(1) tui_cmd.simps)
  then show ?thesis
  proof cases
    case 1
    then show ?thesis using k by (auto simp: resolve_remove_def split: if_splits)
  next
    case 2
    then show ?thesis using dashboard_key_removes_nothing [of env k t ids purge] by (metis snd_conv)
  qed
next
  case False
  then show ?thesis using assms(1) by (cases m) (auto split: prod.splits)
qed

text \<open>C15: 
  C1: jobs are removed only when y is pressed, and then those that were marked, or under the cursor, when d or D was
  pressed last, with their files only if it was D; between that key and the answer no other key was pressed, though
  snapshots may have come and the list may be another by then.
\<close>

theorem removed_is_what_was_asked_about:
  assumes "tui_run env (ms @ [m]) (new_tui conns) = Some (t, cs)" and "last cs = CRemove ids purge"
  shows "(m = MKey ''y'' \<or> m = MKey ''Y'') \<and> asked_about env (new_tui conns) ms (ids, purge)"
proof -
  have new: "one_overlay (new_tui conns)" "marks_shown (new_tui conns)" "tu_confirm (new_tui conns) = None"
    by (simp_all add: one_overlay_def overlays_def marks_shown_def new_tui_def)
  obtain s cs' c where run: "tui_run env ms (new_tui conns) = Some (s, cs')" and step: "tui_update env m s = Some (t, c)"
      and "cs = cs' @ [c]"
    using assms(1) by (rule tui_run_last)
  then have "tui_update env m s = Some (t, CRemove ids purge)" using assms(2) by simp
  from removal_is_answered [OF this] tui_run_ok [OF run new(1, 2)] pending_was_asked [OF new run]
  show ?thesis by blast
qed

section \<open>A session\<close>

definition sample_list :: "job_view list" where
  "sample_list = [sample_view ''a'' StatusPaused, sample_view ''b'' StatusActive]"

definition question_session :: "tui_msg list" where
  "question_session = [MJobs sample_list, MKey ''D'', MJobs (sample_list @ [sample_view ''c'' StatusQueued])]"

lemma removed_is_what_was_asked_about_witness: "asked_about plain_tui_env (new_tui []) question_session ([''b''], True)"
proof -
  have "map_option snd (tui_run plain_tui_env (question_session @ [MKey ''y'']) (new_tui [])) =
      Some [CWait, CNone, CWait, CRemove [''b''] True]"
    by code_simp
  then obtain t where "tui_run plain_tui_env (question_session @ [MKey ''y'']) (new_tui []) = Some (t, [CWait, CNone, CWait, CRemove [''b''] True])"
    by auto
  then show ?thesis by (rule removed_is_what_was_asked_about [THEN conjunct2]) simp
qed

definition listed_tui :: tui where
  "listed_tui = apply_jobs plain_tui_env sample_list (new_tui [])"

lemma listed_tui_reachable: "tui_reachable plain_tui_env listed_tui"
proof (rule tui_stepped [OF tui_launched])
  show "msg_ok (MJobs sample_list) (new_tui [])" by (simp add: msg_ok_def)
  show "tui_update plain_tui_env (MJobs sample_list) (new_tui []) = Some (listed_tui, CWait)" by (simp add: listed_tui_def)
qed

lemma dashboard_holds_together_witness: "overlays listed_tui \<le> 1 \<and> tui_update plain_tui_env (MKey ''n'') listed_tui \<noteq> None"
  using dashboard_holds_together [OF listed_tui_reachable, of "MKey ''n''"] by blast

text \<open>
  The answer to an earlier action takes the question off the screen, but it is still pending: the next y deletes.
  A change of the order takes the message of a lost connection off the screen.
\<close>

lemma late_answer_hides_the_question:
  assumes "overlays t = 0" "tu_confirm t = None" "action_targets t \<noteq> []"
  obtains s where "tui_run env [MKey ''D'', MBulkDone 1 1 0 None] t = Some (s, [CNone, CNone])"
    "footer_lines s = (case tu_err t of Some e \<Rightarrow> [''daemon connection error: '' @ err_string e] | None \<Rightarrow> []) @
       (if selected_job_error t \<noteq> [] then [selected_job_error t] else if selected_job_phase t \<noteq> [] then [selected_job_phase t] else [])"
    "tui_update env (MKey ''y'') s = Some (s\<lparr>tu_confirm := None, tu_selected := []\<rparr>, CRemove (action_targets t) True)"
proof -
  let ?s = "t\<lparr>tu_status := [], tu_confirm := Some (action_targets t, True)\<rparr>"
  have ov: "overlays ?s = 0" using assms(1) by simp
  have "tui_run env [MKey ''D'', MBulkDone 1 1 0 None] t = Some (?s, [CNone, CNone])"
    using assms [unfolded overlays_zero]
    by (simp add: tui_key_def dashboard_key_def action_of_def prompt_remove_def Let_def bulk_status_def)
  moreover have "footer_lines ?s = (case tu_err t of Some e \<Rightarrow> [''daemon connection error: '' @ err_string e] | None \<Rightarrow> []) @
       (if selected_job_error t \<noteq> [] then [selected_job_error t] else if selected_job_phase t \<noteq> [] then [selected_job_phase t] else [])"
    by (simp add: footer_lines_def selected_job_error_def selected_job_phase_def cursor_job_def)
  moreover have "tui_update env (MKey ''y'') ?s = Some (?s\<lparr>tu_confirm := None, tu_selected := []\<rparr>, CRemove (action_targets t) True)"
    using assms(1) [unfolded overlays_zero] by (simp add: tui_key_def resolve_remove_def)
  ultimately show ?thesis by (rule that)
qed

lemma sorting_hides_the_lost_connection:
  "tu_err (fst (dashboard_key env ''t'' t)) = None"
  by (simp add: dashboard_key_def Let_def)

end
