(* ===== verification/CommandLine.thy ===== *)
theory CommandLine
  imports WebApi FileServer UrlJob
begin

text \<open>
  The commands of \<^verbatim>\<open>cmd\<close>: how flags and arguments become requests (\<^verbatim>\<open>url.go\<close>, \<^verbatim>\<open>social.go\<close>, \<^verbatim>\<open>torrent.go\<close>,
  \<^verbatim>\<open>webdav.go\<close>, \<^verbatim>\<open>reqflags.go\<close>, \<^verbatim>\<open>batch.go\<close>, \<^verbatim>\<open>output.go\<close>), what is said about the answers (\<^verbatim>\<open>jobactions.go\<close>,
  \<^verbatim>\<open>remove.go\<close>, \<^verbatim>\<open>list.go\<close>), and \<^verbatim>\<open>stream.go\<close>, \<^verbatim>\<open>connection.go\<close>, \<^verbatim>\<open>serve.go\<close> and \<^verbatim>\<open>web.go\<close>. The parsing of a command
  line is the library's: a command gets its flags as a record. Files, the terminal and environment variables are
  arguments.
\<close>

section \<open>Flags\<close>

record cli_flags =
  cf_input :: string
  cf_output :: string
  cf_limit :: string
  cf_concurrency :: int
  cf_sha256 :: string
  cf_headers :: "string list"
  cf_agent :: string
  cf_referer :: string
  cf_cookie :: string
  cf_cookies :: string
  cf_format :: string
  cf_preset :: string
  cf_browser :: string
  cf_wait :: bool
  cf_list :: bool
  cf_list_presets :: bool
  cf_files :: string
  cf_seed_ratio :: float64
  cf_seed_time :: int
  cf_torbox :: bool
  cf_p2p :: bool

text \<open>\<open>ce_input\<close> is what a file of links holds, or the standard input for a dash.\<close>

record cli_env =
  ce_add :: add_env
  ce_input :: "string \<Rightarrow> string result"

definition getwd_error :: gerror where
  "getwd_error = ErrMsg ''getwd: no such file or directory''"

definition exact_args :: "nat \<Rightarrow> string list \<Rightarrow> gerror option" where
  "exact_args n args =
     (if length args = n then None
      else Some (ErrMsg (''accepts '' @ itoa (int n) @ '' arg(s), received '' @ itoa (int (length args)))))"

definition batch_args :: "cli_flags \<Rightarrow> string list \<Rightarrow> gerror option" where
  "batch_args f args = (if cf_input f \<noteq> [] then None else exact_args 1 args)"

definition read_links :: "string \<Rightarrow> string list result" where
  "read_links s =
     (let ls = scan_lines s
      in if list_ex (\<lambda>l. max_line \<le> length l) ls then Inl (ErrMsg ''bufio.Scanner: token too long'')
         else Inr (filter (\<lambda>l. l \<noteq> [] \<and> \<not> has_prefix l ''#'') (map trim_space ls)))"

definition cli_links :: "cli_env \<Rightarrow> cli_flags \<Rightarrow> string list \<Rightarrow> string list result" where
  "cli_links env f args =
     (if cf_input f = [] then Inr args
      else case ce_input env (cf_input f) of
          Inl e \<Rightarrow> Inl e
        | Inr s \<Rightarrow>
            (case read_links s of
               Inl e \<Rightarrow> Inl e
             | Inr ls \<Rightarrow> if args @ ls = [] then Inl (ErrMsg (''no links found in '' @ cf_input f)) else Inr (args @ ls)))"

definition limit_rate_flag :: "string \<Rightarrow> int result" where
  "limit_rate_flag s = (if s = [] then Inr 0 else parse_rate s)"

definition flag_headers :: "cli_flags \<Rightarrow> string list" where
  "flag_headers f =
     cf_headers f @ (if cf_agent f \<noteq> [] then [''User-Agent: '' @ cf_agent f] else []) @
     (if cf_referer f \<noteq> [] then [''Referer: '' @ cf_referer f] else []) @
     (if cf_cookie f \<noteq> [] then [''Cookie: '' @ cf_cookie f] else [])"

fun check_headers :: "string list \<Rightarrow> gerror option" where
  "check_headers [] = None"
| "check_headers (h # hs) = (case parse_header h of Inl e \<Rightarrow> Some e | Inr _ \<Rightarrow> check_headers hs)"

definition request_options :: "add_env \<Rightarrow> cli_flags \<Rightarrow> job_options result" where
  "request_options env f =
     (let hs = flag_headers f
      in case check_headers hs of
           Some e \<Rightarrow> Inl e
         | None \<Rightarrow>
             if cf_cookies f = [] then Inr (empty_options\<lparr>o_headers := hs\<rparr>)
             else (case path_abs (ae_cwd env) (cf_cookies f) of
                 None \<Rightarrow> Inl getwd_error
               | Some file \<Rightarrow>
                   (case build_set [] file (ae_read env file) of
                      Inl e \<Rightarrow> Inl e
                    | Inr _ \<Rightarrow> Inr (empty_options\<lparr>o_headers := hs, o_cookies_file := file\<rparr>))))"

section \<open>Downloads\<close>

definition url_links :: "cli_env \<Rightarrow> cli_flags \<Rightarrow> string list \<Rightarrow> request list result" where
  "url_links cenv f links =
     (let env = ce_add cenv; sha = cf_sha256 f
      in if sha \<noteq> [] \<and> \<not> sha256_ok sha then Inl (ErrMsg (''--sha256 must be a 64-character hex digest, got '' @ go_quote sha))
         else if sha \<noteq> [] \<and> 1 < length links
         then Inl (ErrMsg (''--sha256 checks a single file; it can'' @ [CHR 0x27] @ ''t be used with several links''))
         else case limit_rate_flag (cf_limit f) of
             Inl e \<Rightarrow> Inl e
           | Inr limit \<Rightarrow>
               (case request_options env f of
                  Inl e \<Rightarrow> Inl e
                | Inr opts \<Rightarrow>
                    (case build_set (o_headers opts) (o_cookies_file opts) (ae_read env (o_cookies_file opts)) of
                       Inl e \<Rightarrow> Inl e
                     | Inr hdr \<Rightarrow>
                         (case url_outputs (ae_downloads env) (ae_cwd env) (batch_mkdir env (cf_output f)) links (cf_output f) (ae_name env hdr) of
                            Inl e \<Rightarrow> Inl e
                          | Inr outs \<Rightarrow>
                              Inr (map (\<lambda>(link, out). AddURL link out (cf_concurrency f) limit (to_lower sha) opts) (zip links outs))))))"

definition url_command :: "cli_env \<Rightarrow> cli_flags \<Rightarrow> string list \<Rightarrow> request list result" where
  "url_command env f args =
     (case batch_args f args of
        Some e \<Rightarrow> Inl e
      | None \<Rightarrow> (case cli_links env f args of Inl e \<Rightarrow> Inl e | Inr links \<Rightarrow> url_links env f links))"

definition format_flags :: "cli_flags \<Rightarrow> string result" where
  "format_flags f =
     (if cf_preset f = [] then Inr (cf_format f)
      else if cf_format f \<noteq> [] then Inl (ErrMsg ''pass either -p/--preset or -f/--format, not both'')
      else case map_of presets (cf_preset f) of
          None \<Rightarrow> Inl (ErrMsg (''unknown preset '' @ go_quote (cf_preset f) @ '' '' @ [CHR 0xE2, CHR 0x80, CHR 0x94] @ '' see '' @
            [CHR 0x22] @ ''godl social --list-presets'' @ [CHR 0x22]))
        | Some fmt \<Rightarrow> Inr fmt)"

datatype cli_action =
    ShowPresets
  | ShowFormats string job_options
  | ShowFiles string
  | StartJobs "request list"
  | FollowJob request

definition social_links :: "cli_env \<Rightarrow> cli_flags \<Rightarrow> string list \<Rightarrow> cli_action result" where
  "social_links cenv f links =
     (let env = ce_add cenv
      in case request_options env f of
           Inl e \<Rightarrow> Inl e
         | Inr opts \<Rightarrow>
             (let opts = opts\<lparr>o_cookies_from_browser := cf_browser f\<rparr>
              in if cf_list f
                 then (if length links \<noteq> 1 then Inl (ErrMsg ''--list-formats takes exactly one link'') else Inr (ShowFormats (hd links) opts))
                 else case format_flags f of
                     Inl e \<Rightarrow> Inl e
                   | Inr fmt \<Rightarrow>
                       if cf_wait f \<and> 1 < length links
                       then Inl (ErrMsg (''--wait streams one download'' @ [CHR 0x27] @ ''s output; it can'' @ [CHR 0x27] @ ''t be used with several links''))
                       else (case limit_rate_flag (cf_limit f) of
                           Inl e \<Rightarrow> Inl e
                         | Inr limit \<Rightarrow>
                             (case output_path (ae_downloads env) (ae_cwd env) (cf_output f) [] of
                                Inl e \<Rightarrow> Inl e
                              | Inr out \<Rightarrow>
                                  (case ae_mkdir env out of
                                     Some e \<Rightarrow> Inl e
                                   | None \<Rightarrow>
                                       let rs = map (\<lambda>link. AddSocial link out fmt limit opts) links
                                       in Inr (if cf_wait f then FollowJob (hd rs) else StartJobs rs))))))"

definition social_cmd :: "cli_env \<Rightarrow> cli_flags \<Rightarrow> string list \<Rightarrow> cli_action result" where
  "social_cmd env f args =
     (if cf_list_presets f
      then (if 1 < length args then Inl (ErrMsg (''accepts at most 1 arg(s), received '' @ itoa (int (length args)))) else Inr ShowPresets)
      else case batch_args f args of
          Some e \<Rightarrow> Inl e
        | None \<Rightarrow> (case cli_links env f args of Inl e \<Rightarrow> Inl e | Inr links \<Rightarrow> social_links env f links))"

fun absolute_torrents :: "string option \<Rightarrow> string list \<Rightarrow> string list result" where
  "absolute_torrents cwd [] = Inr []"
| "absolute_torrents cwd (l # ls) =
     (case (if has_prefix l ''magnet:'' then Some l else path_abs cwd l) of
        None \<Rightarrow> Inl getwd_error
      | Some l \<Rightarrow> (case absolute_torrents cwd ls of Inl e \<Rightarrow> Inl e | Inr ls \<Rightarrow> Inr (l # ls)))"

definition torrent_via :: "cli_flags \<Rightarrow> string result" where
  "torrent_via f =
     (if cf_torbox f \<and> cf_p2p f then Inl (ErrMsg ''pick one of --torbox and --p2p'')
      else let via = (if cf_torbox f then ViaTorBox else if cf_p2p f then ViaP2P else [])
           in if via = ViaTorBox \<and> (f64_less (FFin 0) (cf_seed_ratio f) \<or> 0 < cf_seed_time f)
              then Inl (ErrMsg (''a torrent sent through TorBox isn'' @ [CHR 0x27] @ ''t seeded from here; drop --seed-ratio/--seed-time''))
              else Inr via)"

definition torrent_links :: "cli_env \<Rightarrow> cli_flags \<Rightarrow> string list \<Rightarrow> cli_action result" where
  "torrent_links cenv f links =
     (let env = ce_add cenv
      in case absolute_torrents (ae_cwd env) links of
           Inl e \<Rightarrow> Inl e
         | Inr srcs \<Rightarrow>
             if cf_list f
             then (if length srcs \<noteq> 1 then Inl (ErrMsg ''--list-files takes exactly one torrent'') else Inr (ShowFiles (hd srcs)))
             else (case limit_rate_flag (cf_limit f) of
                 Inl e \<Rightarrow> Inl e
               | Inr limit \<Rightarrow>
                   (case output_path (ae_downloads env) (ae_cwd env) (cf_output f) [] of
                      Inl e \<Rightarrow> Inl e
                    | Inr out \<Rightarrow>
                        (case parse_selection (cf_files f) of
                           Inl e \<Rightarrow> Inl e
                         | Inr _ \<Rightarrow>
                             if f64_less (cf_seed_ratio f) (FFin 0) \<or> cf_seed_time f < 0
                             then Inl (ErrMsg (''--seed-ratio and --seed-time can'' @ [CHR 0x27] @ ''t be negative''))
                             else (case torrent_via f of
                                 Inl e \<Rightarrow> Inl e
                               | Inr via \<Rightarrow>
                                   Inr (StartJobs (map (\<lambda>src. AddTorrent src out limit
                                     (empty_options\<lparr>o_torrent_files := cf_files f, o_seed_ratio := cf_seed_ratio f,
                                        o_seed_time_sec := f64_to_int64 (duration_seconds (cf_seed_time f)), o_via := via\<rparr>)) srcs)))))))"

definition torrent_command :: "cli_env \<Rightarrow> cli_flags \<Rightarrow> string list \<Rightarrow> cli_action result" where
  "torrent_command env f args =
     (case batch_args f args of
        Some e \<Rightarrow> Inl e
      | None \<Rightarrow> (case cli_links env f args of Inl e \<Rightarrow> Inl e | Inr links \<Rightarrow> torrent_links env f links))"

definition webdav_command :: "cli_env \<Rightarrow> cli_flags \<Rightarrow> string list \<Rightarrow> request result" where
  "webdav_command cenv f args =
     (let env = ce_add cenv
      in case exact_args 2 args of
           Some e \<Rightarrow> Inl e
         | None \<Rightarrow>
             (case limit_rate_flag (cf_limit f) of
                Inl e \<Rightarrow> Inl e
              | Inr limit \<Rightarrow>
                  (case output_path (ae_downloads env) (ae_cwd env) (cf_output f) [] of
                     Inl e \<Rightarrow> Inl e
                   | Inr out \<Rightarrow> Inr (AddWebDAV (join_webdav_source (args ! 0) (args ! 1)) out limit))))"

section \<open>Starting\<close>

fun request_output :: "request \<Rightarrow> string" where
  "request_output (AddURL _ out _ _ _ _) = out"
| "request_output (AddTorrent _ out _ _) = out"
| "request_output (AddWebDAV _ out _) = out"
| "request_output (AddSocial _ out _ _ _) = out"
| "request_output _ = []"

text \<open>What is printed, what is printed to the error output, and the error of the command.\<close>

type_synonym said = "string list \<times> string list \<times> gerror option"

definition started_line :: "job \<Rightarrow> string \<Rightarrow> string" where
  "started_line j out = ''Started job '' @ j_id j @ '' -> '' @ out"

definition track_line :: string where
  "track_line = ''Track it with '' @ [CHR 0x22] @ ''godl status'' @ [CHR 0x22] @ '' or '' @ [CHR 0x22] @ ''godl list'' @ [CHR 0x22] @ ''.''"

text \<open>An answer without a job would be read through a nil pointer: \<open>None\<close>.\<close>

definition start_job :: "network \<Rightarrow> gerror option \<Rightarrow> request \<Rightarrow> daemon \<Rightarrow> said option \<times> daemon" where
  "start_job nw ens r d =
     (case ens of
        Some e \<Rightarrow> (Some ([], [], Some e), d)
      | None \<Rightarrow>
          (case do_request nw r d of
             (RespError e, d) \<Rightarrow> (Some ([], [], Some (ErrMsg e)), d)
           | (RespJob (Some v), d) \<Rightarrow>
               (Some (if j_status (jv_job v) = StatusFailed
                      then ([], [], Some (ErrMsg (''job '' @ j_id (jv_job v) @ '' failed immediately: '' @ j_error (jv_job v))))
                      else ([started_line (jv_job v) (request_output r), track_line], [], None)), d)
           | (_, d) \<Rightarrow> (None, d)))"

fun start_each ::
  "network \<Rightarrow> request list \<Rightarrow> string list \<times> string list \<Rightarrow> daemon \<Rightarrow> (string list \<times> string list) option \<times> daemon" where
  "start_each nw [] acc d = (Some acc, d)"
| "start_each nw (r # rs) (out, errs) d =
     (case do_request nw r d of
        (RespError e, d) \<Rightarrow> start_each nw rs (out, errs @ [''failed: '' @ request_source r @ '': '' @ e]) d
      | (RespJob (Some v), d) \<Rightarrow>
          if j_status (jv_job v) = StatusFailed
          then start_each nw rs (out, errs @ [''failed: '' @ request_source r @ '': '' @ j_error (jv_job v)]) d
          else start_each nw rs (out @ [started_line (jv_job v) (request_output r)], errs) d
      | (_, d) \<Rightarrow> (None, d))"

definition batch_line :: "nat \<Rightarrow> nat \<Rightarrow> string" where
  "batch_line begun failed =
     itoa (int begun) @ '' job(s) started'' @ (if 0 < failed then '', '' @ itoa (int failed) @ '' failed'' else []) @
     ''. Track them with '' @ [CHR 0x22] @ ''godl status'' @ [CHR 0x22] @ '' or '' @ [CHR 0x22] @ ''godl list'' @ [CHR 0x22] @ ''.''"

definition start_jobs :: "network \<Rightarrow> gerror option \<Rightarrow> request list \<Rightarrow> daemon \<Rightarrow> said option \<times> daemon" where
  "start_jobs nw ens rs d =
     (if length rs = 1 then start_job nw ens (hd rs) d
      else case ens of
          Some e \<Rightarrow> (Some ([], [], Some e), d)
        | None \<Rightarrow>
            (case start_each nw rs ([], []) d of
               (None, d) \<Rightarrow> (None, d)
             | (Some (out, errs), d) \<Rightarrow>
                 (Some (out @ [batch_line (length out) (length errs)], errs,
                    if errs = [] then None
                    else Some (ErrMsg (itoa (int (length errs)) @ '' of '' @ itoa (int (length rs)) @ '' link(s) could not be started''))), d)))"

section \<open>Jobs\<close>

definition action_line :: "string \<Rightarrow> string \<Rightarrow> job \<Rightarrow> string" where
  "action_line api verb j =
     j_id j @ '' '' @ (if (api = ''pause'' \<or> api = ''cancel'') \<and> j_status j = StatusCompleted then ''stopped seeding'' else verb) @
     '' ('' @ status_string (j_status j) @ '', '' @ format_bytes (j_bytes_done j) @ ''/'' @ format_bytes (j_bytes_total j) @ '')''"

definition removed_line :: "bool \<Rightarrow> job \<Rightarrow> string" where
  "removed_line purge j =
     ''Removed '' @ j_id j @ (if purge then '' and deleted its downloaded file(s)'' else '' from the list (files kept)'')"

definition status_cell :: "job_status \<Rightarrow> string \<Rightarrow> string" where
  "status_cell st msg = (if st = StatusFailed \<and> msg \<noteq> [] then ''failed: '' @ msg else status_string st)"

definition list_progress :: "job \<Rightarrow> string" where
  "list_progress j =
     (if 0 < j_bytes_total j
      then dropWhile (\<lambda>c. c = CHR '' '') (show_pct (f64_mul (percent (j_bytes_done j) (j_bytes_total j)) (FFin 100))) @ ''% ('' @
        format_bytes (j_bytes_done j) @ ''/'' @ format_bytes (j_bytes_total j) @ '')''
      else if 0 < j_bytes_done j then format_bytes (j_bytes_done j) else ''-'')"

definition find_job :: "string \<Rightarrow> job_view list \<Rightarrow> job result" where
  "find_job i vs =
     (case find (\<lambda>v. j_id (jv_job v) = i) vs of Some v \<Rightarrow> Inr (jv_job v) | None \<Rightarrow> Inl (ErrMsg (''job '' @ i @ '' not found'')))"

text \<open>What \<^verbatim>\<open>godl stream\<close> plays: \<open>ask\<close> is the daemon's answer to a request for a file's address.\<close>

definition stream_target :: "(string \<Rightarrow> int \<Rightarrow> string result) \<Rightarrow> int \<Rightarrow> string \<Rightarrow> job_view list \<Rightarrow> string result" where
  "stream_target ask n i vs =
     (case find_job i vs of
        Inl e \<Rightarrow> Inl e
      | Inr j \<Rightarrow>
          if j_type j \<noteq> JobTorrent
          then Inl (ErrMsg (''job '' @ j_id j @ '' is a '' @ type_string (j_type j) @ '' job; godl stream is for torrents (use '' @
            [CHR 0x22] @ ''o'' @ [CHR 0x22] @ '' in godl status for the others)''))
          else if j_status j = StatusCompleted \<and> j_resolved j \<noteq> [] then Inr (path_join [j_output j, hd (j_resolved j)])
          else ask (j_id j) n)"

section \<open>Connections\<close>

record conn_flags =
  nf_url :: string
  nf_username :: string
  nf_password :: string
  nf_insecure :: bool

text \<open>
  \<open>envpass\<close> is the password of the environment, \<open>prompt\<close> what is typed, \<open>stored\<close> the error of reading or writing
  the file.
\<close>

definition connection_add ::
  "string \<Rightarrow> string result \<Rightarrow> gerror option \<Rightarrow> int \<Rightarrow> conn_flags \<Rightarrow> string \<Rightarrow> conn list \<Rightarrow> conn list result" where
  "connection_add envpass prompt stored now f name cs =
     (if \<not> conn_name_ok name then Inl (ErrMsg ''connection name must contain only letters, digits, - and _'')
      else if nf_url f = [] then Inl (ErrMsg ''--url is required, e.g. --url https://dav.example.com/remote.php/dav/files/alice/'')
      else if \<not> has_prefix (nf_url f) ''http://'' \<and> \<not> has_prefix (nf_url f) ''https://''
      then Inl (ErrMsg ''--url must start with http:// or https://'')
      else let pass = (if nf_password f = [] then envpass else nf_password f)
           in case (if pass = [] \<and> nf_username f \<noteq> [] then prompt else Inr pass) of
                Inl e \<Rightarrow> Inl (ErrMsg (''reading password: '' @ err_string e @ '' (pass --password or set GODL_WEBDAV_PASSWORD for non-interactive use)''))
              | Inr pass \<Rightarrow>
                  (case stored of
                     Some e \<Rightarrow> Inl e
                   | None \<Rightarrow> Inr (conn_put now \<lparr>cn_name = name, cn_type = ''webdav'', cn_url = nf_url f, cn_user = nf_username f, cn_pass = pass,
                       cn_insecure = nf_insecure f, cn_created = 0\<rparr> cs)))"

definition connection_row :: "conn \<Rightarrow> string list" where
  "connection_row c = [cn_name c, cn_type c, (if cn_user c = [] then ''-'' else cn_user c), cn_url c]"

section \<open>Sharing a folder\<close>

record serve_flags =
  vf_host :: string
  vf_port :: int
  vf_username :: string
  vf_password :: string
  vf_write :: bool
  vf_cert :: string
  vf_key :: string
  vf_self_signed :: bool
  vf_insecure :: bool

definition validate_serve_flags :: "string \<Rightarrow> string \<Rightarrow> bool \<Rightarrow> serve_flags \<Rightarrow> gerror option" where
  "validate_serve_flags dir host has_auth f =
     (if \<not> has_auth \<and> \<not> is_loopback_host host \<and> \<not> vf_insecure f
      then Some (ErrMsg (''refusing to serve '' @ dir @ '' on '' @ host @ '' without authentication '' @ [CHR 0xE2, CHR 0x80, CHR 0x94] @
        '' anyone who can reach this address could download everything under it. Pass --username/--password, bind to --host 127.0.0.1 instead, or pass --insecure-no-auth to override''))
      else if vf_cert f \<noteq> [] \<and> vf_self_signed f then Some (ErrMsg ''pass either --tls-cert/--tls-key or --self-signed, not both'')
      else if (vf_cert f = []) \<noteq> (vf_key f = []) then Some (ErrMsg ''--tls-cert and --tls-key must be set together'')
      else None)"

text \<open>\<^verbatim>\<open>godl serve\<close> up to where it listens: what it then shares, and whether with TLS. \<open>cert\<close> is the error of making a certificate.\<close>

definition serve_command ::
  "string option \<Rightarrow> (string \<Rightarrow> bool) \<Rightarrow> (int \<Rightarrow> int result) \<Rightarrow> gerror option \<Rightarrow> string \<Rightarrow> string result \<Rightarrow> serve_flags \<Rightarrow> string \<Rightarrow>
   running_share result" where
  "serve_command cwd is_dir bind cert envpass prompt f dir =
     (case path_abs cwd dir of
        None \<Rightarrow> Inl getwd_error
      | Some a \<Rightarrow>
          if \<not> is_dir a then Inl (ErrMsg (dir @ '' is not a directory''))
          else let pass = (if vf_password f = [] then envpass else vf_password f)
               in case (if pass = [] \<and> vf_username f \<noteq> [] then prompt else Inr pass) of
                    Inl e \<Rightarrow> Inl (ErrMsg (''reading password: '' @ err_string e @ '' (pass --password or set GODL_SERVE_PASSWORD for non-interactive use)''))
                  | Inr pass \<Rightarrow>
                      (case validate_serve_flags a (vf_host f) (vf_username f \<noteq> [] \<and> pass \<noteq> []) f of
                         Some e \<Rightarrow> Inl e
                       | None \<Rightarrow>
                           (case listen_with_fallback bind (vf_port f) max_port_attempts of
                              Inl e \<Rightarrow> Inl e
                            | Inr p \<Rightarrow>
                                (case (if vf_self_signed f then cert else None) of
                                   Some e \<Rightarrow> Inl (ErrMsg (''generating self-signed certificate: '' @ err_string e))
                                 | None \<Rightarrow>
                                     Inr \<lparr>rs_share = \<lparr>sc_root = a, sc_username = vf_username f, sc_password = pass, sc_read_only = (\<not> vf_write f)\<rparr>,
                                       rs_host = vf_host f, rs_port = p, rs_tls = (vf_cert f \<noteq> [] \<or> vf_self_signed f), rs_write = vf_write f,
                                       rs_username = vf_username f\<rparr>))))"

section \<open>The web interface\<close>

record web_flags =
  gf_off :: bool
  gf_network :: bool
  gf_local :: bool
  gf_https :: bool
  gf_no_https :: bool
  gf_username :: string
  gf_password :: string
  gf_port :: "int option"

definition web_settings_for :: "web_flags \<Rightarrow> string \<Rightarrow> settings \<Rightarrow> settings" where
  "web_settings_for f envpass s =
     (let s = s\<lparr>s_webui := True\<rparr>;
          s = (case gf_port f of Some p \<Rightarrow> s\<lparr>s_webui_port := p\<rparr> | None \<Rightarrow> s);
          s = (if gf_local f then s\<lparr>s_webui_network := False\<rparr> else s);
          s = (if gf_network f then s\<lparr>s_webui_network := True\<rparr> else s);
          s = (if gf_https f then s\<lparr>s_webui_https := True\<rparr> else s);
          s = (if gf_no_https f then s\<lparr>s_webui_https := False\<rparr> else s);
          s = (if gf_username f \<noteq> [] then s\<lparr>s_webui_username := gf_username f\<rparr> else s);
          pass = (if gf_password f = [] then envpass else gf_password f)
      in if pass \<noteq> [] then s\<lparr>s_webui_password := pass\<rparr> else s)"

definition web_wanted :: "web_flags \<Rightarrow> string \<Rightarrow> string result \<Rightarrow> settings \<Rightarrow> settings result" where
  "web_wanted f envpass prompt s =
     (if gf_off f then Inr (s\<lparr>s_webui := False\<rparr>)
      else let s = web_settings_for f envpass s
           in if s_webui_https s \<and> \<not> s_webui_network s then Inl (ErrMsg (''--https applies to --network only: on this machine the address is 127.0.0.1, which browsers already treat as secure, '' @
                ''and a self-signed certificate there would only produce a warning''))
              else if s_webui_network s \<and> s_webui_username s = [] then Inl (ErrMsg (''--network needs --username (and a password): anyone who could reach the page could otherwise '' @
                ''start and delete downloads''))
              else if s_webui_network s \<and> s_webui_password s = []
              then (case prompt of Inl e \<Rightarrow> Inl (ErrMsg (''reading password: '' @ err_string e @
                  '' (pass --password or set GODL_WEB_PASSWORD for non-interactive use)'')) | Inr p \<Rightarrow> Inr (s\<lparr>s_webui_password := p\<rparr>))
              else Inr s)"

definition web_flags_clash :: "web_flags \<Rightarrow> gerror option" where
  "web_flags_clash f =
     (if gf_network f \<and> gf_local f then Some (ErrMsg ''pass either --network or --local, not both'')
      else if gf_https f \<and> gf_no_https f then Some (ErrMsg ''pass either --https or --no-https, not both'')
      else None)"

definition web_address :: "string \<Rightarrow> settings \<Rightarrow> string" where
  "web_address token s =
     (let port = (if s_webui_port s = 0 then default_webui_port else s_webui_port s);
          open_at = (\<lambda>scheme. scheme @ ''://127.0.0.1:'' @ itoa port @ ''/'')
      in if s_webui_network s then open_at (if s_webui_https s then ''https'' else ''http'')
         else open_at ''http'' @ ''?token='' @ token)"

text \<open>
  \<^verbatim>\<open>godl web\<close>: the settings are changed only if they differ; then the address that is opened, none if the
  interface was turned off.
\<close>

definition web_command ::
  "network \<Rightarrow> gerror option \<Rightarrow> string \<Rightarrow> string result \<Rightarrow> string result \<Rightarrow> web_flags \<Rightarrow> daemon \<Rightarrow> string option result \<times> daemon" where
  "web_command nw ens envpass prompt token f d =
     (case web_flags_clash f of
        Some e \<Rightarrow> (Inl e, d)
      | None \<Rightarrow>
          (case ens of
             Some e \<Rightarrow> (Inl e, d)
           | None \<Rightarrow>
               (case web_wanted f envpass prompt (d_settings d) of
                  Inl e \<Rightarrow> (Inl e, d)
                | Inr s \<Rightarrow>
                    (case (if s = d_settings d then (RespOK, d) else do_request nw (SetSettings (Some s)) d) of
                       (RespError e, d) \<Rightarrow> (Inl (ErrMsg e), d)
                     | (_, d) \<Rightarrow>
                         if gf_off f then (Inr None, d)
                         else if s_webui_network s then (Inr (Some (web_address [] s)), d)
                         else (case token of Inl e \<Rightarrow> (Inl e, d) | Inr t \<Rightarrow> (Inr (Some (web_address t s)), d))))))"

end
