(* ===== verification/CommandLineProps.thy ===== *)
theory CommandLineProps
  imports CommandLine WebApiProps WebAccess
begin

text \<open>
  What the commands ask of the daemon is what the web page asks for the same entries; and the address
  \<^verbatim>\<open>godl web\<close> opens is that of the server that runs.
\<close>

section \<open>One request, from the command line and from the page\<close>

text \<open>A result without the words of its error; the commands and the page word their errors differently.\<close>

definition granted :: "'a result \<Rightarrow> 'a option" where
  "granted r = (case r of Inl _ \<Rightarrow> None | Inr x \<Rightarrow> Some x)"

fun started_requests :: "cli_action result \<Rightarrow> request list option" where
  "started_requests (Inr (StartJobs rs)) = Some rs"
| "started_requests (Inr (FollowJob r)) = Some [r]"
| "started_requests _ = None"

text \<open>The form with the entries of the flags; \<open>dur\<close> is the seed time as it is written.\<close>

definition form_of :: "string \<Rightarrow> cli_flags \<Rightarrow> string \<Rightarrow> string list \<Rightarrow> add_form" where
  "form_of kind f dur links =
     \<lparr>af_type = kind, af_links = links, af_output = cf_output f, af_rate = cf_limit f, af_concurrency = cf_concurrency f,
      af_sha256 = cf_sha256 f,
      af_headers = cf_headers f @ (if cf_agent f \<noteq> [] then [''User-Agent: '' @ cf_agent f] else []) @
        (if cf_referer f \<noteq> [] then [''Referer: '' @ cf_referer f] else []),
      af_cookie = cf_cookie f, af_cookies_file = cf_cookies f, af_preset = cf_preset f, af_format = cf_format f,
      af_cookies_browser = cf_browser f, af_torrent_files = cf_files f, af_seed_ratio = cf_seed_ratio f, af_seed_time = dur,
      af_via = (if cf_torbox f then ViaTorBox else if cf_p2p f then ViaP2P else [])\<rparr>"

text \<open>Entries without space around them, which the page would take off; the page's default is four connections.\<close>

definition trimmed :: "string \<Rightarrow> bool" where
  "trimmed s \<longleftrightarrow> trim_space s = s"

definition plain_flags :: "cli_flags \<Rightarrow> bool" where
  "plain_flags f \<longleftrightarrow> list_all trimmed [cf_output f, cf_limit f, cf_sha256 f, cf_cookie f, cf_cookies f, cf_format f, cf_browser f] \<and>
     list_all (\<lambda>h. trimmed h \<and> h \<noteq> []) (flag_headers f) \<and> 1 \<le> cf_concurrency f"

definition plain_link :: "string \<Rightarrow> bool" where
  "plain_link l \<longleftrightarrow> l \<noteq> [] \<and> trimmed l \<and> \<not> has_prefix l ''#''"

lemma granted_simps [simp]: "granted (Inl e) = None" "granted (Inr x) = Some x"
  by (simp_all add: granted_def)

lemma granted_bind: "granted (case r of Inl e \<Rightarrow> Inl (g e) | Inr x \<Rightarrow> h x) = Option.bind (granted r) (\<lambda>x. granted (h x))"
  by (cases r) simp_all

lemma granted_if [simp]: "granted (if b then Inl e else r) = (if b then None else granted r)"
  by simp

lemma granted_ok: "is_ok r \<longleftrightarrow> granted r \<noteq> None"
  by (cases r) simp_all

lemma form_links_plain: "list_all plain_link ls \<Longrightarrow> form_links ls = ls"
  by (induction ls) (auto simp: form_links_def plain_link_def trimmed_def)

lemma filter_trimmed: "list_all (\<lambda>h. trimmed h \<and> h \<noteq> []) hs \<Longrightarrow> filter (\<lambda>h. h \<noteq> []) (map trim_space hs) = hs"
  by (induction hs) (simp_all add: trimmed_def)

lemma form_headers_of:
  assumes "plain_flags f"
  shows "form_headers (form_of kind f dur links) = flag_headers f"
proof -
  let ?g = "form_of kind f dur links"
  have all: "flag_headers f = af_headers ?g @ (if cf_cookie f \<noteq> [] then [''Cookie: '' @ cf_cookie f] else [])"
    by (simp add: flag_headers_def form_of_def)
  have "filter (\<lambda>h. h \<noteq> []) (map trim_space (af_headers ?g)) = af_headers ?g"
    using assms unfolding plain_flags_def all by (intro filter_trimmed) simp
  moreover have "trim_space (af_cookie ?g) = cf_cookie f"
    using assms by (simp add: plain_flags_def trimmed_def form_of_def)
  ultimately show ?thesis unfolding form_headers_def all by (simp only: Let_def)
qed

lemma form_limit_of: "plain_flags f \<Longrightarrow> form_limit (form_of kind f dur links) = limit_rate_flag (cf_limit f)"
  by (simp add: form_limit_def limit_rate_flag_def form_of_def plain_flags_def trimmed_def)

lemma check_headers_build: "check_headers hs = None \<longleftrightarrow> granted (build_headers hs acc) \<noteq> None"
  by (induction hs arbitrary: acc) (simp_all split: sum.split prod.split)

lemma form_options_of:
  assumes plain: "plain_flags f" and kind: "kind = ''url'' \<or> kind = ''social''"
  shows "granted (form_options env (form_of kind f dur links)) = granted (request_options env f)"
proof -
  let ?g = "form_of kind f dur links"
  have g: "af_type ?g = kind" "trim_space (af_cookies_file ?g) = cf_cookies f"
    using plain by (simp_all add: plain_flags_def trimmed_def form_of_def)
  have abs: "granted (resolve_output (ae_cwd env) (cf_cookies f)) = path_abs (ae_cwd env) (cf_cookies f)" if "cf_cookies f \<noteq> []"
    using that by (simp add: resolve_output_def split: option.split)
  have cmd: "granted (request_options env f) =
      Option.bind (granted (build_headers (flag_headers f) [])) (\<lambda>_. if cf_cookies f = [] then Some (empty_options\<lparr>o_headers := flag_headers f\<rparr>)
        else Option.bind (path_abs (ae_cwd env) (cf_cookies f)) (\<lambda>file. Option.bind (granted (build_set [] file (ae_read env file)))
          (\<lambda>_. Some (empty_options\<lparr>o_headers := flag_headers f, o_cookies_file := file\<rparr>))))"
    using check_headers_build [of "flag_headers f" "[]"]
    by (auto simp: request_options_def Let_def granted_bind split: option.split)
  show ?thesis
    unfolding form_options_def cmd form_headers_of [OF plain] g Let_def
    using kind abs by (auto simp: granted_bind)
qed

lemma absolute_torrents_of:
  "list_all (\<lambda>l. l \<noteq> []) ls \<Longrightarrow> granted (torrent_sources cwd ls) = granted (absolute_torrents cwd ls)"
proof (induction ls)
  case (Cons l ls)
  then show ?case
    by (cases "has_prefix l ''magnet:''"; cases "path_abs cwd l"; simp add: resolve_output_def granted_bind)
qed simp

text \<open>
  What the page has no entry for, or settles without a word: listings, waiting for several downloads, a preset
  beside a format, and seeding what TorBox fetches.
\<close>

definition asks_once :: "cli_flags \<Rightarrow> string list \<Rightarrow> bool" where
  "asks_once f links \<longleftrightarrow> \<not> cf_list f \<and> \<not> cf_list_presets f \<and> (cf_wait f \<longrightarrow> length links = 1) \<and> (cf_preset f = [] \<or> cf_format f = []) \<and>
     \<not> (cf_torbox f \<and> (cf_p2p f \<or> f64_less (FFin 0) (cf_seed_ratio f) \<or> 0 < cf_seed_time f))"

text \<open>The seed time as the library reads it from the command line.\<close>

definition written_time :: "string \<Rightarrow> int \<Rightarrow> bool" where
  "written_time dur n \<longleftrightarrow> dur \<noteq> [] \<and> trimmed dur \<and> parse_duration dur = Some n"

lemma same_url_requests:
  assumes plain: "plain_flags f"
  shows "granted (url_requests (ce_add env) (form_of kind f dur links) links limit opts) =
    (if cf_sha256 f \<noteq> [] \<and> (\<not> sha256_ok (cf_sha256 f) \<or> 1 < length links) then None
     else Option.bind (granted (build_set (o_headers opts) (o_cookies_file opts) (ae_read (ce_add env) (o_cookies_file opts))))
       (\<lambda>hdr. Option.bind (granted (url_outputs (ae_downloads (ce_add env)) (ae_cwd (ce_add env)) (batch_mkdir (ce_add env) (cf_output f))
           links (cf_output f) (ae_name (ce_add env) hdr)))
         (\<lambda>outs. Some (map (\<lambda>(link, out). AddURL link out (cf_concurrency f) limit (to_lower (cf_sha256 f)) opts) (zip links outs)))))"
proof -
  have g: "trim_space (af_sha256 (form_of kind f dur links)) = cf_sha256 f" "trim_space (af_output (form_of kind f dur links)) = cf_output f"
    "(if af_concurrency (form_of kind f dur links) < 1 then 4 else af_concurrency (form_of kind f dur links)) = cf_concurrency f"
    using plain by (simp_all add: plain_flags_def trimmed_def form_of_def)
  show ?thesis unfolding url_requests_def g Let_def by (simp add: granted_bind)
qed

lemma same_url_links:
  assumes plain: "plain_flags f" and links: "list_all plain_link links" "links \<noteq> []"
  shows "granted (build_add_requests (ce_add env) (form_of ''url'' f dur links)) = granted (url_links env f links)"
proof -
  have ty: "af_links (form_of ''url'' f dur links) = links" "af_type (form_of ''url'' f dur links) = ''url''" by (simp_all add: form_of_def)
  have cmd: "granted (url_links env f links) =
      (if cf_sha256 f \<noteq> [] \<and> (\<not> sha256_ok (cf_sha256 f) \<or> 1 < length links) then None
       else Option.bind (granted (limit_rate_flag (cf_limit f))) (\<lambda>limit. Option.bind (granted (request_options (ce_add env) f)) (\<lambda>opts.
         granted (url_requests (ce_add env) (form_of ''url'' f dur links) links limit opts))))"
    unfolding same_url_requests [OF plain] by (simp add: url_links_def Let_def granted_bind cong: Option.bind_cong)
  show ?thesis
    unfolding cmd build_add_requests_def ty form_links_plain [OF links(1)] form_limit_of [OF plain] Let_def same_url_requests [OF plain]
    using links(2) by (simp add: granted_bind form_options_of [OF plain] same_url_requests [OF plain] split: option.split bind_split)
qed

lemma started_bind:
  "started_requests (case r of Inl e \<Rightarrow> Inl (g e) | Inr x \<Rightarrow> h x) = Option.bind (granted r) (\<lambda>x. started_requests (h x))"
  by (cases r) simp_all

lemma started_if [simp]: "started_requests (if b then Inl e else r) = (if b then None else started_requests r)"
  by simp

lemma granted_option:
  "granted (case r of Some e \<Rightarrow> Inl (g e) | None \<Rightarrow> h) = (if r = None then granted h else None)"
  "started_requests (case r of Some e \<Rightarrow> Inl (g e) | None \<Rightarrow> k) = (if r = None then started_requests k else None)"
  by (cases r; simp)+

lemma bind_swap: "Option.bind a (\<lambda>x. Option.bind b (\<lambda>y. h x y)) = Option.bind b (\<lambda>y. Option.bind a (\<lambda>x. h x y))"
  by (cases a; cases b) simp_all

lemma format_flags_of:
  assumes "cf_preset f = [] \<or> cf_format f = []"
  shows "granted (format_flags f) =
    (if cf_preset f \<noteq> [] \<and> cf_format f = [] then map_of presets (cf_preset f) else Some (cf_format f))"
  using assms by (auto simp: format_flags_def split: option.split)

lemma same_social_links:
  assumes plain: "plain_flags f" and links: "list_all plain_link links" "links \<noteq> []" and once: "asks_once f links"
  shows "granted (build_add_requests (ce_add env) (form_of ''social'' f dur links)) = started_requests (social_links env f links)"
proof -
  let ?g = "form_of ''social'' f dur links" let ?env = "ce_add env"
  have g: "af_links ?g = links" "af_type ?g = ''social''" "trim_space (af_format ?g) = cf_format f" "trim_space (af_output ?g) = cf_output f"
    "trim_space (af_cookies_browser ?g) = cf_browser f" "af_preset ?g = cf_preset f"
    using plain by (simp_all add: plain_flags_def trimmed_def form_of_def)
  define rs where "rs limit opts fmt out = map (\<lambda>link. AddSocial link out fmt limit (opts\<lparr>o_cookies_from_browser := cf_browser f\<rparr>)) links"
    for limit opts fmt out
  have started: "started_requests (Inr (if cf_wait f then FollowJob (hd xs) else StartJobs xs)) = Some xs" if "length xs = length links" for xs
    using that once links(2) by (cases xs) (auto simp: asks_once_def)
  have form: "granted (build_add_requests ?env ?g) =
      Option.bind (granted (limit_rate_flag (cf_limit f))) (\<lambda>limit. Option.bind (granted (request_options ?env f)) (\<lambda>opts.
        Option.bind (granted (format_flags f)) (\<lambda>fmt. Option.bind (granted (output_path (ae_downloads ?env) (ae_cwd ?env) (cf_output f) []))
          (\<lambda>out. if ae_mkdir ?env out = None then Some (rs limit opts fmt out) else None))))"
  proof -
    have fmt: "granted (case (if cf_preset f \<noteq> [] \<and> cf_format f = [] then map_of presets (cf_preset f) else Some (cf_format f)) of
        None \<Rightarrow> Inl e | Some fmt \<Rightarrow> k fmt) = Option.bind (granted (format_flags f)) (\<lambda>fmt. granted (k fmt))" for e and k :: "string \<Rightarrow> request list result"
      using format_flags_of [of f] once by (simp add: asks_once_def split: option.split)
    show ?thesis
      unfolding build_add_requests_def social_requests_def g form_links_plain [OF links(1)] form_limit_of [OF plain] Let_def
      using links(2) by (simp add: granted_bind granted_option form_options_of [OF plain] fmt rs_def cong: if_cong)
  qed
  have flags: "cf_list f = False" "(cf_wait f \<and> 1 < length links) = False"
    using once by (auto simp: asks_once_def)
  have cmd: "started_requests (social_links env f links) =
      Option.bind (granted (request_options ?env f)) (\<lambda>opts. Option.bind (granted (format_flags f)) (\<lambda>fmt.
        Option.bind (granted (limit_rate_flag (cf_limit f))) (\<lambda>limit. Option.bind (granted (output_path (ae_downloads ?env) (ae_cwd ?env) (cf_output f) []))
          (\<lambda>out. if ae_mkdir ?env out = None then Some (rs limit opts fmt out) else None))))"
    unfolding social_links_def Let_def started_bind flags if_False granted_option rs_def
    by (simp add: started cong: if_cong)
  show ?thesis unfolding form cmd
    by (cases "granted (limit_rate_flag (cf_limit f))"; cases "granted (request_options ?env f)"; cases "granted (format_flags f)") simp_all
qed

lemma torrent_via_of:
  assumes "asks_once f links"
  shows "torrent_via f = Inr (if cf_torbox f then ViaTorBox else if cf_p2p f then ViaP2P else [])"
  using assms by (auto simp: torrent_via_def asks_once_def Let_def ViaTorBox_def ViaP2P_def)

lemma seed_seconds_of:
  "written_time dur n \<Longrightarrow> granted (seed_seconds dur) = (if n < 0 then None else Some (f64_to_int64 (duration_seconds n)))"
  by (simp add: written_time_def trimmed_def seed_seconds_def)

lemma same_torrent_links:
  assumes plain: "plain_flags f" and links: "list_all plain_link links" "links \<noteq> []" and once: "asks_once f links"
    and dur: "written_time dur (cf_seed_time f)"
  shows "granted (build_add_requests (ce_add env) (form_of ''torrent'' f dur links)) = started_requests (torrent_links env f links)"
proof -
  let ?g = "form_of ''torrent'' f dur links" let ?env = "ce_add env"
  have g: "af_links ?g = links" "af_type ?g = ''torrent''" "trim_space (af_output ?g) = cf_output f" "af_torrent_files ?g = cf_files f"
    "af_seed_ratio ?g = cf_seed_ratio f" "af_seed_time ?g = dur"
    using plain by (simp_all add: plain_flags_def trimmed_def form_of_def)
  define via where "via = af_via ?g"
  have torrent_via: "torrent_via f = Inr via" unfolding torrent_via_of [OF once] via_def by (simp add: form_of_def)
  define rs where "rs limit out srcs = map (\<lambda>src. AddTorrent src out limit
      (empty_options\<lparr>o_torrent_files := cf_files f, o_seed_ratio := cf_seed_ratio f,
         o_seed_time_sec := f64_to_int64 (duration_seconds (cf_seed_time f)), o_via := via\<rparr>)) srcs" for limit out srcs
  have srcs: "granted (torrent_sources (ae_cwd ?env) links) = granted (absolute_torrents (ae_cwd ?env) links)"
    using links(1) by (intro absolute_torrents_of) (simp add: list_all_iff plain_link_def)
  have opts: "form_options ?env ?g = Inr empty_options" by (simp add: form_options_def g)
  define ratio where "ratio \<longleftrightarrow> f64_less (cf_seed_ratio f) (FFin 0)"
  have form: "granted (build_add_requests ?env ?g) =
      Option.bind (granted (limit_rate_flag (cf_limit f))) (\<lambda>limit. Option.bind (granted (parse_selection (cf_files f))) (\<lambda>_.
        if ratio then None else if cf_seed_time f < 0 then None else
          Option.bind (granted (output_path (ae_downloads ?env) (ae_cwd ?env) (cf_output f) []))
            (\<lambda>out. Option.bind (granted (absolute_torrents (ae_cwd ?env) links)) (\<lambda>srcs. Some (rs limit out srcs)))))"
    unfolding build_add_requests_def torrent_requests_def opts g form_links_plain [OF links(1)] form_limit_of [OF plain] Let_def ratio_def
      via_def [symmetric]
    using links(2) by (simp add: granted_bind seed_seconds_of [OF dur] srcs rs_def cong: if_cong)
  have flags: "cf_list f = False" using once by (simp add: asks_once_def)
  have cmd: "started_requests (torrent_links env f links) =
      Option.bind (granted (absolute_torrents (ae_cwd ?env) links)) (\<lambda>srcs. Option.bind (granted (limit_rate_flag (cf_limit f))) (\<lambda>limit.
        Option.bind (granted (output_path (ae_downloads ?env) (ae_cwd ?env) (cf_output f) [])) (\<lambda>out.
          Option.bind (granted (parse_selection (cf_files f))) (\<lambda>_. if ratio \<or> cf_seed_time f < 0 then None else Some (rs limit out srcs)))))"
    unfolding torrent_links_def Let_def started_bind flags if_False torrent_via rs_def ratio_def
    by (simp cong: if_cong)
  show ?thesis unfolding form cmd
    by (cases "granted (limit_rate_flag (cf_limit f))"; cases "granted (absolute_torrents (ae_cwd ?env) links)";
        cases "granted (parse_selection (cf_files f))"; cases "granted (output_path (ae_downloads ?env) (ae_cwd ?env) (cf_output f) [])") simp_all
qed


definition sample_flags :: cli_flags where
  "sample_flags = \<lparr>cf_input = [], cf_output = ''/home/u/x'', cf_limit = [], cf_concurrency = 4, cf_sha256 = [], cf_headers = [''A: b''], cf_agent = ''c'',
     cf_referer = [], cf_cookie = [], cf_cookies = [], cf_format = [], cf_preset = ''720p'', cf_browser = [], cf_wait = True, cf_list = False,
     cf_list_presets = False, cf_files = ''1'', cf_seed_ratio = FFin 2, cf_seed_time = 0, cf_torbox = False, cf_p2p = True\<rparr>"


section \<open>The address that is opened\<close>

definition web_runs_as_set :: "daemon \<Rightarrow> bool" where
  "web_runs_as_set d \<longleftrightarrow> d_web d = (if s_webui (d_settings d) then Some (web_key_of (d_settings d)) else None)"

text \<open>The address of a server on this machine; without a password the token lets the browser in.\<close>

definition key_address :: "string \<Rightarrow> web_key \<Rightarrow> string" where
  "key_address token k =
     (if wk_https k then ''https'' else ''http'') @ ''://127.0.0.1:'' @ itoa (wk_port k) @ ''/'' @ (if wk_network k then [] else ''?token='' @ token)"

lemma web_address_of_key: "web_address token s = key_address token (web_key_of s)"
  by (simp add: web_address_def key_address_def web_key_of_def Let_def)

lemma web_address_network: "s_webui_network s \<Longrightarrow> web_address t s = web_address token s"
  by (simp add: web_address_def)

lemma checked_settings:
  "check_torbox_key rejected cur s = Inr s' \<Longrightarrow> web_key_of s' = web_key_of s \<and> s_webui s' = s_webui s"
  by (auto simp: check_torbox_key_def web_key_of_def Let_def split: if_splits)

lemma sync_web_set:
  "sync_web_ui listen s d = (None, d') \<Longrightarrow> d_web d' = (if s_webui s then Some (web_key_of s) else None)"
  by (auto simp: sync_web_ui_def Let_def split: if_splits option.splits)

lemma apply_settings_web:
  assumes "apply_settings order listen rejected s d = (Inr s', d')"
  shows "web_runs_as_set d' \<and> web_key_of (d_settings d') = web_key_of s \<and> s_webui (d_settings d') = s_webui s"
proof -
  from assms obtain d1 d2 x where
    c: "check_torbox_key rejected (d_settings d) s = Inr s'" "sync_web_ui listen s' d = (None, d1)" "on_store (save_settings order s') d1 = (Inr x, d2)"
      "d' = try_start_queued (apply_global_rate_limit s' (d2\<lparr>d_settings := s'\<rparr>))"
    by (auto simp: apply_settings_def split: option.splits sum.splits prod.splits)
  have "d_settings d' = s'" "d_web d' = d_web d1"
    using c(3) unfolding c(4) by (simp_all add: try_frame on_store_eq) (auto simp: on_store_eq)
  then show ?thesis
    using sync_web_set [OF c(2)] checked_settings [OF c(1)] by (simp add: web_runs_as_set_def)
qed

lemma web_settings_on: "s_webui (web_settings_for f envpass s)"
  by (simp add: web_settings_for_def Let_def split: option.split)

lemma web_wanted_on:
  "web_wanted f envpass prompt s = Inr s' \<Longrightarrow> s_webui s' = (\<not> gf_off f)"
  using web_settings_on [of f envpass s] by (auto simp: web_wanted_def Let_def split: if_splits sum.splits)


definition sample_web_flags :: web_flags where
  "sample_web_flags = \<lparr>gf_off = False, gf_network = True, gf_local = False, gf_https = False, gf_no_https = False, gf_username = ''u'',
     gf_password = ''p'', gf_port = None\<rparr>"


text \<open>
  Two surprises: without a change of settings nothing is sent, so a server that could not be started when the daemon
  was is announced all the same; and \<^verbatim>\<open>--local\<close> is refused while https is on from an earlier \<^verbatim>\<open>--network --https\<close>.
\<close>

lemma stopped_server_is_announced:
  assumes "web_wanted f envpass prompt (d_settings d) = Inr (d_settings d)" and "web_flags_clash f = None" and "\<not> gf_off f"
  shows "web_command nw None envpass prompt (Inr token) f d = (Inr (Some (web_address token (d_settings d))), d)"
  using assms web_address_network [of "d_settings d" "[]" token] by (simp add: web_command_def)

lemma local_is_refused_after_https:
  assumes "gf_local f" and "\<not> gf_network f" and "\<not> gf_no_https f" and "\<not> gf_off f" and "s_webui_https s"
  shows "\<not> is_ok (web_wanted f envpass prompt s)"
proof -
  have "s_webui_https (web_settings_for f envpass s)" "\<not> s_webui_network (web_settings_for f envpass s)"
    using assms by (simp_all add: web_settings_for_def Let_def split: option.split)
  then show ?thesis using assms(4) by (simp add: web_wanted_def Let_def)
qed

section \<open>A batch\<close>

lemma start_each_counts:
  "start_each nw rs (out, errs) d = (Some (out', errs'), d') \<Longrightarrow> length out' + length errs' = length out + length errs + length rs"
proof (induction rs arbitrary: out errs d)
  case (Cons r rs)
  obtain resp d1 where "do_request nw r d = (resp, d1)" by fastforce
  with Cons show ?case by (cases resp) (fastforce split: option.splits if_splits)+
qed simp

text \<open>Every link of a batch is tried: it is announced or it is reported as failed, and the command fails if one did.\<close>

lemma batch_reports_every_link:
  assumes "start_jobs nw None rs d = (Some (out, errs, err), d')" and "length rs \<noteq> 1"
  shows "length out = Suc (length rs - length errs) \<and> length errs \<le> length rs \<and> (err = None \<longleftrightarrow> errs = [])"
proof -
  from assms obtain o' where e: "start_each nw rs ([], []) d = (Some (o', errs), d')" "out = o' @ [batch_line (length o') (length errs)]"
    "err = None \<longleftrightarrow> errs = []"
    by (auto simp: start_jobs_def split: prod.splits option.splits if_splits)
  then show ?thesis using start_each_counts [OF e(1)] by auto
qed

end
