(* ===== verification/Spec2Isabelle.thy ===== *)
theory Spec2Isabelle
  imports RateLimit Format Selection Outcomes WebAccess Retry WebDavWalk WebDavJob UrlJob Social TorBox
    RelayProps Broadcast PlayerProps JobFilesProps WebApiProps BrowseProps ClientProps FileServerProps ToolsProps SettingsTabProps DetailsProps NewJobProps DashboardProps
    ServeForm CommandLineProps
begin

text \<open>
  A model of godl, a download manager: a daemon that keeps a queue of jobs (URLs, torrents, WebDAV
  folders, TorBox and social downloads) in an SQLite table, runs a bounded number of them, and is
  driven by a command line, a terminal interface and a web page.

  \<^bold>\<open>What the code uses of Go and its libraries.\<close>
  \<^item> \<^verbatim>\<open>Prelude\<close>, \<^verbatim>\<open>GoStrings\<close>, \<^verbatim>\<open>GoFloat\<close>, \<^verbatim>\<open>GoPath\<close>, \<^verbatim>\<open>GoUrl\<close>, \<^verbatim>\<open>GoQuote\<close>, \<^verbatim>\<open>Glob\<close>: error values, int64
    with its wrap-around, strings as byte lists, float64 as exact rationals that are rounded,
    \<^verbatim>\<open>filepath.Join\<close> and \<^verbatim>\<open>filepath.Abs\<close>, \<^verbatim>\<open>url.PathEscape\<close>, \<^verbatim>\<open>%q\<close>, \<^verbatim>\<open>path.Match\<close>.
  \<^item> \<^verbatim>\<open>GoSort\<close>: sorting with a function \<^verbatim>\<open>less\<close>; the locale \<open>weak_order\<close> is what \<^verbatim>\<open>sort\<close> asks of it.
    The orders of the code are interpretations: jobs of the dashboard, folders of the browser and
    of the page, streams of a link, versions, sessions of the player, entries of a shared folder.

  \<^bold>\<open>The daemon.\<close>
  \<^item> \<^verbatim>\<open>RateLimit\<close> (\<^verbatim>\<open>internal/ratelimit\<close>), \<^verbatim>\<open>Format\<close> (\<^verbatim>\<open>internal/format\<close>, \<^verbatim>\<open>internal/progress\<close>),
    \<^verbatim>\<open>Selection\<close> and \<^verbatim>\<open>TorrentMgr\<close> (\<^verbatim>\<open>internal/torrentmgr\<close>): leaf components.
  \<^item> \<^verbatim>\<open>Store\<close>, \<^verbatim>\<open>Settings\<close> (\<^verbatim>\<open>internal/store\<close>): the job table with its statements, the migration,
    and the settings rows. A statement may fail: \<open>st_faults\<close> is the sequence of coming failures,
    and an empty one means that nothing fails. Rows are an interpretation of \<open>keyed_table\<close>, the
    values of settings of \<open>codec\<close>.
  \<^item> \<^verbatim>\<open>Slots\<close>: a locale for the contract of a bounded pool, interpreted on the daemon's map of
    runtimes (\<^verbatim>\<open>Queue\<close>) and on the player's slots (\<^verbatim>\<open>PlayerProps\<close>); \<^verbatim>\<open>Daemon\<close>: the daemon's state
    (\<^verbatim>\<open>server.go\<close>), its views (\<^verbatim>\<open>dispatch.go\<close>) and progress reports; \<^verbatim>\<open>Queue\<close> (\<^verbatim>\<open>queue.go\<close>,
    \<^verbatim>\<open>finishJob\<close>), \<^verbatim>\<open>Lifecycle\<close> (\<^verbatim>\<open>lifecycle.go\<close>, \<^verbatim>\<open>seed.go\<close>), \<^verbatim>\<open>Server\<close> (\<^verbatim>\<open>dispatch.go\<close>, \<^verbatim>\<open>settings.go\<close>,
    \<^verbatim>\<open>torrentselect.go\<close>, \<^verbatim>\<open>start_torrent.go\<close>, the start-up scan). \<^verbatim>\<open>QueueProps\<close>, \<^verbatim>\<open>LifecycleProps\<close>
    and \<^verbatim>\<open>ServerProps\<close> hold one preservation lemma per operation; \<^verbatim>\<open>DaemonSteps\<close> puts the
    operations together into a step relation and its reachable states; \<^verbatim>\<open>Outcomes\<close> says what
    single operations leave behind.
  \<^item> \<^verbatim>\<open>JobFiles\<close>, \<^verbatim>\<open>JobFilesProps\<close> (\<^verbatim>\<open>jobfiles.go\<close>, \<^verbatim>\<open>stream.go\<close>, \<^verbatim>\<open>torrentselect.go\<close>): what a job is made
    of, and playing a torrent while it downloads.
  \<^item> \<^verbatim>\<open>Client\<close>, \<^verbatim>\<open>ClientProps\<close> (\<^verbatim>\<open>client.go\<close>): how a command finds, replaces and starts the daemon, and
    follows the lines of a job.

  \<^bold>\<open>The workers.\<close> A worker is a function that ends in a \<open>worker_exit\<close>, which \<open>worker_outcome\<close> of
  \<^verbatim>\<open>Queue\<close> writes to the job's row.
  \<^item> \<^verbatim>\<open>Downloader\<close>, \<^verbatim>\<open>DownloaderProps\<close> (\<^verbatim>\<open>internal/downloader\<close>): the single and the chunked stream;
    \<^verbatim>\<open>UrlJob\<close> (\<^verbatim>\<open>start_url.go\<close>, \<^verbatim>\<open>internal/connections\<close>) the worker of a URL job.
  \<^item> \<^verbatim>\<open>HostGate\<close>, \<^verbatim>\<open>Retry\<close> (\<^verbatim>\<open>internal/webdav\<close>): the cap on requests to one host and the retries;
    \<^verbatim>\<open>WebDavClient\<close> (\<^verbatim>\<open>internal/webdav/webdav.go\<close>) addresses, answers and the concurrent walk of a
    folder, \<^verbatim>\<open>WebDavWalk\<close> its runs, \<^verbatim>\<open>WebDavPaths\<close> the places files go to and the way of a path to the
    server and back, \<^verbatim>\<open>WebDavJob\<close> (\<^verbatim>\<open>download.go\<close>, \<^verbatim>\<open>internal/daemon/webdav.go\<close>) one file's download
    and the worker.
  \<^item> \<^verbatim>\<open>RequestHeaders\<close> (\<^verbatim>\<open>internal/reqhdr\<close>), \<^verbatim>\<open>UrlName\<close> (\<^verbatim>\<open>internal/urlname\<close>, \<^verbatim>\<open>internal/jobreq\<close>): what a
    request is sent, and what a download is called.
  \<^item> \<^verbatim>\<open>Social\<close> (\<^verbatim>\<open>start_social.go\<close>), \<^verbatim>\<open>TorBox\<close> (\<^verbatim>\<open>internal/torbox\<close>, \<^verbatim>\<open>start_torbox.go\<close>).
  \<^item> \<^verbatim>\<open>Tools\<close>, \<^verbatim>\<open>ToolsProps\<close> (\<^verbatim>\<open>internal/ghrelease\<close>, \<^verbatim>\<open>internal/ytdlp\<close>, \<^verbatim>\<open>internal/ffmpeg\<close>,
    \<^verbatim>\<open>internal/jsruntime\<close>, \<^verbatim>\<open>internal/selfupdate\<close>): installing and updating the programs godl runs,
    and itself. Runs of installs are an interpretation of the locale \<open>installs\<close>.

  \<^bold>\<open>The web page\<close> (\<^verbatim>\<open>internal/webui\<close>, \<^verbatim>\<open>internal/daemon/webapi.go\<close>).
  \<^item> \<^verbatim>\<open>WebAccess\<close> (\<^verbatim>\<open>auth.go\<close>): who is served; \<^verbatim>\<open>Broadcast\<close> (\<^verbatim>\<open>events.go\<close>): the feed of the open tabs;
    \<^verbatim>\<open>WebApi\<close>, \<^verbatim>\<open>WebApiProps\<close> (\<^verbatim>\<open>webapi.go\<close>): forms, settings, actions, uploads, what can be played.
  \<^item> \<^verbatim>\<open>Media\<close> (\<^verbatim>\<open>media.go\<close>), \<^verbatim>\<open>MediaLink\<close> (\<^verbatim>\<open>link.go\<close>), \<^verbatim>\<open>Player\<close>, \<^verbatim>\<open>PlayerProps\<close> (\<^verbatim>\<open>player.go\<close>), \<^verbatim>\<open>Relay\<close>,
    \<^verbatim>\<open>RelayProps\<close> (\<^verbatim>\<open>relay.go\<close>): the player, and the server that reads a slow site in pieces.
  \<^item> \<^verbatim>\<open>FileServer\<close>, \<^verbatim>\<open>FileServerProps\<close> (\<^verbatim>\<open>internal/fileserver\<close>): sharing a folder.

  \<^bold>\<open>The terminal interface and the command line.\<close> An overlay or a tab is known by the number it
  was opened with, which stands for its pointer; a message is an event, in any order.
  \<^item> \<^verbatim>\<open>Dashboard\<close>, \<^verbatim>\<open>DashboardProps\<close> (\<^verbatim>\<open>tui/update.go\<close>, \<^verbatim>\<open>sort.go\<close>, \<^verbatim>\<open>table.go\<close>, \<^verbatim>\<open>actions.go\<close>): the table of
    jobs, its keys and messages, and the overlays above it.
  \<^item> \<^verbatim>\<open>Details\<close>, \<^verbatim>\<open>DetailsProps\<close> (\<^verbatim>\<open>tui/details.go\<close>), \<^verbatim>\<open>NewJob\<close>, \<^verbatim>\<open>NewJobProps\<close> (\<^verbatim>\<open>tui/newjob.go\<close>,
    \<^verbatim>\<open>torrentpick.go\<close>), \<^verbatim>\<open>SettingsTab\<close>, \<^verbatim>\<open>SettingsTabProps\<close> (\<^verbatim>\<open>tui/settings.go\<close>), \<^verbatim>\<open>Browse\<close>, \<^verbatim>\<open>BrowseProps\<close>
    (\<^verbatim>\<open>tui/browse.go\<close>, \<^verbatim>\<open>connform.go\<close>), \<^verbatim>\<open>ServeForm\<close> (\<^verbatim>\<open>tui/serve.go\<close>): the overlays and tabs.
  \<^item> \<^verbatim>\<open>CommandLine\<close>, \<^verbatim>\<open>CommandLineProps\<close> (\<^verbatim>\<open>cmd\<close>): how flags and arguments become requests.

  \<^bold>\<open>State and atomicity.\<close> The daemon is one record. Its operations are functions on it that the
  code runs under its locks or in one goroutine; the model takes each as one step, so it says
  nothing of two commands that interleave inside one. The places where the code releases its
  locks in the middle of a transition that matters (a slot reserved but not launched, a worker
  that ends after \<^verbatim>\<open>cancel\<close> gave up waiting) are separate steps. The host gate, the chunked
  download, the walk of a folder and the feed are step relations at the grain of their critical
  sections and reads. The terminal interface has one goroutine; its commands answer later, so
  their answers are messages that come at any time.

  \<^bold>\<open>What is an argument.\<close> The HTTP servers (their replies), the torrent client, TorBox, GitHub,
  the clock, random numbers, \<^verbatim>\<open>net.Listen\<close>, the SQL engine's failures, the disk, SHA-256, what yt-dlp,
  ffmpeg and ffprobe print, the text inputs of the terminal library, and how a worker ends.

  \<^bold>\<open>Loops and bounds.\<close> Loops are structural or have their measure. \<^verbatim>\<open>tryStartQueued\<close> goes round
  again when a start failed; its measure is the number of failures to come, and
  \<open>failing_store_attempts\<close> shows that it does go round once for each. The loop of the relay is a
  partial function, for a site can keep it going; \<open>relay_gives_the_range\<close> shows that it returns
  when the site answers. The only fuel is the length of a duration in \<open>duration_parts\<close>, which
  takes at least one byte a round. The bounds of the code (four requests to a host, three slots and
  the caps of the player, tries for a port, the tries of a ping) are constants with their names.

  \<^bold>\<open>What the theorems show.\<close>
  \<^item> The slots, rows, seeders and timers of a daemon agree in every reachable state, and the cap on
    running jobs holds whichever statements fail (\<^verbatim>\<open>DaemonSteps\<close>, \<^verbatim>\<open>ServerProps\<close>); the table keeps its
    keys and its statements their contract (\<^verbatim>\<open>Store\<close>, \<^verbatim>\<open>Settings\<close>); selections, settings and rates
    read back what was written.
  \<^item> A chunked download that completes has the content, over crashes and resumes; a job that
    completes has its checksum, or its file on the disk; the walk of a folder ends and finds every
    file once; a host never has more than four requests in flight; a wait for a service that only
    fails ends.
  \<^item> What a server or a torrent names is written below the output directory unless it ends in \<^verbatim>\<open>..\<close>;
    headers bring no line break and cookies stay with their site; the files of a batch are apart.
  \<^item> The web interface serves only authenticated requests to allowed hosts; a tab has the latest
    state or a tick to come; a page never shows a secret, and an upload stays in its folder; a
    player's link serves what it was opened for; a shared folder shows nothing outside of it.
  \<^item> No program that was not verified is installed, in any run of installs and updates.
  \<^item> The terminal interface never panics, has its cursor on a row that is there, removes only what it
    asked about, and sends what it shows; the command line, the page and the forms of the terminal
    ask for the same thing.
  \<^item> Some theorems show where the code does something else than it means to: a resumed error page
    that counts as complete, a lost wake-up, a half-written setting that opens the network, a
    replaced timer that stays armed, a failed folder that is shown as paused, a question hidden by a
    late answer, an edit before the settings are in that resets the rest, a web server that did not
    start and is announced.

  \<^bold>\<open>Not modelled.\<close> Colours, layout and animation of the terminal interface; the parsing of a
  command line; the tray, the installer and the integration with the desktop; running mpv, yt-dlp
  and ffmpeg as processes; TLS and certificates; the JSON and XML of messages; the WebDAV package
  behind a share; sockets and the HTTP handlers that only forward. Nothing is said of the memory
  model of Go, of processes that are killed in the middle of a write other than a download's, or of
  time other than as numbers.
\<close>

end
